(* ===== verification/Prelude.thy ===== *)
theory Prelude
  imports Main "HOL-Library.Monad_Syntax"
begin

text \<open>
  Shared vocabulary of the development: the collections of rewrite rules the component
  theories fill, facts about lists that more than one component needs, and the small
  calculus of fallible procedures in which the database code is written.

  A procedure of the importer that talks to PostgreSQL takes a state and returns either
  an error or a value together with the state it left behind. \<open>andThen\<close> is Go's
  \<open>if err != nil { return err }\<close>: an error stops the procedure and keeps the state
  reached so far, so what a rollback must undo is visible in the model.
\<close>

named_theorems proc_simps \<open>rewrite rules that run a procedure\<close>
named_theorems row_simps \<open>unfoldings of row records, keys and payload comparisons\<close>
named_theorems text_simps \<open>rewrite rules for Go strings\<close>
named_theorems sql_simps \<open>unfoldings of SQL statements over table lists\<close>

section \<open>Fallible procedures over a state\<close>

type_synonym ('s, 'e, 'a) proc = "'s \<Rightarrow> ('e + 'a) \<times> 's"

definition ret :: "'a \<Rightarrow> ('s, 'e, 'a) proc" where
  "ret x = (\<lambda>s. (Inr x, s))"

definition throw :: "'e \<Rightarrow> ('s, 'e, 'a) proc" where
  "throw e = (\<lambda>s. (Inl e, s))"

definition andThen :: "('s, 'e, 'a) proc \<Rightarrow> ('a \<Rightarrow> ('s, 'e, 'b) proc) \<Rightarrow> ('s, 'e, 'b) proc" where
  "andThen m f = (\<lambda>s. case m s of (Inl e, s') \<Rightarrow> (Inl e, s') | (Inr x, s') \<Rightarrow> f x s')"

definition getState :: "('s, 'e, 's) proc" where
  "getState = (\<lambda>s. (Inr s, s))"

definition setState :: "'s \<Rightarrow> ('s, 'e, unit) proc" where
  "setState s' = (\<lambda>s. (Inr (), s'))"

definition check :: "bool \<Rightarrow> 'e \<Rightarrow> ('s, 'e, unit) proc" where
  "check b e = (if b then ret () else throw e)"

primrec forEach :: "'a list \<Rightarrow> ('a \<Rightarrow> ('s, 'e, unit) proc) \<Rightarrow> ('s, 'e, unit) proc" where
  "forEach [] f = ret ()"
| "forEach (x # xs) f = andThen (f x) (\<lambda>_. forEach xs f)"

primrec mapEach :: "('a \<Rightarrow> ('s, 'e, 'b) proc) \<Rightarrow> 'a list \<Rightarrow> ('s, 'e, 'b list) proc" where
  "mapEach f [] = ret []"
| "mapEach f (x # xs) = andThen (f x) (\<lambda>y. andThen (mapEach f xs) (\<lambda>ys. ret (y # ys)))"

lemma ret_run [proc_simps, simp]: "ret x s = (Inr x, s)"
  by (simp add: ret_def)

lemma throw_run [proc_simps, simp]: "throw e s = (Inl e, s)"
  by (simp add: throw_def)

lemma getState_run [proc_simps, simp]: "getState s = (Inr s, s)"
  by (simp add: getState_def)

lemma setState_run [proc_simps, simp]: "setState s' s = (Inr (), s')"
  by (simp add: setState_def)

lemma check_run [proc_simps, simp]: "check b e s = (if b then (Inr (), s) else (Inl e, s))"
  by (simp add: check_def)

lemma andThen_ret [proc_simps, simp]: "andThen (ret x) f = f x"
  by (rule ext) (simp add: andThen_def)

lemma andThen_Inl [proc_simps]: "m s = (Inl e, s') \<Longrightarrow> andThen m f s = (Inl e, s')"
  by (simp add: andThen_def)

lemma andThen_Inr [proc_simps]: "m s = (Inr x, s') \<Longrightarrow> andThen m f s = f x s'"
  by (simp add: andThen_def)

lemma andThen_InrE:
  assumes "andThen m f s = (Inr y, s')"
  obtains x t where "m s = (Inr x, t)" and "f x t = (Inr y, s')"
  using assms by (cases "m s") (auto simp: andThen_def split: sum.splits)

lemma andThen_cases:
  assumes "andThen m f s = (r, s')"
  obtains (stop) e where "m s = (Inl e, s')" and "r = Inl e"
    | (go) x t where "m s = (Inr x, t)" and "f x t = (r, s')"
  using assms by (cases "m s") (auto simp: andThen_def split: sum.splits)

lemma andThen_Inr_iff: "andThen m f s = (Inr y, s') \<longleftrightarrow> (\<exists>x t. m s = (Inr x, t) \<and> f x t = (Inr y, s'))"
  by (auto simp: andThen_def split: prod.splits sum.splits)

lemma andThen_guard:
  "andThen m (\<lambda>_. if b then throw e else ret x) s = (Inr y, s') \<Longrightarrow> (\<exists>u. m s = (Inr u, s')) \<and> \<not> b \<and> y = x"
  by (auto simp: andThen_Inr_iff split: if_splits)

lemma mapEach_length: "mapEach f xs s = (Inr ys, s') \<Longrightarrow> length ys = length xs"
  by (induction xs arbitrary: s ys) (auto simp: andThen_Inr_iff)

text \<open>
  \<open>keeps P m\<close>: whatever \<open>m\<close> returns, value or error, it leaves \<open>P\<close> true. The rules
  below are how an invariant is carried through a long handler with early returns.
\<close>

definition keeps :: "('s \<Rightarrow> bool) \<Rightarrow> ('s, 'e, 'a) proc \<Rightarrow> bool" where
  "keeps P m \<longleftrightarrow> (\<forall>s r s'. P s \<longrightarrow> m s = (r, s') \<longrightarrow> P s')"

lemma keepsI: "(\<And>s r s'. P s \<Longrightarrow> m s = (r, s') \<Longrightarrow> P s') \<Longrightarrow> keeps P m"
  by (auto simp: keeps_def)

lemma keepsD: "keeps P m \<Longrightarrow> P s \<Longrightarrow> m s = (r, s') \<Longrightarrow> P s'"
  by (auto simp: keeps_def)

lemma keeps_ret [intro!, simp]: "keeps P (ret x)"
  by (rule keepsI) simp

lemma keeps_throw [intro!, simp]: "keeps P (throw e)"
  by (rule keepsI) simp

lemma keeps_getState [intro!, simp]: "keeps P getState"
  by (rule keepsI) simp

lemma keeps_check [intro!, simp]: "keeps P (check b e)"
  by (rule keepsI) (simp split: if_splits)

lemma keeps_andThen [intro]:
  assumes "keeps P m" and "\<And>x. keeps P (f x)"
  shows "keeps P (andThen m f)"
  by (rule keepsI) (use assms in \<open>auto elim!: andThen_cases dest: keepsD\<close>)

lemma keeps_if [intro]: "keeps P m \<Longrightarrow> keeps P n \<Longrightarrow> keeps P (if b then m else n)"
  by simp

lemma keeps_forEach [intro]: "(\<And>x. x \<in> set xs \<Longrightarrow> keeps P (f x)) \<Longrightarrow> keeps P (forEach xs f)"
  by (induction xs) auto

lemma keeps_mapEach [intro]: "(\<And>x. x \<in> set xs \<Longrightarrow> keeps P (f x)) \<Longrightarrow> keeps P (mapEach f xs)"
  by (induction xs) auto

text \<open>A database transaction: the state of a failed one is the state it began with. A commit that
  fails is one the server did not apply.\<close>

definition atomically :: "bool \<Rightarrow> 'e \<Rightarrow> bool \<Rightarrow> 'e \<Rightarrow> ('s, 'e, 'a) proc \<Rightarrow> ('s, 'e, 'a) proc" where
  "atomically beginFails beginError commitFails commitError m =
     (\<lambda>s. if beginFails then (Inl beginError, s)
           else case m s of
             (Inl e, _) \<Rightarrow> (Inl e, s)
           | (Inr x, s') \<Rightarrow> if commitFails then (Inl commitError, s) else (Inr x, s'))"

lemma atomically_Inl: "atomically b e b' e' m s = (Inl x, s') \<Longrightarrow> s' = s"
  by (auto simp: atomically_def split: if_splits prod.splits sum.splits)

lemma atomically_Inr: "atomically b e b' e' m s = (Inr x, s') \<longleftrightarrow> \<not> b \<and> \<not> b' \<and> m s = (Inr x, s')"
  by (auto simp: atomically_def split: prod.splits sum.splits)

section \<open>Transition systems\<close>

text \<open>A step relation with a predicate that every step keeps: it holds in every state reached.\<close>

locale invariant_system =
  fixes step :: "'s \<Rightarrow> 's \<Rightarrow> bool" and ok :: "'s \<Rightarrow> bool"
  assumes step_ok: "step s t \<Longrightarrow> ok s \<Longrightarrow> ok t"
begin

lemma reach_ok: "step\<^sup>*\<^sup>* s t \<Longrightarrow> ok s \<Longrightarrow> ok t"
  by (induction rule: rtranclp_induct) (auto intro: step_ok)

end

section \<open>Lists\<close>

lemma filter_id_iff: "filter P xs = xs \<longleftrightarrow> (\<forall>x \<in> set xs. P x)"
  by (induction xs) (auto dest: filter_eq_ConsD simp: filter_eq_Cons_iff)

lemma map_eq_mem:
  assumes "map f xs = map g ys" and "x \<in> set xs" shows "\<exists>y \<in> set ys. f x = g y"
proof -
  have "f x \<in> set (map f xs)" using assms(2) by simp
  then have "f x \<in> set (map g ys)" unfolding assms(1) .
  then show ?thesis by auto
qed

lemma sorted_le_last: "sorted xs \<Longrightarrow> x \<in> set xs \<Longrightarrow> x \<le> last xs"
  by (induction xs) auto

lemma distinct_map_eqD: "distinct (map f xs) \<Longrightarrow> x \<in> set xs \<Longrightarrow> y \<in> set xs \<Longrightarrow> f x = f y \<Longrightarrow> x = y"
  by (auto simp: distinct_map inj_on_def)

lemma distinct_key_once: "distinct (map f xs) \<Longrightarrow> length (filter (\<lambda>x. f x = k \<and> P x) xs) \<le> 1"
proof (induction xs)
  case (Cons x xs)
  have "filter (\<lambda>y. f y = k \<and> P y) xs = []" if "f x = k"
    using Cons.prems that by (auto simp: filter_empty_conv rev_image_eqI)
  with Cons show ?case by auto
qed simp

lemma takeWhile_all: "(\<forall>x \<in> set xs. P x) \<Longrightarrow> takeWhile P xs = xs"
  by (induction xs) auto

lemma dropWhile_all: "(\<forall>x \<in> set xs. P x) \<Longrightarrow> dropWhile P xs = []"
  by (induction xs) auto

lemma span_app:
  assumes "\<forall>x \<in> set xs. P x" and "ys = [] \<or> \<not> P (hd ys)"
  shows "takeWhile P (xs @ ys) = xs" and "dropWhile P (xs @ ys) = ys"
  using assms by (induction xs; cases ys; auto)+

lemma sum_list_map_filter_eq:
  "(\<And>x. x \<in> set xs \<Longrightarrow> \<not> P x \<Longrightarrow> f x = (0::int)) \<Longrightarrow> sum_list (map f (filter P xs)) = sum_list (map f xs)"
  by (induction xs) auto

section \<open>Association lists\<close>

text \<open>\<open>m[k] = f(m[k])\<close> on a map kept as an association list in order of insertion.\<close>

fun upsert :: "'k \<Rightarrow> ('v option \<Rightarrow> 'v) \<Rightarrow> ('k \<times> 'v) list \<Rightarrow> ('k \<times> 'v) list" where
  "upsert k f [] = [(k, f None)]"
| "upsert k f ((k', v) # xs) = (if k = k' then (k, f (Some v)) # xs else (k', v) # upsert k f xs)"

lemma map_of_upsert: "map_of (upsert k f xs) = (map_of xs)(k \<mapsto> f (map_of xs k))"
  by (induction k f xs rule: upsert.induct) auto

lemma fst_upsert: "fst ` set (upsert k f xs) = insert k (fst ` set xs)"
  by (induction k f xs rule: upsert.induct) auto

lemma distinct_upsert: "distinct (map fst xs) \<Longrightarrow> distinct (map fst (upsert k f xs))"
proof (induction k f xs rule: upsert.induct)
  case (2 k f k' v xs)
  have "k' \<notin> fst ` set xs" using "2.prems" by auto
  then have "k \<noteq> k' \<Longrightarrow> k' \<notin> fst ` set (upsert k f xs)" by (simp add: fst_upsert)
  with 2 show ?case by auto
qed simp

end
