(* ===== verification/Go_Text.thy ===== *)
theory Go_Text
  imports Prelude "HOL-Library.Char_ord" "HOL-Library.List_Lexorder"
begin

text \<open>
  Go strings and the parts of the packages \<open>strings\<close>, \<open>unicode\<close> and \<open>unicode/utf8\<close>
  the importer calls. A Go string is a sequence of bytes, so it is modelled as an Isabelle
  \<open>string\<close>, a list of 8-bit characters: \<open>length\<close> is Go's \<open>len\<close> and the order of
  \<open>List_Lexorder\<close> is Go's \<open><\<close> on strings (and \<open>bytes.Compare\<close> on slices). A pointer to
  a string is a \<open>string option\<close>, the nil pointer \<open>None\<close>.

  A \<open>range\<close> over a string, a conversion to \<open>[]rune\<close> and \<open>TrimSpace\<close> decode UTF-8:
  \<open>chunks\<close> cuts a string into the decoded runes with the bytes of each, a byte that starts
  no well-formed sequence being the replacement rune with width one.
\<close>

abbreviation byte_of :: "char \<Rightarrow> nat" where
  "byte_of c \<equiv> of_char c"

section \<open>UTF-8 decoding\<close>

definition runeError :: nat where
  "runeError = 0xFFFD"

text \<open>The bytes a second byte must lie between, and the width, by the first byte.\<close>

definition firstByte :: "nat \<Rightarrow> (nat \<times> nat \<times> nat) option" where
  "firstByte b =
     (if b < 0xC2 then None
      else if b < 0xE0 then Some (2, 0x80, 0xBF)
      else if b = 0xE0 then Some (3, 0xA0, 0xBF)
      else if b = 0xED then Some (3, 0x80, 0x9F)
      else if b < 0xF0 then Some (3, 0x80, 0xBF)
      else if b = 0xF0 then Some (4, 0x90, 0xBF)
      else if b < 0xF4 then Some (4, 0x80, 0xBF)
      else if b = 0xF4 then Some (4, 0x80, 0x8F)
      else None)"

definition contByte :: "nat \<Rightarrow> bool" where
  "contByte b \<longleftrightarrow> 0x80 \<le> b \<and> b \<le> 0xBF"

text \<open>The rune a non-empty byte sequence starts with and its width in bytes.\<close>

definition decodeRune :: "nat \<Rightarrow> nat list \<Rightarrow> nat \<times> nat" where
  "decodeRune b0 rest =
     (if b0 < 0x80 then (b0, 1)
      else case firstByte b0 of
        None \<Rightarrow> (runeError, 1)
      | Some (n, lo, hi) \<Rightarrow>
          (case rest of
            [] \<Rightarrow> (runeError, 1)
          | b1 # rest1 \<Rightarrow>
              if b1 < lo \<or> hi < b1 then (runeError, 1)
              else if n = 2 then ((b0 mod 0x20) * 0x40 + b1 mod 0x40, 2)
              else (case rest1 of
                [] \<Rightarrow> (runeError, 1)
              | b2 # rest2 \<Rightarrow>
                  if \<not> contByte b2 then (runeError, 1)
                  else if n = 3 then
                    ((b0 mod 0x10) * 0x1000 + (b1 mod 0x40) * 0x40 + b2 mod 0x40, 3)
                  else (case rest2 of
                    [] \<Rightarrow> (runeError, 1)
                  | b3 # _ \<Rightarrow>
                      if \<not> contByte b3 then (runeError, 1)
                      else ((b0 mod 0x08) * 0x40000 + (b1 mod 0x40) * 0x1000
                              + (b2 mod 0x40) * 0x40 + b3 mod 0x40, 4)))))"

lemma decodeRune_width:
  "decodeRune b0 rest = (r, w) \<Longrightarrow> 0 < w \<and> w \<le> Suc (length rest)"
  by (auto simp: decodeRune_def split: if_splits option.splits list.splits prod.splits)

text \<open>More bytes after a decoded rune do not change it, and a well-formed rune needs no
  byte beyond its own.\<close>

lemma decodeRune_append:
  "decodeRune b0 rest = (r, w) \<Longrightarrow> 1 < w \<Longrightarrow> decodeRune b0 (rest @ more) = (r, w)"
  by (auto simp: decodeRune_def split: if_splits option.splits list.splits prod.splits)

lemma decodeRune_take:
  assumes "decodeRune b0 rest = (r, w)" and "1 < w"
  shows "decodeRune b0 (take (w - 1) rest @ more) = (r, w)"
  using assms
  by (auto simp: decodeRune_def firstByte_def split: if_splits option.splits list.splits prod.splits)

lemma decodeRune_short:
  assumes "decodeRune b0 rest = (r, 1)" and "prefix = take n rest"
  shows "decodeRune b0 prefix = (r, 1)"
  using assms
  by (cases n)
    (auto simp: decodeRune_def firstByte_def take_Cons' split: if_splits option.splits list.splits prod.splits)

function chunks :: "string \<Rightarrow> (nat \<times> string) list" where
  "chunks [] = []"
| "chunks (c # cs) =
     (let (r, w) = decodeRune (byte_of c) (map byte_of cs)
      in (r, c # take (w - 1) cs) # chunks (drop (w - 1) cs))"
  by pat_completeness auto
termination
  by (relation "measure length") (auto simp: le_imp_less_Suc)

definition runes :: "string \<Rightarrow> nat list" where
  "runes s = map fst (chunks s)"

lemma concat_chunks [simp]: "concat (map snd (chunks s)) = s"
  by (induction s rule: chunks.induct) (auto simp: Let_def split: prod.splits)

lemma chunks_Nil_iff [simp]: "chunks s = [] \<longleftrightarrow> s = []"
  by (cases s) (auto simp: Let_def split: prod.splits)


lemma chunks_drop_part: "chunks (concat (map snd (drop n (chunks s)))) = drop n (chunks s)"
proof (induction s arbitrary: n rule: chunks.induct)
  case 1
  then show ?case by simp
next
  case (2 c cs)
  then show ?case
    by (cases n) (auto simp: Let_def split: prod.splits)
qed

lemma prefix_of_chunks: "\<exists>m. concat (map snd (take n (chunks s))) = take m s"
proof -
  have "s = concat (map snd (take n (chunks s))) @ concat (map snd (drop n (chunks s)))"
    by (metis append_take_drop_id concat_append concat_chunks map_append)
  then show ?thesis by (metis append_eq_conv_conj)
qed

lemma chunks_take_part: "chunks (concat (map snd (take n (chunks s)))) = take n (chunks s)"
proof (induction s arbitrary: n rule: chunks.induct)
  case 1
  then show ?case by simp
next
  case (2 c cs)
  obtain r w where d: "decodeRune (byte_of c) (map byte_of cs) = (r, w)"
    by (cases "decodeRune (byte_of c) (map byte_of cs)") auto
  show ?case
  proof (cases n)
    case 0
    then show ?thesis by simp
  next
    case (Suc k)
    define R where "R = concat (map snd (take k (chunks (drop (w - 1) cs))))"
    have w: "0 < w" "w \<le> Suc (length cs)"
      using decodeRune_width [OF d] by auto
    have IH: "chunks R = take k (chunks (drop (w - 1) cs))"
      unfolding R_def using "2" d by simp
    obtain m where m: "R = take m (drop (w - 1) cs)"
      unfolding R_def using prefix_of_chunks by blast
    have "decodeRune (byte_of c) (map byte_of (take (w - 1) cs @ R)) = (r, w)"
    proof (cases "1 < w")
      case True
      then show ?thesis
        using decodeRune_take [OF d True, of "map byte_of R"] by (simp add: take_map)
    next
      case False
      with w have "w = 1" by simp
      with m have "R = take m cs" by simp
      with d \<open>w = 1\<close> show ?thesis
        using decodeRune_short [of "byte_of c" "map byte_of cs" r "map byte_of R" m]
        by (simp add: take_map)
    qed
    moreover have "concat (map snd (take n (chunks (c # cs)))) = c # take (w - 1) cs @ R"
      using Suc d by (simp add: R_def)
    ultimately show ?thesis
      using Suc d IH w by simp
  qed
qed

section \<open>White space and trimming\<close>

text \<open>\<open>unicode.IsSpace\<close>.\<close>

definition isSpace :: "nat \<Rightarrow> bool" where
  "isSpace r \<longleftrightarrow>
     r \<in> {0x09, 0x0A, 0x0B, 0x0C, 0x0D, 0x20, 0x85, 0xA0, 0x1680, 0x2028, 0x2029, 0x202F,
          0x205F, 0x3000}
     \<or> 0x2000 \<le> r \<and> r \<le> 0x200A"

text \<open>\<open>strings.TrimFunc\<close>: leading and trailing runes that satisfy \<open>p\<close> are cut off.\<close>

definition trimList :: "('a \<Rightarrow> bool) \<Rightarrow> 'a list \<Rightarrow> 'a list" where
  "trimList p xs = rev (dropWhile p (rev (dropWhile p xs)))"

definition trimFunc :: "(nat \<Rightarrow> bool) \<Rightarrow> string \<Rightarrow> string" where
  "trimFunc p s = concat (map snd (trimList (\<lambda>c. p (fst c)) (chunks s)))"

definition trimSpace :: "string \<Rightarrow> string" where
  "trimSpace s = trimFunc isSpace s"

lemma trimList_slice: "\<exists>m n. trimList p xs = take m (drop n xs)"
proof -
  define ys where "ys = dropWhile p xs"
  have "ys = drop (length (takeWhile p xs)) xs"
    unfolding ys_def by (rule dropWhile_eq_drop)
  moreover have "trimList p xs = take (length ys - length (takeWhile p (rev ys))) ys"
    unfolding trimList_def ys_def [symmetric]
    by (simp add: dropWhile_eq_drop [of p "rev ys"] rev_drop)
  ultimately show ?thesis by blast
qed

lemma trimList_Nil_iff: "trimList p xs = [] \<longleftrightarrow> (\<forall>x \<in> set xs. p x)"
  by (auto simp: trimList_def dropWhile_eq_Nil_conv dest: set_dropWhileD)
    (metis dropWhile_eq_Nil_conv hd_dropWhile hd_in_set)

lemma dropWhile_hd_id: "xs = [] \<or> \<not> p (hd xs) \<Longrightarrow> dropWhile p xs = xs"
  by (cases xs) auto

lemma hd_rev_dropWhile:
  assumes "xs \<noteq> []" and "\<not> p (hd xs)"
  shows "rev (dropWhile p (rev xs)) \<noteq> [] \<and> hd (rev (dropWhile p (rev xs))) = hd xs"
proof -
  obtain x ys where xs: "xs = x # ys" using assms(1) by (cases xs) auto
  have "dropWhile p (rev ys @ [x]) = dropWhile p (rev ys) @ [x]"
    using assms(2) xs by (induction "rev ys" arbitrary: ys) (auto simp: dropWhile_append3 dropWhile_append)
  then show ?thesis by (simp add: xs)
qed

lemma trimList_idem [simp]: "trimList p (trimList p xs) = trimList p xs"
proof -
  define ys where "ys = dropWhile p xs"
  have ys: "ys = [] \<or> \<not> p (hd ys)"
    unfolding ys_def by (metis hd_dropWhile)
  define zs where "zs = rev (dropWhile p (rev ys))"
  have "zs = [] \<or> \<not> p (hd zs)"
    using ys hd_rev_dropWhile [of ys p] unfolding zs_def by (cases "ys = []") auto
  then have "dropWhile p zs = zs" by (rule dropWhile_hd_id)
  moreover have "dropWhile p (rev zs) = rev zs"
    unfolding zs_def by (simp add: dropWhile_idem)
  ultimately show ?thesis
    unfolding trimList_def ys_def [symmetric] zs_def [symmetric] by simp
qed

lemma chunks_trimFunc: "chunks (trimFunc p s) = trimList (\<lambda>c. p (fst c)) (chunks s)"
proof -
  obtain m n where slice: "trimList (\<lambda>c. p (fst c)) (chunks s) = take m (drop n (chunks s))"
    using trimList_slice by blast
  let ?t = "concat (map snd (drop n (chunks s)))"
  have "chunks ?t = drop n (chunks s)" by (rule chunks_drop_part)
  moreover have "chunks (concat (map snd (take m (chunks ?t)))) = take m (chunks ?t)"
    by (rule chunks_take_part)
  ultimately show ?thesis by (simp add: trimFunc_def slice)
qed

lemma trimFunc_idem [text_simps, simp]: "trimFunc p (trimFunc p s) = trimFunc p s"
  by (simp add: trimFunc_def [of p "trimFunc p s"] chunks_trimFunc) (simp add: trimFunc_def)

lemma trimSpace_idem [text_simps, simp]: "trimSpace (trimSpace s) = trimSpace s"
  by (simp add: trimSpace_def)

lemma trimFunc_Nil [text_simps, simp]: "trimFunc p [] = []"
  by (simp add: trimFunc_def trimList_def)

lemma trimSpace_Nil [text_simps, simp]: "trimSpace [] = []"
  by (simp add: trimSpace_def)

lemma trimFunc_Nil_iff: "trimFunc p s = [] \<longleftrightarrow> (\<forall>r \<in> set (runes s). p r)"
proof -
  have "trimFunc p s = [] \<longleftrightarrow> chunks (trimFunc p s) = []" by simp
  also have "\<dots> \<longleftrightarrow> (\<forall>r \<in> set (runes s). p r)"
    by (simp only: chunks_trimFunc trimList_Nil_iff) (auto simp: runes_def)
  finally show ?thesis .
qed

text \<open>A string that \<open>TrimSpace\<close> leaves alone and that is not empty: what every text column
  the importer writes holds.\<close>

definition clean :: "string \<Rightarrow> bool" where
  "clean s \<longleftrightarrow> s \<noteq> [] \<and> trimSpace s = s"

lemma cleanI: "trimSpace s \<noteq> [] \<Longrightarrow> clean (trimSpace s)"
  by (simp add: clean_def)

text \<open>On ASCII text every byte is a rune of its own.\<close>

definition ascii :: "string \<Rightarrow> bool" where
  "ascii s \<longleftrightarrow> list_all (\<lambda>c. byte_of c < 128) s"

lemma chunks_ascii: "ascii s \<Longrightarrow> chunks s = map (\<lambda>c. (byte_of c, [c])) s"
  by (induction s) (auto simp: ascii_def decodeRune_def)

lemma trimSpace_ascii: "ascii s \<Longrightarrow> trimSpace s = trimList (\<lambda>c. isSpace (byte_of c)) s"
  by (simp add: trimSpace_def trimFunc_def chunks_ascii trimList_def dropWhile_map comp_def rev_map)

section \<open>Digits and decimal text\<close>

definition isDigit :: "char \<Rightarrow> bool" where
  "isDigit c \<longleftrightarrow> 48 \<le> byte_of c \<and> byte_of c \<le> 57"

definition digitVal :: "char \<Rightarrow> nat" where
  "digitVal c = byte_of c - 48"

definition digitChar :: "nat \<Rightarrow> char" where
  "digitChar n = char_of (48 + n)"

definition decVal :: "string \<Rightarrow> nat" where
  "decVal s = foldl (\<lambda>v c. v * 10 + digitVal c) 0 s"

fun decText :: "nat \<Rightarrow> string" where
  "decText n = (if n < 10 then [digitChar n] else decText (n div 10) @ [digitChar (n mod 10)])"

declare decText.simps [simp del]

text \<open>\<open>strconv.FormatInt(v, 10)\<close>.\<close>

definition formatInt :: "int \<Rightarrow> string" where
  "formatInt v = (if v < 0 then CHR ''-'' # decText (nat (- v)) else decText (nat v))"

lemma isDigit_digitChar [simp]: "n < 10 \<Longrightarrow> isDigit (digitChar n)"
  by (simp add: isDigit_def digitChar_def)

lemma digitVal_digitChar [simp]: "n < 10 \<Longrightarrow> digitVal (digitChar n) = n"
  by (simp add: digitVal_def digitChar_def)

lemma digitVal_less: "isDigit c \<Longrightarrow> digitVal c < 10"
  unfolding isDigit_def digitVal_def by linarith

lemma digitChar_digitVal: "isDigit c \<Longrightarrow> digitChar (digitVal c) = c"
  by (simp add: isDigit_def digitVal_def digitChar_def)

lemma decVal_snoc: "decVal (s @ [c]) = decVal s * 10 + digitVal c"
  by (simp add: decVal_def)

lemma decVal_decText [simp]: "decVal (decText n) = n"
proof (induction n rule: decText.induct)
  case (1 n)
  show ?case
  proof (cases "n < 10")
    case True
    then show ?thesis by (subst decText.simps) (simp add: decVal_def)
  next
    case False
    with "1.IH" have "decVal (decText (n div 10)) = n div 10" by simp
    with False show ?thesis by (subst decText.simps) (simp add: decVal_snoc)
  qed
qed

lemma decText_digits: "\<forall>c \<in> set (decText n). isDigit c"
proof (induction n rule: decText.induct)
  case (1 n)
  then show ?case by (subst decText.simps) auto
qed

lemma decText_not_Nil [simp]: "decText n \<noteq> []"
  by (subst decText.simps) simp

end
