(* ===== verification/Helper.thy ===== *)
theory Helper
  imports Go_Text "HOL-Library.Word"
begin

text \<open>
  The packages \<open>src/helper\<close> and \<open>src/result\<close>: string normalisation, the two hash functions
  that key relation rows, the last segment of a URI, and the running result of a write.
  Go's \<open>int32\<close> is a \<open>32 word\<close> read with \<open>sint\<close>, so \<open>31 * hash + unit\<close> wraps as in Go.
\<close>

unbundle bit_operations_syntax

type_synonym int32 = "32 word"
type_synonym uint32 = "32 word"
type_synonym uint64 = "64 word"

section \<open>FilterStr\<close>

definition filterStr :: "string option \<Rightarrow> string option" where
  "filterStr p =
     (case p of
        None \<Rightarrow> None
      | Some s \<Rightarrow> (let tmp = trimSpace s in if length tmp = 0 then None else Some tmp))"

lemma filterStr_None [text_simps, simp]: "filterStr None = None"
  by (simp add: filterStr_def)

lemma filterStr_Some: "filterStr p = Some t \<longleftrightarrow> (\<exists>s. p = Some s \<and> t = trimSpace s \<and> clean t)"
  by (auto simp: filterStr_def clean_def Let_def split: option.splits if_splits)

lemma filterStr_clean: "filterStr p = Some t \<Longrightarrow> clean t"
  by (auto simp: filterStr_Some)

lemma filterStr_idem [text_simps, simp]: "filterStr (filterStr p) = filterStr p"
  by (auto simp: filterStr_def Let_def split: option.splits)

lemma filterStr_id: "clean t \<Longrightarrow> filterStr (Some t) = Some t"
  by (simp add: filterStr_def clean_def Let_def)

section \<open>Hashes\<close>

text \<open>\<open>utf16.Encode\<close>: a rune beyond the basic plane is a surrogate pair, a surrogate or a
  value past the last code point is the replacement unit.\<close>

definition utf16Units :: "nat \<Rightarrow> nat list" where
  "utf16Units r =
     (if r < 0xD800 \<or> (0xE000 \<le> r \<and> r < 0x10000) then [r]
      else if 0x10000 \<le> r \<and> r \<le> 0x10FFFF then
        [0xD800 + ((r - 0x10000) div 0x400) mod 0x400, 0xDC00 + (r - 0x10000) mod 0x400]
      else [0xFFFD])"

definition utf16Encode :: "nat list \<Rightarrow> nat list" where
  "utf16Encode rs = concat (map utf16Units rs)"

definition javaHashStep :: "int32 \<Rightarrow> nat \<Rightarrow> int32" where
  "javaHashStep hash codeUnit = 31 * hash + of_nat codeUnit"

definition javaStringHash :: "string \<Rightarrow> int32" where
  "javaStringHash s = foldl javaHashStep 0 (utf16Encode (runes s))"

text \<open>\<open>fnv.New32\<close>: multiply by the prime, then xor the byte (FNV-1).\<close>

definition fnv32 :: "string \<Rightarrow> uint32" where
  "fnv32 s = foldl (\<lambda>h c. (h * 16777619) XOR of_nat (byte_of c)) 2166136261 s"

text \<open>
  Java defines \<open>hashCode\<close> as the sum of \<open>unit ! i * 31 ^ (n - 1 - i)\<close> in 32-bit arithmetic:
  the loop of the importer computes exactly that polynomial, over the UTF-16 units.
\<close>

lemma javaHash_fold:
  "foldl javaHashStep h us =
     h * 31 ^ length us + (\<Sum>i < length us. of_nat (us ! i) * 31 ^ (length us - 1 - i))"
proof (induction us arbitrary: h rule: rev_induct)
  case Nil
  then show ?case by simp
next
  case (snoc u us)
  have shift: "(\<Sum>i < length us. of_nat (us ! i) * 31 ^ (length us - i)) =
      (31 :: int32) * (\<Sum>i < length us. of_nat (us ! i) * 31 ^ (length us - 1 - i))"
    unfolding sum_distrib_left
  proof (rule sum.cong)
    fix i assume "i \<in> {..<length us}"
    then have "length us - i = Suc (length us - 1 - i)" by auto
    then show "of_nat (us ! i) * (31 :: int32) ^ (length us - i) =
        31 * (of_nat (us ! i) * 31 ^ (length us - 1 - i))" by simp
  qed simp
  have nth: "(\<Sum>i < length us. of_nat ((us @ [u]) ! i) * (31 :: int32) ^ (length us - i)) =
      (\<Sum>i < length us. of_nat (us ! i) * 31 ^ (length us - i))"
    by (rule sum.cong) (auto simp: nth_append)
  show ?case
    by (simp add: snoc nth shift) (simp add: javaHashStep_def algebra_simps)
qed

section \<open>GetLastUriSegment\<close>

text \<open>\<open>strings.Split\<close> by a one-byte separator.\<close>

fun splitBy :: "char \<Rightarrow> string \<Rightarrow> string list" where
  "splitBy sep [] = [[]]"
| "splitBy sep (c # cs) =
     (if c = sep then [] # splitBy sep cs
      else case splitBy sep cs of [] \<Rightarrow> [[c]] | w # ws \<Rightarrow> (c # w) # ws)"

lemma splitBy_not_Nil [simp]: "splitBy sep s \<noteq> []"
  by (induction s) (auto split: list.splits)

lemma splitBy_no_sep: "w \<in> set (splitBy sep s) \<Longrightarrow> sep \<notin> set w"
  by (induction s arbitrary: w) (auto split: if_splits list.splits)

definition getLastUriSegment :: "string \<Rightarrow> string" where
  "getLastUriSegment uri =
     (let parts = splitBy (CHR ''/'') uri; size = length parts
      in if size = 1 then parts ! 0 else parts ! (size - 1))"

lemma getLastUriSegment_last: "getLastUriSegment uri = last (splitBy (CHR ''/'') uri)"
  by (cases "splitBy (CHR ''/'') uri" rule: rev_cases)
    (auto simp: getLastUriSegment_def Let_def nth_append)

section \<open>Results\<close>

text \<open>\<open>src/result\<close>: a count of rows and the first error. \<open>Sum\<close> adds the counts and keeps the
  receiver's error if it has one; a nil argument changes nothing.\<close>

record 'e result =
  count :: int
  err :: "'e option"

definition newResult :: "int \<Rightarrow> 'e option \<Rightarrow> 'e result" where
  "newResult c e = \<lparr>count = c, err = e\<rparr>"

definition isErr :: "'e result \<Rightarrow> bool" where
  "isErr r \<longleftrightarrow> err r \<noteq> None"

definition sumResult :: "'e result \<Rightarrow> 'e result option \<Rightarrow> 'e result" where
  "sumResult r that =
     (case that of
        None \<Rightarrow> r
      | Some t \<Rightarrow> r\<lparr>count := count r + count t,
                     err := (case err r of None \<Rightarrow> err t | Some e \<Rightarrow> Some e)\<rparr>)"

lemma newResult_sel [simp]: "count (newResult c e) = c" "err (newResult c e) = e"
  by (simp_all add: newResult_def)

lemma sumResult_count [simp]: "count (sumResult r (Some t)) = count r + count t"
  by (simp add: sumResult_def)

lemma sumResult_isErr [simp]: "isErr (sumResult r (Some t)) \<longleftrightarrow> isErr r \<or> isErr t"
  by (auto simp: sumResult_def isErr_def split: option.splits)

lemma sumResult_err: "err (sumResult r (Some t)) = (case err r of None \<Rightarrow> err t | Some e \<Rightarrow> Some e)"
  by (simp add: sumResult_def)

section \<open>Properties\<close>

text \<open>The legacy relation hash is Java's \<open>String.hashCode\<close>: over the UTF-16 code units of
  the string, the sum of each unit times 31 to the number of units after it, in wrapping 32-bit
  arithmetic. Rows hashed by the Java importer and by this one therefore agree.\<close>

theorem javaStringHash_is_hashCode:
  "javaStringHash s =
     (let us = utf16Encode (runes s)
      in \<Sum>i < length us. of_nat (us ! i) * 31 ^ (length us - 1 - i))"
  using javaHash_fold [of 0 "utf16Encode (runes s)"] by (simp add: javaStringHash_def Let_def)

end
