(* ===== verification/Ledger.thy ===== *)
theory Ledger
  imports Helper
begin

text \<open>
  The import ledger of \<open>src/batch/progress.go\<close>: the tables that record runs, the dumps of a run
  and the chunks of a dump that have been written, and the transactions that keep them in step
  with the catalog. The SQL statements are functions on table lists; every statement may fail by
  the fault plan \<open>fl\<close> (a lost connection, a cancelled context), in which case the surrounding
  transaction is rolled back. The catalog tables are a type parameter here: a chunk's writer is
  any function on them.

  The schema belongs to another module; what is used of it is that a run has at most one dump row
  per entity type and that the chunk rows have the key run, entity type, chunk index.
\<close>

section \<open>Tables\<close>

type_synonym entityType = string

datatype runStatus = Running | Succeeded | Failed

record runRow =
  rnID :: int
  rnManifest :: string
  rnStatus :: runStatus
  rnCompletedAt :: "int option"
  rnForce :: bool
  rnAllowDowngrade :: bool
  rnVersion :: string
  rnResumedFrom :: "int option"
  rnFailure :: "string option"

record runDumpRow =
  duRun :: int
  duEntity :: entityType
  duDump :: int
  duChunkSize :: "int option"
  duRevision :: "int option"
  duProcessed :: int
  duTotalItems :: "int option"
  duTotalChunks :: "int option"
  duCompletedAt :: "int option"
  duLastProgressAt :: "int option"

record chunkRow =
  ckRun :: int
  ckEntity :: entityType
  ckIndex :: int
  ckFirst :: int
  ckCount :: int
  ckCompletedAt :: int

record ledger =
  runs :: "runRow list"
  runDumps :: "runDumpRow list"
  runChunks :: "chunkRow list"

text \<open>What the statements of a transaction see: the tables and the transaction's \<open>now()\<close>.\<close>

definition runIsActive :: "int \<Rightarrow> ledger \<Rightarrow> bool" where
  "runIsActive r l \<longleftrightarrow> (\<exists>x \<in> set (runs l). rnID x = r \<and> rnStatus x = Running)"

definition dumpMatches :: "int \<Rightarrow> entityType \<Rightarrow> runDumpRow \<Rightarrow> bool" where
  "dumpMatches r e d \<longleftrightarrow> duRun d = r \<and> duEntity d = e"

definition chunkMatches :: "int \<Rightarrow> entityType \<Rightarrow> chunkRow \<Rightarrow> bool" where
  "chunkMatches r e k \<longleftrightarrow> ckRun k = r \<and> ckEntity k = e"

definition chunksOf :: "int \<Rightarrow> entityType \<Rightarrow> ledger \<Rightarrow> chunkRow list" where
  "chunksOf r e l = filter (chunkMatches r e) (runChunks l)"

definition chunkItems :: "chunkRow list \<Rightarrow> int" where
  "chunkItems ks = sum_list (map ckCount ks)"

text \<open>\<open>update t set ... where P\<close> and its number of affected rows.\<close>

definition updateWhere :: "('r \<Rightarrow> bool) \<Rightarrow> ('r \<Rightarrow> 'r) \<Rightarrow> 'r list \<Rightarrow> 'r list" where
  "updateWhere P f rows = map (\<lambda>r. if P r then f r else r) rows"

definition countWhere :: "('r \<Rightarrow> bool) \<Rightarrow> 'r list \<Rightarrow> int" where
  "countWhere P rows = int (length (filter P rows))"

lemma updateWhere_mem: "r \<in> set rows \<Longrightarrow> P r \<Longrightarrow> f r \<in> set (updateWhere P f rows)"
  unfolding updateWhere_def by (auto intro!: image_eqI [of _ _ r])

section \<open>Orders and errors\<close>

record order =
  oChunkSize :: int
  oEntity :: entityType
  oMaxWorkers :: int
  oFile :: string
  oRunID :: int
  oResume :: bool

text \<open>\<open>newOrder\<close> and \<open>NewTrackedOrder\<close> panic on arguments out of range: \<open>None\<close>.\<close>

definition newOrder :: "int \<Rightarrow> int \<Rightarrow> string \<Rightarrow> int \<Rightarrow> entityType \<Rightarrow> bool \<Rightarrow> order option" where
  "newOrder chunkSize maxWorkers file runID entity resume =
     (if chunkSize \<le> 0 then None
      else if maxWorkers \<le> 0 then None
      else Some \<lparr>oChunkSize = chunkSize, oEntity = entity, oMaxWorkers = maxWorkers, oFile = file,
                 oRunID = runID, oResume = resume\<rparr>)"

definition newTrackedOrder :: "int \<Rightarrow> int \<Rightarrow> string \<Rightarrow> int \<Rightarrow> entityType \<Rightarrow> bool \<Rightarrow> order option" where
  "newTrackedOrder chunkSize maxWorkers file runID entity resume =
     (if runID \<le> 0 then None
      else if entity = [] then None
      else newOrder chunkSize maxWorkers file runID entity resume)"

record chunkMeta =
  cmIndex :: int
  cmFirst :: int
  cmCount :: int

datatype ledgerError =
    StatementFailed string
  | CommitFailed
  | RangeMismatch int
  | RunNotActive int
  | ChunkNotRecorded int
  | CoverageMismatch int int
  | WriterFailed string

type_synonym faultPlan = "string \<Rightarrow> bool"

text \<open>A statement named \<open>s\<close>, and a transaction: begin, body, commit. A rolled-back transaction
  leaves nothing behind; a failed commit is one the server did not apply.\<close>

definition sql :: "faultPlan \<Rightarrow> string \<Rightarrow> ('s, ledgerError, 'a) proc \<Rightarrow> ('s, ledgerError, 'a) proc" where
  "sql fl s m = (if fl s then throw (StatementFailed s) else m)"

definition transaction :: "faultPlan \<Rightarrow> ('s, ledgerError, 'a) proc \<Rightarrow> ('s, ledgerError, 'a) proc" where
  "transaction fl = atomically (fl ''begin'') (StatementFailed ''begin'') (fl ''commit'') CommitFailed"

lemma transaction_Inl: "transaction fl m s = (Inl e, s') \<Longrightarrow> s' = s"
  unfolding transaction_def by (rule atomically_Inl)

lemma transaction_Inr: "transaction fl m s = (Inr x, s') \<longleftrightarrow> \<not> fl ''begin'' \<and> \<not> fl ''commit'' \<and> m s = (Inr x, s')"
  by (simp add: transaction_def atomically_Inr)

lemma sql_Inr: "sql fl q m s = (Inr x, s') \<longleftrightarrow> \<not> fl q \<and> m s = (Inr x, s')"
  by (simp add: sql_def)

section \<open>Progress queries\<close>

text \<open>The rows of \<open>loadCompletedEntityProgress\<close>: the completed summary of this entity, if any.\<close>

definition loadCompletedEntityProgress :: "order \<Rightarrow> ledger \<Rightarrow> (int \<times> int) option" where
  "loadCompletedEntityProgress ord l =
     (if \<not> oResume ord then None
      else case filter (\<lambda>d. dumpMatches (oRunID ord) (oEntity ord) d \<and> duChunkSize d = Some (oChunkSize ord) \<and>
               duCompletedAt d \<noteq> None \<and> duTotalItems d \<noteq> None \<and> duTotalChunks d \<noteq> None \<and>
               Some (duProcessed d) = duTotalItems d) (runDumps l) of
        [] \<Rightarrow> None
      | d # _ \<Rightarrow> Some (the (duTotalItems d), the (duTotalChunks d)))"

type_synonym inventory = "int \<rightharpoonup> chunkMeta"

definition metaOf :: "chunkRow \<Rightarrow> chunkMeta" where
  "metaOf k = \<lparr>cmIndex = ckIndex k, cmFirst = ckFirst k, cmCount = ckCount k\<rparr>"

definition loadCompletedChunkInventory :: "order \<Rightarrow> ledger \<Rightarrow> inventory" where
  "loadCompletedChunkInventory ord l =
     (if \<not> oResume ord then Map.empty
      else foldl (\<lambda>m k. m(ckIndex k \<mapsto> metaOf k)) Map.empty
             (sort_key ckIndex (chunksOf (oRunID ord) (oEntity ord) l)))"

definition inventoryContains :: "inventory \<Rightarrow> chunkMeta \<Rightarrow> ledgerError + bool" where
  "inventoryContains completed chunk =
     (case completed (cmIndex chunk) of
        None \<Rightarrow> Inr False
      | Some recorded \<Rightarrow>
          if cmFirst recorded \<noteq> cmFirst chunk \<or> cmCount recorded \<noteq> cmCount chunk
          then Inl (RangeMismatch (cmIndex chunk)) else Inr True)"

section \<open>Recording a chunk\<close>

definition chunkAlreadyCompleted :: "order \<Rightarrow> chunkMeta \<Rightarrow> ledger \<Rightarrow> ledgerError + bool" where
  "chunkAlreadyCompleted ord chunk l =
     (case filter (\<lambda>k. ckIndex k = cmIndex chunk) (chunksOf (oRunID ord) (oEntity ord) l) of
        [] \<Rightarrow> Inr False
      | k # _ \<Rightarrow>
          if ckFirst k \<noteq> cmFirst chunk \<or> ckCount k \<noteq> cmCount chunk then Inl (RangeMismatch (cmIndex chunk))
          else Inr True)"

definition chunkConflicts :: "order \<Rightarrow> chunkMeta \<Rightarrow> ledger \<Rightarrow> bool" where
  "chunkConflicts ord chunk l \<longleftrightarrow>
     (\<exists>k \<in> set (runChunks l). chunkMatches (oRunID ord) (oEntity ord) k \<and> ckIndex k = cmIndex chunk)"

definition newChunkRow :: "int \<Rightarrow> order \<Rightarrow> chunkMeta \<Rightarrow> chunkRow" where
  "newChunkRow now ord chunk =
     \<lparr>ckRun = oRunID ord, ckEntity = oEntity ord, ckIndex = cmIndex chunk, ckFirst = cmFirst chunk,
      ckCount = cmCount chunk, ckCompletedAt = now\<rparr>"

definition progressTarget :: "order \<Rightarrow> runDumpRow \<Rightarrow> bool" where
  "progressTarget ord d \<longleftrightarrow>
     dumpMatches (oRunID ord) (oEntity ord) d \<and> duChunkSize d = Some (oChunkSize ord) \<and> duCompletedAt d = None"

definition recordCompletedChunk :: "faultPlan \<Rightarrow> int \<Rightarrow> order \<Rightarrow> chunkMeta \<Rightarrow> (ledger, ledgerError, unit) proc" where
  "recordCompletedChunk fl now ord chunk =
     sql fl ''record chunk'' (\<lambda>l.
       let inserted = (runIsActive (oRunID ord) l \<and> \<not> chunkConflicts ord chunk l);
           affected = (if inserted then countWhere (progressTarget ord) (runDumps l) else 0);
           l' = (if inserted
                 then l\<lparr>runChunks := runChunks l @ [newChunkRow now ord chunk],
                        runDumps := updateWhere (progressTarget ord)
                          (\<lambda>d. d\<lparr>duProcessed := duProcessed d + cmCount chunk, duLastProgressAt := Some now\<rparr>)
                          (runDumps l)\<rparr>
                 else l)
       in if affected \<noteq> 1 then (Inl (ChunkNotRecorded (cmIndex chunk)), l') else (Inr (), l'))"

section \<open>The chunk transaction\<close>

type_synonym 'c writer = "'c \<Rightarrow> string result \<times> 'c"

text \<open>The body of the transaction in \<open>executeChunk\<close>, over the ledger and the catalog \<open>'c\<close>.\<close>

definition runWriter :: "'c writer \<Rightarrow> (ledger \<times> 'c, ledgerError, int) proc" where
  "runWriter write =
     (\<lambda>(l, c). case write c of
        (w, c') \<Rightarrow> (case err w of Some e \<Rightarrow> (Inl (WriterFailed e), (l, c')) | None \<Rightarrow> (Inr (count w), (l, c'))))"

definition onLedger :: "(ledger, ledgerError, 'a) proc \<Rightarrow> (ledger \<times> 'c, ledgerError, 'a) proc" where
  "onLedger m = (\<lambda>(l, c). case m l of (r, l') \<Rightarrow> (r, (l', c)))"

definition chunkBody ::
  "faultPlan \<Rightarrow> int \<Rightarrow> order \<Rightarrow> chunkMeta \<Rightarrow> 'c writer \<Rightarrow> (ledger \<times> 'c, ledgerError, int) proc" where
  "chunkBody fl now ord chunk write =
     andThen
       (if oResume ord
        then onLedger (sql fl ''check chunk'' (\<lambda>l. (chunkAlreadyCompleted ord chunk l, l)))
        else ret False)
       (\<lambda>completed.
          if completed then ret 0
          else andThen (runWriter write) (\<lambda>n.
            if oRunID ord = 0 then ret n
            else andThen (onLedger (recordCompletedChunk fl now ord chunk)) (\<lambda>_. ret n)))"

definition asResult :: "ledgerError + int \<Rightarrow> ledgerError result" where
  "asResult r = (case r of Inl e \<Rightarrow> newResult 0 (Some e) | Inr n \<Rightarrow> newResult n None)"

definition executeChunk ::
  "faultPlan \<Rightarrow> int \<Rightarrow> order \<Rightarrow> chunkMeta \<Rightarrow> 'c writer \<Rightarrow> ledger \<times> 'c \<Rightarrow> ledgerError result \<times> ledger \<times> 'c" where
  "executeChunk fl now ord chunk write s =
     (case transaction fl (chunkBody fl now ord chunk write) s of (r, s') \<Rightarrow> (asResult r, s'))"

text \<open>\<open>executeActiveRunTransaction\<close>: the write, then the fence that the run is still active. The order
  without a run (\<open>oRunID = 0\<close>) comes only from \<open>NewOrder\<close>, which no part of the program calls; for it
  the code passes on the count of a writer that fails, which the writers here do not return.\<close>

definition executeActiveRunTransaction ::
  "faultPlan \<Rightarrow> order \<Rightarrow> 'c writer \<Rightarrow> ledger \<times> 'c \<Rightarrow> ledgerError result \<times> ledger \<times> 'c" where
  "executeActiveRunTransaction fl ord write s =
     (if oRunID ord = 0 then
        (case runWriter write s of (r, s') \<Rightarrow> (asResult r, s'))
      else case transaction fl
          (andThen (runWriter write) (\<lambda>n.
             andThen (onLedger (sql fl ''fence'' (\<lambda>l.
               (if runIsActive (oRunID ord) l then Inr () else Inl (RunNotActive (oRunID ord)), l))))
               (\<lambda>_. ret n))) s of
        (r, s') \<Rightarrow> (asResult r, s'))"

section \<open>Completing an entity\<close>

definition invalidChunk :: "order \<Rightarrow> int \<Rightarrow> int \<Rightarrow> chunkRow \<Rightarrow> bool" where
  "invalidChunk ord totalItems totalChunks k \<longleftrightarrow>
     ckIndex k \<ge> totalChunks \<or>
     ckFirst k \<noteq> ckIndex k * oChunkSize ord \<or>
     ckCount k \<noteq> (if ckIndex k = totalChunks - 1 then totalItems - ckFirst k else oChunkSize ord)"

definition completionTarget :: "order \<Rightarrow> int \<Rightarrow> int \<Rightarrow> ledger \<Rightarrow> runDumpRow \<Rightarrow> bool" where
  "completionTarget ord totalItems totalChunks l d \<longleftrightarrow>
     (let ks = chunksOf (oRunID ord) (oEntity ord) l
      in runIsActive (oRunID ord) l \<and> dumpMatches (oRunID ord) (oEntity ord) d \<and>
         duChunkSize d = Some (oChunkSize ord) \<and> duProcessed d = totalItems \<and>
         int (length ks) = totalChunks \<and> chunkItems ks = totalItems \<and>
         countWhere (invalidChunk ord totalItems totalChunks) ks = 0)"

definition completeEntityProgress ::
  "faultPlan \<Rightarrow> int \<Rightarrow> order \<Rightarrow> int \<Rightarrow> int \<Rightarrow> (ledger, ledgerError, unit) proc" where
  "completeEntityProgress fl now ord totalItems totalChunks =
     (if oRunID ord = 0 then ret ()
      else sql fl ''complete entity'' (\<lambda>l.
        let target = completionTarget ord totalItems totalChunks l
        in if countWhere target (runDumps l) \<noteq> 1 then (Inl (CoverageMismatch totalItems totalChunks), l)
           else (Inr (), l\<lparr>runDumps := updateWhere target
                    (\<lambda>d. d\<lparr>duTotalItems := Some totalItems, duTotalChunks := Some totalChunks,
                          duCompletedAt := Some now, duLastProgressAt := Some now\<rparr>) (runDumps l)\<rparr>)))"

section \<open>The ledger invariant\<close>

definition uniqueDumps :: "ledger \<Rightarrow> bool" where
  "uniqueDumps l \<longleftrightarrow> distinct (map (\<lambda>d. (duRun d, duEntity d)) (runDumps l))"

definition uniqueChunks :: "ledger \<Rightarrow> bool" where
  "uniqueChunks l \<longleftrightarrow> distinct (map (\<lambda>k. (ckRun k, ckEntity k, ckIndex k)) (runChunks l))"

text \<open>The summary of every dump of an active run counts exactly its recorded chunks.\<close>

definition progressCounted :: "ledger \<Rightarrow> bool" where
  "progressCounted l \<longleftrightarrow>
     (\<forall>d \<in> set (runDumps l). runIsActive (duRun d) l \<longrightarrow>
        duProcessed d = chunkItems (chunksOf (duRun d) (duEntity d) l))"

definition ledgerInv :: "ledger \<Rightarrow> bool" where
  "ledgerInv l \<longleftrightarrow> uniqueDumps l \<and> uniqueChunks l \<and> progressCounted l"

lemma chunksOf_append [sql_simps]:
  "chunksOf r e (l\<lparr>runChunks := runChunks l @ [k], runDumps := ds\<rparr>) =
     chunksOf r e l @ (if chunkMatches r e k then [k] else [])"
  by (simp add: chunksOf_def)

lemma chunkItems_simps [simp]: "chunkItems [] = 0" "chunkItems (xs @ ys) = chunkItems xs + chunkItems ys"
  "chunkItems (k # ks) = ckCount k + chunkItems ks"
  by (simp_all add: chunkItems_def)

lemma runIsActive_upd [sql_simps, simp]:
  "runIsActive r (l\<lparr>runChunks := ks, runDumps := ds\<rparr>) = runIsActive r l"
  "runIsActive r (l\<lparr>runDumps := ds\<rparr>) = runIsActive r l"
  "runIsActive r (l\<lparr>runChunks := ks\<rparr>) = runIsActive r l"
  by (simp_all add: runIsActive_def)

lemma updateWhere_keys:
  "(\<And>r. P r \<Longrightarrow> key (f r) = key r) \<Longrightarrow> map key (updateWhere P f rows) = map key rows"
  by (simp add: updateWhere_def)

lemma countWhere_one:
  "countWhere P rows = 1 \<Longrightarrow> \<exists>d \<in> set rows. P d"
  by (auto simp: countWhere_def filter_empty_conv dest: arg_cong [of _ "[]" length])
    (metis (mono_tags, lifting) One_nat_def filter_False length_0_conv zero_neq_one)

lemma countWhere_zero: "countWhere P rows = 0 \<longleftrightarrow> (\<forall>r \<in> set rows. \<not> P r)"
  by (simp add: countWhere_def filter_empty_conv)

lemma uniqueDumps_eq:
  "uniqueDumps l \<Longrightarrow> d \<in> set (runDumps l) \<Longrightarrow> d' \<in> set (runDumps l) \<Longrightarrow>
    duRun d = duRun d' \<Longrightarrow> duEntity d = duEntity d' \<Longrightarrow> d = d'"
  unfolding uniqueDumps_def by (rule distinct_map_eqD [where f = "\<lambda>d. (duRun d, duEntity d)"]) auto

lemma recordCompletedChunk_Inr:
  assumes "recordCompletedChunk fl now ord chunk l = (Inr u, l')"
  shows "runIsActive (oRunID ord) l \<and> \<not> chunkConflicts ord chunk l \<and> countWhere (progressTarget ord) (runDumps l) = 1 \<and>
    l' = l\<lparr>runChunks := runChunks l @ [newChunkRow now ord chunk],
           runDumps := updateWhere (progressTarget ord)
             (\<lambda>d. d\<lparr>duProcessed := duProcessed d + cmCount chunk, duLastProgressAt := Some now\<rparr>) (runDumps l)\<rparr>"
  using assms by (auto simp: recordCompletedChunk_def sql_Inr Let_def split: if_splits)

lemma recordCompletedChunk_inv:
  assumes inv: "ledgerInv l" and ok: "recordCompletedChunk fl now ord chunk l = (Inr u, l')"
  shows "ledgerInv l'"
proof -
  let ?f = "\<lambda>d. d\<lparr>duProcessed := duProcessed d + cmCount chunk, duLastProgressAt := Some now\<rparr>"
  let ?k = "newChunkRow now ord chunk"
  note r = recordCompletedChunk_Inr [OF ok]
  obtain d0 where d0: "d0 \<in> set (runDumps l)" "progressTarget ord d0" using r countWhere_one by blast
  have only: "progressTarget ord d \<longleftrightarrow> dumpMatches (oRunID ord) (oEntity ord) d" if "d \<in> set (runDumps l)" for d
    using uniqueDumps_eq [of l d d0] inv that d0
    by (auto simp: ledgerInv_def progressTarget_def dumpMatches_def)
  have "uniqueDumps l'"
    using inv r by (simp add: ledgerInv_def uniqueDumps_def updateWhere_keys)
  moreover have "uniqueChunks l'"
    using inv r by (auto simp: ledgerInv_def uniqueChunks_def chunkConflicts_def chunkMatches_def newChunkRow_def)
  moreover have "progressCounted l'"
    unfolding progressCounted_def
  proof (intro ballI impI)
    fix d' assume "d' \<in> set (runDumps l')" and act: "runIsActive (duRun d') l'"
    then obtain d where d: "d \<in> set (runDumps l)" and d': "d' = (if progressTarget ord d then ?f d else d)"
      using r by (auto simp: updateWhere_def)
    have "runIsActive (duRun d) l" using act d' r by (auto split: if_splits)
    then have old: "duProcessed d = chunkItems (chunksOf (duRun d) (duEntity d) l)"
      using inv d by (simp add: ledgerInv_def progressCounted_def)
    have "chunksOf (duRun d) (duEntity d) l' =
        chunksOf (duRun d) (duEntity d) l @ (if progressTarget ord d then [?k] else [])"
      using r only [OF d] by (auto simp: sql_simps chunkMatches_def newChunkRow_def dumpMatches_def)
    then show "duProcessed d' = chunkItems (chunksOf (duRun d') (duEntity d') l')"
      using d' old by (simp add: newChunkRow_def)
  qed
  ultimately show ?thesis by (simp add: ledgerInv_def)
qed

section \<open>What a chunk transaction does\<close>

lemma chunkBody_Inr:
  assumes "chunkBody fl now ord chunk write (l, c) = (Inr n, (l', c'))"
  shows "(oResume ord \<and> chunkAlreadyCompleted ord chunk l = Inr True \<and> n = 0 \<and> l' = l \<and> c' = c) \<or>
    ((\<not> oResume ord \<or> chunkAlreadyCompleted ord chunk l = Inr False) \<and>
     err (fst (write c)) = None \<and> n = count (fst (write c)) \<and> c' = snd (write c) \<and>
     (if oRunID ord = 0 then l' = l else recordCompletedChunk fl now ord chunk l = (Inr (), l')))"
  using assms
  by (auto simp: chunkBody_def andThen_def onLedger_def sql_def runWriter_def
      split: if_splits prod.splits sum.splits option.splits bool.splits)

lemma executeChunk_cases:
  assumes "executeChunk fl now ord chunk write (l, c) = (r, (l', c'))"
  obtains (failed) e where "r = newResult 0 (Some e)" "l' = l" "c' = c"
  | (resumed) "r = newResult 0 None" "l' = l" "c' = c" "oResume ord" "chunkAlreadyCompleted ord chunk l = Inr True"
  | (written) "r = newResult (count (fst (write c))) None" "err (fst (write c)) = None" "c' = snd (write c)"
      "if oRunID ord = 0 then l' = l else recordCompletedChunk fl now ord chunk l = (Inr (), l')"
proof -
  obtain x s where t: "transaction fl (chunkBody fl now ord chunk write) (l, c) = (x, s)"
    by (cases "transaction fl (chunkBody fl now ord chunk write) (l, c)")
  then have r: "r = asResult x" "s = (l', c')" using assms by (simp_all add: executeChunk_def)
  show thesis
  proof (cases x)
    case (Inl e)
    then have "s = (l, c)" using t by (auto dest: transaction_Inl)
    with r Inl show ?thesis by (intro failed) (auto simp: asResult_def)
  next
    case (Inr n)
    then have "chunkBody fl now ord chunk write (l, c) = (Inr n, (l', c'))"
      using t r by (simp add: transaction_Inr)
    from chunkBody_Inr [OF this] show ?thesis
      using resumed written Inr r by (auto simp: asResult_def)
  qed
qed

lemma executeChunk_inv:
  assumes "ledgerInv l" and "executeChunk fl now ord chunk write (l, c) = (r, (l', c'))"
  shows "ledgerInv l'"
  using assms(2) by (cases rule: executeChunk_cases) (use assms(1) recordCompletedChunk_inv in \<open>auto split: if_splits\<close>)

section \<open>Completion\<close>

lemma completeEntityProgress_Inr:
  assumes "completeEntityProgress fl now ord ti tc l = (Inr u, l')" and "oRunID ord \<noteq> 0"
  shows "countWhere (completionTarget ord ti tc l) (runDumps l) = 1 \<and>
    l' = l\<lparr>runDumps := updateWhere (completionTarget ord ti tc l)
        (\<lambda>d. d\<lparr>duTotalItems := Some ti, duTotalChunks := Some tc, duCompletedAt := Some now,
               duLastProgressAt := Some now\<rparr>) (runDumps l)\<rparr>"
  using assms by (auto simp: completeEntityProgress_def sql_Inr Let_def split: if_splits)

lemma completeEntityProgress_inv:
  assumes inv: "ledgerInv l" and ok: "completeEntityProgress fl now ord ti tc l = (Inr u, l')"
  shows "ledgerInv l'"
proof (cases "oRunID ord = 0")
  case True
  then show ?thesis using assms by (auto simp: completeEntityProgress_def)
next
  case False
  note r = completeEntityProgress_Inr [OF ok False]
  have chunks: "chunksOf r e l' = chunksOf r e l" for r e using r by (simp add: chunksOf_def)
  have "uniqueDumps l'" "uniqueChunks l'"
    using inv r by (simp_all add: ledgerInv_def uniqueDumps_def uniqueChunks_def updateWhere_keys)
  moreover have "progressCounted l'"
    using inv r chunks by (auto simp: ledgerInv_def progressCounted_def updateWhere_def)
  ultimately show ?thesis by (simp add: ledgerInv_def)
qed

lemma completion_chunks:
  assumes ok: "completeEntityProgress fl now ord ti tc l = (Inr u, l')" and run: "oRunID ord \<noteq> 0"
  defines "ks \<equiv> chunksOf (oRunID ord) (oEntity ord) l"
  shows "int (length ks) = tc \<and> chunkItems ks = ti \<and> (\<forall>k \<in> set ks. \<not> invalidChunk ord ti tc k) \<and>
    runIsActive (oRunID ord) l \<and>
    (\<exists>d \<in> set (runDumps l). dumpMatches (oRunID ord) (oEntity ord) d \<and> duProcessed d = ti)"
proof -
  have "countWhere (completionTarget ord ti tc l) (runDumps l) = 1"
    using completeEntityProgress_Inr [OF ok run] by blast
  from countWhere_one [OF this] show ?thesis
    by (auto simp: completionTarget_def Let_def countWhere_zero ks_def)
qed

text \<open>Chunk indices of one entity are different; with as many chunks as indices below the total,
  every index occurs.\<close>

lemma chunk_indices:
  assumes "uniqueChunks l" and "\<forall>k \<in> set (chunksOf r e l). 0 \<le> ckIndex k \<and> ckIndex k < tc"
    and "int (length (chunksOf r e l)) = tc"
  shows "ckIndex ` set (chunksOf r e l) = {0 ..< tc}" and "inj_on ckIndex (set (chunksOf r e l))"
proof -
  let ?ks = "chunksOf r e l"
  have "distinct (map (\<lambda>k. (ckRun k, ckEntity k, ckIndex k)) ?ks)"
    using assms(1) by (auto simp: uniqueChunks_def chunksOf_def intro: distinct_map_filter)
  then have dist: "distinct ?ks" and "inj_on (\<lambda>k. (ckRun k, ckEntity k, ckIndex k)) (set ?ks)"
    by (auto simp: distinct_map)
  moreover have "\<forall>k \<in> set ?ks. ckRun k = r \<and> ckEntity k = e" by (simp add: chunksOf_def chunkMatches_def)
  ultimately show inj: "inj_on ckIndex (set ?ks)" by (auto simp: inj_on_def)
  have "card (ckIndex ` set ?ks) = length ?ks" using inj dist by (simp add: card_image distinct_card)
  then have "card (ckIndex ` set ?ks) = card {0 ..< tc}" using assms(3) by simp
  then show "ckIndex ` set ?ks = {0 ..< tc}"
    using assms(2) by (intro card_subset_eq) auto
qed

definition itemRange :: "chunkRow \<Rightarrow> int set" where
  "itemRange k = {ckFirst k ..< ckFirst k + ckCount k}"

lemma completion_partition:
  assumes ok: "completeEntityProgress fl now ord ti tc l = (Inr u, l')" and run: "oRunID ord \<noteq> 0"
    and uniq: "uniqueChunks l" and size: "0 < oChunkSize ord"
    and pos: "\<forall>k \<in> set (chunksOf (oRunID ord) (oEntity ord) l). 0 \<le> ckIndex k \<and> 0 < ckCount k"
  defines "ks \<equiv> chunksOf (oRunID ord) (oEntity ord) l"
  shows "(\<Union>k \<in> set ks. itemRange k) = {0 ..< ti}"
    and "\<And>k k'. k \<in> set ks \<Longrightarrow> k' \<in> set ks \<Longrightarrow> k \<noteq> k' \<Longrightarrow> itemRange k \<inter> itemRange k' = {}"
proof -
  let ?s = "oChunkSize ord"
  have c: "int (length ks) = tc" "chunkItems ks = ti" "\<forall>k \<in> set ks. \<not> invalidChunk ord ti tc k"
    using completion_chunks [OF ok run] by (auto simp: ks_def)
  have k: "0 \<le> ckIndex k \<and> ckIndex k < tc \<and> ckFirst k = ckIndex k * ?s \<and> 0 < ckCount k \<and>
      ckCount k = (if ckIndex k = tc - 1 then ti - ckIndex k * ?s else ?s)" if "k \<in> set ks" for k
    using c(3) that pos by (auto simp: invalidChunk_def ks_def)
  have idx: "ckIndex ` set ks = {0 ..< tc}" and inj: "inj_on ckIndex (set ks)"
    using chunk_indices [OF uniq, of "oRunID ord" "oEntity ord" tc] k c(1) by (auto simp: ks_def)
  have range: "itemRange k = (if ckIndex k = tc - 1 then {(tc - 1) * ?s ..< ti} else {ckIndex k * ?s ..< ckIndex k * ?s + ?s})"
    if "k \<in> set ks" for k
    using k [OF that] by (auto simp: itemRange_def)
  have last: "(tc - 1) * ?s < ti" if "0 < tc"
  proof -
    have "tc - 1 \<in> ckIndex ` set ks" unfolding idx using that by simp
    then obtain k0 where k0: "k0 \<in> set ks" "ckIndex k0 = tc - 1" by auto
    then show ?thesis using k [OF k0(1)] by simp
  qed
  show "itemRange x \<inter> itemRange y = {}" if x: "x \<in> set ks" and y: "y \<in> set ks" and "x \<noteq> y" for x y
  proof -
    have "ckIndex x \<noteq> ckIndex y" using inj x y that by (auto simp: inj_on_def)
    then consider "ckIndex x + 1 \<le> ckIndex y" | "ckIndex y + 1 \<le> ckIndex x" by linarith
    then show ?thesis
    proof cases
      case 1
      then have "(ckIndex x + 1) * ?s \<le> ckIndex y * ?s" using size by (intro mult_right_mono) auto
      moreover have "ckIndex x \<noteq> tc - 1" using 1 k [OF y] by linarith
      ultimately show ?thesis using range [OF x] range [OF y] k [OF y] by (auto simp: algebra_simps split: if_splits)
    next
      case 2
      then have "(ckIndex y + 1) * ?s \<le> ckIndex x * ?s" using size by (intro mult_right_mono) auto
      moreover have "ckIndex y \<noteq> tc - 1" using 2 k [OF x] by linarith
      ultimately show ?thesis using range [OF x] range [OF y] k [OF x] by (auto simp: algebra_simps split: if_splits)
    qed
  qed
  show "(\<Union>k \<in> set ks. itemRange k) = {0 ..< ti}"
  proof (cases "tc = 0")
    case True
    then have "ks = []" using c(1) by simp
    then show ?thesis using c(2) by simp
  next
    case False
    then have tc: "0 < tc" using c(1) by linarith
    show ?thesis
    proof
      show "(\<Union>k \<in> set ks. itemRange k) \<subseteq> {0 ..< ti}"
      proof (rule UN_least)
        fix x assume x: "x \<in> set ks"
        have "0 \<le> ckIndex x * ?s" using k [OF x] size by simp
        moreover have "ckIndex x \<noteq> tc - 1 \<Longrightarrow> ckIndex x * ?s + ?s \<le> (tc - 1) * ?s"
        proof -
          assume "ckIndex x \<noteq> tc - 1"
          then have "(ckIndex x + 1) * ?s \<le> (tc - 1) * ?s" using k [OF x] size by (intro mult_right_mono) auto
          then show ?thesis by (simp add: algebra_simps)
        qed
        ultimately show "itemRange x \<subseteq> {0 ..< ti}"
          using range [OF x] last [OF tc] k [OF x] by (auto split: if_splits)
      qed
      show "{0 ..< ti} \<subseteq> (\<Union>k \<in> set ks. itemRange k)"
      proof
        fix i assume i: "i \<in> {0 ..< ti}"
        define j where "j = min (i div ?s) (tc - 1)"
        have "0 \<le> i div ?s" using i size by (simp add: pos_imp_zdiv_nonneg_iff)
        then have "j \<in> {0 ..< tc}" using tc by (auto simp: j_def)
        then obtain x where x: "x \<in> set ks" "ckIndex x = j" using idx by (metis imageE)
        have d: "i div ?s * ?s \<le> i" "i < i div ?s * ?s + ?s"
          using size pos_mod_bound [of ?s i] pos_mod_sign [of ?s i] div_mult_mod_eq [of i ?s] by linarith+
        have "i \<in> itemRange x"
        proof (cases "j = tc - 1")
          case True
          then have "(tc - 1) * ?s \<le> i div ?s * ?s" using size by (intro mult_right_mono) (auto simp: j_def)
          then have "(tc - 1) * ?s \<le> i" using d(1) by (rule order_trans)
          then show ?thesis using True range [OF x(1)] x(2) i by simp
        next
          case False
          then have "j = i div ?s" by (auto simp: j_def min_def split: if_splits)
          then show ?thesis using False range [OF x(1)] x(2) d by simp
        qed
        then show "i \<in> (\<Union>k \<in> set ks. itemRange k)" using x by blast
      qed
    qed
  qed
qed

section \<open>Properties\<close>

text \<open>A small ledger, an active run with one dump, on which the properties are tried.\<close>

definition demoLedger :: ledger where
  "demoLedger = \<lparr>runs = [\<lparr>rnID = 1, rnManifest = ''m'', rnStatus = Running, rnCompletedAt = None, rnForce = False,
       rnAllowDowngrade = False, rnVersion = [], rnResumedFrom = None, rnFailure = None\<rparr>],
     runDumps = [\<lparr>duRun = 1, duEntity = ''artist'', duDump = 7, duChunkSize = Some 2, duRevision = None, duProcessed = 0,
       duTotalItems = None, duTotalChunks = None, duCompletedAt = None, duLastProgressAt = None\<rparr>],
     runChunks = []\<rparr>"

definition demoOrder :: order where
  "demoOrder = \<lparr>oChunkSize = 2, oEntity = ''artist'', oMaxWorkers = 1, oFile = [], oRunID = 1, oResume = False\<rparr>"

lemmas run_chunk_defs = executeChunk_def transaction_def atomically_def chunkBody_def runWriter_def andThen_def onLedger_def
  recordCompletedChunk_def sql_def runIsActive_def chunkConflicts_def countWhere_def progressTarget_def
  dumpMatches_def newChunkRow_def updateWhere_def asResult_def

lemma demo_inv: "ledgerInv demoLedger"
  by (simp add: ledgerInv_def uniqueDumps_def uniqueChunks_def progressCounted_def demoLedger_def chunksOf_def)

lemma demoOrder_sel [simp]: "oRunID demoOrder = 1" "oEntity demoOrder = ''artist''" "oChunkSize demoOrder = 2"
  "oMaxWorkers demoOrder = 1" "oResume demoOrder = False"
  by (simp_all add: demoOrder_def)

definition demoAfter :: ledger where
  "demoAfter = demoLedger\<lparr>runDumps := [(hd (runDumps demoLedger))\<lparr>duProcessed := 2, duLastProgressAt := Some 5\<rparr>],
      runChunks := [\<lparr>ckRun = 1, ckEntity = ''artist'', ckIndex = 0, ckFirst = 0, ckCount = 2, ckCompletedAt = 5\<rparr>]\<rparr>"

lemma demo_chunk:
  "executeChunk (\<lambda>_. False) 5 demoOrder \<lparr>cmIndex = 0, cmFirst = 0, cmCount = 2\<rparr> (\<lambda>c. (newResult 2 None, c @ [8, 9 :: int]))
     (demoLedger, []) = (newResult 2 None, demoAfter, [8, 9])"
  by (simp add: run_chunk_defs demoAfter_def demoLedger_def chunkMatches_def)

text \<open>C31. A chunk transaction is all or nothing: on an error neither the ledger nor the catalog
  has changed; on success of a tracked run either the chunk was recorded before and nothing has
  changed, or the run is active, the catalog is what the writer made of it, and the ledger gained
  exactly the row of this chunk.\<close>

theorem chunk_transaction_atomic:
  assumes "executeChunk fl now ord chunk write (l, c) = (r, (l', c'))" and "oRunID ord \<noteq> 0"
  shows "if isErr r then l' = l \<and> c' = c
    else (oResume ord \<and> chunkAlreadyCompleted ord chunk l = Inr True \<and> count r = 0 \<and> l' = l \<and> c' = c) \<or>
      (runIsActive (oRunID ord) l \<and> \<not> chunkConflicts ord chunk l \<and> err (fst (write c)) = None \<and>
       c' = snd (write c) \<and> count r = count (fst (write c)) \<and>
       runChunks l' = runChunks l @ [newChunkRow now ord chunk] \<and> runs l' = runs l)"
  using assms(1)
proof (cases rule: executeChunk_cases)
  case written
  then have "recordCompletedChunk fl now ord chunk l = (Inr (), l')" using assms(2) by simp
  from recordCompletedChunk_Inr [OF this] show ?thesis using written by (simp add: isErr_def)
qed (simp_all add: isErr_def)

theorem chunk_transaction_atomic_witness:
  "runChunks demoAfter = runChunks demoLedger @ [newChunkRow 5 demoOrder \<lparr>cmIndex = 0, cmFirst = 0, cmCount = 2\<rparr>]"
  using chunk_transaction_atomic [OF demo_chunk] by (simp add: isErr_def)

text \<open>C30. A chunk is applied at most once: after a successful chunk transaction of a tracked run,
  no further transaction for the same chunk index of that run and entity type, with any writer,
  any range and any failures, changes the ledger or the catalog.\<close>

theorem chunk_applied_once:
  assumes first: "executeChunk fl now ord chunk write (l, c) = (r, (l', c'))"
    and ok: "\<not> isErr r" and run: "oRunID ord \<noteq> 0"
    and again: "executeChunk fl2 now2 ord (chunk\<lparr>cmFirst := f, cmCount := n\<rparr>) write2 (l', c') = (r2, (l'', c''))"
  shows "l'' = l' \<and> c'' = c'"
proof -
  let ?chunk = "chunk\<lparr>cmFirst := f, cmCount := n\<rparr>"
  have conflict: "chunkConflicts ord ?chunk l'"
    using first
  proof (cases rule: executeChunk_cases)
    case resumed
    then show ?thesis
      by (auto simp: chunkAlreadyCompleted_def chunkConflicts_def chunksOf_def filter_eq_Cons_iff split: list.splits)
  next
    case written
    then have "recordCompletedChunk fl now ord chunk l = (Inr (), l')" using run by simp
    from recordCompletedChunk_Inr [OF this] show ?thesis
      by (simp add: chunkConflicts_def) (simp add: chunkMatches_def newChunkRow_def)
  qed (use ok in \<open>simp add: isErr_def\<close>)
  show ?thesis
    using again
  proof (cases rule: executeChunk_cases)
    case written
    then have "recordCompletedChunk fl2 now2 ord ?chunk l' = (Inr (), l'')" using run by simp
    from recordCompletedChunk_Inr [OF this] conflict show ?thesis by simp
  qed simp_all
qed

theorem chunk_applied_once_witness:
  "snd (executeChunk (\<lambda>_. False) 6 demoOrder \<lparr>cmIndex = 0, cmFirst = 0, cmCount = 9\<rparr> (\<lambda>c. (newResult 1 None, c @ [7 :: int]))
     (demoAfter, [8, 9])) = (demoAfter, [8, 9])"
proof -
  obtain r l2 c2 where again: "executeChunk (\<lambda>_. False) 6 demoOrder \<lparr>cmIndex = 0, cmFirst = 0, cmCount = 9\<rparr>
      (\<lambda>c. (newResult 1 None, c @ [7 :: int])) (demoAfter, [8, 9]) = (r, (l2, c2))" by (metis surj_pair)
  then have "l2 = demoAfter \<and> c2 = [8, 9]"
    using chunk_applied_once [OF demo_chunk, of "\<lambda>_. False" 6 9 0 "\<lambda>c. (newResult 1 None, c @ [7])" r l2 c2]
    by (simp add: isErr_def)
  then show ?thesis using again by simp
qed

text \<open>C29. Fencing: once a run is no longer active (it was failed, abandoned or completed by another
  process), none of its chunk transactions, fenced writes or completions changes anything.\<close>

theorem inactive_run_fenced:
  assumes dead: "\<not> runIsActive (oRunID ord) l" and run: "oRunID ord \<noteq> 0"
  shows "snd (executeChunk fl now ord chunk write (l, c)) = (l, c) \<and>
    snd (executeActiveRunTransaction fl ord write (l, c)) = (l, c) \<and>
    snd (completeEntityProgress fl now ord ti tc l) = l"
proof (intro conjI)
  obtain r l' c' where ex: "executeChunk fl now ord chunk write (l, c) = (r, (l', c'))" by (metis surj_pair)
  then show "snd (executeChunk fl now ord chunk write (l, c)) = (l, c)"
    using ex dead run recordCompletedChunk_Inr [of fl now ord chunk l "()" l']
    by (cases rule: executeChunk_cases) auto
  show "snd (executeActiveRunTransaction fl ord write (l, c)) = (l, c)"
    using dead run
    by (auto simp: executeActiveRunTransaction_def transaction_def atomically_def andThen_def onLedger_def sql_def runWriter_def
        split: prod.splits sum.splits option.splits if_splits)
  show "snd (completeEntityProgress fl now ord ti tc l) = l"
    using dead by (simp add: completeEntityProgress_def sql_def countWhere_def completionTarget_def Let_def run)
qed

theorem inactive_run_fenced_witness:
  "snd (executeChunk (\<lambda>_. False) 5 (demoOrder\<lparr>oRunID := 2\<rparr>) \<lparr>cmIndex = 0, cmFirst = 0, cmCount = 1\<rparr>
     (\<lambda>c. (newResult 1 None, c @ [8 :: int])) (demoLedger, [])) = (demoLedger, [])"
proof -
  have "\<not> runIsActive (oRunID (demoOrder\<lparr>oRunID := 2\<rparr>)) demoLedger" by (simp add: runIsActive_def demoLedger_def)
  from this show ?thesis by (rule inactive_run_fenced [THEN conjunct1]) simp
qed

lemma executeActiveRunTransaction_ledger:
  "fst (snd (executeActiveRunTransaction fl ord write (l, c))) = l"
  by (auto simp: executeActiveRunTransaction_def transaction_def atomically_def andThen_def onLedger_def sql_def runWriter_def
      split: prod.splits sum.splits option.splits if_splits)

lemma completeEntityProgress_any_inv:
  assumes "ledgerInv l" and "completeEntityProgress fl now ord ti tc l = (x, l')" shows "ledgerInv l'"
proof (cases x)
  case (Inr u)
  then show ?thesis using completeEntityProgress_inv [OF assms(1), of fl now ord ti tc u l'] assms(2) by simp
next
  case (Inl e)
  then show ?thesis using assms by (auto simp: completeEntityProgress_def sql_def Let_def split: if_splits)
qed

text \<open>C32. Every operation of the ledger keeps its invariant: one summary per dump, one row per chunk
  index, and in every dump of an active run the processed items are the sum of the recorded chunks.\<close>

theorem ledger_invariant_kept:
  assumes "ledgerInv l"
  shows "ledgerInv (fst (snd (executeChunk fl now ord chunk write (l, c)))) \<and>
    ledgerInv (fst (snd (executeActiveRunTransaction fl ord write (l, c)))) \<and>
    ledgerInv (snd (completeEntityProgress fl now ord ti tc l))"
proof (intro conjI)
  show "ledgerInv (fst (snd (executeChunk fl now ord chunk write (l, c))))"
    using executeChunk_inv [OF assms] by (metis prod.collapse)
  show "ledgerInv (fst (snd (executeActiveRunTransaction fl ord write (l, c))))"
    using assms by (simp add: executeActiveRunTransaction_ledger)
  show "ledgerInv (snd (completeEntityProgress fl now ord ti tc l))"
    using completeEntityProgress_any_inv [OF assms] by (metis prod.collapse)
qed

theorem ledger_invariant_kept_witness:
  "ledgerInv (fst (snd (executeChunk (\<lambda>_. False) 5 demoOrder \<lparr>cmIndex = 0, cmFirst = 0, cmCount = 2\<rparr>
     (\<lambda>c. (newResult 2 None, c @ [8, 9 :: int])) (demoLedger, []))))"
  by (rule ledger_invariant_kept [OF demo_inv, THEN conjunct1])

text \<open>Completion is sound: when an entity is marked complete, the item ranges of its recorded
  chunks are pairwise disjoint and together are exactly the items of the dump; none is missing
  and none was counted twice.\<close>

theorem completion_covers_all_items:
  assumes ok: "completeEntityProgress fl now ord ti tc l = (Inr (), l')" and run: "oRunID ord \<noteq> 0"
    and uniq: "uniqueChunks l" and size: "0 < oChunkSize ord"
    and pos: "\<forall>k \<in> set (chunksOf (oRunID ord) (oEntity ord) l). 0 \<le> ckIndex k \<and> 0 < ckCount k"
  shows "(\<Union>k \<in> set (chunksOf (oRunID ord) (oEntity ord) l). itemRange k) = {0 ..< ti} \<and>
    (\<forall>k \<in> set (chunksOf (oRunID ord) (oEntity ord) l). \<forall>k' \<in> set (chunksOf (oRunID ord) (oEntity ord) l).
       k \<noteq> k' \<longrightarrow> itemRange k \<inter> itemRange k' = {})"
  using completion_partition [OF ok run uniq size pos] by blast

theorem completion_covers_all_items_witness:
  "(\<Union>k \<in> set (chunksOf 1 ''artist'' demoAfter). itemRange k) = {0 ..< 2}"
proof -
  obtain l' where "completeEntityProgress (\<lambda>_. False) 6 demoOrder 2 1 demoAfter = (Inr (), l')"
    by (simp add: completeEntityProgress_def sql_def completionTarget_def Let_def countWhere_def
        runIsActive_def dumpMatches_def chunksOf_def chunkMatches_def invalidChunk_def demoAfter_def demoLedger_def)
  from completion_covers_all_items [OF this] show ?thesis
    by (simp add: demoAfter_def uniqueChunks_def chunksOf_def chunkMatches_def)
qed

end
