(* ===== verification/Date_Parser.thy ===== *)
theory Date_Parser
  imports Go_Text
begin

text \<open>
  The package \<open>src/dateparser\<close>: Discogs writes release dates as free text, and \<open>ParseYMD\<close>
  extracts a year, possibly a month, possibly a day. The two regular expressions are the
  recognisers \<open>matchDelimited\<close> and \<open>matchYearMonth\<close>; \<open>timeParse\<close> is the part of Go's
  \<open>time.Parse\<close> that the five numeric layouts use.
\<close>

section \<open>time.Parse for numeric layouts\<close>

datatype stdChunk = LongYear | Year | ZeroMonth | ZeroDay

definition isLeap :: "nat \<Rightarrow> bool" where
  "isLeap y \<longleftrightarrow> y mod 4 = 0 \<and> (y mod 100 \<noteq> 0 \<or> y mod 400 = 0)"

definition daysIn :: "nat \<Rightarrow> nat \<Rightarrow> nat" where
  "daysIn m y =
     (if m = 2 then (if isLeap y then 29 else 28)
      else if m \<in> {4, 6, 9, 11} then 30 else 31)"

definition validDate :: "nat \<Rightarrow> nat \<Rightarrow> nat \<Rightarrow> bool" where
  "validDate y m d \<longleftrightarrow> 1 \<le> m \<and> m \<le> 12 \<and> 1 \<le> d \<and> d \<le> daysIn m y"

text \<open>A fixed-width number: exactly \<open>n\<close> leading digits.\<close>

definition takeNumber :: "nat \<Rightarrow> string \<Rightarrow> (nat \<times> string) option" where
  "takeNumber n s =
     (if length s < n \<or> \<not> list_all isDigit (take n s) then None
      else Some (decVal (take n s), drop n s))"

record clock =
  year :: nat
  month :: nat
  day :: nat

fun parseChunks :: "stdChunk list \<Rightarrow> string \<Rightarrow> clock \<Rightarrow> clock option" where
  "parseChunks [] s t = (if s = [] then Some t else None)"
| "parseChunks (LongYear # cs) s t =
     (case takeNumber 4 s of None \<Rightarrow> None | Some (n, s') \<Rightarrow> parseChunks cs s' (t\<lparr>year := n\<rparr>))"
| "parseChunks (Year # cs) s t =
     (case takeNumber 2 s of
        None \<Rightarrow> None
      | Some (n, s') \<Rightarrow> parseChunks cs s' (t\<lparr>year := (if n \<ge> 69 then n + 1900 else n + 2000)\<rparr>))"
| "parseChunks (ZeroMonth # cs) s t =
     (case takeNumber 2 s of
        None \<Rightarrow> None
      | Some (n, s') \<Rightarrow> if n = 0 \<or> 12 < n then None else parseChunks cs s' (t\<lparr>month := n\<rparr>))"
| "parseChunks (ZeroDay # cs) s t =
     (case takeNumber 2 s of None \<Rightarrow> None | Some (n, s') \<Rightarrow> parseChunks cs s' (t\<lparr>day := n\<rparr>))"

definition timeParse :: "stdChunk list \<Rightarrow> string \<Rightarrow> clock option" where
  "timeParse layout s =
     (case parseChunks layout s \<lparr>year = 0, month = 1, day = 1\<rparr> of
        None \<Rightarrow> None
      | Some t \<Rightarrow> if day t < 1 \<or> day t > daysIn (month t) (year t) then None else Some t)"

section \<open>ParseYMD\<close>

definition dateDelims :: "char set" where
  "dateDelims = {CHR ''-'', CHR ''_'', CHR ''.'', CHR '' ''}"

text \<open>\<open>^(\d+)[-_. ](\d+)[-_. ](\d+)$\<close>: three runs of digits between two delimiters.\<close>

definition matchDelimited :: "string \<Rightarrow> (string \<times> string \<times> string) option" where
  "matchDelimited s =
     (let a = takeWhile isDigit s; r = dropWhile isDigit s
      in if a = [] \<or> r = [] \<or> hd r \<notin> dateDelims then None
         else (let b = takeWhile isDigit (tl r); q = dropWhile isDigit (tl r)
               in if b = [] \<or> q = [] \<or> hd q \<notin> dateDelims then None
                  else if tl q \<noteq> [] \<and> list_all isDigit (tl q) then Some (a, b, tl q) else None))"

text \<open>\<open>^(\d{4})(\d{1,2})\D{0,2}$\<close>.\<close>

definition matchYearMonth :: "string \<Rightarrow> (string \<times> string) option" where
  "matchYearMonth s =
     (let ds = takeWhile isDigit s; rest = dropWhile isDigit s
      in if length ds \<in> {5, 6} \<and> length rest \<le> 2 \<and> list_all (\<lambda>c. \<not> isDigit c) rest
         then Some (take 4 ds, drop 4 ds) else None)"

definition minTwoDigit :: "string \<Rightarrow> string" where
  "minTwoDigit s = (if length s = 1 then CHR ''0'' # s else s)"

definition normalizeDelimited :: "string \<Rightarrow> string" where
  "normalizeDelimited ymd =
     (case matchDelimited ymd of
        None \<Rightarrow> ymd
      | Some (m1, m2, m3) \<Rightarrow>
          (let mo = minTwoDigit m2; dy = minTwoDigit m3
           in m1 @ (if mo \<noteq> ''00'' then mo else [])
                 @ (if mo \<noteq> ''00'' \<and> dy \<noteq> ''00'' then dy else [])))"

definition normalizeDate :: "string \<Rightarrow> string" where
  "normalizeDate ymd =
     (let s = filter isDigit (normalizeDelimited ymd)
      in case matchYearMonth s of None \<Rightarrow> s | Some (m1, m2) \<Rightarrow> m1 @ minTwoDigit m2)"

definition parseYMD :: "string \<Rightarrow> nat option \<times> nat option \<times> nat option" where
  "parseYMD ymd =
     (let s = normalizeDate ymd
      in case timeParse [LongYear, ZeroMonth, ZeroDay] s of
        Some t \<Rightarrow> (Some (year t), Some (month t), Some (day t))
      | None \<Rightarrow>
        (case timeParse [LongYear, ZeroMonth] s of
           Some t \<Rightarrow> (Some (year t), Some (month t), None)
         | None \<Rightarrow>
           (case timeParse [Year, ZeroMonth, ZeroDay] s of
              Some t \<Rightarrow> (Some (year t), Some (month t), Some (day t))
            | None \<Rightarrow>
              (case timeParse [LongYear] s of
                 Some t \<Rightarrow> (Some (year t), None, None)
               | None \<Rightarrow>
                 (case timeParse [Year] s of
                    Some t \<Rightarrow> (Some (year t), None, None)
                  | None \<Rightarrow> (None, None, None))))))"

section \<open>What time.Parse returns\<close>

lemma parseChunks_month:
  "parseChunks layout s t = Some t' \<Longrightarrow> 1 \<le> month t \<Longrightarrow> month t \<le> 12 \<Longrightarrow> 1 \<le> month t' \<and> month t' \<le> 12"
  by (induction layout s t rule: parseChunks.induct)
    (auto split: option.splits prod.splits if_splits simp: Suc_le_eq)

lemma timeParse_valid:
  "timeParse layout s = Some t \<Longrightarrow> validDate (year t) (month t) (day t)"
  using parseChunks_month [of layout s "\<lparr>year = 0, month = 1, day = 1\<rparr>"]
  by (auto simp: timeParse_def validDate_def split: option.splits if_splits)

lemma foldl_dec: "\<forall>c \<in> set s. isDigit c \<Longrightarrow> foldl (\<lambda>v c. v * 10 + digitVal c) v s < (Suc v) * 10 ^ length s"
proof (induction s arbitrary: v)
  case Nil
  then show ?case by simp
next
  case (Cons c s)
  have "digitVal c < 10" using Cons.prems by (intro digitVal_less) simp
  have "foldl (\<lambda>v c. v * 10 + digitVal c) (v * 10 + digitVal c) s < Suc (v * 10 + digitVal c) * 10 ^ length s"
    using Cons by simp
  also have "Suc (v * 10 + digitVal c) * 10 ^ length s \<le> (Suc v * 10) * 10 ^ length s"
    using \<open>digitVal c < 10\<close> by (intro mult_right_mono) auto
  finally show ?case by (simp add: algebra_simps)
qed

lemma decVal_less: "\<forall>c \<in> set s. isDigit c \<Longrightarrow> decVal s < 10 ^ length s"
  using foldl_dec [of s 0] by (simp add: decVal_def)

lemma takeNumber_less: "takeNumber n s = Some (v, s') \<Longrightarrow> v < 10 ^ n"
  using decVal_less [of "take n s"]
  by (auto simp: takeNumber_def list_all_iff min_def split: if_splits)

lemma parseChunks_year:
  "parseChunks layout s t = Some t' \<Longrightarrow> year t \<le> 9999 \<Longrightarrow> year t' \<le> 9999"
  by (induction layout s t rule: parseChunks.induct)
    (auto split: option.splits prod.splits if_splits dest!: takeNumber_less)

lemma timeParse_year: "timeParse layout s = Some t \<Longrightarrow> year t \<le> 9999"
  using parseChunks_year [of layout s "\<lparr>year = 0, month = 1, day = 1\<rparr>"]
  by (auto simp: timeParse_def split: option.splits if_splits)

section \<open>Zero-padded numbers\<close>

fun padded_dec :: "nat \<Rightarrow> nat \<Rightarrow> string" where
  "padded_dec 0 n = []"
| "padded_dec (Suc k) n = padded_dec k (n div 10) @ [digitChar (n mod 10)]"

lemma length_padded_dec [simp]: "length (padded_dec k n) = k"
  by (induction k arbitrary: n) auto

lemma padded_dec_digits: "\<forall>c \<in> set (padded_dec k n). isDigit c"
  by (induction k arbitrary: n) auto

lemma padded_dec_digitsD [simp]: "c \<in> set (padded_dec k n) \<Longrightarrow> isDigit c"
  using padded_dec_digits by blast

lemma decVal_padded_dec: "n < 10 ^ k \<Longrightarrow> decVal (padded_dec k n) = n"
proof (induction k arbitrary: n)
  case 0
  then show ?case by (simp add: decVal_def)
next
  case (Suc k)
  then have "n div 10 < 10 ^ k" by (simp add: less_mult_imp_div_less mult.commute)
  with Suc.IH show ?case by (simp add: decVal_snoc)
qed

lemma takeNumber_padded:
  "n < 10 ^ k \<Longrightarrow> takeNumber k (padded_dec k n @ s) = Some (n, s)"
  by (simp add: takeNumber_def list_all_iff decVal_padded_dec)

lemma takeNumber_padded': "n < 10 ^ k \<Longrightarrow> takeNumber k (padded_dec k n) = Some (n, [])"
  using takeNumber_padded [of n k "[]"] by simp

lemma padded_dec_span:
  assumes "\<not> isDigit c"
  shows "takeWhile isDigit (padded_dec k n @ c # s) = padded_dec k n"
    and "dropWhile isDigit (padded_dec k n @ c # s) = c # s"
  using span_app [of "padded_dec k n" isDigit "c # s"] assms by auto

lemma padded_dec_2_zero: "n < 100 \<Longrightarrow> padded_dec 2 n = ''00'' \<longleftrightarrow> n = 0"
proof
  assume n: "n < 100" and "padded_dec 2 n = ''00''"
  then have "decVal (padded_dec 2 n) = decVal ''00''" by simp
  then show "n = 0"
    using n by (simp add: decVal_padded_dec) (simp add: decVal_def digitVal_def)
next
  have "digitChar 0 = CHR ''0''"
    using digitChar_digitVal [of "CHR ''0''"] by (simp add: isDigit_def digitVal_def)
  then show "n = 0 \<Longrightarrow> padded_dec 2 n = ''00''" by (simp add: numeral_2_eq_2)
qed

text \<open>\<open>yyyy-mm-dd\<close>, the form Discogs documents.\<close>

definition isoDate :: "nat \<Rightarrow> nat \<Rightarrow> nat \<Rightarrow> string" where
  "isoDate y m d = padded_dec 4 y @ CHR ''-'' # padded_dec 2 m @ CHR ''-'' # padded_dec 2 d"

lemma dash_not_digit [simp]: "\<not> isDigit CHR ''-''"
  by (simp add: isDigit_def)

lemma padded_dec_not_Nil [simp]: "padded_dec (Suc k) n \<noteq> []"
  by simp

lemma matchDelimited_iso:
  "matchDelimited (isoDate y m d) = Some (padded_dec 4 y, padded_dec 2 m, padded_dec 2 d)"
proof -
  have ne: "padded_dec 4 y \<noteq> []" "padded_dec 2 m \<noteq> []" "padded_dec 2 d \<noteq> []"
    using length_padded_dec by (metis list.size(3) zero_neq_numeral)+
  then show ?thesis
    by (simp add: matchDelimited_def isoDate_def padded_dec_span dateDelims_def Let_def list_all_iff
        del: length_padded_dec)
qed

lemma normalizeDelimited_iso:
  assumes "m < 100" and "d < 100"
  shows "normalizeDelimited (isoDate y m d) =
    padded_dec 4 y @ (if m = 0 then [] else padded_dec 2 m) @ (if m = 0 \<or> d = 0 then [] else padded_dec 2 d)"
  using assms
  by (auto simp: normalizeDelimited_def matchDelimited_iso minTwoDigit_def padded_dec_2_zero Let_def)

lemma matchYearMonth_digits:
  assumes "\<forall>c \<in> set s. isDigit c"
  shows "matchYearMonth s = (if length s \<in> {5, 6} then Some (take 4 s, drop 4 s) else None)"
  using assms by (auto simp: matchYearMonth_def takeWhile_all dropWhile_all Let_def)

lemma normalizeDate_iso:
  assumes "m < 100" and "d < 100"
  shows "normalizeDate (isoDate y m d) = normalizeDelimited (isoDate y m d)"
proof -
  let ?s = "normalizeDelimited (isoDate y m d)"
  have digits: "\<forall>c \<in> set ?s. isDigit c"
    using assms by (auto simp: normalizeDelimited_iso)
  have f: "filter isDigit ?s = ?s" using digits by (simp add: filter_id_conv)
  have len: "length ?s \<in> {4, 6, 8}" using assms by (auto simp: normalizeDelimited_iso)
  show ?thesis
    unfolding normalizeDate_def f Let_def matchYearMonth_digits [OF digits]
    using len by (auto simp: minTwoDigit_def)
qed

lemma daysIn_le: "daysIn m y \<le> 31"
  by (simp add: daysIn_def)

lemma validDate_less: "validDate y m d \<Longrightarrow> m < 100 \<and> d < 100 \<and> 0 < m \<and> 0 < d"
  using daysIn_le [of m y] by (auto simp: validDate_def)

lemma parseYMD_iso_date:
  assumes "y < 10000" and "validDate y m d"
  shows "parseYMD (isoDate y m d) = (Some y, Some m, Some d)"
  using assms validDate_less [OF assms(2)]
  by (simp add: parseYMD_def normalizeDate_iso normalizeDelimited_iso timeParse_def takeNumber_padded
      takeNumber_padded' validDate_def Let_def)

lemma parseYMD_iso_month:
  assumes "y < 10000" and "1 \<le> m" and "m \<le> 12"
  shows "parseYMD (isoDate y m 0) = (Some y, Some m, None)"
proof -
  have "timeParse [LongYear, ZeroMonth, ZeroDay] (padded_dec 4 y @ padded_dec 2 m) = None"
    using assms by (simp add: timeParse_def takeNumber_padded takeNumber_padded' takeNumber_def)
  moreover have "1 \<le> daysIn m y" by (simp add: daysIn_def)
  ultimately show ?thesis
    using assms
    by (simp add: parseYMD_def normalizeDate_iso normalizeDelimited_iso timeParse_def
        takeNumber_padded takeNumber_padded' Let_def)
qed

lemma parseYMD_iso_year:
  assumes "y < 10000" and "d < 100"
  shows "parseYMD (isoDate y 0 d) = (Some y, None, None)"
proof -
  have none: "takeNumber 2 [] = None" by (simp add: takeNumber_def)
  have "timeParse [Year, ZeroMonth, ZeroDay] (padded_dec 4 y) = None"
    by (auto simp: timeParse_def takeNumber_def split: option.splits if_splits)
  then show ?thesis
    using assms
    by (simp add: parseYMD_def normalizeDate_iso normalizeDelimited_iso timeParse_def
        takeNumber_padded' none daysIn_def Let_def)
qed

lemma parseYMD_cases:
  "case parseYMD s of
     (Some y, Some m, Some d) \<Rightarrow> validDate y m d \<and> y \<le> 9999
   | (Some y, Some m, None) \<Rightarrow> 1 \<le> m \<and> m \<le> 12 \<and> y \<le> 9999
   | (Some y, None, None) \<Rightarrow> y \<le> 9999
   | (None, None, None) \<Rightarrow> True
   | _ \<Rightarrow> False"
  by (auto simp: parseYMD_def Let_def timeParse_year split: option.splits
      dest: timeParse_valid) (auto dest!: timeParse_valid simp: validDate_def)

section \<open>Properties\<close>

text \<open>\<open>ParseYMD\<close> only ever returns calendar dates: with a day there is a month, with a month a
  year, months are 1 to 12, days exist in that month of that year (leap years included), and years
  fit the \<open>int16\<close> they are stored in.\<close>

theorem parseYMD_calendar:
  "case parseYMD s of
     (Some y, Some m, Some d) \<Rightarrow> validDate y m d \<and> y \<le> 9999
   | (Some y, Some m, None) \<Rightarrow> 1 \<le> m \<and> m \<le> 12 \<and> y \<le> 9999
   | (Some y, None, None) \<Rightarrow> y \<le> 9999
   | (None, None, None) \<Rightarrow> True
   | _ \<Rightarrow> False"
  by (rule parseYMD_cases)

text \<open>C37. A date written \<open>yyyy-mm-dd\<close> is read back exactly when it exists, a \<open>00\<close> day reads as
  year and month, and a \<open>00\<close> month as the year alone whatever the day says.\<close>

theorem parseYMD_roundtrip:
  assumes "y < 10000"
  shows "(validDate y m d \<longrightarrow> parseYMD (isoDate y m d) = (Some y, Some m, Some d)) \<and>
    (1 \<le> m \<and> m \<le> 12 \<longrightarrow> parseYMD (isoDate y m 0) = (Some y, Some m, None)) \<and>
    (d < 100 \<longrightarrow> parseYMD (isoDate y 0 d) = (Some y, None, None))"
  using assms parseYMD_iso_date parseYMD_iso_month parseYMD_iso_year by blast

theorem parseYMD_roundtrip_witness:
  "parseYMD (isoDate 2000 2 29) = (Some 2000, Some 2, Some 29) \<and>
   parseYMD (isoDate 2000 2 0) = (Some 2000, Some 2, None) \<and>
   parseYMD (isoDate 2000 0 29) = (Some 2000, None, None)"
  using parseYMD_roundtrip [of 2000 2 29] by (simp add: validDate_def daysIn_def isLeap_def)

end
