(* ===== verification/Admission.thy ===== *)
theory Admission
  imports Ledger
begin

text \<open>
  The statements of \<open>src/batch/execution.go\<close>: what the import coordinator reads and writes in the
  ledger and in the catalog states when it admits and completes a run. Each statement is a
  procedure over the database; the fault plan decides which statements fail.

  The manifest library and the database schema belong to another module and are parameters,
  the fields of \<open>schema\<close>: the fingerprint, the order of the entity types and their locks, the
  contract revisions, the checkpoint view, generated identifiers, the column default of
  \<open>processed_items\<close>, and the two bootstrap functions, which act on the rest of the
  database \<open>'x\<close>.
\<close>

section \<open>Database\<close>

record dump =
  dETag :: string
  dDate :: int
  dEntity :: entityType
  dChecksum :: string
  dSize :: int
  dURI :: string

record manifestDump =
  mdEntity :: entityType
  mdDate :: int
  mdChecksum :: string

record dumpRow =
  dpID :: int
  dpDump :: dump

record entityState =
  esEntity :: entityType
  esStatus :: string
  esOperation :: "string option"
  esActive :: "int option"
  esLastSuccess :: "int option"
  esReadyAt :: "int option"
  esUpdatedAt :: "int option"
  esFailure :: "string option"

record 'x catalogDB =
  dbLedger :: ledger
  dbDumps :: "dumpRow list"
  dbStates :: "entityState list"
  dbRest :: 'x

record checkpoint =
  cpRun :: int
  cpAppliedAt :: int
  cpDate :: "int option"

record 'x schema =
  scFingerprint :: "manifestDump list \<Rightarrow> string + string"
  scOrdered :: "entityType list \<Rightarrow> string + entityType list"
  scLockTypes :: "entityType list \<Rightarrow> string + entityType list"
  scLockKey :: "entityType \<Rightarrow> string + int"
  scRevision :: "entityType \<Rightarrow> int option"
  scIsDowngrade :: "int \<Rightarrow> int \<Rightarrow> bool"
  scCheckpoint :: "'x catalogDB \<Rightarrow> entityType \<Rightarrow> checkpoint option"
  scNextRun :: "'x catalogDB \<Rightarrow> int"
  scNextDump :: "'x catalogDB \<Rightarrow> int"
  scProcessedDefault :: int
  scPrepareBootstrap :: "int \<Rightarrow> 'x \<Rightarrow> 'x option"
  scFinalizeBootstrap :: "int \<Rightarrow> 'x \<Rightarrow> 'x option"

datatype coordError =
    AlreadyPrepared
  | EmptyPlan
  | BadChunkSize
  | NilDump
  | ManifestError string
  | RevisionUnavailable entityType
  | StatementError string
  | LockBusy entityType
  | DowngradeRefused entityType
  | PartiallySatisfied "entityType list"
  | Recorded int int
  | Copied int int
  | Pruned int int
  | StatesUpdated string int int
  | BootstrapError string
  | NotRunning int
  | IncompleteRun int int

type_synonym ('x, 'a) query = "('x catalogDB, coordError, 'a) proc"

definition stmt :: "faultPlan \<Rightarrow> string \<Rightarrow> ('s, coordError, 'a) proc \<Rightarrow> ('s, coordError, 'a) proc" where
  "stmt fl s m = (if fl s then throw (StatementError s) else m)"

definition overLedger :: "(ledger \<Rightarrow> ledger) \<Rightarrow> 'x catalogDB \<Rightarrow> 'x catalogDB" where
  "overLedger f db = db\<lparr>dbLedger := f (dbLedger db)\<rparr>"

section \<open>Contract revisions\<close>

definition artistEntityType :: entityType where "artistEntityType = ''artist''"
definition labelEntityType :: entityType where "labelEntityType = ''label''"
definition masterEntityType :: entityType where "masterEntityType = ''master''"
definition releaseEntityType :: entityType where "releaseEntityType = ''release''"

lemmas entityType_defs = artistEntityType_def labelEntityType_def masterEntityType_def releaseEntityType_def

definition currentRevision :: "'x schema \<Rightarrow> entityType \<Rightarrow> int option" where
  "currentRevision sc e =
     (if e \<in> {artistEntityType, labelEntityType, masterEntityType, releaseEntityType} then scRevision sc e else None)"

fun resolveImportContractRevisions :: "'x schema \<Rightarrow> entityType list \<Rightarrow> coordError + int list" where
  "resolveImportContractRevisions sc [] = Inr []"
| "resolveImportContractRevisions sc (e # es) =
     (case currentRevision sc e of
        None \<Rightarrow> Inl (RevisionUnavailable e)
      | Some v \<Rightarrow>
          if v < 1 then Inl (RevisionUnavailable e)
          else (case resolveImportContractRevisions sc es of Inl x \<Rightarrow> Inl x | Inr vs \<Rightarrow> Inr (v # vs)))"

section \<open>The latest run\<close>

text \<open>\<open>order by completed_at desc, id desc limit 1\<close>: PostgreSQL sorts a missing completion time
  before all others when descending, so it counts as the latest.\<close>

datatype runAge = RunAge "int option" int

instantiation runAge :: linorder
begin

fun less_eq_runAge :: "runAge \<Rightarrow> runAge \<Rightarrow> bool" where
  "less_eq_runAge (RunAge (Some t) i) (RunAge (Some u) j) \<longleftrightarrow> t < u \<or> (t = u \<and> i \<le> j)"
| "less_eq_runAge (RunAge (Some t) i) (RunAge None j) \<longleftrightarrow> True"
| "less_eq_runAge (RunAge None i) (RunAge (Some u) j) \<longleftrightarrow> False"
| "less_eq_runAge (RunAge None i) (RunAge None j) \<longleftrightarrow> i \<le> j"

definition less_runAge :: "runAge \<Rightarrow> runAge \<Rightarrow> bool" where
  "less_runAge x y \<longleftrightarrow> x \<le> y \<and> \<not> y \<le> x"

instance
proof
  fix x y z :: runAge
  show "(x < y) = (x \<le> y \<and> \<not> y \<le> x)" by (rule less_runAge_def)
  show "x \<le> x" by (cases x; cases "case x of RunAge t i \<Rightarrow> t") auto
  show "x \<le> y \<Longrightarrow> y \<le> z \<Longrightarrow> x \<le> z"
    by (cases "(x, y)" rule: less_eq_runAge.cases; cases "(y, z)" rule: less_eq_runAge.cases) auto
  show "x \<le> y \<Longrightarrow> y \<le> x \<Longrightarrow> x = y"
    by (cases "(x, y)" rule: less_eq_runAge.cases) auto
  show "x \<le> y \<or> y \<le> x"
    by (cases "(x, y)" rule: less_eq_runAge.cases) auto
qed

end

definition ageOf :: "runRow \<Rightarrow> runAge" where
  "ageOf r = RunAge (rnCompletedAt r) (rnID r)"

definition latestRun :: "(runRow \<Rightarrow> bool) \<Rightarrow> ledger \<Rightarrow> runRow option" where
  "latestRun P l = (case sort_key ageOf (filter P (runs l)) of [] \<Rightarrow> None | rs \<Rightarrow> Some (last rs))"

lemma sort_key_Nil_iff: "sort_key f xs = [] \<longleftrightarrow> xs = []"
  by (metis length_0_conv length_sort)

lemma latestRun_None: "latestRun P l = None \<longleftrightarrow> (\<forall>r \<in> set (runs l). \<not> P r)"
proof -
  have "latestRun P l = None \<longleftrightarrow> filter P (runs l) = []"
    by (cases "sort_key ageOf (filter P (runs l))")
      (use sort_key_Nil_iff [of ageOf "filter P (runs l)"] in \<open>auto simp: latestRun_def\<close>)
  then show ?thesis by (simp add: filter_empty_conv)
qed

lemma latestRun_Some:
  assumes "latestRun P l = Some r"
  shows "r \<in> set (runs l)" and "P r" and "\<And>s. s \<in> set (runs l) \<Longrightarrow> P s \<Longrightarrow> ageOf s \<le> ageOf r"
proof -
  let ?rs = "sort_key ageOf (filter P (runs l))"
  have ne: "?rs \<noteq> []" and r: "r = last ?rs" using assms by (auto simp: latestRun_def split: list.splits)
  then have "r \<in> set ?rs" using last_in_set by blast
  then show "r \<in> set (runs l)" "P r" by (simp_all add: set_sort)
  fix s assume "s \<in> set (runs l)" "P s"
  then have "s \<in> set ?rs" by simp
  moreover have "sorted (map ageOf ?rs)" by simp
  ultimately show "ageOf s \<le> ageOf r"
    using sorted_le_last [of "map ageOf ?rs" "ageOf s"] r ne by (simp add: last_map)
qed

section \<open>Admission statements\<close>

definition abandonable :: "entityType list \<Rightarrow> ledger \<Rightarrow> runRow \<Rightarrow> bool" where
  "abandonable types l r \<longleftrightarrow>
     rnStatus r = Running \<and> (\<exists>d \<in> set (runDumps l). duRun d = rnID r \<and> duEntity d \<in> set types)"

definition recoveredText :: string where
  "recoveredText = ''recovered after entity advisory locks were released''"

definition markAbandonedRuns :: "faultPlan \<Rightarrow> int \<Rightarrow> entityType list \<Rightarrow> ('x, unit) query" where
  "markAbandonedRuns fl now types = stmt fl ''recover abandoned import runs'' (\<lambda>db.
     (Inr (), overLedger (\<lambda>l. l\<lparr>runs := updateWhere (abandonable types l)
        (\<lambda>r. r\<lparr>rnStatus := Failed, rnCompletedAt := Some now, rnFailure := Some recoveredText\<rparr>) (runs l)\<rparr>) db))"

definition assertNotDowngrade :: "'x schema \<Rightarrow> faultPlan \<Rightarrow> dump list \<Rightarrow> bool \<Rightarrow> ('x, unit) query" where
  "assertNotDowngrade sc fl dumps allowDowngrade =
     (if allowDowngrade then ret ()
      else forEach dumps (\<lambda>d. stmt fl ''read import checkpoint'' (\<lambda>db.
        (case scCheckpoint sc db (dEntity d) of
           None \<Rightarrow> Inr ()
         | Some cp \<Rightarrow>
             (case cpDate cp of
                Some t \<Rightarrow> if scIsDowngrade sc (dDate d) t then Inl (DowngradeRefused (dEntity d)) else Inr ()
              | None \<Rightarrow> Inr ()), db))))"

definition sameDump :: "dump \<Rightarrow> dumpRow \<Rightarrow> bool" where
  "sameDump d r \<longleftrightarrow> dDate (dpDump r) = dDate d \<and> dEntity (dpDump r) = dEntity d \<and> dChecksum (dpDump r) = dChecksum d"

definition findOrInsertDump :: "'x schema \<Rightarrow> faultPlan \<Rightarrow> dump \<Rightarrow> ('x, int) query" where
  "findOrInsertDump sc fl d = stmt fl ''record dump provenance'' (\<lambda>db.
     case find (sameDump d) (dbDumps db) of
       None \<Rightarrow> (Inr (scNextDump sc db), db\<lparr>dbDumps := dbDumps db @ [\<lparr>dpID = scNextDump sc db, dpDump = d\<rparr>]\<rparr>)
     | Some r \<Rightarrow> stmt fl ''resolve dump provenance'' (ret (dpID r)) db)"

section \<open>Checkpoints\<close>

text \<open>The current checkpoint of an entity type with its dump row; both joins are on keys.\<close>

definition currentDump :: "'x schema \<Rightarrow> 'x catalogDB \<Rightarrow> entityType \<Rightarrow> (checkpoint \<times> runDumpRow) option" where
  "currentDump sc db e =
     (case scCheckpoint sc db e of
        None \<Rightarrow> None
      | Some cp \<Rightarrow> map_option (Pair cp) (find (dumpMatches (cpRun cp) e) (runDumps (dbLedger db))))"

definition failedSince :: "ledger \<Rightarrow> entityType \<Rightarrow> checkpoint \<Rightarrow> bool" where
  "failedSince l e cp \<longleftrightarrow>
     (\<exists>d \<in> set (runDumps l). duEntity d = e \<and>
        (\<exists>r \<in> set (runs l). rnID r = duRun d \<and> rnStatus r = Failed \<and>
           (case rnCompletedAt r of
              None \<Rightarrow> False
            | Some t \<Rightarrow> t > cpAppliedAt cp \<or> (t = cpAppliedAt cp \<and> rnID r > cpRun cp))))"

definition entityCompatible :: "'x schema \<Rightarrow> 'x catalogDB \<Rightarrow> runDumpRow \<Rightarrow> bool" where
  "entityCompatible sc db d \<longleftrightarrow>
     (case currentDump sc db (duEntity d) of
        None \<Rightarrow> False
      | Some (cp, cur) \<Rightarrow>
          duDump cur = duDump d \<and>
          duRevision cur \<noteq> None \<and> duRevision cur = currentRevision sc (duEntity d) \<and>
          \<not> failedSince (dbLedger db) (duEntity d) cp)"

record compatibility =
  cmExact :: int
  cmCompatible :: int
  cmSelected :: int
  cmIncompatible :: "entityType list"

definition successfulRun :: "string \<Rightarrow> runRow \<Rightarrow> bool" where
  "successfulRun fingerprint r \<longleftrightarrow> rnManifest r = fingerprint \<and> rnStatus r = Succeeded"

definition dumpsOfRun :: "int \<Rightarrow> ledger \<Rightarrow> runDumpRow list" where
  "dumpsOfRun r l = filter (\<lambda>d. duRun d = r) (runDumps l)"

definition findSuccessfulRun :: "'x schema \<Rightarrow> faultPlan \<Rightarrow> string \<Rightarrow> ('x, compatibility) query" where
  "findSuccessfulRun sc fl fingerprint = stmt fl ''find successful import manifest'' (\<lambda>db.
     (Inr (case latestRun (successfulRun fingerprint) (dbLedger db) of
        None \<Rightarrow> \<lparr>cmExact = 0, cmCompatible = 0, cmSelected = 0, cmIncompatible = []\<rparr>
      | Some r \<Rightarrow>
          (let expected = dumpsOfRun (rnID r) (dbLedger db)
           in \<lparr>cmExact = (if \<forall>d \<in> set expected. duRevision d = currentRevision sc (duEntity d) then rnID r else 0),
               cmCompatible = countWhere (entityCompatible sc db) expected,
               cmSelected = int (length expected),
               cmIncompatible = sort (map duEntity (filter (\<lambda>d. \<not> entityCompatible sc db d) expected))\<rparr>)), db))"

section \<open>New runs\<close>

definition processorName :: string where "processorName = ''go-open-discogs-batch''"

definition insertImportRun ::
  "'x schema \<Rightarrow> faultPlan \<Rightarrow> string \<Rightarrow> bool \<Rightarrow> bool \<Rightarrow> string \<Rightarrow> int \<Rightarrow> ('x, int) query" where
  "insertImportRun sc fl fingerprint force allowDowngrade version resumedFrom =
     stmt fl ''start import run'' (\<lambda>db.
       (let rid = scNextRun sc db
        in (Inr rid, overLedger (\<lambda>l. l\<lparr>runs := runs l @
             [\<lparr>rnID = rid, rnManifest = fingerprint, rnStatus = Running, rnCompletedAt = None, rnForce = force,
               rnAllowDowngrade = allowDowngrade, rnVersion = version,
               rnResumedFrom = (if resumedFrom \<noteq> 0 then Some resumedFrom else None), rnFailure = None\<rparr>]\<rparr>) db)))"

text \<open>An insert of dump rows fails on a second row for a run and entity type.\<close>

definition insertDumpRows :: "string \<Rightarrow> runDumpRow list \<Rightarrow> ('x, unit) query" where
  "insertDumpRows name rows =
     (\<lambda>db. let l = dbLedger db
           in if distinct (map (\<lambda>d. (duRun d, duEntity d)) rows) \<and>
                 (\<forall>d \<in> set rows. \<forall>d' \<in> set (runDumps l). \<not> dumpMatches (duRun d) (duEntity d) d')
              then (Inr (), overLedger (\<lambda>l. l\<lparr>runDumps := runDumps l @ rows\<rparr>) db)
              else (Inl (StatementError name), db))"

definition insertImportRunDump ::
  "'x schema \<Rightarrow> faultPlan \<Rightarrow> int \<Rightarrow> entityType \<Rightarrow> int \<Rightarrow> int \<Rightarrow> int \<Rightarrow> ('x, unit) query" where
  "insertImportRunDump sc fl rid e dumpID chunkSize revision =
     stmt fl ''record import run dump'' (insertDumpRows ''record import run dump''
       [\<lparr>duRun = rid, duEntity = e, duDump = dumpID, duChunkSize = Some chunkSize, duRevision = Some revision,
         duProcessed = scProcessedDefault sc, duTotalItems = None, duTotalChunks = None, duCompletedAt = None,
         duLastProgressAt = None\<rparr>])"

definition consolidatedRow :: "'x schema \<Rightarrow> 'x catalogDB \<Rightarrow> int \<Rightarrow> runDumpRow \<Rightarrow> runDumpRow list" where
  "consolidatedRow sc db rid d =
     (case currentDump sc db (duEntity d) of
        None \<Rightarrow> []
      | Some (cp, src) \<Rightarrow>
          if duDump src = duDump d \<and> duRevision src \<noteq> None \<and> duRevision src = currentRevision sc (duEntity d)
          then [src\<lparr>duRun := rid\<rparr>] else [])"

definition consolidateSuccessfulImportRun ::
  "'x schema \<Rightarrow> faultPlan \<Rightarrow> int \<Rightarrow> string \<Rightarrow> string \<Rightarrow> int \<Rightarrow> ('x, int) query" where
  "consolidateSuccessfulImportRun sc fl now fingerprint version expectedCount =
     andThen (stmt fl ''record consolidated successful import run'' (\<lambda>db.
       (let rid = scNextRun sc db
        in (Inr rid, overLedger (\<lambda>l. l\<lparr>runs := runs l @
             [\<lparr>rnID = rid, rnManifest = fingerprint, rnStatus = Succeeded, rnCompletedAt = Some now, rnForce = False,
               rnAllowDowngrade = False, rnVersion = version, rnResumedFrom = None, rnFailure = None\<rparr>]\<rparr>) db))))
     (\<lambda>rid. stmt fl ''record consolidated successful import run dumps'' (\<lambda>db.
       (let expected = (case latestRun (\<lambda>r. successfulRun fingerprint r \<and> rnID r \<noteq> rid) (dbLedger db) of
              None \<Rightarrow> [] | Some r \<Rightarrow> dumpsOfRun (rnID r) (dbLedger db));
            rows = concat (map (consolidatedRow sc db rid) expected)
        in andThen (insertDumpRows ''record consolidated successful import run dumps'' rows)
             (\<lambda>_. if int (length rows) \<noteq> expectedCount then throw (Recorded (int (length rows)) expectedCount)
                  else ret rid) db)))"

section \<open>Resuming\<close>

definition supersededSince :: "'x schema \<Rightarrow> 'x catalogDB \<Rightarrow> runRow \<Rightarrow> runDumpRow \<Rightarrow> bool" where
  "supersededSince sc db r failed \<longleftrightarrow>
     (case currentDump sc db (duEntity failed) of
        None \<Rightarrow> False
      | Some (cp, cur) \<Rightarrow>
          (duDump cur \<noteq> duDump failed \<or>
           (case (duRevision cur, duRevision failed) of (Some a, Some b) \<Rightarrow> a \<noteq> b | _ \<Rightarrow> False)) \<and>
          (case rnCompletedAt r of
             None \<Rightarrow> False
           | Some t \<Rightarrow> cpAppliedAt cp > t \<or> (cpAppliedAt cp = t \<and> cpRun cp > rnID r)))"

definition chunkMisplaced :: "runDumpRow \<Rightarrow> chunkRow \<Rightarrow> bool" where
  "chunkMisplaced d k \<longleftrightarrow>
     (case duChunkSize d of
        None \<Rightarrow> False
      | Some n \<Rightarrow> ckFirst k \<noteq> ckIndex k * n \<or> ckCount k > n)"

definition resumable :: "'x schema \<Rightarrow> 'x catalogDB \<Rightarrow> string \<Rightarrow> int \<Rightarrow> int \<Rightarrow> runRow \<Rightarrow> bool" where
  "resumable sc db fingerprint chunkSize entityCount r \<longleftrightarrow>
     (let l = dbLedger db; ds = dumpsOfRun (rnID r) l
      in rnManifest r = fingerprint \<and> rnStatus r = Failed \<and> \<not> rnForce r \<and>
         int (length ds) = entityCount \<and>
         (\<forall>d \<in> set ds. duRevision d = currentRevision sc (duEntity d)) \<and>
         (\<forall>d \<in> set ds. duChunkSize d = Some chunkSize) \<and>
         (\<forall>d \<in> set ds. duProcessed d = chunkItems (chunksOf (duRun d) (duEntity d) l)) \<and>
         (\<forall>d \<in> set ds. \<forall>k \<in> set (chunksOf (duRun d) (duEntity d) l). \<not> chunkMisplaced d k) \<and>
         (\<forall>d \<in> set ds. \<not> supersededSince sc db r d))"

definition findResumableRun :: "'x schema \<Rightarrow> faultPlan \<Rightarrow> string \<Rightarrow> int \<Rightarrow> int \<Rightarrow> ('x, int) query" where
  "findResumableRun sc fl fingerprint chunkSize entityCount = stmt fl ''find resumable import run'' (\<lambda>db.
     (Inr (case latestRun (resumable sc db fingerprint chunkSize entityCount) (dbLedger db) of
        None \<Rightarrow> 0 | Some r \<Rightarrow> rnID r), db))"

definition resumeSource :: "int \<Rightarrow> int \<Rightarrow> ledger \<Rightarrow> runDumpRow \<Rightarrow> runDumpRow option" where
  "resumeSource fromRun toRun l target =
     (if duRun target = toRun \<and> duChunkSize target \<noteq> None
      then find (\<lambda>s. duRun s = fromRun \<and> duEntity s = duEntity target \<and> duDump s = duDump target \<and>
                     duChunkSize s = duChunkSize target) (runDumps l)
      else None)"

definition copySummary :: "runDumpRow \<Rightarrow> runDumpRow \<Rightarrow> runDumpRow" where
  "copySummary s target = target\<lparr>duProcessed := duProcessed s, duTotalItems := duTotalItems s,
     duTotalChunks := duTotalChunks s, duLastProgressAt := duLastProgressAt s, duCompletedAt := duCompletedAt s\<rparr>"

definition copySummaries :: "int \<Rightarrow> int \<Rightarrow> ledger \<Rightarrow> ledger" where
  "copySummaries fromRun toRun l = l\<lparr>runDumps :=
     map (\<lambda>d. case resumeSource fromRun toRun l d of None \<Rightarrow> d | Some s \<Rightarrow> copySummary s d) (runDumps l)\<rparr>"

definition chunksOfRun :: "int \<Rightarrow> ledger \<Rightarrow> chunkRow list" where
  "chunksOfRun r l = filter (\<lambda>k. ckRun k = r) (runChunks l)"

definition insertChunkRows :: "string \<Rightarrow> chunkRow list \<Rightarrow> ('x, unit) query" where
  "insertChunkRows name rows =
     (\<lambda>db. let key = (\<lambda>k. (ckRun k, ckEntity k, ckIndex k))
           in if distinct (map key rows) \<and> key ` set rows \<inter> key ` set (runChunks (dbLedger db)) = {}
              then (Inr (), overLedger (\<lambda>l. l\<lparr>runChunks := runChunks l @ rows\<rparr>) db)
              else (Inl (StatementError name), db))"

definition copyResumeProgress :: "faultPlan \<Rightarrow> int \<Rightarrow> int \<Rightarrow> int \<Rightarrow> ('x, unit) query" where
  "copyResumeProgress fl fromRun toRun expectedCount =
     andThen (stmt fl ''copy import run summaries'' (\<lambda>db.
       (let copied = countWhere (\<lambda>d. resumeSource fromRun toRun (dbLedger db) d \<noteq> None) (runDumps (dbLedger db))
        in (Inr copied, overLedger (copySummaries fromRun toRun) db))))
     (\<lambda>copied. andThen (check (copied = expectedCount) (Copied copied expectedCount))
     (\<lambda>_. andThen (stmt fl ''copy import run chunks'' (\<lambda>db.
       (let rows = map (\<lambda>k. k\<lparr>ckRun := toRun\<rparr>) (chunksOfRun fromRun (dbLedger db))
        in andThen (insertChunkRows ''copy import run chunks'' rows) (\<lambda>_. ret (int (length rows))) db)))
     (\<lambda>copiedChunks. andThen (stmt fl ''prune resumed import run chunks'' (\<lambda>db.
       (Inr (int (length (chunksOfRun fromRun (dbLedger db)))),
        overLedger (\<lambda>l. l\<lparr>runChunks := filter (\<lambda>k. ckRun k \<noteq> fromRun) (runChunks l)\<rparr>) db)))
     (\<lambda>deleted. check (deleted = copiedChunks) (Pruned copiedChunks deleted)))))"

text \<open>The failed runs whose every dump is by now the current one.\<close>

definition supersededRun :: "'x schema \<Rightarrow> 'x catalogDB \<Rightarrow> runRow \<Rightarrow> bool" where
  "supersededRun sc db r \<longleftrightarrow>
     rnStatus r = Failed \<and>
     (\<forall>d \<in> set (dumpsOfRun (rnID r) (dbLedger db)).
        case currentDump sc db (duEntity d) of
          None \<Rightarrow> False
        | Some (cp, cur) \<Rightarrow> duDump cur = duDump d \<and> duRevision cur = duRevision d)"

definition pruneSupersededFailedProgress :: "'x schema \<Rightarrow> faultPlan \<Rightarrow> ('x, unit) query" where
  "pruneSupersededFailedProgress sc fl = stmt fl ''prune superseded failed import progress'' (\<lambda>db.
     (Inr (), overLedger (\<lambda>l. l\<lparr>runChunks :=
        filter (\<lambda>k. \<not> (\<exists>r \<in> set (runs l). rnID r = ckRun k \<and> supersededRun sc db r)) (runChunks l)\<rparr>) db))"

section \<open>Catalog states\<close>

definition catalogStatusFailed :: string where "catalogStatusFailed = ''failed''"
definition catalogStatusImporting :: string where "catalogStatusImporting = ''importing''"
definition catalogStatusReady :: string where "catalogStatusReady = ''ready''"

definition updateStates ::
  "faultPlan \<Rightarrow> string \<Rightarrow> int \<Rightarrow> (entityState \<Rightarrow> bool) \<Rightarrow> (entityState \<Rightarrow> entityState) \<Rightarrow> ('x, unit) query" where
  "updateStates fl action expected P f = stmt fl action (\<lambda>db.
     (let affected = countWhere P (dbStates db); db' = db\<lparr>dbStates := updateWhere P f (dbStates db)\<rparr>
      in if affected \<noteq> expected then (Inl (StatesUpdated action affected expected), db') else (Inr (), db')))"

definition markCatalogStatesImporting :: "faultPlan \<Rightarrow> int \<Rightarrow> int \<Rightarrow> entityType list \<Rightarrow> ('x, unit) query" where
  "markCatalogStatesImporting fl now rid types =
     updateStates fl ''start'' (int (length types)) (\<lambda>s. esEntity s \<in> set types)
       (\<lambda>s. s\<lparr>esStatus := catalogStatusImporting,
              esOperation := Some (if esLastSuccess s = None then ''bootstrap'' else ''refresh''),
              esActive := Some rid, esUpdatedAt := Some now, esFailure := None\<rparr>)"

definition markCatalogStatesReady :: "faultPlan \<Rightarrow> int \<Rightarrow> int \<Rightarrow> entityType list \<Rightarrow> ('x, unit) query" where
  "markCatalogStatesReady fl now rid types =
     updateStates fl ''finalize'' (int (length types))
       (\<lambda>s. esEntity s \<in> set types \<and> (esActive s = Some rid \<or> esActive s = None))
       (\<lambda>s. s\<lparr>esStatus := catalogStatusReady, esOperation := None, esActive := None, esLastSuccess := Some rid,
              esReadyAt := Some now, esUpdatedAt := Some now, esFailure := None\<rparr>)"

definition markCatalogStatesFailed :: "faultPlan \<Rightarrow> int \<Rightarrow> int \<Rightarrow> entityType list \<Rightarrow> string \<Rightarrow> ('x, unit) query" where
  "markCatalogStatesFailed fl now rid types failure =
     updateStates fl ''fail'' (int (length types)) (\<lambda>s. esEntity s \<in> set types \<and> esActive s = Some rid)
       (\<lambda>s. s\<lparr>esStatus := catalogStatusFailed, esActive := None, esUpdatedAt := Some now, esFailure := Some failure\<rparr>)"

definition runBootstrapOperation :: "faultPlan \<Rightarrow> string \<Rightarrow> (int \<Rightarrow> 'x \<Rightarrow> 'x option) \<Rightarrow> int \<Rightarrow> ('x, unit) query" where
  "runBootstrapOperation fl action f rid = stmt fl action (\<lambda>db.
     case f rid (dbRest db) of
       None \<Rightarrow> (Inl (BootstrapError action), db)
     | Some x \<Rightarrow> (Inr (), db\<lparr>dbRest := x\<rparr>))"

end
