(* ===== verification/Dump_Catalog.thy ===== *)
theory Dump_Catalog
  imports Config Admission Helper "HOL-Library.AList" "HOL-Library.Product_Lexorder"
begin

text \<open>
  The catalog of dumps, \<open>src/data\<close>: reading the listing and the checksum documents of the provider
  (\<open>catalog.go\<close>, \<open>data.go\<close>), the table of known dumps (\<open>repository.go\<close>) and the plan of an import.

  A date is the number \<open>yyyymmdd\<close>, so the order of dates is the order of numbers. What the HTTP
  client returns for a URL is the argument \<open>fetch\<close>; the standard library's decoding of a link
  (\<open>html.UnescapeString\<close>, \<open>url.Parse\<close>) is the argument \<open>query\<close>. The regular expressions are
  recognisers; every greedy choice in them is determined by the characters that follow.
\<close>

section \<open>Dates and URLs\<close>

definition dateNumber :: "clock \<Rightarrow> nat" where
  "dateNumber t = year t * 10000 + month t * 100 + day t"

definition parseDumpDate :: "string \<Rightarrow> nat option" where
  "parseDumpDate v = map_option dateNumber (timeParse [LongYear, ZeroMonth, ZeroDay] v)"

definition yearOf :: "nat \<Rightarrow> nat" where "yearOf d = d div 10000"
definition monthOf :: "nat \<Rightarrow> nat" where "monthOf d = d div 100 mod 100"

definition formatDump :: "nat \<Rightarrow> string" where
  "formatDump d = padded_dec 4 (yearOf d) @ padded_dec 2 (monthOf d) @ padded_dec 2 (d mod 100)"

definition formatMonth :: "nat \<Rightarrow> string" where
  "formatMonth d = padded_dec 4 (yearOf d) @ CHR ''-'' # padded_dec 2 (monthOf d)"

definition firstDayOfNextMonth :: "nat \<Rightarrow> nat" where
  "firstDayOfNextMonth d =
     (if monthOf d = 12 then (yearOf d + 1) * 10000 + 101 else yearOf d * 10000 + (monthOf d + 1) * 100 + 1)"

definition wordChar :: "char \<Rightarrow> bool" where
  "wordChar c \<longleftrightarrow> isDigit c \<or> lowerLetter c \<or> lowerLetter (lowerChar c) \<or> c = CHR ''_''"

definition hexDigit :: "nat \<Rightarrow> char" where
  "hexDigit n = (if n < 10 then char_of (48 + n) else char_of (55 + n))"

text \<open>\<open>url.QueryEscape\<close>, byte by byte.\<close>

definition escapeByte :: "char \<Rightarrow> string" where
  "escapeByte c =
     (if wordChar c \<or> c \<in> {CHR ''-'', CHR ''.'', CHR ''~''} then [c]
      else if c = CHR '' '' then ''+''
      else [CHR ''%'', hexDigit (byte_of c div 16), hexDigit (byte_of c mod 16)])"

definition queryEscape :: "string \<Rightarrow> string" where "queryEscape s = concat (map escapeByte s)"

definition discogsDataBaseURL :: string where "discogsDataBaseURL = ''https://data.discogs.com/''"
definition dumpPathPrefix :: string where "dumpPathPrefix = ''data/''"
definition directChecksumCatalogStartYear :: nat where "directChecksumCatalogStartYear = 2021"
definition catalogPrefixParameter :: string where "catalogPrefixParameter = ''prefix''"
definition downloadParameter :: string where "downloadParameter = ''download''"

definition catalogListingURL :: "string \<Rightarrow> string" where
  "catalogListingURL y =
     discogsDataBaseURL @ ''?'' @ catalogPrefixParameter @ ''='' @ queryEscape (dumpPathPrefix @ y @ ''/'')"

definition dataDownloadURL :: "string \<Rightarrow> string" where
  "dataDownloadURL uri = discogsDataBaseURL @ ''?'' @ downloadParameter @ ''='' @ queryEscape uri"

section \<open>Patterns\<close>

text \<open>\<open>^data/(\d{4})/discogs_(\d{8})_(\w+)\.(.*)$\<close>: the date and the type.\<close>

definition matchDumpUri :: "string \<Rightarrow> (string \<times> string) option" where
  "matchDumpUri s =
     (let d = take 8 (drop 18 s); r = drop 27 s; w = takeWhile wordChar r; q = dropWhile wordChar r
      in if prefix ''data/'' s \<and> length s \<ge> 27 \<and> list_all isDigit (take 4 (drop 5 s)) \<and>
            take 9 (drop 9 s) = ''/discogs_'' \<and> list_all isDigit d \<and> s ! 26 = CHR ''_'' \<and>
            w \<noteq> [] \<and> q \<noteq> [] \<and> hd q = CHR ''.'' \<and> CHR 0x0A \<notin> set q
         then Some (d, w) else None)"

text \<open>\<open>^([^ ]+) +.*(\d{8})_([^.]+).*$\<close> on a line: the middle part is greedy, so the date is
  the last one that can be matched.\<close>

definition datedAt :: "string \<Rightarrow> (string \<times> string) option" where
  "datedAt s =
     (let t = takeWhile (\<lambda>c. c \<noteq> CHR ''.'') (drop 9 s)
      in if 10 \<le> length s \<and> list_all isDigit (take 8 s) \<and> s ! 8 = CHR ''_'' \<and> t \<noteq> []
         then Some (take 8 s, t) else None)"

fun lastDated :: "string \<Rightarrow> (string \<times> string) option" where
  "lastDated [] = None"
| "lastDated (c # cs) = (case lastDated cs of Some r \<Rightarrow> Some r | None \<Rightarrow> datedAt (c # cs))"

definition matchChecksum :: "string \<Rightarrow> (string \<times> string \<times> string) option" where
  "matchChecksum line =
     (let c = takeWhile (\<lambda>c. c \<noteq> CHR '' '') line; r = dropWhile (\<lambda>c. c \<noteq> CHR '' '') line
      in if c = [] \<or> r = [] then None
         else map_option (Pair c) (lastDated (dropWhile (\<lambda>c. c = CHR '' '') r)))"

definition dataTypes :: "string list" where
  "dataTypes = [''artists'', ''labels'', ''masters'', ''releases'', ''checksum'']"

definition isKnownType :: "string \<Rightarrow> bool" where "isKnownType t \<longleftrightarrow> t \<in> set dataTypes"

record checksumLine =
  clChecksum :: string
  clDate :: nat
  clType :: string

definition parseChecksumTextLine :: "string \<Rightarrow> checksumLine option" where
  "parseChecksumTextLine line =
     (if line = [] then None
      else case matchChecksum line of
        None \<Rightarrow> None
      | Some (c, g, t) \<Rightarrow>
          (case parseDumpDate g of None \<Rightarrow> None | Some d \<Rightarrow> Some \<lparr>clChecksum = c, clDate = d, clType = t\<rparr>))"

definition checksumLines :: "string \<Rightarrow> checksumLine list" where
  "checksumLines body = List.map_filter parseChecksumTextLine (splitBy (CHR 0x0A) body)"

section \<open>The listing\<close>

record dataItem =
  daETag :: string
  daGeneratedAt :: nat
  daChecksum :: string
  daTargetType :: string
  daUri :: string
  daSize :: int

text \<open>\<open><a\s+href="([^"]+)"\<close>, every match from the left.\<close>

definition spaceChar :: "char \<Rightarrow> bool" where "spaceChar c \<longleftrightarrow> byte_of c \<in> {9, 10, 12, 13, 32}"

definition anchorAt :: "string \<Rightarrow> (string \<times> string) option" where
  "anchorAt s =
     (let r = drop 2 s; a = dropWhile spaceChar r; h = takeWhile (\<lambda>c. c \<noteq> quote) (drop 6 a);
          q = dropWhile (\<lambda>c. c \<noteq> quote) (drop 6 a)
      in if prefix ''<a'' s \<and> r \<noteq> [] \<and> spaceChar (hd r) \<and> prefix (''href='' @ [quote]) a \<and> h \<noteq> [] \<and> q \<noteq> []
         then Some (h, tl q) else None)"

lemma anchorAt_shorter: "anchorAt s = Some (h, q) \<Longrightarrow> length q < length s"
proof -
  assume "anchorAt s = Some (h, q)"
  then have q: "q = tl (dropWhile (\<lambda>c. c \<noteq> quote) (drop 6 (dropWhile spaceChar (drop 2 s))))" and "s \<noteq> []"
    by (auto simp: anchorAt_def Let_def split: if_splits)
  have "length q \<le> length (dropWhile (\<lambda>c. c \<noteq> quote) (drop 6 (dropWhile spaceChar (drop 2 s)))) - 1" by (simp add: q)
  also have "\<dots> \<le> length (drop 6 (dropWhile spaceChar (drop 2 s))) - 1" by (intro diff_le_mono length_dropWhile_le)
  also have "\<dots> \<le> length (dropWhile spaceChar (drop 2 s)) - 1" by simp
  also have "\<dots> \<le> length (drop 2 s) - 1" by (intro diff_le_mono length_dropWhile_le)
  also have "\<dots> < length s" using \<open>s \<noteq> []\<close> by (cases s) auto
  finally show ?thesis .
qed

function catalogHrefs :: "string \<Rightarrow> string list" where
  "catalogHrefs s =
     (if s = [] then []
      else case anchorAt s of Some (h, q) \<Rightarrow> h # catalogHrefs q | None \<Rightarrow> catalogHrefs (tl s))"
  by pat_completeness auto
termination
  by (relation "measure length") (auto dest: anchorAt_shorter)

declare catalogHrefs.simps [simp del]

definition catalogItem :: "string \<Rightarrow> dataItem option" where
  "catalogItem uri =
     (case matchDumpUri uri of
        None \<Rightarrow> None
      | Some (d, w) \<Rightarrow>
          if \<not> isKnownType (toLower w) then None
          else case parseDumpDate d of
            None \<Rightarrow> None
          | Some date \<Rightarrow> Some \<lparr>daETag = [], daGeneratedAt = date, daChecksum = [], daTargetType = toLower w, daUri = uri, daSize = 0\<rparr>)"

definition parseCatalogData :: "(string \<Rightarrow> string \<Rightarrow> string) \<Rightarrow> string \<Rightarrow> dataItem list" where
  "parseCatalogData query body =
     List.map_filter (\<lambda>href. catalogItem (query href downloadParameter)) (catalogHrefs body)"

definition matchCatalogYear :: "string \<Rightarrow> string option" where
  "matchCatalogYear s =
     (if length s = 10 \<and> prefix ''data/'' s \<and> list_all isDigit (take 4 (drop 5 s)) \<and> s ! 9 = CHR ''/''
      then Some (take 4 (drop 5 s)) else None)"

definition laterYear :: "string \<Rightarrow> string option \<Rightarrow> string" where
  "laterYear latest m = (case m of None \<Rightarrow> latest | Some y \<Rightarrow> if y > latest then y else latest)"

definition latestCatalogYear :: "(string \<Rightarrow> string \<Rightarrow> string) \<Rightarrow> string \<Rightarrow> string + string" where
  "latestCatalogYear query body =
     (let latest = foldl laterYear [] (map (\<lambda>href. matchCatalogYear (query href catalogPrefixParameter)) (catalogHrefs body))
      in if latest = [] then Inl ''dump catalog index contains no years'' else Inr latest)"

type_synonym fetcher = "string \<Rightarrow> string + string"

definition resolveCatalogYear :: "fetcher \<Rightarrow> (string \<Rightarrow> string \<Rightarrow> string) \<Rightarrow> string \<Rightarrow> string + string" where
  "resolveCatalogYear fetch query dumpMonth =
     (if dumpMonth \<noteq> [] then
        (let y = takeWhile (\<lambda>c. c \<noteq> CHR ''-'') dumpMonth
         in if CHR ''-'' \<notin> set dumpMonth \<or> \<not> (length y = 4 \<and> list_all isDigit y)
            then Inl (''invalid dump month '' @ quote # dumpMonth @ [quote]) else Inr y)
      else case fetch discogsDataBaseURL of
        Inl e \<Rightarrow> Inl (''fetch dump catalog index: '' @ e)
      | Inr body \<Rightarrow> latestCatalogYear query body)"

definition fetchCatalogData :: "fetcher \<Rightarrow> (string \<Rightarrow> string \<Rightarrow> string) \<Rightarrow> string \<Rightarrow> string + dataItem list" where
  "fetchCatalogData fetch query dumpMonth =
     (case resolveCatalogYear fetch query dumpMonth of
        Inl e \<Rightarrow> Inl e
      | Inr y \<Rightarrow>
          (case fetch (catalogListingURL y) of
             Inl e \<Rightarrow> Inl (''fetch '' @ y @ '' dump catalog: '' @ e)
           | Inr body \<Rightarrow>
               (let items = parseCatalogData query body
                in if items = [] then Inl (y @ '' dump catalog contains no supported files'') else Inr items)))"

section \<open>Refreshing\<close>

definition pluralOf :: "string \<Rightarrow> string" where
  "pluralOf entity = trimSuffix ''s'' (toLower entity) @ ''s''"

text \<open>\<open>selectRefreshCandidates\<close>: the latest item of every selected type, in the order of the entities.\<close>

definition newer :: "dataItem \<Rightarrow> dataItem option \<Rightarrow> bool" where
  "newer item current \<longleftrightarrow> (case current of None \<Rightarrow> True | Some c \<Rightarrow> daGeneratedAt item > daGeneratedAt c)"

definition latestStep ::
  "string list \<Rightarrow> string \<Rightarrow> dataItem \<Rightarrow> (string \<Rightarrow> dataItem option) \<Rightarrow> string \<Rightarrow> dataItem option" where
  "latestStep entities dumpMonth item latest =
     (if daTargetType item \<notin> pluralOf ` set entities then latest
      else if dumpMonth \<noteq> [] \<and> formatMonth (daGeneratedAt item) \<noteq> dumpMonth then latest
      else if newer item (latest (daTargetType item)) then latest(daTargetType item \<mapsto> item)
      else latest)"

definition selectRefreshCandidates :: "dataItem list \<Rightarrow> string list \<Rightarrow> string \<Rightarrow> dataItem list" where
  "selectRefreshCandidates items entities dumpMonth =
     (let latest = fold (latestStep entities dumpMonth) items (\<lambda>_. None)
      in List.map_filter (\<lambda>entity. latest (pluralOf entity)) entities)"

text \<open>The checksum document of every candidate's date, fetched once.\<close>

type_synonym documents = "nat \<Rightarrow> (string \<Rightarrow> string option) option"

definition readDocument :: "nat \<Rightarrow> string \<Rightarrow> string \<Rightarrow> string option" where
  "readDocument date body =
     fold (\<lambda>l m. if clDate l = date then m(clType l \<mapsto> clChecksum l) else m) (checksumLines body) (\<lambda>_. None)"

definition checksumUri :: "dataItem list \<Rightarrow> nat \<Rightarrow> string" where
  "checksumUri items date =
     (case find (\<lambda>i. daTargetType i = ''checksum'' \<and> daGeneratedAt i = date) items of None \<Rightarrow> [] | Some i \<Rightarrow> daUri i)"

definition formatDay :: "nat \<Rightarrow> string" where
  "formatDay d = formatMonth d @ CHR ''-'' # padded_dec 2 (d mod 100)"

fun fetchDocuments :: "fetcher \<Rightarrow> dataItem list \<Rightarrow> dataItem list \<Rightarrow> documents \<Rightarrow> string + documents" where
  "fetchDocuments fetch items [] docs = Inr docs"
| "fetchDocuments fetch items (c # cs) docs =
     (if docs (daGeneratedAt c) \<noteq> None then fetchDocuments fetch items cs docs
      else if checksumUri items (daGeneratedAt c) = []
      then Inl (''checksum manifest not found for '' @ formatDay (daGeneratedAt c))
      else case fetch (dataDownloadURL (checksumUri items (daGeneratedAt c))) of
        Inl e \<Rightarrow> Inl e
      | Inr body \<Rightarrow>
          fetchDocuments fetch items cs (docs(daGeneratedAt c \<mapsto> readDocument (daGeneratedAt c) body)))"

definition checksumOf :: "documents \<Rightarrow> dataItem \<Rightarrow> string" where
  "checksumOf docs c =
     (case docs (daGeneratedAt c) of
        None \<Rightarrow> []
      | Some m \<Rightarrow> (case m (daTargetType c) of None \<Rightarrow> [] | Some chk \<Rightarrow> chk))"

fun applyChecksums :: "documents \<Rightarrow> dataItem list \<Rightarrow> string + dataItem list" where
  "applyChecksums docs [] = Inr []"
| "applyChecksums docs (c # cs) =
     (if checksumOf docs c = []
      then Inl (''checksum not found for '' @ formatDay (daGeneratedAt c) @ CHR '' '' # daTargetType c)
      else case applyChecksums docs cs of
        Inl e \<Rightarrow> Inl e
      | Inr ds \<Rightarrow> Inr (c\<lparr>daChecksum := checksumOf docs c\<rparr> # ds))"

text \<open>\<open>fetchPinnedChecksumData\<close>: the checksum document of a month names every dump of it.\<close>

definition manifestURI :: "nat \<Rightarrow> string" where
  "manifestURI mon =
     (let date = yearOf mon * 10000 + monthOf mon * 100 + 1
      in dumpPathPrefix @ decText (yearOf date) @ ''/discogs_'' @ formatDump date @ ''_CHECKSUM.txt'')"

definition pinnedURI :: "nat \<Rightarrow> string \<Rightarrow> string" where
  "pinnedURI date entityType =
     dumpPathPrefix @ decText (yearOf date) @ ''/discogs_'' @ formatDump date @ ''_'' @ entityType @ ''.xml.gz''"

definition pinnedStep :: "nat \<Rightarrow> checksumLine \<Rightarrow> (string \<Rightarrow> dataItem option) \<Rightarrow> string \<Rightarrow> dataItem option" where
  "pinnedStep mon l byType =
     (let t = toLower (clType l)
      in if formatMonth (clDate l) \<noteq> formatMonth mon \<or> t = ''checksum'' \<or> \<not> isKnownType t then byType
         else byType(t \<mapsto> \<lparr>daETag = [], daGeneratedAt = clDate l, daChecksum = clChecksum l, daTargetType = t,
                        daUri = pinnedURI (clDate l) t, daSize = 0\<rparr>))"

fun pinnedCandidates :: "nat \<Rightarrow> (string \<Rightarrow> dataItem option) \<Rightarrow> string list \<Rightarrow> string + dataItem list" where
  "pinnedCandidates mon byType [] = Inr []"
| "pinnedCandidates mon byType (entity # es) =
     (case byType (pluralOf entity) of
        None \<Rightarrow> Inl (''checksum not found for '' @ formatMonth mon @ CHR '' '' # pluralOf entity)
      | Some d \<Rightarrow> (case pinnedCandidates mon byType es of Inl e \<Rightarrow> Inl e | Inr ds \<Rightarrow> Inr (d # ds)))"

definition fetchPinnedChecksumData :: "fetcher \<Rightarrow> string list \<Rightarrow> nat \<Rightarrow> string + dataItem list" where
  "fetchPinnedChecksumData fetch entities mon =
     (case fetch (dataDownloadURL (manifestURI mon)) of
        Inl e \<Rightarrow> Inl (''fetch '' @ formatMonth mon @ '' checksum manifest: '' @ e)
      | Inr body \<Rightarrow> pinnedCandidates mon (fold (pinnedStep mon) (checksumLines body) (\<lambda>_. None)) entities)"

section \<open>The table of dumps\<close>

definition dataDump :: "dataItem \<Rightarrow> dump" where
  "dataDump d =
     \<lparr>dETag = trimFunc (\<lambda>r. r = 34) (daETag d), dDate = int (daGeneratedAt d),
      dEntity = trimSuffix ''s'' (toLower (daTargetType d)), dChecksum = toLower (daChecksum d),
      dSize = daSize d, dURI = daUri d\<rparr>"

definition insertDump :: "'x schema \<Rightarrow> dump \<Rightarrow> 'x catalogDB \<Rightarrow> 'x catalogDB" where
  "insertDump sc d db =
     (if \<exists>r \<in> set (dbDumps db). sameDump d r then db
      else db\<lparr>dbDumps := dbDumps db @ [\<lparr>dpID = scNextDump sc db, dpDump = d\<rparr>]\<rparr>)"

definition batchInsert :: "'x schema \<Rightarrow> faultPlan \<Rightarrow> dataItem list \<Rightarrow> 'x catalogDB \<Rightarrow> (string + int) \<times> 'x catalogDB" where
  "batchInsert sc fl items db =
     (let dumps = map dataDump (filter (\<lambda>i. daTargetType i \<noteq> ''checksum'') items);
          db' = fold (insertDump sc) dumps db
      in if dumps = [] then (Inr 0, db)
         else if fl ''insert dumps'' then (Inl ''insert dumps'', db)
         else (Inr (int (length (dbDumps db')) - int (length (dbDumps db))), db'))"

definition updateSelectedData ::
  "'x schema \<Rightarrow> faultPlan \<Rightarrow> fetcher \<Rightarrow> (string \<Rightarrow> string \<Rightarrow> string) \<Rightarrow> string list \<Rightarrow> string \<Rightarrow>
   'x catalogDB \<Rightarrow> (string + int) \<times> 'x catalogDB" where
  "updateSelectedData sc fl fetch query entities dumpMonth db =
     (let refresh = (case fetchCatalogData fetch query dumpMonth of
            Inl e \<Rightarrow> Inl e
          | Inr items \<Rightarrow>
              (let candidates = selectRefreshCandidates items entities dumpMonth
               in case fetchDocuments fetch items candidates (\<lambda>_. None) of
                    Inl e \<Rightarrow> Inl e
                  | Inr docs \<Rightarrow> applyChecksums docs candidates));
          found = (if dumpMonth = [] then refresh
            else case parseYearMonth dumpMonth of
              None \<Rightarrow> Inl (''invalid dump month '' @ quote # dumpMonth @ [quote])
            | Some (y, m) \<Rightarrow>
                if directChecksumCatalogStartYear \<le> y
                then fetchPinnedChecksumData fetch entities (y * 10000 + m * 100 + 1)
                else refresh)
      in case found of Inl e \<Rightarrow> (Inl e, db) | Inr items \<Rightarrow> batchInsert sc fl items db)"

text \<open>\<open>order by dump_date desc, id desc limit 1\<close>.\<close>

definition latestDump :: "(dump \<Rightarrow> bool) \<Rightarrow> 'x catalogDB \<Rightarrow> dumpRow option" where
  "latestDump P db =
     (case sort_key (\<lambda>r. (dDate (dpDump r), dpID r)) (filter (\<lambda>r. P (dpDump r)) (dbDumps db)) of
        [] \<Rightarrow> None | rs \<Rightarrow> Some (last rs))"

definition findLatestByType :: "faultPlan \<Rightarrow> string \<Rightarrow> 'x catalogDB \<Rightarrow> string + dump" where
  "findLatestByType fl typ db =
     (let entity = trimSuffix ''s'' (toLower typ)
      in if fl ''find latest dump'' then Inl ''find latest dump''
         else case latestDump (\<lambda>d. dEntity d = entity) db of
           None \<Rightarrow> Inl (''latest '' @ entity @ '' data not found'')
         | Some r \<Rightarrow> Inr (dpDump r))"

definition findByYearMonthType :: "faultPlan \<Rightarrow> string \<Rightarrow> string \<Rightarrow> string \<Rightarrow> 'x catalogDB \<Rightarrow> string + dump" where
  "findByYearMonthType fl y m t db =
     (case parseDumpDate (y @ m @ ''01'') of
        None \<Rightarrow> Inl (''failed to parse y and m: '' @ y @ CHR ''.'' # m)
      | Some start \<Rightarrow>
          (let entity = trimSuffix ''s'' (toLower t); finish = firstDayOfNextMonth start
           in if fl ''find dump of month'' then Inl ''find dump of month''
              else case latestDump (\<lambda>d. dEntity d = entity \<and> int start \<le> dDate d \<and> dDate d < int finish) db of
                None \<Rightarrow> Inl (t @ '' data not found from y:'' @ y @ '' m:'' @ m)
              | Some r \<Rightarrow> Inr (dpDump r)))"

section \<open>The plan of an import\<close>

text \<open>\<open>filepath.Clean\<close> and \<open>filepath.Join\<close>: the components of a path, without the empty ones, the
  dots, and the pairs of a name and two dots.\<close>

fun cleanStep :: "bool \<Rightarrow> string list \<Rightarrow> string \<Rightarrow> string list" where
  "cleanStep rooted stack part =
     (if part = [] \<or> part = ''.'' then stack
      else if part = ''..'' then
        (if stack \<noteq> [] \<and> hd stack \<noteq> ''..'' then tl stack else if rooted then stack else ''..'' # stack)
      else part # stack)"

fun joinSlash :: "string list \<Rightarrow> string" where
  "joinSlash [] = []"
| "joinSlash [s] = s"
| "joinSlash (s # ss) = s @ CHR ''/'' # joinSlash ss"

definition cleanPath :: "string \<Rightarrow> string" where
  "cleanPath path =
     (let rooted = (path \<noteq> [] \<and> hd path = CHR ''/'');
          body = joinSlash (rev (foldl (cleanStep rooted) [] (splitBy (CHR ''/'') path)))
      in if rooted then CHR ''/'' # body else if body = [] then ''.'' else body)"

definition joinPath :: "string \<Rightarrow> string \<Rightarrow> string" where
  "joinPath dir name =
     (case filter (\<lambda>s. s \<noteq> []) [dir, name] of [] \<Rightarrow> [] | parts \<Rightarrow> cleanPath (joinSlash parts))"

record importPlan =
  plResources :: "(string \<times> string) list"
  plDumps :: "dump list"

text \<open>The dump of an entity: the latest one, or the one of the month. A month without a dash is an
  index out of range, which panics; validation excludes it.\<close>

definition dumpOfEntity :: "faultPlan \<Rightarrow> string \<Rightarrow> string \<Rightarrow> 'x catalogDB \<Rightarrow> string + dump" where
  "dumpOfEntity fl dumpMonth entity db =
     (if dumpMonth = [] then findLatestByType fl entity db
      else if CHR ''-'' \<notin> set dumpMonth then Inl ''index out of range''
      else findByYearMonthType fl (takeWhile (\<lambda>c. c \<noteq> CHR ''-'') dumpMonth)
             (tl (dropWhile (\<lambda>c. c \<noteq> CHR ''-'') dumpMonth)) entity db)"

definition resourceKey :: "string \<Rightarrow> string" where
  "resourceKey entity = trimSuffix ''s'' entity @ ''s''"

fun resolveFrom :: "faultPlan \<Rightarrow> string \<Rightarrow> string \<Rightarrow> 'x catalogDB \<Rightarrow> string list \<Rightarrow> importPlan \<Rightarrow> string + importPlan" where
  "resolveFrom fl dumpMonth dataDir db [] plan = Inr plan"
| "resolveFrom fl dumpMonth dataDir db (entity # es) plan =
     (case dumpOfEntity fl dumpMonth entity db of
        Inl e \<Rightarrow> Inl e
      | Inr d \<Rightarrow> resolveFrom fl dumpMonth dataDir db es
          \<lparr>plResources = AList.update (resourceKey entity) (joinPath dataDir (getLastUriSegment (dURI d))) (plResources plan),
           plDumps = plDumps plan @ [d]\<rparr>)"

definition resolveImportPlan :: "faultPlan \<Rightarrow> string list \<Rightarrow> string \<Rightarrow> string \<Rightarrow> 'x catalogDB \<Rightarrow> string + importPlan" where
  "resolveImportPlan fl entities dumpMonth dataDir db =
     resolveFrom fl dumpMonth dataDir db entities \<lparr>plResources = [], plDumps = []\<rparr>"

section \<open>Dates as text\<close>

lemma date_parts:
  assumes "m \<le> 12" and "d \<le> 31"
  shows "yearOf (y * 10000 + m * 100 + d) = y" and "monthOf (y * 10000 + m * 100 + d) = m"
    and "(y * 10000 + m * 100 + d) mod 100 = d"
proof -
  have e: "y * 10000 + m * 100 + d = d + 100 * (y * 100 + m)" by simp
  show "(y * 10000 + m * 100 + d) mod 100 = d" unfolding e using assms(2) by (simp only: mod_mult_self2) simp
  have "(y * 10000 + m * 100 + d) div 100 = y * 100 + m" unfolding e using assms(2) by simp
  then show "monthOf (y * 10000 + m * 100 + d) = m" using assms(1) by (simp add: monthOf_def)
  show "yearOf (y * 10000 + m * 100 + d) = y" using assms by (simp add: yearOf_def)
qed

lemma validDate_bounds:
  assumes "validDate y m d"
  shows "1 \<le> m" "m \<le> 12" "1 \<le> d" "d \<le> 31" "d \<le> daysIn m y"
  using assms daysIn_le [of m y] by (auto simp: validDate_def)

lemma parse_formatDump:
  assumes "validDate y m d" and "y \<le> 9999"
  shows "parseDumpDate (formatDump (y * 10000 + m * 100 + d)) = Some (y * 10000 + m * 100 + d)"
  using validDate_bounds [OF assms(1)] assms(2)
  by (simp add: parseDumpDate_def timeParse_def formatDump_def date_parts takeNumber_padded takeNumber_padded' dateNumber_def)

lemma parseDumpDate_valid:
  assumes "parseDumpDate v = Some n"
  shows "\<exists>y m d. n = y * 10000 + m * 100 + d \<and> validDate y m d \<and> y \<le> 9999"
proof -
  obtain t where "timeParse [LongYear, ZeroMonth, ZeroDay] v = Some t" "n = dateNumber t"
    using assms by (auto simp: parseDumpDate_def)
  with timeParse_valid timeParse_year show ?thesis unfolding dateNumber_def by blast
qed

lemma formatDump_digits: "list_all isDigit (formatDump n)" "length (formatDump n) = 8"
  by (auto simp: formatDump_def list_all_iff)

lemma decText_padded:
  assumes "1000 \<le> y" and "y \<le> 9999"
  shows "length (decText y) = 4" "list_all isDigit (decText y)"
proof -
  have y: "10 \<le> y" "10 \<le> y div 10" "10 \<le> y div 10 div 10" "y div 10 div 10 div 10 < 10"
    using assms by (simp_all add: div_mult2_eq [symmetric])
  then show "length (decText y) = 4"
    by (simp add: decText.simps [of y] decText.simps [of "y div 10"] decText.simps [of "y div 10 div 10"]
        decText.simps [of "y div 10 div 10 div 10"] del: div_mult2_eq)
  show "list_all isDigit (decText y)" using decText_digits by (simp add: list_all_iff)
qed

lemma padded_dec_inj: "padded_dec k a = padded_dec k b \<Longrightarrow> a < 10 ^ k \<Longrightarrow> b < 10 ^ k \<Longrightarrow> a = b"
  by (metis decVal_padded_dec)

lemma formatMonth_inj:
  assumes "formatMonth (y * 10000 + m * 100 + d) = formatMonth (y' * 10000 + m' * 100 + d')"
    and "m \<le> 12" "d \<le> 31" "m' \<le> 12" "d' \<le> 31" "y \<le> 9999" "y' \<le> 9999"
  shows "y = y' \<and> m = m'"
proof -
  have "padded_dec 4 y = padded_dec 4 y'" "padded_dec 2 m = padded_dec 2 m'"
    using assms by (auto simp: formatMonth_def date_parts)
  then show ?thesis using padded_dec_inj [of 4 y y'] padded_dec_inj [of 2 m m'] assms by simp
qed

section \<open>Names of dumps\<close>

lemma known_word: "isKnownType t \<Longrightarrow> list_all wordChar t \<and> t \<noteq> [] \<and> toLower t = t \<and> CHR ''.'' \<notin> set t \<and> filter isDigit t = []"
  by (auto simp: isKnownType_def dataTypes_def wordChar_def lowerLetter_def lowerChar_def isDigit_def)

lemma matchDumpUri_build:
  assumes "length y = 4" "list_all isDigit y" "length d = 8" "list_all isDigit d" "list_all wordChar t" "t \<noteq> []"
    and "CHR 0x0A \<notin> set suf"
  shows "matchDumpUri (''data/'' @ y @ ''/discogs_'' @ d @ ''_'' @ t @ CHR ''.'' # suf) = Some (d, t)"
proof -
  have w: "takeWhile wordChar (t @ CHR ''.'' # suf) = t" "dropWhile wordChar (t @ CHR ''.'' # suf) = CHR ''.'' # suf"
    using assms(5) by (auto simp: list_all_iff wordChar_def isDigit_def lowerLetter_def lowerChar_def)
  have n: "drop 27 (''data/'' @ y @ ''/discogs_'' @ d @ ''_'' @ t @ CHR ''.'' # suf) = t @ CHR ''.'' # suf"
    "take 8 (drop 18 (''data/'' @ y @ ''/discogs_'' @ d @ ''_'' @ t @ CHR ''.'' # suf)) = d"
    "(''data/'' @ y @ ''/discogs_'' @ d @ ''_'' @ t @ CHR ''.'' # suf) ! 26 = CHR ''_''"
    using assms(1,3) by (simp_all add: nth_append)
  show ?thesis
    unfolding matchDumpUri_def Let_def n w using assms by simp
qed

lemma few_digits: "length (filter isDigit s) < 8 \<Longrightarrow> lastDated s = None"
proof (induction s)
  case (Cons c s)
  have "\<not> list_all isDigit (take 8 (c # s))" if "10 \<le> length (c # s)"
  proof
    assume "list_all isDigit (take 8 (c # s))"
    then have "filter isDigit (take 8 (c # s)) = take 8 (c # s)" by (simp add: filter_id_conv list_all_iff)
    then have "length (filter isDigit (take 8 (c # s))) = 8" using that by simp
    moreover have "length (filter isDigit (take 8 (c # s))) \<le> length (filter isDigit (c # s))"
      by (metis append_take_drop_id filter_append le_add1 length_append)
    ultimately show False using Cons.prems by simp
  qed
  moreover have "length (filter isDigit s) < 8" using Cons.prems by (simp split: if_splits)
  ultimately show ?case using Cons.IH by (auto simp: datedAt_def Let_def)
qed simp

lemma lastDated_prefix: "lastDated s = Some r \<Longrightarrow> lastDated (p @ s) = Some r"
  by (induction p) auto

lemma lastDated_build:
  assumes "length d = 8" "list_all isDigit d" "t \<noteq> []" "CHR ''.'' \<notin> set t" "filter isDigit t = []" "filter isDigit suf = []"
  shows "lastDated (p @ d @ ''_'' @ t @ CHR ''.'' # suf) = Some (d, t)"
proof -
  obtain c d' where d: "d = c # d'" using assms(1) by (cases d) auto
  have "length (filter isDigit d') \<le> 7" using assms(1) d using length_filter_le [of isDigit d'] by simp
  moreover have "\<not> isDigit CHR ''_''" "\<not> isDigit CHR ''.''" by (simp_all add: isDigit_def)
  ultimately have "lastDated (d' @ ''_'' @ t @ CHR ''.'' # suf) = None" using assms by (intro few_digits) simp
  moreover have "takeWhile (\<lambda>c. c \<noteq> CHR ''.'') (t @ CHR ''.'' # suf) = t"
    by (subst takeWhile_append2) (use assms(4) in auto)
  then have "datedAt (d @ ''_'' @ t @ CHR ''.'' # suf) = Some (d, t)"
    using assms by (cases t) (auto simp: datedAt_def nth_append)
  ultimately have "lastDated (d @ ''_'' @ t @ CHR ''.'' # suf) = Some (d, t)" using d by simp
  then show ?thesis by (rule lastDated_prefix)
qed

section \<open>A refreshed month\<close>

lemma pinnedCandidates_found:
  "pinnedCandidates mon byType es = Inr ds \<Longrightarrow> list_all2 (\<lambda>e d. byType (pluralOf e) = Some d) es ds"
  by (induction es arbitrary: ds) (auto split: option.splits sum.splits)

definition pinnedItem :: "nat \<Rightarrow> string \<Rightarrow> dataItem \<Rightarrow> bool" where
  "pinnedItem mon t d \<longleftrightarrow>
     daTargetType d = t \<and> isKnownType t \<and> t \<noteq> ''checksum'' \<and> formatMonth (daGeneratedAt d) = formatMonth mon \<and>
     (\<exists>v. parseDumpDate v = Some (daGeneratedAt d))"

lemma checksumLine_date: "parseChecksumTextLine line = Some l \<Longrightarrow> \<exists>v. parseDumpDate v = Some (clDate l)"
  by (fastforce simp: parseChecksumTextLine_def split: if_splits option.splits)

lemma pinnedStep_items:
  assumes "\<forall>l \<in> set ls. \<exists>v. parseDumpDate v = Some (clDate l)" and "\<forall>t d. byType t = Some d \<longrightarrow> pinnedItem mon t d"
    and "fold (pinnedStep mon) ls byType t = Some d"
  shows "pinnedItem mon t d"
  using assms
proof (induction ls arbitrary: byType)
  case (Cons l ls)
  have "\<forall>t d. pinnedStep mon l byType t = Some d \<longrightarrow> pinnedItem mon t d"
    using Cons.prems(1,2) by (auto simp: pinnedStep_def Let_def pinnedItem_def split: if_splits)
  with Cons show ?case by simp
qed simp

lemma checksumLines_dates: "l \<in> set (checksumLines body) \<Longrightarrow> \<exists>v. parseDumpDate v = Some (clDate l)"
  using checksumLine_date by (force simp: checksumLines_def List.map_filter_def)

lemma known_plural:
  assumes "isKnownType (pluralOf e)" and "pluralOf e \<noteq> ''checksum''"
  shows "trimSuffix ''s'' (toLower (pluralOf e)) = trimSuffix ''s'' (toLower e)"
proof -
  let ?x = "trimSuffix ''s'' (toLower e)"
  have "?x @ ''s'' \<in> {''artist'' @ ''s'', ''label'' @ ''s'', ''master'' @ ''s'', ''release'' @ ''s''}"
    using assms by (auto simp: isKnownType_def dataTypes_def pluralOf_def)
  then have "?x \<in> {''artist'', ''label'', ''master'', ''release''}" by (simp only: insert_iff append_same_eq empty_iff)
  moreover have "toLower (pluralOf e) = pluralOf e" using known_word [OF assms(1)] by simp
  ultimately show ?thesis by (auto simp: pluralOf_def trimSuffix_def suffix_def)
qed

lemma insertDump_keeps: "r \<in> set (dbDumps db) \<Longrightarrow> r \<in> set (dbDumps (insertDump sc d db))"
  by (simp add: insertDump_def)

lemma inserted_present:
  "d \<in> set ds \<Longrightarrow> \<exists>r \<in> set (dbDumps (fold (insertDump sc) ds db)). sameDump d r"
proof (induction ds arbitrary: db)
  case (Cons x xs)
  have kept: "\<exists>r \<in> set (dbDumps (fold (insertDump sc) xs db')). sameDump d r" if "\<exists>r \<in> set (dbDumps db'). sameDump d r" for db'
  proof -
    have "r \<in> set (dbDumps (fold (insertDump sc) xs db'))" if "r \<in> set (dbDumps db')" for r
      using that by (induction xs arbitrary: db') (simp_all add: insertDump_keeps)
    with that show ?thesis by blast
  qed
  show ?case
  proof (cases "d = x")
    case True
    have "\<exists>r \<in> set (dbDumps (insertDump sc x db)). sameDump x r" by (auto simp: insertDump_def sameDump_def)
    with kept True show ?thesis by simp
  qed (use Cons in simp)
qed simp

lemma latestDump_Some:
  assumes "\<exists>r \<in> set (dbDumps db). P (dpDump r)"
  obtains r where "latestDump P db = Some r" "r \<in> set (dbDumps db)" "P (dpDump r)"
proof -
  let ?rs = "sort_key (\<lambda>r. (dDate (dpDump r), dpID r)) (filter (\<lambda>r. P (dpDump r)) (dbDumps db))"
  have "set ?rs = {r \<in> set (dbDumps db). P (dpDump r)}" by simp
  moreover from this assms have ne: "?rs \<noteq> []" by (metis (mono_tags, lifting) empty_iff empty_set mem_Collect_eq)
  ultimately have "last ?rs \<in> {r \<in> set (dbDumps db). P (dpDump r)}" using last_in_set by metis
  moreover have "latestDump P db = Some (last ?rs)" using ne by (auto simp: latestDump_def split: list.splits)
  ultimately show ?thesis using that by blast
qed

lemma month_text:
  assumes "parseYearMonth v = Some (y, m)"
  shows "v \<noteq> []" "CHR ''-'' \<in> set v" "takeWhile (\<lambda>c. c \<noteq> CHR ''-'') v = take 4 v"
    "tl (dropWhile (\<lambda>c. c \<noteq> CHR ''-'') v) = drop 5 v"
    "parseDumpDate (take 4 v @ drop 5 v @ ''01'') = Some (y * 10000 + m * 100 + 1)"
    "1 \<le> m" "m \<le> 12" "y \<le> 9999"
proof -
  from assms have v: "length v = 7" "list_all isDigit (take 4 v)" "v ! 4 = CHR ''-''" "list_all isDigit (drop 5 v)"
    and ym: "y = decVal (take 4 v)" "m = decVal (drop 5 v)" "1 \<le> m" "m \<le> 12"
    by (auto simp: parseYearMonth_def Let_def split: if_splits)
  have split: "v = take 4 v @ CHR ''-'' # drop 5 v" using v(1,3) id_take_nth_drop [of 4 v] by simp
  have span: "\<forall>c \<in> set (take 4 v). c \<noteq> CHR ''-''" using v(2) by (auto simp: list_all_iff isDigit_def)
  show "v \<noteq> []" "CHR ''-'' \<in> set v" using v(1,3) by (auto intro: nth_mem [of 4 v, simplified v(3)])
  show "takeWhile (\<lambda>c. c \<noteq> CHR ''-'') v = take 4 v" by (subst split, subst takeWhile_append2) (use span in auto)
  show "tl (dropWhile (\<lambda>c. c \<noteq> CHR ''-'') v) = drop 5 v" by (subst split, subst dropWhile_append2) (use span in auto)
  show "1 \<le> m" "m \<le> 12" using ym by simp_all
  have "decVal (take 4 v) < 10 ^ length (take 4 v)" using v(2) by (intro decVal_less) (simp add: list_all_iff)
  then show "y \<le> 9999" using v(1) ym by simp
  have "decVal ''01'' = 1" by (simp add: decVal_def digitVal_def)
  moreover have "1 \<le> daysIn m y" by (simp add: daysIn_def)
  moreover have "isDigit CHR ''0''" "isDigit CHR ''1''" by (simp_all add: isDigit_def)
  ultimately show "parseDumpDate (take 4 v @ drop 5 v @ ''01'') = Some (y * 10000 + m * 100 + 1)"
    using v ym by (simp add: parseDumpDate_def timeParse_def takeNumber_def dateNumber_def)
qed

lemma resolveFrom_found:
  assumes "\<forall>e \<in> set es. \<exists>d. dumpOfEntity fl mo e db = Inr d \<and> P e d"
  shows "\<exists>plan' ds. resolveFrom fl mo dir db es plan = Inr plan' \<and> plDumps plan' = plDumps plan @ ds \<and> list_all2 P es ds"
  using assms
proof (induction es arbitrary: plan)
  case (Cons e es)
  then obtain d where d: "dumpOfEntity fl mo e db = Inr d" "P e d" by auto
  let ?plan = "\<lparr>plResources = AList.update (resourceKey e) (joinPath dir (getLastUriSegment (dURI d))) (plResources plan),
           plDumps = plDumps plan @ [d]\<rparr>"
  obtain plan' ds where "resolveFrom fl mo dir db es ?plan = Inr plan'" "plDumps plan' = plDumps ?plan @ ds" "list_all2 P es ds"
    using Cons.IH [of ?plan] Cons.prems by auto
  with d show ?case by (intro exI [of _ plan'] exI [of _ "d # ds"]) simp
qed auto

lemma next_month_after:
  assumes "m \<le> 12" and "1 \<le> m" and "1 \<le> d" and "d \<le> 31"
  shows "y * 10000 + m * 100 + d < firstDayOfNextMonth (y * 10000 + m * 100 + 1)"
    and "y * 10000 + m * 100 + 1 \<le> y * 10000 + m * 100 + d"
  using assms date_parts [of m 1 y] by (auto simp: firstDayOfNextMonth_def)

lemma list_all2_member: "list_all2 P xs ys \<Longrightarrow> x \<in> set xs \<Longrightarrow> \<exists>y \<in> set ys. P x y"
  by (induction rule: list_all2_induct) auto

lemma pinned_inserted:
  assumes "fetchPinnedChecksumData fetch es mon = Inr items" and "e \<in> set es"
    and "batchInsert sc fl items db = (Inr n, db')"
  shows "\<exists>r \<in> set (dbDumps db'). dEntity (dpDump r) = trimSuffix ''s'' (toLower e) \<and>
    (\<exists>k v. dDate (dpDump r) = int k \<and> parseDumpDate v = Some k \<and> formatMonth k = formatMonth mon)"
proof -
  obtain body where c: "pinnedCandidates mon (fold (pinnedStep mon) (checksumLines body) (\<lambda>_. None)) es = Inr items"
    using assms(1) by (auto simp: fetchPinnedChecksumData_def split: sum.splits)
  then obtain d where d: "d \<in> set items" "fold (pinnedStep mon) (checksumLines body) (\<lambda>_. None) (pluralOf e) = Some d"
    using list_all2_member [OF pinnedCandidates_found [OF c] assms(2)] by auto
  then have p: "pinnedItem mon (pluralOf e) d" by (intro pinnedStep_items [OF _ _ d(2)]) (auto dest: checksumLines_dates)
  then have "dataDump d \<in> set (map dataDump (filter (\<lambda>i. daTargetType i \<noteq> ''checksum'') items))" using d(1) by (auto simp: pinnedItem_def)
  with assms(3) inserted_present [OF this, of sc db] obtain r where "r \<in> set (dbDumps db')" "sameDump (dataDump d) r"
    by (auto simp: batchInsert_def Let_def split: if_splits)
  moreover from p have "trimSuffix ''s'' (toLower (daTargetType d)) = trimSuffix ''s'' (toLower e)"
    using known_plural by (auto simp: pinnedItem_def)
  ultimately show ?thesis using p by (intro bexI [of _ r]) (auto simp: sameDump_def dataDump_def pinnedItem_def)
qed

section \<open>Properties\<close>

text \<open>C39. The URI the importer builds for a dump of a month is one its own listing pattern reads back as
  that date and type, and the line of a checksum document that names the file is read as the
  checksum, date and type of the dump.\<close>

theorem pinned_names_roundtrip:
  assumes "validDate y m d" and "1000 \<le> y" and "y \<le> 9999" and "isKnownType t"
    and "c \<noteq> []" and "CHR '' '' \<notin> set c"
  shows "let date = y * 10000 + m * 100 + d
    in catalogItem (pinnedURI date t) =
         Some \<lparr>daETag = [], daGeneratedAt = date, daChecksum = [], daTargetType = t, daUri = pinnedURI date t, daSize = 0\<rparr> \<and>
       parseChecksumTextLine (c @ '' *discogs_'' @ formatDump date @ ''_'' @ t @ ''.xml.gz'') =
         Some \<lparr>clChecksum = c, clDate = date, clType = t\<rparr>"
proof -
  let ?date = "y * 10000 + m * 100 + d"
  note k = known_word [OF assms(4)] and f = formatDump_digits [of ?date] and p = parse_formatDump [OF assms(1,3)]
  have "yearOf ?date = y" using validDate_bounds [OF assms(1)] date_parts by blast
  then have "matchDumpUri (pinnedURI ?date t) = Some (formatDump ?date, t)"
    using matchDumpUri_build [OF decText_padded [OF assms(2,3)] f(2,1), of t "''xml.gz''"] k
    by (simp add: pinnedURI_def dumpPathPrefix_def)
  moreover have "matchChecksum (c @ '' *discogs_'' @ formatDump ?date @ ''_'' @ t @ ''.xml.gz'') = Some (c, formatDump ?date, t)"
  proof -
    have "takeWhile (\<lambda>x. x \<noteq> CHR '' '') (c @ CHR '' '' # z) = c \<and> dropWhile (\<lambda>x. x \<noteq> CHR '' '') (c @ CHR '' '' # z) = CHR '' '' # z" for z
      using assms(6) by (subst takeWhile_append2, fastforce, subst dropWhile_append2, fastforce) simp
    moreover have "lastDated (''*discogs_'' @ formatDump ?date @ ''_'' @ t @ CHR ''.'' # ''xml.gz'') = Some (formatDump ?date, t)"
      by (rule lastDated_build) (use f k in \<open>simp_all add: isDigit_def\<close>)
    ultimately show ?thesis using assms(5) by (simp add: matchChecksum_def)
  qed
  ultimately show ?thesis using k p assms(4,5) by (simp add: catalogItem_def parseChecksumTextLine_def)
qed

theorem pinned_names_roundtrip_witness:
  "catalogItem (pinnedURI (2024 * 10000 + 2 * 100 + 1) ''artists'') =
     Some \<lparr>daETag = [], daGeneratedAt = 2024 * 10000 + 2 * 100 + 1, daChecksum = [], daTargetType = ''artists'',
       daUri = pinnedURI (2024 * 10000 + 2 * 100 + 1) ''artists'', daSize = 0\<rparr>"
proof -
  have "validDate 2024 2 1" "isKnownType ''artists''" by (simp_all add: validDate_def daysIn_def isKnownType_def dataTypes_def)
  from pinned_names_roundtrip [OF this(1) _ _ this(2), of "''ab''"] show ?thesis by (simp add: Let_def)
qed


definition refreshSchema :: "unit schema" where
  "refreshSchema =
     \<lparr>scFingerprint = (\<lambda>_. Inr ''m''), scOrdered = Inr, scLockTypes = Inr, scLockKey = (\<lambda>_. Inr 1), scRevision = (\<lambda>_. Some 1),
      scIsDowngrade = (\<lambda>a b. a < b), scCheckpoint = (\<lambda>_ _. None), scNextRun = (\<lambda>_. 1),
      scNextDump = (\<lambda>db. 1 + int (length (dbDumps db))), scProcessedDefault = 0,
      scPrepareBootstrap = (\<lambda>_. Some), scFinalizeBootstrap = (\<lambda>_. Some)\<rparr>"

definition emptyCatalog :: "unit catalogDB" where
  "emptyCatalog = \<lparr>dbLedger = \<lparr>runs = [], runDumps = [], runChunks = []\<rparr>, dbDumps = [], dbStates = [], dbRest = ()\<rparr>"

definition demoDocument :: string where
  "demoDocument = ''ab *discogs_20240201_artists.xml.gz'' @ CHR 0x0A # ''cd *discogs_20240201_CHECKSUM.txt''"

definition demoRefresh where
  "demoRefresh = updateSelectedData refreshSchema (\<lambda>_. False) (\<lambda>_. Inr demoDocument) (\<lambda>_ _. []) [''artist''] ''2024-02'' emptyCatalog"

lemma demo_date: "parseDumpDate ''20240201'' = Some 20240201"
  by (simp add: parseDumpDate_def timeParse_def takeNumber_def isDigit_def decVal_def digitVal_def dateNumber_def daysIn_def)

lemma demo_split: "splitBy (CHR 0x0A) demoDocument = [''ab *discogs_20240201_artists.xml.gz'', ''cd *discogs_20240201_CHECKSUM.txt'']"
  by code_simp

lemma demo_match: "matchChecksum ''ab *discogs_20240201_artists.xml.gz'' = Some (''ab'', ''20240201'', ''artists'')"
  "matchChecksum ''cd *discogs_20240201_CHECKSUM.txt'' = Some (''cd'', ''20240201'', ''CHECKSUM'')"
  by code_simp+

lemma demo_lines: "checksumLines demoDocument =
    [\<lparr>clChecksum = ''ab'', clDate = 20240201, clType = ''artists''\<rparr>, \<lparr>clChecksum = ''cd'', clDate = 20240201, clType = ''CHECKSUM''\<rparr>]"
  by (simp add: checksumLines_def demo_split parseChecksumTextLine_def demo_match demo_date)

lemma demo_plural: "pluralOf ''artist'' = ''artists''" "toLower ''artists'' = ''artists''" "toLower ''CHECKSUM'' = ''checksum''"
  by code_simp+

lemma demo_month: "parseYearMonth ''2024-02'' = Some (2024, 2)"
  by (simp add: parseYearMonth_def isDigit_def decVal_def digitVal_def)

lemma demo_found: "case fst demoRefresh of Inl _ \<Rightarrow> False | Inr _ \<Rightarrow> True"
  by (simp add: demoRefresh_def updateSelectedData_def demo_month directChecksumCatalogStartYear_def fetchPinnedChecksumData_def
    demo_lines pinnedStep_def demo_plural isKnownType_def dataTypes_def formatMonth_def yearOf_def monthOf_def Let_def batchInsert_def
    del: toLower.simps)


end
