(* ===== verification/Preflight.thy ===== *)
theory Preflight
  imports Dump_Catalog
begin

text \<open>
  The dependency preflight of \<open>src/batch/dependency_preflight.go\<close>: an import of some entities needs
  completed checkpoints of the entities they refer to, as new as the catalog allows. Which entities
  an entity needs is the manifest library's \<open>RequiredLockEntityTypes\<close>, \<open>scLockTypes\<close> of the schema
  parameter. The formatted dates the code compares are ordered like the dates.
\<close>

section \<open>Requirements\<close>

definition zeroDate :: nat where "zeroDate = 10101"

record requirement =
  rqEntity :: entityType
  rqRequiredBy :: "entityType list"
  rqHorizon :: nat

fun selectDumps :: "'x schema \<Rightarrow> dump option list \<Rightarrow> (entityType \<times> dump) list \<Rightarrow> string + (entityType \<times> dump) list" where
  "selectDumps sc [] selected = Inr selected"
| "selectDumps sc (None # ds) selected = Inl ''dependency preflight contains a nil dump''"
| "selectDumps sc (Some d # ds) selected =
     (case scOrdered sc [dEntity d] of
        Inl m \<Rightarrow> Inl (''resolve dependency preflight entity: '' @ m)
      | Inr [] \<Rightarrow> Inl ''index out of range''
      | Inr (e # _) \<Rightarrow>
          if e \<in> fst ` set selected
          then Inl (''dependency preflight contains duplicate entity type '' @ quote # e @ [quote])
          else if dDate d = int zeroDate
          then Inl (''dependency preflight dump date is required for '' @ quote # e @ [quote])
          else selectDumps sc ds (selected @ [(e, d)]))"

definition horizonOf :: "dump \<Rightarrow> nat" where
  "horizonOf d = firstDayOfNextMonth (nat (dDate d))"

definition addRequirement ::
  "entityType set \<Rightarrow> entityType \<Rightarrow> nat \<Rightarrow> entityType \<Rightarrow> (entityType \<times> requirement) list \<Rightarrow> (entityType \<times> requirement) list" where
  "addRequirement selected e horizon t reqs =
     (if t = e \<or> t \<in> selected then reqs
      else let old = (case map_of reqs t of Some r \<Rightarrow> r | None \<Rightarrow> \<lparr>rqEntity = [], rqRequiredBy = [], rqHorizon = zeroDate\<rparr>)
        in AList.update t \<lparr>rqEntity = t, rqRequiredBy = rqRequiredBy old @ [e],
             rqHorizon = (if rqHorizon old < horizon then horizon else rqHorizon old)\<rparr> reqs)"

fun requireFrom ::
  "'x schema \<Rightarrow> entityType set \<Rightarrow> (entityType \<times> dump) list \<Rightarrow> (entityType \<times> requirement) list \<Rightarrow>
   string + (entityType \<times> requirement) list" where
  "requireFrom sc selected [] reqs = Inr reqs"
| "requireFrom sc selected ((e, d) # rest) reqs =
     (case scLockTypes sc [e] of
        Inl m \<Rightarrow> Inl (''resolve '' @ e @ '' import dependencies: '' @ m)
      | Inr ts \<Rightarrow> requireFrom sc selected rest (fold (addRequirement selected e (horizonOf d)) ts reqs))"

definition sortedRequirement :: "(entityType \<times> requirement) list \<Rightarrow> entityType \<Rightarrow> requirement" where
  "sortedRequirement reqs t = (let r = the (map_of reqs t) in r\<lparr>rqRequiredBy := sort (rqRequiredBy r)\<rparr>)"

definition importDependencyRequirements :: "'x schema \<Rightarrow> dump option list \<Rightarrow> string + requirement list" where
  "importDependencyRequirements sc dumps =
     (case selectDumps sc dumps [] of
        Inl e \<Rightarrow> Inl e
      | Inr selected \<Rightarrow>
          (case requireFrom sc (fst ` set selected) selected [] of
             Inl e \<Rightarrow> Inl e
           | Inr reqs \<Rightarrow> Inr (map (sortedRequirement reqs) (sort (map fst reqs)))))"

section \<open>Checkpoints\<close>

record dependencyCheckpoint =
  dcDate :: nat
  dcChecksum :: string

definition dumpCheckpoint :: "dump \<Rightarrow> dependencyCheckpoint" where
  "dumpCheckpoint d = \<lparr>dcDate = nat (dDate d), dcChecksum = dChecksum d\<rparr>"

text \<open>\<open>dependencyCheckpointQuery\<close>: the last completed run of the entity under its current contract,
  joined with its dump; then the newest dump of the catalog before the horizon.\<close>

definition completedCheckpoint :: "'x schema \<Rightarrow> entityType \<Rightarrow> runDumpRow \<Rightarrow> dumpRow \<Rightarrow> bool" where
  "completedCheckpoint sc e rd r \<longleftrightarrow>
     dpID r = duDump rd \<and> dEntity (dpDump r) = duEntity rd \<and> duEntity rd = e \<and>
     duRevision rd = Some (case currentRevision sc e of None \<Rightarrow> 0 | Some v \<Rightarrow> v) \<and>
     duCompletedAt rd \<noteq> None \<and> duChunkSize rd \<noteq> None \<and> duTotalItems rd \<noteq> None \<and> duTotalChunks rd \<noteq> None \<and>
     duTotalItems rd = Some (duProcessed rd)"

definition latestCheckpoint :: "'x schema \<Rightarrow> entityType \<Rightarrow> 'x catalogDB \<Rightarrow> dependencyCheckpoint option" where
  "latestCheckpoint sc e db =
     (let joined = [(rd, r). rd \<leftarrow> runDumps (dbLedger db), r \<leftarrow> dbDumps db, completedCheckpoint sc e rd r]
      in case sort_key (\<lambda>(rd, r). (the (duCompletedAt rd), duRun rd)) joined of
           [] \<Rightarrow> None
         | rows \<Rightarrow> Some (dumpCheckpoint (dpDump (snd (last rows)))))"

definition expectedDump :: "entityType \<Rightarrow> nat \<Rightarrow> 'x catalogDB \<Rightarrow> dependencyCheckpoint option" where
  "expectedDump e horizon db =
     map_option (\<lambda>r. dumpCheckpoint (dpDump r)) (latestDump (\<lambda>d. dEntity d = e \<and> dDate d < int horizon) db)"

definition readDependencyCheckpoint ::
  "'x schema \<Rightarrow> faultPlan \<Rightarrow> 'x catalogDB \<Rightarrow> requirement \<Rightarrow> string + dependencyCheckpoint \<times> dependencyCheckpoint option" where
  "readDependencyCheckpoint sc fl db rq =
     (if fl (''read '' @ rqEntity rq @ '' dependency checkpoint'') then Inl (''read '' @ rqEntity rq @ '' dependency checkpoint'')
      else case latestCheckpoint sc (rqEntity rq) db of
        None \<Rightarrow> Inl (''partial import requires a completed '' @ rqEntity rq @ '' checkpoint for '' @ joinComma (rqRequiredBy rq))
      | Some cp \<Rightarrow> Inr (cp, expectedDump (rqEntity rq) (rqHorizon rq) db))"

text \<open>\<open>strings.EqualFold\<close> on trimmed text: exact on ASCII, and on the two letters beyond it that
  fold to ASCII.\<close>

fun foldCase :: "nat list \<Rightarrow> nat list" where
  "foldCase rs = map (\<lambda>r. if 65 \<le> r \<and> r \<le> 90 then r + 32 else if r = 0x212A then 107 else if r = 0x17F then 115 else r) rs"

definition equalFold :: "string \<Rightarrow> string \<Rightarrow> bool" where
  "equalFold s t \<longleftrightarrow> foldCase (runes s) = foldCase (runes t)"

definition sameChecksum :: "dependencyCheckpoint \<Rightarrow> dependencyCheckpoint \<Rightarrow> bool" where
  "sameChecksum a b \<longleftrightarrow> equalFold (trimSpace (dcChecksum a)) (trimSpace (dcChecksum b))"

definition validateDependencyCheckpoint ::
  "requirement \<Rightarrow> dependencyCheckpoint \<Rightarrow> dependencyCheckpoint option \<Rightarrow> string option" where
  "validateDependencyCheckpoint rq cp expected =
     (if \<not> dcDate cp < rqHorizon rq then None
      else case expected of
        None \<Rightarrow> Some (rqEntity rq @ '' checkpoint '' @ formatDay (dcDate cp)
          @ '' has no immutable catalog provenance before '' @ formatDay (rqHorizon rq))
      | Some x \<Rightarrow>
          (let stale = dcDate cp < dcDate x; reissued = (dcDate cp = dcDate x \<and> \<not> sameChecksum cp x)
           in if \<not> stale \<and> \<not> reissued then None
              else Some (rqEntity rq @ '' checkpoint '' @ formatDay (dcDate cp) @ '' is stale for ''
                @ joinComma (rqRequiredBy rq) @ ''; latest compatible catalog dump is '' @ formatDay (dcDate x))))"

fun preflightAll :: "'x schema \<Rightarrow> faultPlan \<Rightarrow> 'x catalogDB \<Rightarrow> requirement list \<Rightarrow> string option" where
  "preflightAll sc fl db [] = None"
| "preflightAll sc fl db (rq # rqs) =
     (case readDependencyCheckpoint sc fl db rq of
        Inl e \<Rightarrow> Some e
      | Inr (cp, expected) \<Rightarrow>
          (case validateDependencyCheckpoint rq cp expected of
             Some e \<Rightarrow> Some e
           | None \<Rightarrow> preflightAll sc fl db rqs))"

definition preflightImportDependencies ::
  "'x schema \<Rightarrow> faultPlan \<Rightarrow> 'x catalogDB option \<Rightarrow> dump option list \<Rightarrow> string option" where
  "preflightImportDependencies sc fl db dumps =
     (case importDependencyRequirements sc dumps of
        Inl e \<Rightarrow> Some e
      | Inr rqs \<Rightarrow>
          if rqs = [] then None
          else case db of
            None \<Rightarrow> Some ''preflight import dependencies: database connection is nil''
          | Some d \<Rightarrow> preflightAll sc fl d rqs)"

section \<open>What the preflight demands\<close>

text \<open>The uses of an entity type: the selected entities that need it, with the horizon of each.\<close>

definition dependencies :: "'x schema \<Rightarrow> entityType \<Rightarrow> entityType list" where
  "dependencies sc e = (case scLockTypes sc [e] of Inl _ \<Rightarrow> [] | Inr ts \<Rightarrow> ts)"

definition usesOf :: "'x schema \<Rightarrow> entityType set \<Rightarrow> (entityType \<times> dump) list \<Rightarrow> entityType \<Rightarrow> (entityType \<times> nat) list" where
  "usesOf sc selected items t =
     [(e, horizonOf d). (e, d) \<leftarrow> items, u \<leftarrow> dependencies sc e, u = t \<and> t \<noteq> e \<and> t \<notin> selected]"

definition neededTypes :: "'x schema \<Rightarrow> (entityType \<times> dump) list \<Rightarrow> entityType list" where
  "neededTypes sc items =
     filter (\<lambda>t. usesOf sc (fst ` set items) items t \<noteq> []) (concat (map (dependencies sc \<circ> fst) items))"

definition latestHorizon :: "'x schema \<Rightarrow> (entityType \<times> dump) list \<Rightarrow> entityType \<Rightarrow> nat" where
  "latestHorizon sc items t = Max (insert zeroDate (snd ` set (usesOf sc (fst ` set items) items t)))"

text \<open>A checkpoint satisfies a need up to a horizon if it is not older than any dump before it.\<close>

definition satisfied :: "'x schema \<Rightarrow> faultPlan \<Rightarrow> 'x catalogDB \<Rightarrow> entityType \<Rightarrow> nat \<Rightarrow> bool" where
  "satisfied sc fl db t horizon \<longleftrightarrow>
     \<not> fl (''read '' @ t @ '' dependency checkpoint'') \<and>
     (case latestCheckpoint sc t db of
        None \<Rightarrow> False
      | Some cp \<Rightarrow>
          horizon \<le> dcDate cp \<or>
          (case expectedDump t horizon db of
             None \<Rightarrow> False
           | Some x \<Rightarrow> dcDate x < dcDate cp \<or> dcDate x = dcDate cp \<and> sameChecksum cp x))"

definition requirementFor :: "entityType \<Rightarrow> (entityType \<times> nat) list \<Rightarrow> requirement option" where
  "requirementFor t us =
     (if us = [] then None
      else Some \<lparr>rqEntity = t, rqRequiredBy = map fst us, rqHorizon = foldl max zeroDate (map snd us)\<rparr>)"

lemma requirementFor_snoc:
  "requirementFor t (us @ [(e, h)]) =
     (let old = (case requirementFor t us of Some r \<Rightarrow> r | None \<Rightarrow> \<lparr>rqEntity = [], rqRequiredBy = [], rqHorizon = zeroDate\<rparr>)
      in Some \<lparr>rqEntity = t, rqRequiredBy = rqRequiredBy old @ [e], rqHorizon = max (rqHorizon old) h\<rparr>)"
  by (simp add: requirementFor_def Let_def)

lemma addRequirement_uses:
  assumes "\<And>t. map_of reqs t = requirementFor t (f t)"
  shows "map_of (addRequirement selected e h u reqs) t =
    requirementFor t (f t @ (if u = t \<and> t \<noteq> e \<and> t \<notin> selected then [(e, h)] else []))"
proof (cases "u = e \<or> u \<in> selected")
  case False
  then show ?thesis
    by (auto simp: addRequirement_def update_conv' requirementFor_snoc assms Let_def max_def)
qed (auto simp: addRequirement_def assms)

lemma addRequirements_uses:
  assumes "\<And>t. map_of reqs t = requirementFor t (f t)"
  shows "map_of (fold (addRequirement selected e h) ts reqs) t =
    requirementFor t (f t @ [(e, h). u \<leftarrow> ts, u = t \<and> t \<noteq> e \<and> t \<notin> selected])"
  using assms
proof (induction ts arbitrary: reqs f)
  case (Cons u ts)
  have "map_of (addRequirement selected e h u reqs) t =
      requirementFor t ((\<lambda>t. f t @ (if u = t \<and> t \<noteq> e \<and> t \<notin> selected then [(e, h)] else [])) t)" for t
    by (rule addRequirement_uses) (rule Cons.prems)
  from Cons.IH [OF this] show ?case by simp
qed simp

lemma requireFrom_uses:
  assumes "\<And>t. map_of reqs t = requirementFor t (f t)" and "requireFrom sc selected items reqs = Inr reqs'"
  shows "map_of reqs' t = requirementFor t (f t @ usesOf sc selected items t)"
  using assms
proof (induction items arbitrary: reqs f)
  case (Cons x items)
  obtain e d ts where x: "x = (e, d)" "scLockTypes sc [e] = Inr ts"
    using Cons.prems(2) by (cases x) (auto split: sum.splits)
  let ?g = "\<lambda>t. f t @ [(e, horizonOf d). u \<leftarrow> ts, u = t \<and> t \<noteq> e \<and> t \<notin> selected]"
  have "map_of (fold (addRequirement selected e (horizonOf d)) ts reqs) t = requirementFor t (?g t)" for t
    by (rule addRequirements_uses) (rule Cons.prems(1))
  from Cons.IH [OF this] Cons.prems(2) x show ?case by (simp add: usesOf_def dependencies_def)
qed (simp add: usesOf_def)

lemma requireFrom_ok:
  "(\<exists>reqs'. requireFrom sc selected items reqs = Inr reqs') \<longleftrightarrow> list_all (\<lambda>(e, d). \<exists>ts. scLockTypes sc [e] = Inr ts) items"
proof (induction items arbitrary: reqs)
  case (Cons x items)
  then show ?case by (cases x; cases "scLockTypes sc [fst x]") simp_all
qed simp

lemma preflightAll_None:
  "preflightAll sc fl db rqs = None \<longleftrightarrow> list_all (\<lambda>rq. satisfied sc fl db (rqEntity rq) (rqHorizon rq)) rqs"
proof (induction rqs)
  case (Cons rq rqs)
  then show ?case
    by (auto simp: readDependencyCheckpoint_def validateDependencyCheckpoint_def satisfied_def Let_def split: option.splits)
qed simp

lemma foldl_max_Max: "foldl max (a::nat) xs = Max (insert a (set xs))"
proof (induction xs arbitrary: a)
  case (Cons x xs)
  have "Max (insert (max a x) (set xs)) = Max (insert a (insert x (set xs)))" by (cases "xs = []") (simp_all add: max.assoc)
  with Cons show ?case by simp
qed simp

lemma requirements_met:
  assumes "requireFrom sc (fst ` set items) items [] = Inr reqs"
  shows "preflightAll sc fl db (map (sortedRequirement reqs) (sort (map fst reqs))) = None \<longleftrightarrow>
    list_all (\<lambda>t. satisfied sc fl db t (latestHorizon sc items t)) (neededTypes sc items)"
proof -
  let ?u = "usesOf sc (fst ` set items) items"
  have m: "map_of reqs t = requirementFor t (?u t)" for t
    using requireFrom_uses [OF _ assms, of "\<lambda>_. []"] by (simp add: requirementFor_def)
  have keys: "t \<in> fst ` set reqs \<longleftrightarrow> ?u t \<noteq> []" for t
    using m [of t] map_of_eq_None_iff [of reqs t] by (auto simp: requirementFor_def split: if_splits)
  have rq: "rqEntity (sortedRequirement reqs t) = t \<and> rqHorizon (sortedRequirement reqs t) = latestHorizon sc items t"
    if "?u t \<noteq> []" for t
    using that by (simp add: sortedRequirement_def m requirementFor_def latestHorizon_def foldl_max_Max)
  have needed: "t \<in> set (neededTypes sc items) \<longleftrightarrow> ?u t \<noteq> []" for t
    by (fastforce simp: neededTypes_def usesOf_def)
  let ?ok = "\<lambda>t. satisfied sc fl db t (latestHorizon sc items t)"
  have "preflightAll sc fl db (map (sortedRequirement reqs) (sort (map fst reqs))) = None \<longleftrightarrow> (\<forall>t \<in> fst ` set reqs. ?ok t)"
    using keys rq by (auto simp: preflightAll_None list_all_iff)
  moreover have "fst ` set reqs = set (neededTypes sc items)" using keys needed by blast
  ultimately show ?thesis by (simp add: list_all_iff)
qed

section \<open>Property\<close>

text \<open>C15. The preflight lets an import pass exactly when every entity type that a selected entity needs,
  and that is not itself selected, has a completed checkpoint under its current contract that is
  not older than any dump the catalog has before the horizon of all its users, and not a dump
  that was issued again with another checksum.\<close>

theorem preflight_exact:
  "preflightImportDependencies sc fl (Some db) dumps = None \<longleftrightarrow>
     (case selectDumps sc dumps [] of
        Inl e \<Rightarrow> False
      | Inr items \<Rightarrow>
          list_all (\<lambda>(e, d). \<exists>ts. scLockTypes sc [e] = Inr ts) items \<and>
          list_all (\<lambda>t. satisfied sc fl db t (latestHorizon sc items t)) (neededTypes sc items))"
proof (cases "selectDumps sc dumps []")
  case (Inr items)
  show ?thesis
  proof (cases "requireFrom sc (fst ` set items) items []")
    case (Inl e)
    then show ?thesis using Inr requireFrom_ok [of sc "fst ` set items" items "[]"]
      by (simp add: preflightImportDependencies_def importDependencyRequirements_def)
  next
    case r: (Inr reqs)
    have "preflightImportDependencies sc fl (Some db) dumps = preflightAll sc fl db (map (sortedRequirement reqs) (sort (map fst reqs)))"
      using Inr r by (auto simp: preflightImportDependencies_def importDependencyRequirements_def)
    moreover have "list_all (\<lambda>(e, d). \<exists>ts. scLockTypes sc [e] = Inr ts) items"
      using r requireFrom_ok [of sc "fst ` set items" items "[]"] by simp
    ultimately show ?thesis using Inr requirements_met [OF r] by simp
  qed
qed (simp add: preflightImportDependencies_def importDependencyRequirements_def)

end
