(* ===== verification/Sha256.thy ===== *)
theory Sha256
  imports Helper
begin

text \<open>
  \<open>crypto/sha256\<close> of the Go standard library, as FIPS 180-4 defines it: the digest of a byte
  string as 32 bytes, on 32-bit words. The relation identities and the migration checksums
  of the importer are these digests. The theory has no theorem about hashing beyond the
  length of the digest and a test vector: nothing in the development assumes that digests
  do not collide.
\<close>

definition shaRound :: "uint32 list" where
  "shaRound = [
     1116352408, 1899447441, 3049323471, 3921009573, 961987163, 1508970993,
     2453635748, 2870763221, 3624381080, 310598401, 607225278, 1426881987,
     1925078388, 2162078206, 2614888103, 3248222580, 3835390401, 4022224774,
     264347078, 604807628, 770255983, 1249150122, 1555081692, 1996064986,
     2554220882, 2821834349, 2952996808, 3210313671, 3336571891, 3584528711,
     113926993, 338241895, 666307205, 773529912, 1294757372, 1396182291,
     1695183700, 1986661051, 2177026350, 2456956037, 2730485921, 2820302411,
     3259730800, 3345764771, 3516065817, 3600352804, 4094571909, 275423344,
     430227734, 506948616, 659060556, 883997877, 958139571, 1322822218,
     1537002063, 1747873779, 1955562222, 2024104815, 2227730452, 2361852424,
     2428436474, 2756734187, 3204031479, 3329325298
   ]"

definition shaInit :: "uint32 list" where
  "shaInit = [
     1779033703, 3144134277, 1013904242, 2773480762, 1359893119, 2600822924,
     528734635, 1541459225
   ]"

text \<open>\<open>binary.BigEndian\<close>: the bytes of a word, most significant first, and back.\<close>

definition bigEndian32 :: "int \<Rightarrow> string" where
  "bigEndian32 n =
     [char_of (n div 0x1000000), char_of (n div 0x10000), char_of (n div 0x100), char_of n]"

definition bigEndian64 :: "int \<Rightarrow> string" where
  "bigEndian64 n = bigEndian32 (n div 0x100000000) @ bigEndian32 n"

definition word32Of :: "string \<Rightarrow> uint32" where
  "word32Of bs = word_of_int (foldl (\<lambda>v b. v * 256 + of_char b) 0 bs)"

definition padded :: "string \<Rightarrow> string" where
  "padded s =
     (let n = length s
      in s @ [CHR 0x80] @ replicate ((119 - n mod 64) mod 64) (CHR 0x00) @ bigEndian64 (8 * int n))"

fun wordsOf :: "string \<Rightarrow> uint32 list" where
  "wordsOf (a # b # c # d # bs) = word32Of [a, b, c, d] # wordsOf bs"
| "wordsOf _ = []"

definition sig0 :: "uint32 \<Rightarrow> uint32" where
  "sig0 x = word_rotr 7 x XOR word_rotr 18 x XOR drop_bit 3 x"

definition sig1 :: "uint32 \<Rightarrow> uint32" where
  "sig1 x = word_rotr 17 x XOR word_rotr 19 x XOR drop_bit 10 x"

definition Sig0 :: "uint32 \<Rightarrow> uint32" where
  "Sig0 x = word_rotr 2 x XOR word_rotr 13 x XOR word_rotr 22 x"

definition Sig1 :: "uint32 \<Rightarrow> uint32" where
  "Sig1 x = word_rotr 6 x XOR word_rotr 11 x XOR word_rotr 25 x"

text \<open>The message schedule, newest word first while it grows.\<close>

primrec schedule :: "nat \<Rightarrow> uint32 list \<Rightarrow> uint32 list" where
  "schedule 0 ws = ws"
| "schedule (Suc k) ws =
     schedule k ((sig1 (ws ! 1) + ws ! 6 + sig0 (ws ! 14) + ws ! 15) # ws)"

type_synonym shaState =
  "uint32 \<times> uint32 \<times> uint32 \<times> uint32 \<times> uint32 \<times> uint32 \<times> uint32 \<times> uint32"

fun shaStep :: "shaState \<Rightarrow> uint32 \<times> uint32 \<Rightarrow> shaState" where
  "shaStep (a, b, c, d, e, f, g, h) (k, w) =
     (let t1 = h + Sig1 e + ((e AND f) XOR (NOT e AND g)) + k + w;
          t2 = Sig0 a + ((a AND b) XOR (a AND c) XOR (b AND c))
      in (t1 + t2, a, b, c, d + t1, e, f, g))"

fun addState :: "shaState \<Rightarrow> shaState \<Rightarrow> shaState" where
  "addState (a, b, c, d, e, f, g, h) (a', b', c', d', e', f', g', h') =
     (a + a', b + b', c + c', d + d', e + e', f + f', g + g', h + h')"

definition compress :: "shaState \<Rightarrow> uint32 list \<Rightarrow> shaState" where
  "compress st block = addState st (foldl shaStep st (zip shaRound (rev (schedule 48 (rev block)))))"

function compressAll :: "shaState \<Rightarrow> uint32 list \<Rightarrow> shaState" where
  "compressAll st ws = (if length ws < 16 then st else compressAll (compress st (take 16 ws)) (drop 16 ws))"
  by pat_completeness auto
termination
  by (relation "measure (\<lambda>(st, ws). length ws)") auto

declare compressAll.simps [simp del]

fun digestOf :: "shaState \<Rightarrow> string" where
  "digestOf (a, b, c, d, e, f, g, h) =
     concat (map (\<lambda>w. bigEndian32 (uint w)) [a, b, c, d, e, f, g, h])"

definition sha256 :: "string \<Rightarrow> string" where
  "sha256 s =
     digestOf (compressAll
       (shaInit ! 0, shaInit ! 1, shaInit ! 2, shaInit ! 3, shaInit ! 4, shaInit ! 5, shaInit ! 6,
        shaInit ! 7)
       (wordsOf (padded s)))"

lemma length_bigEndian32 [simp]: "length (bigEndian32 n) = 4"
  by (simp add: bigEndian32_def)

lemma length_digestOf [simp]: "length (digestOf st) = 32"
  by (cases st rule: digestOf.cases) simp

lemma length_sha256 [simp]: "length (sha256 s) = 32"
  by (simp add: sha256_def)

lemma bigEndian32_value:
  assumes "0 \<le> n" and "n < 2 ^ 32"
  shows "foldl (\<lambda>v b. v * 256 + of_char b) 0 (bigEndian32 n) = n"
proof -
  have "foldl (\<lambda>v b. v * 256 + of_char b) 0 (bigEndian32 n) =
      ((n div 0x1000000 mod 256 * 256 + n div 0x10000 mod 256) * 256 + n div 0x100 mod 256) * 256 + n mod 256"
    by (simp add: bigEndian32_def)
  also have "n div 0x1000000 mod 256 = n div 0x1000000"
    using assms by (intro mod_pos_pos_trivial) (auto simp: pos_imp_zdiv_nonneg_iff)
  also have "n div 0x1000000 * 256 + n div 0x10000 mod 256 = n div 0x10000"
    using div_mult_mod_eq [of "n div 0x10000" 256] by (simp add: zdiv_zmult2_eq [symmetric])
  also have "n div 0x10000 * 256 + n div 0x100 mod 256 = n div 0x100"
    using div_mult_mod_eq [of "n div 0x100" 256] by (simp add: zdiv_zmult2_eq [symmetric])
  also have "n div 0x100 * 256 + n mod 256 = n"
    by (rule div_mult_mod_eq)
  finally show ?thesis .
qed

lemma bigEndian32_inject:
  "0 \<le> m \<Longrightarrow> m < 2 ^ 32 \<Longrightarrow> 0 \<le> n \<Longrightarrow> n < 2 ^ 32 \<Longrightarrow> bigEndian32 m = bigEndian32 n \<longleftrightarrow> m = n"
  by (metis bigEndian32_value)

end
