(* ===== verification/Schema_Migration.thy ===== *)
theory Schema_Migration
  imports Preflight Sha256 "HOL-Library.Multiset"
begin

text \<open>
  The schema migrations of \<open>src/batch/ddl.go\<close> and the adoption of a Liquibase history in
  \<open>legacy_migration.go\<close>: a run takes the advisory locks of every importer, then the Liquibase lock
  row, then applies the missing migrations, one transaction each, and records them in a ledger.

  The inventory of migrations, the compatibility manifest and its verifier belong to the module
  of the model and are fields of \<open>migrationEnv\<close>, as are the collation of the database, what
  a migration does to the tables it owns (\<open>evExec\<close> on \<open>'x\<close>) and the catalog queries on them.
  The fault plan decides which statements fail. The ledger, the lock row and the Liquibase history
  of the selected schema are modelled as tables; migrations leave them alone.
\<close>

section \<open>State and errors\<close>

record canonicalMigration =
  cnVersion :: string
  cnChecksum :: string
  cnSQL :: string

record lockRow =
  lkID :: int
  lkLocked :: bool
  lkGranted :: "int option"
  lkOwner :: "string option"

record legacyRow =
  lgID :: string
  lgAuthor :: string
  lgFilename :: string
  lgExecution :: string
  lgChecksum :: string

record 'x schemaDB =
  sdLedger :: "(string \<times> string) list option"
  sdLocks :: "lockRow list option"
  sdHistory :: "legacyRow list option"
  sdRest :: 'x

text \<open>A table that does not exist is \<open>None\<close>. The advisory locks are pairs of a key and a session.\<close>

record 'x migServer =
  mvDB :: "'x schemaDB"
  mvLocks :: "(int \<times> int) list"

datatype legacyMode = PublicMode | CustomMode | OtherMode string

record legacyChangeSet =
  csMode :: legacyMode
  csID :: string
  csAuthor :: string
  csFilename :: string
  csExact :: bool
  csChecksum :: string
  csExecution :: "string \<Rightarrow> bool option"

text \<open>\<open>csExecution\<close> is the policy of an execution type: \<open>None\<close> when it is not permitted, otherwise
  whether adopting it needs the proof by schema contract.\<close>

record legacyMigration =
  lmVersion :: string
  lmFilename :: string
  lmSHA256 :: string
  lmChangeSets :: "legacyChangeSet list"

record legacyContract =
  lcVersions :: "string list"
  lcFingerprint :: "int \<Rightarrow> string option"
  lcVerifier :: string

record legacyManifest =
  lfContract :: "string \<Rightarrow> legacyContract option"
  lfMigrations :: "legacyMigration list"

record 'x migrationEnv =
  evFiles :: "string + (string \<times> string option) list"
  evLockTypes :: "entityType list \<Rightarrow> string + entityType list"
  evLockKey :: "entityType \<Rightarrow> string + int"
  evCollate :: "string \<Rightarrow> nat list"
  evTrigram :: "'x \<Rightarrow> (string \<times> string) option"
  evExec :: "string \<Rightarrow> string \<Rightarrow> 'x \<Rightarrow> 'x option"
  evBootstrapBusy :: bool
  evCompatibility :: "string + legacyManifest"
  evContract :: "string \<Rightarrow> string + string"
  evServerVersion :: int
  evFingerprint :: "string \<Rightarrow> string \<Rightarrow> 'x \<Rightarrow> string option option"
  evNow :: int

datatype migrationError =
    LoadFailed string
  | BadSchema string
  | EmptyInventory
  | Unreadable string
  | NoDatabase
  | Failed string
  | LockTypesUnresolved string
  | LockKeyUnresolved entityType string
  | ImportActive entityType
  | NotHeld int
  | LockRowMissing
  | LockRowHeld string
  | LockRowChanged
  | OwnershipChanged
  | MigratorActive string
  | NewerThanArtifact
  | NotCanonicalPrefix nat string string
  | ChecksumChanged string
  | CompatibilityUnavailable string
  | PartialAdoption nat nat
  | UnsupportedPrefix nat
  | NotArtifactPrefix
  | ArtifactMismatch string
  | UntrustedIdentity string
  | UnsupportedExecution string string
  | LegacyChecksumChanged string
  | LegacyChecksumInvalid string
  | ContractUnavailable nat
  | UnsupportedServer int
  | VerifierUnavailable string
  | FingerprintNull
  | FingerprintMismatch string string
  | IndexPanic

type_synonym ('x, 'a) ddl = "('x schemaDB, migrationError, 'a) proc"

definition ddlStmt :: "faultPlan \<Rightarrow> string \<Rightarrow> ('x, 'a) ddl \<Rightarrow> ('x, 'a) ddl" where
  "ddlStmt fl what m = (if fl what then throw (Failed what) else m)"

definition ddlTx :: "faultPlan \<Rightarrow> string \<Rightarrow> ('x, 'a) ddl \<Rightarrow> ('x, 'a) ddl" where
  "ddlTx fl what = atomically (fl (''begin '' @ what)) (Failed (''begin '' @ what))
     (fl (''commit '' @ what)) (Failed (''commit '' @ what))"

definition collated :: "'x migrationEnv \<Rightarrow> string \<Rightarrow> nat list \<times> string" where
  "collated env v = (evCollate env v, v)"

text \<open>\<open>ORDER BY\<close> of a text column: by the key of the collation, then by the bytes.\<close>

section \<open>The inventory\<close>

definition hexLower :: "nat \<Rightarrow> char" where
  "hexLower n = (if n < 10 then char_of (48 + n) else char_of (87 + n))"

definition hexEncode :: "string \<Rightarrow> string" where
  "hexEncode bs = concat (map (\<lambda>c. [hexLower (of_char c div 16), hexLower (of_char c mod 16)]) bs)"

text \<open>\<open>filepath.Base\<close> on names with a slash as separator.\<close>

definition baseName :: "string \<Rightarrow> string" where
  "baseName p =
     (if p = [] then ''.''
      else let s = rev (dropWhile (\<lambda>c. c = CHR ''/'') (rev p)); b = rev (takeWhile (\<lambda>c. c \<noteq> CHR ''/'') (rev s))
           in if b = [] then ''/'' else b)"

definition sqlNames :: "(string \<times> string option) list \<Rightarrow> string list" where
  "sqlNames entries = sort (filter (suffix ''.sql'') (map fst entries))"

fun readEach :: "pgSchema \<Rightarrow> (string \<times> string option) list \<Rightarrow> string list \<Rightarrow> migrationError + canonicalMigration list" where
  "readEach schema entries [] = Inr []"
| "readEach schema entries (name # names) =
     (case map_of entries name of
        Some (Some contents) \<Rightarrow>
          (case readEach schema entries names of
             Inl e \<Rightarrow> Inl e
           | Inr loaded \<Rightarrow> Inr (\<lparr>cnVersion = baseName name, cnChecksum = hexEncode (sha256 contents),
               cnSQL = scopeCanonicalSQL schema contents\<rparr> # loaded))
      | _ \<Rightarrow> Inl (Unreadable name))"

definition readCanonicalMigrations ::
  "(string \<times> string option) list \<Rightarrow> pgSchema \<Rightarrow> migrationError + canonicalMigration list" where
  "readCanonicalMigrations entries schema =
     (if sqlNames entries = [] then Inl EmptyInventory else readEach schema entries (sqlNames entries))"

definition ledgerRow :: "canonicalMigration \<Rightarrow> string \<times> string" where
  "ledgerRow m = (cnVersion m, cnChecksum m)"

section \<open>The advisory locks of the importers\<close>

fun lockEach ::
  "'x migrationEnv \<Rightarrow> faultPlan \<Rightarrow> int \<Rightarrow> entityType list \<Rightarrow> int list \<Rightarrow> (int \<times> int) list \<Rightarrow>
   (migrationError option \<times> int list) \<times> (int \<times> int) list" where
  "lockEach env fl session [] keys locks = ((None, keys), locks)"
| "lockEach env fl session (e # es) keys locks =
     (case evLockKey env e of
        Inl m \<Rightarrow> ((Some (LockKeyUnresolved e m), keys), locks)
      | Inr key \<Rightarrow>
          if fl (''acquire '' @ e @ '' schema migration lock'')
          then ((Some (Failed (''acquire '' @ e @ '' schema migration lock'')), keys), locks)
          else if \<exists>(k, holder) \<in> set locks. k = key \<and> holder \<noteq> session then ((Some (ImportActive e), keys), locks)
          else lockEach env fl session es (keys @ [key]) (locks @ [(key, session)]))"

definition unlockImport ::
  "faultPlan \<Rightarrow> int \<Rightarrow> migrationError list \<times> (int \<times> int) list \<Rightarrow> int \<Rightarrow> migrationError list \<times> (int \<times> int) list" where
  "unlockImport fl session st key =
     (let (errs, locks) = st; what = ''release schema migration import lock '' @ formatInt key
      in if fl what then (errs @ [Failed what], locks)
         else if (key, session) \<in> set locks then (errs, remove1 (key, session) locks)
         else (errs @ [NotHeld key], locks))"

text \<open>A connection given up after a failed unlock is closed, and the server drops the locks of its
  session; closing the handle once more then reports that it is gone.\<close>

definition discardConnection :: "int \<Rightarrow> (int \<times> int) list \<Rightarrow> (int \<times> int) list" where
  "discardConnection session locks = filter (\<lambda>l. snd l \<noteq> session) locks"

definition releaseImportLocks ::
  "faultPlan \<Rightarrow> int \<Rightarrow> int list \<Rightarrow> (int \<times> int) list \<Rightarrow> migrationError list \<times> (int \<times> int) list" where
  "releaseImportLocks fl session keys locks =
     (let (errs, locks') = foldl (unlockImport fl session) ([], locks) (rev keys);
          close = ''close schema migration lock connection''
      in (errs @ (if errs \<noteq> [] \<or> fl close then [Failed close] else []),
          if errs \<noteq> [] then discardConnection session locks' else locks'))"

text \<open>The database handle is a nil pointer or a pool that reserves a connection, given by its session.\<close>

definition acquireMigrationImportLocks ::
  "'x migrationEnv \<Rightarrow> faultPlan \<Rightarrow> int option \<Rightarrow> (int \<times> int) list \<Rightarrow> (migrationError + int \<times> int list) \<times> (int \<times> int) list" where
  "acquireMigrationImportLocks env fl db locks =
     (case db of
        None \<Rightarrow> (Inl NoDatabase, locks)
      | Some session \<Rightarrow>
          if fl ''resolve schema migration database'' then (Inl (Failed ''resolve schema migration database''), locks)
          else if fl ''reserve schema migration lock connection''
          then (Inl (Failed ''reserve schema migration lock connection''), locks)
          else case evLockTypes env [releaseEntityType] of
            Inl m \<Rightarrow> (Inl (LockTypesUnresolved m), locks)
          | Inr types \<Rightarrow>
              (case lockEach env fl session types [] locks of
                 ((Some e, keys), locks') \<Rightarrow> (Inl e, snd (releaseImportLocks fl session keys locks'))
               | ((None, keys), locks') \<Rightarrow> (Inr (session, keys), locks')))"

section \<open>The Liquibase lock row\<close>

definition liquibaseLockID :: int where "liquibaseLockID = 1"
definition liquibaseMigrationLockOwner :: string where
  "liquibaseMigrationLockOwner = ''go-open-discogs-batch canonical migrator''"

definition lockRows :: "'x schemaDB \<Rightarrow> lockRow list" where
  "lockRows db = (case sdLocks db of None \<Rightarrow> [] | Some rs \<Rightarrow> rs)"

definition createLockTable :: "('x, unit) ddl" where
  "createLockTable = (\<lambda>db. (Inr (), db\<lparr>sdLocks := Some (lockRows db)\<rparr>))"

definition initializeLock :: "('x, unit) ddl" where
  "initializeLock = (\<lambda>db. (Inr (),
     if \<exists>r \<in> set (lockRows db). lkID r = liquibaseLockID then db
     else db\<lparr>sdLocks := Some (lockRows db @ [\<lparr>lkID = liquibaseLockID, lkLocked = False, lkGranted = None, lkOwner = None\<rparr>])\<rparr>))"

text \<open>An update of the lock table returns how many rows it changed.\<close>

definition updateLock :: "(lockRow \<Rightarrow> bool) \<Rightarrow> (lockRow \<Rightarrow> lockRow) \<Rightarrow> ('x, nat) ddl" where
  "updateLock P f = (\<lambda>db. (Inr (length (filter P (lockRows db))),
     db\<lparr>sdLocks := Some (map (\<lambda>r. if P r then f r else r) (lockRows db))\<rparr>))"

definition reserveLock :: "pgSchema \<Rightarrow> ('x, unit) ddl" where
  "reserveLock schema = andThen getState (\<lambda>db.
     case filter (\<lambda>r. lkID r = liquibaseLockID) (lockRows db) of
       [r] \<Rightarrow> check (\<not> lkLocked r) (LockRowHeld (psName schema))
     | _ \<Rightarrow> throw LockRowMissing)"

definition takeLock :: "int \<Rightarrow> ('x, unit) ddl" where
  "takeLock now =
     andThen (updateLock (\<lambda>r. lkID r = liquibaseLockID \<and> \<not> lkLocked r)
       (\<lambda>r. r\<lparr>lkLocked := True, lkGranted := Some now, lkOwner := Some liquibaseMigrationLockOwner\<rparr>))
     (\<lambda>n. check (n = 1) LockRowChanged)"

definition acquireLiquibaseMigrationLock :: "'x migrationEnv \<Rightarrow> faultPlan \<Rightarrow> pgSchema \<Rightarrow> ('x, unit) ddl" where
  "acquireLiquibaseMigrationLock env fl schema = ddlTx fl ''Liquibase migration lock''
     (andThen (ddlStmt fl ''create Liquibase migration lock table'' createLockTable)
     (\<lambda>_. andThen (ddlStmt fl ''initialize Liquibase migration lock'' initializeLock)
     (\<lambda>_. andThen (ddlStmt fl ''reserve Liquibase migration lock'' (reserveLock schema))
     (\<lambda>_. ddlStmt fl ''acquire Liquibase migration lock'' (takeLock (evNow env))))))"

definition ownsLock :: "lockRow \<Rightarrow> bool" where
  "ownsLock r \<longleftrightarrow> lkID r = liquibaseLockID \<and> lkLocked r \<and> lkOwner r = Some liquibaseMigrationLockOwner"

definition freeLock :: "lockRow \<Rightarrow> lockRow" where
  "freeLock r = r\<lparr>lkLocked := False, lkGranted := None, lkOwner := None\<rparr>"

definition releaseLiquibaseLock :: "faultPlan \<Rightarrow> ('x, unit) ddl" where
  "releaseLiquibaseLock fl =
     andThen (ddlStmt fl ''release Liquibase migration lock'' (updateLock ownsLock freeLock))
     (\<lambda>n. check (n = 1) OwnershipChanged)"

section \<open>The ledger\<close>

definition ledgerTable :: "('x, (string \<times> string) list) ddl" where
  "ledgerTable = andThen getState (\<lambda>db. case sdLedger db of None \<Rightarrow> throw (Failed ''missing ledger'') | Some rows \<Rightarrow> ret rows)"

definition ensureMigrationLedger :: "'x migrationEnv \<Rightarrow> faultPlan \<Rightarrow> pgSchema \<Rightarrow> ('x, unit) ddl" where
  "ensureMigrationLedger env fl schema = ddlTx fl ''schema migration ledger''
     (andThen (ddlStmt fl ''lock schema migration bootstrap'' (check (\<not> evBootstrapBusy env) (MigratorActive (psName schema))))
     (\<lambda>_. ddlStmt fl ''create schema migration ledger'' (\<lambda>db. (Inr (), db\<lparr>sdLedger := Some (case sdLedger db of None \<Rightarrow> [] | Some rows \<Rightarrow> rows)\<rparr>))))"

definition insertLedger :: "string \<Rightarrow> string \<Rightarrow> ('x, unit) ddl" where
  "insertLedger version checksum = andThen ledgerTable (\<lambda>rows. andThen (check (version \<notin> fst ` set rows) (Failed version))
     (\<lambda>_ db. (Inr (), db\<lparr>sdLedger := Some (rows @ [(version, checksum)])\<rparr>)))"

fun matchLedger :: "nat \<Rightarrow> (string \<times> string) list \<Rightarrow> canonicalMigration list \<Rightarrow> migrationError option" where
  "matchLedger i [] ms = None"
| "matchLedger i (row # rows) [] = Some NewerThanArtifact"
| "matchLedger i ((v, c) # rows) (m # ms) =
     (if v \<noteq> cnVersion m then Some (NotCanonicalPrefix i v (cnVersion m))
      else if c \<noteq> cnChecksum m then Some (ChecksumChanged v)
      else matchLedger (Suc i) rows ms)"

definition validateMigrationLedger :: "'x migrationEnv \<Rightarrow> faultPlan \<Rightarrow> canonicalMigration list \<Rightarrow> ('x, unit) ddl" where
  "validateMigrationLedger env fl migrations =
     andThen (ddlStmt fl ''read shared migration inventory'' ledgerTable) (\<lambda>rows.
       if length rows > length migrations then throw NewerThanArtifact
       else case matchLedger 0 (sort_key (\<lambda>r. collated env (fst r)) rows) migrations of
         Some e \<Rightarrow> throw e
       | None \<Rightarrow> ret ())"

section \<open>One migration\<close>

definition appendPath :: "(string \<times> string) list \<Rightarrow> string \<times> string \<Rightarrow> (string \<times> string) list" where
  "appendPath path entry = (if fst entry \<in> fst ` set path then path else path @ [entry])"

fun joinSchemas :: "string list \<Rightarrow> string" where
  "joinSchemas [] = []"
| "joinSchemas [p] = p"
| "joinSchemas (p # ps) = p @ '', '' @ joinSchemas ps"

definition publicEntry :: "string \<times> string" where
  "publicEntry = (defaultSchemaName, quote # defaultSchemaName @ [quote])"

definition migrationSearchPath :: "(string \<times> string) option \<Rightarrow> pgSchema \<Rightarrow> string" where
  "migrationSearchPath extension schema =
     joinSchemas (map snd (foldl appendPath []
       [case extension of Some found \<Rightarrow> found | None \<Rightarrow> publicEntry, (psName schema, psIdentifier schema), publicEntry]))"

definition setMigrationSearchPath :: "'x migrationEnv \<Rightarrow> faultPlan \<Rightarrow> pgSchema \<Rightarrow> string \<Rightarrow> ('x, string) ddl" where
  "setMigrationSearchPath env fl schema v =
     andThen (ddlStmt fl (''inspect pg_trgm extension schema for '' @ v) getState)
     (\<lambda>db. ddlStmt fl (''set schema migration search path for '' @ v)
        (ret (migrationSearchPath (evTrigram env (sdRest db)) schema)))"

definition execMigration :: "'x migrationEnv \<Rightarrow> string \<Rightarrow> canonicalMigration \<Rightarrow> ('x, unit) ddl" where
  "execMigration env path m = (\<lambda>db.
     case evExec env path (cnSQL m) (sdRest db) of
       None \<Rightarrow> (Inl (Failed (''apply shared migration '' @ cnVersion m)), db)
     | Some x \<Rightarrow> (Inr (), db\<lparr>sdRest := x\<rparr>))"

definition applyMigration :: "'x migrationEnv \<Rightarrow> faultPlan \<Rightarrow> pgSchema \<Rightarrow> canonicalMigration \<Rightarrow> ('x, unit) ddl" where
  "applyMigration env fl schema m = ddlTx fl (''migration '' @ cnVersion m)
     (andThen (ddlStmt fl (''lock shared migration ledger for '' @ cnVersion m) ledgerTable)
     (\<lambda>_. andThen (ddlStmt fl (''read migration ledger for '' @ cnVersion m) ledgerTable)
     (\<lambda>rows. case map_of rows (cnVersion m) of
        Some applied \<Rightarrow> check (applied = cnChecksum m) (ChecksumChanged (cnVersion m))
      | None \<Rightarrow>
          andThen (setMigrationSearchPath env fl schema (cnVersion m))
          (\<lambda>path. andThen (ddlStmt fl (''apply shared migration '' @ cnVersion m) (execMigration env path m))
          (\<lambda>_. ddlStmt fl (''record shared migration '' @ cnVersion m) (insertLedger (cnVersion m) (cnChecksum m)))))))"

section \<open>Adoption of a Liquibase history\<close>

definition legacyChangeSetIDPrefix :: string where "legacyChangeSetIDPrefix = ''open-discogs-model-v''"

definition readLegacyLiquibaseRows :: "'x migrationEnv \<Rightarrow> faultPlan \<Rightarrow> ('x, legacyRow list) ddl" where
  "readLegacyLiquibaseRows env fl =
     andThen (ddlStmt fl ''inspect legacy Liquibase history'' getState)
     (\<lambda>db. case sdHistory db of
        None \<Rightarrow> ret []
      | Some history \<Rightarrow> ddlStmt fl ''read legacy Liquibase history''
          (ret (sort_key (\<lambda>r. (collated env (lgID r), collated env (lgAuthor r), collated env (lgFilename r)))
             (filter (\<lambda>r. prefix legacyChangeSetIDPrefix (lgID r)) history))))"

text \<open>\<open>fmt.Sprintf("V%03d", n)\<close>.\<close>

definition prefixVersion :: "nat \<Rightarrow> string" where
  "prefixVersion n = CHR ''V'' # replicate (3 - length (decText n)) CHR ''0'' @ decText n"

definition lowerHex :: "char \<Rightarrow> bool" where
  "lowerHex c \<longleftrightarrow> isDigit c \<or> (let n = of_char c :: nat in 97 \<le> n \<and> n \<le> 102)"

definition liquibaseChecksumPattern :: "string \<Rightarrow> bool" where
  "liquibaseChecksumPattern s \<longleftrightarrow> prefix ''9:'' s \<and> length s = 34 \<and> list_all lowerHex (drop 2 s)"

text \<open>An index outside the manifest's migrations panics.\<close>

definition validateLegacyRow ::
  "legacyManifest \<Rightarrow> legacyMode \<Rightarrow> canonicalMigration list \<Rightarrow> nat \<Rightarrow> legacyRow \<Rightarrow> migrationError + bool" where
  "validateLegacyRow manifest wanted canonical i row =
     (if \<not> i < length (lfMigrations manifest) then Inl IndexPanic
      else let migration = lfMigrations manifest ! i; version = lmVersion migration
      in if lmFilename migration \<noteq> cnVersion (canonical ! i) \<or> lmSHA256 migration \<noteq> cnChecksum (canonical ! i)
         then Inl (ArtifactMismatch version)
         else case find (\<lambda>cs. csMode cs = wanted) (lmChangeSets migration) of
           None \<Rightarrow> Inl (UntrustedIdentity version)
         | Some expected \<Rightarrow>
             if lgID row \<noteq> csID expected \<or> lgAuthor row \<noteq> csAuthor expected \<or> lgFilename row \<noteq> csFilename expected
             then Inl (UntrustedIdentity version)
             else case csExecution expected (lgExecution row) of
               None \<Rightarrow> Inl (UnsupportedExecution version (lgExecution row))
             | Some byContract \<Rightarrow>
                 if csExact expected \<and> lgChecksum row \<noteq> csChecksum expected then Inl (LegacyChecksumChanged version)
                 else if \<not> csExact expected \<and> \<not> liquibaseChecksumPattern (lgChecksum row)
                 then Inl (LegacyChecksumInvalid version)
                 else Inr byContract)"

fun validateLegacyFrom ::
  "legacyManifest \<Rightarrow> legacyMode \<Rightarrow> canonicalMigration list \<Rightarrow> nat \<Rightarrow> legacyRow list \<Rightarrow> migrationError + bool" where
  "validateLegacyFrom manifest wanted canonical i [] = Inr False"
| "validateLegacyFrom manifest wanted canonical i (row # rows) =
     (case validateLegacyRow manifest wanted canonical i row of
        Inl e \<Rightarrow> Inl e
      | Inr p \<Rightarrow>
          (case validateLegacyFrom manifest wanted canonical (Suc i) rows of
             Inl e \<Rightarrow> Inl e
           | Inr q \<Rightarrow> Inr (p \<or> q)))"

definition wantedMode :: "pgSchema \<Rightarrow> legacyMode" where
  "wantedMode schema = (if psName schema = defaultSchemaName then PublicMode else CustomMode)"

definition validateLegacyLiquibaseRows ::
  "legacyManifest \<Rightarrow> pgSchema \<Rightarrow> canonicalMigration list \<Rightarrow> legacyRow list \<Rightarrow> migrationError + legacyMigration list \<times> bool" where
  "validateLegacyLiquibaseRows manifest schema canonical rows =
     (case lfContract manifest (prefixVersion (length rows)) of
        None \<Rightarrow> Inl (UnsupportedPrefix (length rows))
      | Some contract \<Rightarrow>
          if length rows > length canonical \<or> length (lcVersions contract) \<noteq> length rows then Inl NotArtifactPrefix
          else case validateLegacyFrom manifest (wantedMode schema) canonical 0 rows of
            Inl e \<Rightarrow> Inl e
          | Inr proof_needed \<Rightarrow> Inr (take (length rows) (lfMigrations manifest), proof_needed))"

definition verifyLegacySchemaContract ::
  "'x migrationEnv \<Rightarrow> faultPlan \<Rightarrow> pgSchema \<Rightarrow> legacyManifest \<Rightarrow> nat \<Rightarrow> ('x, unit) ddl" where
  "verifyLegacySchemaContract env fl schema manifest n =
     (case lfContract manifest (prefixVersion n) of
        None \<Rightarrow> throw (ContractUnavailable n)
      | Some contract \<Rightarrow>
     andThen (ddlStmt fl ''read PostgreSQL version for legacy schema verification'' (ret (majorVersion (evServerVersion env))))
     (\<lambda>major. case lcFingerprint contract major of
        None \<Rightarrow> throw (UnsupportedServer major)
      | Some expected \<Rightarrow>
     (case evContract env (lcVerifier contract) of
        Inl m \<Rightarrow> throw (VerifierUnavailable m)
      | Inr verifier \<Rightarrow>
     andThen (ddlStmt fl ''select legacy schema for verification'' getState)
     (\<lambda>db. case (if fl ''calculate legacy schema fingerprint'' then None
                 else evFingerprint env (searchPath schema) verifier (sdRest db)) of
        None \<Rightarrow> throw (Failed ''calculate legacy schema fingerprint'')
      | Some None \<Rightarrow> throw FingerprintNull
      | Some (Some text) \<Rightarrow>
          check (equalFold (hexEncode (sha256 text)) expected) (FingerprintMismatch (hexEncode (sha256 text)) expected)))))"

definition adoptRows :: "faultPlan \<Rightarrow> legacyMigration list \<Rightarrow> ('x, unit) ddl" where
  "adoptRows fl migrations = forEach migrations (\<lambda>m.
     ddlStmt fl (''adopt legacy migration '' @ lmVersion m) (insertLedger (lmFilename m) (lmSHA256 m)))"

definition adoptValidated ::
  "'x migrationEnv \<Rightarrow> faultPlan \<Rightarrow> pgSchema \<Rightarrow> canonicalMigration list \<Rightarrow> legacyManifest \<Rightarrow> legacyRow list \<Rightarrow> ('x, unit) ddl" where
  "adoptValidated env fl schema canonical manifest rows =
     (case validateLegacyLiquibaseRows manifest schema canonical rows of
        Inl e \<Rightarrow> throw e
      | Inr (migrations, proof_needed) \<Rightarrow>
          andThen (if proof_needed then verifyLegacySchemaContract env fl schema manifest (length rows) else ret ())
          (\<lambda>_. adoptRows fl migrations))"

definition adoptLegacyLiquibaseHistory ::
  "'x migrationEnv \<Rightarrow> faultPlan \<Rightarrow> pgSchema \<Rightarrow> canonicalMigration list \<Rightarrow> ('x, unit) ddl" where
  "adoptLegacyLiquibaseHistory env fl schema canonical =
     (case evCompatibility env of
        Inl m \<Rightarrow> throw (CompatibilityUnavailable m)
      | Inr manifest \<Rightarrow> ddlTx fl ''legacy adoption''
     (andThen (ddlStmt fl ''lock shared migration ledger for legacy adoption'' ledgerTable)
     (\<lambda>_. andThen (ddlStmt fl ''count shared migration ledger'' ledgerTable)
     (\<lambda>ledger. andThen (readLegacyLiquibaseRows env fl)
     (\<lambda>rows. if rows = [] then ret ()
        else if ledger \<noteq> [] then check (length rows \<le> length ledger) (PartialAdoption (length ledger) (length rows))
        else adoptValidated env fl schema canonical manifest rows)))))"

section \<open>The run\<close>

definition migrateSchema ::
  "'x migrationEnv \<Rightarrow> faultPlan \<Rightarrow> pgSchema \<Rightarrow> canonicalMigration list \<Rightarrow> ('x, unit) ddl" where
  "migrateSchema env fl schema loaded =
     andThen (ensureMigrationLedger env fl schema)
     (\<lambda>_. andThen (adoptLegacyLiquibaseHistory env fl schema loaded)
     (\<lambda>_. andThen (validateMigrationLedger env fl loaded)
     (\<lambda>_. forEach loaded (applyMigration env fl schema))))"

definition errorsOf :: "migrationError + unit \<Rightarrow> migrationError list" where
  "errorsOf r = (case r of Inl e \<Rightarrow> [e] | Inr _ \<Rightarrow> [])"

text \<open>A joined error is the list of its parts; no error is the empty list.\<close>

definition underLiquibaseLock ::
  "'x migrationEnv \<Rightarrow> faultPlan \<Rightarrow> pgSchema \<Rightarrow> canonicalMigration list \<Rightarrow> 'x schemaDB \<Rightarrow> migrationError list \<times> 'x schemaDB" where
  "underLiquibaseLock env fl schema loaded db =
     (case acquireLiquibaseMigrationLock env fl schema db of
        (Inl e, db1) \<Rightarrow> ([e], db1)
      | (Inr _, db1) \<Rightarrow>
          (case migrateSchema env fl schema loaded db1 of
             (r, db2) \<Rightarrow>
               (case releaseLiquibaseLock fl db2 of
                  (released, db3) \<Rightarrow> (errorsOf r @ errorsOf released, db3))))"

definition runDDL ::
  "'x migrationEnv \<Rightarrow> faultPlan \<Rightarrow> int option \<Rightarrow> (string \<times> string option) list \<Rightarrow> pgSchema \<Rightarrow> 'x migServer \<Rightarrow>
   migrationError list \<times> 'x migServer" where
  "runDDL env fl db files schema s =
     (case readCanonicalMigrations files schema of
        Inl e \<Rightarrow> ([e], s)
      | Inr loaded \<Rightarrow>
          (case acquireMigrationImportLocks env fl db (mvLocks s) of
             (Inl e, locks) \<Rightarrow> ([e], s\<lparr>mvLocks := locks\<rparr>)
           | (Inr (session, keys), locks) \<Rightarrow>
               (case underLiquibaseLock env fl schema loaded (mvDB s) of
                  (errs, d) \<Rightarrow>
                    (case releaseImportLocks fl session keys locks of
                       (released, locks') \<Rightarrow> (errs @ released, \<lparr>mvDB = d, mvLocks = locks'\<rparr>)))))"

definition runDDLInSchema ::
  "'x migrationEnv \<Rightarrow> faultPlan \<Rightarrow> int option \<Rightarrow> string \<Rightarrow> 'x migServer \<Rightarrow> migrationError list \<times> 'x migServer" where
  "runDDLInSchema env fl db schemaName s =
     (case evFiles env of
        Inl m \<Rightarrow> ([LoadFailed m], s)
      | Inr files \<Rightarrow>
          (case parseSchema schemaName of
             Inl m \<Rightarrow> ([BadSchema m], s)
           | Inr schema \<Rightarrow> runDDL env fl db files schema s))"

definition runPublicDDL :: "'x migrationEnv \<Rightarrow> faultPlan \<Rightarrow> int option \<Rightarrow> 'x migServer \<Rightarrow> migrationError list \<times> 'x migServer" where
  "runPublicDDL env fl db s = runDDLInSchema env fl db defaultSchemaName s"

section \<open>What a run does\<close>

lemma ddlTx_Inl: "ddlTx fl w m db = (Inl e, db') \<Longrightarrow> db' = db"
  unfolding ddlTx_def by (rule atomically_Inl)

lemma ddlTx_Inr: "ddlTx fl w m db = (Inr x, db') \<Longrightarrow> m db = (Inr x, db')"
  unfolding ddlTx_def by (simp add: atomically_Inr)

lemma ddlStmt_Inr: "ddlStmt fl w m db = (Inr x, db') \<longleftrightarrow> \<not> fl w \<and> m db = (Inr x, db')"
  by (simp add: ddlStmt_def)

lemma ledgerTable_Inr: "ledgerTable db = (Inr rows, db') \<longleftrightarrow> db' = db \<and> sdLedger db = Some rows"
  by (auto simp: ledgerTable_def andThen_Inr_iff split: option.splits)

lemma insertLedger_Inr:
  "insertLedger v c db = (Inr u, db') \<longleftrightarrow>
     (\<exists>rows. sdLedger db = Some rows \<and> v \<notin> fst ` set rows \<and> db' = db\<lparr>sdLedger := Some (rows @ [(v, c)])\<rparr>)"
  by (auto simp: insertLedger_def andThen_Inr_iff ledgerTable_Inr split: if_splits)

lemmas ddl_Inr = andThen_Inr_iff ddlStmt_Inr ledgerTable_Inr insertLedger_Inr

definition execScoped :: "'x migrationEnv \<Rightarrow> pgSchema \<Rightarrow> canonicalMigration \<Rightarrow> 'x \<Rightarrow> 'x option" where
  "execScoped env schema m x = evExec env (migrationSearchPath (evTrigram env x) schema) (cnSQL m) x"

fun execAll :: "'x migrationEnv \<Rightarrow> pgSchema \<Rightarrow> canonicalMigration list \<Rightarrow> 'x \<Rightarrow> 'x option" where
  "execAll env schema [] x = Some x"
| "execAll env schema (m # ms) x =
     (case execScoped env schema m x of None \<Rightarrow> None | Some y \<Rightarrow> execAll env schema ms y)"

lemma applyMigration_cases:
  assumes "applyMigration env fl schema m db = (r, db')" and "sdLedger db = Some rows"
  obtains (failed) e where "r = Inl e" and "db' = db"
    | (recorded) "r = Inr ()" and "db' = db" and "cnVersion m \<in> fst ` set rows"
    | (applied) x where "r = Inr ()" and "cnVersion m \<notin> fst ` set rows" and "execScoped env schema m (sdRest db) = Some x"
        and "db' = db\<lparr>sdRest := x, sdLedger := Some (rows @ [ledgerRow m])\<rparr>"
proof (cases r)
  case (Inl e)
  then show thesis using assms(1) failed ddlTx_Inl unfolding applyMigration_def by blast
next
  case (Inr u)
  note run = ddlTx_Inr [OF assms(1) [unfolded Inr applyMigration_def]]
  show thesis
  proof (cases "map_of rows (cnVersion m)")
    case None
    then have "cnVersion m \<notin> fst ` set rows" by (simp add: map_of_eq_None_iff)
    with None run assms(2) Inr show thesis
      by (auto simp: ddl_Inr setMigrationSearchPath_def execMigration_def execScoped_def ledgerRow_def
            split: option.splits intro!: applied)
  next
    case (Some c)
    then have "cnVersion m \<in> fst ` set rows" by (metis map_of_eq_None_iff not_None_eq)
    with Some run assms(2) Inr show thesis
      by (auto simp: ddl_Inr split: if_splits intro!: recorded)
  qed
qed

definition ledgerPrefix :: "canonicalMigration list \<Rightarrow> nat \<Rightarrow> 'x schemaDB \<Rightarrow> bool" where
  "ledgerPrefix loaded k db \<longleftrightarrow> k \<le> length loaded \<and> sdLedger db = Some (map ledgerRow (take k loaded))"

lemma ledgerPrefix_version:
  assumes "distinct (map cnVersion loaded)" and "i < length loaded"
  shows "cnVersion (loaded ! i) \<in> fst ` set (map ledgerRow (take k loaded)) \<longleftrightarrow> i < k"
proof
  assume "cnVersion (loaded ! i) \<in> fst ` set (map ledgerRow (take k loaded))"
  then obtain j where j: "j < k" "j < length loaded" "cnVersion (loaded ! i) = cnVersion (loaded ! j)"
    by (auto simp: ledgerRow_def image_iff in_set_conv_nth)
  then have "map cnVersion loaded ! i = map cnVersion loaded ! j" using assms(2) by simp
  then have "i = j" using nth_eq_iff_index_eq [OF assms(1), of i j] j(2) assms(2) by simp
  with j(1) show "i < k" by simp
next
  assume "i < k"
  then have "loaded ! i \<in> set (take k loaded)" using assms(2) by (auto simp: in_set_conv_nth)
  then show "cnVersion (loaded ! i) \<in> fst ` set (map ledgerRow (take k loaded))"
    by (force simp: ledgerRow_def)
qed

lemma applyAll_prefix:
  assumes "distinct (map cnVersion loaded)" and "ledgerPrefix loaded k db" and "i \<le> k"
    and "forEach (drop i loaded) (applyMigration env fl schema) db = (r, db')"
  shows "\<exists>k'. k \<le> k' \<and> ledgerPrefix loaded k' db' \<and> (r = Inr () \<longrightarrow> k' = length loaded) \<and>
    execAll env schema (take (k' - k) (drop k loaded)) (sdRest db) = Some (sdRest db') \<and>
    sdLocks db' = sdLocks db \<and> sdHistory db' = sdHistory db"
  using assms(2-4)
proof (induction "length loaded - i" arbitrary: i k db)
  case 0
  then show ?case by (auto simp: ledgerPrefix_def intro!: exI [of _ k])
next
  case (Suc n)
  from Suc.hyps(2) have i: "i < length loaded" by simp
  let ?m = "loaded ! i"
  have more: "drop i loaded = ?m # drop (Suc i) loaded" using i by (simp add: Cons_nth_drop_Suc)
  have left: "n = length loaded - Suc i" using Suc.hyps(2) by simp
  obtain r1 db1 where one: "applyMigration env fl schema ?m db = (r1, db1)" by (metis surj_pair)
  have go: "r1 = Inr () \<Longrightarrow> forEach (drop (Suc i) loaded) (applyMigration env fl schema) db1 = (r, db')"
    and stop: "r1 = Inl e \<Longrightarrow> r = Inl e \<and> db' = db1" for e
    using Suc.prems(3) one by (simp_all add: more andThen_def)
  have rows: "sdLedger db = Some (map ledgerRow (take k loaded))" and k: "k \<le> length loaded"
    using Suc.prems(1) by (simp_all add: ledgerPrefix_def)
  note known = ledgerPrefix_version [OF assms(1) i]
  from one rows show ?case
  proof (cases rule: applyMigration_cases)
    case (failed e)
    with stop Suc.prems(1) show ?thesis by (auto intro!: exI [of _ k])
  next
    case recorded
    then have "Suc i \<le> k" using known by simp
    with Suc.hyps(1) [OF left] recorded go Suc.prems(1) show ?thesis by blast
  next
    case (applied x)
    then have "i = k" using known Suc.prems(2) by simp
    then have "ledgerPrefix loaded (Suc k) db1"
      using applied i by (simp add: ledgerPrefix_def take_Suc_conv_app_nth)
    with Suc.hyps(1) [OF left, of "Suc k" db1] \<open>i = k\<close> go applied(1)
    obtain k' where "Suc k \<le> k'" "ledgerPrefix loaded k' db'" "r = Inr () \<longrightarrow> k' = length loaded"
      "execAll env schema (take (k' - Suc k) (drop (Suc k) loaded)) (sdRest db1) = Some (sdRest db')"
      "sdLocks db' = sdLocks db1" "sdHistory db' = sdHistory db1" by auto
    moreover from this(1) obtain j where "k' = Suc (k + j)" by (auto dest: less_imp_Suc_add simp: Suc_le_eq)
    ultimately show ?thesis using applied(3,4) more \<open>i = k\<close> by (intro exI [of _ k']) simp
  qed
qed

definition historyRows :: "'x migrationEnv \<Rightarrow> 'x schemaDB \<Rightarrow> legacyRow list" where
  "historyRows env db = (case sdHistory db of None \<Rightarrow> []
     | Some history \<Rightarrow> sort_key (\<lambda>r. (collated env (lgID r), collated env (lgAuthor r), collated env (lgFilename r)))
         (filter (\<lambda>r. prefix legacyChangeSetIDPrefix (lgID r)) history))"

text \<open>A row of the history that the manifest vouches for at a position: identity, execution type and
  checksum are those of a change set of the wanted mode.\<close>

definition trusted :: "legacyManifest \<Rightarrow> legacyMode \<Rightarrow> nat \<Rightarrow> legacyRow \<Rightarrow> bool" where
  "trusted manifest wanted i row \<longleftrightarrow> i < length (lfMigrations manifest) \<and>
     (\<exists>cs \<in> set (lmChangeSets (lfMigrations manifest ! i)). csMode cs = wanted \<and>
        lgID row = csID cs \<and> lgAuthor row = csAuthor cs \<and> lgFilename row = csFilename cs \<and>
        csExecution cs (lgExecution row) \<noteq> None \<and>
        (if csExact cs then lgChecksum row = csChecksum cs else liquibaseChecksumPattern (lgChecksum row)))"

definition legacyLedgerRow :: "legacyMigration \<Rightarrow> string \<times> string" where
  "legacyLedgerRow m = (lmFilename m, lmSHA256 m)"

lemma validateLegacyRow_Inr:
  assumes "validateLegacyRow manifest wanted canonical i row = Inr p"
  shows "trusted manifest wanted i row" and "legacyLedgerRow (lfMigrations manifest ! i) = ledgerRow (canonical ! i)"
  using assms
  by (auto simp: validateLegacyRow_def trusted_def legacyLedgerRow_def ledgerRow_def Let_def find_Some_iff
      split: if_splits option.splits)

lemma validateLegacyFrom_Inr:
  assumes "validateLegacyFrom manifest wanted canonical i rows = Inr p" and "j < length rows"
  shows "trusted manifest wanted (i + j) (rows ! j) \<and>
    legacyLedgerRow (lfMigrations manifest ! (i + j)) = ledgerRow (canonical ! (i + j))"
  using assms
proof (induction manifest wanted canonical i rows arbitrary: j p rule: validateLegacyFrom.induct)
  case (2 manifest wanted canonical i row rows)
  then show ?case
    by (cases j) (auto split: sum.splits dest: validateLegacyRow_Inr)
qed simp

lemma validateLegacyLiquibaseRows_Inr:
  assumes "validateLegacyLiquibaseRows manifest schema canonical rows = Inr (migrations, p)"
  shows "length rows \<le> length canonical"
    and "\<forall>i < length rows. trusted manifest (wantedMode schema) i (rows ! i)"
    and "map legacyLedgerRow migrations = map ledgerRow (take (length rows) canonical)"
proof -
  from assms have le: "length rows \<le> length canonical" and m: "migrations = take (length rows) (lfMigrations manifest)"
    and v: "validateLegacyFrom manifest (wantedMode schema) canonical 0 rows = Inr p"
    by (auto simp: validateLegacyLiquibaseRows_def split: option.splits if_splits sum.splits)
  note row = validateLegacyFrom_Inr [OF v, simplified]
  show "length rows \<le> length canonical" by (rule le)
  show "\<forall>i < length rows. trusted manifest (wantedMode schema) i (rows ! i)" using row by blast
  have "length rows \<le> length (lfMigrations manifest)"
  proof (cases "length rows")
    case (Suc k)
    then have "trusted manifest (wantedMode schema) k (rows ! k)" using row [of k] by simp
    then show ?thesis using Suc by (simp add: trusted_def)
  qed simp
  then show "map legacyLedgerRow migrations = map ledgerRow (take (length rows) canonical)"
    using row le by (auto simp: m intro!: nth_equalityI)
qed

lemma adoptRows_Inr:
  "adoptRows fl ms db = (Inr u, db') \<Longrightarrow> sdLedger db = Some rows \<Longrightarrow>
     db' = db\<lparr>sdLedger := Some (rows @ map legacyLedgerRow ms)\<rparr>"
proof (induction ms arbitrary: db rows)
  case (Cons m ms)
  from Cons.prems have "adoptRows fl ms (db\<lparr>sdLedger := Some (rows @ [legacyLedgerRow m])\<rparr>) = (Inr u, db')"
    by (auto simp: adoptRows_def ddl_Inr legacyLedgerRow_def)
  from Cons.IH [OF this, of "rows @ [legacyLedgerRow m]"] show ?case by simp
qed (simp add: adoptRows_def)

definition fingerprinted :: "'x migrationEnv \<Rightarrow> pgSchema \<Rightarrow> legacyManifest \<Rightarrow> nat \<Rightarrow> 'x \<Rightarrow> bool" where
  "fingerprinted env schema manifest n x \<longleftrightarrow>
     (\<exists>contract expected verifier text. lfContract manifest (prefixVersion n) = Some contract \<and>
        lcFingerprint contract (majorVersion (evServerVersion env)) = Some expected \<and>
        evContract env (lcVerifier contract) = Inr verifier \<and>
        evFingerprint env (searchPath schema) verifier x = Some (Some text) \<and>
        equalFold (hexEncode (sha256 text)) expected)"

lemma verifyLegacySchemaContract_Inr:
  "verifyLegacySchemaContract env fl schema manifest n db = (Inr u, db') \<Longrightarrow>
     db' = db \<and> fingerprinted env schema manifest n (sdRest db)"
  by (auto simp: verifyLegacySchemaContract_def fingerprinted_def ddl_Inr split: option.splits sum.splits if_splits)

text \<open>What an adoption leaves: the ledger of the canonical prefix the history stands for, each row
  vouched for by the manifest, the tables fingerprinted when a change set asks for it.\<close>

definition adoptedFrom ::
  "'x migrationEnv \<Rightarrow> pgSchema \<Rightarrow> canonicalMigration list \<Rightarrow> 'x schemaDB \<Rightarrow> 'x schemaDB \<Rightarrow> bool" where
  "adoptedFrom env schema canonical db db' \<longleftrightarrow>
     (\<exists>manifest migrations by_contract. let rows = historyRows env db in
        evCompatibility env = Inr manifest \<and> rows \<noteq> [] \<and> sdLedger db = Some [] \<and>
        validateLegacyLiquibaseRows manifest schema canonical rows = Inr (migrations, by_contract) \<and>
        (by_contract \<longrightarrow> fingerprinted env schema manifest (length rows) (sdRest db)) \<and>
        db' = db\<lparr>sdLedger := Some (map ledgerRow (take (length rows) canonical))\<rparr>)"

lemma readLegacyLiquibaseRows_Inr:
  "readLegacyLiquibaseRows env fl db = (Inr rows, db') \<Longrightarrow> db' = db \<and> rows = historyRows env db"
  by (auto simp: readLegacyLiquibaseRows_def historyRows_def ddl_Inr split: option.splits)

lemma adoptLegacy_cases:
  assumes "adoptLegacyLiquibaseHistory env fl schema canonical db = (r, db')"
  obtains (kept) "db' = db" and "r = Inr () \<Longrightarrow> \<exists>manifest ledger. evCompatibility env = Inr manifest \<and>
          sdLedger db = Some ledger \<and> length (historyRows env db) \<le> length ledger"
    | (adopted) "r = Inr ()" and "adoptedFrom env schema canonical db db'"
proof (cases r)
  case (Inl e)
  with assms kept show thesis
    by (auto simp: adoptLegacyLiquibaseHistory_def dest: ddlTx_Inl split: sum.splits)
next
  case (Inr u)
  with assms obtain manifest where m: "evCompatibility env = Inr manifest"
    by (auto simp: adoptLegacyLiquibaseHistory_def split: sum.splits)
  note run = assms [unfolded Inr adoptLegacyLiquibaseHistory_def m sum.case, THEN ddlTx_Inr]
  from run obtain ledger where l: "sdLedger db = Some ledger"
    and go: "(if historyRows env db = [] then ret ()
        else if ledger \<noteq> [] then check (length (historyRows env db) \<le> length ledger) (PartialAdoption (length ledger) (length (historyRows env db)))
        else adoptValidated env fl schema canonical manifest (historyRows env db)) db = (Inr u, db')"
    by (auto simp: ddl_Inr dest!: readLegacyLiquibaseRows_Inr)
  show thesis
  proof (cases "historyRows env db = [] \<or> ledger \<noteq> []")
    case True
    with go l m kept show thesis by (auto split: if_splits)
  next
    case False
    then obtain ms p db1 where v: "validateLegacyLiquibaseRows manifest schema canonical (historyRows env db) = Inr (ms, p)"
      and c: "(if p then verifyLegacySchemaContract env fl schema manifest (length (historyRows env db)) else ret ()) db = (Inr (), db1)"
      and a: "adoptRows fl ms db1 = (Inr u, db')"
      using go by (auto simp: adoptValidated_def ddl_Inr split: sum.splits if_splits)
    from c have d: "db1 = db" and "p \<longrightarrow> fingerprinted env schema manifest (length (historyRows env db)) (sdRest db)"
      by (auto split: if_splits dest: verifyLegacySchemaContract_Inr)
    with adoptRows_Inr [OF a, unfolded d, OF l] v False l m
    have "adoptedFrom env schema canonical db db'"
      unfolding adoptedFrom_def Let_def
      by (intro exI [of _ manifest] exI [of _ ms] exI [of _ p]) (simp add: validateLegacyLiquibaseRows_Inr(3) [OF v])
    with adopted Inr show thesis by simp
  qed
qed

definition ledgerStarts :: "canonicalMigration list \<Rightarrow> nat \<Rightarrow> 'x schemaDB \<Rightarrow> bool" where
  "ledgerStarts loaded k db \<longleftrightarrow> ledgerPrefix loaded k db \<or> k = 0 \<and> sdLedger db = None"

text \<open>From the first \<open>k\<close> migrations to the first \<open>k'\<close>: those from \<open>j\<close> on were executed, in order, and
  those between \<open>k\<close> and \<open>j\<close> adopted from a trusted history.\<close>

definition migratedBy ::
  "'x migrationEnv \<Rightarrow> pgSchema \<Rightarrow> canonicalMigration list \<Rightarrow> nat \<Rightarrow> nat \<Rightarrow> nat \<Rightarrow> 'x schemaDB \<Rightarrow> 'x schemaDB \<Rightarrow> bool" where
  "migratedBy env schema loaded k j k' db db' \<longleftrightarrow>
     k \<le> j \<and> j \<le> k' \<and> ledgerStarts loaded k' db' \<and>
     (j \<noteq> k \<longrightarrow> k = 0 \<and> j = length (historyRows env db) \<and>
        (\<exists>manifest. evCompatibility env = Inr manifest \<and>
           (\<forall>i < j. trusted manifest (wantedMode schema) i (historyRows env db ! i)))) \<and>
     execAll env schema (take (k' - j) (drop j loaded)) (sdRest db) = Some (sdRest db')"

lemma migratedBy_refl: "ledgerStarts loaded k db' \<Longrightarrow> sdRest db' = sdRest db \<Longrightarrow> migratedBy env schema loaded k k k db db'"
  by (simp add: migratedBy_def)

definition sameTables :: "'x schemaDB \<Rightarrow> 'x schemaDB \<Rightarrow> bool" where
  "sameTables db db' \<longleftrightarrow> sdLocks db' = sdLocks db \<and> sdHistory db' = sdHistory db"

lemma ensureMigrationLedger_cases:
  assumes "ensureMigrationLedger env fl schema db = (r, db')"
  obtains (failed) e where "r = Inl e" and "db' = db"
    | (ensured) "r = Inr ()" and "db' = db\<lparr>sdLedger := Some (case sdLedger db of None \<Rightarrow> [] | Some rows \<Rightarrow> rows)\<rparr>"
proof (cases r)
  case (Inl e)
  with assms failed show thesis unfolding ensureMigrationLedger_def by (blast dest: ddlTx_Inl)
next
  case (Inr u)
  with assms ensured show thesis
    unfolding ensureMigrationLedger_def by (auto simp: ddl_Inr dest!: ddlTx_Inr split: if_splits)
qed

lemma validateMigrationLedger_same: "validateMigrationLedger env fl loaded db = (r, db') \<Longrightarrow> db' = db"
  by (auto simp: validateMigrationLedger_def ddlStmt_def ledgerTable_def andThen_def
      split: if_splits option.splits prod.splits sum.splits)

lemma adoptLegacy_prefix:
  assumes "adoptLegacyLiquibaseHistory env fl schema loaded db = (r, db')" and "ledgerPrefix loaded k db"
  shows "\<exists>j. migratedBy env schema loaded k j j db db' \<and> ledgerPrefix loaded j db' \<and> sameTables db db' \<and> sdRest db' = sdRest db"
  using assms(1)
proof (cases rule: adoptLegacy_cases)
  case kept
  with assms(2) show ?thesis by (auto simp: sameTables_def ledgerStarts_def intro!: exI [of _ k] migratedBy_refl)
next
  case adopted
  then obtain manifest ms p where m: "evCompatibility env = Inr manifest" and ne: "historyRows env db \<noteq> []"
    and l: "sdLedger db = Some []" and v: "validateLegacyLiquibaseRows manifest schema loaded (historyRows env db) = Inr (ms, p)"
    and db': "db' = db\<lparr>sdLedger := Some (map ledgerRow (take (length (historyRows env db)) loaded))\<rparr>"
    by (auto simp: adoptedFrom_def Let_def)
  note facts = validateLegacyLiquibaseRows_Inr [OF v]
  have "k = 0" using assms(2) l facts(1) ne by (auto simp: ledgerPrefix_def)
  moreover have "ledgerPrefix loaded (length (historyRows env db)) db'" using facts(1) by (simp add: ledgerPrefix_def db')
  ultimately show ?thesis using facts(2) m
    by (intro exI [of _ "length (historyRows env db)"])
      (auto simp: migratedBy_def ledgerStarts_def sameTables_def db')
qed

lemma migratedBy_trans:
  assumes "migratedBy env schema loaded k j j db db1" and "sdRest db1 = sdRest db"
    and "j \<le> k'" and "ledgerStarts loaded k' db'"
    and "execAll env schema (take (k' - j) (drop j loaded)) (sdRest db1) = Some (sdRest db')"
  shows "migratedBy env schema loaded k j k' db db'"
  using assms by (auto simp: migratedBy_def)

lemma historyRows_ledger: "historyRows env (db\<lparr>sdLedger := l\<rparr>) = historyRows env db"
  by (simp add: historyRows_def)

lemma migratedBy_ledger:
  "migratedBy env schema loaded k j k' (db\<lparr>sdLedger := l\<rparr>) db' = migratedBy env schema loaded k j k' db db'"
  by (simp add: migratedBy_def historyRows_ledger)

lemma migrateSchema_prefix:
  assumes "distinct (map cnVersion loaded)" and "ledgerStarts loaded k db"
    and "migrateSchema env fl schema loaded db = (r, db')"
  shows "\<exists>j k'. migratedBy env schema loaded k j k' db db' \<and> sameTables db db' \<and>
    (r = Inr () \<longrightarrow> k' = length loaded \<and> ledgerPrefix loaded k' db')"
proof -
  obtain r1 db1 where e: "ensureMigrationLedger env fl schema db = (r1, db1)" by (metis surj_pair)
  from e show ?thesis
  proof (cases rule: ensureMigrationLedger_cases)
    case (failed x)
    with e assms(2,3) show ?thesis
      by (auto simp: migrateSchema_def andThen_def sameTables_def intro!: exI [of _ k] migratedBy_refl)
  next
    case ensured
    let ?db1 = "db\<lparr>sdLedger := Some (case sdLedger db of None \<Rightarrow> [] | Some rows \<Rightarrow> rows)\<rparr>"
    have p1: "ledgerPrefix loaded k ?db1" using assms(2) by (auto simp: ledgerStarts_def ledgerPrefix_def)
    obtain r2 db2 where a: "adoptLegacyLiquibaseHistory env fl schema loaded ?db1 = (r2, db2)" by (metis surj_pair)
    from adoptLegacy_prefix [OF a p1] obtain j where j: "migratedBy env schema loaded k j j db db2"
      "ledgerPrefix loaded j db2" "sameTables ?db1 db2" "sdRest db2 = sdRest db" by (auto simp: migratedBy_ledger)
    show ?thesis
    proof (cases r2)
      case (Inl x)
      with e ensured a assms(3) j show ?thesis
        by (intro exI [of _ j]) (auto simp: migrateSchema_def andThen_def sameTables_def)
    next
      case (Inr u)
      obtain r3 db3 where v: "validateMigrationLedger env fl loaded db2 = (r3, db3)" by (metis surj_pair)
      then have [simp]: "db3 = db2" by (rule validateMigrationLedger_same)
      show ?thesis
      proof (cases r3)
        case (Inl x)
        with e ensured a Inr v assms(3) j show ?thesis
          by (intro exI [of _ j]) (auto simp: migrateSchema_def andThen_def sameTables_def)
      next
        case (Inr u')
        with e ensured a \<open>r2 = Inr u\<close> v assms(3)
        have "forEach (drop 0 loaded) (applyMigration env fl schema) db2 = (r, db')"
          by (simp add: migrateSchema_def andThen_def)
        from applyAll_prefix [OF assms(1) j(2) _ this] obtain k' where "j \<le> k'" "ledgerPrefix loaded k' db'"
          "r = Inr () \<longrightarrow> k' = length loaded"
          "execAll env schema (take (k' - j) (drop j loaded)) (sdRest db2) = Some (sdRest db')"
          "sdLocks db' = sdLocks db2 \<and> sdHistory db' = sdHistory db2" by auto
        with j migratedBy_trans [OF j(1) j(4), of k' db'] show ?thesis
          by (intro exI [of _ j] exI [of _ k']) (auto simp: ledgerStarts_def sameTables_def)
      qed
    qed
  qed
qed

section \<open>Locks\<close>

lemma unlockImport_fold:
  assumes "foldl (unlockImport fl session) (errs, locks) keys = (errs', locks')"
  shows "filter (\<lambda>l. snd l \<noteq> session) locks' = filter (\<lambda>l. snd l \<noteq> session) locks"
    and "errs' = [] \<Longrightarrow> errs = [] \<and>
      length (filter (\<lambda>l. snd l = session) locks') + length keys = length (filter (\<lambda>l. snd l = session) locks)"
proof -
  have other: "filter (\<lambda>l. snd l \<noteq> session) (remove1 (k, session) ls) = filter (\<lambda>l. snd l \<noteq> session) ls" for k and ls :: "(int \<times> int) list"
    by (induction ls) auto
  have own: "(k, session) \<in> set ls \<Longrightarrow> Suc (length (filter (\<lambda>l. snd l = session) (remove1 (k, session) ls))) =
      length (filter (\<lambda>l. snd l = session) ls)" for k and ls :: "(int \<times> int) list"
    by (induction ls) auto
  have "filter (\<lambda>l. snd l \<noteq> session) locks' = filter (\<lambda>l. snd l \<noteq> session) locks \<and>
    (errs' = [] \<longrightarrow> errs = [] \<and>
      length (filter (\<lambda>l. snd l = session) locks') + length keys = length (filter (\<lambda>l. snd l = session) locks))"
    using assms
  proof (induction keys arbitrary: errs locks)
    case (Cons k keys)
    obtain e1 l1 where one: "unlockImport fl session (errs, locks) k = (e1, l1)" by (metis surj_pair)
    with Cons.prems have "foldl (unlockImport fl session) (e1, l1) keys = (errs', locks')" by simp
    from Cons.IH [OF this] one show ?case
      using own [of k locks] by (auto simp: unlockImport_def Let_def other split: if_splits)
  qed simp
  then show "filter (\<lambda>l. snd l \<noteq> session) locks' = filter (\<lambda>l. snd l \<noteq> session) locks"
    and "errs' = [] \<Longrightarrow> errs = [] \<and>
      length (filter (\<lambda>l. snd l = session) locks') + length keys = length (filter (\<lambda>l. snd l = session) locks)" by auto
qed

lemma releaseImportLocks_all:
  assumes "releaseImportLocks fl session keys (locks @ map (\<lambda>k. (k, session)) keys) = (errs, locks')"
    and "session \<notin> snd ` set locks"
  shows "locks' = locks"
proof -
  obtain e1 l1 where f: "foldl (unlockImport fl session) ([], locks @ map (\<lambda>k. (k, session)) keys) (rev keys) = (e1, l1)"
    by (metis surj_pair)
  have others: "filter (\<lambda>l. snd l \<noteq> session) locks = locks" and none: "filter (\<lambda>l. snd l = session) locks = []"
    using assms(2) by (auto simp: filter_id_iff filter_empty_conv)
  have kept: "filter (\<lambda>l. snd l \<noteq> session) l1 = locks"
    using unlockImport_fold(1) [OF f] others by (simp add: filter_empty_conv filter_map comp_def)
  show ?thesis
  proof (cases "e1 = []")
    case True
    with unlockImport_fold(2) [OF f] none have "filter (\<lambda>l. snd l = session) l1 = []"
      by (simp add: filter_map comp_def)
    then have "filter (\<lambda>l. snd l \<noteq> session) l1 = l1" by (auto simp: filter_id_iff filter_empty_conv)
    with kept assms(1) f True show ?thesis by (simp add: releaseImportLocks_def Let_def)
  next
    case False
    with kept assms(1) f show ?thesis
      by (auto simp: releaseImportLocks_def discardConnection_def Let_def case_prod_beta)
  qed
qed

lemma lockEach_taken:
  assumes "lockEach env fl session es keys (locks @ map (\<lambda>k. (k, session)) keys) = ((e, keys'), locks')"
  shows "locks' = locks @ map (\<lambda>k. (k, session)) keys'"
    and "e = None \<Longrightarrow> x \<in> set es \<Longrightarrow> \<exists>key. evLockKey env x = Inr key \<and> (\<forall>(k, holder) \<in> set locks. k = key \<longrightarrow> holder = session)"
  using assms
proof (induction es arbitrary: keys)
  case (Cons y es)
  { case 1
    then show ?case by (auto split: sum.splits if_splits dest: Cons.IH(1) [of "keys @ [_]", simplified])
  next
    case 2
    from 2(3) \<open>e = None\<close> obtain key where key: "evLockKey env y = Inr key"
      and free: "\<not> (\<exists>(k, holder) \<in> set (locks @ map (\<lambda>k. (k, session)) keys). k = key \<and> holder \<noteq> session)"
      and more: "lockEach env fl session es (keys @ [key]) (locks @ map (\<lambda>k. (k, session)) (keys @ [key])) = ((e, keys'), locks')"
      by (auto split: sum.splits if_splits)
    from free have "\<forall>(k, holder) \<in> set locks. k = key \<longrightarrow> holder = session" by auto
    with key Cons.IH(2) [OF \<open>e = None\<close> _ more] 2(2) show ?case by auto
  }
qed simp_all

lemma acquireMigrationImportLocks_cases:
  assumes "acquireMigrationImportLocks env fl (Some session) locks = (r, locks')" and "session \<notin> snd ` set locks"
  obtains (failed) e where "r = Inl e" and "locks' = locks"
    | (taken) keys types where "r = Inr (session, keys)" and "locks' = locks @ map (\<lambda>k. (k, session)) keys"
        and "evLockTypes env [releaseEntityType] = Inr types"
        and "\<And>x. x \<in> set types \<Longrightarrow> \<exists>key. evLockKey env x = Inr key \<and> key \<notin> fst ` set locks"
proof -
  show thesis
  proof (cases "fl ''resolve schema migration database'' \<or> fl ''reserve schema migration lock connection'' \<or>
      (\<exists>m. evLockTypes env [releaseEntityType] = Inl m)")
    case True
    then show thesis using assms(1) by (auto simp: acquireMigrationImportLocks_def intro!: failed split: if_splits sum.splits)
  next
    case False
    then obtain types where t: "evLockTypes env [releaseEntityType] = Inr types" by (cases "evLockTypes env [releaseEntityType]") auto
    obtain e keys l where each: "lockEach env fl session types [] locks = ((e, keys), l)" by (metis surj_pair)
    then have each': "lockEach env fl session types [] (locks @ map (\<lambda>k. (k, session)) []) = ((e, keys), l)" by simp
    have l: "l = locks @ map (\<lambda>k. (k, session)) keys" by (rule lockEach_taken(1) [OF each'])
    show thesis
    proof (cases e)
      case None
      have free: "\<exists>key. evLockKey env x = Inr key \<and> key \<notin> fst ` set locks" if x: "x \<in> set types" for x
      proof -
        obtain key where "evLockKey env x = Inr key" "\<forall>(k, holder) \<in> set locks. k = key \<longrightarrow> holder = session"
          using lockEach_taken(2) [OF each' None x] by blast
        with assms(2) show ?thesis by force
      qed
      show thesis
        by (rule taken [of keys types]) (use None each l t assms(1) False free in \<open>auto simp: acquireMigrationImportLocks_def\<close>)
    next
      case (Some x)
      obtain errs l' where rel: "releaseImportLocks fl session keys l = (errs, l')" by (metis surj_pair)
      from releaseImportLocks_all [OF rel [unfolded l] assms(2)] have "l' = locks" .
      with Some each t rel assms(1) False failed [of x] show thesis by (auto simp: acquireMigrationImportLocks_def)
    qed
  qed
qed

definition lockHeld :: "'x schemaDB \<Rightarrow> bool" where
  "lockHeld db \<longleftrightarrow> (\<exists>r \<in> set (lockRows db). lkID r = liquibaseLockID \<and> lkLocked r)"

definition takenRow :: "int \<Rightarrow> lockRow \<Rightarrow> lockRow" where
  "takenRow now r = r\<lparr>lkLocked := True, lkGranted := Some now, lkOwner := Some liquibaseMigrationLockOwner\<rparr>"

definition lockRowsWith :: "'x schemaDB \<Rightarrow> lockRow list" where
  "lockRowsWith db = (if \<exists>r \<in> set (lockRows db). lkID r = liquibaseLockID then lockRows db
     else lockRows db @ [\<lparr>lkID = liquibaseLockID, lkLocked = False, lkGranted = None, lkOwner = None\<rparr>])"

lemma lockRows_set [simp]: "lockRows (db\<lparr>sdLocks := Some rs\<rparr>) = rs"
  by (simp add: lockRows_def)

lemma acquireLiquibase_cases:
  assumes "acquireLiquibaseMigrationLock env fl schema db = (r, db')"
  obtains (failed) e where "r = Inl e" and "db' = db"
    | (taken) row where "r = Inr ()" and "\<not> lockHeld db"
        and "filter (\<lambda>r. lkID r = liquibaseLockID) (lockRowsWith db) = [row]"
        and "db' = db\<lparr>sdLocks := Some (map (\<lambda>r. if lkID r = liquibaseLockID then takenRow (evNow env) r else r) (lockRowsWith db))\<rparr>"
proof (cases r)
  case (Inl e)
  with assms failed show thesis unfolding acquireLiquibaseMigrationLock_def by (blast dest: ddlTx_Inl)
next
  case (Inr u)
  define rows where "rows = lockRowsWith db"
  from ddlTx_Inr [OF assms [unfolded Inr acquireLiquibaseMigrationLock_def]]
  have "andThen (reserveLock schema) (\<lambda>_. takeLock (evNow env)) (db\<lparr>sdLocks := Some rows\<rparr>) = (Inr u, db')"
    unfolding rows_def lockRowsWith_def
    by (auto simp: ddlStmt_Inr andThen_Inr_iff createLockTable_def initializeLock_def split: if_splits)
  then obtain row where f: "filter (\<lambda>r. lkID r = liquibaseLockID) rows = [row]" and free: "\<not> lkLocked row"
    and t: "takeLock (evNow env) (db\<lparr>sdLocks := Some rows\<rparr>) = (Inr u, db')"
    by (auto simp: andThen_Inr_iff reserveLock_def split: list.splits if_splits)
  have all: "\<not> lkLocked r" if "r \<in> set rows" "lkID r = liquibaseLockID" for r
  proof -
    have "r \<in> set (filter (\<lambda>r. lkID r = liquibaseLockID) rows)" using that by simp
    with f free show ?thesis by simp
  qed
  have "\<not> lockHeld db" using all unfolding lockHeld_def rows_def lockRowsWith_def by auto
  moreover have "map (\<lambda>r. if lkID r = liquibaseLockID \<and> \<not> lkLocked r then takenRow (evNow env) r else r) rows =
      map (\<lambda>r. if lkID r = liquibaseLockID then takenRow (evNow env) r else r) rows"
    using all by auto
  ultimately show thesis
    using f t Inr unfolding rows_def
    by (intro taken [of row]) (auto simp: takeLock_def updateLock_def takenRow_def andThen_Inr_iff split: if_splits)
qed

text \<open>The row of the lock as the run leaves it.\<close>

lemma releaseLiquibase_taken:
  assumes "sdLocks db = Some (map (\<lambda>r. if lkID r = liquibaseLockID then takenRow now r else r) rows)"
    and "filter (\<lambda>r. lkID r = liquibaseLockID) rows = [row]"
    and "releaseLiquibaseLock fl db = (r, db')"
  shows "if fl ''release Liquibase migration lock'' then db' = db \<and> r \<noteq> Inr ()
    else r = Inr () \<and> db' = db\<lparr>sdLocks := Some (map (\<lambda>r. if lkID r = liquibaseLockID then freeLock r else r) rows)\<rparr>"
proof -
  have owns: "ownsLock (if lkID r = liquibaseLockID then takenRow now r else r) \<longleftrightarrow> lkID r = liquibaseLockID" for r
    by (auto simp: ownsLock_def takenRow_def)
  have rows: "lockRows db = map (\<lambda>r. if lkID r = liquibaseLockID then takenRow now r else r) rows"
    using assms(1) by (simp add: lockRows_def)
  have "length (filter ownsLock (lockRows db)) = 1"
    using assms(2) by (simp add: rows filter_map comp_def owns)
  moreover have "map (\<lambda>r. if ownsLock r then freeLock r else r) (lockRows db) =
      map (\<lambda>r. if lkID r = liquibaseLockID then freeLock r else r) rows"
    by (auto simp: rows owns freeLock_def takenRow_def)
  ultimately show ?thesis
    using assms(3) by (auto simp: releaseLiquibaseLock_def ddlStmt_def andThen_def updateLock_def split: if_splits)
qed

text \<open>Under the lock row: what the migrations did, and what became of the row.\<close>

lemma underLiquibaseLock_result:
  assumes "underLiquibaseLock env fl schema loaded db = (errs, db')"
    and "distinct (map cnVersion loaded)" and "ledgerStarts loaded k db"
  shows "\<exists>j k'. migratedBy env schema loaded k j k' db db' \<and> sdHistory db' = sdHistory db \<and>
      (errs = [] \<longrightarrow> k' = length loaded \<and> ledgerPrefix loaded k' db')"
    and "lockHeld db \<Longrightarrow> errs \<noteq> [] \<and> db' = db"
    and "\<not> lockHeld db \<Longrightarrow> \<not> fl ''release Liquibase migration lock'' \<Longrightarrow> \<not> lockHeld db'"
    and "errs = [] \<Longrightarrow> \<not> fl ''release Liquibase migration lock''"
proof -
  obtain r1 db1 where a: "acquireLiquibaseMigrationLock env fl schema db = (r1, db1)" by (metis surj_pair)
  have "(\<exists>j k'. migratedBy env schema loaded k j k' db db' \<and> sdHistory db' = sdHistory db \<and>
      (errs = [] \<longrightarrow> k' = length loaded \<and> ledgerPrefix loaded k' db')) \<and>
    (lockHeld db \<longrightarrow> errs \<noteq> [] \<and> db' = db) \<and>
    (\<not> lockHeld db \<longrightarrow> \<not> fl ''release Liquibase migration lock'' \<longrightarrow> \<not> lockHeld db') \<and>
    (errs = [] \<longrightarrow> \<not> fl ''release Liquibase migration lock'')"
    using a
  proof (cases rule: acquireLiquibase_cases)
    case (failed e)
    with assms(1) a have "errs = [e]" "db' = db" by (simp_all add: underLiquibaseLock_def)
    with assms(3) show ?thesis by (auto intro!: exI [of _ k] migratedBy_refl)
  next
    case (taken row)
    let ?taken = "map (\<lambda>r. if lkID r = liquibaseLockID then takenRow (evNow env) r else r) (lockRowsWith db)"
    obtain r2 db2 where m: "migrateSchema env fl schema loaded db1 = (r2, db2)" by (metis surj_pair)
    obtain r3 db3 where rel: "releaseLiquibaseLock fl db2 = (r3, db3)" by (metis surj_pair)
    from assms(1) a taken(1) m rel have res: "errs = errorsOf r2 @ errorsOf r3" "db' = db3" by (simp_all add: underLiquibaseLock_def)
    have "ledgerStarts loaded k db1" using assms(3) taken(4) by (simp add: ledgerStarts_def ledgerPrefix_def)
    from migrateSchema_prefix [OF assms(2) this m] obtain j k' where
      j: "migratedBy env schema loaded k j k' db1 db2" and same: "sameTables db1 db2"
      and ok: "r2 = Inr () \<longrightarrow> k' = length loaded \<and> ledgerPrefix loaded k' db2" by blast
    have tables: "sdLocks db2 = Some ?taken" "sdHistory db2 = sdHistory db" using same taken(4) by (simp_all add: sameTables_def)
    from releaseLiquibase_taken [OF tables(1) taken(3) rel]
    have row: "if fl ''release Liquibase migration lock'' then db3 = db2 \<and> r3 \<noteq> Inr ()
      else r3 = Inr () \<and> db3 = db2\<lparr>sdLocks := Some (map (\<lambda>r. if lkID r = liquibaseLockID then freeLock r else r) (lockRowsWith db))\<rparr>" .
    then have kept: "sdLedger db3 = sdLedger db2" "sdRest db3 = sdRest db2" "sdHistory db3 = sdHistory db2"
      by (auto split: if_splits)
    have "migratedBy env schema loaded k j k' db db'"
      using j kept taken(4) by (simp add: migratedBy_def ledgerStarts_def ledgerPrefix_def historyRows_def res)
    moreover have "errs = [] \<Longrightarrow> k' = length loaded \<and> ledgerPrefix loaded k' db'"
      using ok kept by (cases r2) (simp_all add: res errorsOf_def ledgerPrefix_def)
    moreover have "\<not> fl ''release Liquibase migration lock'' \<Longrightarrow> \<not> lockHeld db'"
      using row by (auto simp: res lockHeld_def freeLock_def)
    moreover have "errs = [] \<Longrightarrow> \<not> fl ''release Liquibase migration lock''"
      using row by (cases r3) (auto simp: res errorsOf_def split: if_splits)
    ultimately show ?thesis using taken(2) kept(3) tables(2) res by auto
  qed
  then show "\<exists>j k'. migratedBy env schema loaded k j k' db db' \<and> sdHistory db' = sdHistory db \<and>
      (errs = [] \<longrightarrow> k' = length loaded \<and> ledgerPrefix loaded k' db')"
    and "lockHeld db \<Longrightarrow> errs \<noteq> [] \<and> db' = db"
    and "\<not> lockHeld db \<Longrightarrow> \<not> fl ''release Liquibase migration lock'' \<Longrightarrow> \<not> lockHeld db'"
    and "errs = [] \<Longrightarrow> \<not> fl ''release Liquibase migration lock''" by auto
qed

text \<open>What \<open>fs.Glob\<close> returns names of: one entry per name, no separator in a name.\<close>

definition directory :: "(string \<times> string option) list \<Rightarrow> bool" where
  "directory entries \<longleftrightarrow> distinct (map fst entries) \<and> (\<forall>n \<in> fst ` set entries. CHR ''/'' \<notin> set n)"

lemma baseName_plain: "n \<noteq> [] \<Longrightarrow> CHR ''/'' \<notin> set n \<Longrightarrow> baseName n = n"
proof -
  assume n: "n \<noteq> []" "CHR ''/'' \<notin> set n"
  have a: "dropWhile (\<lambda>c. c = CHR ''/'') (rev n) = rev n" using n by (cases "rev n") auto
  have b: "takeWhile (\<lambda>c. c \<noteq> CHR ''/'') (rev n) = rev n" using n by (intro takeWhile_all) auto
  show ?thesis using n(1) by (simp only: baseName_def Let_def a b rev_rev_ident if_False)
qed

lemma readEach_versions: "readEach schema entries names = Inr loaded \<Longrightarrow> map cnVersion loaded = map baseName names"
  by (induction schema entries names arbitrary: loaded rule: readEach.induct) (auto split: option.splits sum.splits)

lemma readCanonicalMigrations_versions:
  assumes "readCanonicalMigrations entries schema = Inr loaded" and "directory entries"
  shows "map cnVersion loaded = sqlNames entries" and "distinct (map cnVersion loaded)" and "loaded \<noteq> []"
proof -
  from assms(1) have ne: "sqlNames entries \<noteq> []" and r: "readEach schema entries (sqlNames entries) = Inr loaded"
    by (auto simp: readCanonicalMigrations_def split: if_splits)
  have "\<forall>n \<in> set (sqlNames entries). baseName n = n"
    using assms(2) by (auto simp: sqlNames_def directory_def suffix_def intro!: baseName_plain)
  then show v: "map cnVersion loaded = sqlNames entries" using readEach_versions [OF r] by (simp add: map_idI)
  show "distinct (map cnVersion loaded)" using assms(2) by (simp add: v sqlNames_def directory_def)
  show "loaded \<noteq> []" using ne v by auto
qed

section \<open>Running again\<close>

text \<open>What a run without errors has found out about the environment.\<close>

lemma adoptLegacy_Inr:
  assumes "adoptLegacyLiquibaseHistory env fl schema loaded db = (Inr (), db')" and "ledgerPrefix loaded k db"
  shows "(\<exists>manifest. evCompatibility env = Inr manifest) \<and> length (historyRows env db) \<le> length loaded"
  using assms(1)
proof (cases rule: adoptLegacy_cases)
  case kept
  with assms(2) show ?thesis by (auto simp: ledgerPrefix_def)
next
  case adopted
  then show ?thesis by (auto simp: adoptedFrom_def Let_def dest: validateLegacyLiquibaseRows_Inr(1))
qed

lemma migrateSchema_Inr:
  assumes "migrateSchema env fl schema loaded db = (Inr (), db')" and "ledgerStarts loaded k db"
  shows "(\<exists>manifest. evCompatibility env = Inr manifest) \<and> length (historyRows env db) \<le> length loaded \<and> \<not> evBootstrapBusy env"
proof -
  from assms(1) obtain db1 db2 where e: "ensureMigrationLedger env fl schema db = (Inr (), db1)"
    and a: "adoptLegacyLiquibaseHistory env fl schema loaded db1 = (Inr (), db2)"
    by (auto simp: migrateSchema_def andThen_Inr_iff)
  from e have busy: "\<not> evBootstrapBusy env"
    unfolding ensureMigrationLedger_def by (auto simp: ddl_Inr dest!: ddlTx_Inr split: if_splits)
  from e have db1: "db1 = db\<lparr>sdLedger := Some (case sdLedger db of None \<Rightarrow> [] | Some rows \<Rightarrow> rows)\<rparr>"
    by (cases rule: ensureMigrationLedger_cases) auto
  then have "ledgerPrefix loaded k db1" using assms(2) by (auto simp: ledgerStarts_def ledgerPrefix_def)
  from adoptLegacy_Inr [OF a this] busy show ?thesis by (simp add: db1 historyRows_ledger)
qed

lemma matchLedger_self: "matchLedger i (map ledgerRow ms) ms = None"
  by (induction ms arbitrary: i) (simp_all add: ledgerRow_def)

lemma ddlTx_free: "ddlTx (\<lambda>_. False) what m db = (Inr x, db') \<longleftrightarrow> m db = (Inr x, db')"
  by (simp add: ddlTx_def atomically_Inr)

lemma applyMigration_again:
  assumes "sdLedger db = Some rows" and "map_of rows (cnVersion m) = Some (cnChecksum m)"
  shows "applyMigration env (\<lambda>_. False) schema m db = (Inr (), db)"
  using assms by (simp add: applyMigration_def ddlTx_free ddl_Inr)

lemma forEach_again: "(\<And>m. m \<in> set ms \<Longrightarrow> f m db = (Inr (), db)) \<Longrightarrow> forEach ms f db = (Inr (), db)"
  by (induction ms) (auto simp: andThen_def)

lemma migrateSchema_again:
  assumes "ledgerPrefix loaded (length loaded) db" and "distinct (map cnVersion loaded)"
    and "sorted (map (collated env) (map cnVersion loaded))" and "evCompatibility env = Inr manifest"
    and "length (historyRows env db) \<le> length loaded" and "loaded \<noteq> []" and "\<not> evBootstrapBusy env"
  shows "migrateSchema env (\<lambda>_. False) schema loaded db = (Inr (), db)"
proof -
  have l: "sdLedger db = Some (map ledgerRow loaded)" using assms(1) by (simp add: ledgerPrefix_def)
  have e: "ensureMigrationLedger env (\<lambda>_. False) schema db = (Inr (), db)"
    using assms(7) l by (simp add: ensureMigrationLedger_def ddlTx_free ddl_Inr)
  have h: "readLegacyLiquibaseRows env (\<lambda>_. False) db = (Inr (historyRows env db), db)"
    by (simp add: readLegacyLiquibaseRows_def historyRows_def ddlStmt_def andThen_def split: option.split)
  have a: "adoptLegacyLiquibaseHistory env (\<lambda>_. False) schema loaded db = (Inr (), db)"
    using l h assms(4-6) by (simp add: adoptLegacyLiquibaseHistory_def ddlTx_free ddl_Inr)
  have "sort_key (\<lambda>r. collated env (fst r)) (map ledgerRow loaded) = map ledgerRow loaded"
    using assms(3) by (intro sort_key_id_if_sorted) (simp add: comp_def ledgerRow_def)
  then have v: "validateMigrationLedger env (\<lambda>_. False) loaded db = (Inr (), db)"
    using l by (simp add: validateMigrationLedger_def ddl_Inr matchLedger_self)
  have key: "map_of (map ledgerRow loaded) (cnVersion m) = Some (cnChecksum m)" if "m \<in> set loaded" for m
    using that assms(2) by (intro map_of_is_SomeI) (auto simp: comp_def ledgerRow_def)
  have "forEach loaded (applyMigration env (\<lambda>_. False) schema) db = (Inr (), db)"
    by (rule forEach_again, rule applyMigration_again [OF l], rule key)
  with e a v show ?thesis by (simp add: migrateSchema_def andThen_def)
qed

lemma unlockImport_free:
  "mset (map (\<lambda>k. (k, session)) keys) \<subseteq># mset locks \<Longrightarrow>
     fst (foldl (unlockImport (\<lambda>_. False) session) ([], locks) keys) = []"
proof (induction keys arbitrary: locks)
  case (Cons k keys)
  then have "(k, session) \<in># mset locks" by (auto dest: mset_subset_eqD)
  moreover have "mset (map (\<lambda>k. (k, session)) keys) \<subseteq># mset (remove1 (k, session) locks)"
    using Cons.prems by (simp add: insert_subset_eq_iff)
  ultimately show ?case using Cons.IH by (simp add: unlockImport_def)
qed simp

lemma releaseImportLocks_free:
  assumes "session \<notin> snd ` set locks"
  shows "releaseImportLocks (\<lambda>_. False) session keys (locks @ map (\<lambda>k. (k, session)) keys) = ([], locks)"
proof -
  obtain errs l where r: "releaseImportLocks (\<lambda>_. False) session keys (locks @ map (\<lambda>k. (k, session)) keys) = (errs, l)"
    by (metis surj_pair)
  have "mset (map (\<lambda>k. (k, session)) (rev keys)) \<subseteq># mset (locks @ map (\<lambda>k. (k, session)) keys)"
    by (simp add: rev_map)
  from unlockImport_free [OF this] r have "errs = []" by (auto simp: releaseImportLocks_def Let_def case_prod_beta)
  with r releaseImportLocks_all [OF r assms] show ?thesis by simp
qed

lemma lockEach_free:
  assumes "\<And>x. x \<in> set es \<Longrightarrow> \<exists>key. evLockKey env x = Inr key \<and> key \<notin> fst ` set locks"
  shows "\<exists>keys'. lockEach env (\<lambda>_. False) session es keys (locks @ map (\<lambda>k. (k, session)) keys) =
    ((None, keys'), locks @ map (\<lambda>k. (k, session)) keys')"
  using assms
proof (induction es arbitrary: keys)
  case (Cons x es)
  obtain key where key: "evLockKey env x = Inr key" "key \<notin> fst ` set locks" using Cons.prems [of x] by auto
  then have "\<not> (\<exists>(k, holder) \<in> set (locks @ map (\<lambda>k. (k, session)) keys). k = key \<and> holder \<noteq> session)" by force
  with Cons.IH [of "keys @ [key]"] Cons.prems key(1) show ?case by simp
qed auto

definition lockSettled :: "'x schemaDB \<Rightarrow> bool" where
  "lockSettled db \<longleftrightarrow> (\<exists>rows. sdLocks db = Some rows \<and>
     filter (\<lambda>r. lkID r = liquibaseLockID) rows = [\<lparr>lkID = liquibaseLockID, lkLocked = False, lkGranted = None, lkOwner = None\<rparr>])"

lemma underLiquibaseLock_settles:
  assumes "underLiquibaseLock env fl schema loaded db = ([], db')" and "distinct (map cnVersion loaded)" and "ledgerStarts loaded k db"
  shows "lockSettled db'" and "\<exists>manifest. evCompatibility env = Inr manifest"
    and "length (historyRows env db) \<le> length loaded" and "\<not> evBootstrapBusy env"
proof -
  obtain r1 db1 where a: "acquireLiquibaseMigrationLock env fl schema db = (r1, db1)" by (metis surj_pair)
  obtain r2 db2 where m: "migrateSchema env fl schema loaded db1 = (r2, db2)" by (metis surj_pair)
  obtain r3 db3 where rel: "releaseLiquibaseLock fl db2 = (r3, db3)" by (metis surj_pair)
  from a have "lockSettled db' \<and> (\<exists>manifest. evCompatibility env = Inr manifest) \<and>
    length (historyRows env db) \<le> length loaded \<and> \<not> evBootstrapBusy env"
  proof (cases rule: acquireLiquibase_cases)
    case (failed e)
    with assms(1) a show ?thesis by (simp add: underLiquibaseLock_def)
  next
    case (taken row)
    with assms(1) a m rel have ok: "r2 = Inr ()" "r3 = Inr ()" "db' = db3"
      by (auto simp: underLiquibaseLock_def errorsOf_def split: sum.splits)
    have starts: "ledgerStarts loaded k db1" using assms(3) taken(4) by (simp add: ledgerStarts_def ledgerPrefix_def)
    have "historyRows env db1 = historyRows env db" using taken(4) by (simp add: historyRows_def)
    with migrateSchema_Inr [OF m [unfolded ok(1)] starts]
    have found: "(\<exists>manifest. evCompatibility env = Inr manifest) \<and> length (historyRows env db) \<le> length loaded \<and> \<not> evBootstrapBusy env"
      by simp
    from migrateSchema_prefix [OF assms(2) starts m] taken(4)
    have "sdLocks db2 = Some (map (\<lambda>r. if lkID r = liquibaseLockID then takenRow (evNow env) r else r) (lockRowsWith db))"
      by (auto simp: sameTables_def)
    from releaseLiquibase_taken [OF this taken(3) rel] ok(2)
    have "db3 = db2\<lparr>sdLocks := Some (map (\<lambda>r. if lkID r = liquibaseLockID then freeLock r else r) (lockRowsWith db))\<rparr>"
      by (auto split: if_splits)
    moreover have "filter (\<lambda>r. lkID r = liquibaseLockID) (map (\<lambda>r. if lkID r = liquibaseLockID then freeLock r else r) (lockRowsWith db)) =
        map freeLock (filter (\<lambda>r. lkID r = liquibaseLockID) (lockRowsWith db))"
      by (induction "lockRowsWith db") (auto simp: freeLock_def filter_map comp_def)
    moreover have "lkID row = liquibaseLockID" using taken(3) by (metis (mono_tags, lifting) filter_eq_Cons_iff)
    ultimately have "lockSettled db'" using taken(3) by (simp add: lockSettled_def ok(3) freeLock_def)
    with found show ?thesis by simp
  qed
  then show "lockSettled db'" and "\<exists>manifest. evCompatibility env = Inr manifest"
    and "length (historyRows env db) \<le> length loaded" and "\<not> evBootstrapBusy env" by auto
qed



lemma underLiquibaseLock_again:
  assumes "lockSettled db" and "migrateSchema env (\<lambda>_. False) schema loaded
      (db\<lparr>sdLocks := Some (map (\<lambda>r. if lkID r = liquibaseLockID then takenRow (evNow env) r else r) (lockRows db))\<rparr>) =
      (Inr (), db\<lparr>sdLocks := Some (map (\<lambda>r. if lkID r = liquibaseLockID then takenRow (evNow env) r else r) (lockRows db))\<rparr>)"
  shows "underLiquibaseLock env (\<lambda>_. False) schema loaded db = ([], db)"
proof -
  let ?db1 = "db\<lparr>sdLocks := Some (map (\<lambda>r. if lkID r = liquibaseLockID then takenRow (evNow env) r else r) (lockRows db))\<rparr>"
  define free where "free = \<lparr>lkID = liquibaseLockID, lkLocked = False, lkGranted = None, lkOwner = None\<rparr>"
  obtain rows where s: "sdLocks db = Some rows" and f: "filter (\<lambda>r. lkID r = liquibaseLockID) rows = [free]"
    using assms(1) by (auto simp: lockSettled_def free_def)
  have "free \<in> set (filter (\<lambda>r. lkID r = liquibaseLockID) rows)" unfolding f by simp
  then have present: "\<exists>r \<in> set rows. lkID r = liquibaseLockID" by auto
  have rows: "lockRows db = rows" using s by (simp add: lockRows_def)
  have all: "r = free" if "r \<in> set rows" "lkID r = liquibaseLockID" for r
  proof -
    have "r \<in> set (filter (\<lambda>r. lkID r = liquibaseLockID) rows)" using that by simp
    with f show ?thesis by simp
  qed
  have open_row: "\<not> lkLocked r" if "r \<in> set rows" "lkID r = liquibaseLockID" for r
    unfolding all [OF that] by (simp add: free_def)
  have unfreed: "freeLock r = r" if "r \<in> set rows" "lkID r = liquibaseLockID" for r
    unfolding all [OF that] by (simp add: freeLock_def free_def)
  have acq: "acquireLiquibaseMigrationLock env (\<lambda>_. False) schema db = (Inr (), ?db1)"
  proof -
    have filt: "filter (\<lambda>r. lkID r = liquibaseLockID \<and> \<not> lkLocked r) rows = [free]"
      unfolding f [symmetric] by (rule filter_cong [OF refl]) (use open_row in auto)
    have rowsmap: "map (\<lambda>r. if lkID r = liquibaseLockID \<and> \<not> lkLocked r
          then r\<lparr>lkLocked := True, lkGranted := Some (evNow env), lkOwner := Some liquibaseMigrationLockOwner\<rparr> else r) rows =
        map (\<lambda>r. if lkID r = liquibaseLockID then takenRow (evNow env) r else r) rows"
      by (rule map_cong [OF refl]) (use open_row in \<open>simp add: takenRow_def\<close>)
    have create: "createLockTable db = (Inr (), db)" unfolding createLockTable_def rows using s by simp
    have init: "initializeLock db = (Inr (), db)" unfolding initializeLock_def rows using present by simp
    have reserve: "reserveLock schema db = (Inr (), db)"
      unfolding reserveLock_def andThen_def getState_run sum.case prod.case rows f list.case by (simp add: free_def)
    have take: "takeLock (evNow env) db = (Inr (), ?db1)"
      unfolding takeLock_def updateLock_def andThen_def sum.case prod.case rows filt rowsmap by simp
    show ?thesis
      unfolding acquireLiquibaseMigrationLock_def ddlTx_free ddlStmt_def if_False andThen_def create sum.case prod.case init reserve take
      by (rule refl)
  qed
  obtain r db3 where rel: "releaseLiquibaseLock (\<lambda>_. False) ?db1 = (r, db3)"
    by (cases "releaseLiquibaseLock (\<lambda>_. False) ?db1")
  have "sdLocks ?db1 = Some (map (\<lambda>r. if lkID r = liquibaseLockID then takenRow (evNow env) r else r) rows)" by (simp add: rows)
  from releaseLiquibase_taken [OF this f rel]
  have r: "r = Inr ()" and db3: "db3 = db\<lparr>sdLocks := Some (map (\<lambda>r. if lkID r = liquibaseLockID then freeLock r else r) rows)\<rparr>" by auto
  have "map (\<lambda>r. if lkID r = liquibaseLockID then freeLock r else r) rows = rows"
    by (rule map_idI) (use unfreed in simp)
  with db3 s have "db3 = db" by simp
  with acq rel r assms(2) show ?thesis by (simp add: underLiquibaseLock_def errorsOf_def)
qed

text \<open>C19. Migrating twice is migrating once. After a run without errors, a second run in which no
  statement fails returns no error and changes neither the database nor the locks, whatever session
  it runs on; the collation must order the names of the inventory as the run does.\<close>

theorem migrating_again_changes_nothing:
  assumes "readCanonicalMigrations files schema = Inr loaded" and "directory files"
    and "sorted (map (collated env) (sqlNames files))"
    and "ledgerStarts loaded k (mvDB s)" and "session \<notin> snd ` set (mvLocks s)" and "again \<notin> snd ` set (mvLocks s)"
    and "runDDL env fl (Some session) files schema s = ([], s')"
  shows "runDDL env (\<lambda>_. False) (Some again) files schema s' = ([], s')"
proof -
  note d = readCanonicalMigrations_versions [OF assms(1,2)]
  obtain a locks where acq: "acquireMigrationImportLocks env fl (Some session) (mvLocks s) = (a, locks)" by (metis surj_pair)
  from acq assms(5) show ?thesis
  proof (cases rule: acquireMigrationImportLocks_cases)
    case (failed e)
    with assms(1,7) acq show ?thesis by (auto simp: runDDL_def)
  next
    case (taken keys types)
    obtain e1 d1 where u: "underLiquibaseLock env fl schema loaded (mvDB s) = (e1, d1)" by (metis surj_pair)
    obtain e2 l2 where rel: "releaseImportLocks fl session keys locks = (e2, l2)" by (metis surj_pair)
    from assms(1,7) acq taken(1) u rel have res: "e1 = []" "s' = \<lparr>mvDB = d1, mvLocks = l2\<rparr>" by (auto simp: runDDL_def)
    have l2: "l2 = mvLocks s" by (rule releaseImportLocks_all [OF rel [unfolded taken(2)] assms(5)])
    note under = u [unfolded res(1)]
    note settled = underLiquibaseLock_settles [OF under d(2) assms(4)]
    obtain manifest where m: "evCompatibility env = Inr manifest" using settled(2) by blast
    from underLiquibaseLock_result(1) [OF under d(2) assms(4)]
    have p: "ledgerPrefix loaded (length loaded) d1" and h: "sdHistory d1 = sdHistory (mvDB s)" by auto
    let ?taken = "d1\<lparr>sdLocks := Some (map (\<lambda>r. if lkID r = liquibaseLockID then takenRow (evNow env) r else r) (lockRows d1))\<rparr>"
    have "migrateSchema env (\<lambda>_. False) schema loaded ?taken = (Inr (), ?taken)"
      by (rule migrateSchema_again [OF _ d(2) _ m _ d(3) settled(4)])
        (use p h assms(3) settled(3) in \<open>simp_all add: d(1) ledgerPrefix_def historyRows_def\<close>)
    from underLiquibaseLock_again [OF settled(1) this]
    have under': "underLiquibaseLock env (\<lambda>_. False) schema loaded d1 = ([], d1)" .
    from lockEach_free [of types env "mvLocks s" again "[]"] taken(4) obtain keys' where
      each: "lockEach env (\<lambda>_. False) again types [] (mvLocks s) = ((None, keys'), mvLocks s @ map (\<lambda>k. (k, again)) keys')"
      by auto
    have acq': "acquireMigrationImportLocks env (\<lambda>_. False) (Some again) (mvLocks s) =
        (Inr (again, keys'), mvLocks s @ map (\<lambda>k. (k, again)) keys')"
      unfolding acquireMigrationImportLocks_def by (simp add: taken(3) each)
    have rel': "releaseImportLocks (\<lambda>_. False) again keys' (mvLocks s @ map (\<lambda>k. (k, again)) keys') = ([], mvLocks s)"
      by (rule releaseImportLocks_free [OF assms(6)])
    show ?thesis
      unfolding runDDL_def res(2) l2 migServer.simps assms(1) sum.case acq' prod.case under' rel' by simp
  qed
qed

section \<open>A first migration\<close>

text \<open>An empty database and an inventory of two files; another session holds a lock that is no importer's.\<close>


definition sampleSchema :: pgSchema where
  "sampleSchema = \<lparr>psName = ''public'', psIdentifier = quote # ''public'' @ [quote]\<rparr>"

definition sampleFiles :: "(string \<times> string option) list" where
  "sampleFiles = [(''V2.sql'', Some ''b''), (''README'', None), (''V1.sql'', Some ''a'')]"

definition sampleLoaded :: "canonicalMigration list" where
  "sampleLoaded = [\<lparr>cnVersion = ''V1.sql'', cnChecksum = hexEncode (sha256 ''a''), cnSQL = ''a''\<rparr>,
     \<lparr>cnVersion = ''V2.sql'', cnChecksum = hexEncode (sha256 ''b''), cnSQL = ''b''\<rparr>]"

definition sampleEnv :: "string list migrationEnv" where
  "sampleEnv = \<lparr>evFiles = Inr sampleFiles, evLockTypes = (\<lambda>es. Inr (''artist'' # es)),
     evLockKey = (\<lambda>e. Inr (int (length e))), evCollate = (\<lambda>s. []), evTrigram = (\<lambda>_. None),
     evExec = (\<lambda>path sql x. Some (x @ [sql])), evBootstrapBusy = False,
     evCompatibility = Inr \<lparr>lfContract = (\<lambda>_. None), lfMigrations = []\<rparr>, evContract = (\<lambda>_. Inl []),
     evServerVersion = 150004, evFingerprint = (\<lambda>_ _ _. None), evNow = 5\<rparr>"

definition sampleMigServer :: "string list migServer" where
  "sampleMigServer = \<lparr>mvDB = \<lparr>sdLedger = None, sdLocks = None, sdHistory = None, sdRest = []\<rparr>, mvLocks = [(99, 4)]\<rparr>"

lemma sample_reads: "readCanonicalMigrations sampleFiles sampleSchema = Inr sampleLoaded"
proof -
  have n: "sqlNames sampleFiles = [''V1.sql'', ''V2.sql'']" by code_simp
  have b: "baseName ''V1.sql'' = ''V1.sql''" "baseName ''V2.sql'' = ''V2.sql''" by code_simp+
  have q: "scopeCanonicalSQL sampleSchema ''a'' = ''a''" "scopeCanonicalSQL sampleSchema ''b'' = ''b''" by code_simp+
  show ?thesis by (simp add: readCanonicalMigrations_def n b q sampleLoaded_def) (simp add: sampleFiles_def b q)
qed

lemma sample_directory: "directory sampleFiles"
  by (simp add: directory_def sampleFiles_def)

lemma sample_starts: "ledgerStarts sampleLoaded 0 (mvDB sampleMigServer)"
  by (simp add: ledgerStarts_def sampleMigServer_def)

lemma sample_locks:
  "acquireMigrationImportLocks sampleEnv (\<lambda>_. False) (Some 7) (mvLocks sampleMigServer) =
     (Inr (7, [6, 7]), [(99, 4), (6, 7), (7, 7)])"
  by (simp add: acquireMigrationImportLocks_def sampleEnv_def sampleMigServer_def releaseEntityType_def)

lemma sample_apply:
  assumes "sdLedger db = Some rows" and "cnVersion m \<notin> fst ` set rows"
  shows "applyMigration sampleEnv (\<lambda>_. False) schema m db =
    (Inr (), db\<lparr>sdRest := sdRest db @ [cnSQL m], sdLedger := Some (rows @ [ledgerRow m])\<rparr>)"
proof -
  have "map_of rows (cnVersion m) = None" using assms(2) by (simp add: map_of_eq_None_iff)
  then show ?thesis using assms
    by (simp add: applyMigration_def ddlTx_free ddl_Inr setMigrationSearchPath_def execMigration_def ledgerRow_def) (simp add: sampleEnv_def)
qed

lemma sample_migrates:
  "underLiquibaseLock sampleEnv (\<lambda>_. False) sampleSchema sampleLoaded (mvDB sampleMigServer) =
     ([], \<lparr>sdLedger = Some (map ledgerRow sampleLoaded),
       sdLocks = Some [\<lparr>lkID = 1, lkLocked = False, lkGranted = None, lkOwner = None\<rparr>], sdHistory = None, sdRest = [''a'', ''b'']\<rparr>)"
proof -
  let ?row = "\<lparr>lkID = 1, lkLocked = True, lkGranted = Some 5, lkOwner = Some liquibaseMigrationLockOwner\<rparr>"
  let ?db = "\<lambda>rows x. \<lparr>sdLedger = rows, sdLocks = Some [?row], sdHistory = None, sdRest = x\<rparr> :: string list schemaDB"
  have acq: "acquireLiquibaseMigrationLock sampleEnv (\<lambda>_. False) sampleSchema (mvDB sampleMigServer) = (Inr (), ?db None [])"
    by (simp add: acquireLiquibaseMigrationLock_def ddlTx_free ddlStmt_def andThen_def createLockTable_def initializeLock_def
        reserveLock_def takeLock_def updateLock_def lockRows_def sampleMigServer_def sampleEnv_def liquibaseLockID_def)
  have ens: "ensureMigrationLedger sampleEnv (\<lambda>_. False) sampleSchema (?db None []) = (Inr (), ?db (Some []) [])"
    by (simp add: ensureMigrationLedger_def ddlTx_free ddl_Inr sampleEnv_def)
  have ado: "adoptLegacyLiquibaseHistory sampleEnv (\<lambda>_. False) sampleSchema sampleLoaded (?db (Some []) []) = (Inr (), ?db (Some []) [])"
    by (simp add: adoptLegacyLiquibaseHistory_def sampleEnv_def ddlTx_free ddl_Inr readLegacyLiquibaseRows_def)
  have val: "validateMigrationLedger sampleEnv (\<lambda>_. False) sampleLoaded (?db (Some []) []) = (Inr (), ?db (Some []) [])"
    by (simp add: validateMigrationLedger_def ddl_Inr)
  have app: "forEach sampleLoaded (applyMigration sampleEnv (\<lambda>_. False) sampleSchema) (?db (Some []) []) =
      (Inr (), ?db (Some (map ledgerRow sampleLoaded)) [''a'', ''b''])"
    by (simp add: sampleLoaded_def andThen_def sample_apply ledgerRow_def)
  have rel: "releaseLiquibaseLock (\<lambda>_. False) (?db (Some (map ledgerRow sampleLoaded)) [''a'', ''b'']) =
      (Inr (), (?db (Some (map ledgerRow sampleLoaded)) [''a'', ''b''])\<lparr>sdLocks := Some [\<lparr>lkID = 1, lkLocked = False, lkGranted = None, lkOwner = None\<rparr>]\<rparr>)"
    by (simp add: releaseLiquibaseLock_def ddlStmt_def andThen_def updateLock_def lockRows_def ownsLock_def freeLock_def liquibaseLockID_def)
  show ?thesis
    unfolding underLiquibaseLock_def acq prod.case sum.case migrateSchema_def andThen_def ens ado val app rel by (simp add: errorsOf_def)
qed

lemma sample_run:
  "\<exists>s'. runDDL sampleEnv (\<lambda>_. False) (Some 7) sampleFiles sampleSchema sampleMigServer = ([], s') \<and>
     sdRest (mvDB s') = [''a'', ''b'']"
proof -
  have "releaseImportLocks (\<lambda>_. False) 7 [6, 7] [(99, 4), (6, 7), (7, 7)] = ([], [(99, 4)])"
    using releaseImportLocks_free [of 7 "[(99, 4)]" "[6, 7]"] by simp
  then show ?thesis
    unfolding runDDL_def sample_reads sum.case sample_locks prod.case sample_migrates by simp
qed



lemma migrating_again_witness:
  "\<exists>s'. runDDL sampleEnv (\<lambda>_. False) (Some 7) sampleFiles sampleSchema sampleMigServer = ([], s') \<and>
     runDDL sampleEnv (\<lambda>_. False) (Some 8) sampleFiles sampleSchema s' = ([], s')"
proof -
  obtain s' where run: "runDDL sampleEnv (\<lambda>_. False) (Some 7) sampleFiles sampleSchema sampleMigServer = ([], s')"
    using sample_run by blast
  have s: "(7::int) \<notin> snd ` set (mvLocks sampleMigServer)" "(8::int) \<notin> snd ` set (mvLocks sampleMigServer)"
    by (simp_all add: sampleMigServer_def)
  have "sqlNames sampleFiles = [''V1.sql'', ''V2.sql'']" by code_simp
  then have "sorted (map (collated sampleEnv) (sqlNames sampleFiles))"
    by (simp add: collated_def sampleEnv_def less_eq_prod_def)
  from migrating_again_changes_nothing [OF sample_reads sample_directory this sample_starts s run] run show ?thesis by blast
qed

end
