(* ===== verification/Cache.thy ===== *)
theory Cache
  imports Helper
begin

text \<open>
  The package \<open>src/cache\<close>: the concurrent segmented bit set of identifiers the importer has
  seen, and the set of reference names confirmed by the database. An \<open>IDSet\<close> holds one
  segment of 1,024 64-bit words per 65,536 identifiers; the model keeps the segment map and
  the words of each segment, and reads and writes single bits as the code does.
\<close>

section \<open>The interface the importer relies on\<close>

text \<open>
  What the transformers of \<open>src/batch\<close> use: an empty set, \<open>Add\<close>, \<open>Contains\<close>. Only
  identifiers that satisfy \<open>valid\<close> are ever held.
\<close>

locale identifier_set =
  fixes empty :: "'s"
    and add :: "'i \<Rightarrow> 's \<Rightarrow> 's"
    and contains :: "'s \<Rightarrow> 'i \<Rightarrow> bool"
    and valid :: "'i \<Rightarrow> bool"
    and invar :: "'s \<Rightarrow> bool"
  assumes contains_empty: "\<not> contains empty i"
    and contains_add: "invar s \<Longrightarrow> contains (add i s) j \<longleftrightarrow> contains s j \<or> (j = i \<and> valid i)"
    and invar_empty: "invar empty"
    and invar_add: "invar s \<Longrightarrow> invar (add i s)"
begin

lemma invar_fold: "invar s \<Longrightarrow> invar (fold add is s)"
  by (induction "is" arbitrary: s) (auto simp: invar_add)

lemma contains_fold:
  "invar s \<Longrightarrow> contains (fold add is s) j \<longleftrightarrow> contains s j \<or> (j \<in> set is \<and> valid j)"
  by (induction "is" arbitrary: s) (auto simp: invar_add contains_add)

lemma contains_loaded: "contains (fold add is empty) j \<longleftrightarrow> j \<in> set is \<and> valid j"
  by (simp add: contains_fold invar_empty contains_empty)

lemma fold_order_irrelevant:
  "set is = set js \<Longrightarrow> contains (fold add is empty) j = contains (fold add js empty) j"
  by (simp add: contains_loaded)

end

section \<open>IDSet\<close>

definition idSegmentShift :: nat where "idSegmentShift = 16"
definition idSegmentMask :: uint32 where "idSegmentMask = push_bit idSegmentShift 1 - 1"
definition idWordShift :: nat where "idWordShift = 6"
definition idSegmentWords :: nat where "idSegmentWords = push_bit (idSegmentShift - idWordShift) 1"

type_synonym idSegment = "uint64 list"

record idSet =
  segments :: "int32 \<rightharpoonup> idSegment"

definition emptyIDSet :: idSet where
  "emptyIDSet = \<lparr>segments = Map.empty\<rparr>"

definition newSegment :: idSegment where
  "newSegment = replicate idSegmentWords 0"

definition segmentIndex :: "int32 \<Rightarrow> int32" where
  "segmentIndex i = signed_drop_bit idSegmentShift i"

definition segmentOffset :: "int32 \<Rightarrow> uint32" where
  "segmentOffset i = i AND idSegmentMask"

definition wordIndex :: "int32 \<Rightarrow> nat" where
  "wordIndex i = unat (drop_bit idWordShift (segmentOffset i))"

definition idBit :: "int32 \<Rightarrow> uint64" where
  "idBit i = push_bit (unat (segmentOffset i AND 63)) 1"

text \<open>The three effects of \<open>Add\<close>: \<open>Load\<close> or \<open>LoadOrStore\<close> of the segment, then the atomic \<open>Or\<close>.\<close>

definition loadOrStore :: "int32 \<Rightarrow> idSet \<Rightarrow> idSet" where
  "loadOrStore k s =
     (case segments s k of
        Some _ \<Rightarrow> s
      | None \<Rightarrow> s\<lparr>segments := (segments s)(k \<mapsto> newSegment)\<rparr>)"

definition orBit :: "int32 \<Rightarrow> idSet \<Rightarrow> idSet" where
  "orBit i s =
     (case segments s (segmentIndex i) of
        None \<Rightarrow> s
      | Some ws \<Rightarrow>
          s\<lparr>segments := (segments s)(segmentIndex i \<mapsto>
              ws[wordIndex i := (ws ! wordIndex i) OR idBit i])\<rparr>)"

definition addID :: "int32 \<Rightarrow> idSet \<Rightarrow> idSet" where
  "addID i s = (if sint i < 1 then s else orBit i (loadOrStore (segmentIndex i) s))"

definition containsID :: "idSet \<Rightarrow> int32 \<Rightarrow> bool" where
  "containsID s i =
     (if sint i < 1 then False
      else case segments s (segmentIndex i) of
        None \<Rightarrow> False
      | Some ws \<Rightarrow> (ws ! wordIndex i) AND idBit i \<noteq> 0)"

definition resetIDSet :: "idSet \<Rightarrow> idSet" where
  "resetIDSet s = s\<lparr>segments := Map.empty\<rparr>"

definition allocatedWordBytes :: "idSet \<Rightarrow> nat" where
  "allocatedWordBytes s = card (dom (segments s)) * idSegmentWords * 8"

lemmas id_consts = idSegmentShift_def idSegmentMask_def idWordShift_def idSegmentWords_def

definition idInvar :: "idSet \<Rightarrow> bool" where
  "idInvar s \<longleftrightarrow> finite (dom (segments s)) \<and> (\<forall>k ws. segments s k = Some ws \<longrightarrow> length ws = idSegmentWords)"

text \<open>No access runs past the end of a segment: Go would panic there.\<close>

lemma wordIndex_bound: "wordIndex i < idSegmentWords"
proof -
  have "unat (i AND 65535) \<le> unat (65535 :: uint32)"
    by (rule word_and_le1 [THEN word_le_nat_alt [THEN iffD1]])
  then have "unat (segmentOffset i) < 65536"
    by (simp add: segmentOffset_def id_consts)
  moreover have "wordIndex i = unat (segmentOffset i) div 64"
    by (simp add: wordIndex_def id_consts unat_drop_bit_eq) (simp add: drop_bit_eq_div)
  ultimately show ?thesis
    by (simp add: id_consts push_bit_eq_mult)
qed

lemma idBit_eq: "idBit i = 2 ^ unat (segmentOffset i AND 63)"
  by (simp add: idBit_def push_bit_eq_mult)

lemma bitIndex_bound: "unat (segmentOffset i AND 63) < 64"
proof -
  have "unat (segmentOffset i AND 63) \<le> unat (63 :: uint32)"
    by (rule word_and_le1 [THEN word_le_nat_alt [THEN iffD1]])
  then show ?thesis by simp
qed

lemma and_idBit: "w AND idBit i \<noteq> 0 \<longleftrightarrow> bit w (unat (segmentOffset i AND 63))"
  by (simp add: idBit_eq and_exp_eq_0_iff_not_bit)

lemma bit_or_idBit:
  "bit (w OR idBit i) (unat (segmentOffset j AND 63)) \<longleftrightarrow>
     bit w (unat (segmentOffset j AND 63)) \<or> segmentOffset j AND 63 = segmentOffset i AND 63"
  using bitIndex_bound [of i]
  by (auto simp: idBit_eq bit_or_iff bit_exp_iff word_unat_eq_iff)

text \<open>Segment, word and bit together determine the identifier.\<close>

lemma id_address_inject:
  assumes "segmentIndex i = segmentIndex j" and "wordIndex i = wordIndex j"
    and "segmentOffset i AND 63 = segmentOffset j AND 63"
  shows "i = j"
proof (rule bit_word_eqI)
  fix n assume n: "n < LENGTH(32)"
  have w: "drop_bit 6 (i AND 65535) = drop_bit 6 (j AND 65535)"
    using assms(2) by (simp add: wordIndex_def segmentOffset_def id_consts word_unat_eq_iff)
  have s: "signed_drop_bit 16 i = signed_drop_bit 16 j"
    using assms(1) by (simp add: segmentIndex_def id_consts)
  have b: "(i AND 65535) AND 63 = (j AND 65535) AND 63"
    using assms(3) by (simp add: segmentOffset_def id_consts)
  have mask16: "bit (65535 :: 32 word) m \<longleftrightarrow> m < 16" for m
    using bit_mask_iff [of 16 m, where ?'a = "32 word"] by (auto simp: mask_eq_exp_minus_1)
  have mask6: "bit (63 :: 32 word) m \<longleftrightarrow> m < 6" for m
    using bit_mask_iff [of 6 m, where ?'a = "32 word"] by (auto simp: mask_eq_exp_minus_1)
  consider "n < 6" | "6 \<le> n" "n < 16" | "16 \<le> n" by linarith
  then show "bit i n = bit j n"
  proof cases
    case 1
    have "bit ((i AND 65535) AND 63) n = bit ((j AND 65535) AND 63) n" by (simp only: b)
    then show ?thesis unfolding bit_and_iff mask16 mask6 using 1 by simp
  next
    case 2
    have "bit (drop_bit 6 (i AND 65535)) (n - 6) = bit (drop_bit 6 (j AND 65535)) (n - 6)"
      by (simp only: w)
    then show ?thesis unfolding bit_drop_bit_eq comp_def bit_and_iff mask16 using 2 by simp
  next
    case 3
    have "bit (signed_drop_bit 16 i) (n - 16) = bit (signed_drop_bit 16 j) (n - 16)"
      by (simp only: s)
    moreover have "\<not> 16 \<le> n - 16" using n by simp
    ultimately show ?thesis using 3 n by (simp add: bit_signed_drop_bit_iff)
  qed
qed


lemma newSegment_clear: "newSegment ! wordIndex i AND idBit i = 0"
  using wordIndex_bound [of i] by (simp add: newSegment_def)

lemma loadOrStore_present: "segments (loadOrStore k s) k \<noteq> None"
  by (auto simp: loadOrStore_def split: option.splits)

lemma loadOrStore_contains: "containsID (loadOrStore k s) j = containsID s j"
  using newSegment_clear [of j] by (auto simp: loadOrStore_def containsID_def split: option.splits)

lemma loadOrStore_invar: "idInvar s \<Longrightarrow> idInvar (loadOrStore k s)"
  by (auto simp: idInvar_def loadOrStore_def newSegment_def split: option.splits if_splits)

lemma orBit_invar: "idInvar s \<Longrightarrow> idInvar (orBit i s)"
  by (auto simp: idInvar_def orBit_def split: option.splits if_splits)

lemma orBit_contains:
  assumes "idInvar s" and "segments s (segmentIndex i) \<noteq> None"
  shows "containsID (orBit i s) j \<longleftrightarrow> containsID s j \<or> (j = i \<and> 1 \<le> sint i)"
proof -
  obtain ws where ws: "segments s (segmentIndex i) = Some ws" and len: "length ws = idSegmentWords"
    using assms by (auto simp: idInvar_def)
  have "bit (ws[wordIndex i := ws ! wordIndex i OR idBit i] ! wordIndex j) (unat (segmentOffset j AND 63)) \<longleftrightarrow>
      bit (ws ! wordIndex j) (unat (segmentOffset j AND 63)) \<or>
      (wordIndex i = wordIndex j \<and> segmentOffset j AND 63 = segmentOffset i AND 63)"
    using wordIndex_bound [of i] len
    by (cases "wordIndex i = wordIndex j") (auto simp: bit_or_idBit)
  moreover have "segmentIndex j = segmentIndex i \<Longrightarrow> wordIndex i = wordIndex j \<Longrightarrow>
      segmentOffset j AND 63 = segmentOffset i AND 63 \<longleftrightarrow> j = i"
    using id_address_inject [of i j] by auto
  ultimately show ?thesis
    using ws by (cases "segmentIndex j = segmentIndex i"; cases "j = i")
      (simp_all add: containsID_def orBit_def and_idBit, blast?)
qed

lemma addID_invar: "idInvar s \<Longrightarrow> idInvar (addID i s)"
  by (simp add: addID_def orBit_invar loadOrStore_invar)

lemma addID_contains:
  "idInvar s \<Longrightarrow> containsID (addID i s) j \<longleftrightarrow> containsID s j \<or> (j = i \<and> 1 \<le> sint i)"
  by (auto simp: addID_def orBit_contains loadOrStore_present loadOrStore_invar loadOrStore_contains)

lemma emptyIDSet_invar [simp]: "idInvar emptyIDSet"
  by (simp add: idInvar_def emptyIDSet_def)

lemma emptyIDSet_contains [simp]: "\<not> containsID emptyIDSet i"
  by (simp add: containsID_def emptyIDSet_def)

interpretation ids: identifier_set emptyIDSet addID containsID "\<lambda>i. 1 \<le> sint i" idInvar
  by unfold_locales (auto simp: addID_contains addID_invar)

lemma resetIDSet_contains [simp]: "\<not> containsID (resetIDSet s) i" "idInvar (resetIDSet s)"
  by (simp_all add: resetIDSet_def containsID_def idInvar_def)

section \<open>Concurrent use\<close>

text \<open>
  \<open>Add\<close> runs on many goroutines at once. Its atomic steps are the \<open>Load\<close> of the segment, the
  \<open>LoadOrStore\<close> when the load missed, and the \<open>Or\<close> on the word; between them any other
  goroutine may run. A goroutine is where it stands in \<open>Add\<close> for its identifier.
\<close>

datatype addPC = Start | Missed | Loaded | Done

record addSys =
  shared :: idSet
  pc :: "nat \<Rightarrow> addPC"

inductive add_step :: "(nat \<Rightarrow> int32) \<Rightarrow> addSys \<Rightarrow> addSys \<Rightarrow> bool" for arg where
  reject: "pc c t = Start \<Longrightarrow> sint (arg t) < 1 \<Longrightarrow>
     add_step arg c (c\<lparr>pc := (pc c)(t := Done)\<rparr>)"
| load_hit: "pc c t = Start \<Longrightarrow> 1 \<le> sint (arg t) \<Longrightarrow>
     segments (shared c) (segmentIndex (arg t)) \<noteq> None \<Longrightarrow>
     add_step arg c (c\<lparr>pc := (pc c)(t := Loaded)\<rparr>)"
| load_miss: "pc c t = Start \<Longrightarrow> 1 \<le> sint (arg t) \<Longrightarrow>
     segments (shared c) (segmentIndex (arg t)) = None \<Longrightarrow>
     add_step arg c (c\<lparr>pc := (pc c)(t := Missed)\<rparr>)"
| store: "pc c t = Missed \<Longrightarrow>
     add_step arg c (c\<lparr>shared := loadOrStore (segmentIndex (arg t)) (shared c), pc := (pc c)(t := Loaded)\<rparr>)"
| or_bit: "pc c t = Loaded \<Longrightarrow>
     add_step arg c (c\<lparr>shared := orBit (arg t) (shared c), pc := (pc c)(t := Done)\<rparr>)"

inductive_cases add_stepE: "add_step arg c c'"

inductive add_reach :: "(nat \<Rightarrow> int32) \<Rightarrow> idSet \<Rightarrow> addSys \<Rightarrow> bool" for arg s0 where
  init: "add_reach arg s0 \<lparr>shared = s0, pc = (\<lambda>_. Start)\<rparr>"
| step: "add_reach arg s0 c \<Longrightarrow> add_step arg c c' \<Longrightarrow> add_reach arg s0 c'"

text \<open>The identifiers whose \<open>Add\<close> has returned.\<close>

definition doneIDs :: "(nat \<Rightarrow> int32) \<Rightarrow> addSys \<Rightarrow> int32 set" where
  "doneIDs arg c = {i. 1 \<le> sint i \<and> (\<exists>t. pc c t = Done \<and> arg t = i)}"

lemma doneIDs_pc:
  "pc c t \<noteq> Done \<Longrightarrow> doneIDs arg (c\<lparr>pc := (pc c)(t := x)\<rparr>) =
     (if x = Done \<and> 1 \<le> sint (arg t) then insert (arg t) (doneIDs arg c) else doneIDs arg c)"
  by (auto simp: doneIDs_def)

lemma doneIDs_shared [simp]: "doneIDs arg (c\<lparr>shared := s, pc := p\<rparr>) = doneIDs arg (c\<lparr>pc := p\<rparr>)"
  by (simp add: doneIDs_def)

text \<open>What every interleaving keeps: a goroutine past the load has its segment in the map, and
  the set holds the initial identifiers and those of the goroutines that are done.\<close>

definition add_inv :: "(nat \<Rightarrow> int32) \<Rightarrow> idSet \<Rightarrow> addSys \<Rightarrow> bool" where
  "add_inv arg s0 c \<longleftrightarrow>
     idInvar (shared c) \<and>
     (\<forall>t. pc c t = Loaded \<longrightarrow> segments (shared c) (segmentIndex (arg t)) \<noteq> None) \<and>
     (\<forall>t. pc c t = Missed \<or> pc c t = Loaded \<longrightarrow> 1 \<le> sint (arg t)) \<and>
     (\<forall>j. containsID (shared c) j \<longleftrightarrow> containsID s0 j \<or> j \<in> doneIDs arg c)"

lemma orBit_segments: "segments (orBit i s) k = None \<longleftrightarrow> segments s k = None"
  by (auto simp: orBit_def split: option.splits)

lemma loadOrStore_segments:
  "segments (loadOrStore k' s) k = None \<longleftrightarrow> segments s k = None \<and> k \<noteq> k'"
  by (auto simp: loadOrStore_def split: option.splits)

lemma add_step_inv: "add_step arg c c' \<Longrightarrow> add_inv arg s0 c \<Longrightarrow> add_inv arg s0 c'"
  unfolding add_inv_def
  by (induction rule: add_step.induct)
    (auto simp: doneIDs_pc orBit_invar orBit_segments orBit_contains loadOrStore_invar
      loadOrStore_contains loadOrStore_segments simp del: not_None_eq)

lemma add_reach_inv: "add_reach arg s0 c \<Longrightarrow> idInvar s0 \<Longrightarrow> add_inv arg s0 c"
proof (induction rule: add_reach.induct)
  case init
  then show ?case by (simp add: add_inv_def doneIDs_def)
qed (auto intro: add_step_inv)

section \<open>NameSet and the process-wide caches\<close>

record nameSet =
  names :: "string set option"

definition addName :: "string \<Rightarrow> nameSet \<Rightarrow> nameSet" where
  "addName n s =
     (let s' = (if names s = None then s\<lparr>names := Some {}\<rparr> else s)
      in s'\<lparr>names := map_option (insert n) (names s')\<rparr>)"

definition containsName :: "nameSet \<Rightarrow> string \<Rightarrow> bool" where
  "containsName s n = (case names s of None \<Rightarrow> False | Some ns \<Rightarrow> n \<in> ns)"

definition resetNameSet :: "nameSet \<Rightarrow> nameSet" where
  "resetNameSet s = s\<lparr>names := None\<rparr>"

definition emptyNameSet :: nameSet where
  "emptyNameSet = \<lparr>names = None\<rparr>"

interpretation nms: identifier_set emptyNameSet addName containsName "\<lambda>_. True" "\<lambda>_. True"
  by unfold_locales (auto simp: addName_def containsName_def emptyNameSet_def Let_def split: option.splits)

record caches =
  StyleNames :: nameSet
  GenreNames :: nameSet
  ArtistIDs :: idSet
  LabelIDs :: idSet
  MasterIDs :: idSet

definition resetIDs :: "caches \<Rightarrow> caches" where
  "resetIDs c = c\<lparr>ArtistIDs := resetIDSet (ArtistIDs c), LabelIDs := resetIDSet (LabelIDs c),
     MasterIDs := resetIDSet (MasterIDs c), StyleNames := resetNameSet (StyleNames c),
     GenreNames := resetNameSet (GenreNames c)\<rparr>"

definition emptyCaches :: caches where
  "emptyCaches = \<lparr>StyleNames = emptyNameSet, GenreNames = emptyNameSet, ArtistIDs = emptyIDSet,
     LabelIDs = emptyIDSet, MasterIDs = emptyIDSet\<rparr>"

lemma resetIDs_empty: "resetIDs c = emptyCaches"
  by (cases c) (auto simp: resetIDs_def emptyCaches_def resetIDSet_def resetNameSet_def emptyIDSet_def emptyNameSet_def)

section \<open>Properties\<close>

text \<open>After any sequence of \<open>Add\<close> calls an \<open>IDSet\<close> contains exactly the positive identifiers
  that were added: segment, word and bit never alias two identifiers, and identifiers below one
  are neither stored nor reported.\<close>

theorem idSet_holds_added:
  "containsID (fold addID is emptyIDSet) j \<longleftrightarrow> j \<in> set is \<and> 1 \<le> sint j"
  by (rule ids.contains_loaded)

text \<open>C35. No interleaving of the atomic steps of concurrent \<open>Add\<close> calls loses an update: in every
  reachable state the shared set contains exactly its initial identifiers and those whose \<open>Add\<close>
  has returned, even when two goroutines race to create the same segment.\<close>

theorem concurrent_adds_kept:
  assumes "add_reach arg s0 c" and "idInvar s0"
  shows "containsID (shared c) j \<longleftrightarrow> containsID s0 j \<or> j \<in> doneIDs arg c"
  using add_reach_inv [OF assms] by (simp add: add_inv_def)

text \<open>Two goroutines both miss the segment of identifiers 5 and 6, both store, both set their bit.\<close>

definition raceArg :: "nat \<Rightarrow> int32" where
  "raceArg t = (if t = 0 then 5 else 6)"

definition raceEnd :: addSys where
  "raceEnd = \<lparr>shared = orBit 6 (loadOrStore 0 (orBit 5 (loadOrStore 0 emptyIDSet))),
     pc = (\<lambda>_. Start)(0 := Missed, 1 := Missed, 0 := Loaded, 0 := Done, 1 := Loaded, 1 := Done)\<rparr>"

lemma raceEnd_reachable: "add_reach raceArg emptyIDSet raceEnd"
proof -
  have seg: "segmentIndex 5 = 0" "segmentIndex 6 = 0"
    by (simp_all add: segmentIndex_def id_consts)
  have "add_reach raceArg emptyIDSet \<lparr>shared = emptyIDSet, pc = (\<lambda>_. Start)\<rparr>"
    by (rule add_reach.init)
  from add_reach.step [OF this add_step.load_miss [of _ 0]]
  have "add_reach raceArg emptyIDSet \<lparr>shared = emptyIDSet, pc = (\<lambda>_. Start)(0 := Missed)\<rparr>"
    by (simp add: raceArg_def emptyIDSet_def)
  from add_reach.step [OF this add_step.load_miss [of _ 1]]
  have "add_reach raceArg emptyIDSet \<lparr>shared = emptyIDSet, pc = (\<lambda>_. Start)(0 := Missed, 1 := Missed)\<rparr>"
    by (simp add: raceArg_def emptyIDSet_def)
  from add_reach.step [OF this add_step.store [of _ 0]]
  have "add_reach raceArg emptyIDSet \<lparr>shared = loadOrStore 0 emptyIDSet,
      pc = (\<lambda>_. Start)(0 := Missed, 1 := Missed, 0 := Loaded)\<rparr>"
    by (simp add: raceArg_def seg)
  from add_reach.step [OF this add_step.or_bit [of _ 0]]
  have "add_reach raceArg emptyIDSet \<lparr>shared = orBit 5 (loadOrStore 0 emptyIDSet),
      pc = (\<lambda>_. Start)(0 := Missed, 1 := Missed, 0 := Loaded, 0 := Done)\<rparr>"
    by (simp add: raceArg_def)
  from add_reach.step [OF this add_step.store [of _ 1]]
  have "add_reach raceArg emptyIDSet \<lparr>shared = loadOrStore 0 (orBit 5 (loadOrStore 0 emptyIDSet)),
      pc = (\<lambda>_. Start)(0 := Missed, 1 := Missed, 0 := Loaded, 0 := Done, 1 := Loaded)\<rparr>"
    by (simp add: raceArg_def seg)
  from add_reach.step [OF this add_step.or_bit [of _ 1]]
  show ?thesis by (simp add: raceArg_def raceEnd_def)
qed

theorem concurrent_adds_kept_witness:
  "containsID (shared raceEnd) 5 \<and> containsID (shared raceEnd) 6 \<and> \<not> containsID (shared raceEnd) 7"
  by (simp add: concurrent_adds_kept [OF raceEnd_reachable emptyIDSet_invar])
    (auto simp: doneIDs_def raceEnd_def raceArg_def)

end
