(* ===== verification/Identity.thy ===== *)
theory Identity
  imports Sha256
begin

text \<open>
  The package \<open>src/relationidentity\<close>: the framed, domain-separated byte string whose SHA-256
  digest is the identity of a relation payload, and the deterministic fallback slots for
  colliding legacy hashes. The code writes the pieces to a running hash; the model builds the
  concatenation of the pieces and hashes it once, which is what a running hash computes.
\<close>

section \<open>Domains and relations\<close>

definition canonicalIdentityDomain :: string where
  "canonicalIdentityDomain = ''open-discogs/release-relation-identity/v1''"

definition compatibilitySlotDomain :: string where
  "compatibilitySlotDomain = ''open-discogs/release-relation-slot/v1''"

definition catalogIdentityDomain :: string where
  "catalogIdentityDomain = ''open-discogs/non-release-relation-identity/v1''"

definition catalogCompatibilityDomain :: string where
  "catalogCompatibilityDomain = ''open-discogs/non-release-relation-slot/v1''"

abbreviation nul :: char where "nul \<equiv> CHR 0x00"

definition fieldNull :: char where "fieldNull = CHR 0x00"
definition fieldPresent :: char where "fieldPresent = CHR 0x01"
definition domainSeparator :: char where "domainSeparator = CHR 0x00"

datatype catalogRelation = ArtistNameVariation | ArtistURL | LabelURL | MasterVideo

fun catalogRelationName :: "catalogRelation \<Rightarrow> string" where
  "catalogRelationName ArtistNameVariation = ''artist_name_variation''"
| "catalogRelationName ArtistURL = ''artist_url''"
| "catalogRelationName LabelURL = ''label_url''"
| "catalogRelationName MasterVideo = ''master_video''"

datatype relation = CreditedArtist | Format | Identifier | Image | Track | Video | Work

fun relationName :: "relation \<Rightarrow> string" where
  "relationName CreditedArtist = ''credited_artist''"
| "relationName Format = ''format''"
| "relationName Identifier = ''identifier''"
| "relationName Image = ''image''"
| "relationName Track = ''track''"
| "relationName Video = ''video''"
| "relationName Work = ''work''"

section \<open>Fields\<close>

record idField =
  fieldValue :: string
  fieldIsPresent :: bool

definition nullField :: idField where
  "nullField = \<lparr>fieldValue = [], fieldIsPresent = False\<rparr>"

definition isWhiteSpace :: "nat \<Rightarrow> bool" where
  "isWhiteSpace r \<longleftrightarrow>
     (if r \<in> {0x0009, 0x000A, 0x000B, 0x000C, 0x000D, 0x0020, 0x0085, 0x00A0, 0x1680,
              0x2028, 0x2029, 0x202F, 0x205F, 0x3000}
      then True else 0x2000 \<le> r \<and> r \<le> 0x200A)"

definition stringField :: "string option \<Rightarrow> idField" where
  "stringField v =
     (case v of
        None \<Rightarrow> nullField
      | Some s \<Rightarrow>
          (let normalized = trimFunc isWhiteSpace s
           in if normalized = [] then nullField else \<lparr>fieldValue = normalized, fieldIsPresent = True\<rparr>))"

definition int32Field :: "int32 option \<Rightarrow> idField" where
  "int32Field v =
     (case v of None \<Rightarrow> nullField | Some i \<Rightarrow> \<lparr>fieldValue = formatInt (sint i), fieldIsPresent = True\<rparr>)"

text \<open>The identity package's white space is exactly \<open>unicode.IsSpace\<close>, so a field and a column
  normalised by \<open>FilterStr\<close> carry the same text.\<close>

lemma isWhiteSpace_isSpace: "isWhiteSpace = isSpace"
  by (rule ext) (simp add: isWhiteSpace_def isSpace_def)

lemma stringField_filterStr:
  "stringField v = (case filterStr v of None \<Rightarrow> nullField | Some t \<Rightarrow> \<lparr>fieldValue = t, fieldIsPresent = True\<rparr>)"
  by (auto simp: stringField_def filterStr_def isWhiteSpace_isSpace trimSpace_def Let_def split: option.splits)

lemma stringField_inject: "stringField u = stringField v \<longleftrightarrow> filterStr u = filterStr v"
  by (auto simp: stringField_filterStr nullField_def split: option.splits)

section \<open>Framing\<close>

definition encodeField :: "idField \<Rightarrow> string" where
  "encodeField f =
     (if \<not> fieldIsPresent f then [fieldNull]
      else fieldPresent # bigEndian32 (int (length (fieldValue f)) mod 2 ^ 32) @ fieldValue f)"

definition header :: "string \<Rightarrow> string \<Rightarrow> string" where
  "header domain rel = domain @ [domainSeparator] @ rel @ [domainSeparator]"

definition identityFrame :: "string \<Rightarrow> string \<Rightarrow> idField list \<Rightarrow> string" where
  "identityFrame domain rel fs = header domain rel @ concat (map encodeField fs)"

type_synonym digest = string

definition sumOver :: "string \<Rightarrow> string \<Rightarrow> idField list \<Rightarrow> digest" where
  "sumOver domain rel fs = sha256 (identityFrame domain rel fs)"

definition relationSum :: "relation \<Rightarrow> idField list \<Rightarrow> digest" where
  "relationSum rel fs = sumOver canonicalIdentityDomain (relationName rel) fs"

definition catalogSum :: "catalogRelation \<Rightarrow> idField list \<Rightarrow> digest" where
  "catalogSum rel fs = sumOver catalogIdentityDomain (catalogRelationName rel) fs"

definition digestBytes :: "digest \<Rightarrow> string" where
  "digestBytes d = d"

definition digestFromBytes :: "string \<Rightarrow> digest \<times> bool" where
  "digestFromBytes v = (if length v \<noteq> 32 then (replicate 32 nul, False) else (v, True))"

definition slotFrame :: "string \<Rightarrow> string \<Rightarrow> digest \<Rightarrow> uint32 \<Rightarrow> string" where
  "slotFrame domain rel d attempt = header domain rel @ d @ bigEndian32 (uint attempt)"

definition slotOver :: "string \<Rightarrow> string \<Rightarrow> digest \<Rightarrow> uint32 \<Rightarrow> int32" where
  "slotOver domain rel d attempt = word32Of (take 4 (sha256 (slotFrame domain rel d attempt)))"

definition compatibilitySlot :: "relation \<Rightarrow> digest \<Rightarrow> uint32 \<Rightarrow> int32" where
  "compatibilitySlot rel d attempt = slotOver compatibilitySlotDomain (relationName rel) d attempt"

definition catalogCompatibilitySlot :: "catalogRelation \<Rightarrow> digest \<Rightarrow> uint32 \<Rightarrow> int32" where
  "catalogCompatibilitySlot rel d attempt =
     slotOver catalogCompatibilityDomain (catalogRelationName rel) d attempt"

section \<open>The framing loses nothing\<close>

text \<open>Fields the package can build: a null field has no text, a present one fits the 32-bit
  length prefix.\<close>

definition canonicalField :: "idField \<Rightarrow> bool" where
  "canonicalField f \<longleftrightarrow> (if fieldIsPresent f then length (fieldValue f) < 2 ^ 32 else fieldValue f = [])"

lemma stringField_canonical:
  "(\<And>s. v = Some s \<Longrightarrow> length (trimSpace s) < 2 ^ 32) \<Longrightarrow> canonicalField (stringField v)"
  by (auto simp: stringField_filterStr canonicalField_def nullField_def filterStr_Some split: option.splits)

lemma encodeField_Cons:
  "encodeField f = (if fieldIsPresent f then fieldPresent # bigEndian32 (int (length (fieldValue f)) mod 2 ^ 32) @ fieldValue f
     else [fieldNull])"
  by (simp add: encodeField_def)

lemma encodeField_not_Nil [simp]: "encodeField f \<noteq> []"
  by (simp add: encodeField_def)

lemma encodeField_split:
  assumes f: "canonicalField f" and g: "canonicalField g"
    and eq: "encodeField f @ r = encodeField g @ s"
  shows "f = g \<and> r = s"
proof (cases "fieldIsPresent f")
  case False
  with eq have "\<not> fieldIsPresent g"
    by (auto simp: encodeField_Cons fieldNull_def fieldPresent_def split: if_splits)
  with False eq f g show ?thesis
    by (cases f; cases g) (auto simp: encodeField_Cons canonicalField_def)
next
  case True
  with eq have pg: "fieldIsPresent g"
    by (auto simp: encodeField_Cons fieldNull_def fieldPresent_def split: if_splits)
  have lf: "int (length (fieldValue f)) mod 2 ^ 32 = int (length (fieldValue f))"
    using f True by (simp add: canonicalField_def)
  have lg: "int (length (fieldValue g)) mod 2 ^ 32 = int (length (fieldValue g))"
    using g pg by (simp add: canonicalField_def)
  have eq': "bigEndian32 (int (length (fieldValue f))) @ fieldValue f @ r = bigEndian32 (int (length (fieldValue g))) @ fieldValue g @ s"
    using eq True pg lf lg by (simp add: encodeField_Cons)
  then have "bigEndian32 (int (length (fieldValue f))) = bigEndian32 (int (length (fieldValue g)))"
    and rest: "fieldValue f @ r = fieldValue g @ s"
    by (auto simp: append_eq_append_conv)
  then have "length (fieldValue f) = length (fieldValue g)"
    using bigEndian32_inject f g True pg by (simp add: canonicalField_def)
  with rest True pg show ?thesis
    by (cases f; cases g) auto
qed

lemma encodeFields_inject:
  assumes "\<forall>f \<in> set fs. canonicalField f" and "\<forall>g \<in> set gs. canonicalField g"
    and "concat (map encodeField fs) = concat (map encodeField gs)"
  shows "fs = gs"
  using assms
proof (induction fs arbitrary: gs)
  case Nil
  then show ?case by (cases gs) auto
next
  case (Cons f fs)
  from Cons.prems(3) have "gs \<noteq> []" by auto
  then obtain g gs' where gs: "gs = g # gs'" by (meson neq_Nil_conv)
  have "canonicalField f" "canonicalField g"
    "encodeField f @ concat (map encodeField fs) = encodeField g @ concat (map encodeField gs')"
    using Cons.prems gs by simp_all
  then have "f = g \<and> concat (map encodeField fs) = concat (map encodeField gs')"
    by (rule encodeField_split)
  moreover from this have "fs = gs'"
    using Cons.prems gs by (intro Cons.IH) simp_all
  ultimately show ?case by (simp add: gs)
qed

lemma nul_split:
  assumes "nul \<notin> set a" and "nul \<notin> set b" and "a @ nul # r = b @ nul # s"
  shows "a = b \<and> r = s"
proof -
  have cut: "nul \<notin> set x \<Longrightarrow> takeWhile (\<lambda>c. c \<noteq> nul) (x @ nul # y) = x" for x y
    by (induction x) auto
  have "a = b" using cut [OF assms(1)] cut [OF assms(2)] assms(3) by metis
  with assms(3) show ?thesis by simp
qed

lemma header_split:
  assumes "nul \<notin> set d" "nul \<notin> set d'" "nul \<notin> set r" "nul \<notin> set r'"
    and "header d r @ x = header d' r' @ y"
  shows "d = d' \<and> r = r' \<and> x = y"
proof -
  have "d @ nul # (r @ nul # x) = d' @ nul # (r' @ nul # y)"
    using assms(5) by (simp add: header_def domainSeparator_def)
  then have "d = d'" and "r @ nul # x = r' @ nul # y"
    using nul_split [OF assms(1,2)] by auto
  then show ?thesis using nul_split [OF assms(3,4)] by auto
qed

lemma relationName_nul [simp]: "nul \<notin> set (relationName r)"
  by (cases r) auto

lemma catalogRelationName_nul [simp]: "nul \<notin> set (catalogRelationName r)"
  by (cases r) auto

lemma domains_nul [simp]:
  "nul \<notin> set canonicalIdentityDomain" "nul \<notin> set compatibilitySlotDomain"
  "nul \<notin> set catalogIdentityDomain" "nul \<notin> set catalogCompatibilityDomain"
  by (simp_all add: canonicalIdentityDomain_def compatibilitySlotDomain_def
      catalogIdentityDomain_def catalogCompatibilityDomain_def)

lemma relationName_inject [simp]: "relationName r = relationName r' \<longleftrightarrow> r = r'"
  by (cases r; cases r') auto

lemma catalogRelationName_inject [simp]: "catalogRelationName r = catalogRelationName r' \<longleftrightarrow> r = r'"
  by (cases r; cases r') auto

lemma domains_distinct:
  "canonicalIdentityDomain \<noteq> compatibilitySlotDomain" "canonicalIdentityDomain \<noteq> catalogIdentityDomain"
  "canonicalIdentityDomain \<noteq> catalogCompatibilityDomain" "compatibilitySlotDomain \<noteq> catalogIdentityDomain"
  "compatibilitySlotDomain \<noteq> catalogCompatibilityDomain" "catalogIdentityDomain \<noteq> catalogCompatibilityDomain"
  by (simp_all add: canonicalIdentityDomain_def compatibilitySlotDomain_def
      catalogIdentityDomain_def catalogCompatibilityDomain_def)

lemma identityFrame_inject:
  assumes "nul \<notin> set d" "nul \<notin> set d'" "nul \<notin> set r" "nul \<notin> set r'"
    and "\<forall>f \<in> set fs. canonicalField f" and "\<forall>g \<in> set gs. canonicalField g"
    and "identityFrame d r fs = identityFrame d' r' gs"
  shows "d = d' \<and> r = r' \<and> fs = gs"
  using header_split [OF assms(1-4)] encodeFields_inject [OF assms(5,6)] assms(7)
  by (auto simp: identityFrame_def)

lemma slotFrame_inject:
  assumes "nul \<notin> set d" "nul \<notin> set d'" "nul \<notin> set r" "nul \<notin> set r'"
    and "length x = length y" and "slotFrame d r x a = slotFrame d' r' y b"
  shows "d = d' \<and> r = r' \<and> x = y \<and> a = b"
proof -
  have "d = d' \<and> r = r' \<and> x @ bigEndian32 (uint a) = y @ bigEndian32 (uint b)"
    using header_split [OF assms(1-4)] assms(6) by (auto simp: slotFrame_def)
  moreover from this have "x = y" "bigEndian32 (uint a) = bigEndian32 (uint b)"
    using assms(5) by (auto simp: append_eq_append_conv)
  moreover have "a = b"
    using calculation(3) bigEndian32_inject [of "uint a" "uint b"] uint_bounded [of a] uint_bounded [of b]
    by (simp add: word_uint_eq_iff)
  ultimately show ?thesis by simp
qed

section \<open>Properties\<close>

text \<open>C34. The bytes hashed for a payload determine it: for framable fields, equal frames have the
  same relation and the same fields in the same order, so only a SHA-256 collision could give two
  payloads one digest.\<close>

theorem identity_frame_faithful:
  assumes "\<forall>f \<in> set fs. canonicalField f" and "\<forall>g \<in> set gs. canonicalField g"
    and "identityFrame canonicalIdentityDomain (relationName r) fs =
         identityFrame canonicalIdentityDomain (relationName r') gs"
  shows "r = r' \<and> fs = gs"
  using identityFrame_inject [OF _ _ _ _ assms] by simp

theorem identity_frame_faithful_witness:
  "\<not> (identityFrame canonicalIdentityDomain (relationName Video)
        [stringField (Some '' a''), stringField (Some ''b'')] =
      identityFrame canonicalIdentityDomain (relationName Video)
        [stringField (Some ''a b''), nullField])"
  by (rule notI, drule identity_frame_faithful [rotated 2])
    (simp_all add: canonicalField_def stringField_def nullField_def trimFunc_def trimList_def
      chunks.simps decodeRune_def isWhiteSpace_def)

text \<open>Slot frames, too, determine their domain, relation, digest and attempt, and the slot
  domains are not identity domains: no attempt of one payload hashes the bytes of another.\<close>

theorem slot_frame_faithful:
  assumes "length d = length d'"
    and "slotFrame compatibilitySlotDomain (relationName r) d a =
         slotFrame compatibilitySlotDomain (relationName r') d' b"
  shows "r = r' \<and> d = d' \<and> a = b"
  using slotFrame_inject [OF _ _ _ _ assms] by simp

theorem slot_frame_faithful_witness:
  "slotFrame compatibilitySlotDomain (relationName Track) (replicate 32 nul) 0 \<noteq>
   slotFrame compatibilitySlotDomain (relationName Track) (replicate 32 nul) 1"
  by (rule notI, drule slot_frame_faithful [rotated 1]) simp_all

end
