(* ===== verification/Quantity.thy ===== *)
theory Quantity
  imports Helper
begin

text \<open>
  Release format quantities (\<open>canonicalReleaseFormatQuantity\<close> in
  \<open>src/batch/release_dedupe.go\<close> and the XML attribute type \<open>XmlFormatQuantity\<close> in
  \<open>src/batch/xml.go\<close>): a decimal of any length is kept as canonical text, and as an \<open>int32\<close>
  too when it fits. The bound is tested on the text, so no arithmetic can overflow.
\<close>

definition maxInt32Decimal :: string where
  "maxInt32Decimal = ''2147483647''"

datatype quantityError =
    QuantityEmpty | NonDecimalCharacter | QuantityNegative | QuantityTextInvalid
  | QuantityMismatch | OversizedWithInteger

text \<open>The scan over leading zeros, which keeps the last character.\<close>

fun stripZeros :: "string \<Rightarrow> string" where
  "stripZeros (c # c' # cs) = (if c = CHR ''0'' then stripZeros (c' # cs) else c # c' # cs)"
| "stripZeros s = s"

definition wrapDecimal :: "string \<Rightarrow> int32" where
  "wrapDecimal s = foldl (\<lambda>v c. v * 10 + of_nat (digitVal c)) 0 s"

definition canonicalReleaseFormatQuantity :: "string \<Rightarrow> quantityError + string \<times> int32 option" where
  "canonicalReleaseFormatQuantity v =
     (if v = [] then Inl QuantityEmpty
      else if \<not> list_all isDigit v then Inl NonDecimalCharacter
      else (let canonical = stripZeros v
            in if length canonical > length maxInt32Decimal
                 \<or> (length canonical = length maxInt32Decimal \<and> canonical > maxInt32Decimal)
               then Inr (canonical, None)
               else Inr (canonical, Some (wrapDecimal canonical))))"

section \<open>The XML attribute\<close>

record xmlFormatQuantity =
  qCanonical :: string
  qInteger :: "int32 option"
  qPresent :: bool

definition zeroQuantity :: xmlFormatQuantity where
  "zeroQuantity = \<lparr>qCanonical = [], qInteger = None, qPresent = False\<rparr>"

definition unmarshalQuantity :: "string \<Rightarrow> xmlFormatQuantity \<Rightarrow> quantityError + xmlFormatQuantity" where
  "unmarshalQuantity attr q =
     (let normalized = trimSpace attr
      in if normalized = [] then Inr q
         else case canonicalReleaseFormatQuantity normalized of
           Inl _ \<Rightarrow> Inl QuantityTextInvalid
         | Inr (canonical, integer) \<Rightarrow>
             Inr (q\<lparr>qCanonical := canonical, qPresent := True, qInteger := integer\<rparr>))"

definition quantityCanonical :: "xmlFormatQuantity \<Rightarrow> string option" where
  "quantityCanonical q = (if \<not> qPresent q then None else Some (qCanonical q))"

definition quantityInteger :: "xmlFormatQuantity \<Rightarrow> int32 option" where
  "quantityInteger q = qInteger q"

definition newXmlFormatQuantity :: "int32 \<Rightarrow> xmlFormatQuantity" where
  "newXmlFormatQuantity v = \<lparr>qCanonical = formatInt (sint v), qInteger = Some v, qPresent = True\<rparr>"

section \<open>Leading zeros\<close>

lemma decVal_Cons: "decVal (c # s) = digitVal c * 10 ^ length s + decVal s"
proof (induction s rule: rev_induct)
  case Nil
  then show ?case by (simp add: decVal_def)
next
  case (snoc d s)
  have "decVal (c # s @ [d]) = decVal (c # s) * 10 + digitVal d"
    using decVal_snoc [of "c # s" d] by simp
  with snoc show ?case by (simp add: decVal_snoc)
qed

lemma digitVal_zero [simp]: "digitVal CHR ''0'' = 0"
  by (simp add: digitVal_def)

lemma decVal_stripZeros [simp]: "decVal (stripZeros s) = decVal s"
  by (induction s rule: stripZeros.induct) (auto simp: decVal_Cons)

lemma stripZeros_digits: "list_all isDigit s \<Longrightarrow> list_all isDigit (stripZeros s)"
  by (induction s rule: stripZeros.induct) auto

lemma stripZeros_Nil_iff [simp]: "stripZeros s = [] \<longleftrightarrow> s = []"
  by (induction s rule: stripZeros.induct) auto

lemma stripZeros_idem [simp]: "stripZeros (stripZeros s) = stripZeros s"
  by (induction s rule: stripZeros.induct) auto

definition noLeadingZero :: "string \<Rightarrow> bool" where
  "noLeadingZero s \<longleftrightarrow> length s = 1 \<or> s \<noteq> [] \<and> hd s \<noteq> CHR ''0''"

lemma noLeadingZero_stripZeros: "s \<noteq> [] \<Longrightarrow> noLeadingZero (stripZeros s)"
  by (induction s rule: stripZeros.induct) (auto simp: noLeadingZero_def)

section \<open>Text order is number order\<close>

lemma digitVal_zero_iff: "isDigit c \<Longrightarrow> digitVal c = 0 \<longleftrightarrow> c = CHR ''0''"
  using digitChar_digitVal [of c] digitChar_digitVal [of "CHR ''0''"]
  by (auto simp: isDigit_def)

lemma digitVal_order: "isDigit c \<Longrightarrow> isDigit d \<Longrightarrow> c < d \<longleftrightarrow> digitVal c < digitVal d"
  by (auto simp: isDigit_def digitVal_def less_char_def)

lemma digitVal_eq: "isDigit c \<Longrightarrow> isDigit d \<Longrightarrow> digitVal c = digitVal d \<longleftrightarrow> c = d"
  by (metis digitChar_digitVal)

lemma decVal_bound: "list_all isDigit s \<Longrightarrow> decVal s < 10 ^ length s"
proof (induction s)
  case Nil
  then show ?case by (simp add: decVal_def)
next
  case (Cons c s)
  then have "digitVal c \<le> 9" "decVal s < 10 ^ length s"
    using digitVal_less [of c] by auto
  then have "digitVal c * 10 ^ length s + decVal s < 9 * 10 ^ length s + 10 ^ length s"
    by (intro add_le_less_mono mult_right_mono) auto
  then show ?case by (simp add: decVal_Cons)
qed

lemma scaled_less:
  fixes p q x y B :: nat
  assumes "x < B" and "y < B"
  shows "p * B + x < q * B + y \<longleftrightarrow> p < q \<or> (p = q \<and> x < y)"
proof (cases p q rule: linorder_cases)
  case less
  then have "Suc p * B \<le> q * B" by (intro mult_right_mono) auto
  with assms less show ?thesis by auto
next
  case greater
  then have "Suc q * B \<le> p * B" by (intro mult_right_mono) auto
  with assms greater show ?thesis by auto
qed simp

lemma text_order:
  assumes "length s = length t" and "list_all isDigit s" and "list_all isDigit t"
  shows "s < t \<longleftrightarrow> decVal s < decVal t"
  using assms
proof (induction s t rule: list_induct2)
  case Nil
  then show ?case by (simp add: decVal_def)
next
  case (Cons c s d t)
  then have "decVal s < 10 ^ length t" "decVal t < 10 ^ length t"
    using decVal_bound [of s] decVal_bound [of t] by simp_all
  then have "decVal (c # s) < decVal (d # t) \<longleftrightarrow>
      digitVal c < digitVal d \<or> (digitVal c = digitVal d \<and> decVal s < decVal t)"
    using Cons.hyps by (simp add: decVal_Cons scaled_less)
  with Cons show ?case by (simp add: digitVal_order digitVal_eq)
qed

lemma long_text:
  assumes "list_all isDigit s" and "noLeadingZero s" and "n < length s" and "0 < n"
  shows "10 ^ n \<le> decVal s"
proof -
  obtain c r where s: "s = c # r" using assms by (cases s) auto
  have "c \<noteq> CHR ''0''" using assms s by (auto simp: noLeadingZero_def)
  then have "1 \<le> digitVal c" using assms(1) s digitVal_zero_iff [of c] by (simp add: Suc_le_eq)
  then have "1 * 10 ^ length r \<le> digitVal c * 10 ^ length r" by (intro mult_right_mono) auto
  moreover have "10 ^ n \<le> (10 :: nat) ^ length r" using assms s by (intro power_increasing) auto
  ultimately have "10 ^ n \<le> digitVal c * 10 ^ length r" by linarith
  then show ?thesis by (simp add: s decVal_Cons)
qed

lemma decVal_max: "decVal maxInt32Decimal = 2 ^ 31 - 1"
  by (simp add: decVal_def maxInt32Decimal_def digitVal_def)

lemma max_digits: "list_all isDigit maxInt32Decimal" "length maxInt32Decimal = 10"
  by (simp_all add: maxInt32Decimal_def isDigit_def)

lemma oversize_iff:
  assumes "list_all isDigit s" and "noLeadingZero s"
  shows "length s > length maxInt32Decimal \<or> (length s = length maxInt32Decimal \<and> s > maxInt32Decimal)
    \<longleftrightarrow> decVal s > 2 ^ 31 - 1"
proof -
  consider "length s > 10" | "length s = 10" | "length s < 10" by linarith
  then show ?thesis
  proof cases
    case 1
    then have "10 ^ 10 \<le> decVal s" using long_text [OF assms, of 10] by simp
    with 1 show ?thesis by (simp add: max_digits)
  next
    case 2
    then show ?thesis
      using text_order [of maxInt32Decimal s] assms max_digits decVal_max by simp
  next
    case 3
    have "decVal s < 10 ^ length s" using assms by (intro decVal_bound)
    also have "\<dots> \<le> 10 ^ 9" using 3 by (intro power_increasing) auto
    finally show ?thesis using 3 by (simp add: max_digits)
  qed
qed

lemma wrapDecimal_eq: "wrapDecimal s = of_nat (decVal s)"
proof -
  have "foldl (\<lambda>v c. v * 10 + of_nat (digitVal c)) (of_nat m :: int32) s =
      of_nat (foldl (\<lambda>v c. v * 10 + digitVal c) m s)" for m
  proof (induction s arbitrary: m)
    case (Cons c s)
    have "of_nat m * 10 + of_nat (digitVal c) = (of_nat (m * 10 + digitVal c) :: int32)" by simp
    then show ?case by (simp only: foldl.simps Cons.IH)
  qed simp
  from this [of 0] show ?thesis by (simp add: wrapDecimal_def decVal_def)
qed

lemma sint_of_small: "n \<le> 2 ^ 31 - 1 \<Longrightarrow> sint (of_nat n :: int32) = int n"
proof -
  assume "n \<le> 2 ^ 31 - 1"
  then have "signed_take_bit 31 (int n) = int n"
    by (intro signed_take_bit_int_eq_self) auto
  then show ?thesis by (simp add: signed_of_nat)
qed

lemma sint_wrapDecimal:
  "decVal s \<le> 2 ^ 31 - 1 \<Longrightarrow> sint (wrapDecimal s) = int (decVal s)"
  by (simp add: wrapDecimal_eq sint_of_small)

lemma canonicalQuantity_cases:
  assumes "canonicalReleaseFormatQuantity v = Inr (t, i)"
  shows "list_all isDigit t \<and> noLeadingZero t \<and> decVal t = decVal v \<and>
    i = (if decVal v \<le> 2 ^ 31 - 1 then Some (of_nat (decVal v)) else None)"
proof -
  have v: "v \<noteq> []" "list_all isDigit v" and t: "t = stripZeros v"
    using assms by (auto simp: canonicalReleaseFormatQuantity_def Let_def split: if_splits)
  have "list_all isDigit (stripZeros v)" "noLeadingZero (stripZeros v)"
    using v by (simp_all add: stripZeros_digits noLeadingZero_stripZeros)
  then show ?thesis
    using assms v t oversize_iff [of t]
    by (auto simp: canonicalReleaseFormatQuantity_def Let_def wrapDecimal_eq split: if_splits)
qed

section \<open>Properties\<close>

text \<open>A quantity is accepted exactly when it is a non-empty run of digits; its canonical text
  has the same numeric value and no superfluous leading zero, and the 32-bit integer is present
  exactly when that value is at most 2147483647, and then equals it.\<close>

theorem canonical_quantity_exact:
  "case canonicalReleaseFormatQuantity v of
     Inl e \<Rightarrow> v = [] \<or> (\<exists>c \<in> set v. \<not> isDigit c)
   | Inr (t, i) \<Rightarrow>
       v \<noteq> [] \<and> list_all isDigit t \<and> noLeadingZero t \<and> decVal t = decVal v \<and>
       (case i of
          Some n \<Rightarrow> decVal v \<le> 2147483647 \<and> sint n = int (decVal v)
        | None \<Rightarrow> 2147483647 < decVal v)"
proof (cases "canonicalReleaseFormatQuantity v")
  case (Inl e)
  then show ?thesis
    by (auto simp: canonicalReleaseFormatQuantity_def Let_def list_all_iff split: if_splits)
next
  case (Inr r)
  obtain t i where r: "r = (t, i)" by (cases r) auto
  have "v \<noteq> []" using Inr by (auto simp: canonicalReleaseFormatQuantity_def)
  with canonicalQuantity_cases [of v t i] Inr r show ?thesis
    by (auto simp: sint_of_small)
qed

end
