(* ===== verification/Rows.thy ===== *)
theory Rows
  imports Identity Quantity Date_Parser
begin

text \<open>
  The rows the importer writes, one record per table, with the columns that
  \<open>src/batch/xml.go\<close> fills (the structs themselves are generated in the schema module). A
  pointer column is an option; \<open>Identity\<close> is the SHA-256 column; a time is its instant in
  nanoseconds, a release date its year, month and day.
\<close>

type_synonym time = int
type_synonym int16 = "16 word"
type_synonym ymd = "nat \<times> nat \<times> nat"

record artistRow =
  arID :: int32
  arCreatedAt :: time
  arLastModifiedAt :: time
  arDataQuality :: "string option"
  arName :: "string option"
  arProfile :: "string option"
  arRealName :: "string option"

record artistURLRow =
  auArtistID :: int32
  auHash :: int32
  auURL :: string
  auIdentity :: "digest option"
  auLastModifiedAt :: time

record artistNameVariationRow =
  avArtistID :: int32
  avNameVariation :: string
  avHash :: int32
  avIdentity :: "digest option"
  avLastModifiedAt :: time

record artistAliasRow =
  aaArtistID :: int32
  aaAliasID :: int32
  aaLastModifiedAt :: time

record artistGroupRow =
  agArtistID :: int32
  agGroupID :: int32
  agLastModifiedAt :: time

record artistMemberRow =
  amArtistID :: int32
  amMemberID :: int32
  amLastModifiedAt :: time

record labelRow =
  laID :: int32
  laCreatedAt :: time
  laLastModifiedAt :: time
  laName :: "string option"
  laContactInfo :: "string option"
  laProfile :: "string option"
  laDataQuality :: "string option"

record labelURLRow =
  luLabelID :: int32
  luHash :: int32
  luURL :: string
  luIdentity :: "digest option"
  luLastModifiedAt :: time

record labelSubLabelRow =
  lsParentLabelID :: int32
  lsSubLabelID :: int32
  lsLastModifiedAt :: time

record masterRow =
  maID :: int32
  maCreatedAt :: time
  maLastModifiedAt :: time
  maTitle :: "string option"
  maDataQuality :: "string option"
  maYear :: "int16 option"
  maMainReleaseID :: "int32 option"

record masterStyleRow =
  msMasterID :: int32
  msStyle :: string
  msLastModifiedAt :: time

record masterGenreRow =
  mgMasterID :: int32
  mgGenre :: string
  mgLastModifiedAt :: time

record masterVideoRow =
  mvMasterID :: int32
  mvHash :: int32
  mvURL :: "string option"
  mvDescription :: "string option"
  mvTitle :: "string option"
  mvIdentity :: "digest option"
  mvLastModifiedAt :: time

record masterArtistRow =
  mtArtistID :: int32
  mtMasterID :: int32
  mtLastModifiedAt :: time

record releaseItemRow =
  riID :: int32
  riCreatedAt :: time
  riLastModifiedAt :: time
  riTitle :: "string option"
  riCountry :: "string option"
  riDataQuality :: "string option"
  riReleaseDate :: "ymd option"
  riHasValidYear :: "bool option"
  riHasValidMonth :: "bool option"
  riHasValidDay :: "bool option"
  riListedReleaseDate :: "string option"
  riIsMaster :: "bool option"
  riMasterID :: "int32 option"
  riNotes :: "string option"
  riStatus :: "string option"

record releaseArtistRow =
  rtReleaseItemID :: int32
  rtArtistID :: int32
  rtLastModifiedAt :: time

record releaseCreditedArtistRow =
  rcReleaseItemID :: int32
  rcArtistID :: int32
  rcRole :: "string option"
  rcHash :: int32
  rcIdentity :: "digest option"
  rcLastModifiedAt :: time

record releaseWorkRow =
  rwReleaseItemID :: int32
  rwLabelID :: int32
  rwWork :: "string option"
  rwHash :: int32
  rwIdentity :: "digest option"
  rwLastModifiedAt :: time

record releaseStyleRow =
  rsReleaseItemID :: int32
  rsStyle :: string
  rsLastModifiedAt :: time

record releaseGenreRow =
  rgReleaseItemID :: int32
  rgGenre :: string
  rgLastModifiedAt :: time

record labelReleaseRow =
  lrLabelID :: int32
  lrReleaseItemID :: int32
  lrCategoryNotation :: "string option"
  lrLastModifiedAt :: time

record releaseFormatRow =
  rfReleaseItemID :: int32
  rfDescription :: "string option"
  rfName :: "string option"
  rfQuantity :: "int32 option"
  rfQuantityText :: "string option"
  rfText :: "string option"
  rfHash :: int32
  rfIdentity :: "digest option"
  rfLastModifiedAt :: time

record releaseIdentifierRow =
  rdReleaseItemID :: int32
  rdDescription :: "string option"
  rdType :: "string option"
  rdValue :: "string option"
  rdHash :: int32
  rdIdentity :: "digest option"
  rdLastModifiedAt :: time

record releaseImageRow =
  rmReleaseItemID :: int32
  rmHash :: int32
  rmFileName :: "string option"

record releaseTrackRow =
  rkReleaseItemID :: int32
  rkDuration :: "string option"
  rkPosition :: "string option"
  rkTitle :: "string option"
  rkHash :: int32
  rkIdentity :: "digest option"
  rkLastModifiedAt :: time

record releaseVideoRow =
  rvReleaseItemID :: int32
  rvDescription :: "string option"
  rvTitle :: "string option"
  rvURL :: "string option"
  rvHash :: int32
  rvIdentity :: "digest option"
  rvLastModifiedAt :: time

record genreRow =
  gnName :: string

record styleRow =
  syName :: string

end
