(* ===== verification/Dedupe.thy ===== *)
theory Dedupe
  imports Identity Quantity "HOL-Library.Multiset"
begin

text \<open>
  The generic routines of \<open>src/batch/release_dedupe.go\<close> (and \<open>deduplicateComparable\<close> of
  \<open>canonical_rows.go\<close>): removing repeated rows of a chunk by key or by SHA-256 identity, and
  giving rows whose legacy 32-bit hashes collide deterministic distinct slots.

  Rows are passed as slices of pointers, so a slice is a list of \<open>'r option\<close>. The rows kept are
  appended to \<open>deduplicated\<close>; a pointer into them is an index of that list. \<open>setIdentity\<close> writes
  through such a pointer: the allocator returns its calls in order and they are applied to the
  kept rows. Go's map iteration order is a parameter of the model where it could matter.
\<close>

datatype dedupeError =
    NilRow string nat
  | ConflictingPayload string digest
  | ConflictingLegacyHash string digest
  | SlotsExhausted string
  | ConflictingRows string
  | InvalidQuantity nat quantityError

section \<open>Rows with a canonical key\<close>

fun canonicalLoop ::
  "string \<Rightarrow> ('r \<Rightarrow> 'k) \<Rightarrow> ('r \<Rightarrow> 'r \<Rightarrow> bool) \<Rightarrow> nat \<Rightarrow> 'r option list \<Rightarrow> ('k \<rightharpoonup> 'r) \<Rightarrow> 'r list
     \<Rightarrow> dedupeError + 'r list" where
  "canonicalLoop table key equalPayload index [] seen deduplicated = Inr deduplicated"
| "canonicalLoop table key equalPayload index (None # items) seen deduplicated = Inl (NilRow table index)"
| "canonicalLoop table key equalPayload index (Some item # items) seen deduplicated =
     (case seen (key item) of
        None \<Rightarrow>
          canonicalLoop table key equalPayload (Suc index) items
            (seen(key item \<mapsto> item)) (deduplicated @ [item])
      | Some previous \<Rightarrow>
          if \<not> equalPayload previous item then Inl (ConflictingRows table)
          else canonicalLoop table key equalPayload (Suc index) items seen deduplicated)"

definition deduplicateCanonicalRows ::
  "string \<Rightarrow> 'r option list \<Rightarrow> ('r \<Rightarrow> 'k) \<Rightarrow> ('r \<Rightarrow> 'r \<Rightarrow> bool) \<Rightarrow> dedupeError + 'r list" where
  "deduplicateCanonicalRows table items key equalPayload =
     canonicalLoop table key equalPayload 0 items Map.empty []"

fun comparableLoop :: "'a list \<Rightarrow> 'a set \<Rightarrow> 'a list \<Rightarrow> 'a list" where
  "comparableLoop [] seen deduplicated = deduplicated"
| "comparableLoop (item # items) seen deduplicated =
     (if item \<in> seen then comparableLoop items seen deduplicated
      else comparableLoop items (insert item seen) (deduplicated @ [item]))"

definition deduplicateComparable :: "'a list \<Rightarrow> 'a list" where
  "deduplicateComparable items = comparableLoop items {} []"

text \<open>The reference: the first occurrence of every key.\<close>

fun firstsBy :: "('r \<Rightarrow> 'k) \<Rightarrow> 'k set \<Rightarrow> 'r list \<Rightarrow> 'r list" where
  "firstsBy key ks [] = []"
| "firstsBy key ks (r # rs) =
     (if key r \<in> ks then firstsBy key ks rs else r # firstsBy key (insert (key r) ks) rs)"

lemma firstsBy_keys: "key ` set (firstsBy key ks rs) = key ` set rs - ks"
  by (induction rs arbitrary: ks) auto

lemma firstsBy_subset: "set (firstsBy key ks rs) \<subseteq> set rs"
  by (induction rs arbitrary: ks) (auto split: if_splits)

lemma firstsBy_distinct: "distinct (map key (firstsBy key ks rs))"
proof (induction rs arbitrary: ks)
  case (Cons r rs)
  have "key r \<notin> key ` set (firstsBy key (insert (key r) ks) rs)"
    by (simp only: firstsBy_keys) simp
  with Cons show ?case by simp
qed simp

lemma comparableLoop_eq: "comparableLoop items seen acc = acc @ firstsBy id seen items"
  by (induction items seen acc rule: comparableLoop.induct) auto

lemma deduplicateComparable_eq: "deduplicateComparable items = firstsBy id {} items"
  by (simp add: deduplicateComparable_def comparableLoop_eq)

lemma deduplicateComparable_set [simp]: "set (deduplicateComparable items) = set items"
  using firstsBy_keys [of id "{}" items] by (simp add: deduplicateComparable_eq)

lemma deduplicateComparable_distinct [simp]: "distinct (deduplicateComparable items)"
  using firstsBy_distinct [of id "{}" items] by (simp add: deduplicateComparable_eq)

lemma agree_Cons:
  assumes none: "seen (key r) = None"
  shows "((\<forall>x \<in> set rs. \<forall>p. (seen(key r \<mapsto> r)) (key x) = Some p \<longrightarrow> content p = content x) \<and>
      (\<forall>x \<in> set rs. \<forall>y \<in> set rs. key x = key y \<longrightarrow> content x = content y)) \<longleftrightarrow>
    (\<forall>x \<in> set (r # rs). \<forall>p. seen (key x) = Some p \<longrightarrow> content p = content x) \<and>
      (\<forall>x \<in> set (r # rs). \<forall>y \<in> set (r # rs). key x = key y \<longrightarrow> content x = content y)"
    (is "?A \<and> ?B \<longleftrightarrow> ?C \<and> ?D")
proof -
  have "?A \<longleftrightarrow> (\<forall>x \<in> set rs. key x = key r \<longrightarrow> content r = content x) \<and>
      (\<forall>x \<in> set rs. \<forall>p. seen (key x) = Some p \<longrightarrow> content p = content x)"
    using none by (auto split: if_splits)
  moreover have "?C \<longleftrightarrow> (\<forall>x \<in> set rs. \<forall>p. seen (key x) = Some p \<longrightarrow> content p = content x)"
    using none by simp
  moreover have "?D \<longleftrightarrow> (\<forall>x \<in> set rs. key x = key r \<longrightarrow> content r = content x) \<and> ?B"
    by (simp add: ball_conj_distrib eq_commute [of "content r"] eq_commute [of "key r"])
  ultimately show ?thesis by blast
qed

lemma agree_Cons_seen:
  assumes seen: "seen (key r) = Some p" and same: "content p = content r"
  shows "((\<forall>x \<in> set rs. \<forall>q. seen (key x) = Some q \<longrightarrow> content q = content x) \<and>
      (\<forall>x \<in> set rs. \<forall>y \<in> set rs. key x = key y \<longrightarrow> content x = content y)) \<longleftrightarrow>
    (\<forall>x \<in> set (r # rs). \<forall>q. seen (key x) = Some q \<longrightarrow> content q = content x) \<and>
      (\<forall>x \<in> set (r # rs). \<forall>y \<in> set (r # rs). key x = key y \<longrightarrow> content x = content y)"
    (is "?A \<and> ?B \<longleftrightarrow> ?C \<and> ?D")
proof -
  have C: "?C \<longleftrightarrow> ?A" using seen same by simp
  have "?A \<Longrightarrow> \<forall>x \<in> set rs. key x = key r \<longrightarrow> content x = content r"
    using seen same by metis
  moreover have "?D \<longleftrightarrow> (\<forall>x \<in> set rs. key x = key r \<longrightarrow> content x = content r) \<and> ?B"
    by (simp add: ball_conj_distrib eq_commute [of "content r"] eq_commute [of "key r"])
  ultimately show ?thesis using C by blast
qed

text \<open>What a table must promise for \<open>deduplicateCanonicalRows\<close>: rows that the payload test
  accepts as equal under one key are equal in everything that is written.\<close>

locale canonical_key =
  fixes key :: "'r \<Rightarrow> 'k"
    and equalPayload :: "'r \<Rightarrow> 'r \<Rightarrow> bool"
    and content :: "'r \<Rightarrow> 'c"
  assumes same_content: "key r = key r' \<Longrightarrow> equalPayload r r' \<longleftrightarrow> content r = content r'"
begin

lemma loop_iff:
  assumes "\<And>k p. seen k = Some p \<Longrightarrow> key p = k"
  shows "canonicalLoop table key equalPayload index items seen acc = Inr out \<longleftrightarrow>
    (\<exists>rs. items = map Some rs \<and> out = acc @ firstsBy key (dom seen) rs \<and>
      (\<forall>r \<in> set rs. \<forall>p. seen (key r) = Some p \<longrightarrow> content p = content r) \<and>
      (\<forall>r \<in> set rs. \<forall>r' \<in> set rs. key r = key r' \<longrightarrow> content r = content r'))"
  using assms
proof (induction items arbitrary: index seen acc)
  case Nil
  then show ?case by auto
next
  case (Cons it items)
  show ?case
  proof (cases it)
    case None
    then show ?thesis by (auto simp: map_eq_Cons_conv)
  next
    case (Some r)
    have list: "(\<exists>rs. it # items = map Some rs \<and> Q rs) \<longleftrightarrow> (\<exists>rs. items = map Some rs \<and> Q (r # rs))" for Q
      using Some by (auto simp: Cons_eq_map_conv)
    show ?thesis
    proof (cases "seen (key r)")
      case None
      have head: "out = (acc @ [r]) @ firstsBy key (dom (seen(key r \<mapsto> r))) rs \<longleftrightarrow>
          out = acc @ firstsBy key (dom seen) (r # rs)" for rs
        using None by (simp add: domIff)
      have agree: "((\<forall>x \<in> set rs. \<forall>p. (seen(key r \<mapsto> r)) (key x) = Some p \<longrightarrow> content p = content x) \<and>
            (\<forall>x \<in> set rs. \<forall>y \<in> set rs. key x = key y \<longrightarrow> content x = content y)) \<longleftrightarrow>
          (\<forall>x \<in> set (r # rs). \<forall>p. seen (key x) = Some p \<longrightarrow> content p = content x) \<and>
            (\<forall>x \<in> set (r # rs). \<forall>y \<in> set (r # rs). key x = key y \<longrightarrow> content x = content y)" for rs
        by (rule agree_Cons) (rule None)
      have "canonicalLoop table key equalPayload index (it # items) seen acc = Inr out \<longleftrightarrow>
          canonicalLoop table key equalPayload (Suc index) items (seen(key r \<mapsto> r)) (acc @ [r]) = Inr out"
        using Some None by simp
      also have "\<dots> \<longleftrightarrow> (\<exists>rs. items = map Some rs \<and>
          out = (acc @ [r]) @ firstsBy key (dom (seen(key r \<mapsto> r))) rs \<and>
          (\<forall>x \<in> set rs. \<forall>p. (seen(key r \<mapsto> r)) (key x) = Some p \<longrightarrow> content p = content x) \<and>
          (\<forall>x \<in> set rs. \<forall>y \<in> set rs. key x = key y \<longrightarrow> content x = content y))"
        using Cons.prems by (intro Cons.IH) (auto split: if_splits)
      also have "\<dots> \<longleftrightarrow> (\<exists>rs. items = map Some rs \<and> out = acc @ firstsBy key (dom seen) (r # rs) \<and>
          (\<forall>x \<in> set (r # rs). \<forall>p. seen (key x) = Some p \<longrightarrow> content p = content x) \<and>
          (\<forall>x \<in> set (r # rs). \<forall>y \<in> set (r # rs). key x = key y \<longrightarrow> content x = content y))"
        by (simp only: head agree)
      finally show ?thesis
        by (simp only: list)
    next
      case seen: (Some p)
      then have key: "key p = key r" using Cons.prems by blast
      then have eq: "equalPayload p r \<longleftrightarrow> content p = content r" by (rule same_content)
      show ?thesis
      proof (cases "content p = content r")
        case True
        then have "canonicalLoop table key equalPayload index (it # items) seen acc = Inr out \<longleftrightarrow>
            canonicalLoop table key equalPayload (Suc index) items seen acc = Inr out"
          using Some seen eq by simp
        also have "\<dots> \<longleftrightarrow> (\<exists>rs. items = map Some rs \<and> out = acc @ firstsBy key (dom seen) rs \<and>
            (\<forall>x \<in> set rs. \<forall>q. seen (key x) = Some q \<longrightarrow> content q = content x) \<and>
            (\<forall>x \<in> set rs. \<forall>y \<in> set rs. key x = key y \<longrightarrow> content x = content y))"
          using Cons.prems by (rule Cons.IH)
        also have "\<dots> \<longleftrightarrow> (\<exists>rs. items = map Some rs \<and> out = acc @ firstsBy key (dom seen) (r # rs) \<and>
            (\<forall>x \<in> set (r # rs). \<forall>q. seen (key x) = Some q \<longrightarrow> content q = content x) \<and>
            (\<forall>x \<in> set (r # rs). \<forall>y \<in> set (r # rs). key x = key y \<longrightarrow> content x = content y))"
        proof (intro ex_cong1 conj_cong [OF refl], rule conj_cong)
          show "out = acc @ firstsBy key (dom seen) rs \<longleftrightarrow> out = acc @ firstsBy key (dom seen) (r # rs)" for rs
            using seen by (simp add: domIff)
        qed (rule agree_Cons_seen [of seen key, OF seen True])
        finally show ?thesis by (simp only: list)
      next
        case False
        have "canonicalLoop table key equalPayload index (it # items) seen acc \<noteq> Inr out"
          using Some seen eq False by simp
        moreover have "\<not> (\<forall>x \<in> set (r # rs). \<forall>q. seen (key x) = Some q \<longrightarrow> content q = content x)" for rs
          using seen False by simp
        ultimately show ?thesis unfolding list by blast
      qed
    qed
  qed
qed

lemma dedupe_iff:
  "deduplicateCanonicalRows table items key equalPayload = Inr out \<longleftrightarrow>
    (\<exists>rs. items = map Some rs \<and> out = firstsBy key {} rs \<and>
      (\<forall>r \<in> set rs. \<forall>r' \<in> set rs. key r = key r' \<longrightarrow> content r = content r'))"
  unfolding deduplicateCanonicalRows_def by (subst loop_iff) simp_all

lemma dedupe_distinct:
  "deduplicateCanonicalRows table items key equalPayload = Inr out \<Longrightarrow> distinct (map key out)"
  by (auto simp: dedupe_iff firstsBy_distinct)

lemma dedupe_laws:
  assumes "deduplicateCanonicalRows table (map Some rs) key equalPayload = Inr out"
  shows "distinct (map key out)" and "set out \<subseteq> set rs"
proof -
  obtain rs' where "map Some rs = map Some rs'" and out: "out = firstsBy key {} rs'"
    using assms by (auto simp: dedupe_iff)
  then have "rs' = rs" by (metis inj_Some inj_map_eq_map)
  with out show "distinct (map key out)" and "set out \<subseteq> set rs"
    by (simp_all add: firstsBy_distinct firstsBy_subset)
qed

lemma dedupe_keys:
  assumes "deduplicateCanonicalRows table (map Some rs) key equalPayload = Inr out"
  shows "distinct (map key out) \<and> key ` set out = key ` set rs"
proof -
  obtain rs' where "map Some rs = map Some rs'" and out: "out = firstsBy key {} rs'"
    using assms by (auto simp: dedupe_iff)
  then have "rs' = rs" by (metis inj_Some inj_map_eq_map)
  with out show ?thesis by (simp add: firstsBy_distinct firstsBy_keys)
qed

text \<open>The rows written do not depend on the order in which a chunk lists them, up to content.\<close>

lemma firsts_contents:
  assumes "\<forall>r \<in> set rs. \<forall>r' \<in> set rs. key r = key r' \<longrightarrow> content r = content r'"
  shows "(\<lambda>r. (key r, content r)) ` set (firstsBy key {} rs) = (\<lambda>r. (key r, content r)) ` set rs"
proof
  show "(\<lambda>r. (key r, content r)) ` set (firstsBy key {} rs) \<subseteq> (\<lambda>r. (key r, content r)) ` set rs"
    using firstsBy_subset by (rule image_mono)
  show "(\<lambda>r. (key r, content r)) ` set rs \<subseteq> (\<lambda>r. (key r, content r)) ` set (firstsBy key {} rs)"
  proof (rule image_subsetI)
    fix r assume r: "r \<in> set rs"
    then have "key r \<in> key ` set (firstsBy key {} rs)" by (simp add: firstsBy_keys)
    then obtain r' where r': "r' \<in> set (firstsBy key {} rs)" "key r' = key r" by (metis imageE)
    then have "content r' = content r" using firstsBy_subset assms r by (metis subset_iff)
    then show "(key r, content r) \<in> (\<lambda>r. (key r, content r)) ` set (firstsBy key {} rs)"
      using r' by (metis (mono_tags, lifting) image_eqI)
  qed
qed

lemma dedupe_contents:
  assumes "deduplicateCanonicalRows table items key equalPayload = Inr out"
  shows "Some ` {r. Some r \<in> set items} = set items"
    and "(\<lambda>r. (key r, content r)) ` set out = (\<lambda>r. (key r, content r)) ` {r. Some r \<in> set items}"
proof -
  obtain rs where items: "items = map Some rs" and out: "out = firstsBy key {} rs"
    and agree: "\<forall>r \<in> set rs. \<forall>r' \<in> set rs. key r = key r' \<longrightarrow> content r = content r'"
    using assms by (auto simp: dedupe_iff)
  have "{r. Some r \<in> set items} = set rs" using items by auto
  then show "Some ` {r. Some r \<in> set items} = set items"
    and "(\<lambda>r. (key r, content r)) ` set out = (\<lambda>r. (key r, content r)) ` {r. Some r \<in> set items}"
    using firsts_contents [OF agree] items out by auto
qed

end

section \<open>Compatibility slots\<close>

record hashedRow =
  hrow :: nat
  hdigest :: digest

record hashedScope =
  reserved :: "int32 set"
  groups :: "(int32 \<times> hashedRow list) list"

type_synonym setCall = "nat \<times> int32 \<times> digest"

datatype allocError = SlotSpaceExhausted | IndexOutOfRange

definition compatibilitySlotAttemptCount :: nat where
  "compatibilitySlotAttemptCount = 2 ^ 32"

text \<open>The loop over attempts: the first generated slot that is neither reserved nor assigned.\<close>

function slotFrom :: "(uint32 \<Rightarrow> int32) \<Rightarrow> int32 set \<Rightarrow> int32 set \<Rightarrow> nat \<Rightarrow> nat \<Rightarrow> int32 option" where
  "slotFrom generate res assigned attemptCount attempt =
     (if attempt < attemptCount then
        (let candidate = generate (of_nat attempt)
         in if candidate \<in> res then slotFrom generate res assigned attemptCount (Suc attempt)
            else if candidate \<in> assigned then slotFrom generate res assigned attemptCount (Suc attempt)
            else Some candidate)
      else None)"
  by pat_completeness auto
termination
  by (relation "measure (\<lambda>(g, res, assigned, n, a). n - a)") auto

declare slotFrom.simps [simp del]

fun assignCollided ::
  "(digest \<Rightarrow> uint32 \<Rightarrow> int32) \<Rightarrow> nat \<Rightarrow> int32 set \<Rightarrow> hashedRow list \<Rightarrow> int32 set \<Rightarrow> setCall list
     \<Rightarrow> allocError + int32 set \<times> setCall list" where
  "assignCollided generate attemptCount res [] assigned calls = Inr (assigned, calls)"
| "assignCollided generate attemptCount res (collided # rest) assigned calls =
     (case slotFrom (generate (hdigest collided)) res assigned attemptCount 0 of
        None \<Rightarrow> Inl SlotSpaceExhausted
      | Some candidate \<Rightarrow>
          assignCollided generate attemptCount res rest (insert candidate assigned)
            (calls @ [(hrow collided, candidate, hdigest collided)]))"

definition lookupGroup :: "(int32 \<times> hashedRow list) list \<Rightarrow> int32 \<Rightarrow> hashedRow list" where
  "lookupGroup gs h = (case map_of gs h of None \<Rightarrow> [] | Some g \<Rightarrow> g)"

fun assignGroups ::
  "(digest \<Rightarrow> uint32 \<Rightarrow> int32) \<Rightarrow> nat \<Rightarrow> int32 set \<Rightarrow> (int32 \<times> hashedRow list) list \<Rightarrow> int32 list
     \<Rightarrow> int32 set \<Rightarrow> setCall list \<Rightarrow> allocError + setCall list" where
  "assignGroups generate attemptCount res gs [] assigned calls = Inr calls"
| "assignGroups generate attemptCount res gs (h # hs) assigned calls =
     (case sort_key hdigest (lookupGroup gs h) of
        [] \<Rightarrow> Inl IndexOutOfRange
      | first # rest \<Rightarrow>
          (case assignCollided generate attemptCount res rest (insert h assigned)
                  (calls @ [(hrow first, h, hdigest first)]) of
             Inl e \<Rightarrow> Inl e
           | Inr (assigned', calls') \<Rightarrow>
               assignGroups generate attemptCount res gs hs assigned' calls'))"

definition assignRelationCompatibilitySlotsWith ::
  "(digest \<Rightarrow> uint32 \<Rightarrow> int32) \<Rightarrow> nat \<Rightarrow> hashedScope \<Rightarrow> allocError + setCall list" where
  "assignRelationCompatibilitySlotsWith generate attemptCount sc =
     assignGroups generate attemptCount (reserved sc) (groups sc)
       (sort_key sint (map fst (groups sc))) {} []"

section \<open>Rows with a SHA-256 identity\<close>

record ('k, 'r) hashedState =
  rowsByIdentity :: "'k \<Rightarrow> digest \<rightharpoonup> 'r"
  scopes :: "('k \<times> hashedScope) list"
  kept :: "'r list"

definition emptyScope :: hashedScope where
  "emptyScope = \<lparr>reserved = {}, groups = []\<rparr>"

definition scopeAdd :: "int32 \<Rightarrow> hashedRow \<Rightarrow> hashedScope \<Rightarrow> hashedScope" where
  "scopeAdd h row sc =
     sc\<lparr>reserved := insert h (reserved sc),
        groups := upsert h (\<lambda>g. (case g of None \<Rightarrow> [] | Some rows \<Rightarrow> rows) @ [row]) (groups sc)\<rparr>"

definition keepRow :: "'k \<Rightarrow> int32 \<Rightarrow> digest \<Rightarrow> 'r \<Rightarrow> ('k, 'r) hashedState \<Rightarrow> ('k, 'r) hashedState" where
  "keepRow k h d item st =
     st\<lparr>rowsByIdentity := (rowsByIdentity st)(k := (rowsByIdentity st k)(d \<mapsto> item)),
        scopes := upsert k (\<lambda>sc. scopeAdd h \<lparr>hrow = length (kept st), hdigest = d\<rparr>
                      (case sc of None \<Rightarrow> emptyScope | Some s \<Rightarrow> s)) (scopes st),
        kept := kept st @ [item]\<rparr>"

fun hashedLoop ::
  "string \<Rightarrow> ('r \<Rightarrow> 'k) \<Rightarrow> ('r \<Rightarrow> int32) \<Rightarrow> ('r \<Rightarrow> digest) \<Rightarrow> ('r \<Rightarrow> 'r \<Rightarrow> bool) \<Rightarrow> nat \<Rightarrow> 'r option list
     \<Rightarrow> ('k, 'r) hashedState \<Rightarrow> dedupeError + ('k, 'r) hashedState" where
  "hashedLoop table scope legacyHash dig equalPayload index [] st = Inr st"
| "hashedLoop table scope legacyHash dig equalPayload index (None # items) st = Inl (NilRow table index)"
| "hashedLoop table scope legacyHash dig equalPayload index (Some item # items) st =
     (case rowsByIdentity st (scope item) (dig item) of
        Some previous \<Rightarrow>
          if \<not> equalPayload previous item then Inl (ConflictingPayload table (dig item))
          else if legacyHash previous \<noteq> legacyHash item then Inl (ConflictingLegacyHash table (dig item))
          else hashedLoop table scope legacyHash dig equalPayload (Suc index) items st
      | None \<Rightarrow>
          hashedLoop table scope legacyHash dig equalPayload (Suc index) items
            (keepRow (scope item) (legacyHash item) (dig item) item st))"

definition applyCalls :: "('r \<Rightarrow> int32 \<Rightarrow> digest \<Rightarrow> 'r) \<Rightarrow> setCall list \<Rightarrow> 'r list \<Rightarrow> 'r list" where
  "applyCalls setIdentity calls rows =
     foldl (\<lambda>rs (p, h, d). rs[p := setIdentity (rs ! p) h d]) rows calls"

text \<open>The \<open>range\<close> over the scopes visits them in the order \<open>ks\<close>.\<close>

fun allocateScopes ::
  "string \<Rightarrow> (hashedScope \<Rightarrow> allocError + setCall list) \<Rightarrow> ('r \<Rightarrow> int32 \<Rightarrow> digest \<Rightarrow> 'r) \<Rightarrow> ('k \<times> hashedScope) list
     \<Rightarrow> 'r list \<Rightarrow> dedupeError + 'r list" where
  "allocateScopes table allocate setIdentity [] rows = Inr rows"
| "allocateScopes table allocate setIdentity ((k, sc) # scs) rows =
     (case allocate sc of
        Inl _ \<Rightarrow> Inl (SlotsExhausted table)
      | Inr calls \<Rightarrow> allocateScopes table allocate setIdentity scs (applyCalls setIdentity calls rows))"

definition emptyHashed :: "('k, 'r) hashedState" where
  "emptyHashed = \<lparr>rowsByIdentity = (\<lambda>_. Map.empty), scopes = [], kept = []\<rparr>"

definition deduplicateHashedRowsWithAllocator ::
  "(('k \<times> hashedScope) list \<Rightarrow> ('k \<times> hashedScope) list) \<Rightarrow> string \<Rightarrow> 'r option list
     \<Rightarrow> ('r \<Rightarrow> 'k) \<Rightarrow> ('r \<Rightarrow> int32) \<Rightarrow> ('r \<Rightarrow> digest) \<Rightarrow> ('r \<Rightarrow> 'r \<Rightarrow> bool) \<Rightarrow> ('r \<Rightarrow> int32 \<Rightarrow> digest \<Rightarrow> 'r)
     \<Rightarrow> (hashedScope \<Rightarrow> allocError + setCall list) \<Rightarrow> dedupeError + 'r list" where
  "deduplicateHashedRowsWithAllocator iter table items scope legacyHash dig equalPayload setIdentity allocate =
     (case hashedLoop table scope legacyHash dig equalPayload 0 items emptyHashed of
        Inl e \<Rightarrow> Inl e
      | Inr st \<Rightarrow> allocateScopes table allocate setIdentity (iter (scopes st)) (kept st))"

section \<open>What the allocator guarantees\<close>

definition callTargets :: "setCall list \<Rightarrow> (nat \<times> digest) list" where
  "callTargets calls = map (\<lambda>(p, h, d). (p, d)) calls"

definition callHashes :: "setCall list \<Rightarrow> int32 list" where
  "callHashes calls = map (\<lambda>(p, h, d). h) calls"

definition rowTargets :: "hashedRow list \<Rightarrow> (nat \<times> digest) list" where
  "rowTargets rows = map (\<lambda>r. (hrow r, hdigest r)) rows"

lemma call_simps [simp]:
  "callTargets [] = []" "callTargets ((p, h, d) # cs) = (p, d) # callTargets cs"
  "callTargets (xs @ ys) = callTargets xs @ callTargets ys"
  "callHashes [] = []" "callHashes ((p, h, d) # cs) = h # callHashes cs"
  "callHashes (xs @ ys) = callHashes xs @ callHashes ys"
  "rowTargets [] = []" "rowTargets (r # rs) = (hrow r, hdigest r) # rowTargets rs"
  by (simp_all add: callTargets_def callHashes_def rowTargets_def)

lemma callHashes_mem: "(p, h, d) \<in> set calls \<Longrightarrow> h \<in> set (callHashes calls)"
  by (force simp: callHashes_def)

lemma slotFrom_Some:
  "slotFrom g res assigned n a = Some c \<Longrightarrow> c \<notin> res \<and> c \<notin> assigned \<and> (\<exists>k. a \<le> k \<and> k < n \<and> c = g (of_nat k))"
proof (induction g res assigned n a rule: slotFrom.induct)
  case (1 g res assigned n a)
  note unfold = slotFrom.simps [of g res assigned n a]
  have a: "a < n" using "1.prems" by (subst (asm) unfold) (simp split: if_splits)
  show ?case
  proof (cases "g (of_nat a) \<in> res \<or> g (of_nat a) \<in> assigned")
    case True
    then have "slotFrom g res assigned n (Suc a) = Some c"
      using "1.prems" a by (subst (asm) unfold) (auto simp: Let_def split: if_splits)
    then obtain k where "c \<notin> res" "c \<notin> assigned" "Suc a \<le> k" "k < n" "c = g (of_nat k)"
      using "1.IH" a True by blast
    then show ?thesis by (intro conjI exI [of _ k]) auto
  next
    case False
    then have "c = g (of_nat a)"
      using "1.prems" a by (subst (asm) unfold) (auto simp: Let_def split: if_splits)
    with False a show ?thesis by auto
  qed
qed

lemma slotFrom_succeeds:
  "a \<le> k \<Longrightarrow> k < n \<Longrightarrow> g (of_nat k) \<notin> res \<Longrightarrow> g (of_nat k) \<notin> assigned \<Longrightarrow> slotFrom g res assigned n a \<noteq> None"
proof (induction g res assigned n a rule: slotFrom.induct)
  case (1 g res assigned n a)
  note unfold = slotFrom.simps [of g res assigned n a]
  show ?case
  proof (cases "g (of_nat a) \<in> res \<or> g (of_nat a) \<in> assigned")
    case True
    then have "a \<noteq> k" using "1.prems" by auto
    with "1.prems" have k: "Suc a \<le> k" "a < n" by auto
    have "slotFrom g res assigned n (Suc a) \<noteq> None"
    proof (cases "g (of_nat a) \<in> res")
      case True
      show ?thesis by (rule "1.IH" (1) [OF k(2) refl True k(1) "1.prems"(2-4)])
    next
      case False
      with True have "g (of_nat a) \<in> assigned" by simp
      with False show ?thesis by (rule "1.IH" (2) [OF k(2) refl _ _ k(1) "1.prems"(2-4)])
    qed
    then show ?thesis using k True by (subst unfold) (auto simp: Let_def)
  next
    case False
    then show ?thesis using "1.prems" by (subst unfold) (auto simp: Let_def)
  qed
qed

lemma assignCollided_spec:
  assumes "assignCollided gen n res cs assigned calls = Inr (assigned', calls')"
  shows "\<exists>new. calls' = calls @ new \<and> callTargets new = rowTargets cs \<and> distinct (callHashes new) \<and>
    set (callHashes new) \<inter> (res \<union> assigned) = {} \<and> assigned' = assigned \<union> set (callHashes new)"
  using assms
proof (induction cs arbitrary: assigned calls)
  case Nil
  then show ?case by simp
next
  case (Cons c cs)
  obtain s where s: "slotFrom (gen (hdigest c)) res assigned n 0 = Some s"
    and rest: "assignCollided gen n res cs (insert s assigned) (calls @ [(hrow c, s, hdigest c)]) =
      Inr (assigned', calls')"
    using Cons.prems by (auto split: option.splits)
  from Cons.IH [OF rest] obtain new where
    new: "calls' = (calls @ [(hrow c, s, hdigest c)]) @ new" "callTargets new = rowTargets cs"
      "distinct (callHashes new)" "set (callHashes new) \<inter> (res \<union> insert s assigned) = {}"
      "assigned' = insert s assigned \<union> set (callHashes new)"
    by blast
  have "s \<notin> res" "s \<notin> assigned" using slotFrom_Some [OF s] by auto
  then show ?case
    using new by (intro exI [of _ "(hrow c, s, hdigest c) # new"]) auto
qed

lemma assignGroups_spec:
  assumes "assignGroups gen n res gs hs assigned calls = Inr calls'"
    and "distinct hs" and "set hs \<inter> assigned = {}" and "set hs \<subseteq> res"
  shows "\<exists>new. calls' = calls @ new \<and>
    callTargets new = concat (map (\<lambda>h. rowTargets (sort_key hdigest (lookupGroup gs h))) hs) \<and>
    distinct (callHashes new) \<and> set (callHashes new) \<inter> assigned = {} \<and>
    (\<forall>p h d. (p, h, d) \<in> set new \<longrightarrow> h \<in> res \<longrightarrow>
        h \<in> set hs \<and> (p, d) = hd (rowTargets (sort_key hdigest (lookupGroup gs h)))) \<and>
    set hs \<subseteq> set (callHashes new)"
  using assms
proof (induction hs arbitrary: assigned calls)
  case Nil
  then show ?case by simp
next
  case (Cons h hs)
  obtain f rest where sorted: "sort_key hdigest (lookupGroup gs h) = f # rest"
    using Cons.prems(1) by (auto split: list.splits)
  obtain assigned1 calls1 where
    collided: "assignCollided gen n res rest (insert h assigned) (calls @ [(hrow f, h, hdigest f)]) =
      Inr (assigned1, calls1)"
    and go: "assignGroups gen n res gs hs assigned1 calls1 = Inr calls'"
    using Cons.prems(1) sorted by (auto split: sum.splits)
  from assignCollided_spec [OF collided] obtain new1 where
    new1: "calls1 = (calls @ [(hrow f, h, hdigest f)]) @ new1" "callTargets new1 = rowTargets rest"
      "distinct (callHashes new1)" "set (callHashes new1) \<inter> (res \<union> insert h assigned) = {}"
      "assigned1 = insert h assigned \<union> set (callHashes new1)"
    by blast
  have "distinct hs" "set hs \<inter> assigned1 = {}" "set hs \<subseteq> res"
    using Cons.prems new1 by auto
  from Cons.IH [OF go this] obtain new2 where
    new2: "calls' = calls1 @ new2"
      "callTargets new2 = concat (map (\<lambda>h. rowTargets (sort_key hdigest (lookupGroup gs h))) hs)"
      "distinct (callHashes new2)" "set (callHashes new2) \<inter> assigned1 = {}"
      "\<forall>p h d. (p, h, d) \<in> set new2 \<longrightarrow> h \<in> res \<longrightarrow>
        h \<in> set hs \<and> (p, d) = hd (rowTargets (sort_key hdigest (lookupGroup gs h)))"
      "set hs \<subseteq> set (callHashes new2)"
    by blast
  let ?new = "(hrow f, h, hdigest f) # new1 @ new2"
  have legacy: "h' \<in> set (h # hs) \<and> (p, d) = hd (rowTargets (sort_key hdigest (lookupGroup gs h')))"
    if "(p, h', d) \<in> set ?new" "h' \<in> res" for p h' d
  proof -
    have "(p, h', d) \<notin> set new1"
      using that(2) new1(4) callHashes_mem [of p h' d new1] by auto
    moreover have "(p, h', d) = (hrow f, h, hdigest f) \<or> (p, h', d) \<in> set new1 \<or> (p, h', d) \<in> set new2"
      using that(1) by simp
    ultimately show ?thesis
      using new2(5) that(2) sorted by auto
  qed
  have "calls' = calls @ ?new" using new1 new2 by simp
  moreover have "callTargets ?new = concat (map (\<lambda>h. rowTargets (sort_key hdigest (lookupGroup gs h))) (h # hs))"
    using new1 new2 sorted by simp
  moreover have "distinct (callHashes ?new)" "set (callHashes ?new) \<inter> assigned = {}"
    using new1 new2 Cons.prems by auto
  moreover have "set (h # hs) \<subseteq> set (callHashes ?new)" using new2 by auto
  ultimately show ?case using legacy by (intro exI [of _ ?new]) blast
qed

text \<open>The slots depend only on the digests that share each legacy hash, not on where the rows
  are or in which order they were met.\<close>

lemma assignCollided_cong:
  assumes "map hdigest cs = map hdigest cs'" and "map snd calls = map snd calls'"
  shows "map_sum id (map_prod id (map snd)) (assignCollided gen n res cs assigned calls) =
    map_sum id (map_prod id (map snd)) (assignCollided gen n res cs' assigned calls')"
  using assms
proof (induction cs arbitrary: cs' assigned calls calls')
  case Nil
  then show ?case by simp
next
  case (Cons c cs)
  then obtain c' ds where "cs' = c' # ds" "hdigest c = hdigest c'" "map hdigest cs = map hdigest ds"
    by (auto simp: Cons_eq_map_conv)
  with Cons show ?case by (auto split: option.splits intro!: Cons.IH)
qed

lemma assignGroups_cong:
  assumes "\<forall>h \<in> set hs. map hdigest (sort_key hdigest (lookupGroup gs h)) =
      map hdigest (sort_key hdigest (lookupGroup gs' h))"
    and "map snd calls = map snd calls'"
  shows "map_sum id (map snd) (assignGroups gen n res gs hs assigned calls) =
    map_sum id (map snd) (assignGroups gen n res gs' hs assigned calls')"
  using assms
proof (induction hs arbitrary: assigned calls calls')
  case Nil
  then show ?case by simp
next
  case (Cons h hs)
  have eq: "map hdigest (sort_key hdigest (lookupGroup gs h)) = map hdigest (sort_key hdigest (lookupGroup gs' h))"
    using Cons.prems by simp
  have IH: "map snd c1 = map snd c2 \<Longrightarrow> map_sum id (map snd) (assignGroups gen n res gs hs asg c1) =
      map_sum id (map snd) (assignGroups gen n res gs' hs asg c2)" for asg c1 c2
    using Cons.prems(1) by (intro Cons.IH) auto
  show ?case
  proof (cases "sort_key hdigest (lookupGroup gs h)")
    case Nil
    with eq have "sort_key hdigest (lookupGroup gs' h) = []" by simp
    with Nil show ?thesis by simp
  next
    case (Cons f rest)
    then have "map hdigest (sort_key hdigest (lookupGroup gs' h)) = hdigest f # map hdigest rest"
      using eq by simp
    then obtain f' rest' where c': "sort_key hdigest (lookupGroup gs' h) = f' # rest'"
      "hdigest f = hdigest f'" "map hdigest rest = map hdigest rest'"
      by (auto simp: map_eq_Cons_conv)
    have "map_sum id (map_prod id (map snd))
        (assignCollided gen n res rest (insert h assigned) (calls @ [(hrow f, h, hdigest f)])) =
      map_sum id (map_prod id (map snd))
        (assignCollided gen n res rest' (insert h assigned) (calls' @ [(hrow f', h, hdigest f')]))"
      using c' Cons.prems by (intro assignCollided_cong) auto
    moreover note step = calculation
    show ?thesis
    proof (cases "assignCollided gen n res rest (insert h assigned) (calls @ [(hrow f, h, hdigest f)])")
      case (Inl e)
      with step have "assignCollided gen n res rest' (insert h assigned) (calls' @ [(hrow f', h, hdigest f')]) = Inl e"
        by (cases "assignCollided gen n res rest' (insert h assigned) (calls' @ [(hrow f', h, hdigest f')])") auto
      with Inl Cons c' show ?thesis by simp
    next
      case (Inr r)
      obtain asg1 calls1 where r: "r = (asg1, calls1)" by (cases r) auto
      with step Inr obtain calls2 where
        "assignCollided gen n res rest' (insert h assigned) (calls' @ [(hrow f', h, hdigest f')]) = Inr (asg1, calls2)"
        and same: "map snd calls1 = map snd calls2"
        by (cases "assignCollided gen n res rest' (insert h assigned) (calls' @ [(hrow f', h, hdigest f')])") auto
      with Inr r Cons c' IH [OF same, of asg1] show ?thesis by (simp add: id_def)
    qed
  qed
qed

section \<open>What the loop over the rows collects\<close>

lemma firstsBy_snoc:
  "firstsBy key ks (rs @ [r]) = firstsBy key ks rs @ (if key r \<in> ks \<union> key ` set rs then [] else [r])"
  by (induction rs arbitrary: ks) auto

text \<open>The state after the rows \<open>rs\<close>: the kept rows are the first ones of every scope and digest,
  the scopes list their kept rows, grouped by legacy hash.\<close>

definition groupRows :: "('r \<Rightarrow> 'k) \<Rightarrow> ('r \<Rightarrow> int32) \<Rightarrow> ('r \<Rightarrow> digest) \<Rightarrow> 'r list \<Rightarrow> 'k \<Rightarrow> int32 \<Rightarrow> hashedRow list" where
  "groupRows scope legacyHash dig rows k h =
     map (\<lambda>p. \<lparr>hrow = p, hdigest = dig (rows ! p)\<rparr>)
       (filter (\<lambda>p. scope (rows ! p) = k \<and> legacyHash (rows ! p) = h) [0 ..< length rows])"

definition hashedInv :: "('r \<Rightarrow> 'k) \<Rightarrow> ('r \<Rightarrow> int32) \<Rightarrow> ('r \<Rightarrow> digest) \<Rightarrow> 'r list \<Rightarrow> ('k, 'r) hashedState \<Rightarrow> bool" where
  "hashedInv scope legacyHash dig rs st \<longleftrightarrow>
     kept st = firstsBy (\<lambda>r. (scope r, dig r)) {} rs \<and>
     (\<lambda>r. (scope r, dig r, legacyHash r)) ` set rs \<subseteq> (\<lambda>r. (scope r, dig r, legacyHash r)) ` set (kept st) \<and>
     (\<forall>k d. case rowsByIdentity st k d of
        None \<Rightarrow> (k, d) \<notin> (\<lambda>r. (scope r, dig r)) ` set (kept st)
      | Some p \<Rightarrow> p \<in> set (kept st) \<and> scope p = k \<and> dig p = d) \<and>
     distinct (map fst (scopes st)) \<and>
     fst ` set (scopes st) = scope ` set (kept st) \<and>
     (\<forall>(k, sc) \<in> set (scopes st).
        reserved sc = legacyHash ` {r \<in> set (kept st). scope r = k} \<and>
        distinct (map fst (groups sc)) \<and> fst ` set (groups sc) = reserved sc \<and>
        (\<forall>h. lookupGroup (groups sc) h = groupRows scope legacyHash dig (kept st) k h))"

lemma groupRows_snoc:
  "groupRows scope legacyHash dig (rows @ [r]) k h =
     groupRows scope legacyHash dig rows k h @
     (if scope r = k \<and> legacyHash r = h then [\<lparr>hrow = length rows, hdigest = dig r\<rparr>] else [])"
proof -
  have "filter (\<lambda>p. scope ((rows @ [r]) ! p) = k \<and> legacyHash ((rows @ [r]) ! p) = h) [0 ..< length rows] =
      filter (\<lambda>p. scope (rows ! p) = k \<and> legacyHash (rows ! p) = h) [0 ..< length rows]"
    by (rule filter_cong) (auto simp: nth_append)
  then show ?thesis
    by (auto simp: groupRows_def nth_append)
qed

lemma lookupGroup_upsert:
  "lookupGroup (upsert h (\<lambda>g. (case g of None \<Rightarrow> [] | Some rows \<Rightarrow> rows) @ [row]) gs) h' =
     (if h' = h then lookupGroup gs h @ [row] else lookupGroup gs h')"
  by (simp add: lookupGroup_def map_of_upsert)

lemma hashedInv_known:
  "hashedInv scope legacyHash dig rs st \<Longrightarrow>
    case rowsByIdentity st k d of
      None \<Rightarrow> (k, d) \<notin> (\<lambda>r. (scope r, dig r)) ` set (kept st)
    | Some p \<Rightarrow> p \<in> set (kept st) \<and> scope p = k \<and> dig p = d"
  by (simp add: hashedInv_def)

lemma keepRow_inv:
  assumes inv: "hashedInv scope legacyHash dig rs st"
    and fresh: "rowsByIdentity st (scope r) (dig r) = None"
  shows "hashedInv scope legacyHash dig (rs @ [r]) (keepRow (scope r) (legacyHash r) (dig r) r st)"
proof -
  let ?st = "keepRow (scope r) (legacyHash r) (dig r) r st"
  let ?K = "\<lambda>r. (scope r, dig r)"
  let ?row = "\<lparr>hrow = length (kept st), hdigest = dig r\<rparr>"
  have kept: "kept st = firstsBy ?K {} rs" using inv by (simp add: hashedInv_def)
  note known = hashedInv_known [OF inv]
  have "(scope r, dig r) \<notin> ?K ` set (kept st)" using known [of "scope r" "dig r"] fresh by simp
  then have new: "(scope r, dig r) \<notin> ?K ` set rs" by (simp add: kept firstsBy_keys)
  have k': "kept ?st = kept st @ [r]" by (simp add: keepRow_def)
  have k'': "kept ?st = firstsBy ?K {} (rs @ [r])"
    using new by (simp add: k' firstsBy_snoc kept)
  have known': "case rowsByIdentity ?st k d of None \<Rightarrow> (k, d) \<notin> ?K ` set (kept ?st)
      | Some p \<Rightarrow> p \<in> set (kept ?st) \<and> scope p = k \<and> dig p = d" for k d
    using known [of k d] by (auto simp: keepRow_def split: option.splits)
  have sc: "scopes ?st = upsert (scope r) (\<lambda>sc. scopeAdd (legacyHash r) ?row
      (case sc of None \<Rightarrow> emptyScope | Some s \<Rightarrow> s)) (scopes st)"
    by (simp add: keepRow_def)
  have distinct: "distinct (map fst (scopes st))" using inv by (simp add: hashedInv_def)
  have dom: "fst ` set (scopes st) = scope ` set (kept st)" using inv by (simp add: hashedInv_def)
  have good: "reserved sc = legacyHash ` {r \<in> set (kept st). scope r = k}"
      "distinct (map fst (groups sc))" "fst ` set (groups sc) = reserved sc"
      "lookupGroup (groups sc) h = groupRows scope legacyHash dig (kept st) k h"
    if "(k, sc) \<in> set (scopes st)" for k sc h
    using inv that unfolding hashedInv_def by (auto dest!: bspec [OF _ that])
  have absent: "map_of (scopes st) (scope r) = None \<Longrightarrow> groupRows scope legacyHash dig (kept st) (scope r) h = []" for h
  proof -
    assume "map_of (scopes st) (scope r) = None"
    then have "scope r \<notin> scope ` set (kept st)" using dom by (simp add: map_of_eq_None_iff)
    then have "scope (kept st ! q) \<noteq> scope r" if "q < length (kept st)" for q
      using nth_mem [OF that] by (metis image_eqI)
    then show ?thesis by (auto simp: groupRows_def filter_empty_conv)
  qed
  have good': "reserved sc = legacyHash ` {x \<in> set (kept ?st). scope x = k} \<and>
        distinct (map fst (groups sc)) \<and> fst ` set (groups sc) = reserved sc \<and>
        (\<forall>h. lookupGroup (groups sc) h = groupRows scope legacyHash dig (kept ?st) k h)"
    if "(k, sc) \<in> set (scopes ?st)" for k sc
  proof (cases "k = scope r")
    case False
    from that have "map_of (scopes ?st) k = Some sc"
      using distinct by (simp add: sc distinct_upsert)
    with False have "(k, sc) \<in> set (scopes st)" by (simp add: sc map_of_upsert map_of_SomeD)
    from good [OF this] False show ?thesis by (auto simp: k' groupRows_snoc)
  next
    case True
    from that have "map_of (scopes ?st) k = Some sc"
      using distinct by (simp add: sc distinct_upsert)
    with True have s: "sc = scopeAdd (legacyHash r) ?row
        (case map_of (scopes st) (scope r) of None \<Rightarrow> emptyScope | Some s \<Rightarrow> s)"
      by (simp add: sc map_of_upsert)
    show ?thesis
    proof (cases "map_of (scopes st) (scope r)")
      case None
      then have "scope r \<notin> scope ` set (kept st)" using dom by (auto simp: map_of_eq_None_iff)
      then have "{x \<in> set (kept ?st). scope x = k} = {r}"
        using True k' by (auto simp: image_iff)
      with None absent True s show ?thesis
        by (auto simp: scopeAdd_def emptyScope_def k' groupRows_snoc lookupGroup_def)
    next
      case (Some s0)
      then have "(scope r, s0) \<in> set (scopes st)" by (rule map_of_SomeD)
      note g = good [OF this]
      have "{x \<in> set (kept ?st). scope x = k} = insert r {x \<in> set (kept st). scope x = scope r}"
        using True k' by auto
      with Some s g True show ?thesis
        by (simp add: scopeAdd_def k' groupRows_snoc lookupGroup_upsert fst_upsert distinct_upsert)
    qed
  qed
  show ?thesis
    unfolding hashedInv_def
  proof (intro conjI allI ballI)
    show "kept ?st = firstsBy ?K {} (rs @ [r])" by (rule k'')
    show "(\<lambda>r. (scope r, dig r, legacyHash r)) ` set (rs @ [r]) \<subseteq>
        (\<lambda>r. (scope r, dig r, legacyHash r)) ` set (kept ?st)"
      using inv by (auto simp: hashedInv_def k')
    show "case rowsByIdentity ?st k d of None \<Rightarrow> (k, d) \<notin> ?K ` set (kept ?st)
      | Some p \<Rightarrow> p \<in> set (kept ?st) \<and> scope p = k \<and> dig p = d" for k d
      by (rule known')
    show "distinct (map fst (scopes ?st))" using distinct by (simp add: sc distinct_upsert)
    show "fst ` set (scopes ?st) = scope ` set (kept ?st)"
      using dom by (simp add: sc fst_upsert k')
  next
    fix x assume x: "x \<in> set (scopes ?st)"
    obtain k sc where "x = (k, sc)" by (rule prod.exhaust)
    with x good' [of k sc] show "case x of (k, sc) \<Rightarrow> reserved sc = legacyHash ` {r \<in> set (kept ?st). scope r = k} \<and>
        distinct (map fst (groups sc)) \<and> fst ` set (groups sc) = reserved sc \<and>
        (\<forall>h. lookupGroup (groups sc) h = groupRows scope legacyHash dig (kept ?st) k h)"
      by simp
  qed
qed

lemma skipRow_inv:
  assumes inv: "hashedInv scope legacyHash dig rs st"
    and known: "rowsByIdentity st (scope r) (dig r) = Some p" and same: "legacyHash p = legacyHash r"
  shows "hashedInv scope legacyHash dig (rs @ [r]) st"
proof -
  have p: "p \<in> set (kept st)" "scope p = scope r" "dig p = dig r"
    using hashedInv_known [OF inv, of "scope r" "dig r"] known by simp_all
  then have "(scope r, dig r) \<in> (\<lambda>r. (scope r, dig r)) ` set (kept st)"
    by (intro image_eqI [of _ _ p]) simp_all
  moreover have "kept st = firstsBy (\<lambda>r. (scope r, dig r)) {} rs" using inv by (simp add: hashedInv_def)
  ultimately have "(scope r, dig r) \<in> (\<lambda>r. (scope r, dig r)) ` set rs"
    by (simp add: firstsBy_keys)
  moreover have "(scope r, dig r, legacyHash r) \<in> (\<lambda>r. (scope r, dig r, legacyHash r)) ` set (kept st)"
    using p same by (intro image_eqI [of _ _ p]) simp_all
  ultimately have e1: "firstsBy (\<lambda>r. (scope r, dig r)) {} (rs @ [r]) = firstsBy (\<lambda>r. (scope r, dig r)) {} rs"
    and e2: "(\<lambda>r. (scope r, dig r, legacyHash r)) ` set (rs @ [r]) \<subseteq> (\<lambda>r. (scope r, dig r, legacyHash r)) ` set (kept st) \<longleftrightarrow>
      (\<lambda>r. (scope r, dig r, legacyHash r)) ` set rs \<subseteq> (\<lambda>r. (scope r, dig r, legacyHash r)) ` set (kept st)"
    by (simp_all add: firstsBy_snoc)
  show ?thesis
    unfolding hashedInv_def e1 e2 using inv [unfolded hashedInv_def] .
qed

lemma hashedLoop_inv:
  assumes "hashedLoop table scope legacyHash dig equalPayload index items st = Inr st'"
    and "hashedInv scope legacyHash dig rs st"
  shows "\<exists>rs'. items = map Some rs' \<and> hashedInv scope legacyHash dig (rs @ rs') st'"
  using assms
proof (induction items arbitrary: index st rs)
  case Nil
  then show ?case by simp
next
  case (Cons it items)
  obtain r where it: "it = Some r" using Cons.prems(1) by (cases it) auto
  have "\<exists>st1. hashedLoop table scope legacyHash dig equalPayload (Suc index) items st1 = Inr st' \<and>
      hashedInv scope legacyHash dig (rs @ [r]) st1"
  proof (cases "rowsByIdentity st (scope r) (dig r)")
    case None
    then show ?thesis using Cons.prems it keepRow_inv by fastforce
  next
    case (Some p)
    then show ?thesis
      using Cons.prems it skipRow_inv [OF Cons.prems(2) Some] by (auto split: if_splits)
  qed
  then obtain rs' where "items = map Some rs'" "hashedInv scope legacyHash dig ((rs @ [r]) @ rs') st'"
    using Cons.IH by blast
  then show ?case using it by (intro exI [of _ "r # rs'"]) simp
qed

lemma emptyHashed_inv: "hashedInv scope legacyHash dig [] emptyHashed"
  by (simp add: hashedInv_def emptyHashed_def)

end
