(* ===== verification/Xml_Records.thy ===== *)
theory Xml_Records
  imports Cache Rows Dedupe
begin

text \<open>
  \<open>src/batch/xml.go\<close>: the records the XML decoder fills and the rows made of them. References
  to artists, labels and masters are kept only when the cache of confirmed identifiers has them;
  the caches are an argument. \<open>observedAt\<close> is the chunk's timestamp, \<open>None\<close> while it is Go's
  zero time, in which case \<open>timestamp\<close> asks the clock, the argument \<open>now\<close>. A loop that skips
  some entries and appends a row for the others is \<open>List.map_filter\<close>.
\<close>

section \<open>Records\<close>

record xmlRef =
  refID :: int32
  refName :: string

record xmlArtist =
  xaID :: int32
  xaName :: "string option"
  xaDataQuality :: "string option"
  xaProfile :: "string option"
  xaRealName :: "string option"

record xmlArtistRelation =
  xarID :: int32
  xarName :: "string option"
  xarDataQuality :: "string option"
  xarProfile :: "string option"
  xarRealName :: "string option"
  xarURLs :: "string list"
  xarNameVars :: "string list"
  xarAliases :: "xmlRef list"
  xarGroups :: "xmlRef list"
  xarMembers :: "xmlRef list"
  xarObservedAt :: "time option"

record xmlLabel =
  xlID :: int32
  xlName :: "string option"
  xlContactInfo :: "string option"
  xlProfile :: "string option"
  xlDataQuality :: "string option"

record xmlLabelRelation =
  xlrID :: int32
  xlrName :: "string option"
  xlrContactInfo :: "string option"
  xlrProfile :: "string option"
  xlrDataQuality :: "string option"
  xlrURLs :: "string list"
  xlrSubLabels :: "xmlRef list"
  xlrObservedAt :: "time option"

record xmlMaster =
  xmID :: int32
  xmMainReleaseID :: "int32 option"
  xmTitle :: "string option"
  xmDataQuality :: "string option"
  xmYear :: "int16 option"

record xmlVideo =
  xvURL :: string
  xvTitle :: "string option"
  xvDescription :: "string option"

record xmlMasterRelation =
  xmrID :: int32
  xmrMainReleaseID :: "int32 option"
  xmrTitle :: "string option"
  xmrDataQuality :: "string option"
  xmrYear :: "int16 option"
  xmrStyles :: "string list"
  xmrGenres :: "string list"
  xmrArtists :: "int32 list"
  xmrVideos :: "xmlVideo list"
  xmrObservedAt :: "time option"

record xmlReleaseMasterInfo =
  miMasterID :: "int32 option"
  miIsMaster :: bool

record xmlRelease =
  xrID :: int32
  xrTitle :: "string option"
  xrCountry :: "string option"
  xrDataQuality :: "string option"
  xrListedReleaseDate :: "string option"
  xrNotes :: "string option"
  xrMasterInfo :: xmlReleaseMasterInfo
  xrStatus :: "string option"

record xmlLabelRelease =
  xlbLabelID :: int32
  xlbCategoryNotation :: string

record xmlCreditedArtist =
  xcArtistID :: int32
  xcRole :: string

record xmlFormat =
  xfName :: "string option"
  xfQuantity :: xmlFormatQuantity
  xfText :: "string option"
  xfDescriptions :: "string list"

record xmlTrack =
  xtPosition :: string
  xtTitle :: string
  xtDuration :: string

record xmlIdentifier =
  xiType :: string
  xiDescription :: string
  xiValue :: string

record xmlWork =
  xwLabelID :: int32
  xwWork :: string

record xmlReleaseRelation =
  xrrID :: int32
  xrrTitle :: "string option"
  xrrCountry :: "string option"
  xrrDataQuality :: "string option"
  xrrListedReleaseDate :: "string option"
  xrrNotes :: "string option"
  xrrMasterInfo :: xmlReleaseMasterInfo
  xrrStatus :: "string option"
  xrrArtists :: "int32 list"
  xrrLabels :: "xmlLabelRelease list"
  xrrCreditedArtists :: "xmlCreditedArtist list"
  xrrFormats :: "xmlFormat list"
  xrrGenres :: "string list"
  xrrStyles :: "string list"
  xrrTracks :: "xmlTrack list"
  xrrIdentifiers :: "xmlIdentifier list"
  xrrVideos :: "xmlVideo list"
  xrrWorks :: "xmlWork list"
  xrrObservedAt :: "time option"

section \<open>Timestamps\<close>

definition artistSetObservedAt :: "time \<Rightarrow> xmlArtistRelation \<Rightarrow> xmlArtistRelation" where
  "artistSetObservedAt t x = x\<lparr>xarObservedAt := Some t\<rparr>"

definition artistTimestamp :: "time \<Rightarrow> xmlArtistRelation \<Rightarrow> time \<times> xmlArtistRelation" where
  "artistTimestamp now x =
     (case xarObservedAt x of
        None \<Rightarrow> (now, x\<lparr>xarObservedAt := Some now\<rparr>)
      | Some t \<Rightarrow> (t, x))"

definition labelSetObservedAt :: "time \<Rightarrow> xmlLabelRelation \<Rightarrow> xmlLabelRelation" where
  "labelSetObservedAt t x = x\<lparr>xlrObservedAt := Some t\<rparr>"

definition labelTimestamp :: "time \<Rightarrow> xmlLabelRelation \<Rightarrow> time \<times> xmlLabelRelation" where
  "labelTimestamp now x =
     (case xlrObservedAt x of
        None \<Rightarrow> (now, x\<lparr>xlrObservedAt := Some now\<rparr>)
      | Some t \<Rightarrow> (t, x))"

definition masterSetObservedAt :: "time \<Rightarrow> xmlMasterRelation \<Rightarrow> xmlMasterRelation" where
  "masterSetObservedAt t x = x\<lparr>xmrObservedAt := Some t\<rparr>"

definition masterTimestamp :: "time \<Rightarrow> xmlMasterRelation \<Rightarrow> time \<times> xmlMasterRelation" where
  "masterTimestamp now x =
     (case xmrObservedAt x of
        None \<Rightarrow> (now, x\<lparr>xmrObservedAt := Some now\<rparr>)
      | Some t \<Rightarrow> (t, x))"

definition releaseSetObservedAt :: "time \<Rightarrow> xmlReleaseRelation \<Rightarrow> xmlReleaseRelation" where
  "releaseSetObservedAt t x = x\<lparr>xrrObservedAt := Some t\<rparr>"

definition releaseTimestamp :: "time \<Rightarrow> xmlReleaseRelation \<Rightarrow> time \<times> xmlReleaseRelation" where
  "releaseTimestamp now x =
     (case xrrObservedAt x of
        None \<Rightarrow> (now, x\<lparr>xrrObservedAt := Some now\<rparr>)
      | Some t \<Rightarrow> (t, x))"

text \<open>\<open>assignChunkObservedAt\<close> stamps every non-nil item of a chunk.\<close>

definition assignChunkObservedAt :: "(time \<Rightarrow> 'x \<Rightarrow> 'x) \<Rightarrow> time \<Rightarrow> 'x option list \<Rightarrow> 'x option list" where
  "assignChunkObservedAt setObservedAt t items = map (map_option (setObservedAt t)) items"

section \<open>Helpers\<close>

definition stringValue :: "string option \<Rightarrow> string" where
  "stringValue v = (case v of None \<Rightarrow> [] | Some s \<Rightarrow> s)"

fun joinBy :: "string \<Rightarrow> string list \<Rightarrow> string" where
  "joinBy sep [] = []"
| "joinBy sep [w] = w"
| "joinBy sep (w # v # ws) = w @ sep @ joinBy sep (v # ws)"

definition reducedDescription :: "string list \<Rightarrow> string option" where
  "reducedDescription values =
     (let descriptions = List.map_filter (\<lambda>v. let d = trimSpace v in
            if d \<noteq> [] then Some (''[d:'' @ d @ '']'') else None) values
      in if length descriptions = 0 then None else Some (joinBy '','' descriptions))"

definition genreRows :: "string list \<Rightarrow> genreRow list" where
  "genreRows values =
     List.map_filter (\<lambda>v. let name = trimSpace v in if name \<noteq> [] then Some \<lparr>gnName = name\<rparr> else None)
       (deduplicateComparable values)"

definition styleRows :: "string list \<Rightarrow> styleRow list" where
  "styleRows values =
     List.map_filter (\<lambda>v. let name = trimSpace v in if name \<noteq> [] then Some \<lparr>syName = name\<rparr> else None)
       (deduplicateComparable values)"

text \<open>The loops that skip values they have seen.\<close>

fun collectFresh :: "('a \<Rightarrow> 'k option) \<Rightarrow> ('k \<Rightarrow> 'r) \<Rightarrow> 'k set \<Rightarrow> 'a list \<Rightarrow> 'r list" where
  "collectFresh key mk seen [] = []"
| "collectFresh key mk seen (x # xs) =
     (case key x of
        None \<Rightarrow> collectFresh key mk seen xs
      | Some k \<Rightarrow>
          if k \<in> seen then collectFresh key mk seen xs
          else mk k # collectFresh key mk (insert k seen) xs)"

section \<open>Artists\<close>

definition transformArtist :: "time \<Rightarrow> xmlArtist \<Rightarrow> artistRow" where
  "transformArtist t a =
     \<lparr>arID = xaID a, arCreatedAt = t, arLastModifiedAt = t, arDataQuality = filterStr (xaDataQuality a),
      arName = filterStr (xaName a), arProfile = filterStr (xaProfile a), arRealName = filterStr (xaRealName a)\<rparr>"

definition getArtist :: "time \<Rightarrow> xmlArtistRelation \<Rightarrow> artistRow" where
  "getArtist now a =
     (let t = fst (artistTimestamp now a)
      in \<lparr>arID = xarID a, arCreatedAt = t, arLastModifiedAt = t, arDataQuality = filterStr (xarDataQuality a),
          arName = filterStr (xarName a), arProfile = filterStr (xarProfile a), arRealName = filterStr (xarRealName a)\<rparr>)"

definition getArtistUrls :: "time \<Rightarrow> xmlArtistRelation \<Rightarrow> artistURLRow list" where
  "getArtistUrls now a =
     (let t = fst (artistTimestamp now a)
      in List.map_filter (\<lambda>v. let url = trimSpace v in
           if url = [] then None
           else Some \<lparr>auArtistID = xarID a, auHash = javaStringHash url, auURL = url, auIdentity = None,
                      auLastModifiedAt = t\<rparr>) (xarURLs a))"

definition getNameVars :: "time \<Rightarrow> xmlArtistRelation \<Rightarrow> artistNameVariationRow list" where
  "getNameVars now a =
     (let t = fst (artistTimestamp now a)
      in List.map_filter (\<lambda>v. let nameVariation = trimSpace v in
           if nameVariation = [] then None
           else Some \<lparr>avArtistID = xarID a, avNameVariation = nameVariation, avHash = javaStringHash nameVariation,
                      avIdentity = None, avLastModifiedAt = t\<rparr>) (xarNameVars a))"

definition getAliases :: "caches \<Rightarrow> time \<Rightarrow> xmlArtistRelation \<Rightarrow> artistAliasRow list" where
  "getAliases c now a =
     (let t = fst (artistTimestamp now a)
      in List.map_filter (\<lambda>r.
           if \<not> containsID (ArtistIDs c) (refID r) then None
           else Some \<lparr>aaArtistID = xarID a, aaAliasID = refID r, aaLastModifiedAt = t\<rparr>) (xarAliases a))"

definition getGroups :: "caches \<Rightarrow> time \<Rightarrow> xmlArtistRelation \<Rightarrow> artistGroupRow list" where
  "getGroups c now a =
     (let t = fst (artistTimestamp now a)
      in List.map_filter (\<lambda>r.
           if \<not> containsID (ArtistIDs c) (refID r) then None
           else Some \<lparr>agArtistID = xarID a, agGroupID = refID r, agLastModifiedAt = t\<rparr>) (xarGroups a))"

definition getMembers :: "caches \<Rightarrow> time \<Rightarrow> xmlArtistRelation \<Rightarrow> artistMemberRow list" where
  "getMembers c now a =
     (let t = fst (artistTimestamp now a)
      in List.map_filter (\<lambda>r.
           if \<not> containsID (ArtistIDs c) (refID r) then None
           else Some \<lparr>amArtistID = xarID a, amMemberID = refID r, amLastModifiedAt = t\<rparr>) (xarMembers a))"

section \<open>Labels\<close>

definition transformLabel :: "time \<Rightarrow> xmlLabel \<Rightarrow> labelRow" where
  "transformLabel t l =
     \<lparr>laID = xlID l, laCreatedAt = t, laLastModifiedAt = t, laName = filterStr (xlName l),
      laContactInfo = filterStr (xlContactInfo l), laProfile = filterStr (xlProfile l),
      laDataQuality = filterStr (xlDataQuality l)\<rparr>"

definition getLabel :: "time \<Rightarrow> xmlLabelRelation \<Rightarrow> labelRow" where
  "getLabel now l =
     (let t = fst (labelTimestamp now l)
      in \<lparr>laID = xlrID l, laCreatedAt = t, laLastModifiedAt = t, laName = filterStr (xlrName l),
          laContactInfo = filterStr (xlrContactInfo l), laProfile = filterStr (xlrProfile l),
          laDataQuality = filterStr (xlrDataQuality l)\<rparr>)"

definition getLabelUrls :: "time \<Rightarrow> xmlLabelRelation \<Rightarrow> labelURLRow list" where
  "getLabelUrls now l =
     (let t = fst (labelTimestamp now l)
      in List.map_filter (\<lambda>v. let url = trimSpace v in
           if url = [] then None
           else Some \<lparr>luLabelID = xlrID l, luHash = javaStringHash url, luURL = url, luIdentity = None,
                      luLastModifiedAt = t\<rparr>) (xlrURLs l))"

definition getSubLabels :: "caches \<Rightarrow> time \<Rightarrow> xmlLabelRelation \<Rightarrow> labelSubLabelRow list" where
  "getSubLabels c now l =
     (let t = fst (labelTimestamp now l)
      in List.map_filter (\<lambda>r.
           if \<not> containsID (LabelIDs c) (refID r) then None
           else Some \<lparr>lsParentLabelID = xlrID l, lsSubLabelID = refID r, lsLastModifiedAt = t\<rparr>) (xlrSubLabels l))"

section \<open>Masters\<close>

definition transformMaster :: "time \<Rightarrow> xmlMaster \<Rightarrow> masterRow" where
  "transformMaster t m =
     \<lparr>maID = xmID m, maCreatedAt = t, maLastModifiedAt = t, maTitle = filterStr (xmTitle m),
      maDataQuality = filterStr (xmDataQuality m), maYear = xmYear m, maMainReleaseID = xmMainReleaseID m\<rparr>"

definition getMaster :: "time \<Rightarrow> xmlMasterRelation \<Rightarrow> masterRow" where
  "getMaster now m =
     (let t = fst (masterTimestamp now m)
      in \<lparr>maID = xmrID m, maCreatedAt = t, maLastModifiedAt = t, maTitle = filterStr (xmrTitle m),
          maDataQuality = filterStr (xmrDataQuality m), maYear = xmrYear m, maMainReleaseID = xmrMainReleaseID m\<rparr>)"

definition getMasterStyles :: "time \<Rightarrow> xmlMasterRelation \<Rightarrow> masterStyleRow list" where
  "getMasterStyles now m =
     (let t = fst (masterTimestamp now m)
      in List.map_filter (\<lambda>v. let style = trimSpace v in
           if style = [] then None
           else Some \<lparr>msMasterID = xmrID m, msStyle = style, msLastModifiedAt = t\<rparr>) (xmrStyles m))"

definition getMasterGenres :: "time \<Rightarrow> xmlMasterRelation \<Rightarrow> masterGenreRow list" where
  "getMasterGenres now m =
     (let t = fst (masterTimestamp now m)
      in List.map_filter (\<lambda>v. let genre = trimSpace v in
           if genre = [] then None
           else Some \<lparr>mgMasterID = xmrID m, mgGenre = genre, mgLastModifiedAt = t\<rparr>) (xmrGenres m))"

definition getMasterVideos :: "time \<Rightarrow> xmlMasterRelation \<Rightarrow> masterVideoRow list" where
  "getMasterVideos now m =
     (let t = fst (masterTimestamp now m)
      in List.map_filter (\<lambda>v.
           let title = filterStr (xvTitle v); description = filterStr (xvDescription v);
               url = filterStr (Some (xvURL v));
               hashSource = stringValue title @ stringValue description @ stringValue url in
           if trimSpace hashSource = [] then None
           else Some \<lparr>mvMasterID = xmrID m, mvHash = javaStringHash hashSource, mvURL = url,
                      mvDescription = description, mvTitle = title, mvIdentity = None,
                      mvLastModifiedAt = t\<rparr>) (xmrVideos m))"

definition getMasterArtists :: "caches \<Rightarrow> time \<Rightarrow> xmlMasterRelation \<Rightarrow> masterArtistRow list" where
  "getMasterArtists c now m =
     (let t = fst (masterTimestamp now m)
      in List.map_filter (\<lambda>i.
           if \<not> containsID (ArtistIDs c) i then None
           else Some \<lparr>mtArtistID = i, mtMasterID = xmrID m, mtLastModifiedAt = t\<rparr>) (xmrArtists m))"

section \<open>Releases\<close>

definition parsedReleaseDate :: "string option \<Rightarrow> ymd option \<times> bool \<times> bool \<times> bool" where
  "parsedReleaseDate v =
     (case v of
        None \<Rightarrow> (None, False, False, False)
      | Some s \<Rightarrow>
          (case parseYMD s of
             (None, _, _) \<Rightarrow> (None, False, False, False)
           | (Some y, mo, dy) \<Rightarrow>
               (Some (y, case mo of None \<Rightarrow> 1 | Some m \<Rightarrow> m, case dy of None \<Rightarrow> 1 | Some d \<Rightarrow> d),
                True, mo \<noteq> None, dy \<noteq> None)))"

definition releaseItem ::
  "caches \<Rightarrow> int32 \<Rightarrow> string option \<Rightarrow> string option \<Rightarrow> string option \<Rightarrow> string option \<Rightarrow> string option
     \<Rightarrow> xmlReleaseMasterInfo \<Rightarrow> string option \<Rightarrow> time \<Rightarrow> releaseItemRow" where
  "releaseItem c i title country dataQuality listedReleaseDate notes masterInfo status t =
     (let masterID = (case miMasterID masterInfo of
                        None \<Rightarrow> None
                      | Some m \<Rightarrow> if containsID (MasterIDs c) m then Some m else None);
          (releaseDate, validYear, validMonth, validDay) = parsedReleaseDate listedReleaseDate
      in \<lparr>riID = i, riCreatedAt = t, riLastModifiedAt = t, riTitle = filterStr title,
          riCountry = filterStr country, riDataQuality = filterStr dataQuality, riReleaseDate = releaseDate,
          riHasValidYear = Some validYear, riHasValidMonth = Some validMonth, riHasValidDay = Some validDay,
          riListedReleaseDate = filterStr listedReleaseDate, riIsMaster = Some (miIsMaster masterInfo),
          riMasterID = masterID, riNotes = filterStr notes, riStatus = filterStr status\<rparr>)"

definition transformRelease :: "caches \<Rightarrow> time \<Rightarrow> xmlRelease \<Rightarrow> releaseItemRow" where
  "transformRelease c t r =
     releaseItem c (xrID r) (xrTitle r) (xrCountry r) (xrDataQuality r) (xrListedReleaseDate r) (xrNotes r)
       (xrMasterInfo r) (xrStatus r) t"

definition getRelease :: "caches \<Rightarrow> time \<Rightarrow> xmlReleaseRelation \<Rightarrow> releaseItemRow" where
  "getRelease c now r =
     releaseItem c (xrrID r) (xrrTitle r) (xrrCountry r) (xrrDataQuality r) (xrrListedReleaseDate r) (xrrNotes r)
       (xrrMasterInfo r) (xrrStatus r) (fst (releaseTimestamp now r))"

definition getWorks :: "caches \<Rightarrow> time \<Rightarrow> xmlReleaseRelation \<Rightarrow> releaseWorkRow list" where
  "getWorks c now r =
     (let t = fst (releaseTimestamp now r)
      in List.map_filter (\<lambda>w. let v = trimSpace (xwWork w) in
           if v = [] then None
           else if \<not> containsID (LabelIDs c) (xwLabelID w) then None
           else Some \<lparr>rwReleaseItemID = xrrID r, rwLabelID = xwLabelID w, rwWork = Some v,
                      rwHash = javaStringHash v, rwIdentity = None, rwLastModifiedAt = t\<rparr>) (xrrWorks r))"

definition getVideos :: "time \<Rightarrow> xmlReleaseRelation \<Rightarrow> releaseVideoRow list" where
  "getVideos now r =
     (let t = fst (releaseTimestamp now r)
      in List.map_filter (\<lambda>v.
           let title = filterStr (xvTitle v); description = filterStr (xvDescription v);
               url = filterStr (Some (xvURL v));
               hashSource = stringValue title @ stringValue description @ stringValue url in
           if trimSpace hashSource = [] then None
           else Some \<lparr>rvReleaseItemID = xrrID r, rvDescription = description, rvTitle = title, rvURL = url,
                      rvHash = javaStringHash hashSource, rvIdentity = None, rvLastModifiedAt = t\<rparr>) (xrrVideos r))"

definition getIdentifiers :: "time \<Rightarrow> xmlReleaseRelation \<Rightarrow> releaseIdentifierRow list" where
  "getIdentifiers now r =
     (let t = fst (releaseTimestamp now r)
      in List.map_filter (\<lambda>x.
           let description = filterStr (Some (xiDescription x)); identifierType = filterStr (Some (xiType x));
               v = filterStr (Some (xiValue x));
               hashSource = stringValue identifierType @ stringValue description @ stringValue v in
           if trimSpace hashSource = [] then None
           else Some \<lparr>rdReleaseItemID = xrrID r, rdDescription = description, rdType = identifierType, rdValue = v,
                      rdHash = javaStringHash hashSource, rdIdentity = None, rdLastModifiedAt = t\<rparr>)
           (xrrIdentifiers r))"

definition getTracks :: "time \<Rightarrow> xmlReleaseRelation \<Rightarrow> releaseTrackRow list" where
  "getTracks now r =
     (let t = fst (releaseTimestamp now r)
      in List.map_filter (\<lambda>x.
           let duration = filterStr (Some (xtDuration x)); position = filterStr (Some (xtPosition x));
               title = filterStr (Some (xtTitle x));
               hashSource = stringValue position @ stringValue title @ stringValue duration in
           if trimSpace hashSource = [] then None
           else Some \<lparr>rkReleaseItemID = xrrID r, rkDuration = duration, rkPosition = position, rkTitle = title,
                      rkHash = javaStringHash hashSource, rkIdentity = None, rkLastModifiedAt = t\<rparr>) (xrrTracks r))"

definition releaseFormatHashFieldSeparator :: string where
  "releaseFormatHashFieldSeparator = [CHR 0x00]"

definition releaseFormatHashNullValue :: string where
  "releaseFormatHashNullValue = [CHR 0x01]"

definition releaseFormatHashString :: "string option \<Rightarrow> string" where
  "releaseFormatHashString v = (case v of None \<Rightarrow> releaseFormatHashNullValue | Some s \<Rightarrow> s)"

definition releaseFormatHashSource ::
  "string option \<Rightarrow> string option \<Rightarrow> string option \<Rightarrow> string option \<Rightarrow> string" where
  "releaseFormatHashSource name description quantity txt =
     (let quantityValue = (case quantity of None \<Rightarrow> releaseFormatHashNullValue | Some q \<Rightarrow> q)
      in joinBy releaseFormatHashFieldSeparator
           [releaseFormatHashString name, releaseFormatHashString description, quantityValue,
            releaseFormatHashString txt])"

definition getFormats :: "time \<Rightarrow> xmlReleaseRelation \<Rightarrow> releaseFormatRow list" where
  "getFormats now r =
     (let t = fst (releaseTimestamp now r)
      in List.map_filter (\<lambda>f.
           let description = reducedDescription (xfDescriptions f); name = filterStr (xfName f);
               txt = filterStr (xfText f) in
           if name = None \<and> description = None \<and> txt = None then None
           else (let quantity = quantityInteger (xfQuantity f); quantityText = quantityCanonical (xfQuantity f);
                     hashSource = releaseFormatHashSource name description quantityText txt
                 in Some \<lparr>rfReleaseItemID = xrrID r, rfDescription = description, rfName = name,
                          rfQuantity = quantity, rfQuantityText = quantityText, rfText = txt,
                          rfHash = javaStringHash hashSource, rfIdentity = None, rfLastModifiedAt = t\<rparr>))
           (xrrFormats r))"

definition getCreditedArtists :: "caches \<Rightarrow> time \<Rightarrow> xmlReleaseRelation \<Rightarrow> releaseCreditedArtistRow list" where
  "getCreditedArtists c now r =
     (let t = fst (releaseTimestamp now r)
      in List.map_filter (\<lambda>a.
           if \<not> containsID (ArtistIDs c) (xcArtistID a) then None
           else (let role = trimSpace (xcRole a) in
             if role = [] then None
             else Some \<lparr>rcReleaseItemID = xrrID r, rcArtistID = xcArtistID a, rcRole = Some role,
                        rcHash = javaStringHash role, rcIdentity = None, rcLastModifiedAt = t\<rparr>))
           (xrrCreditedArtists r))"

definition getReleaseArtists :: "caches \<Rightarrow> time \<Rightarrow> xmlReleaseRelation \<Rightarrow> releaseArtistRow list" where
  "getReleaseArtists c now r =
     (let t = fst (releaseTimestamp now r)
      in List.map_filter (\<lambda>i.
           if \<not> containsID (ArtistIDs c) i then None
           else Some \<lparr>rtReleaseItemID = xrrID r, rtArtistID = i, rtLastModifiedAt = t\<rparr>) (xrrArtists r))"

definition getLabels :: "caches \<Rightarrow> time \<Rightarrow> xmlReleaseRelation \<Rightarrow> labelReleaseRow list" where
  "getLabels c now r =
     (let t = fst (releaseTimestamp now r)
      in collectFresh
           (\<lambda>l. if \<not> containsID (LabelIDs c) (xlbLabelID l) then None
                 else Some (xlbLabelID l, trimSpace (xlbCategoryNotation l)))
           (\<lambda>(labelID, categoryNotation).
              \<lparr>lrLabelID = labelID, lrReleaseItemID = xrrID r,
               lrCategoryNotation = filterStr (Some categoryNotation), lrLastModifiedAt = t\<rparr>)
           {} (xrrLabels r))"

definition freshText :: "string \<Rightarrow> string option" where
  "freshText v = (let s = trimSpace v in if s = [] then None else Some s)"

definition getReleaseStyles :: "time \<Rightarrow> xmlReleaseRelation \<Rightarrow> releaseStyleRow list" where
  "getReleaseStyles now r =
     (let t = fst (releaseTimestamp now r)
      in collectFresh freshText
           (\<lambda>s. \<lparr>rsReleaseItemID = xrrID r, rsStyle = s, rsLastModifiedAt = t\<rparr>) {} (xrrStyles r))"

definition getReleaseGenres :: "time \<Rightarrow> xmlReleaseRelation \<Rightarrow> releaseGenreRow list" where
  "getReleaseGenres now r =
     (let t = fst (releaseTimestamp now r)
      in collectFresh freshText
           (\<lambda>g. \<lparr>rgReleaseItemID = xrrID r, rgGenre = g, rgLastModifiedAt = t\<rparr>) {} (xrrGenres r))"

end
