(* ===== verification/Slots.thy ===== *)
theory Slots
  imports Dedupe
begin

text \<open>
  What \<open>deduplicateHashedRowsWithAllocator\<close> returns: which rows are kept, that the 32-bit keys
  of a scope never repeat, that a legacy hash stays with a row that has it, and that neither the
  iteration order of Go's maps nor the order of the rows in the chunk decides any of it. The
  locale \<open>hashed_relation\<close> is what a table's accessors must promise for this.
\<close>

section \<open>Applying the calls\<close>

lemma map_fst_callTargets [simp]: "map fst (callTargets calls) = map fst calls"
  by (induction calls) auto

lemma applyCalls_simps [simp]:
  "applyCalls setI [] rows = rows"
  "applyCalls setI ((p, h, d) # cs) rows = applyCalls setI cs (rows[p := setI (rows ! p) h d])"
  "applyCalls setI (xs @ ys) rows = applyCalls setI ys (applyCalls setI xs rows)"
  by (simp_all add: applyCalls_def)

lemma length_applyCalls [simp]: "length (applyCalls setI calls rows) = length rows"
  by (induction calls arbitrary: rows) auto

lemma applyCalls_nth:
  assumes "distinct (map fst calls)" and "q < length rows"
  shows "applyCalls setI calls rows ! q =
    (case map_of calls q of None \<Rightarrow> rows ! q | Some (h, d) \<Rightarrow> setI (rows ! q) h d)"
  using assms
proof (induction calls arbitrary: rows)
  case (Cons c cs)
  obtain p h d where c: "c = (p, h, d)" by (cases c) auto
  have IH: "applyCalls setI cs rows' ! q =
      (case map_of cs q of None \<Rightarrow> rows' ! q | Some (h, d) \<Rightarrow> setI (rows' ! q) h d)"
    if "length rows' = length rows" for rows'
    using Cons that by simp
  show ?case
  proof (cases "p = q")
    case True
    then have "map_of cs q = None" using Cons.prems c by (simp add: map_of_eq_None_iff)
    with True c Cons.prems show ?thesis by (simp add: IH)
  qed (auto simp: c IH split: option.splits)
qed simp

lemma allocateScopes_result:
  "allocateScopes table allocate setI scs rows =
    (if \<forall>s \<in> set scs. \<not> isl (allocate (snd s))
     then Inr (applyCalls setI (concat (map (\<lambda>s. projr (allocate (snd s))) scs)) rows)
     else Inl (SlotsExhausted table))"
proof (induction scs arbitrary: rows)
  case (Cons s scs)
  then show ?case by (cases s; cases "allocate (snd s)") auto
qed simp

section \<open>The calls of one scope\<close>

lemma rowTargets_sort:
  "set (rowTargets (sort_key f rows)) = (\<lambda>r. (hrow r, hdigest r)) ` set rows"
  by (simp add: rowTargets_def)

lemma map_fst_rowTargets: "map fst (rowTargets rows) = map hrow rows"
  by (simp add: rowTargets_def)

lemma groupRows_set:
  "set (groupRows scope hash dig rows k h) =
     {\<lparr>hrow = p, hdigest = dig (rows ! p)\<rparr> | p. p < length rows \<and> scope (rows ! p) = k \<and> hash (rows ! p) = h}"
  by (auto simp: groupRows_def)

lemma groupRows_distinct: "distinct (map hrow (groupRows scope hash dig rows k h))"
  by (simp add: groupRows_def comp_def)

lemma distinct_map_sort: "distinct (map f (sort_key g xs)) \<longleftrightarrow> distinct (map f xs)"
proof -
  have "mset (map f (sort_key g xs)) = mset (map f xs)" by simp
  then show ?thesis by (rule mset_eq_imp_distinct_iff)
qed

lemma groups_targets:
  assumes "distinct hs" and "\<forall>h. lookupGroup gs h = groupRows scope hash dig rows k h"
  shows "set (concat (map (\<lambda>h. rowTargets (sort_key hdigest (lookupGroup gs h))) hs)) =
      {(p, dig (rows ! p)) | p. p < length rows \<and> scope (rows ! p) = k \<and> hash (rows ! p) \<in> set hs} \<and>
    distinct (map fst (concat (map (\<lambda>h. rowTargets (sort_key hdigest (lookupGroup gs h))) hs)))"
  using assms(1)
proof (induction hs)
  case Nil
  then show ?case by simp
next
  case (Cons h hs)
  let ?T = "\<lambda>h. rowTargets (sort_key hdigest (lookupGroup gs h))"
  have head: "set (?T h) = {(p, dig (rows ! p)) | p. p < length rows \<and> scope (rows ! p) = k \<and> hash (rows ! p) = h}"
    using assms(2) by (auto simp: rowTargets_sort groupRows_def image_image)
  have IH: "set (concat (map ?T hs)) =
      {(p, dig (rows ! p)) | p. p < length rows \<and> scope (rows ! p) = k \<and> hash (rows ! p) \<in> set hs}"
    "distinct (map fst (concat (map ?T hs)))"
    using Cons by simp_all
  have "set (concat (map ?T (h # hs))) =
      {(p, dig (rows ! p)) | p. p < length rows \<and> scope (rows ! p) = k \<and> hash (rows ! p) \<in> set (h # hs)}"
    unfolding list.map concat.simps set_append IH(1) head by auto
  moreover have "distinct (map fst (?T h))"
    using groupRows_distinct assms(2) by (simp add: map_fst_rowTargets distinct_map_sort)
  moreover have "fst ` set (?T h) \<inter> fst ` set (concat (map ?T hs)) = {}"
  proof -
    have "hash (rows ! q) = h" if "q \<in> fst ` set (?T h)" for q using that unfolding head by auto
    moreover have "hash (rows ! q) \<in> set hs" if "q \<in> fst ` set (concat (map ?T hs))" for q
      using that unfolding IH(1) by auto
    moreover have "h \<notin> set hs" using Cons.prems by simp
    ultimately show ?thesis by blast
  qed
  ultimately show ?case using IH(2) by simp
qed

lemma lookupGroup_not_Nil: "h \<in> fst ` set gs \<longleftrightarrow> map_of gs h \<noteq> None"
  by (simp add: map_of_eq_None_iff)

text \<open>All facts about the calls for the scope \<open>k\<close>, over the kept rows.\<close>

lemma scope_calls:
  assumes inv: "hashedInv scope hash dig rs st" and sc: "(k, sc) \<in> set (scopes st)"
    and alloc: "assignRelationCompatibilitySlotsWith gen n sc = Inr calls"
  shows "set (callTargets calls) = {(p, dig (kept st ! p)) | p. p < length (kept st) \<and> scope (kept st ! p) = k}"
    and "distinct (map fst calls)" and "distinct (callHashes calls)"
    and "\<And>p h d. (p, h, d) \<in> set calls \<Longrightarrow> h \<in> reserved sc \<Longrightarrow>
        (p, d) = hd (rowTargets (sort_key hdigest (groupRows scope hash dig (kept st) k h)))"
    and "reserved sc \<subseteq> set (callHashes calls)"
proof -
  have g: "reserved sc = hash ` {r \<in> set (kept st). scope r = k}" "distinct (map fst (groups sc))"
    "fst ` set (groups sc) = reserved sc"
    "\<forall>h. lookupGroup (groups sc) h = groupRows scope hash dig (kept st) k h"
    using inv sc unfolding hashedInv_def by (auto dest!: bspec [OF _ sc])
  let ?hs = "sort_key sint (map fst (groups sc))"
  have hs: "distinct ?hs" "set ?hs = reserved sc" using g by simp_all
  have "assignGroups gen n (reserved sc) (groups sc) ?hs {} [] = Inr calls"
    using alloc by (simp add: assignRelationCompatibilitySlotsWith_def)
  from assignGroups_spec [OF this] hs have spec:
    "callTargets calls = concat (map (\<lambda>h. rowTargets (sort_key hdigest (lookupGroup (groups sc) h))) ?hs)"
    "distinct (callHashes calls)"
    "\<forall>p h d. (p, h, d) \<in> set calls \<longrightarrow> h \<in> reserved sc \<longrightarrow>
        h \<in> set ?hs \<and> (p, d) = hd (rowTargets (sort_key hdigest (lookupGroup (groups sc) h)))"
    "set ?hs \<subseteq> set (callHashes calls)"
    by auto
  have t: "set (concat (map (\<lambda>h. rowTargets (sort_key hdigest (lookupGroup (groups sc) h))) ?hs)) =
      {(p, dig (kept st ! p)) | p. p < length (kept st) \<and> scope (kept st ! p) = k \<and> hash (kept st ! p) \<in> set ?hs}"
    "distinct (map fst (concat (map (\<lambda>h. rowTargets (sort_key hdigest (lookupGroup (groups sc) h))) ?hs)))"
    using groups_targets [OF hs(1) g(4)] by simp_all
  have "p < length (kept st) \<Longrightarrow> scope (kept st ! p) = k \<Longrightarrow> hash (kept st ! p) \<in> reserved sc" for p
    using g(1) by auto
  then show "set (callTargets calls) = {(p, dig (kept st ! p)) | p. p < length (kept st) \<and> scope (kept st ! p) = k}"
    unfolding spec(1) t(1) hs(2) by blast
  show "distinct (map fst calls)" using t(2) spec(1) map_fst_callTargets by metis
  show "distinct (callHashes calls)" by (rule spec(2))
  show "(p, d) = hd (rowTargets (sort_key hdigest (groupRows scope hash dig (kept st) k h)))"
    if "(p, h, d) \<in> set calls" "h \<in> reserved sc" for p h d
    using spec(3) that g(4) by auto
  show "reserved sc \<subseteq> set (callHashes calls)" using spec(4) hs by simp
qed

section \<open>The calls of all scopes\<close>

definition slotCalls :: "(digest \<Rightarrow> uint32 \<Rightarrow> int32) \<Rightarrow> nat \<Rightarrow> ('k \<times> hashedScope) list \<Rightarrow> setCall list" where
  "slotCalls gen n scs = concat (map (\<lambda>s. projr (assignRelationCompatibilitySlotsWith gen n (snd s))) scs)"

abbreviation allocated :: "(digest \<Rightarrow> uint32 \<Rightarrow> int32) \<Rightarrow> nat \<Rightarrow> ('k \<times> hashedScope) list \<Rightarrow> bool" where
  "allocated gen n scs \<equiv> \<forall>s \<in> set scs. \<not> isl (assignRelationCompatibilitySlotsWith gen n (snd s))"

lemma slotCalls_pointers:
  assumes inv: "hashedInv scope hash dig rs st"
    and "set scs \<subseteq> set (scopes st)" and "distinct (map fst scs)" and "allocated gen n scs"
  shows "fst ` set (slotCalls gen n scs) = {p. p < length (kept st) \<and> scope (kept st ! p) \<in> fst ` set scs} \<and>
    distinct (map fst (slotCalls gen n scs))"
  using assms(2-4)
proof (induction scs)
  case Nil
  then show ?case by (simp add: slotCalls_def)
next
  case (Cons s scs)
  obtain k sc where s: "s = (k, sc)" by (cases s)
  obtain c where c: "assignRelationCompatibilitySlotsWith gen n sc = Inr c"
    using Cons.prems s by (cases "assignRelationCompatibilitySlotsWith gen n sc") auto
  have mem: "(k, sc) \<in> set (scopes st)" using Cons.prems s by simp
  note calls = scope_calls [OF inv mem c]
  have split: "slotCalls gen n (s # scs) = c @ slotCalls gen n scs" using s c by (simp add: slotCalls_def)
  have "fst ` set c = fst ` set (callTargets c)" by (metis list.set_map map_fst_callTargets)
  also have "\<dots> = {p. p < length (kept st) \<and> scope (kept st ! p) = k}"
    unfolding calls(1) by force
  finally have head: "fst ` set c = {p. p < length (kept st) \<and> scope (kept st ! p) = k}" .
  have IH: "fst ` set (slotCalls gen n scs) = {p. p < length (kept st) \<and> scope (kept st ! p) \<in> fst ` set scs}"
    "distinct (map fst (slotCalls gen n scs))"
    using Cons by auto
  have "k \<notin> fst ` set scs" using Cons.prems s by auto
  then have "fst ` set c \<inter> fst ` set (slotCalls gen n scs) = {}" unfolding head IH(1) by auto
  then have "distinct (map fst (slotCalls gen n (s # scs)))"
    using calls(2) IH(2) by (simp add: split)
  moreover have "fst ` set (slotCalls gen n (s # scs)) =
      {p. p < length (kept st) \<and> scope (kept st ! p) \<in> fst ` set (s # scs)}"
    unfolding split set_append image_Un head IH(1) using s by auto
  ultimately show ?case by blast
qed

lemma slotCalls_row:
  assumes inv: "hashedInv scope hash dig rs st" and perm: "mset scs = mset (scopes st)"
    and ok: "allocated gen n scs" and q: "q < length (kept st)"
  shows "\<exists>sc c h. (scope (kept st ! q), sc) \<in> set (scopes st) \<and>
    assignRelationCompatibilitySlotsWith gen n sc = Inr c \<and> (q, h, dig (kept st ! q)) \<in> set c \<and>
    map_of (slotCalls gen n scs) q = Some (h, dig (kept st ! q))"
proof -
  have scs: "set scs = set (scopes st)" "distinct (map fst scs)"
    using perm inv mset_eq_setD mset_map mset_eq_imp_distinct_iff [of "map fst scs" "map fst (scopes st)"]
    by (auto simp: hashedInv_def dest: mset_eq_setD)
  have "scope (kept st ! q) \<in> fst ` set (scopes st)"
    using inv q by (simp add: hashedInv_def)
  then obtain sc where sc: "(scope (kept st ! q), sc) \<in> set (scopes st)" by auto
  then obtain c where c: "assignRelationCompatibilitySlotsWith gen n sc = Inr c"
    using ok scs by (cases "assignRelationCompatibilitySlotsWith gen n sc") auto
  have "(q, dig (kept st ! q)) \<in> set (callTargets c)"
    using q unfolding scope_calls(1) [OF inv sc c] by blast
  then obtain h where h: "(q, h, dig (kept st ! q)) \<in> set c" by (auto simp: callTargets_def)
  have "(q, h, dig (kept st ! q)) \<in> set (slotCalls gen n scs)"
    using h c sc scs by (force simp: slotCalls_def)
  moreover have "distinct (map fst (slotCalls gen n scs))"
    using slotCalls_pointers [OF inv _ scs(2) ok] scs by simp
  ultimately have "map_of (slotCalls gen n scs) q = Some (h, dig (kept st ! q))"
    by simp
  with sc c h show ?thesis by blast
qed

lemma callHashes_unique:
  "distinct (callHashes c) \<Longrightarrow> (p, h, d) \<in> set c \<Longrightarrow> (p', h, d') \<in> set c \<Longrightarrow> p = p' \<and> d = d'"
  by (induction c) (auto dest: callHashes_mem)

section \<open>The result\<close>

definition hashedResult ::
  "(digest \<Rightarrow> uint32 \<Rightarrow> int32) \<Rightarrow> nat \<Rightarrow> ('r \<Rightarrow> int32 \<Rightarrow> digest \<Rightarrow> 'r) \<Rightarrow> ('r \<Rightarrow> digest) \<Rightarrow> ('k, 'r) hashedState \<Rightarrow> 'r list" where
  "hashedResult gen n setI dig st =
     map (\<lambda>q. setI (kept st ! q) (fst (the (map_of (slotCalls gen n (scopes st)) q))) (dig (kept st ! q)))
       [0 ..< length (kept st)]"

text \<open>Whatever order \<open>iter\<close> visits the scopes in, the outcome is the same.\<close>

lemma dedupe_hashed_iff:
  assumes iter: "\<And>scs. mset (iter scs) = mset scs"
  shows "deduplicateHashedRowsWithAllocator iter table items scope hash dig equalPayload setI
      (assignRelationCompatibilitySlotsWith gen n) =
    (case hashedLoop table scope hash dig equalPayload 0 items emptyHashed of
       Inl e \<Rightarrow> Inl e
     | Inr st \<Rightarrow>
         if allocated gen n (scopes st) then Inr (hashedResult gen n setI dig st)
         else Inl (SlotsExhausted table))"
proof (cases "hashedLoop table scope hash dig equalPayload 0 items emptyHashed")
  case (Inl e)
  then show ?thesis by (simp add: deduplicateHashedRowsWithAllocator_def)
next
  case (Inr st)
  obtain rs where inv: "hashedInv scope hash dig rs st"
    using hashedLoop_inv [OF Inr emptyHashed_inv] by auto
  have set: "set (iter (scopes st)) = set (scopes st)" using iter by (rule mset_eq_setD)
  have "applyCalls setI (slotCalls gen n (iter (scopes st))) (kept st) = hashedResult gen n setI dig st"
    if ok: "allocated gen n (scopes st)"
  proof (rule nth_equalityI)
    fix q assume "q < length (applyCalls setI (slotCalls gen n (iter (scopes st))) (kept st))"
    then have q: "q < length (kept st)" by simp
    have ok': "allocated gen n (iter (scopes st))" using ok set by simp
    obtain sc c h where
      a: "(scope (kept st ! q), sc) \<in> set (scopes st)" "assignRelationCompatibilitySlotsWith gen n sc = Inr c"
        "(q, h, dig (kept st ! q)) \<in> set c"
        "map_of (slotCalls gen n (iter (scopes st))) q = Some (h, dig (kept st ! q))"
      using slotCalls_row [OF inv iter ok' q] by blast
    obtain sc' c' h' where
      b: "(scope (kept st ! q), sc') \<in> set (scopes st)" "assignRelationCompatibilitySlotsWith gen n sc' = Inr c'"
        "(q, h', dig (kept st ! q)) \<in> set c'"
        "map_of (slotCalls gen n (scopes st)) q = Some (h', dig (kept st ! q))"
      using slotCalls_row [OF inv refl ok q] by blast
    have "distinct (map fst (scopes st))" using inv by (simp add: hashedInv_def)
    from eq_key_imp_eq_value [OF this a(1) b(1)] have "sc = sc'" .
    then have "(q, h, dig (kept st ! q)) \<in> set c" "(q, h', dig (kept st ! q)) \<in> set c" using a b by auto
    then have "h = h'" using scope_calls(2) [OF inv a(1,2)] by (metis eq_key_imp_eq_value prod.inject)
    moreover have "distinct (map fst (iter (scopes st)))"
      using inv iter mset_eq_imp_distinct_iff [of "map fst (iter (scopes st))" "map fst (scopes st)"]
      by (simp add: hashedInv_def)
    then have "distinct (map fst (slotCalls gen n (iter (scopes st))))"
      using slotCalls_pointers [OF inv _ _ ok'] set by simp
    ultimately show "applyCalls setI (slotCalls gen n (iter (scopes st))) (kept st) ! q = hashedResult gen n setI dig st ! q"
      using q a b by (simp add: applyCalls_nth hashedResult_def)
  qed (simp add: hashedResult_def)
  then show ?thesis
    using Inr set by (simp add: deduplicateHashedRowsWithAllocator_def allocateScopes_result slotCalls_def)
qed

lemma hd_sort_key_least:
  assumes "x \<in> set xs"
  shows "f (hd (sort_key f xs)) \<le> f x"
proof -
  have "sort_key f xs \<noteq> []" using assms by (metis empty_iff list.set(1) set_sort)
  then obtain y ys where y: "sort_key f xs = y # ys" by (meson neq_Nil_conv)
  have "sorted (map f (y # ys))" using sorted_sort_key [of f xs] y by simp
  moreover have "x \<in> set (y # ys)" using assms y by (metis set_sort)
  ultimately show ?thesis using y by auto
qed

lemma hd_rowTargets: "xs \<noteq> [] \<Longrightarrow> hd (rowTargets xs) = (hrow (hd xs), hdigest (hd xs))"
  by (cases xs) auto

text \<open>The call that hands out a legacy hash goes to the least digest of that hash's group.\<close>

lemma legacy_call:
  assumes inv: "hashedInv scope hash dig rs st" and sc: "(k, sc) \<in> set (scopes st)"
    and alloc: "assignRelationCompatibilitySlotsWith gen n sc = Inr c"
    and call: "(p, h, d) \<in> set c" and legacy: "r \<in> set (kept st)" "scope r = k" "hash r = h"
  shows "p < length (kept st) \<and> hash (kept st ! p) = h \<and> scope (kept st ! p) = k \<and> dig (kept st ! p) = d \<and> d \<le> dig r"
proof -
  let ?G = "groupRows scope hash dig (kept st) k h"
  have "h \<in> reserved sc" using inv sc legacy unfolding hashedInv_def by (auto dest!: bspec [OF _ sc])
  from scope_calls(4) [OF inv sc alloc call this] have hd: "(p, d) = hd (rowTargets (sort_key hdigest ?G))" .
  obtain q where q: "q < length (kept st)" "kept st ! q = r" using legacy(1) by (auto simp: in_set_conv_nth)
  then have r: "\<lparr>hrow = q, hdigest = dig r\<rparr> \<in> set ?G" using legacy by (auto simp: groupRows_set)
  then have ne: "sort_key hdigest ?G \<noteq> []" by (metis empty_iff list.set(1) set_sort)
  have "hdigest (hd (sort_key hdigest ?G)) \<le> dig r" using hd_sort_key_least [OF r, of hdigest] by simp
  then have "d \<le> dig r" using hd ne by (simp add: hd_rowTargets)
  moreover have "hd (sort_key hdigest ?G) \<in> set ?G" using ne by (metis hd_in_set set_sort)
  then have "p < length (kept st) \<and> hash (kept st ! p) = h \<and> scope (kept st ! p) = k \<and> dig (kept st ! p) = d"
    using hd ne by (auto simp: hd_rowTargets groupRows_set)
  ultimately show ?thesis by blast
qed

lemma kept_subset: "hashedInv scope hash dig rs st \<Longrightarrow> set (kept st) \<subseteq> set rs"
  by (simp add: hashedInv_def firstsBy_subset)

lemma hashedInv_dom: "hashedInv scope hash dig rs st \<Longrightarrow> fst ` set (scopes st) = scope ` set (kept st)"
  by (simp add: hashedInv_def)

lemma hashedInv_triples:
  "hashedInv scope hash dig rs st \<Longrightarrow>
    (\<lambda>r. (scope r, dig r, hash r)) ` set rs \<subseteq> (\<lambda>r. (scope r, dig r, hash r)) ` set (kept st)"
  unfolding hashedInv_def by (elim conjE)

lemma hashedInv_reserved:
  "hashedInv scope hash dig rs st \<Longrightarrow> (k, sc) \<in> set (scopes st) \<Longrightarrow>
    reserved sc = hash ` {r \<in> set (kept st). scope r = k}"
  unfolding hashedInv_def by auto

lemma hashedInv_groups:
  assumes "hashedInv scope hash dig rs st" and "(k, sc) \<in> set (scopes st)"
  shows "distinct (map fst (groups sc)) \<and> fst ` set (groups sc) = reserved sc \<and>
    (\<forall>h. lookupGroup (groups sc) h = groupRows scope hash dig (kept st) k h)"
  using assms unfolding hashedInv_def by (elim conjE) (drule (1) bspec, simp)

lemma sint_inj: "inj (sint :: int32 \<Rightarrow> int)"
  by (rule injI) (rule signed_word_eqI)

locale hashed_relation =
  fixes scope :: "'r \<Rightarrow> 'k"
    and legacyHash :: "'r \<Rightarrow> int32"
    and dig :: "'r \<Rightarrow> digest"
    and setIdentity :: "'r \<Rightarrow> int32 \<Rightarrow> digest \<Rightarrow> 'r"
  assumes scope_set [simp]: "scope (setIdentity r h d) = scope r"
    and hash_set [simp]: "legacyHash (setIdentity r h d) = h"
    and dig_set [simp]: "dig (setIdentity r h d) = dig r"
begin

definition dedupe where
  "dedupe gen n table items equalPayload =
     deduplicateHashedRowsWithAllocator id table items scope legacyHash dig equalPayload setIdentity
       (assignRelationCompatibilitySlotsWith gen n)"

abbreviation keyOf :: "'r \<Rightarrow> 'k \<times> digest" where
  "keyOf \<equiv> \<lambda>r. (scope r, dig r)"

abbreviation tripleOf :: "'r \<Rightarrow> 'k \<times> digest \<times> int32" where
  "tripleOf \<equiv> \<lambda>r. (scope r, dig r, legacyHash r)"

lemma dedupe_Inr:
  assumes "dedupe gen n table items equalPayload = Inr out"
  obtains rs st where "items = map Some rs" and "hashedInv scope legacyHash dig rs st"
    and "allocated gen n (scopes st)" and "out = hashedResult gen n setIdentity dig st"
proof -
  have *: "deduplicateHashedRowsWithAllocator id table items scope legacyHash dig equalPayload setIdentity
      (assignRelationCompatibilitySlotsWith gen n) =
    (case hashedLoop table scope legacyHash dig equalPayload 0 items emptyHashed of
       Inl e \<Rightarrow> Inl e
     | Inr st \<Rightarrow> if allocated gen n (scopes st) then Inr (hashedResult gen n setIdentity dig st)
         else Inl (SlotsExhausted table))"
    by (rule dedupe_hashed_iff) simp
  obtain st where loop: "hashedLoop table scope legacyHash dig equalPayload 0 items emptyHashed = Inr st"
    and ok: "allocated gen n (scopes st)" and out: "out = hashedResult gen n setIdentity dig st"
    using assms unfolding dedupe_def * by (auto split: sum.splits if_splits)
  obtain rs where "items = map Some rs" "hashedInv scope legacyHash dig rs st"
    using hashedLoop_inv [OF loop emptyHashed_inv] by auto
  with ok out that show thesis by blast
qed

lemma result_row:
  assumes inv: "hashedInv scope legacyHash dig rs st" and ok: "allocated gen n (scopes st)"
    and q: "q < length (kept st)"
  obtains sc c h where "(scope (kept st ! q), sc) \<in> set (scopes st)"
    and "assignRelationCompatibilitySlotsWith gen n sc = Inr c" and "(q, h, dig (kept st ! q)) \<in> set c"
    and "hashedResult gen n setIdentity dig st ! q = setIdentity (kept st ! q) h (dig (kept st ! q))"
proof -
  obtain sc c h where a: "(scope (kept st ! q), sc) \<in> set (scopes st)"
    "assignRelationCompatibilitySlotsWith gen n sc = Inr c" "(q, h, dig (kept st ! q)) \<in> set c"
    "map_of (slotCalls gen n (scopes st)) q = Some (h, dig (kept st ! q))"
    using slotCalls_row [OF inv refl ok q] by blast
  then have "hashedResult gen n setIdentity dig st ! q = setIdentity (kept st ! q) h (dig (kept st ! q))"
    using q by (simp add: hashedResult_def)
  with a that show thesis by blast
qed

lemma result_keys: "map keyOf (hashedResult gen n setIdentity dig st) = map keyOf (kept st)"
  by (rule nth_equalityI) (auto simp: hashedResult_def)

text \<open>Exactly the first row of every scope and digest is returned, in the order of the chunk.\<close>

lemma dedupe_keys:
  assumes "dedupe gen n table items equalPayload = Inr out"
  shows "\<exists>rs. items = map Some rs \<and> map keyOf out = map keyOf (firstsBy keyOf {} rs)"
  using assms by (rule dedupe_Inr) (auto simp: result_keys hashedInv_def)

text \<open>No two rows of one scope are written with the same 32-bit key.\<close>

lemma dedupe_slots_distinct:
  assumes "dedupe gen n table items equalPayload = Inr out"
  shows "distinct (map (\<lambda>r. (scope r, legacyHash r)) out)"
proof -
  obtain rs st where inv: "hashedInv scope legacyHash dig rs st" and ok: "allocated gen n (scopes st)"
    and out: "out = hashedResult gen n setIdentity dig st"
    using assms by (rule dedupe_Inr)
  have len: "length out = length (kept st)" by (simp add: out hashedResult_def)
  have "i = j" if i: "i < length out" and j: "j < length out"
    and same: "scope (out ! i) = scope (out ! j)" "legacyHash (out ! i) = legacyHash (out ! j)" for i j
  proof -
    obtain sc c h where a: "(scope (kept st ! i), sc) \<in> set (scopes st)"
      "assignRelationCompatibilitySlotsWith gen n sc = Inr c" "(i, h, dig (kept st ! i)) \<in> set c"
      "out ! i = setIdentity (kept st ! i) h (dig (kept st ! i))"
      using result_row [OF inv ok] i len out by metis
    obtain sc' c' h' where b: "(scope (kept st ! j), sc') \<in> set (scopes st)"
      "assignRelationCompatibilitySlotsWith gen n sc' = Inr c'" "(j, h', dig (kept st ! j)) \<in> set c'"
      "out ! j = setIdentity (kept st ! j) h' (dig (kept st ! j))"
      using result_row [OF inv ok] j len out by metis
    have "scope (kept st ! i) = scope (kept st ! j)" and h: "h = h'" using same a(4) b(4) by simp_all
    moreover have "distinct (map fst (scopes st))" using inv by (simp add: hashedInv_def)
    ultimately have "sc = sc'" using a(1) b(1) by (metis eq_key_imp_eq_value)
    then have "c = c'" using a(2) b(2) by simp
    then show "i = j"
      using callHashes_unique [OF scope_calls(3) [OF inv a(1,2)]] a(3) b(3) h by blast
  qed
  then show ?thesis by (auto simp: distinct_conv_nth)
qed

lemma kept_triple:
  assumes "hashedInv scope legacyHash dig rs st"
  shows "tripleOf ` set rs = tripleOf ` set (kept st)"
proof -
  have "tripleOf ` set rs \<subseteq> tripleOf ` set (kept st)" using assms by (rule hashedInv_triples)
  moreover have "tripleOf ` set (kept st) \<subseteq> tripleOf ` set rs" by (rule image_mono) (rule kept_subset [OF assms])
  ultimately show ?thesis by (rule equalityI)
qed

text \<open>A row gets a 32-bit key that is a legacy hash of its scope only if it has that hash and no
  row with that hash has a smaller digest: legacy hashes are never taken over.\<close>

lemma dedupe_legacy_reserved:
  assumes "dedupe gen n table (map Some rs) equalPayload = Inr out"
    and "x \<in> set out" and "r \<in> set rs" and "scope r = scope x" and "legacyHash r = legacyHash x"
  shows "tripleOf x \<in> tripleOf ` set rs \<and> dig x \<le> dig r"
proof -
  obtain rs' st where rs: "map Some rs = map Some rs'" and inv: "hashedInv scope legacyHash dig rs' st"
    and ok: "allocated gen n (scopes st)" and out: "out = hashedResult gen n setIdentity dig st"
    using assms(1) by (rule dedupe_Inr)
  have "map the (map Some rs) = map the (map Some rs')" by (simp only: rs)
  then have "rs' = rs" by (simp add: comp_def)
  note triples = kept_triple [OF inv, unfolded this]
  obtain q where q: "q < length (kept st)" "x = hashedResult gen n setIdentity dig st ! q"
    using assms(2) out by (auto simp: in_set_conv_nth hashedResult_def)
  obtain sc c h where a: "(scope (kept st ! q), sc) \<in> set (scopes st)"
    "assignRelationCompatibilitySlotsWith gen n sc = Inr c" "(q, h, dig (kept st ! q)) \<in> set c"
    "x = setIdentity (kept st ! q) h (dig (kept st ! q))"
    using result_row [OF inv ok q(1)] q(2) by metis
  obtain r' where r': "r' \<in> set (kept st)" "tripleOf r' = tripleOf r"
    using assms(3) triples by (metis (no_types, lifting) imageE image_eqI)
  then have "legacyHash (kept st ! q) = h \<and> dig (kept st ! q) \<le> dig r'"
    using legacy_call [OF inv a(1-3), of r'] assms(4,5) a(4) by simp
  moreover have "tripleOf (kept st ! q) \<in> tripleOf ` set (kept st)" using q(1) by simp
  ultimately show ?thesis using a(4) r'(2) triples by simp
qed

lemma dedupe_legacy_kept:
  assumes "dedupe gen n table (map Some rs) equalPayload = Inr out"
    and "r \<in> set rs"
    and least: "\<And>r'. r' \<in> set rs \<Longrightarrow> scope r' = scope r \<Longrightarrow> legacyHash r' = legacyHash r \<Longrightarrow> dig r \<le> dig r'"
  shows "tripleOf r \<in> tripleOf ` set out"
proof -
  obtain rs' st where rs: "map Some rs = map Some rs'" and inv: "hashedInv scope legacyHash dig rs' st"
    and ok: "allocated gen n (scopes st)" and out: "out = hashedResult gen n setIdentity dig st"
    using assms(1) by (rule dedupe_Inr)
  have "map the (map Some rs) = map the (map Some rs')" by (simp only: rs)
  then have eq: "rs' = rs" by (simp add: comp_def)
  note triples = kept_triple [OF inv, unfolded eq]
  obtain r' where r': "r' \<in> set (kept st)" "tripleOf r' = tripleOf r"
    using assms(2) triples by (metis (no_types, lifting) imageE image_eqI)
  then have "scope r \<in> fst ` set (scopes st)" using hashedInv_dom [OF inv] by (metis image_eqI prod.inject)
  then obtain sc where sc: "(scope r, sc) \<in> set (scopes st)" by auto
  then obtain c where c: "assignRelationCompatibilitySlotsWith gen n sc = Inr c"
    using ok by (cases "assignRelationCompatibilitySlotsWith gen n sc") auto
  have "legacyHash r \<in> reserved sc"
    unfolding hashedInv_reserved [OF inv sc] using r' by (intro image_eqI [of _ _ r']) auto
  then have "legacyHash r \<in> set (callHashes c)" using scope_calls(5) [OF inv sc c] by blast
  then obtain p d where call: "(p, legacyHash r, d) \<in> set c" by (auto simp: callHashes_def)
  have p: "p < length (kept st)" "legacyHash (kept st ! p) = legacyHash r" "scope (kept st ! p) = scope r"
    "dig (kept st ! p) = d" "d \<le> dig r"
    using legacy_call [OF inv sc c call r'(1)] r'(2) by auto
  have "set (kept st) \<subseteq> set rs" using kept_subset [OF inv] eq by simp
  then have "kept st ! p \<in> set rs" using nth_mem [OF p(1)] by blast
  then have "dig r \<le> d" using least p by metis
  with p(5) have d: "d = dig r" by simp
  obtain sc' c' h where a: "(scope (kept st ! p), sc') \<in> set (scopes st)"
    "assignRelationCompatibilitySlotsWith gen n sc' = Inr c'" "(p, h, dig (kept st ! p)) \<in> set c'"
    "out ! p = setIdentity (kept st ! p) h (dig (kept st ! p))"
    using result_row [OF inv ok p(1)] out by metis
  have "distinct (map fst (scopes st))" using inv by (simp add: hashedInv_def)
  then have "sc' = sc" using a(1) sc p(3) by (metis eq_key_imp_eq_value)
  then have "(p, h, d) \<in> set c" using a c p by simp
  then have "h = legacyHash r"
    using call scope_calls(2) [OF inv sc c] by (metis eq_key_imp_eq_value prod.inject)
  then have "tripleOf (out ! p) = tripleOf r" using a(4) p d by simp
  moreover have "p < length out" using p(1) out by (simp add: hashedResult_def)
  ultimately show ?thesis by (metis (no_types, lifting) image_eqI nth_mem)
qed

text \<open>The keys written do not depend on the order or the multiplicity of the rows of the chunk.\<close>

lemma group_digests:
  assumes "hashedInv scope legacyHash dig rs st"
  shows "map hdigest (sort_key hdigest (groupRows scope legacyHash dig (kept st) k h)) =
    sorted_list_of_set {d. (k, d, h) \<in> tripleOf ` set rs}"
proof -
  let ?G = "groupRows scope legacyHash dig (kept st) k h"
  have "distinct (map keyOf (kept st))"
    using assms by (simp add: hashedInv_def firstsBy_distinct)
  then have inj: "i < length (kept st) \<Longrightarrow> j < length (kept st) \<Longrightarrow> keyOf (kept st ! i) = keyOf (kept st ! j) \<Longrightarrow> i = j" for i j
    by (auto simp: distinct_conv_nth)
  have "distinct (map hdigest ?G)"
    unfolding groupRows_def map_map comp_def hashedRow.simps distinct_map
    by (auto simp: inj_on_def intro!: inj)
  then have "distinct (map hdigest (sort_key hdigest ?G))" by (simp only: distinct_map_sort)
  moreover have "sorted (map hdigest (sort_key hdigest ?G))" by simp
  moreover have "set (map hdigest (sort_key hdigest ?G)) = {d. (k, d, h) \<in> tripleOf ` set (kept st)}"
    by (simp add: groupRows_def image_image) (auto simp: image_iff in_set_conv_nth Bex_def)
  ultimately show ?thesis
    using sorted_list_of_set.idem_if_sorted_distinct [of "map hdigest (sort_key hdigest ?G)"]
    by (simp only: kept_triple [OF assms])
qed

lemma scope_hashes:
  assumes inv: "hashedInv scope legacyHash dig rs st" and sc: "(k, sc) \<in> set (scopes st)"
  shows "map sint (sort_key sint (map fst (groups sc))) = sorted_list_of_set (sint ` {h. \<exists>d. (k, d, h) \<in> tripleOf ` set rs})"
proof -
  let ?hs = "map sint (sort_key sint (map fst (groups sc)))"
  have g: "distinct (map fst (groups sc))" "fst ` set (groups sc) = reserved sc"
    using hashedInv_groups [OF inv sc] by simp_all
  have "distinct ?hs"
    unfolding distinct_map_sort using distinct_map [of sint "map fst (groups sc)"] g(1) sint_inj
    by (simp add: inj_on_subset [of sint UNIV])
  moreover have "sorted ?hs" by simp
  moreover have "set ?hs = sint ` {h. \<exists>d. (k, d, h) \<in> tripleOf ` set (kept st)}"
    using g(2) hashedInv_reserved [OF inv sc] by auto
  ultimately show ?thesis
    using sorted_list_of_set.idem_if_sorted_distinct [of ?hs] by (simp only: kept_triple [OF inv])
qed

lemma scope_plan:
  assumes inv: "hashedInv scope legacyHash dig rs st" and sc: "(k, sc) \<in> set (scopes st)"
    and inv': "hashedInv scope legacyHash dig rs' st'" and sc': "(k, sc') \<in> set (scopes st')"
    and same: "tripleOf ` set rs = tripleOf ` set rs'"
  shows "map_sum id (map snd) (assignRelationCompatibilitySlotsWith gen n sc) =
    map_sum id (map snd) (assignRelationCompatibilitySlotsWith gen n sc')"
proof -
  have "map sint (sort_key sint (map fst (groups sc))) = map sint (sort_key sint (map fst (groups sc')))"
    unfolding scope_hashes [OF inv sc] scope_hashes [OF inv' sc'] same ..
  then have hs: "sort_key sint (map fst (groups sc)) = sort_key sint (map fst (groups sc'))"
    by (metis (mono_tags, lifting) list.inj_map_strong signed_word_eqI)
  have res: "reserved sc = reserved sc'"
    using hashedInv_groups [OF inv sc] hashedInv_groups [OF inv' sc'] arg_cong [OF hs, of set] by simp
  have "map hdigest (sort_key hdigest (lookupGroup (groups sc) h)) =
      map hdigest (sort_key hdigest (lookupGroup (groups sc') h))" for h
    using hashedInv_groups [OF inv sc] hashedInv_groups [OF inv' sc']
    by (simp only: group_digests [OF inv] group_digests [OF inv'] same)
  then show ?thesis
    unfolding assignRelationCompatibilitySlotsWith_def hs res
    by (intro assignGroups_cong) simp_all
qed

lemma dedupe_order_subset:
  assumes out: "dedupe gen n table (map Some rs) equalPayload = Inr out"
    and out': "dedupe gen n table (map Some rs') equalPayload = Inr out'"
    and same: "set rs = set rs'"
  shows "tripleOf ` set out \<subseteq> tripleOf ` set out'"
proof
  fix t assume "t \<in> tripleOf ` set out"
  then obtain q0 where q0: "q0 < length out" "t = tripleOf (out ! q0)" by (auto simp: in_set_conv_nth)
  obtain rs1 st where rs1: "map Some rs = map Some rs1" and inv: "hashedInv scope legacyHash dig rs1 st"
    and ok: "allocated gen n (scopes st)" and o: "out = hashedResult gen n setIdentity dig st"
    using out by (rule dedupe_Inr)
  obtain rs2 st' where rs2: "map Some rs' = map Some rs2" and inv': "hashedInv scope legacyHash dig rs2 st'"
    and ok': "allocated gen n (scopes st')" and o': "out' = hashedResult gen n setIdentity dig st'"
    using out' by (rule dedupe_Inr)
  have "map the (map Some rs) = map the (map Some rs1)" "map the (map Some rs') = map the (map Some rs2)"
    by (simp_all only: rs1 rs2)
  then have eq: "rs1 = rs" "rs2 = rs'" by (simp_all add: comp_def)
  have q: "q0 < length (kept st)" using q0(1) o by (simp add: hashedResult_def)
  obtain sc c h where a: "(scope (kept st ! q0), sc) \<in> set (scopes st)"
    "assignRelationCompatibilitySlotsWith gen n sc = Inr c" "(q0, h, dig (kept st ! q0)) \<in> set c"
    "out ! q0 = setIdentity (kept st ! q0) h (dig (kept st ! q0))"
    using result_row [OF inv ok q] o by metis
  have triples: "tripleOf ` set (kept st) = tripleOf ` set (kept st')"
    using kept_triple [OF inv] kept_triple [OF inv'] same eq by simp
  have "scope ` set (kept st) = fst ` (tripleOf ` set (kept st))" by (simp add: image_image)
  also have "\<dots> = scope ` set (kept st')" unfolding triples by (simp add: image_image)
  finally have "scope (kept st ! q0) \<in> fst ` set (scopes st')"
    using q hashedInv_dom [OF inv'] by (metis image_eqI nth_mem)
  then obtain sc' where sc': "(scope (kept st ! q0), sc') \<in> set (scopes st')" by auto
  then obtain c' where c': "assignRelationCompatibilitySlotsWith gen n sc' = Inr c'"
    using ok' by (cases "assignRelationCompatibilitySlotsWith gen n sc'") auto
  have "map snd c = map snd c'"
    using scope_plan [OF inv a(1) inv' sc', of gen n] same eq a(2) c' by simp
  moreover have "(h, dig (kept st ! q0)) \<in> set (map snd c)" using a(3) by force
  ultimately have "(h, dig (kept st ! q0)) \<in> set (map snd c')" by simp
  then obtain p where p: "(p, h, dig (kept st ! q0)) \<in> set c'" by auto
  then have "(p, dig (kept st ! q0)) \<in> set (callTargets c')" by (force simp: callTargets_def)
  then have pk: "p < length (kept st')" "scope (kept st' ! p) = scope (kept st ! q0)" "dig (kept st' ! p) = dig (kept st ! q0)"
    unfolding scope_calls(1) [OF inv' sc' c'] by auto
  obtain sc2 c2 h2 where b: "(scope (kept st' ! p), sc2) \<in> set (scopes st')"
    "assignRelationCompatibilitySlotsWith gen n sc2 = Inr c2" "(p, h2, dig (kept st' ! p)) \<in> set c2"
    "out' ! p = setIdentity (kept st' ! p) h2 (dig (kept st' ! p))"
    using result_row [OF inv' ok' pk(1)] o' by metis
  have "distinct (map fst (scopes st'))" using inv' by (simp add: hashedInv_def)
  then have "sc2 = sc'" using b(1) sc' pk(2) by (metis eq_key_imp_eq_value)
  then have "h2 = h"
    using b c' p scope_calls(2) [OF inv' sc' c'] pk by (metis eq_key_imp_eq_value prod.inject sum.inject(2))
  then have "tripleOf (out' ! p) = t" using q0(2) a(4) b(4) pk by simp
  moreover have "p < length out'" using pk(1) o' by (simp add: hashedResult_def)
  ultimately show "t \<in> tripleOf ` set out'" by (metis (no_types, lifting) image_eqI nth_mem)
qed

lemma dedupe_order_irrelevant:
  "dedupe gen n table (map Some rs) equalPayload = Inr out \<Longrightarrow>
    dedupe gen n table (map Some rs') equalPayload = Inr out' \<Longrightarrow> set rs = set rs' \<Longrightarrow>
    tripleOf ` set out = tripleOf ` set out'"
  using dedupe_order_subset [of gen n table rs equalPayload out rs' out']
    dedupe_order_subset [of gen n table rs' equalPayload out' rs out] by blast

text \<open>Every row returned is a row of the chunk with only its key and identity columns set.\<close>

lemma dedupe_rows:
  assumes "dedupe gen n table (map Some rs) equalPayload = Inr out" and "x \<in> set out"
  shows "\<exists>r \<in> set rs. \<exists>h. x = setIdentity r h (dig r)"
proof -
  obtain rs' st where rs: "map Some rs = map Some rs'" and inv: "hashedInv scope legacyHash dig rs' st"
    and ok: "allocated gen n (scopes st)" and out: "out = hashedResult gen n setIdentity dig st"
    using assms(1) by (rule dedupe_Inr)
  have "map the (map Some rs) = map the (map Some rs')" by (simp only: rs)
  then have "rs' = rs" by (simp add: comp_def)
  then have "set (kept st) \<subseteq> set rs" using kept_subset [OF inv] by simp
  moreover obtain q where "q < length (kept st)"
    "x = setIdentity (kept st ! q) (fst (the (map_of (slotCalls gen n (scopes st)) q))) (dig (kept st ! q))"
    using assms(2) by (auto simp: out hashedResult_def)
  moreover have "kept st ! q \<in> set (kept st)" using calculation(2) by simp
  ultimately show ?thesis by (intro bexI [of _ "kept st ! q"]) auto
qed

lemma dedupe_all_some:
  assumes "dedupe gen n table items equalPayload = Inr out"
  obtains rs where "items = map Some rs"
  using assms by (rule dedupe_Inr) simp

end

text \<open>Rows that agree whenever they share scope and digest are never rejected by the loop.\<close>

lemma hashedLoop_total:
  assumes "hashedInv scope hash dig rs st"
    and "\<And>r r'. r \<in> set (rs @ rs') \<Longrightarrow> r' \<in> set rs' \<Longrightarrow> scope r = scope r' \<Longrightarrow> dig r = dig r' \<Longrightarrow>
      equalPayload r r' \<and> hash r = hash r'"
  shows "\<exists>st'. hashedLoop table scope hash dig equalPayload index (map Some rs') st = Inr st'"
  using assms
proof (induction rs' arbitrary: index rs st)
  case Nil
  then show ?case by simp
next
  case (Cons r rs')
  show ?case
  proof (cases "rowsByIdentity st (scope r) (dig r)")
    case None
    have "\<exists>st'. hashedLoop table scope hash dig equalPayload (Suc index) (map Some rs')
        (keepRow (scope r) (hash r) (dig r) r st) = Inr st'"
      using Cons.prems(2) by (intro Cons.IH [OF keepRow_inv [OF Cons.prems(1) None]]) simp
    with None show ?thesis by simp
  next
    case (Some p)
    then have p: "p \<in> set (kept st)" "scope p = scope r" "dig p = dig r"
      using hashedInv_known [OF Cons.prems(1), of "scope r" "dig r"] by simp_all
    then have "p \<in> set rs" using kept_subset [OF Cons.prems(1)] by blast
    then have same: "equalPayload p r" "hash p = hash r" using Cons.prems(2) [of p r] p by simp_all
    have "\<exists>st'. hashedLoop table scope hash dig equalPayload (Suc index) (map Some rs') st = Inr st'"
      using Cons.prems(2) by (intro Cons.IH [OF skipRow_inv [OF Cons.prems(1) Some same(2)]]) simp
    with Some same show ?thesis by simp
  qed
qed

lemma dedupe_no_conflict:
  assumes "\<And>r r'. r \<in> set rs \<Longrightarrow> r' \<in> set rs \<Longrightarrow> scope r = scope r' \<Longrightarrow> dig r = dig r' \<Longrightarrow>
      equalPayload r r' \<and> hash r = hash r'"
  shows "case deduplicateHashedRowsWithAllocator iter table (map Some rs) scope hash dig equalPayload setI allocate of
    Inl e \<Rightarrow> e = SlotsExhausted table | Inr out \<Rightarrow> True"
proof -
  have "\<exists>st. hashedLoop table scope hash dig equalPayload 0 (map Some rs) emptyHashed = Inr st"
    by (rule hashedLoop_total [OF emptyHashed_inv]) (unfold append_Nil, rule assms)
  then obtain st where "hashedLoop table scope hash dig equalPayload 0 (map Some rs) emptyHashed = Inr st"
    by (rule exE)
  then show ?thesis
    by (simp add: deduplicateHashedRowsWithAllocator_def allocateScopes_result split: sum.splits)
qed

lemma distinct_map_finer:
  "distinct (map f xs) \<Longrightarrow> (\<And>x y. g x = g y \<Longrightarrow> f x = f y) \<Longrightarrow> distinct (map g xs)"
  unfolding distinct_map inj_on_def by blast

end
