(* ===== verification/Table_Dedupe.thy ===== *)
theory Table_Dedupe
  imports Slots Rows
begin

text \<open>
  The per-table instances of \<open>src/batch/release_dedupe.go\<close> and \<open>src/batch/canonical_rows.go\<close>:
  which columns are the key or scope of a row, which its payload, and how its SHA-256 identity
  is computed. Every hashed table interprets \<open>hashed_relation\<close>, every other one
  \<open>canonical_key\<close>. The scopes are visited in order of insertion: by \<open>dedupe_hashed_iff\<close> any
  other order of Go's map iteration gives the same outcome.
\<close>

definition equalOptionalValue :: "'a option \<Rightarrow> 'a option \<Rightarrow> bool" where
  "equalOptionalValue left right =
     (if left = None \<or> right = None then left = None \<and> right = None else the left = the right)"

lemma equalOptionalValue_eq [row_simps]: "equalOptionalValue left right \<longleftrightarrow> left = right"
  by (cases left; cases right) (auto simp: equalOptionalValue_def)

section \<open>Keys\<close>

type_synonym releaseIntegerKey = "int32 \<times> int32"
type_synonym releaseTextKey = "int32 \<times> string"
type_synonym releaseTwoIntegerKey = "int32 \<times> int32 \<times> int32"

record nullableStringKey =
  nkValue :: string
  nkValid :: bool

definition newNullableStringKey :: "string option \<Rightarrow> nullableStringKey" where
  "newNullableStringKey v =
     (case v of None \<Rightarrow> \<lparr>nkValue = [], nkValid = False\<rparr> | Some s \<Rightarrow> \<lparr>nkValue = s, nkValid = True\<rparr>)"

lemma newNullableStringKey_inject: "newNullableStringKey u = newNullableStringKey v \<longleftrightarrow> u = v"
  by (auto simp: newNullableStringKey_def split: option.splits)

section \<open>Allocators\<close>

definition assignCompatibilitySlots :: "relation \<Rightarrow> hashedScope \<Rightarrow> allocError + setCall list" where
  "assignCompatibilitySlots rel sc =
     assignRelationCompatibilitySlotsWith (compatibilitySlot rel) compatibilitySlotAttemptCount sc"

definition deduplicateHashedReleaseRows ::
  "string \<Rightarrow> relation \<Rightarrow> 'r option list \<Rightarrow> ('r \<Rightarrow> 'k) \<Rightarrow> ('r \<Rightarrow> int32) \<Rightarrow> ('r \<Rightarrow> digest) \<Rightarrow> ('r \<Rightarrow> 'r \<Rightarrow> bool)
     \<Rightarrow> ('r \<Rightarrow> int32 \<Rightarrow> digest \<Rightarrow> 'r) \<Rightarrow> dedupeError + 'r list" where
  "deduplicateHashedReleaseRows table rel items scope legacyHash dig equalPayload setIdentity =
     deduplicateHashedRowsWithAllocator id table items scope legacyHash dig equalPayload setIdentity
       (assignCompatibilitySlots rel)"

definition deduplicateHashedCatalogRows ::
  "string \<Rightarrow> catalogRelation \<Rightarrow> 'r option list \<Rightarrow> ('r \<Rightarrow> 'k) \<Rightarrow> ('r \<Rightarrow> int32) \<Rightarrow> ('r \<Rightarrow> digest) \<Rightarrow> ('r \<Rightarrow> 'r \<Rightarrow> bool)
     \<Rightarrow> ('r \<Rightarrow> int32 \<Rightarrow> digest \<Rightarrow> 'r) \<Rightarrow> dedupeError + 'r list" where
  "deduplicateHashedCatalogRows table rel items scope legacyHash dig equalPayload setIdentity =
     deduplicateHashedRowsWithAllocator id table items scope legacyHash dig equalPayload setIdentity
       (assignRelationCompatibilitySlotsWith (catalogCompatibilitySlot rel) compatibilitySlotAttemptCount)"

section \<open>Format quantities\<close>

definition canonicalizeReleaseFormatQuantity :: "releaseFormatRow \<Rightarrow> quantityError + releaseFormatRow" where
  "canonicalizeReleaseFormatQuantity row =
     (case rfQuantityText row of
        None \<Rightarrow>
          (case rfQuantity row of
             None \<Rightarrow> Inr row
           | Some q \<Rightarrow>
               if sint q < 0 then Inl QuantityNegative
               else Inr (row\<lparr>rfQuantityText := Some (formatInt (sint q))\<rparr>))
      | Some text \<Rightarrow>
          (case canonicalReleaseFormatQuantity text of
             Inl _ \<Rightarrow> Inl QuantityTextInvalid
           | Inr (canonical, Some expected) \<Rightarrow>
               if rfQuantity row \<noteq> None \<and> the (rfQuantity row) \<noteq> expected then Inl QuantityMismatch
               else Inr (row\<lparr>rfQuantityText := Some canonical, rfQuantity := Some expected\<rparr>)
           | Inr (canonical, None) \<Rightarrow>
               if rfQuantity row \<noteq> None then Inl OversizedWithInteger
               else Inr (row\<lparr>rfQuantityText := Some canonical\<rparr>)))"

fun canonicalizeFormats :: "nat \<Rightarrow> releaseFormatRow option list \<Rightarrow> dedupeError + releaseFormatRow option list" where
  "canonicalizeFormats index [] = Inr []"
| "canonicalizeFormats index (None # items) = map_sum id ((#) None) (canonicalizeFormats (Suc index) items)"
| "canonicalizeFormats index (Some item # items) =
     (case canonicalizeReleaseFormatQuantity item of
        Inl e \<Rightarrow> Inl (InvalidQuantity index e)
      | Inr row \<Rightarrow> map_sum id ((#) (Some row)) (canonicalizeFormats (Suc index) items))"

definition releaseFormatQuantityField :: "releaseFormatRow \<Rightarrow> idField" where
  "releaseFormatQuantityField row = stringField (rfQuantityText row)"

section \<open>Tables with a SHA-256 identity\<close>

definition releaseCreditedArtistsScope where
  "releaseCreditedArtistsScope row = (rcReleaseItemID row, rcArtistID row, 0 :: int32)"

definition releaseCreditedArtistsDigest :: "releaseCreditedArtistRow \<Rightarrow> digest" where
  "releaseCreditedArtistsDigest row = relationSum CreditedArtist [stringField (rcRole row)]"

definition releaseCreditedArtistsEqual :: "releaseCreditedArtistRow \<Rightarrow> releaseCreditedArtistRow \<Rightarrow> bool" where
  "releaseCreditedArtistsEqual left right \<longleftrightarrow>
     equalOptionalValue (rcRole left) (rcRole right)"

definition releaseCreditedArtistsSet :: "releaseCreditedArtistRow \<Rightarrow> int32 \<Rightarrow> digest \<Rightarrow> releaseCreditedArtistRow" where
  "releaseCreditedArtistsSet row h d = row\<lparr>rcHash := h, rcIdentity := Some d\<rparr>"

definition deduplicateReleaseCreditedArtists :: "releaseCreditedArtistRow option list \<Rightarrow> dedupeError + releaseCreditedArtistRow list" where
  "deduplicateReleaseCreditedArtists items =
     deduplicateHashedReleaseRows ''release_item_credited_artist'' CreditedArtist items
       releaseCreditedArtistsScope rcHash releaseCreditedArtistsDigest releaseCreditedArtistsEqual releaseCreditedArtistsSet"

interpretation rch: hashed_relation releaseCreditedArtistsScope rcHash releaseCreditedArtistsDigest releaseCreditedArtistsSet
  by unfold_locales
    (simp_all add: releaseCreditedArtistsScope_def releaseCreditedArtistsDigest_def releaseCreditedArtistsSet_def)

definition releaseWorksScope where
  "releaseWorksScope row = (rwReleaseItemID row, rwLabelID row, 0 :: int32)"

definition releaseWorksDigest :: "releaseWorkRow \<Rightarrow> digest" where
  "releaseWorksDigest row = relationSum Work [stringField (rwWork row)]"

definition releaseWorksEqual :: "releaseWorkRow \<Rightarrow> releaseWorkRow \<Rightarrow> bool" where
  "releaseWorksEqual left right \<longleftrightarrow>
     equalOptionalValue (rwWork left) (rwWork right)"

definition releaseWorksSet :: "releaseWorkRow \<Rightarrow> int32 \<Rightarrow> digest \<Rightarrow> releaseWorkRow" where
  "releaseWorksSet row h d = row\<lparr>rwHash := h, rwIdentity := Some d\<rparr>"

definition deduplicateReleaseWorks :: "releaseWorkRow option list \<Rightarrow> dedupeError + releaseWorkRow list" where
  "deduplicateReleaseWorks items =
     deduplicateHashedReleaseRows ''release_item_work'' Work items
       releaseWorksScope rwHash releaseWorksDigest releaseWorksEqual releaseWorksSet"

interpretation rwh: hashed_relation releaseWorksScope rwHash releaseWorksDigest releaseWorksSet
  by unfold_locales
    (simp_all add: releaseWorksScope_def releaseWorksDigest_def releaseWorksSet_def)

definition releaseFormatsScope where
  "releaseFormatsScope row = (rfReleaseItemID row, 0 :: int32)"

definition releaseFormatsDigest :: "releaseFormatRow \<Rightarrow> digest" where
  "releaseFormatsDigest row = relationSum Format [stringField (rfName row), stringField (rfDescription row), releaseFormatQuantityField row, stringField (rfText row)]"

definition releaseFormatsEqual :: "releaseFormatRow \<Rightarrow> releaseFormatRow \<Rightarrow> bool" where
  "releaseFormatsEqual left right \<longleftrightarrow>
     equalOptionalValue (rfDescription left) (rfDescription right) \<and>
     equalOptionalValue (rfName left) (rfName right) \<and>
     equalOptionalValue (rfQuantity left) (rfQuantity right) \<and>
     equalOptionalValue (rfQuantityText left) (rfQuantityText right) \<and>
     equalOptionalValue (rfText left) (rfText right)"

definition releaseFormatsSet :: "releaseFormatRow \<Rightarrow> int32 \<Rightarrow> digest \<Rightarrow> releaseFormatRow" where
  "releaseFormatsSet row h d = row\<lparr>rfHash := h, rfIdentity := Some d\<rparr>"

definition deduplicateReleaseFormats :: "releaseFormatRow option list \<Rightarrow> dedupeError + releaseFormatRow list" where
  "deduplicateReleaseFormats items =
     (case canonicalizeFormats 0 items of
        Inl e \<Rightarrow> Inl e
      | Inr items' \<Rightarrow>
          deduplicateHashedReleaseRows ''release_item_format'' Format items'
            releaseFormatsScope rfHash releaseFormatsDigest releaseFormatsEqual releaseFormatsSet)"

interpretation rfh: hashed_relation releaseFormatsScope rfHash releaseFormatsDigest releaseFormatsSet
  by unfold_locales
    (simp_all add: releaseFormatsScope_def releaseFormatsDigest_def releaseFormatsSet_def releaseFormatQuantityField_def)

definition releaseIdentifiersScope where
  "releaseIdentifiersScope row = (rdReleaseItemID row, 0 :: int32)"

definition releaseIdentifiersDigest :: "releaseIdentifierRow \<Rightarrow> digest" where
  "releaseIdentifiersDigest row = relationSum Identifier [stringField (rdType row), stringField (rdDescription row), stringField (rdValue row)]"

definition releaseIdentifiersEqual :: "releaseIdentifierRow \<Rightarrow> releaseIdentifierRow \<Rightarrow> bool" where
  "releaseIdentifiersEqual left right \<longleftrightarrow>
     equalOptionalValue (rdDescription left) (rdDescription right) \<and>
     equalOptionalValue (rdType left) (rdType right) \<and>
     equalOptionalValue (rdValue left) (rdValue right)"

definition releaseIdentifiersSet :: "releaseIdentifierRow \<Rightarrow> int32 \<Rightarrow> digest \<Rightarrow> releaseIdentifierRow" where
  "releaseIdentifiersSet row h d = row\<lparr>rdHash := h, rdIdentity := Some d\<rparr>"

definition deduplicateReleaseIdentifiers :: "releaseIdentifierRow option list \<Rightarrow> dedupeError + releaseIdentifierRow list" where
  "deduplicateReleaseIdentifiers items =
     deduplicateHashedReleaseRows ''release_item_identifier'' Identifier items
       releaseIdentifiersScope rdHash releaseIdentifiersDigest releaseIdentifiersEqual releaseIdentifiersSet"

interpretation rdh: hashed_relation releaseIdentifiersScope rdHash releaseIdentifiersDigest releaseIdentifiersSet
  by unfold_locales
    (simp_all add: releaseIdentifiersScope_def releaseIdentifiersDigest_def releaseIdentifiersSet_def)

definition releaseTracksScope where
  "releaseTracksScope row = (rkReleaseItemID row, 0 :: int32)"

definition releaseTracksDigest :: "releaseTrackRow \<Rightarrow> digest" where
  "releaseTracksDigest row = relationSum Track [stringField (rkPosition row), stringField (rkTitle row), stringField (rkDuration row)]"

definition releaseTracksEqual :: "releaseTrackRow \<Rightarrow> releaseTrackRow \<Rightarrow> bool" where
  "releaseTracksEqual left right \<longleftrightarrow>
     equalOptionalValue (rkDuration left) (rkDuration right) \<and>
     equalOptionalValue (rkPosition left) (rkPosition right) \<and>
     equalOptionalValue (rkTitle left) (rkTitle right)"

definition releaseTracksSet :: "releaseTrackRow \<Rightarrow> int32 \<Rightarrow> digest \<Rightarrow> releaseTrackRow" where
  "releaseTracksSet row h d = row\<lparr>rkHash := h, rkIdentity := Some d\<rparr>"

definition deduplicateReleaseTracks :: "releaseTrackRow option list \<Rightarrow> dedupeError + releaseTrackRow list" where
  "deduplicateReleaseTracks items =
     deduplicateHashedReleaseRows ''release_item_track'' Track items
       releaseTracksScope rkHash releaseTracksDigest releaseTracksEqual releaseTracksSet"

interpretation rkh: hashed_relation releaseTracksScope rkHash releaseTracksDigest releaseTracksSet
  by unfold_locales
    (simp_all add: releaseTracksScope_def releaseTracksDigest_def releaseTracksSet_def)

definition releaseVideosScope where
  "releaseVideosScope row = (rvReleaseItemID row, 0 :: int32)"

definition releaseVideosDigest :: "releaseVideoRow \<Rightarrow> digest" where
  "releaseVideosDigest row = relationSum Video [stringField (rvTitle row), stringField (rvDescription row), stringField (rvURL row)]"

definition releaseVideosEqual :: "releaseVideoRow \<Rightarrow> releaseVideoRow \<Rightarrow> bool" where
  "releaseVideosEqual left right \<longleftrightarrow>
     equalOptionalValue (rvDescription left) (rvDescription right) \<and>
     equalOptionalValue (rvTitle left) (rvTitle right) \<and>
     equalOptionalValue (rvURL left) (rvURL right)"

definition releaseVideosSet :: "releaseVideoRow \<Rightarrow> int32 \<Rightarrow> digest \<Rightarrow> releaseVideoRow" where
  "releaseVideosSet row h d = row\<lparr>rvHash := h, rvIdentity := Some d\<rparr>"

definition deduplicateReleaseVideos :: "releaseVideoRow option list \<Rightarrow> dedupeError + releaseVideoRow list" where
  "deduplicateReleaseVideos items =
     deduplicateHashedReleaseRows ''release_item_video'' Video items
       releaseVideosScope rvHash releaseVideosDigest releaseVideosEqual releaseVideosSet"

interpretation rvh: hashed_relation releaseVideosScope rvHash releaseVideosDigest releaseVideosSet
  by unfold_locales
    (simp_all add: releaseVideosScope_def releaseVideosDigest_def releaseVideosSet_def)

definition artistURLsScope where
  "artistURLsScope row = auArtistID row"

definition artistURLsDigest :: "artistURLRow \<Rightarrow> digest" where
  "artistURLsDigest row = catalogSum ArtistURL [stringField (Some (auURL row))]"

definition artistURLsEqual :: "artistURLRow \<Rightarrow> artistURLRow \<Rightarrow> bool" where
  "artistURLsEqual left right \<longleftrightarrow>
     auURL left = auURL right"

definition artistURLsSet :: "artistURLRow \<Rightarrow> int32 \<Rightarrow> digest \<Rightarrow> artistURLRow" where
  "artistURLsSet row h d = row\<lparr>auHash := h, auIdentity := Some d\<rparr>"

definition deduplicateArtistURLs :: "artistURLRow option list \<Rightarrow> dedupeError + artistURLRow list" where
  "deduplicateArtistURLs items =
     deduplicateHashedCatalogRows ''artist_url'' ArtistURL items
       artistURLsScope auHash artistURLsDigest artistURLsEqual artistURLsSet"

interpretation auh: hashed_relation artistURLsScope auHash artistURLsDigest artistURLsSet
  by unfold_locales
    (simp_all add: artistURLsScope_def artistURLsDigest_def artistURLsSet_def)

definition artistNameVariationsScope where
  "artistNameVariationsScope row = avArtistID row"

definition artistNameVariationsDigest :: "artistNameVariationRow \<Rightarrow> digest" where
  "artistNameVariationsDigest row = catalogSum ArtistNameVariation [stringField (Some (avNameVariation row))]"

definition artistNameVariationsEqual :: "artistNameVariationRow \<Rightarrow> artistNameVariationRow \<Rightarrow> bool" where
  "artistNameVariationsEqual left right \<longleftrightarrow>
     avNameVariation left = avNameVariation right"

definition artistNameVariationsSet :: "artistNameVariationRow \<Rightarrow> int32 \<Rightarrow> digest \<Rightarrow> artistNameVariationRow" where
  "artistNameVariationsSet row h d = row\<lparr>avHash := h, avIdentity := Some d\<rparr>"

definition deduplicateArtistNameVariations :: "artistNameVariationRow option list \<Rightarrow> dedupeError + artistNameVariationRow list" where
  "deduplicateArtistNameVariations items =
     deduplicateHashedCatalogRows ''artist_name_variation'' ArtistNameVariation items
       artistNameVariationsScope avHash artistNameVariationsDigest artistNameVariationsEqual artistNameVariationsSet"

interpretation avh: hashed_relation artistNameVariationsScope avHash artistNameVariationsDigest artistNameVariationsSet
  by unfold_locales
    (simp_all add: artistNameVariationsScope_def artistNameVariationsDigest_def artistNameVariationsSet_def)

definition labelURLsScope where
  "labelURLsScope row = luLabelID row"

definition labelURLsDigest :: "labelURLRow \<Rightarrow> digest" where
  "labelURLsDigest row = catalogSum LabelURL [stringField (Some (luURL row))]"

definition labelURLsEqual :: "labelURLRow \<Rightarrow> labelURLRow \<Rightarrow> bool" where
  "labelURLsEqual left right \<longleftrightarrow>
     luURL left = luURL right"

definition labelURLsSet :: "labelURLRow \<Rightarrow> int32 \<Rightarrow> digest \<Rightarrow> labelURLRow" where
  "labelURLsSet row h d = row\<lparr>luHash := h, luIdentity := Some d\<rparr>"

definition deduplicateLabelURLs :: "labelURLRow option list \<Rightarrow> dedupeError + labelURLRow list" where
  "deduplicateLabelURLs items =
     deduplicateHashedCatalogRows ''label_url'' LabelURL items
       labelURLsScope luHash labelURLsDigest labelURLsEqual labelURLsSet"

interpretation luh: hashed_relation labelURLsScope luHash labelURLsDigest labelURLsSet
  by unfold_locales
    (simp_all add: labelURLsScope_def labelURLsDigest_def labelURLsSet_def)

definition masterVideosScope where
  "masterVideosScope row = mvMasterID row"

definition masterVideosDigest :: "masterVideoRow \<Rightarrow> digest" where
  "masterVideosDigest row = catalogSum MasterVideo [stringField (mvTitle row), stringField (mvDescription row), stringField (mvURL row)]"

definition masterVideosEqual :: "masterVideoRow \<Rightarrow> masterVideoRow \<Rightarrow> bool" where
  "masterVideosEqual left right \<longleftrightarrow>
     equalOptionalValue (mvDescription left) (mvDescription right) \<and>
     equalOptionalValue (mvTitle left) (mvTitle right) \<and>
     equalOptionalValue (mvURL left) (mvURL right)"

definition masterVideosSet :: "masterVideoRow \<Rightarrow> int32 \<Rightarrow> digest \<Rightarrow> masterVideoRow" where
  "masterVideosSet row h d = row\<lparr>mvHash := h, mvIdentity := Some d\<rparr>"

definition deduplicateMasterVideos :: "masterVideoRow option list \<Rightarrow> dedupeError + masterVideoRow list" where
  "deduplicateMasterVideos items =
     deduplicateHashedCatalogRows ''master_video'' MasterVideo items
       masterVideosScope mvHash masterVideosDigest masterVideosEqual masterVideosSet"

interpretation mvh: hashed_relation masterVideosScope mvHash masterVideosDigest masterVideosSet
  by unfold_locales
    (simp_all add: masterVideosScope_def masterVideosDigest_def masterVideosSet_def)

section \<open>Tables with a natural key\<close>

definition releaseArtistsKey where
  "releaseArtistsKey row = (rtReleaseItemID row, rtArtistID row)"

definition releaseArtistsEqual :: "releaseArtistRow \<Rightarrow> releaseArtistRow \<Rightarrow> bool" where
  "releaseArtistsEqual left right \<longleftrightarrow>
     True"

definition deduplicateReleaseArtists :: "releaseArtistRow option list \<Rightarrow> dedupeError + releaseArtistRow list" where
  "deduplicateReleaseArtists items = deduplicateCanonicalRows ''release_item_artist'' items releaseArtistsKey releaseArtistsEqual"

interpretation rtk: canonical_key releaseArtistsKey releaseArtistsEqual "\<lambda>_. ()"
  by unfold_locales (simp add: releaseArtistsEqual_def)

definition releaseStylesKey where
  "releaseStylesKey row = (rsReleaseItemID row, rsStyle row)"

definition releaseStylesEqual :: "releaseStyleRow \<Rightarrow> releaseStyleRow \<Rightarrow> bool" where
  "releaseStylesEqual left right \<longleftrightarrow>
     True"

definition deduplicateReleaseStyles :: "releaseStyleRow option list \<Rightarrow> dedupeError + releaseStyleRow list" where
  "deduplicateReleaseStyles items = deduplicateCanonicalRows ''release_item_style'' items releaseStylesKey releaseStylesEqual"

interpretation rsk: canonical_key releaseStylesKey releaseStylesEqual "\<lambda>_. ()"
  by unfold_locales (simp add: releaseStylesEqual_def)

definition releaseGenresKey where
  "releaseGenresKey row = (rgReleaseItemID row, rgGenre row)"

definition releaseGenresEqual :: "releaseGenreRow \<Rightarrow> releaseGenreRow \<Rightarrow> bool" where
  "releaseGenresEqual left right \<longleftrightarrow>
     True"

definition deduplicateReleaseGenres :: "releaseGenreRow option list \<Rightarrow> dedupeError + releaseGenreRow list" where
  "deduplicateReleaseGenres items = deduplicateCanonicalRows ''release_item_genre'' items releaseGenresKey releaseGenresEqual"

interpretation rgk: canonical_key releaseGenresKey releaseGenresEqual "\<lambda>_. ()"
  by unfold_locales (simp add: releaseGenresEqual_def)

definition labelReleaseItemsKey where
  "labelReleaseItemsKey row = (lrReleaseItemID row, lrLabelID row, newNullableStringKey (lrCategoryNotation row))"

definition labelReleaseItemsEqual :: "labelReleaseRow \<Rightarrow> labelReleaseRow \<Rightarrow> bool" where
  "labelReleaseItemsEqual left right \<longleftrightarrow>
     True"

definition deduplicateLabelReleaseItems :: "labelReleaseRow option list \<Rightarrow> dedupeError + labelReleaseRow list" where
  "deduplicateLabelReleaseItems items = deduplicateCanonicalRows ''label_release_item'' items labelReleaseItemsKey labelReleaseItemsEqual"

interpretation lrk: canonical_key labelReleaseItemsKey labelReleaseItemsEqual "\<lambda>_. ()"
  by unfold_locales (simp add: labelReleaseItemsEqual_def)

definition releaseImagesKey where
  "releaseImagesKey row = (rmReleaseItemID row, rmHash row)"

definition releaseImagesEqual :: "releaseImageRow \<Rightarrow> releaseImageRow \<Rightarrow> bool" where
  "releaseImagesEqual left right \<longleftrightarrow>
     equalOptionalValue (rmFileName left) (rmFileName right)"

definition deduplicateReleaseImages :: "releaseImageRow option list \<Rightarrow> dedupeError + releaseImageRow list" where
  "deduplicateReleaseImages items = deduplicateCanonicalRows ''release_item_image'' items releaseImagesKey releaseImagesEqual"

interpretation rmk: canonical_key releaseImagesKey releaseImagesEqual "rmFileName"
  by unfold_locales (simp add: releaseImagesEqual_def equalOptionalValue_eq conj_ac)

definition artistsKey where
  "artistsKey row = arID row"

definition artistsEqual :: "artistRow \<Rightarrow> artistRow \<Rightarrow> bool" where
  "artistsEqual left right \<longleftrightarrow>
     equalOptionalValue (arDataQuality left) (arDataQuality right) \<and>
     equalOptionalValue (arName left) (arName right) \<and>
     equalOptionalValue (arProfile left) (arProfile right) \<and>
     equalOptionalValue (arRealName left) (arRealName right)"

definition deduplicateArtists :: "artistRow option list \<Rightarrow> dedupeError + artistRow list" where
  "deduplicateArtists items = deduplicateCanonicalRows ''artist'' items artistsKey artistsEqual"

interpretation ark: canonical_key artistsKey artistsEqual "\<lambda>row. (arDataQuality row, arName row, arProfile row, arRealName row)"
  by unfold_locales (simp add: artistsEqual_def equalOptionalValue_eq conj_ac)

definition artistAliasesKey where
  "artistAliasesKey row = (aaArtistID row, aaAliasID row)"

definition artistAliasesEqual :: "artistAliasRow \<Rightarrow> artistAliasRow \<Rightarrow> bool" where
  "artistAliasesEqual left right \<longleftrightarrow>
     True"

definition deduplicateArtistAliases :: "artistAliasRow option list \<Rightarrow> dedupeError + artistAliasRow list" where
  "deduplicateArtistAliases items = deduplicateCanonicalRows ''artist_alias'' items artistAliasesKey artistAliasesEqual"

interpretation aak: canonical_key artistAliasesKey artistAliasesEqual "\<lambda>_. ()"
  by unfold_locales (simp add: artistAliasesEqual_def)

definition artistGroupsKey where
  "artistGroupsKey row = (agArtistID row, agGroupID row)"

definition artistGroupsEqual :: "artistGroupRow \<Rightarrow> artistGroupRow \<Rightarrow> bool" where
  "artistGroupsEqual left right \<longleftrightarrow>
     True"

definition deduplicateArtistGroups :: "artistGroupRow option list \<Rightarrow> dedupeError + artistGroupRow list" where
  "deduplicateArtistGroups items = deduplicateCanonicalRows ''artist_group'' items artistGroupsKey artistGroupsEqual"

interpretation agk: canonical_key artistGroupsKey artistGroupsEqual "\<lambda>_. ()"
  by unfold_locales (simp add: artistGroupsEqual_def)

definition artistMembersKey where
  "artistMembersKey row = (amArtistID row, amMemberID row)"

definition artistMembersEqual :: "artistMemberRow \<Rightarrow> artistMemberRow \<Rightarrow> bool" where
  "artistMembersEqual left right \<longleftrightarrow>
     True"

definition deduplicateArtistMembers :: "artistMemberRow option list \<Rightarrow> dedupeError + artistMemberRow list" where
  "deduplicateArtistMembers items = deduplicateCanonicalRows ''artist_member'' items artistMembersKey artistMembersEqual"

interpretation amk: canonical_key artistMembersKey artistMembersEqual "\<lambda>_. ()"
  by unfold_locales (simp add: artistMembersEqual_def)

definition labelsKey where
  "labelsKey row = laID row"

definition labelsEqual :: "labelRow \<Rightarrow> labelRow \<Rightarrow> bool" where
  "labelsEqual left right \<longleftrightarrow>
     equalOptionalValue (laContactInfo left) (laContactInfo right) \<and>
     equalOptionalValue (laDataQuality left) (laDataQuality right) \<and>
     equalOptionalValue (laName left) (laName right) \<and>
     equalOptionalValue (laProfile left) (laProfile right)"

definition deduplicateLabels :: "labelRow option list \<Rightarrow> dedupeError + labelRow list" where
  "deduplicateLabels items = deduplicateCanonicalRows ''label'' items labelsKey labelsEqual"

interpretation lak: canonical_key labelsKey labelsEqual "\<lambda>row. (laContactInfo row, laDataQuality row, laName row, laProfile row)"
  by unfold_locales (simp add: labelsEqual_def equalOptionalValue_eq conj_ac)

definition labelSubLabelsKey where
  "labelSubLabelsKey row = (lsParentLabelID row, lsSubLabelID row)"

definition labelSubLabelsEqual :: "labelSubLabelRow \<Rightarrow> labelSubLabelRow \<Rightarrow> bool" where
  "labelSubLabelsEqual left right \<longleftrightarrow>
     True"

definition deduplicateLabelSubLabels :: "labelSubLabelRow option list \<Rightarrow> dedupeError + labelSubLabelRow list" where
  "deduplicateLabelSubLabels items = deduplicateCanonicalRows ''label_sub_label'' items labelSubLabelsKey labelSubLabelsEqual"

interpretation lsk: canonical_key labelSubLabelsKey labelSubLabelsEqual "\<lambda>_. ()"
  by unfold_locales (simp add: labelSubLabelsEqual_def)

definition mastersKey where
  "mastersKey row = maID row"

definition mastersEqual :: "masterRow \<Rightarrow> masterRow \<Rightarrow> bool" where
  "mastersEqual left right \<longleftrightarrow>
     equalOptionalValue (maDataQuality left) (maDataQuality right) \<and>
     equalOptionalValue (maTitle left) (maTitle right) \<and>
     equalOptionalValue (maYear left) (maYear right)"

definition deduplicateMasters :: "masterRow option list \<Rightarrow> dedupeError + masterRow list" where
  "deduplicateMasters items = deduplicateCanonicalRows ''master'' items mastersKey mastersEqual"

interpretation mak: canonical_key mastersKey mastersEqual "\<lambda>row. (maDataQuality row, maTitle row, maYear row)"
  by unfold_locales (simp add: mastersEqual_def equalOptionalValue_eq conj_ac)

definition masterArtistsKey where
  "masterArtistsKey row = (mtMasterID row, mtArtistID row)"

definition masterArtistsEqual :: "masterArtistRow \<Rightarrow> masterArtistRow \<Rightarrow> bool" where
  "masterArtistsEqual left right \<longleftrightarrow>
     True"

definition deduplicateMasterArtists :: "masterArtistRow option list \<Rightarrow> dedupeError + masterArtistRow list" where
  "deduplicateMasterArtists items = deduplicateCanonicalRows ''master_artist'' items masterArtistsKey masterArtistsEqual"

interpretation mtk: canonical_key masterArtistsKey masterArtistsEqual "\<lambda>_. ()"
  by unfold_locales (simp add: masterArtistsEqual_def)

definition masterGenresKey where
  "masterGenresKey row = (mgMasterID row, mgGenre row)"

definition masterGenresEqual :: "masterGenreRow \<Rightarrow> masterGenreRow \<Rightarrow> bool" where
  "masterGenresEqual left right \<longleftrightarrow>
     True"

definition deduplicateMasterGenres :: "masterGenreRow option list \<Rightarrow> dedupeError + masterGenreRow list" where
  "deduplicateMasterGenres items = deduplicateCanonicalRows ''master_genre'' items masterGenresKey masterGenresEqual"

interpretation mgk: canonical_key masterGenresKey masterGenresEqual "\<lambda>_. ()"
  by unfold_locales (simp add: masterGenresEqual_def)

definition masterStylesKey where
  "masterStylesKey row = (msMasterID row, msStyle row)"

definition masterStylesEqual :: "masterStyleRow \<Rightarrow> masterStyleRow \<Rightarrow> bool" where
  "masterStylesEqual left right \<longleftrightarrow>
     True"

definition deduplicateMasterStyles :: "masterStyleRow option list \<Rightarrow> dedupeError + masterStyleRow list" where
  "deduplicateMasterStyles items = deduplicateCanonicalRows ''master_style'' items masterStylesKey masterStylesEqual"

interpretation msk: canonical_key masterStylesKey masterStylesEqual "\<lambda>_. ()"
  by unfold_locales (simp add: masterStylesEqual_def)

definition releaseItemsKey where
  "releaseItemsKey row = riID row"

definition releaseItemsEqual :: "releaseItemRow \<Rightarrow> releaseItemRow \<Rightarrow> bool" where
  "releaseItemsEqual left right \<longleftrightarrow>
     equalOptionalValue (riCountry left) (riCountry right) \<and>
     equalOptionalValue (riDataQuality left) (riDataQuality right) \<and>
     equalOptionalValue (riHasValidDay left) (riHasValidDay right) \<and>
     equalOptionalValue (riHasValidMonth left) (riHasValidMonth right) \<and>
     equalOptionalValue (riHasValidYear left) (riHasValidYear right) \<and>
     equalOptionalValue (riIsMaster left) (riIsMaster right) \<and>
     equalOptionalValue (riMasterID left) (riMasterID right) \<and>
     equalOptionalValue (riListedReleaseDate left) (riListedReleaseDate right) \<and>
     equalOptionalValue (riNotes left) (riNotes right) \<and>
     equalOptionalValue (riReleaseDate left) (riReleaseDate right) \<and>
     equalOptionalValue (riStatus left) (riStatus right) \<and>
     equalOptionalValue (riTitle left) (riTitle right)"

definition deduplicateReleaseItems :: "releaseItemRow option list \<Rightarrow> dedupeError + releaseItemRow list" where
  "deduplicateReleaseItems items = deduplicateCanonicalRows ''release_item'' items releaseItemsKey releaseItemsEqual"

interpretation rik: canonical_key releaseItemsKey releaseItemsEqual "\<lambda>row. (riCountry row, riDataQuality row, riHasValidDay row, riHasValidMonth row, riHasValidYear row, riIsMaster row, riMasterID row, riListedReleaseDate row, riNotes row, riReleaseDate row, riStatus row, riTitle row)"
  by unfold_locales (simp add: releaseItemsEqual_def equalOptionalValue_eq conj_ac)

definition genresKey where
  "genresKey row = gnName row"

definition genresEqual :: "genreRow \<Rightarrow> genreRow \<Rightarrow> bool" where
  "genresEqual left right \<longleftrightarrow>
     True"

definition deduplicateGenres :: "genreRow option list \<Rightarrow> dedupeError + genreRow list" where
  "deduplicateGenres items = deduplicateCanonicalRows ''genre'' items genresKey genresEqual"

interpretation gnk: canonical_key genresKey genresEqual "\<lambda>_. ()"
  by unfold_locales (simp add: genresEqual_def)

definition stylesKey where
  "stylesKey row = syName row"

definition stylesEqual :: "styleRow \<Rightarrow> styleRow \<Rightarrow> bool" where
  "stylesEqual left right \<longleftrightarrow>
     True"

definition deduplicateStyles :: "styleRow option list \<Rightarrow> dedupeError + styleRow list" where
  "deduplicateStyles items = deduplicateCanonicalRows ''style'' items stylesKey stylesEqual"

interpretation syk: canonical_key stylesKey stylesEqual "\<lambda>_. ()"
  by unfold_locales (simp add: stylesEqual_def)

section \<open>The instances as uses of the contracts\<close>

lemmas release_defs = deduplicateHashedReleaseRows_def assignCompatibilitySlots_def [abs_def]

lemma as_contract:
  "deduplicateReleaseCreditedArtists ca = rch.dedupe (compatibilitySlot CreditedArtist) compatibilitySlotAttemptCount
     ''release_item_credited_artist'' ca releaseCreditedArtistsEqual"
  "deduplicateReleaseWorks ws = rwh.dedupe (compatibilitySlot Work) compatibilitySlotAttemptCount
     ''release_item_work'' ws releaseWorksEqual"
  "deduplicateReleaseIdentifiers ds = rdh.dedupe (compatibilitySlot Identifier) compatibilitySlotAttemptCount
     ''release_item_identifier'' ds releaseIdentifiersEqual"
  "deduplicateReleaseTracks ks = rkh.dedupe (compatibilitySlot Track) compatibilitySlotAttemptCount
     ''release_item_track'' ks releaseTracksEqual"
  "deduplicateReleaseVideos vs = rvh.dedupe (compatibilitySlot Video) compatibilitySlotAttemptCount
     ''release_item_video'' vs releaseVideosEqual"
  "deduplicateArtistURLs us = auh.dedupe (catalogCompatibilitySlot ArtistURL) compatibilitySlotAttemptCount
     ''artist_url'' us artistURLsEqual"
  "deduplicateArtistNameVariations ns = avh.dedupe (catalogCompatibilitySlot ArtistNameVariation)
     compatibilitySlotAttemptCount ''artist_name_variation'' ns artistNameVariationsEqual"
  "deduplicateLabelURLs ls = luh.dedupe (catalogCompatibilitySlot LabelURL) compatibilitySlotAttemptCount
     ''label_url'' ls labelURLsEqual"
  "deduplicateMasterVideos ms = mvh.dedupe (catalogCompatibilitySlot MasterVideo) compatibilitySlotAttemptCount
     ''master_video'' ms masterVideosEqual"
  by (simp_all add: deduplicateReleaseCreditedArtists_def deduplicateReleaseWorks_def
      deduplicateReleaseIdentifiers_def deduplicateReleaseTracks_def deduplicateReleaseVideos_def
      deduplicateArtistURLs_def deduplicateArtistNameVariations_def deduplicateLabelURLs_def
      deduplicateMasterVideos_def release_defs deduplicateHashedCatalogRows_def rch.dedupe_def rwh.dedupe_def
      rdh.dedupe_def rkh.dedupe_def rvh.dedupe_def auh.dedupe_def avh.dedupe_def luh.dedupe_def mvh.dedupe_def)

lemma formats_as_contract:
  "deduplicateReleaseFormats fs = Inr rows \<longleftrightarrow>
    (\<exists>fs'. canonicalizeFormats 0 fs = Inr fs' \<and>
      rfh.dedupe (compatibilitySlot Format) compatibilitySlotAttemptCount ''release_item_format'' fs'
        releaseFormatsEqual = Inr rows)"
  by (simp add: deduplicateReleaseFormats_def release_defs rfh.dedupe_def split: sum.splits)

section \<open>Canonical quantities\<close>

definition quantityConsistent :: "releaseFormatRow \<Rightarrow> bool" where
  "quantityConsistent row \<longleftrightarrow>
     (case rfQuantityText row of
        None \<Rightarrow> rfQuantity row = None
      | Some t \<Rightarrow> t \<noteq> [] \<and> list_all isDigit t \<and> noLeadingZero t \<and>
          rfQuantity row = (if decVal t \<le> 2147483647 then Some (of_nat (decVal t)) else None))"

lemma stripZeros_id: "noLeadingZero s \<Longrightarrow> stripZeros s = s"
  by (induction s rule: stripZeros.induct) (auto simp: noLeadingZero_def)

lemma canonicalQuantity_fixed:
  assumes "t \<noteq> []" and "list_all isDigit t" and "noLeadingZero t"
  shows "canonicalReleaseFormatQuantity t =
    Inr (t, if decVal t \<le> 2147483647 then Some (of_nat (decVal t)) else None)"
  using assms oversize_iff [of t]
  by (auto simp: canonicalReleaseFormatQuantity_def stripZeros_id wrapDecimal_eq Let_def)

lemma decText_first: "0 < n \<Longrightarrow> hd (decText n) \<noteq> CHR ''0''"
proof (induction n rule: decText.induct)
  case (1 n)
  show ?case
  proof (cases "n < 10")
    case True
    then have "digitVal (digitChar n) \<noteq> 0" using 1 by simp
    then have "digitChar n \<noteq> CHR ''0''" by (metis digitVal_zero)
    with True show ?thesis by (subst decText.simps) simp
  next
    case False
    with 1 have "hd (decText (n div 10)) \<noteq> CHR ''0''" by auto
    with False show ?thesis by (subst decText.simps) (simp add: hd_append)
  qed
qed

lemma noLeadingZero_decText: "noLeadingZero (decText n)"
proof (cases "n = 0")
  case True
  then show ?thesis by (subst decText.simps) (simp add: noLeadingZero_def)
qed (simp add: noLeadingZero_def decText_first)

lemma canonicalize_cases:
  assumes "canonicalizeReleaseFormatQuantity row = Inr row'"
  shows "quantityConsistent row'"
proof (cases "rfQuantityText row")
  case None
  show ?thesis
  proof (cases "rfQuantity row")
    case None
    with assms \<open>rfQuantityText row = None\<close> show ?thesis
      by (auto simp: canonicalizeReleaseFormatQuantity_def quantityConsistent_def)
  next
    case (Some q)
    then have q: "0 \<le> sint q" and row': "row' = row\<lparr>rfQuantityText := Some (formatInt (sint q))\<rparr>"
      using assms None by (auto simp: canonicalizeReleaseFormatQuantity_def split: if_splits)
    have "sint q \<le> 2147483647" using sint_lt [of q] by simp
    moreover have "of_nat (nat (sint q)) = q" using q by (simp add: of_nat_nat)
    ultimately show ?thesis
      using q Some row' decText_digits [of "nat (sint q)"]
      by (auto simp: quantityConsistent_def formatInt_def noLeadingZero_decText list_all_iff nat_le_iff)
  qed
next
  case (Some v)
  then obtain t i where t: "canonicalReleaseFormatQuantity v = Inr (t, i)"
    using assms by (auto simp: canonicalizeReleaseFormatQuantity_def split: sum.splits)
  have "t \<noteq> []" using t by (auto simp: canonicalReleaseFormatQuantity_def Let_def split: if_splits)
  then show ?thesis
    using assms Some t canonicalQuantity_cases [OF t]
    by (cases i) (auto simp: canonicalizeReleaseFormatQuantity_def quantityConsistent_def split: if_splits)
qed

section \<open>Properties\<close>

lemmas scope_defs = releaseCreditedArtistsScope_def releaseWorksScope_def releaseFormatsScope_def
  releaseIdentifiersScope_def releaseTracksScope_def releaseVideosScope_def artistURLsScope_def
  artistNameVariationsScope_def labelURLsScope_def masterVideosScope_def

text \<open>A sample: one track, listed twice in a chunk.\<close>

definition sampleTrack :: releaseTrackRow where
  "sampleTrack = \<lparr>rkReleaseItemID = 7, rkDuration = Some ''3:10'', rkPosition = Some ''A1'', rkTitle = Some ''Intro'',
     rkHash = 42, rkIdentity = None, rkLastModifiedAt = 0\<rparr>"

definition writtenTrack :: releaseTrackRow where
  "writtenTrack = sampleTrack\<lparr>rkIdentity := Some (releaseTracksDigest sampleTrack)\<rparr>"

lemmas hashed_eval = deduplicateReleaseTracks_def release_defs deduplicateHashedRowsWithAllocator_def emptyHashed_def
  keepRow_def emptyScope_def scopeAdd_def assignRelationCompatibilitySlotsWith_def lookupGroup_def applyCalls_def
  releaseTracksScope_def releaseTracksSet_def releaseTracksEqual_def equalOptionalValue_eq

lemma sampleTrack_once: "deduplicateReleaseTracks (map Some [sampleTrack]) = Inr [writtenTrack]"
  by (simp add: hashed_eval writtenTrack_def sampleTrack_def)

lemma sampleTrack_twice: "deduplicateReleaseTracks (map Some [sampleTrack, sampleTrack]) = Inr [writtenTrack]"
  by (simp add: hashed_eval writtenTrack_def sampleTrack_def)

lemma writtenTrack_digest [simp]: "releaseTracksDigest writtenTrack = releaseTracksDigest sampleTrack"
  by (simp add: writtenTrack_def releaseTracksDigest_def)

text \<open>No two rows of one hashed relation are written with the same primary key: within a parent
  the 32-bit hash is unique after deduplication, in each of the ten tables, however the legacy
  hashes collided.\<close>

theorem hashed_keys_unique:
  "(deduplicateReleaseCreditedArtists ca = Inr ca' \<longrightarrow> distinct (map (\<lambda>r. (rcReleaseItemID r, rcArtistID r, rcHash r)) ca')) \<and>
   (deduplicateReleaseWorks ws = Inr ws' \<longrightarrow> distinct (map (\<lambda>r. (rwReleaseItemID r, rwLabelID r, rwHash r)) ws')) \<and>
   (deduplicateReleaseFormats fs = Inr fs' \<longrightarrow> distinct (map (\<lambda>r. (rfReleaseItemID r, rfHash r)) fs')) \<and>
   (deduplicateReleaseIdentifiers ds = Inr ds' \<longrightarrow> distinct (map (\<lambda>r. (rdReleaseItemID r, rdHash r)) ds')) \<and>
   (deduplicateReleaseTracks ks = Inr ks' \<longrightarrow> distinct (map (\<lambda>r. (rkReleaseItemID r, rkHash r)) ks')) \<and>
   (deduplicateReleaseVideos vs = Inr vs' \<longrightarrow> distinct (map (\<lambda>r. (rvReleaseItemID r, rvHash r)) vs')) \<and>
   (deduplicateArtistURLs us = Inr us' \<longrightarrow> distinct (map (\<lambda>r. (auArtistID r, auHash r)) us')) \<and>
   (deduplicateArtistNameVariations ns = Inr ns' \<longrightarrow> distinct (map (\<lambda>r. (avArtistID r, avHash r)) ns')) \<and>
   (deduplicateLabelURLs ls = Inr ls' \<longrightarrow> distinct (map (\<lambda>r. (luLabelID r, luHash r)) ls')) \<and>
   (deduplicateMasterVideos ms = Inr ms' \<longrightarrow> distinct (map (\<lambda>r. (mvMasterID r, mvHash r)) ms'))"
  unfolding as_contract formats_as_contract
  by (intro conjI impI; (elim exE conjE)?)
    (erule rch.dedupe_slots_distinct [THEN distinct_map_finer] rwh.dedupe_slots_distinct [THEN distinct_map_finer]
        rfh.dedupe_slots_distinct [THEN distinct_map_finer] rdh.dedupe_slots_distinct [THEN distinct_map_finer]
        rkh.dedupe_slots_distinct [THEN distinct_map_finer] rvh.dedupe_slots_distinct [THEN distinct_map_finer]
        auh.dedupe_slots_distinct [THEN distinct_map_finer] avh.dedupe_slots_distinct [THEN distinct_map_finer]
        luh.dedupe_slots_distinct [THEN distinct_map_finer] mvh.dedupe_slots_distinct [THEN distinct_map_finer],
      simp add: scope_defs)+

theorem hashed_keys_unique_witness:
  "distinct (map (\<lambda>r. (rkReleaseItemID r, rkHash r)) [writtenTrack])"
  using hashed_keys_unique [where ks = "map Some [sampleTrack, sampleTrack]" and ks' = "[writtenTrack]"]
    sampleTrack_twice by blast

text \<open>A legacy hash is never taken over: a track written under a hash that some track of the
  same release carried in the dump carried it itself, and has the least SHA-256 identity among the
  tracks that did; and the track with the least identity of a colliding group does keep it.\<close>

theorem legacy_hash_kept:
  assumes "deduplicateReleaseTracks (map Some rs) = Inr out"
  shows "(\<forall>x \<in> set out. \<forall>r \<in> set rs. rkReleaseItemID r = rkReleaseItemID x \<longrightarrow> rkHash r = rkHash x \<longrightarrow>
      releaseTracksDigest x \<le> releaseTracksDigest r \<and>
      (\<exists>r' \<in> set rs. rkReleaseItemID r' = rkReleaseItemID x \<and> rkHash r' = rkHash x \<and>
        releaseTracksDigest r' = releaseTracksDigest x)) \<and>
    (\<forall>r \<in> set rs. (\<forall>r' \<in> set rs. rkReleaseItemID r' = rkReleaseItemID r \<longrightarrow> rkHash r' = rkHash r \<longrightarrow>
        releaseTracksDigest r \<le> releaseTracksDigest r') \<longrightarrow>
      (\<exists>x \<in> set out. rkReleaseItemID x = rkReleaseItemID r \<and> rkHash x = rkHash r \<and>
        releaseTracksDigest x = releaseTracksDigest r))"
  using rkh.dedupe_legacy_reserved [OF assms [unfolded as_contract]]
    rkh.dedupe_legacy_kept [OF assms [unfolded as_contract]]
  by (fastforce simp: releaseTracksScope_def image_iff)

theorem legacy_hash_kept_witness:
  "\<exists>x \<in> set [writtenTrack]. rkReleaseItemID x = 7 \<and> rkHash x = 42 \<and>
    releaseTracksDigest x = releaseTracksDigest sampleTrack"
  using legacy_hash_kept [OF sampleTrack_twice] by (simp add: sampleTrack_def)

text \<open>C36. The keys written do not depend on the order or the repetition of the tracks in the dump:
  two chunks with the same set of tracks give every identity the same hash, so importing the same
  data again, or in another order, addresses the same rows.\<close>

theorem slots_order_independent:
  assumes "deduplicateReleaseTracks (map Some rs) = Inr out"
    and "deduplicateReleaseTracks (map Some rs') = Inr out'" and "set rs = set rs'"
  shows "(\<lambda>r. (rkReleaseItemID r, releaseTracksDigest r, rkHash r)) ` set out =
    (\<lambda>r. (rkReleaseItemID r, releaseTracksDigest r, rkHash r)) ` set out'"
  using arg_cong [OF rkh.dedupe_order_irrelevant [OF assms(1,2) [unfolded as_contract] assms(3)],
      of "image (\<lambda>((a, b), d, h). (a, d, h))"]
  by (simp add: image_image releaseTracksScope_def)

theorem slots_order_independent_witness:
  "(\<lambda>r. (rkReleaseItemID r, releaseTracksDigest r, rkHash r)) ` set [writtenTrack] =
    {(7, releaseTracksDigest sampleTrack, 42)}"
  using slots_order_independent [OF sampleTrack_once sampleTrack_twice]
  by (simp add: writtenTrack_def sampleTrack_def releaseTracksDigest_def)

text \<open>Every track written is a track of the chunk with only its hash and identity columns set,
  the identity column holding the digest of its own payload; and every track of the chunk is
  written under its identity exactly once.\<close>

theorem tracks_written:
  assumes "deduplicateReleaseTracks (map Some rs) = Inr out"
  shows "(\<forall>x \<in> set out. \<exists>r \<in> set rs. \<exists>h. x = r\<lparr>rkHash := h, rkIdentity := Some (releaseTracksDigest r)\<rparr> \<and>
        rkIdentity x = Some (releaseTracksDigest x)) \<and>
    distinct (map (\<lambda>r. (rkReleaseItemID r, releaseTracksDigest r)) out) \<and>
    (\<lambda>r. (rkReleaseItemID r, releaseTracksDigest r)) ` set out = (\<lambda>r. (rkReleaseItemID r, releaseTracksDigest r)) ` set rs"
proof -
  let ?K = "\<lambda>r. (releaseTracksScope r, releaseTracksDigest r)"
  note d = assms [unfolded as_contract]
  obtain rs0 where "map Some rs = map Some rs0" "map ?K out = map ?K (firstsBy ?K {} rs0)"
    using rkh.dedupe_keys [OF d] by blast
  then have "map the (map Some rs) = map the (map Some rs0)" and keys: "map ?K out = map ?K (firstsBy ?K {} rs0)"
    by simp_all
  then have "rs0 = rs" by (simp add: comp_def)
  with keys have "distinct (map ?K out)" "?K ` set out = ?K ` set rs"
    using firstsBy_distinct [of ?K "{}" rs] firstsBy_keys [of ?K "{}" rs]
    by (simp_all flip: set_map add: keys)
  moreover from arg_cong [OF this(2), of "image (\<lambda>((a, b), d). (a, d))"]
  have "(\<lambda>r. (rkReleaseItemID r, releaseTracksDigest r)) ` set out =
      (\<lambda>r. (rkReleaseItemID r, releaseTracksDigest r)) ` set rs"
    by (simp add: image_image releaseTracksScope_def)
  moreover have "\<forall>x \<in> set out. \<exists>r \<in> set rs. \<exists>h. x = releaseTracksSet r h (releaseTracksDigest r)"
    using rkh.dedupe_rows [OF d] by blast
  ultimately show ?thesis
    by (auto simp: releaseTracksSet_def releaseTracksDigest_def releaseTracksScope_def
        intro: distinct_map_finer [of ?K])
qed

theorem tracks_written_witness:
  "rkIdentity writtenTrack = Some (releaseTracksDigest writtenTrack) \<and> rkTitle writtenTrack = Some ''Intro''"
  using tracks_written [OF sampleTrack_twice] by (simp add: writtenTrack_def sampleTrack_def)

text \<open>Go's map iteration order has no influence: in whatever order the scopes are visited, the
  hashed deduplication returns the same rows or the same error.\<close>

theorem map_order_irrelevant:
  assumes "\<And>scs. mset (iter scs) = mset scs"
  shows "deduplicateHashedRowsWithAllocator iter table items scope hash dig equalPayload setI
      (assignRelationCompatibilitySlotsWith gen n) =
    deduplicateHashedRowsWithAllocator id table items scope hash dig equalPayload setI
      (assignRelationCompatibilitySlotsWith gen n)"
proof -
  have id: "mset (id scs) = mset scs" for scs :: "('a \<times> hashedScope) list" by simp
  show ?thesis unfolding dedupe_hashed_iff [of iter, OF assms] dedupe_hashed_iff [of id, OF id] ..
qed

theorem map_order_irrelevant_witness:
  "deduplicateHashedRowsWithAllocator rev ''t'' [Some (1 :: nat, 5 :: int32), Some (2, 5)] fst snd (\<lambda>_. ''d'') (=)
      (\<lambda>r h d. (fst r, h)) (assignRelationCompatibilitySlotsWith (\<lambda>_ a. a) 3) =
    Inr [(1, 5), (2, 5)]"
  by (subst map_order_irrelevant)
    (simp_all add: deduplicateHashedRowsWithAllocator_def emptyHashed_def keepRow_def emptyScope_def scopeAdd_def
      assignRelationCompatibilitySlotsWith_def lookupGroup_def applyCalls_def)

text \<open>Format quantities end up consistent: after canonicalisation the text is a decimal without
  superfluous zeros and the integer column holds exactly its value when that fits 32 bits and
  nothing otherwise; and canonicalising again changes nothing.\<close>

theorem format_quantity_consistent:
  assumes "canonicalizeReleaseFormatQuantity row = Inr row'"
  shows "quantityConsistent row' \<and> canonicalizeReleaseFormatQuantity row' = Inr row'"
proof -
  have c: "quantityConsistent row'" using assms by (rule canonicalize_cases)
  then have "canonicalizeReleaseFormatQuantity row' = Inr row'"
    by (auto simp: quantityConsistent_def canonicalizeReleaseFormatQuantity_def canonicalQuantity_fixed
        split: option.splits if_splits)
  with c show ?thesis by simp
qed

definition sampleFormat :: releaseFormatRow where
  "sampleFormat = \<lparr>rfReleaseItemID = 7, rfDescription = None, rfName = Some ''LP'', rfQuantity = None,
     rfQuantityText = Some ''002'', rfText = None, rfHash = 1, rfIdentity = None, rfLastModifiedAt = 0\<rparr>"

theorem format_quantity_consistent_witness:
  "quantityConsistent (sampleFormat\<lparr>rfQuantityText := Some ''2'', rfQuantity := Some 2\<rparr>)"
  using format_quantity_consistent
      [of sampleFormat "sampleFormat\<lparr>rfQuantityText := Some ''2'', rfQuantity := Some 2\<rparr>"]
  by (simp add: canonicalizeReleaseFormatQuantity_def sampleFormat_def canonicalReleaseFormatQuantity_def
      isDigit_def maxInt32Decimal_def wrapDecimal_def digitVal_def Let_def)

text \<open>A chunk of release items is accepted exactly when it has no nil entry and items that share
  an identifier agree in every business column; then the first item of every identifier is
  returned, in the order of the chunk, and otherwise the chunk is an error.\<close>

theorem release_items_deduplicated:
  "deduplicateReleaseItems items = Inr out \<longleftrightarrow>
    (\<exists>rs. items = map Some rs \<and> out = firstsBy riID {} rs \<and>
      (\<forall>r \<in> set rs. \<forall>r' \<in> set rs. riID r = riID r' \<longrightarrow> releaseItemsEqual r r'))"
  unfolding deduplicateReleaseItems_def rik.dedupe_iff
  by (simp add: releaseItemsKey_def [abs_def] releaseItemsEqual_def equalOptionalValue_eq conj_ac)

definition sampleRelease :: releaseItemRow where
  "sampleRelease = \<lparr>riID = 7, riCreatedAt = 0, riLastModifiedAt = 0, riTitle = Some ''Intro'', riCountry = None,
     riDataQuality = None, riReleaseDate = None, riHasValidYear = Some False, riHasValidMonth = Some False,
     riHasValidDay = Some False, riListedReleaseDate = None, riIsMaster = Some False, riMasterID = None,
     riNotes = None, riStatus = Some ''Accepted''\<rparr>"

theorem release_items_deduplicated_witness:
  "deduplicateReleaseItems (map Some [sampleRelease, sampleRelease\<lparr>riLastModifiedAt := 9\<rparr>]) = Inr [sampleRelease]"
  unfolding release_items_deduplicated
  by (intro exI [of _ "[sampleRelease, sampleRelease\<lparr>riLastModifiedAt := 9\<rparr>]"])
    (simp add: sampleRelease_def releaseItemsEqual_def equalOptionalValue_eq)

end
