(* ===== verification/Transform.thy ===== *)
theory Transform
  imports Xml_Records Table_Dedupe
begin

text \<open>
  What the transformers of \<open>src/batch/xml.go\<close> guarantee about the rows of a chunk, on their own
  and together with the deduplication that follows them: references are confirmed, text is
  normalised, hashes are those of the columns, release dates exist, quantities are canonical, and
  deduplication never rejects what the transformers produce.
\<close>

section \<open>Normalised text\<close>

definition normalText :: "string option \<Rightarrow> bool" where
  "normalText v \<longleftrightarrow> (case v of None \<Rightarrow> True | Some s \<Rightarrow> clean s)"

lemma normalText_filterStr [simp]: "normalText (filterStr v)"
  by (auto simp: normalText_def filterStr_clean split: option.splits)

lemma filterStr_normal: "normalText v \<Longrightarrow> filterStr v = v"
  by (auto simp: normalText_def filterStr_id split: option.splits)

lemma normalText_inject: "normalText u \<Longrightarrow> normalText v \<Longrightarrow> stringField u = stringField v \<longleftrightarrow> u = v"
  by (simp add: stringField_inject filterStr_normal)

lemma set_mapFilter: "set (List.map_filter f xs) = {y. \<exists>x \<in> set xs. f x = Some y}"
  by (force simp: List.map_filter_def)

lemma collectFresh_set: "set (collectFresh key mk seen xs) = mk ` {k. k \<notin> seen \<and> (\<exists>x \<in> set xs. key x = Some k)}"
proof (induction xs arbitrary: seen)
  case (Cons x xs)
  then show ?case by (cases "key x") auto
qed simp

lemma collectFresh_distinct:
  assumes "inj mk"
  shows "distinct (collectFresh key mk seen xs)"
proof (induction xs arbitrary: seen)
  case (Cons x xs)
  then show ?case using assms by (cases "key x") (auto simp: collectFresh_set inj_eq)
qed simp

lemma timestamps:
  "fst (artistTimestamp now a) = (case xarObservedAt a of None \<Rightarrow> now | Some t \<Rightarrow> t)"
  "fst (labelTimestamp now l) = (case xlrObservedAt l of None \<Rightarrow> now | Some t \<Rightarrow> t)"
  "fst (masterTimestamp now m) = (case xmrObservedAt m of None \<Rightarrow> now | Some t \<Rightarrow> t)"
  "fst (releaseTimestamp now r) = (case xrrObservedAt r of None \<Rightarrow> now | Some t \<Rightarrow> t)"
  by (simp_all add: artistTimestamp_def labelTimestamp_def masterTimestamp_def releaseTimestamp_def
      split: option.splits)

lemma stringValue_simps [simp]: "stringValue None = []" "stringValue (Some s) = s"
  by (simp_all add: stringValue_def)

lemma trim_stringValue: "trimSpace (stringValue v) \<noteq> [] \<Longrightarrow> \<exists>s. v = Some s"
  by (cases v) auto

section \<open>Hashed rows made from XML\<close>

text \<open>What the track transformer yields, and that a payload identity then fixes every column.\<close>

definition trackRowOk :: "releaseTrackRow \<Rightarrow> bool" where
  "trackRowOk x \<longleftrightarrow> normalText (rkPosition x) \<and> normalText (rkTitle x) \<and> normalText (rkDuration x) \<and>
     rkHash x = javaStringHash (stringValue (rkPosition x) @ stringValue (rkTitle x) @ stringValue (rkDuration x)) \<and>
     (rkPosition x \<noteq> None \<or> rkTitle x \<noteq> None \<or> rkDuration x \<noteq> None)"

lemma trackRowOk_getTracks: "x \<in> set (getTracks now r) \<Longrightarrow> trackRowOk x \<and> rkReleaseItemID x = xrrID r"
  by (auto simp: getTracks_def set_mapFilter Let_def trackRowOk_def split: if_splits)
    (erule trim_stringValue)

definition trackFields :: "releaseTrackRow \<Rightarrow> idField list" where
  "trackFields x = [stringField (rkPosition x), stringField (rkTitle x), stringField (rkDuration x)]"

definition trackFrame :: "releaseTrackRow \<Rightarrow> string" where
  "trackFrame x = identityFrame canonicalIdentityDomain (relationName Track) (trackFields x)"

definition shortText :: "string option \<Rightarrow> bool" where
  "shortText v \<longleftrightarrow> (case v of None \<Rightarrow> True | Some s \<Rightarrow> length (trimSpace s) < 2 ^ 32)"

lemma shortText_canonical: "shortText v \<Longrightarrow> canonicalField (stringField v)"
  by (rule stringField_canonical) (simp add: shortText_def)

definition shortTrack :: "releaseTrackRow \<Rightarrow> bool" where
  "shortTrack x \<longleftrightarrow> shortText (rkPosition x) \<and> shortText (rkTitle x) \<and> shortText (rkDuration x)"

lemma releaseTracksDigest_frame: "releaseTracksDigest x = sha256 (trackFrame x)"
  by (simp add: releaseTracksDigest_def relationSum_def sumOver_def trackFrame_def trackFields_def)

lemma trackFrame_inject:
  assumes "shortTrack x" "shortTrack y" "trackRowOk x" "trackRowOk y" "trackFrame x = trackFrame y"
  shows "releaseTracksEqual x y \<and> rkHash x = rkHash y"
proof -
  have "trackFields x = trackFields y"
    using identityFrame_inject [of canonicalIdentityDomain canonicalIdentityDomain "relationName Track"
        "relationName Track" "trackFields x" "trackFields y"] assms
    by (simp add: trackFrame_def trackFields_def shortTrack_def shortText_canonical)
  then have "rkPosition x = rkPosition y" "rkTitle x = rkTitle y" "rkDuration x = rkDuration y"
    using assms(3,4) by (simp_all add: trackFields_def trackRowOk_def normalText_inject)
  then show ?thesis
    using assms(3,4) by (simp add: releaseTracksEqual_def equalOptionalValue_eq trackRowOk_def)
qed

section \<open>Separators of the format hash\<close>

lemma joinBy_inject:
  assumes "length ws = length vs" and "\<forall>w \<in> set ws. c \<notin> set w" and "\<forall>v \<in> set vs. c \<notin> set v"
    and "joinBy [c] ws = joinBy [c] vs"
  shows "ws = vs"
  using assms
proof (induction ws vs rule: list_induct2)
  case Nil
  then show ?case by simp
next
  case (Cons w ws v vs)
  have cut: "c \<notin> set x \<Longrightarrow> takeWhile (\<lambda>d. d \<noteq> c) (x @ c # y) = x" for x y
    by (induction x) auto
  show ?case
  proof (cases ws)
    case Nil
    with Cons show ?thesis by simp
  next
    case (Cons w' ws')
    then obtain v' vs' where vs: "vs = v' # vs'" using Cons.hyps by (cases vs) auto
    have eq: "w @ c # joinBy [c] ws = v @ c # joinBy [c] vs"
      using Cons.prems Cons vs by simp
    then have "w = v" using cut [of w] cut [of v] Cons.prems by (metis list.set_intros(1))
    with eq show ?thesis using Cons.IH Cons.prems by simp
  qed
qed

definition plainText :: "string option \<Rightarrow> bool" where
  "plainText v \<longleftrightarrow> (case v of None \<Rightarrow> True | Some s \<Rightarrow> CHR 0x00 \<notin> set s \<and> s \<noteq> [CHR 0x01])"

lemma plainText_hashString:
  "plainText u \<Longrightarrow> plainText v \<Longrightarrow> releaseFormatHashString u = releaseFormatHashString v \<longleftrightarrow> u = v"
  by (auto simp: plainText_def releaseFormatHashString_def releaseFormatHashNullValue_def split: option.splits)

lemma plainText_nul: "plainText v \<Longrightarrow> CHR 0x00 \<notin> set (releaseFormatHashString v)"
  by (auto simp: plainText_def releaseFormatHashString_def releaseFormatHashNullValue_def split: option.splits)

lemma hashSource_join:
  "releaseFormatHashSource a b c d = joinBy [CHR 0x00] (map releaseFormatHashString [a, b, c, d])"
  by (simp add: releaseFormatHashSource_def releaseFormatHashFieldSeparator_def releaseFormatHashString_def)

section \<open>Quantities from XML\<close>

definition decodedQuantity :: "xmlFormatQuantity \<Rightarrow> bool" where
  "decodedQuantity q \<longleftrightarrow> (\<exists>attr. unmarshalQuantity attr zeroQuantity = Inr q) \<or> q = zeroQuantity"

lemma decodedQuantity_cases:
  assumes "decodedQuantity q"
  shows "(quantityCanonical q = None \<and> quantityInteger q = None) \<or>
    (\<exists>t. t \<noteq> [] \<and> list_all isDigit t \<and> noLeadingZero t \<and> quantityCanonical q = Some t \<and>
      quantityInteger q = (if decVal t \<le> 2147483647 then Some (of_nat (decVal t)) else None))"
proof (cases "q = zeroQuantity")
  case True
  then show ?thesis by (simp add: quantityCanonical_def quantityInteger_def zeroQuantity_def)
next
  case False
  then obtain attr where "unmarshalQuantity attr zeroQuantity = Inr q"
    using assms by (auto simp: decodedQuantity_def)
  then obtain t i where t: "canonicalReleaseFormatQuantity (trimSpace attr) = Inr (t, i)"
    and q: "q = zeroQuantity\<lparr>qCanonical := t, qPresent := True, qInteger := i\<rparr>"
    using False by (auto simp: unmarshalQuantity_def Let_def split: if_splits sum.splits prod.splits)
  have "t \<noteq> []" using t by (auto simp: canonicalReleaseFormatQuantity_def Let_def split: if_splits)
  with canonicalQuantity_cases [OF t] q show ?thesis
    by (auto simp: quantityCanonical_def quantityInteger_def zeroQuantity_def)
qed

lemma getFormats_consistent:
  assumes "\<forall>f \<in> set (xrrFormats r). decodedQuantity (xfQuantity f)" and "x \<in> set (getFormats now r)"
  shows "quantityConsistent x"
proof -
  obtain f where f: "f \<in> set (xrrFormats r)" and "rfQuantity x = quantityInteger (xfQuantity f)"
    "rfQuantityText x = quantityCanonical (xfQuantity f)"
    using assms(2) by (auto simp: getFormats_def set_mapFilter Let_def split: if_splits)
  with decodedQuantity_cases [of "xfQuantity f"] assms(1) show ?thesis
    by (auto simp: quantityConsistent_def)
qed

lemma canonicalize_fixed: "quantityConsistent x \<Longrightarrow> canonicalizeReleaseFormatQuantity x = Inr x"
  by (auto simp: quantityConsistent_def canonicalizeReleaseFormatQuantity_def canonicalQuantity_fixed
      split: option.splits if_splits)

lemma canonicalizeFormats_fixed:
  "\<forall>x \<in> set rs. quantityConsistent x \<Longrightarrow> canonicalizeFormats index (map Some rs) = Inr (map Some rs)"
  by (induction rs arbitrary: index) (auto simp: canonicalize_fixed)

section \<open>Properties\<close>

text \<open>References are closed: the transformers emit a row for a reference exactly when the cache
  has confirmed the referenced artist, label or master, so no relation row, and no master column of
  a release, points at an entity that was not imported. Credits and works also need text.\<close>

theorem references_confirmed:
  "aaAliasID ` set (getAliases c now a) = {i \<in> refID ` set (xarAliases a). containsID (ArtistIDs c) i} \<and>
   agGroupID ` set (getGroups c now a) = {i \<in> refID ` set (xarGroups a). containsID (ArtistIDs c) i} \<and>
   amMemberID ` set (getMembers c now a) = {i \<in> refID ` set (xarMembers a). containsID (ArtistIDs c) i} \<and>
   lsSubLabelID ` set (getSubLabels c now l) = {i \<in> refID ` set (xlrSubLabels l). containsID (LabelIDs c) i} \<and>
   mtArtistID ` set (getMasterArtists c now m) = {i \<in> set (xmrArtists m). containsID (ArtistIDs c) i} \<and>
   rtArtistID ` set (getReleaseArtists c now r) = {i \<in> set (xrrArtists r). containsID (ArtistIDs c) i} \<and>
   lrLabelID ` set (getLabels c now r) = {i \<in> xlbLabelID ` set (xrrLabels r). containsID (LabelIDs c) i} \<and>
   rcArtistID ` set (getCreditedArtists c now r) =
     {i. containsID (ArtistIDs c) i \<and> (\<exists>x \<in> set (xrrCreditedArtists r). xcArtistID x = i \<and> trimSpace (xcRole x) \<noteq> [])} \<and>
   rwLabelID ` set (getWorks c now r) =
     {i. containsID (LabelIDs c) i \<and> (\<exists>x \<in> set (xrrWorks r). xwLabelID x = i \<and> trimSpace (xwWork x) \<noteq> [])} \<and>
   riMasterID (getRelease c now r) =
     (case miMasterID (xrrMasterInfo r) of
        Some i \<Rightarrow> if containsID (MasterIDs c) i then Some i else None
      | None \<Rightarrow> None)"
  by (intro conjI)
    (force simp: getAliases_def getGroups_def getMembers_def getSubLabels_def getMasterArtists_def
      getReleaseArtists_def getLabels_def getCreditedArtists_def getWorks_def getRelease_def releaseItem_def
      set_mapFilter collectFresh_set Let_def split: if_splits option.splits prod.splits)+

text \<open>Every track row made from XML has normalised columns, at least one of them present, its
  release's identifier and the legacy hash of exactly those columns.\<close>

theorem track_rows_normalised:
  assumes "x \<in> set (getTracks now r)"
  shows "rkReleaseItemID x = xrrID r \<and>
    normalText (rkPosition x) \<and> normalText (rkTitle x) \<and> normalText (rkDuration x) \<and>
    (rkPosition x \<noteq> None \<or> rkTitle x \<noteq> None \<or> rkDuration x \<noteq> None) \<and>
    rkHash x = javaStringHash (stringValue (rkPosition x) @ stringValue (rkTitle x) @ stringValue (rkDuration x))"
  using trackRowOk_getTracks [OF assms] by (auto simp: trackRowOk_def)

definition sampleXml :: xmlReleaseRelation where
  "sampleXml = \<lparr>xrrID = 7, xrrTitle = None, xrrCountry = None, xrrDataQuality = None,
     xrrListedReleaseDate = Some ''1999-02-00'', xrrNotes = None,
     xrrMasterInfo = \<lparr>miMasterID = None, miIsMaster = False\<rparr>, xrrStatus = None, xrrArtists = [],
     xrrLabels = [], xrrCreditedArtists = [],
     xrrFormats = [\<lparr>xfName = Some ''LP'', xfQuantity = zeroQuantity, xfText = None, xfDescriptions = []\<rparr>],
     xrrGenres = [], xrrStyles = [],
     xrrTracks = [\<lparr>xtPosition = ''A1'', xtTitle = [], xtDuration = []\<rparr>], xrrIdentifiers = [], xrrVideos = [],
     xrrWorks = [], xrrObservedAt = Some 5\<rparr>"

definition sampleTrackRow :: releaseTrackRow where
  "sampleTrackRow = \<lparr>rkReleaseItemID = 7, rkDuration = None, rkPosition = Some ''A1'', rkTitle = None,
     rkHash = javaStringHash ''A1'', rkIdentity = None, rkLastModifiedAt = 5\<rparr>"

lemma trim_A1: "trimSpace ''A1'' = ''A1''" "trimSpace ''LP'' = ''LP''"
  by (simp_all add: trimSpace_def trimFunc_def trimList_def chunks.simps decodeRune_def isSpace_def)

lemma sampleTracks: "getTracks 0 sampleXml = [sampleTrackRow]"
  by (simp add: getTracks_def sampleXml_def filterStr_def trim_A1 releaseTimestamp_def sampleTrackRow_def Let_def)

lemma sampleTrack_member: "sampleTrackRow \<in> set (getTracks 0 sampleXml)"
  by (simp add: sampleTracks)

theorem track_rows_normalised_witness:
  "rkReleaseItemID sampleTrackRow = 7 \<and> normalText (rkPosition sampleTrackRow)"
  using track_rows_normalised [OF sampleTrack_member] by (simp add: sampleXml_def)

text \<open>Deduplication never rejects what the transformers produce: if no two different track
  payloads of a chunk collide under SHA-256 and texts are shorter than 4 GiB, tracks with the same
  identity have the same columns and legacy hash, so the only possible error is running out of
  slots.\<close>

theorem transformed_tracks_accepted:
  assumes "\<forall>x \<in> set rs. \<exists>now r. x \<in> set (getTracks now r)"
    and "\<forall>x \<in> set rs. shortTrack x"
    and "inj_on sha256 (trackFrame ` set rs)"
  shows "case deduplicateReleaseTracks (map Some rs) of
    Inl e \<Rightarrow> e = SlotsExhausted ''release_item_track'' | Inr out \<Rightarrow> True"
  unfolding deduplicateReleaseTracks_def deduplicateHashedReleaseRows_def
proof (rule dedupe_no_conflict)
  fix x y assume x: "x \<in> set rs" and y: "y \<in> set rs" and "releaseTracksDigest x = releaseTracksDigest y"
  then have "sha256 (trackFrame x) = sha256 (trackFrame y)" by (simp add: releaseTracksDigest_frame)
  with assms(3) x y have "trackFrame x = trackFrame y" by (auto simp: inj_on_def)
  moreover have "trackRowOk x" "trackRowOk y" using assms(1) x y trackRowOk_getTracks by blast+
  ultimately show "releaseTracksEqual x y \<and> rkHash x = rkHash y"
    using assms(2) x y trackFrame_inject by blast
qed

theorem transformed_tracks_accepted_witness:
  "case deduplicateReleaseTracks (map Some [sampleTrackRow, sampleTrackRow]) of
    Inl e \<Rightarrow> e = SlotsExhausted ''release_item_track'' | Inr out \<Rightarrow> True"
proof (rule transformed_tracks_accepted)
  show "\<forall>x \<in> set [sampleTrackRow, sampleTrackRow]. \<exists>now r. x \<in> set (getTracks now r)"
    using sampleTrack_member by auto
qed (simp_all add: shortTrack_def shortText_def sampleTrackRow_def trim_A1)

text \<open>The bytes hashed for a format determine its name, description, quantity and text: for
  values without NUL that are not the null marker, as XML text never is, only a hash collision can
  give two different formats the same legacy key.\<close>

theorem format_hash_source_faithful:
  assumes "plainText a" "plainText b" "plainText c" "plainText d"
    and "plainText a'" "plainText b'" "plainText c'" "plainText d'"
    and "releaseFormatHashSource a b c d = releaseFormatHashSource a' b' c' d'"
  shows "a = a' \<and> b = b' \<and> c = c' \<and> d = d'"
proof -
  have "map releaseFormatHashString [a, b, c, d] = map releaseFormatHashString [a', b', c', d']"
    by (rule joinBy_inject [of _ _ "CHR 0x00"]) (use assms plainText_nul in \<open>auto simp: hashSource_join\<close>)
  then show ?thesis using assms(1-8) by (simp add: plainText_hashString)
qed

theorem format_hash_source_faithful_witness:
  "releaseFormatHashSource (Some ''LP'') None (Some ''1'') None \<noteq> releaseFormatHashSource None (Some ''LP'') (Some ''1'') None"
  by (rule notI, drule format_hash_source_faithful [rotated 8]) (simp_all add: plainText_def)

text \<open>The release date stored is a real calendar date whose unknown parts are the first of the
  month or of the year, and the validity flags say exactly which parts were in the text: a valid
  day implies a valid month, a valid month a valid year, and a date is stored exactly when its year
  is valid.\<close>

theorem release_date_valid:
  "case parsedReleaseDate v of
     (None, vy, vm, vd) \<Rightarrow> \<not> vy \<and> \<not> vm \<and> \<not> vd
   | (Some (y, m, d), vy, vm, vd) \<Rightarrow> vy \<and> validDate y m d \<and> y \<le> 9999 \<and> (vd \<longrightarrow> vm) \<and> (vm \<or> m = 1) \<and> (vd \<or> d = 1)"
proof (cases v)
  case None
  then show ?thesis by (simp add: parsedReleaseDate_def)
next
  case (Some s)
  obtain yo mo dy where p: "parseYMD s = (yo, mo, dy)" by (cases "parseYMD s")
  have first: "1 \<le> m \<Longrightarrow> m \<le> 12 \<Longrightarrow> validDate y m 1" for y m
    by (simp add: validDate_def daysIn_def)
  show ?thesis
    using parseYMD_cases [of s] Some p first
    by (cases yo; cases mo; cases dy) (auto simp: parsedReleaseDate_def)
qed

theorem release_date_valid_witness:
  "parsedReleaseDate (Some ''2001-02-00'') = (Some (2001, 2, 1), True, True, False) \<and> validDate 2001 2 1"
proof -
  have p: "parsedReleaseDate (Some ''2001-02-00'') = (Some (2001, 2, 1), True, True, False)" by code_simp
  then show ?thesis using release_date_valid [of "Some ''2001-02-00''"] by simp
qed

text \<open>Format rows made from decoded XML are consistent already, so the quantity check in
  front of the deduplication never rejects or changes a chunk of them.\<close>

theorem decoded_formats_accepted:
  assumes "\<forall>x \<in> set rs. \<exists>now r. x \<in> set (getFormats now r) \<and> (\<forall>f \<in> set (xrrFormats r). decodedQuantity (xfQuantity f))"
  shows "canonicalizeFormats 0 (map Some rs) = Inr (map Some rs)"
  by (rule canonicalizeFormats_fixed) (use assms getFormats_consistent in blast)

theorem decoded_formats_accepted_witness:
  "canonicalizeFormats 0 (map Some (getFormats 0 sampleXml)) = Inr (map Some (getFormats 0 sampleXml)) \<and>
   length (getFormats 0 sampleXml) = 1"
proof
  show "canonicalizeFormats 0 (map Some (getFormats 0 sampleXml)) = Inr (map Some (getFormats 0 sampleXml))"
  proof (rule decoded_formats_accepted, rule ballI, intro exI conjI)
    show "x \<in> set (getFormats 0 sampleXml) \<Longrightarrow> x \<in> set (getFormats 0 sampleXml)" for x .
    show "\<forall>f \<in> set (xrrFormats sampleXml). decodedQuantity (xfQuantity f)"
      by (simp add: sampleXml_def decodedQuantity_def)
  qed
  show "length (getFormats 0 sampleXml) = 1"
    by (simp add: getFormats_def sampleXml_def filterStr_def trim_A1 Let_def)
qed

end
