(* ===== verification/Relation_Import.thy ===== *)
theory Relation_Import
  imports Ledger
begin

text \<open>
  \<open>processRelationChunksWithFinalizer\<close> of \<open>src/batch/relations.go\<close>: windows of parsed items become
  numbered chunks, chunks already recorded are skipped, the others are written by concurrent
  workers, and the entity is completed when every result is in and no error occurred. The
  goroutines are a step relation: the consumer of the source, the workers, whose transaction is
  \<open>executeChunk\<close>, the receiver of the results, and a cancellation from outside.

  The source is what the stream library delivers, a list of events. A cancelled source may stop
  early or deliver anything; \<open>submitWorker\<close> refuses work once the context is cancelled.
\<close>

section \<open>Sources\<close>

datatype 'x rxItem = Item 'x | ErrItem string

datatype 'x event = Window "'x rxItem list" | SourceError string

text \<open>\<open>MapWindowedSlice\<close> keeps the values of a window; an entry without a value is skipped.\<close>

fun mapWindowedSlice :: "'x rxItem list \<Rightarrow> 'x list" where
  "mapWindowedSlice [] = []"
| "mapWindowedSlice (Item x # items) = x # mapWindowedSlice items"
| "mapWindowedSlice (ErrItem e # items) = mapWindowedSlice items"

function windowWithCount :: "nat \<Rightarrow> 'x list \<Rightarrow> 'x list list" where
  "windowWithCount n xs = (if n = 0 \<or> xs = [] then [] else take n xs # windowWithCount n (drop n xs))"
  by pat_completeness auto
termination
  by (relation "measure (\<lambda>(n, xs). length xs)") auto

declare windowWithCount.simps [simp del]

text \<open>The documented behaviour of the stream library for a source without errors.\<close>

definition cleanSource :: "nat \<Rightarrow> 'x list \<Rightarrow> 'x event list" where
  "cleanSource n xs = map (\<lambda>w. Window (map Item w)) (windowWithCount n xs)"

lemma mapWindowedSlice_Items [simp]: "mapWindowedSlice (map Item xs) = xs"
  by (induction xs) auto

section \<open>The pipeline\<close>

record ('x, 'c) pipeline =
  plDB :: "ledger \<times> 'c"
  plEvents :: "'x event list"
  plItems :: int
  plChunks :: int
  plWorkers :: "(chunkMeta \<times> 'x list) list"
  plResults :: "ledgerError result list"
  plSum :: "ledgerError result"
  plSourceErr :: "ledgerError option"
  plCancelled :: bool
  plParentCancelled :: bool
  plLog :: "(chunkMeta \<times> 'x list) list"

text \<open>\<open>plLog\<close> is a ghost: the chunks whose write was committed, in order of commit.\<close>

definition startPipeline :: "ledger \<times> 'c \<Rightarrow> 'x event list \<Rightarrow> ('x, 'c) pipeline" where
  "startPipeline db events =
     \<lparr>plDB = db, plEvents = events, plItems = 0, plChunks = 0, plWorkers = [], plResults = [],
      plSum = newResult 0 None, plSourceErr = None, plCancelled = False, plParentCancelled = False, plLog = []\<rparr>"

text \<open>\<open>sourceErrorRecorder.record\<close>: the first error stays.\<close>

definition recordSource :: "ledgerError \<Rightarrow> ('x, 'c) pipeline \<Rightarrow> ('x, 'c) pipeline" where
  "recordSource e p = p\<lparr>plSourceErr := (case plSourceErr p of None \<Rightarrow> Some e | Some e' \<Rightarrow> Some e')\<rparr>"

definition nextChunk :: "('x, 'c) pipeline \<Rightarrow> 'x list \<Rightarrow> chunkMeta" where
  "nextChunk p items = \<lparr>cmIndex = plChunks p, cmFirst = plItems p, cmCount = int (length items)\<rparr>"

definition takeWindow :: "('x, 'c) pipeline \<Rightarrow> 'x list \<Rightarrow> ('x, 'c) pipeline" where
  "takeWindow p items =
     p\<lparr>plEvents := tl (plEvents p), plChunks := plChunks p + 1, plItems := plItems p + int (length items)\<rparr>"

definition wroteChunk :: "faultPlan \<Rightarrow> int \<Rightarrow> order \<Rightarrow> chunkMeta \<Rightarrow> 'c writer \<Rightarrow> ledger \<times> 'c \<Rightarrow> bool" where
  "wroteChunk fl now ord chunk write s \<longleftrightarrow>
     \<not> isErr (fst (executeChunk fl now ord chunk write s)) \<and>
     \<not> (oResume ord \<and> chunkAlreadyCompleted ord chunk (fst s) = Inr True)"

inductive pipe_step ::
  "order \<Rightarrow> inventory \<Rightarrow> (chunkMeta \<Rightarrow> 'x list \<Rightarrow> 'c writer) \<Rightarrow> ('x, 'c) pipeline \<Rightarrow> ('x, 'c) pipeline \<Rightarrow> bool"
  for ord completed wr where
  source_error: "plEvents p = SourceError e # es \<Longrightarrow>
     pipe_step ord completed wr p (recordSource (StatementFailed e) (p\<lparr>plEvents := es\<rparr>))"
| empty_window: "plEvents p = Window w # es \<Longrightarrow> mapWindowedSlice w = [] \<Longrightarrow>
     pipe_step ord completed wr p (p\<lparr>plEvents := es\<rparr>)"
| mismatch: "plEvents p = Window w # es \<Longrightarrow> mapWindowedSlice w = items \<Longrightarrow> items \<noteq> [] \<Longrightarrow>
     inventoryContains completed (nextChunk p items) = Inl e \<Longrightarrow>
     pipe_step ord completed wr p (recordSource e ((takeWindow p items)\<lparr>plCancelled := True\<rparr>))"
| already: "plEvents p = Window w # es \<Longrightarrow> mapWindowedSlice w = items \<Longrightarrow> items \<noteq> [] \<Longrightarrow>
     inventoryContains completed (nextChunk p items) = Inr True \<Longrightarrow>
     pipe_step ord completed wr p (takeWindow p items)"
| submit: "plEvents p = Window w # es \<Longrightarrow> mapWindowedSlice w = items \<Longrightarrow> items \<noteq> [] \<Longrightarrow>
     inventoryContains completed (nextChunk p items) = Inr False \<Longrightarrow> \<not> plCancelled p \<Longrightarrow>
     int (length (plWorkers p)) < oMaxWorkers ord \<Longrightarrow>
     pipe_step ord completed wr p
       ((takeWindow p items)\<lparr>plWorkers := plWorkers p @ [(nextChunk p items, items)]\<rparr>)"
| refuse: "plEvents p = Window w # es \<Longrightarrow> mapWindowedSlice w = items \<Longrightarrow> items \<noteq> [] \<Longrightarrow>
     inventoryContains completed (nextChunk p items) = Inr False \<Longrightarrow> plCancelled p \<Longrightarrow>
     pipe_step ord completed wr p (recordSource (StatementFailed ''context canceled'') (takeWindow p items))"
| work: "plWorkers p = ws @ (chunk, items) # ws' \<Longrightarrow>
     executeChunk fl now ord chunk (wr chunk items) (plDB p) = (r, db') \<Longrightarrow>
     pipe_step ord completed wr p
       (p\<lparr>plDB := db', plWorkers := ws @ ws', plResults := plResults p @ [r],
          plCancelled := (plCancelled p \<or> isErr r),
          plLog := (if wroteChunk fl now ord chunk (wr chunk items) (plDB p)
                    then plLog p @ [(chunk, items)] else plLog p)\<rparr>)"
| receive: "plResults p = rs @ r # rs' \<Longrightarrow>
     pipe_step ord completed wr p (p\<lparr>plResults := rs @ rs', plSum := sumResult (plSum p) (Some r)\<rparr>)"
| cancel: "pipe_step ord completed wr p (p\<lparr>plCancelled := True, plParentCancelled := True\<rparr>)"
| cut: "plCancelled p \<Longrightarrow> pipe_step ord completed wr p (p\<lparr>plEvents := es\<rparr>)"

inductive pipe_reach ::
  "order \<Rightarrow> inventory \<Rightarrow> (chunkMeta \<Rightarrow> 'x list \<Rightarrow> 'c writer) \<Rightarrow> ('x, 'c) pipeline \<Rightarrow> ('x, 'c) pipeline \<Rightarrow> bool"
  for ord completed wr p0 where
  init: "pipe_reach ord completed wr p0 p0"
| step: "pipe_reach ord completed wr p0 p \<Longrightarrow> pipe_step ord completed wr p p' \<Longrightarrow>
     pipe_reach ord completed wr p0 p'"

definition pipelineDone :: "('x, 'c) pipeline \<Rightarrow> bool" where
  "pipelineDone p \<longleftrightarrow> plEvents p = [] \<and> plWorkers p = [] \<and> plResults p = []"

text \<open>After the results channel is closed: the source error joins the sum, and without an error
  the entity is completed, on a connection that fails if the caller's context is cancelled.\<close>

definition mergeSourceError :: "ledgerError result \<Rightarrow> ledgerError option \<Rightarrow> ledgerError result" where
  "mergeSourceError acc e = (case e of None \<Rightarrow> acc | Some _ \<Rightarrow> sumResult acc (Some (newResult 0 e)))"

definition completeRelationImport ::
  "faultPlan \<Rightarrow> int \<Rightarrow> order \<Rightarrow> int \<Rightarrow> int \<Rightarrow> ledger \<Rightarrow> ledgerError result \<times> ledger" where
  "completeRelationImport fl now ord totalItems totalChunks l =
     (case completeEntityProgress fl now ord totalItems totalChunks l of
        (r, l') \<Rightarrow> (newResult 0 (case r of Inl e \<Rightarrow> Some e | Inr _ \<Rightarrow> None), l'))"

definition finishPipeline :: "faultPlan \<Rightarrow> int \<Rightarrow> order \<Rightarrow> ('x, 'c) pipeline \<Rightarrow> ledgerError result \<times> ledger \<times> 'c" where
  "finishPipeline fl now ord p =
     (let acc = mergeSourceError (plSum p) (plSourceErr p); (l, c) = plDB p
      in if isErr acc then (acc, l, c)
         else case completeRelationImport (\<lambda>s. plParentCancelled p \<or> fl s) now ord (plItems p) (plChunks p) l of
           (r, l') \<Rightarrow> (sumResult acc (Some r), l', c))"

text \<open>\<open>reconcileRelations\<close>: the writers of one chunk in turn, up to the first error.\<close>

fun reconcileFrom :: "string result \<Rightarrow> 'c writer list \<Rightarrow> 'c \<Rightarrow> string result \<times> 'c" where
  "reconcileFrom written [] c = (written, c)"
| "reconcileFrom written (w # ws) c =
     (case w c of
        (r, c') \<Rightarrow>
          (let written' = sumResult written (Some r)
           in if isErr written' then (written', c') else reconcileFrom written' ws c'))"

definition reconcileRelations :: "'c writer list \<Rightarrow> 'c writer" where
  "reconcileRelations ws c = reconcileFrom (newResult 0 None) ws c"

section \<open>Invariant\<close>

definition metas :: "order \<Rightarrow> ledger \<Rightarrow> chunkMeta list" where
  "metas ord l = map metaOf (chunksOf (oRunID ord) (oEntity ord) l)"

definition metaAt :: "'x list list \<Rightarrow> nat \<Rightarrow> chunkMeta" where
  "metaAt ws i = \<lparr>cmIndex = int i, cmFirst = int (length (concat (take i ws))), cmCount = int (length (ws ! i))\<rparr>"

text \<open>The catalog after the committed writes, in order.\<close>

definition applyLog :: "(chunkMeta \<Rightarrow> 'x list \<Rightarrow> 'c writer) \<Rightarrow> (chunkMeta \<times> 'x list) list \<Rightarrow> 'c \<Rightarrow> 'c" where
  "applyLog wr ms c = foldl (\<lambda>c (m, xs). snd (wr m xs c)) c ms"

definition failureSeen :: "('x, 'c) pipeline \<Rightarrow> bool" where
  "failureSeen p \<longleftrightarrow> plSourceErr p \<noteq> None \<or> isErr (plSum p) \<or> (\<exists>r \<in> set (plResults p). isErr r)"

definition pipeInv ::
  "order \<Rightarrow> (chunkMeta \<Rightarrow> 'x list \<Rightarrow> 'c writer) \<Rightarrow> ledger \<Rightarrow> 'c \<Rightarrow> 'x list list \<Rightarrow> ('x, 'c) pipeline \<Rightarrow> bool" where
  "pipeInv ord wr l0 c0 ws p \<longleftrightarrow>
     ledgerInv (fst (plDB p)) \<and>
     metas ord (fst (plDB p)) = metas ord l0 @ map fst (plLog p) \<and>
     snd (plDB p) = applyLog wr (plLog p) c0 \<and>
     (plCancelled p \<longrightarrow> plParentCancelled p \<or> failureSeen p) \<and>
     (\<forall>(m, xs) \<in> set (plWorkers p) \<union> set (plLog p). \<exists>i < length ws. m = metaAt ws i \<and> xs = ws ! i) \<and>
     (\<not> plCancelled p \<longrightarrow>
        (\<exists>n \<le> length ws. plChunks p = int n \<and> plItems p = int (length (concat (take n ws))) \<and>
           plEvents p = map (\<lambda>w. Window (map Item w)) (drop n ws) \<and>
           (\<not> failureSeen p \<longrightarrow> (\<forall>i < n. metaAt ws i \<in> set (metas ord (fst (plDB p))) \<union> fst ` set (plWorkers p)))))"

lemma metaOf_newChunkRow [simp]: "metaOf (newChunkRow now ord chunk) = chunk"
  by (simp add: metaOf_def newChunkRow_def)

lemma metas_record:
  assumes "recordCompletedChunk fl now ord chunk l = (Inr u, l')"
  shows "metas ord l' = metas ord l @ [chunk]"
  using recordCompletedChunk_Inr [OF assms]
  by (simp add: metas_def sql_simps) (simp add: chunkMatches_def newChunkRow_def metaOf_def)

lemma metas_completed:
  assumes "chunkAlreadyCompleted ord chunk l = Inr True"
  shows "chunk \<in> set (metas ord l)"
proof -
  obtain k ks where k: "filter (\<lambda>k. ckIndex k = cmIndex chunk) (chunksOf (oRunID ord) (oEntity ord) l) = k # ks"
    using assms by (auto simp: chunkAlreadyCompleted_def split: list.splits)
  then have "k \<in> set (chunksOf (oRunID ord) (oEntity ord) l)" "ckIndex k = cmIndex chunk"
    by (auto simp: filter_eq_Cons_iff)
  moreover have "ckFirst k = cmFirst chunk" "ckCount k = cmCount chunk"
    using assms k by (auto simp: chunkAlreadyCompleted_def split: if_splits)
  ultimately have "metaOf k = chunk" by (simp add: metaOf_def)
  then show ?thesis using \<open>k \<in> set _\<close> by (auto simp: metas_def)
qed

text \<open>Every entry of the inventory is a recorded chunk.\<close>

lemma foldl_inventory:
  "foldl (\<lambda>m k. m(ckIndex k \<mapsto> metaOf k)) m0 ks i = Some c \<Longrightarrow> m0 i = Some c \<or> c \<in> metaOf ` set ks"
  by (induction ks arbitrary: m0) (force split: if_splits)+

lemma foldl_inventory_index:
  "foldl (\<lambda>m k. m(ckIndex k \<mapsto> metaOf k)) m0 ks i = Some c \<Longrightarrow> m0 i = Some c \<or> cmIndex c = i"
  by (induction ks arbitrary: m0) (force simp: metaOf_def split: if_splits)+

lemma inventory_recorded:
  assumes "inventoryContains (loadCompletedChunkInventory ord l) chunk = Inr True"
  shows "chunk \<in> set (metas ord l)"
proof -
  obtain c where c: "loadCompletedChunkInventory ord l (cmIndex chunk) = Some c"
    and same: "cmFirst c = cmFirst chunk" "cmCount c = cmCount chunk"
    using assms by (auto simp: inventoryContains_def split: option.splits if_splits)
  have res: "oResume ord" using c by (auto simp: loadCompletedChunkInventory_def split: if_splits)
  have "c \<in> set (metas ord l)"
    using c res foldl_inventory [of Map.empty "sort_key ckIndex (chunksOf (oRunID ord) (oEntity ord) l)" "cmIndex chunk" c]
    by (simp add: loadCompletedChunkInventory_def metas_def)
  moreover have "cmIndex c = cmIndex chunk"
    using c res foldl_inventory_index [of Map.empty "sort_key ckIndex (chunksOf (oRunID ord) (oEntity ord) l)" "cmIndex chunk" c]
    by (simp add: loadCompletedChunkInventory_def)
  then have "c = chunk" using same by simp
  ultimately show ?thesis by simp
qed

lemma failureSeen_simps [simp]:
  "failureSeen (recordSource e p)"
  "failureSeen (p\<lparr>plEvents := es\<rparr>) = failureSeen p"
  "failureSeen (takeWindow p items) = failureSeen p"
  by (auto simp: failureSeen_def recordSource_def takeWindow_def split: option.splits)

lemma windows_nonempty: "0 < n \<Longrightarrow> w \<in> set (windowWithCount n xs) \<Longrightarrow> w \<noteq> []"
proof (induction n xs rule: windowWithCount.induct)
  case (1 n xs)
  then show ?case
    by (subst (asm) (2) windowWithCount.simps) (auto split: if_splits)
qed

lemma windows_concat: "0 < n \<Longrightarrow> concat (windowWithCount n xs) = xs"
proof (induction n xs rule: windowWithCount.induct)
  case (1 n xs)
  then show ?case by (subst windowWithCount.simps) auto
qed

section \<open>Every step keeps the invariant\<close>

text \<open>The three parts of the invariant, kept separately: the database and its ghost log; why the
  pipeline was cancelled; and how far the source has been consumed.\<close>

lemma pipeInv_consume:
  assumes inv: "pipeInv ord wr l0 c0 ws p" and clean: "\<forall>w \<in> set ws. w \<noteq> []"
    and ev: "plEvents p = Window w # es" and live: "\<not> plCancelled p"
  obtains n where "n < length ws" and "mapWindowedSlice w = ws ! n" and "plChunks p = int n"
    and "plItems p = int (length (concat (take n ws)))" and "nextChunk p (ws ! n) = metaAt ws n"
    and "es = map (\<lambda>w. Window (map Item w)) (drop (Suc n) ws)"
    and "plItems p + int (length (ws ! n)) = int (length (concat (take (Suc n) ws)))"
    and "\<not> failureSeen p \<Longrightarrow> \<forall>i < n. metaAt ws i \<in> set (metas ord (fst (plDB p))) \<union> fst ` set (plWorkers p)"
proof -
  obtain n where n: "n \<le> length ws" "plChunks p = int n" "plItems p = int (length (concat (take n ws)))"
    "plEvents p = map (\<lambda>w. Window (map Item w)) (drop n ws)"
    "\<not> failureSeen p \<Longrightarrow> \<forall>i < n. metaAt ws i \<in> set (metas ord (fst (plDB p))) \<union> fst ` set (plWorkers p)"
    using inv live by (auto simp: pipeInv_def)
  have "n < length ws" using ev n(4) by (cases "n < length ws") auto
  then have d: "drop n ws = ws ! n # drop (Suc n) ws" by (simp add: Cons_nth_drop_Suc)
  have w: "w = map Item (ws ! n)" and es: "es = map (\<lambda>w. Window (map Item w)) (drop (Suc n) ws)"
    using ev n(4) d by auto
  have t: "take (Suc n) ws = take n ws @ [ws ! n]" using \<open>n < length ws\<close> by (simp add: take_Suc_conv_app_nth)
  show thesis
    by (rule that [of n]) (use \<open>n < length ws\<close> n w es t in \<open>auto simp: nextChunk_def metaAt_def\<close>)
qed

lemma takeWindow_sel [simp]:
  "plDB (takeWindow p items) = plDB p" "plWorkers (takeWindow p items) = plWorkers p"
  "plResults (takeWindow p items) = plResults p" "plSum (takeWindow p items) = plSum p"
  "plSourceErr (takeWindow p items) = plSourceErr p" "plCancelled (takeWindow p items) = plCancelled p"
  "plParentCancelled (takeWindow p items) = plParentCancelled p" "plLog (takeWindow p items) = plLog p"
  "plEvents (takeWindow p items) = tl (plEvents p)" "plChunks (takeWindow p items) = plChunks p + 1"
  "plItems (takeWindow p items) = plItems p + int (length items)"
  by (simp_all add: takeWindow_def)

lemma recordSource_sel [simp]:
  "plDB (recordSource e p) = plDB p" "plWorkers (recordSource e p) = plWorkers p"
  "plResults (recordSource e p) = plResults p" "plSum (recordSource e p) = plSum p"
  "plCancelled (recordSource e p) = plCancelled p" "plParentCancelled (recordSource e p) = plParentCancelled p"
  "plLog (recordSource e p) = plLog p" "plEvents (recordSource e p) = plEvents p"
  "plChunks (recordSource e p) = plChunks p" "plItems (recordSource e p) = plItems p"
  by (simp_all add: recordSource_def)

definition dbInv where
  "dbInv ord wr l0 c0 ws p \<longleftrightarrow>
     ledgerInv (fst (plDB p)) \<and>
     metas ord (fst (plDB p)) = metas ord l0 @ map fst (plLog p) \<and>
     snd (plDB p) = applyLog wr (plLog p) c0 \<and>
     (\<forall>(m, xs) \<in> set (plWorkers p) \<union> set (plLog p). \<exists>i < length ws. m = metaAt ws i \<and> xs = ws ! i)"

definition cancelInv where
  "cancelInv p \<longleftrightarrow> (plCancelled p \<longrightarrow> plParentCancelled p \<or> failureSeen p)"

definition sourceInv where
  "sourceInv ord ws p \<longleftrightarrow> (\<not> plCancelled p \<longrightarrow>
        (\<exists>n \<le> length ws. plChunks p = int n \<and> plItems p = int (length (concat (take n ws))) \<and>
           plEvents p = map (\<lambda>w. Window (map Item w)) (drop n ws) \<and>
           (\<not> failureSeen p \<longrightarrow> (\<forall>i < n. metaAt ws i \<in> set (metas ord (fst (plDB p))) \<union> fst ` set (plWorkers p)))))"

lemma pipeInv_parts:
  "pipeInv ord wr l0 c0 ws p \<longleftrightarrow> dbInv ord wr l0 c0 ws p \<and> cancelInv p \<and> sourceInv ord ws p"
  by (auto simp: pipeInv_def dbInv_def cancelInv_def sourceInv_def)

lemma dbInv_cong:
  "plDB p' = plDB p \<Longrightarrow> plWorkers p' = plWorkers p \<Longrightarrow> plLog p' = plLog p \<Longrightarrow>
    dbInv ord wr l0 c0 ws p \<Longrightarrow> dbInv ord wr l0 c0 ws p'"
  by (simp add: dbInv_def)

lemma step_source_error:
  assumes "pipeInv ord wr l0 c0 ws p" and "plEvents p = SourceError e # es"
  shows "plCancelled p"
proof (rule ccontr)
  assume "\<not> plCancelled p"
  then obtain n where "plEvents p = map (\<lambda>w. Window (map Item w)) (drop n ws)"
    using assms(1) by (auto simp: pipeInv_def)
  with assms(2) show False by (cases "drop n ws") auto
qed

lemma workers_split:
  assumes "plWorkers p = us @ (m, xs) # vs"
  shows "fst ` set (plWorkers p) = insert m (fst ` set (us @ vs))" "(m, xs) \<in> set (plWorkers p)"
    "set (us @ vs) \<subseteq> set (plWorkers p)"
  using assms by auto

text \<open>A finished worker: its chunk is in the ledger, or its result is an error.\<close>

lemma executeChunk_effect:
  assumes run: "oRunID ord \<noteq> 0" and ex: "executeChunk fl now ord m (wr m xs) (l, c) = (r, (l', c'))"
  shows "if wroteChunk fl now ord m (wr m xs) (l, c)
    then metas ord l' = metas ord l @ [m] \<and> c' = snd (wr m xs c) \<and> \<not> isErr r
    else l' = l \<and> c' = c \<and> (isErr r \<or> m \<in> set (metas ord l))"
  using ex
proof (cases rule: executeChunk_cases)
  case (failed e)
  then show ?thesis using ex by (simp add: wroteChunk_def isErr_def)
next
  case resumed
  then show ?thesis using ex metas_completed by (simp add: wroteChunk_def)
next
  case written
  then have "recordCompletedChunk fl now ord m l = (Inr (), l')" using run by simp
  then have "metas ord l' = metas ord l @ [m]" by (rule metas_record)
  moreover have "chunkAlreadyCompleted ord m l \<noteq> Inr True" if "oResume ord"
  proof
    assume "chunkAlreadyCompleted ord m l = Inr True"
    then have "m \<in> set (metas ord l)" by (rule metas_completed)
    then obtain k where "k \<in> set (runChunks l)" "chunkMatches (oRunID ord) (oEntity ord) k" "metaOf k = m"
      by (auto simp: metas_def chunksOf_def)
    then have "chunkConflicts ord m l" by (auto simp: chunkConflicts_def metaOf_def intro!: bexI [of _ k])
    then show False
      using recordCompletedChunk_Inr [OF \<open>recordCompletedChunk fl now ord m l = (Inr (), l')\<close>] by simp
  qed
  ultimately show ?thesis using written ex by (simp add: wroteChunk_def isErr_def)
qed


lemma isErr_sum: "isErr (sumResult a (Some b)) \<longleftrightarrow> isErr a \<or> isErr b"
  by (auto simp: sumResult_def isErr_def newResult_def split: option.splits)

inductive_cases pipe_stepE: "pipe_step ord completed wr p p'"

lemma applyLog_snoc: "applyLog wr (ms @ [(m, xs)]) c = snd (wr m xs (applyLog wr ms c))"
  by (simp add: applyLog_def)

lemma step_dbInv:
  assumes st: "pipe_step ord completed wr p p'" and inv: "pipeInv ord wr l0 c0 ws p"
    and clean: "\<forall>w \<in> set ws. w \<noteq> []" and run: "oRunID ord \<noteq> 0"
  shows "dbInv ord wr l0 c0 ws p'"
proof -
  have db: "dbInv ord wr l0 c0 ws p" using inv by (simp add: pipeInv_parts)
  show ?thesis
    using st
  proof cases
    case (submit w es items)
    from pipeInv_consume [OF inv clean submit(2) submit(6)] submit(3)
    obtain n where "n < length ws" "items = ws ! n" "nextChunk p items = metaAt ws n" by metis
    then show ?thesis using db submit(1) by (auto simp: dbInv_def)
  next
    case (work us m xs vs fl now r db')
    obtain l c where pd: "plDB p = (l, c)" by (cases "plDB p")
    obtain l' c' where db': "db' = (l', c')" by (cases db')
    have ex: "executeChunk fl now ord m (wr m xs) (l, c) = (r, (l', c'))" using work pd db' by simp
    note eff = executeChunk_effect [where wr = wr and m = m and xs = xs, OF run ex]
    have li: "ledgerInv l'" using executeChunk_inv [OF _ ex] db pd by (simp add: dbInv_def)
    have mem: "\<exists>i < length ws. m = metaAt ws i \<and> xs = ws ! i"
      using db workers_split(2) [OF work(2)] by (auto simp: dbInv_def dest!: bspec [of _ _ "(m, xs)"])
    show ?thesis
    proof (cases "wroteChunk fl now ord m (wr m xs) (l, c)")
      case True
      then show ?thesis
        using db eff li mem work pd db' by (auto simp: dbInv_def applyLog_snoc)
    next
      case False
      then show ?thesis using db eff li work pd db' by (auto simp: dbInv_def)
    qed
  qed (use db in \<open>auto simp: dbInv_def\<close>)
qed

lemma failureSeen_work:
  "failureSeen (p\<lparr>plDB := db', plWorkers := ws, plResults := plResults p @ [r], plCancelled := b, plLog := lg\<rparr>)
     \<longleftrightarrow> failureSeen p \<or> isErr r"
  by (auto simp: failureSeen_def)

lemma failureSeen_receive:
  "plResults p = rs @ r # rs' \<Longrightarrow>
    failureSeen (p\<lparr>plResults := rs @ rs', plSum := sumResult (plSum p) (Some r)\<rparr>) = failureSeen p"
  by (auto simp: failureSeen_def)

lemma failureSeen_flags [simp]:
  "failureSeen (p\<lparr>plCancelled := b\<rparr>) = failureSeen p"
  "failureSeen (p\<lparr>plCancelled := b, plParentCancelled := b'\<rparr>) = failureSeen p"
  "failureSeen (p\<lparr>plWorkers := us\<rparr>) = failureSeen p"
  by (simp_all add: failureSeen_def)

lemma step_cancelInv:
  assumes st: "pipe_step ord completed wr p p'" and inv: "pipeInv ord wr l0 c0 ws p"
  shows "cancelInv p'"
proof -
  have ci: "cancelInv p" using inv by (simp add: pipeInv_parts)
  show ?thesis
    using st
    by cases (use ci in \<open>auto simp: cancelInv_def failureSeen_work failureSeen_receive\<close>)
qed

text \<open>How far the source is consumed, as a predicate on the parts of the state it depends on.\<close>

definition coveredUpTo :: "order \<Rightarrow> 'x list list \<Rightarrow> nat \<Rightarrow> ('x, 'c) pipeline \<Rightarrow> bool" where
  "coveredUpTo ord ws n p \<longleftrightarrow>
     (failureSeen p \<or> (\<forall>i < n. metaAt ws i \<in> set (metas ord (fst (plDB p))) \<union> fst ` set (plWorkers p)))"

lemma sourceInvI:
  assumes "n \<le> length ws" "plChunks p = int n" "plItems p = int (length (concat (take n ws)))"
    "plEvents p = map (\<lambda>w. Window (map Item w)) (drop n ws)" "coveredUpTo ord ws n p"
  shows "sourceInv ord ws p"
  using assms by (auto simp: sourceInv_def coveredUpTo_def)

lemma sourceInv_keep:
  assumes "sourceInv ord ws p"
    and "plCancelled p' \<or> (\<not> plCancelled p \<and> plChunks p' = plChunks p \<and> plItems p' = plItems p \<and>
      plEvents p' = plEvents p \<and> (\<forall>n. coveredUpTo ord ws n p \<longrightarrow> coveredUpTo ord ws n p'))"
  shows "sourceInv ord ws p'"
  using assms unfolding sourceInv_def coveredUpTo_def by metis

lemma sourceInv_cancelled: "plCancelled p \<Longrightarrow> sourceInv ord ws p"
  by (simp add: sourceInv_def)

lemma coveredUpTo_Suc:
  "coveredUpTo ord ws n p \<Longrightarrow> metaAt ws n \<in> set (metas ord (fst (plDB p))) \<union> fst ` set (plWorkers p) \<Longrightarrow>
    coveredUpTo ord ws (Suc n) p"
  by (auto simp: coveredUpTo_def less_Suc_eq)

lemma step_sourceInv:
  assumes st: "pipe_step ord (loadCompletedChunkInventory ord l0) wr p p'"
    and inv: "pipeInv ord wr l0 c0 ws p"
    and clean: "\<forall>w \<in> set ws. w \<noteq> []" and run: "oRunID ord \<noteq> 0"
  shows "sourceInv ord ws p'"
proof -
  have src: "sourceInv ord ws p" and db: "dbInv ord wr l0 c0 ws p" using inv by (simp_all add: pipeInv_parts)
  show ?thesis
    using st
  proof cases
    case (source_error e es)
    then show ?thesis using step_source_error [OF inv] by (simp add: sourceInv_cancelled)
  next
    case (empty_window w es)
    show ?thesis
    proof (cases "plCancelled p")
      case False
      from pipeInv_consume [OF inv clean empty_window(2) False] obtain n
        where "n < length ws" "mapWindowedSlice w = ws ! n" by metis
      then show ?thesis using clean empty_window(3) nth_mem [of n ws] by auto
    qed (simp add: empty_window sourceInv_cancelled)
  next
    case (already w es items)
    show ?thesis
    proof (cases "plCancelled p")
      case False
      from pipeInv_consume [OF inv clean already(2) False] obtain n
        where n: "n < length ws" "items = ws ! n" "plChunks p = int n"
          "plItems p + int (length items) = int (length (concat (take (Suc n) ws)))" "nextChunk p items = metaAt ws n"
          "es = map (\<lambda>w. Window (map Item w)) (drop (Suc n) ws)" "coveredUpTo ord ws n p"
        using already(3) unfolding coveredUpTo_def by metis
      have "metaAt ws n \<in> set (metas ord (fst (plDB p)))"
        using inventory_recorded [of ord l0 "metaAt ws n"] already(5) n(5) db by (auto simp: dbInv_def)
      then have "coveredUpTo ord ws (Suc n) p'"
        using coveredUpTo_Suc [OF n(7)] already(1) by (auto simp: coveredUpTo_def)
      then show ?thesis using n already by (intro sourceInvI [of "Suc n"]) auto
    qed (simp add: already sourceInv_cancelled)
  next
    case (submit w es items)
    from pipeInv_consume [OF inv clean submit(2,6)] obtain n
      where n: "n < length ws" "items = ws ! n" "plChunks p = int n"
        "plItems p + int (length items) = int (length (concat (take (Suc n) ws)))" "nextChunk p items = metaAt ws n"
        "es = map (\<lambda>w. Window (map Item w)) (drop (Suc n) ws)" "coveredUpTo ord ws n p"
      using submit(3) unfolding coveredUpTo_def by metis
    have "coveredUpTo ord ws n p'"
      using n(7) submit(1) by (auto simp: coveredUpTo_def)
    moreover have "metaAt ws n \<in> fst ` set (plWorkers p')" using submit(1) n(5) by force
    ultimately have "coveredUpTo ord ws (Suc n) p'" by (simp add: coveredUpTo_Suc)
    then show ?thesis using n submit by (intro sourceInvI [of "Suc n"]) auto
  next
    case (work us m xs vs fl now r db')
    obtain l c l' c' where pd: "plDB p = (l, c)" "db' = (l', c')" by (cases "plDB p", cases db')
    have ex: "executeChunk fl now ord m (wr m xs) (l, c) = (r, (l', c'))" using work pd by simp
    note eff = executeChunk_effect [where wr = wr and m = m and xs = xs, OF run ex]
    have "coveredUpTo ord ws n p'" if cov: "coveredUpTo ord ws n p" "\<not> isErr r" for n
    proof -
      have "set (metas ord l) \<union> fst ` set (plWorkers p) \<subseteq> set (metas ord l') \<union> fst ` set (us @ vs)"
        using eff that(2) workers_split(1) [OF work(2)] by (auto split: if_splits)
      then have "\<forall>i < n. metaAt ws i \<in> set (metas ord l') \<union> fst ` set (us @ vs)"
        if "\<not> failureSeen p" proof (intro allI impI)
        fix i assume "i < n"
        with cov(1) that pd have "metaAt ws i \<in> set (metas ord l) \<union> fst ` set (plWorkers p)"
          by (simp add: coveredUpTo_def)
        with \<open>set (metas ord l) \<union> _ \<subseteq> _\<close> show "metaAt ws i \<in> set (metas ord l') \<union> fst ` set (us @ vs)" by (rule subsetD)
      qed
      then show ?thesis using work(1) pd by (auto simp: coveredUpTo_def failureSeen_work)
    qed
    moreover have "plCancelled p' = (plCancelled p \<or> isErr r)" "plChunks p' = plChunks p"
      "plItems p' = plItems p" "plEvents p' = plEvents p" using work(1) by simp_all
    ultimately show ?thesis by (intro sourceInv_keep [OF src]) metis
  next
    case (receive rs r rs')
    then show ?thesis
      using src by (intro sourceInv_keep [OF src]) (auto simp: coveredUpTo_def failureSeen_receive)
  qed (auto simp: sourceInv_cancelled)
qed

lemma pipeInv_step:
  assumes "pipe_step ord (loadCompletedChunkInventory ord l0) wr p p'" and "pipeInv ord wr l0 c0 ws p"
    and "\<forall>w \<in> set ws. w \<noteq> []" and "oRunID ord \<noteq> 0"
  shows "pipeInv ord wr l0 c0 ws p'"
  using step_dbInv [OF assms] step_cancelInv [OF assms(1,2)] step_sourceInv [OF assms] by (simp add: pipeInv_parts)

section \<open>A finished import\<close>

lemma completed_dump:
  assumes "completeEntityProgress fl now ord ti tc l = (Inr u, l')" and "oRunID ord \<noteq> 0"
  shows "\<exists>d \<in> set (runDumps l'). dumpMatches (oRunID ord) (oEntity ord) d \<and>
    duTotalItems d = Some ti \<and> duTotalChunks d = Some tc \<and> duCompletedAt d = Some now"
proof -
  note r = completeEntityProgress_Inr [OF assms]
  then obtain d where d: "d \<in> set (runDumps l)" "completionTarget ord ti tc l d" using countWhere_one by blast
  then have "dumpMatches (oRunID ord) (oEntity ord) d" by (simp add: completionTarget_def Let_def)
  let ?f = "\<lambda>d. d\<lparr>duTotalItems := Some ti, duTotalChunks := Some tc, duCompletedAt := Some now,
    duLastProgressAt := Some now\<rparr>"
  let ?d = "?f d"
  have "?d \<in> set (runDumps l')"
    using r updateWhere_mem [of d "runDumps l" "completionTarget ord ti tc l" ?f] d by simp
  moreover have "dumpMatches (oRunID ord) (oEntity ord) ?d"
    using \<open>dumpMatches (oRunID ord) (oEntity ord) d\<close> by (simp add: dumpMatches_def)
  ultimately show ?thesis by (intro bexI [of _ ?d]) simp_all
qed

lemma pipeInv_start:
  assumes "ledgerInv l0"
  shows "pipeInv ord wr l0 c0 ws (startPipeline (l0, c0) (map (\<lambda>w. Window (map Item w)) ws))"
  using assms by (auto simp: pipeInv_def startPipeline_def applyLog_def intro!: exI [of _ 0])

lemma pipeInv_reach:
  assumes "pipe_reach ord (loadCompletedChunkInventory ord l0) wr (startPipeline (l0, c0) (cleanSource n xs)) p"
    and "ledgerInv l0" and "0 < n" and "oRunID ord \<noteq> 0"
  shows "pipeInv ord wr l0 c0 (windowWithCount n xs) p"
  using assms(1)
proof (induction rule: pipe_reach.induct)
  case init
  then show ?case using pipeInv_start [OF assms(2)] by (simp add: cleanSource_def)
next
  case (step p p')
  have "\<forall>w \<in> set (windowWithCount n xs). w \<noteq> []" using windows_nonempty [OF assms(3)] by blast
  then show ?case using pipeInv_step [OF step(2,3) _ assms(4)] by blast
qed

lemma metas_distinct:
  assumes "ledgerInv l" shows "distinct (metas ord l)"
proof -
  have "distinct (map (\<lambda>k. (ckRun k, ckEntity k, ckIndex k)) (chunksOf (oRunID ord) (oEntity ord) l))"
    using assms by (auto simp: ledgerInv_def uniqueChunks_def chunksOf_def intro: distinct_map_filter)
  moreover have "\<forall>k \<in> set (chunksOf (oRunID ord) (oEntity ord) l). ckRun k = oRunID ord \<and> ckEntity k = oEntity ord"
    by (simp add: chunksOf_def chunkMatches_def)
  ultimately show ?thesis
    by (auto simp: metas_def distinct_map inj_on_def metaOf_def)
qed

lemma metaAt_inj: "metaAt ws i = metaAt ws j \<longleftrightarrow> i = j"
  by (auto simp: metaAt_def)

text \<open>An import that ends without an error was neither cancelled nor did any part of it fail.\<close>

lemma finishPipeline_ok:
  assumes fin: "finishPipeline fl now ord p = (r, (l', c'))" and ok: "\<not> isErr r" and run: "oRunID ord \<noteq> 0"
  shows "plSourceErr p = None \<and> \<not> isErr (plSum p) \<and> \<not> plParentCancelled p \<and> c' = snd (plDB p) \<and>
    completeEntityProgress fl now ord (plItems p) (plChunks p) (fst (plDB p)) = (Inr (), l')"
proof -
  obtain l c where pd: "plDB p = (l, c)" by (cases "plDB p")
  have none: "plSourceErr p = None \<and> \<not> isErr (plSum p)"
  proof (rule ccontr)
    assume "\<not> ?thesis"
    then have "isErr (mergeSourceError (plSum p) (plSourceErr p))"
      by (auto simp: mergeSourceError_def isErr_def [of "newResult _ _"] split: option.splits)
    then show False using fin ok pd by (simp add: finishPipeline_def)
  qed
  let ?fl = "\<lambda>s. plParentCancelled p \<or> fl s"
  obtain x l1 where c: "completeEntityProgress ?fl now ord (plItems p) (plChunks p) l = (x, l1)"
    by (cases "completeEntityProgress ?fl now ord (plItems p) (plChunks p) l")
  have "r = sumResult (plSum p) (Some (newResult 0 (case x of Inl e \<Rightarrow> Some e | Inr _ \<Rightarrow> None)))" "l' = l1" "c' = c"
    using fin none pd c by (auto simp: finishPipeline_def mergeSourceError_def completeRelationImport_def)
  moreover obtain u where "x = Inr u" using ok calculation(1) by (cases x) (auto simp: isErr_def [of "newResult _ _"])
  ultimately show ?thesis
    using c none pd run by (auto simp: completeEntityProgress_def sql_def split: if_splits)
qed

lemma completed_import:
  assumes reach: "pipe_reach ord (loadCompletedChunkInventory ord l0) wr (startPipeline (l0, c0) (cleanSource n xs)) p"
    and quiet: "pipelineDone p" and fin: "finishPipeline fl now ord p = (r, (l', c'))" and ok: "\<not> isErr r"
    and inv: "ledgerInv l0" and n: "0 < n" and run: "oRunID ord \<noteq> 0"
  defines "ws \<equiv> windowWithCount n xs"
  shows "set (metas ord l') = metaAt ws ` {..<length ws}" and "distinct (metas ord l')"
    and "metas ord l' = metas ord l0 @ map fst (plLog p)" and "c' = applyLog wr (plLog p) c0"
    and "\<forall>(m, xs) \<in> set (plLog p). \<exists>i < length ws. m = metaAt ws i \<and> xs = ws ! i"
    and "plChunks p = int (length ws)" and "plItems p = int (length xs)"
    and "completeEntityProgress fl now ord (int (length xs)) (int (length ws)) (fst (plDB p)) = (Inr (), l')"
proof -
  have I: "pipeInv ord wr l0 c0 ws p" unfolding ws_def by (rule pipeInv_reach [OF reach inv n run])
  then have db: "dbInv ord wr l0 c0 ws p" and ca: "cancelInv p" and src: "sourceInv ord ws p"
    by (simp_all add: pipeInv_parts)
  note f = finishPipeline_ok [OF fin ok run]
  have nf: "\<not> failureSeen p" using f quiet by (simp add: failureSeen_def pipelineDone_def)
  then have "\<not> plCancelled p" using ca f by (auto simp: cancelInv_def)
  then obtain k where k: "k \<le> length ws" "plChunks p = int k" "plItems p = int (length (concat (take k ws)))"
      "plEvents p = map (\<lambda>w. Window (map Item w)) (drop k ws)"
      "\<forall>i < k. metaAt ws i \<in> set (metas ord (fst (plDB p))) \<union> fst ` set (plWorkers p)"
    using src nf by (auto simp: sourceInv_def)
  then have all: "k = length ws" using quiet by (auto simp: pipelineDone_def)
  show chunks: "plChunks p = int (length ws)" and items: "plItems p = int (length xs)"
    using k all windows_concat [OF n, of xs] by (simp_all add: ws_def)
  show comp: "completeEntityProgress fl now ord (int (length xs)) (int (length ws)) (fst (plDB p)) = (Inr (), l')"
    using f chunks items by simp
  have same: "metas ord l' = metas ord (fst (plDB p))"
    using completeEntityProgress_Inr [OF comp run] by (simp add: metas_def chunksOf_def)
  show "metas ord l' = metas ord l0 @ map fst (plLog p)" "c' = applyLog wr (plLog p) c0"
    "\<forall>(m, xs) \<in> set (plLog p). \<exists>i < length ws. m = metaAt ws i \<and> xs = ws ! i"
    using same db f by (auto simp: dbInv_def)
  show dist: "distinct (metas ord l')" using metas_distinct [of "fst (plDB p)" ord] same db by (simp add: dbInv_def)
  have "metaAt ws ` {..<length ws} \<subseteq> set (metas ord l')"
    using k(5) all quiet same by (auto simp: pipelineDone_def)
  moreover have "length (metas ord l') = length ws"
    using completion_chunks [OF comp run] same by (simp add: metas_def)
  then have "card (set (metas ord l')) = length ws" using dist by (simp add: distinct_card)
  moreover have "card (metaAt ws ` {..<length ws}) = length ws"
    by (simp add: card_image inj_on_def metaAt_inj)
  ultimately show "set (metas ord l') = metaAt ws ` {..<length ws}"
    by (metis List.finite_set card_subset_eq)
qed

text \<open>The hypotheses can be met: one chunk of two items, imported from an empty ledger of an
  active run.\<close>

definition demoWrite :: "chunkMeta \<Rightarrow> int list \<Rightarrow> int list writer" where
  "demoWrite chunk items c = (newResult (int (length items)) None, c @ items)"

definition demoChunk :: chunkMeta where
  "demoChunk = \<lparr>cmIndex = 0, cmFirst = 0, cmCount = 2\<rparr>"

definition demoWorking :: "(int, int list) pipeline" where
  "demoWorking = startPipeline (demoLedger, []) []\<lparr>plItems := 2, plChunks := 1, plWorkers := [(demoChunk, [10, 20])]\<rparr>"

definition demoWritten :: "(int, int list) pipeline" where
  "demoWritten = demoWorking\<lparr>plWorkers := [],
     plDB := snd (executeChunk (\<lambda>_. False) 5 demoOrder demoChunk (demoWrite demoChunk [10, 20]) (demoLedger, [])),
     plResults := [newResult 2 None], plLog := [(demoChunk, [10, 20])]\<rparr>"

definition demoFinished :: "(int, int list) pipeline" where
  "demoFinished = demoWritten\<lparr>plResults := [], plSum := newResult 2 None\<rparr>"

lemmas demo_defs = demoLedger_def demoOrder_def demoWrite_def demoChunk_def demoWorking_def
  demoWritten_def demoFinished_def startPipeline_def

lemma demo_windows: "windowWithCount 2 [10, 20::int] = [[10, 20]]"
  by (simp add: windowWithCount.simps)

lemma demo_reach:
  "pipe_reach demoOrder (loadCompletedChunkInventory demoOrder demoLedger) demoWrite
     (startPipeline (demoLedger, []) (cleanSource 2 [10, 20 :: int])) demoFinished"
proof -
  let ?inv = "loadCompletedChunkInventory demoOrder demoLedger"
  let ?p0 = "startPipeline (demoLedger, [] :: int list) (cleanSource 2 [10, 20 :: int])"
  have "pipe_step demoOrder ?inv demoWrite ?p0
      ((takeWindow ?p0 [10, 20])\<lparr>plWorkers := plWorkers ?p0 @ [(nextChunk ?p0 [10, 20 :: int], [10, 20])]\<rparr>)"
    by (rule pipe_step.submit [where w = "[Item 10, Item 20]" and es = "[]"])
      (simp_all add: cleanSource_def demo_windows demo_defs loadCompletedChunkInventory_def inventoryContains_def)
  moreover have "(takeWindow ?p0 [10, 20])\<lparr>plWorkers := plWorkers ?p0 @ [(nextChunk ?p0 [10, 20 :: int], [10, 20])]\<rparr> = demoWorking"
    by (simp add: cleanSource_def demo_windows demo_defs takeWindow_def nextChunk_def)
  ultimately have s1: "pipe_step demoOrder ?inv demoWrite ?p0 demoWorking" by simp
  let ?r = "executeChunk (\<lambda>_. False) 5 demoOrder demoChunk (demoWrite demoChunk [10, 20]) (demoLedger, [])"
  have r: "fst ?r = newResult 2 None" by (simp add: demo_defs run_chunk_defs)
  have "pipe_step demoOrder ?inv demoWrite demoWorking
      (demoWorking\<lparr>plDB := snd ?r, plWorkers := [] @ [], plResults := plResults demoWorking @ [fst ?r],
        plCancelled := (plCancelled demoWorking \<or> isErr (fst ?r)),
        plLog := (if wroteChunk (\<lambda>_. False) 5 demoOrder demoChunk (demoWrite demoChunk [10, 20]) (plDB demoWorking)
          then plLog demoWorking @ [(demoChunk, [10, 20])] else plLog demoWorking)\<rparr>)"
    by (rule pipe_step.work) (simp_all add: demoWorking_def startPipeline_def)
  moreover have "wroteChunk (\<lambda>_. False) 5 demoOrder demoChunk (demoWrite demoChunk [10, 20]) (demoLedger, [])"
    using r by (simp add: wroteChunk_def isErr_def)
  ultimately have s2: "pipe_step demoOrder ?inv demoWrite demoWorking demoWritten"
    using r by (simp add: demoWritten_def isErr_def) (simp add: demoWorking_def startPipeline_def)
  have "pipe_step demoOrder ?inv demoWrite demoWritten
      (demoWritten\<lparr>plResults := [] @ [], plSum := sumResult (plSum demoWritten) (Some (newResult 2 None))\<rparr>)"
    by (rule pipe_step.receive) (simp add: demoWritten_def)
  moreover have "sumResult (plSum demoWritten) (Some (newResult 2 None)) = newResult 2 None"
    by (simp add: demoWritten_def demoWorking_def startPipeline_def sumResult_def newResult_def)
  ultimately have s3: "pipe_step demoOrder ?inv demoWrite demoWritten demoFinished"
    by (simp add: demoFinished_def)
  show ?thesis
    by (rule pipe_reach.step [OF pipe_reach.step [OF pipe_reach.step [OF pipe_reach.init s1] s2] s3])
qed

definition demoEnd :: "ledgerError result \<times> ledger \<times> int list" where
  "demoEnd = finishPipeline (\<lambda>_. False) 9 demoOrder demoFinished"

lemma demo_end: "\<not> isErr (fst demoEnd)" and demo_catalog: "snd (snd demoEnd) = [10, 20]"
  by (simp_all add: demoEnd_def finishPipeline_def mergeSourceError_def completeRelationImport_def
      completeEntityProgress_def completionTarget_def invalidChunk_def chunksOf_def chunkMatches_def Let_def
      isErr_def sumResult_err demo_defs run_chunk_defs)

text \<open>C2. A relation import that reports success, for a source without errors, under every
  interleaving of its workers and with any set of chunks recorded by earlier attempts: the ledger
  holds exactly one record for every window of the source, the catalog is the result of writing
  each window that was not recorded before exactly once, in the order of the commits, and the
  entity is marked complete with the numbers of items and chunks of the source.\<close>

theorem relation_import_exactly_once:
  assumes reach: "pipe_reach ord (loadCompletedChunkInventory ord l0) wr (startPipeline (l0, c0) (cleanSource n xs)) p"
    and quiet: "pipelineDone p" and fin: "finishPipeline fl now ord p = (r, (l', c'))" and ok: "\<not> isErr r"
    and inv: "ledgerInv l0" and n: "0 < n" and run: "oRunID ord \<noteq> 0"
  shows "\<exists>log ws. ws = windowWithCount n xs \<and> concat ws = xs \<and>
    distinct (metas ord l') \<and> set (metas ord l') = metaAt ws ` {..<length ws} \<and>
    distinct (map fst log) \<and>
    set log = {(metaAt ws i, ws ! i) | i. i < length ws \<and> metaAt ws i \<notin> set (metas ord l0)} \<and>
    c' = foldl (\<lambda>c (m, items). snd (wr m items c)) c0 log \<and>
    (\<exists>d \<in> set (runDumps l'). dumpMatches (oRunID ord) (oEntity ord) d \<and>
       duTotalItems d = Some (int (length xs)) \<and> duTotalChunks d = Some (int (length ws)) \<and> duCompletedAt d = Some now)"
proof -
  let ?ws = "windowWithCount n xs" and ?log = "plLog p"
  note c = completed_import [OF reach quiet fin ok inv n run]
  have dist: "distinct (metas ord l0)" "distinct (map fst ?log)" "set (metas ord l0) \<inter> fst ` set ?log = {}"
    using c(2,3) by auto
  have log: "set ?log = {(metaAt ?ws i, ?ws ! i) | i. i < length ?ws \<and> metaAt ?ws i \<notin> set (metas ord l0)}"
  proof (intro equalityI subsetI)
    fix y assume y: "y \<in> set ?log"
    then obtain i where "i < length ?ws" "y = (metaAt ?ws i, ?ws ! i)" using c(5) by fastforce
    then show "y \<in> {(metaAt ?ws i, ?ws ! i) | i. i < length ?ws \<and> metaAt ?ws i \<notin> set (metas ord l0)}"
      using y dist(3) by force
  next
    fix y assume "y \<in> {(metaAt ?ws i, ?ws ! i) | i. i < length ?ws \<and> metaAt ?ws i \<notin> set (metas ord l0)}"
    then obtain i where i: "i < length ?ws" "y = (metaAt ?ws i, ?ws ! i)" "metaAt ?ws i \<notin> set (metas ord l0)" by auto
    then have "metaAt ?ws i \<in> fst ` set ?log" using c(1,3) by auto
    then obtain items where it: "(metaAt ?ws i, items) \<in> set ?log" by auto
    then obtain j where "metaAt ?ws i = metaAt ?ws j" "items = ?ws ! j" using c(5) by blast
    then have "items = ?ws ! i" by (simp add: metaAt_inj)
    then show "y \<in> set ?log" using it i by simp
  qed
  show ?thesis
  proof (intro exI conjI)
    show "?ws = windowWithCount n xs" ..
    show "concat ?ws = xs" by (rule windows_concat [OF n])
    show "distinct (metas ord l')" by (rule c(2))
    show "set (metas ord l') = metaAt ?ws ` {..<length ?ws}" by (rule c(1))
    show "distinct (map fst ?log)" by (rule dist(2))
    show "set ?log = {(metaAt ?ws i, ?ws ! i) | i. i < length ?ws \<and> metaAt ?ws i \<notin> set (metas ord l0)}" by (rule log)
    show "c' = foldl (\<lambda>c (m, items). snd (wr m items c)) c0 ?log" using c(4) by (simp add: applyLog_def)
    show "\<exists>d \<in> set (runDumps l'). dumpMatches (oRunID ord) (oEntity ord) d \<and>
       duTotalItems d = Some (int (length xs)) \<and> duTotalChunks d = Some (int (length ?ws)) \<and> duCompletedAt d = Some now"
      by (rule completed_dump [OF c(8) run])
  qed
qed


theorem relation_import_exactly_once_witness:
  "set (metas demoOrder (fst (snd demoEnd))) = {\<lparr>cmIndex = 0, cmFirst = 0, cmCount = 2\<rparr>}"
proof -
  have "finishPipeline (\<lambda>_. False) 9 demoOrder demoFinished = (fst demoEnd, fst (snd demoEnd), snd (snd demoEnd))"
    by (simp add: demoEnd_def)
  from relation_import_exactly_once [OF demo_reach _ this demo_end demo_inv]
  show ?thesis
    by (simp add: demo_windows) (simp add: demo_defs pipelineDone_def metaAt_def lessThan_Suc)
qed

text \<open>The work left in a pipeline: every event can become a worker and every worker a result.\<close>

definition workLeft :: "('x, 'c) pipeline \<Rightarrow> nat" where
  "workLeft p = 3 * length (plEvents p) + 2 * length (plWorkers p) + length (plResults p)"

lemma pipe_reach_trans:
  assumes "pipe_reach ord completed wr p q" and "pipe_reach ord completed wr q r"
  shows "pipe_reach ord completed wr p r"
  using assms(2) by induction (use assms(1) in \<open>auto intro: pipe_reach.step\<close>)

lemma pipe_progress:
  assumes "\<not> pipelineDone p" and "0 < oMaxWorkers ord"
  shows "\<exists>p'. pipe_step ord completed wr p p' \<and> workLeft p' < workLeft p"
proof (cases "plResults p")
  case (Cons r rs)
  then have "pipe_step ord completed wr p (p\<lparr>plResults := [] @ rs, plSum := sumResult (plSum p) (Some r)\<rparr>)"
    by (intro pipe_step.receive) simp
  then show ?thesis using Cons by (intro exI conjI) (auto simp: workLeft_def)
next
  case Nil
  show ?thesis
  proof (cases "plWorkers p")
    case (Cons w ws)
    obtain m xs where w: "w = (m, xs)" by (cases w)
    obtain r db' where ex: "executeChunk (\<lambda>_. False) 0 ord m (wr m xs) (plDB p) = (r, db')"
      by (cases "executeChunk (\<lambda>_. False) 0 ord m (wr m xs) (plDB p)")
    from pipe_step.work [of p "[]" m xs ws, where wr = wr and ord = ord and completed = completed, OF _ ex] Cons w
    show ?thesis by (intro exI conjI) (auto simp: workLeft_def)
  next
    case none: Nil
    then obtain e es where e: "plEvents p = e # es"
      using assms(1) Nil by (cases "plEvents p") (auto simp: pipelineDone_def)
    show ?thesis
    proof (cases e)
      case (SourceError msg)
      from pipe_step.source_error [of p msg es] e SourceError
      show ?thesis by (intro exI conjI) (auto simp: workLeft_def)
    next
      case (Window w)
      show ?thesis
      proof (cases "mapWindowedSlice w = []")
        case True
        from pipe_step.empty_window [of p w es, OF _ this] e Window
        show ?thesis by (intro exI conjI) (auto simp: workLeft_def)
      next
        case False
        let ?items = "mapWindowedSlice w"
        have tk: "workLeft (takeWindow p ?items) + 3 = workLeft p" using e by (simp add: workLeft_def)
        consider x where "inventoryContains completed (nextChunk p ?items) = Inl x"
          | "inventoryContains completed (nextChunk p ?items) = Inr True"
          | "inventoryContains completed (nextChunk p ?items) = Inr False"
          by (cases "inventoryContains completed (nextChunk p ?items)") auto
        then show ?thesis
        proof cases
          case 1
          from pipe_step.mismatch [of p w es, OF _ refl False this] e Window tk
          show ?thesis by (intro exI conjI) (auto simp: workLeft_def)
        next
          case 2
          from pipe_step.already [of p w es, OF _ refl False this] e Window tk
          show ?thesis by (intro exI conjI) auto
        next
          case 3
          show ?thesis
          proof (cases "plCancelled p")
            case True
            from pipe_step.refuse [of p w es, OF _ refl False 3 True] e Window tk
            show ?thesis by (intro exI conjI) (auto simp: workLeft_def)
          next
            case live: False
            from pipe_step.submit [of p w es, OF _ refl False 3 live] e Window tk none assms(2)
            show ?thesis by (intro exI conjI) (auto simp: workLeft_def)
          qed
        qed
      qed
    qed
  qed
qed



end
