(* ===== verification/Coordinator.thy ===== *)
theory Coordinator
  imports Admission
begin

text \<open>
  The import coordinator of \<open>src/batch/execution.go\<close>. \<open>Prepare\<close> takes the advisory locks of the
  selected entity types on a reserved connection, then decides in one transaction whether the
  import is refused, skipped, resumed or started; \<open>Complete\<close> ends the run. Advisory locks belong
  to the session and survive a rollback; an unlock statement can fail, and its error is ignored.
\<close>

section \<open>State\<close>

record importPreparation =
  ipManifest :: string
  ipRun :: int
  ipResumedFrom :: int
  ipSkipped :: bool

record coordinator =
  cVersion :: string
  cConn :: "int option"
  cRunID :: int
  cLockKeys :: "int list"
  cEntities :: "entityType list"

record 'x server =
  svDB :: "'x catalogDB"
  svLocks :: "(int \<times> int) list"

text \<open>A lock is a pair of its key and the session that holds it.\<close>

definition newImportExecutionCoordinator :: "string \<Rightarrow> coordinator" where
  "newImportExecutionCoordinator version =
     \<lparr>cVersion = (if trimSpace version = [] then ''development'' else version), cConn = None, cRunID = 0,
      cLockKeys = [], cEntities = []\<rparr>"

section \<open>Locks\<close>

definition acquireLock :: "'x schema \<Rightarrow> faultPlan \<Rightarrow> int \<Rightarrow> entityType \<Rightarrow> (coordinator \<times> 'x server, coordError, unit) proc" where
  "acquireLock sc fl session e =
     (\<lambda>(c, s).
       case scLockKey sc e of
         Inl m \<Rightarrow> (Inl (ManifestError m), (c, s))
       | Inr key \<Rightarrow> stmt fl ''acquire import lock'' (\<lambda>(c, s).
           if \<exists>(k, holder) \<in> set (svLocks s). k = key \<and> holder \<noteq> session then (Inl (LockBusy e), (c, s))
           else (Inr (), (c\<lparr>cLockKeys := cLockKeys c @ [key]\<rparr>, s\<lparr>svLocks := svLocks s @ [(key, session)]\<rparr>))) (c, s))"

definition acquireEntityLocks ::
  "'x schema \<Rightarrow> faultPlan \<Rightarrow> int \<Rightarrow> entityType list \<Rightarrow> (coordinator \<times> 'x server, coordError, unit) proc" where
  "acquireEntityLocks sc fl session types = forEach types (acquireLock sc fl session)"

definition unlock :: "faultPlan \<Rightarrow> int \<Rightarrow> (int \<times> int) list \<Rightarrow> int \<Rightarrow> (int \<times> int) list" where
  "unlock fl session locks key = (if fl (''unlock '' @ formatInt key) then locks else remove1 (key, session) locks)"

definition release :: "faultPlan \<Rightarrow> coordinator \<times> 'x server \<Rightarrow> coordinator \<times> 'x server" where
  "release fl = (\<lambda>(c, s).
     case cConn c of
       None \<Rightarrow> (c, s)
     | Some session \<Rightarrow>
         (c\<lparr>cConn := None, cRunID := 0, cLockKeys := [], cEntities := []\<rparr>,
          s\<lparr>svLocks := foldl (unlock fl session) (svLocks s) (rev (cLockKeys c))\<rparr>))"

section \<open>Prepare\<close>

record admissionPlan =
  apDumps :: "dump list"
  apFingerprint :: string
  apOrdered :: "entityType list"
  apRevisions :: "int list"
  apLockTypes :: "entityType list"

definition manifestOf :: "dump \<Rightarrow> manifestDump" where
  "manifestOf d = \<lparr>mdEntity = dEntity d, mdDate = dDate d, mdChecksum = dChecksum d\<rparr>"

definition resolvePlan :: "'x schema \<Rightarrow> dump list \<Rightarrow> coordError + admissionPlan" where
  "resolvePlan sc ds =
     (case scFingerprint sc (map manifestOf ds) of
        Inl m \<Rightarrow> Inl (ManifestError m)
      | Inr fingerprint \<Rightarrow>
     (case scOrdered sc (map dEntity ds) of
        Inl m \<Rightarrow> Inl (ManifestError m)
      | Inr ordered \<Rightarrow>
     (case resolveImportContractRevisions sc (map dEntity ds) of
        Inl e \<Rightarrow> Inl e
      | Inr revisions \<Rightarrow>
     (case scLockTypes sc ordered of
        Inl m \<Rightarrow> Inl (ManifestError m)
      | Inr lockTypes \<Rightarrow> Inr \<lparr>apDumps = ds, apFingerprint = fingerprint, apOrdered = ordered,
          apRevisions = revisions, apLockTypes = lockTypes\<rparr>))))"

definition partiallySatisfied :: "bool \<Rightarrow> int \<Rightarrow> compatibility \<Rightarrow> bool" where
  "partiallySatisfied force n k \<longleftrightarrow> \<not> force \<and> cmSelected k = n \<and> 0 < cmCompatible k \<and> cmCompatible k < cmSelected k"

definition fullySatisfied :: "bool \<Rightarrow> int \<Rightarrow> compatibility \<Rightarrow> bool" where
  "fullySatisfied force n k \<longleftrightarrow> \<not> force \<and> cmSelected k = n \<and> cmCompatible k = cmSelected k"

definition skipAdmission ::
  "'x schema \<Rightarrow> faultPlan \<Rightarrow> int \<Rightarrow> string \<Rightarrow> admissionPlan \<Rightarrow> compatibility \<Rightarrow> ('x, importPreparation) query" where
  "skipAdmission sc fl now version plan k =
     andThen (if cmExact k = 0
              then consolidateSuccessfulImportRun sc fl now (apFingerprint plan) version (int (length (apDumps plan)))
              else ret (cmExact k))
     (\<lambda>rid. andThen (markCatalogStatesReady fl now rid (apOrdered plan))
     (\<lambda>_. ret \<lparr>ipManifest = apFingerprint plan, ipRun = rid, ipResumedFrom = 0, ipSkipped = True\<rparr>))"

definition insertRunDumps ::
  "'x schema \<Rightarrow> faultPlan \<Rightarrow> int \<Rightarrow> int \<Rightarrow> (dump \<times> int \<times> int) list \<Rightarrow> ('x, unit) query" where
  "insertRunDumps sc fl rid chunkSize items =
     forEach items (\<lambda>(d, dumpID, revision). insertImportRunDump sc fl rid (dEntity d) dumpID chunkSize revision)"

definition startAdmission ::
  "'x schema \<Rightarrow> faultPlan \<Rightarrow> int \<Rightarrow> string \<Rightarrow> admissionPlan \<Rightarrow> int list \<Rightarrow> int \<Rightarrow> bool \<Rightarrow> bool \<Rightarrow> ('x, importPreparation) query" where
  "startAdmission sc fl now version plan dumpIDs chunkSize force allowDowngrade =
     (let n = int (length (apDumps plan))
      in andThen (if force then ret 0 else findResumableRun sc fl (apFingerprint plan) chunkSize n)
      (\<lambda>resumed. andThen (insertImportRun sc fl (apFingerprint plan) force allowDowngrade version resumed)
      (\<lambda>rid. andThen (insertRunDumps sc fl rid chunkSize (zip (apDumps plan) (zip dumpIDs (apRevisions plan))))
      (\<lambda>_. andThen (if resumed \<noteq> 0 then copyResumeProgress fl resumed rid n else ret ())
      (\<lambda>_. andThen (markCatalogStatesImporting fl now rid (apOrdered plan))
      (\<lambda>_. andThen (runBootstrapOperation fl ''prepare'' (scPrepareBootstrap sc) rid)
      (\<lambda>_. ret \<lparr>ipManifest = apFingerprint plan, ipRun = rid, ipResumedFrom = resumed, ipSkipped = False\<rparr>)))))))"

definition admit ::
  "'x schema \<Rightarrow> faultPlan \<Rightarrow> int \<Rightarrow> string \<Rightarrow> admissionPlan \<Rightarrow> int \<Rightarrow> bool \<Rightarrow> bool \<Rightarrow> ('x, importPreparation) query" where
  "admit sc fl now version plan chunkSize force allowDowngrade =
     andThen (markAbandonedRuns fl now (apOrdered plan))
     (\<lambda>_. andThen (assertNotDowngrade sc fl (apDumps plan) allowDowngrade)
     (\<lambda>_. andThen (mapEach (findOrInsertDump sc fl) (apDumps plan))
     (\<lambda>dumpIDs. andThen (findSuccessfulRun sc fl (apFingerprint plan))
     (\<lambda>k. if partiallySatisfied force (int (length (apDumps plan))) k
          then throw (PartiallySatisfied (cmIncompatible k))
          else if fullySatisfied force (int (length (apDumps plan))) k
          then skipAdmission sc fl now version plan k
          else startAdmission sc fl now version plan dumpIDs chunkSize force allowDowngrade))))"

definition coordTx :: "faultPlan \<Rightarrow> ('s, coordError, 'a) proc \<Rightarrow> ('s, coordError, 'a) proc" where
  "coordTx fl = atomically (fl ''begin'') (StatementError ''begin'') (fl ''commit'') (StatementError ''commit'')"

definition prepare ::
  "'x schema \<Rightarrow> faultPlan \<Rightarrow> int \<Rightarrow> int \<Rightarrow> dump option list \<Rightarrow> int \<Rightarrow> bool \<Rightarrow> bool \<Rightarrow>
   coordinator \<times> 'x server \<Rightarrow> (coordError + importPreparation) \<times> coordinator \<times> 'x server" where
  "prepare sc fl now session dumps chunkSize force allowDowngrade = (\<lambda>(c, s).
     if cConn c \<noteq> None then (Inl AlreadyPrepared, (c, s))
     else if dumps = [] then (Inl EmptyPlan, (c, s))
     else if chunkSize \<le> 0 then (Inl BadChunkSize, (c, s))
     else case those dumps of
       None \<Rightarrow> (Inl NilDump, (c, s))
     | Some ds \<Rightarrow>
       (case resolvePlan sc ds of
          Inl e \<Rightarrow> (Inl e, (c, s))
        | Inr plan \<Rightarrow>
          if fl ''reserve connection'' then (Inl (StatementError ''reserve connection''), (c, s))
          else (case acquireEntityLocks sc fl session (apLockTypes plan) (c\<lparr>cConn := Some session\<rparr>, s) of
            (Inl e, cs) \<Rightarrow> (Inl e, release fl cs)
          | (Inr _, (c', s')) \<Rightarrow>
            (case coordTx fl (admit sc fl now (cVersion c) plan chunkSize force allowDowngrade) (svDB s') of
               (Inl e, db) \<Rightarrow> (Inl e, release fl (c', s'\<lparr>svDB := db\<rparr>))
             | (Inr p, db) \<Rightarrow>
                 if ipSkipped p then (Inr p, release fl (c', s'\<lparr>svDB := db\<rparr>))
                 else (Inr p, (c'\<lparr>cRunID := ipRun p, cEntities := apOrdered plan\<rparr>, s'\<lparr>svDB := db\<rparr>))))))"

section \<open>Complete\<close>

definition incompleteDump :: "int \<Rightarrow> runDumpRow \<Rightarrow> bool" where
  "incompleteDump rid d \<longleftrightarrow>
     duRun d = rid \<and>
     (duCompletedAt d = None \<or> duTotalItems d = None \<or> duTotalChunks d = None \<or> Some (duProcessed d) \<noteq> duTotalItems d)"

definition incompleteText :: "int \<Rightarrow> int \<Rightarrow> string" where
  "incompleteText rid n = ''import run '' @ formatInt rid @ '' has '' @ formatInt n @ '' incomplete entities''"

definition validateCompletion :: "faultPlan \<Rightarrow> int \<Rightarrow> ('x, (string \<times> coordError) option) query" where
  "validateCompletion fl rid = stmt fl ''validate import run completion'' (\<lambda>db.
     (let n = countWhere (incompleteDump rid) (runDumps (dbLedger db))
      in (Inr (if n \<noteq> 0 then Some (incompleteText rid n, IncompleteRun rid n) else None), db)))"

definition finishRun :: "faultPlan \<Rightarrow> int \<Rightarrow> int \<Rightarrow> string option \<Rightarrow> ('x, unit) query" where
  "finishRun fl now rid reason = stmt fl ''complete import run'' (\<lambda>db.
     (let target = (\<lambda>r. rnID r = rid \<and> rnStatus r = Running);
          affected = countWhere target (runs (dbLedger db));
          db' = overLedger (\<lambda>l. l\<lparr>runs := updateWhere target
            (\<lambda>r. r\<lparr>rnStatus := (if reason = None then Succeeded else Failed), rnCompletedAt := Some now,
                   rnFailure := reason\<rparr>) (runs l)\<rparr>) db
      in if affected \<noteq> 1 then (Inl (NotRunning rid), db') else (Inr (), db')))"

definition deleteRunChunks :: "faultPlan \<Rightarrow> int \<Rightarrow> ('x, unit) query" where
  "deleteRunChunks fl rid = stmt fl ''prune completed import run chunks'' (\<lambda>db.
     (Inr (), overLedger (\<lambda>l. l\<lparr>runChunks := filter (\<lambda>k. ckRun k \<noteq> rid) (runChunks l)\<rparr>) db))"

definition completionBody ::
  "'x schema \<Rightarrow> faultPlan \<Rightarrow> int \<Rightarrow> int \<Rightarrow> entityType list \<Rightarrow> string option \<Rightarrow> ('x, coordError option) query" where
  "completionBody sc fl now rid entities runErr =
     andThen (if runErr = None then validateCompletion fl rid else ret None)
     (\<lambda>incomplete.
       let reason = (if runErr = None then map_option fst incomplete else runErr)
       in andThen (finishRun fl now rid reason)
       (\<lambda>_. andThen (case reason of
                None \<Rightarrow> andThen (runBootstrapOperation fl ''finalize'' (scFinalizeBootstrap sc) rid)
                          (\<lambda>_. markCatalogStatesReady fl now rid entities)
              | Some m \<Rightarrow> markCatalogStatesFailed fl now rid entities m)
       (\<lambda>_. andThen (if reason = None
                then andThen (pruneSupersededFailedProgress sc fl) (\<lambda>_. deleteRunChunks fl rid) else ret ())
       (\<lambda>_. ret (map_option snd incomplete)))))"

definition complete ::
  "'x schema \<Rightarrow> faultPlan \<Rightarrow> int \<Rightarrow> string option \<Rightarrow> coordinator \<times> 'x server \<Rightarrow>
   coordError option \<times> coordinator \<times> 'x server" where
  "complete sc fl now runErr = (\<lambda>(c, s).
     if cConn c = None \<or> cRunID c = 0 then (None, (c, s))
     else (case coordTx fl (completionBody sc fl now (cRunID c) (cEntities c) runErr) (svDB s) of
       (Inl e, db) \<Rightarrow> (Some e, release fl (c, s\<lparr>svDB := db\<rparr>))
     | (Inr cerr, db) \<Rightarrow> (cerr, release fl (c, s\<lparr>svDB := db\<rparr>))))"

end
