(* ===== verification/Run_Lifecycle.thy ===== *)
theory Run_Lifecycle
  imports Coordinator
begin

text \<open>
  What \<open>Prepare\<close> and \<open>Complete\<close> do to the ledger, the catalog states and the locks: every
  statement is characterised on its own, then the admission transaction, the completion
  transaction and the two operations with their error paths.
\<close>

section \<open>Running procedures\<close>

lemma stmt_Inr: "stmt fl q m s = (Inr x, s') \<longleftrightarrow> \<not> fl q \<and> m s = (Inr x, s')"
  by (simp add: stmt_def)

lemma check_Inr: "check b e s = (Inr x, s') \<longleftrightarrow> b \<and> s' = s"
  by auto

lemma keeps_stmt [intro]: "keeps P m \<Longrightarrow> keeps P (stmt fl q m)"
  by (rule keepsI) (auto simp: stmt_def dest: keepsD split: if_splits)

lemma keeps_Inr: "keeps P m \<Longrightarrow> P s \<Longrightarrow> m s = (Inr x, s') \<Longrightarrow> P s'"
  by (rule keepsD)

lemma overLedger_sel [simp]:
  "dbLedger (overLedger f db) = f (dbLedger db)" "dbDumps (overLedger f db) = dbDumps db"
  "dbStates (overLedger f db) = dbStates db" "dbRest (overLedger f db) = dbRest db"
  by (simp_all add: overLedger_def)

text \<open>Statements that do not touch the ledger.\<close>

definition sameLedger :: "('x, 'a) query \<Rightarrow> bool" where
  "sameLedger m \<longleftrightarrow> (\<forall>l. keeps (\<lambda>db. dbLedger db = l) m)"

lemma sameLedgerD: "sameLedger m \<Longrightarrow> m db = (r, db') \<Longrightarrow> dbLedger db' = dbLedger db"
  by (auto simp: sameLedger_def dest: keepsD)

lemma sameLedgerI: "(\<And>db r db'. m db = (r, db') \<Longrightarrow> dbLedger db' = dbLedger db) \<Longrightarrow> sameLedger m"
  unfolding sameLedger_def by (intro allI keepsI) metis

lemma sameLedger_stmt [intro]: "sameLedger m \<Longrightarrow> sameLedger (stmt fl q m)"
  by (simp add: sameLedger_def keeps_stmt)

lemma sameLedger_forEach [intro]: "(\<And>x. sameLedger (f x)) \<Longrightarrow> sameLedger (forEach xs f)"
  by (simp add: sameLedger_def keeps_forEach)

lemma sameLedger_mapEach [intro]: "(\<And>x. sameLedger (f x)) \<Longrightarrow> sameLedger (mapEach f xs)"
  by (simp add: sameLedger_def keeps_mapEach)

lemma sameLedger_andThen [intro]: "sameLedger m \<Longrightarrow> (\<And>x. sameLedger (f x)) \<Longrightarrow> sameLedger (andThen m f)"
  by (simp add: sameLedger_def keeps_andThen)

lemma sameLedger_ret [simp]: "sameLedger (ret x)"
  by (rule sameLedgerI) simp

lemma sameLedger_assert [simp]: "sameLedger (assertNotDowngrade sc fl dumps b)"
  unfolding assertNotDowngrade_def
  by (cases b) (auto intro!: sameLedger_forEach sameLedger_stmt, auto intro: sameLedgerI)

lemma sameLedger_dump [simp]: "sameLedger (mapEach (findOrInsertDump sc fl) ds)"
  unfolding findOrInsertDump_def
  by (intro sameLedger_mapEach sameLedger_stmt sameLedgerI)
    (auto simp: stmt_def split: option.splits if_splits)

lemma sameLedger_find [simp]: "sameLedger (findSuccessfulRun sc fl fp)" "sameLedger (findResumableRun sc fl fp n m)"
  unfolding findSuccessfulRun_def findResumableRun_def
  by (intro sameLedger_stmt sameLedgerI, simp)+

lemma sameLedger_states [simp]: "sameLedger (updateStates fl a n P f)"
  unfolding updateStates_def Let_def
  by (intro sameLedger_stmt sameLedgerI) (auto split: if_splits)

lemma sameLedger_marks [simp]:
  "sameLedger (markCatalogStatesImporting fl now rid types)"
  "sameLedger (markCatalogStatesReady fl now rid types)"
  "sameLedger (markCatalogStatesFailed fl now rid types m)"
  by (simp_all add: markCatalogStatesImporting_def markCatalogStatesReady_def markCatalogStatesFailed_def)

lemma sameLedger_bootstrap [simp]: "sameLedger (runBootstrapOperation fl a f rid)"
  unfolding runBootstrapOperation_def
  by (intro sameLedger_stmt sameLedgerI) (auto split: option.splits)

section \<open>Statements on the ledger\<close>

definition abandonRuns :: "int \<Rightarrow> entityType list \<Rightarrow> ledger \<Rightarrow> ledger" where
  "abandonRuns now types l = l\<lparr>runs := updateWhere (abandonable types l)
     (\<lambda>r. r\<lparr>rnStatus := Failed, rnCompletedAt := Some now, rnFailure := Some recoveredText\<rparr>) (runs l)\<rparr>"

lemma markAbandonedRuns_Inr:
  "markAbandonedRuns fl now types db = (Inr u, db') \<Longrightarrow> db' = overLedger (abandonRuns now types) db"
  by (auto simp: markAbandonedRuns_def stmt_Inr overLedger_def abandonRuns_def)

lemma abandonRuns_sel [simp]: "runDumps (abandonRuns now types l) = runDumps l" "runChunks (abandonRuns now types l) = runChunks l"
  by (simp_all add: abandonRuns_def)

lemma abandonRuns_map: "map rnID (runs (abandonRuns now types l)) = map rnID (runs l)"
  by (simp add: abandonRuns_def updateWhere_keys)

lemma abandonRuns_ids: "rnID ` set (runs (abandonRuns now types l)) = rnID ` set (runs l)"
  by (metis abandonRuns_map set_map)

text \<open>After recovery no run that touches a selected entity type is active.\<close>

lemma abandonRuns_inactive:
  assumes "d \<in> set (runDumps l)" and "duEntity d \<in> set types"
  shows "\<not> runIsActive (duRun d) (abandonRuns now types l)"
  using assms by (auto simp: runIsActive_def abandonRuns_def updateWhere_def abandonable_def split: if_splits)

lemma abandonRuns_active:
  "runIsActive r (abandonRuns now types l) \<longleftrightarrow>
     runIsActive r l \<and> \<not> (\<exists>d \<in> set (runDumps l). duRun d = r \<and> duEntity d \<in> set types)"
  by (auto simp: runIsActive_def abandonRuns_def updateWhere_def abandonable_def split: if_splits)

definition newRun :: "int \<Rightarrow> string \<Rightarrow> bool \<Rightarrow> bool \<Rightarrow> string \<Rightarrow> int \<Rightarrow> runRow" where
  "newRun rid fingerprint force allowDowngrade version resumed =
     \<lparr>rnID = rid, rnManifest = fingerprint, rnStatus = Running, rnCompletedAt = None, rnForce = force,
      rnAllowDowngrade = allowDowngrade, rnVersion = version,
      rnResumedFrom = (if resumed \<noteq> 0 then Some resumed else None), rnFailure = None\<rparr>"

lemma insertImportRun_Inr:
  "insertImportRun sc fl fp force allow version resumed db = (Inr rid, db') \<Longrightarrow>
     rid = scNextRun sc db \<and>
     db' = overLedger (\<lambda>l. l\<lparr>runs := runs l @ [newRun rid fp force allow version resumed]\<rparr>) db"
  by (auto simp: insertImportRun_def stmt_Inr Let_def newRun_def)

definition newDumpRow :: "'x schema \<Rightarrow> int \<Rightarrow> int \<Rightarrow> dump \<times> int \<times> int \<Rightarrow> runDumpRow" where
  "newDumpRow sc rid chunkSize = (\<lambda>(d, dumpID, revision).
     \<lparr>duRun = rid, duEntity = dEntity d, duDump = dumpID, duChunkSize = Some chunkSize, duRevision = Some revision,
      duProcessed = scProcessedDefault sc, duTotalItems = None, duTotalChunks = None, duCompletedAt = None,
      duLastProgressAt = None\<rparr>)"

definition dumpKey :: "runDumpRow \<Rightarrow> int \<times> entityType" where
  "dumpKey d = (duRun d, duEntity d)"

lemma insertDumpRows_Inr:
  "insertDumpRows name rows db = (Inr u, db') \<Longrightarrow>
     db' = overLedger (\<lambda>l. l\<lparr>runDumps := runDumps l @ rows\<rparr>) db \<and>
     distinct (map dumpKey rows) \<and> dumpKey ` set rows \<inter> dumpKey ` set (runDumps (dbLedger db)) = {}"
  by (fastforce simp: insertDumpRows_def Let_def dumpMatches_def dumpKey_def [abs_def] split: if_splits)

lemma insertRunDumps_Inr:
  assumes "insertRunDumps sc fl rid chunkSize items db = (Inr u, db')"
  shows "db' = overLedger (\<lambda>l. l\<lparr>runDumps := runDumps l @ map (newDumpRow sc rid chunkSize) items\<rparr>) db \<and>
    distinct (map dumpKey (map (newDumpRow sc rid chunkSize) items)) \<and>
    dumpKey ` set (map (newDumpRow sc rid chunkSize) items) \<inter> dumpKey ` set (runDumps (dbLedger db)) = {}"
  using assms
proof (induction items arbitrary: db)
  case Nil
  then show ?case by (simp add: insertRunDumps_def overLedger_def)
next
  case (Cons it items)
  obtain d i v where it: "it = (d, i, v)" by (cases it)
  let ?row = "newDumpRow sc rid chunkSize it"
  from Cons.prems obtain t where one: "insertImportRunDump sc fl rid (dEntity d) i chunkSize v db = (Inr (), t)"
    and rest: "insertRunDumps sc fl rid chunkSize items t = (Inr u, db')"
    by (auto simp: insertRunDumps_def it andThen_Inr_iff)
  have t: "t = overLedger (\<lambda>l. l\<lparr>runDumps := runDumps l @ [?row]\<rparr>) db"
    "dumpKey ?row \<notin> dumpKey ` set (runDumps (dbLedger db))"
    using one insertDumpRows_Inr [of _ "[?row]" db "()" t]
    by (auto simp: insertImportRunDump_def stmt_Inr newDumpRow_def it)
  show ?case using Cons.IH [OF rest] t by (auto simp: overLedger_def)
qed

definition transferChunks :: "int \<Rightarrow> int \<Rightarrow> ledger \<Rightarrow> ledger" where
  "transferChunks fromRun toRun l = (copySummaries fromRun toRun l)\<lparr>runChunks :=
     filter (\<lambda>k. ckRun k \<noteq> fromRun) (runChunks l @ map (\<lambda>k. k\<lparr>ckRun := toRun\<rparr>) (chunksOfRun fromRun l))\<rparr>"

definition chunkKey :: "chunkRow \<Rightarrow> int \<times> entityType \<times> int" where
  "chunkKey k = (ckRun k, ckEntity k, ckIndex k)"

lemma insertChunkRows_Inr:
  "insertChunkRows name rows db = (Inr u, db') \<Longrightarrow>
     db' = overLedger (\<lambda>l. l\<lparr>runChunks := runChunks l @ rows\<rparr>) db \<and>
     distinct (map chunkKey rows) \<and> chunkKey ` set rows \<inter> chunkKey ` set (runChunks (dbLedger db)) = {}"
  by (auto simp: insertChunkRows_def Let_def chunkKey_def [abs_def] split: if_splits)

lemma copyResumeProgress_Inr:
  assumes "copyResumeProgress fl fromRun toRun n db = (Inr u, db')"
  shows "db' = overLedger (transferChunks fromRun toRun) db \<and>
    countWhere (\<lambda>d. resumeSource fromRun toRun (dbLedger db) d \<noteq> None) (runDumps (dbLedger db)) = n \<and>
    chunkKey ` set (map (\<lambda>k. k\<lparr>ckRun := toRun\<rparr>) (chunksOfRun fromRun (dbLedger db))) \<inter>
      chunkKey ` set (runChunks (dbLedger db)) = {}"
proof -
  let ?l = "dbLedger db"
  let ?db1 = "overLedger (copySummaries fromRun toRun) db"
  let ?rows = "map (\<lambda>k. k\<lparr>ckRun := toRun\<rparr>) (chunksOfRun fromRun ?l)"
  have same: "chunksOfRun fromRun (dbLedger ?db1) = chunksOfRun fromRun ?l"
    "runChunks (dbLedger ?db1) = runChunks ?l"
    by (simp_all add: chunksOfRun_def copySummaries_def)
  from assms obtain t c where n: "countWhere (\<lambda>d. resumeSource fromRun toRun ?l d \<noteq> None) (runDumps ?l) = n"
    and ins: "insertChunkRows ''copy import run chunks'' ?rows ?db1 = (Inr (), t)"
    and db': "db' = overLedger (\<lambda>l. l\<lparr>runChunks := filter (\<lambda>k. ckRun k \<noteq> fromRun) (runChunks l)\<rparr>) t"
    using same by (auto simp: copyResumeProgress_def andThen_Inr_iff stmt_Inr Let_def split: if_splits)
  from insertChunkRows_Inr [OF ins] same n db' show ?thesis
    by (auto simp: overLedger_def transferChunks_def)
qed

section \<open>Moving recorded progress to a new run\<close>

lemma countWhere_le:
  assumes "\<And>x. P x \<Longrightarrow> Q x" shows "countWhere P xs \<le> countWhere Q xs"
  unfolding countWhere_def by (induction xs) (use assms in auto)

lemma countWhere_append: "countWhere P (xs @ ys) = countWhere P xs + countWhere P ys"
  by (simp add: countWhere_def)

lemma countWhere_length: "countWhere P xs \<le> int (length xs)"
  by (simp add: countWhere_def)

lemma countWhere_all:
  assumes "\<And>x. P x \<Longrightarrow> Q x" and "countWhere P xs \<ge> countWhere Q xs" and "x \<in> set xs" and "Q x"
  shows "P x"
  using assms(2,3)
proof (induction xs)
  case (Cons y ys)
  have le: "countWhere P ys \<le> countWhere Q ys" by (rule countWhere_le [OF assms(1)])
  have one: "countWhere R (y # ys) = (if R y then 1 else 0) + countWhere R ys" for R :: "'a \<Rightarrow> bool"
    by (simp add: countWhere_def)
  show ?case
  proof (cases "x = y")
    case True
    then show ?thesis using Cons.prems(1) le assms(4) by (auto simp: one split: if_splits)
  next
    case False
    then have "countWhere Q ys \<le> countWhere P ys"
      using Cons.prems(1) assms(1) [of y] le by (auto simp: one split: if_splits)
    then show ?thesis using Cons.IH Cons.prems(2) False by simp
  qed
qed simp

lemma resumeSource_Some:
  assumes "resumeSource fromRun toRun l d = Some s"
  shows "s \<in> set (runDumps l) \<and> duRun s = fromRun \<and> duEntity s = duEntity d \<and> duDump s = duDump d \<and>
    duRun d = toRun \<and> duChunkSize s = duChunkSize d"
  using assms by (auto simp: resumeSource_def find_Some_iff split: if_splits)

lemma copySummary_sel [simp]: "duRun (copySummary s d) = duRun d" "duEntity (copySummary s d) = duEntity d"
  "duDump (copySummary s d) = duDump d" "duChunkSize (copySummary s d) = duChunkSize d"
  "duRevision (copySummary s d) = duRevision d"
  "duProcessed (copySummary s d) = duProcessed s"
  by (simp_all add: copySummary_def)

lemma transfer_sel [simp]: "runs (transferChunks a b l) = runs l"
  "runIsActive r (transferChunks a b l) = runIsActive r l"
  by (simp_all add: transferChunks_def copySummaries_def runIsActive_def)

lemma transfer_chunksOf:
  assumes "fromRun \<noteq> toRun" and "chunksOfRun toRun l = []"
  shows "chunksOf r e (transferChunks fromRun toRun l) =
    (if r = fromRun then [] else if r = toRun then map (\<lambda>k. k\<lparr>ckRun := toRun\<rparr>) (chunksOf fromRun e l) else chunksOf r e l)"
proof -
  let ?f = "\<lambda>k. k\<lparr>ckRun := toRun\<rparr>"
  have split: "chunksOf r e (transferChunks fromRun toRun l) =
      filter (\<lambda>k. ckRun k \<noteq> fromRun \<and> chunkMatches r e k) (runChunks l) @
      map ?f (filter (\<lambda>k. ckRun (?f k) \<noteq> fromRun \<and> chunkMatches r e (?f k)) (chunksOfRun fromRun l))"
    by (simp add: chunksOf_def transferChunks_def filter_map o_def conj_commute)
  have none: "\<forall>k \<in> set (runChunks l). ckRun k \<noteq> toRun" using assms(2) by (simp add: chunksOfRun_def filter_empty_conv)
  have a: "filter (\<lambda>k. ckRun k \<noteq> fromRun \<and> chunkMatches r e k) (runChunks l) =
      (if r = fromRun \<or> r = toRun then [] else chunksOf r e l)"
    using none by (auto simp: chunksOf_def filter_empty_conv chunkMatches_def intro!: filter_cong)
  have b: "filter (\<lambda>k. ckRun (?f k) \<noteq> fromRun \<and> chunkMatches r e (?f k)) (chunksOfRun fromRun l) =
      (if r = toRun then chunksOf fromRun e l else [])"
    using assms(1) by (auto simp: chunksOfRun_def chunksOf_def chunkMatches_def filter_empty_conv intro!: filter_cong)
  show ?thesis using split a b assms(1) by simp
qed

lemma chunkItems_move [simp]: "chunkItems (map (\<lambda>k. k\<lparr>ckRun := r\<rparr>) ks) = chunkItems ks"
  by (simp add: chunkItems_def o_def)

lemma uniqueDumps_key: "uniqueDumps l \<longleftrightarrow> distinct (map dumpKey (runDumps l))"
  by (simp add: uniqueDumps_def dumpKey_def [abs_def])

lemma uniqueChunks_key: "uniqueChunks l \<longleftrightarrow> distinct (map chunkKey (runChunks l))"
  by (simp add: uniqueChunks_def chunkKey_def [abs_def])

lemma transfer_uniqueChunks:
  assumes uniq: "uniqueChunks l" and "chunksOfRun toRun l = []"
  shows "uniqueChunks (transferChunks fromRun toRun l)"
proof -
  let ?f = "\<lambda>k. k\<lparr>ckRun := toRun\<rparr>"
  have none: "\<forall>k \<in> set (runChunks l). ckRun k \<noteq> toRun" using assms(2) by (simp add: chunksOfRun_def filter_empty_conv)
  have d: "distinct (runChunks l)" "inj_on chunkKey (set (runChunks l))"
    using uniq by (simp_all add: uniqueChunks_key distinct_map)
  have "distinct (map (chunkKey \<circ> ?f) (chunksOfRun fromRun l))"
    unfolding distinct_map
  proof
    show "distinct (chunksOfRun fromRun l)" using d(1) by (simp add: chunksOfRun_def)
    show "inj_on (chunkKey \<circ> ?f) (set (chunksOfRun fromRun l))"
    proof (rule inj_onI)
      fix x y assume xy: "x \<in> set (chunksOfRun fromRun l)" "y \<in> set (chunksOfRun fromRun l)"
        "(chunkKey \<circ> ?f) x = (chunkKey \<circ> ?f) y"
      then have "chunkKey x = chunkKey y" by (simp add: chunkKey_def chunksOfRun_def)
      then show "x = y" using d(2) xy by (auto simp: inj_on_def chunksOfRun_def)
    qed
  qed
  moreover have "chunkKey ` set (runChunks l) \<inter> (chunkKey \<circ> ?f) ` set (chunksOfRun fromRun l) = {}"
    using none by (auto simp: chunkKey_def)
  ultimately have "distinct (map chunkKey (runChunks l @ map ?f (chunksOfRun fromRun l)))"
    using uniq by (auto simp: uniqueChunks_key image_image o_def)
  then have "distinct (map chunkKey (filter (\<lambda>k. ckRun k \<noteq> fromRun) (runChunks l @ map ?f (chunksOfRun fromRun l))))"
    by (rule distinct_map_filter)
  then show ?thesis by (simp add: uniqueChunks_key transferChunks_def)
qed

lemma transfer_inv:
  assumes inv: "ledgerInv l" and ne: "fromRun \<noteq> toRun" and none: "chunksOfRun toRun l = []"
    and dead: "\<not> runIsActive fromRun l"
    and matched: "\<forall>d \<in> set (runDumps l). duRun d = toRun \<longrightarrow> resumeSource fromRun toRun l d \<noteq> None"
    and counted: "\<forall>s \<in> set (runDumps l). duRun s = fromRun \<longrightarrow> duProcessed s = chunkItems (chunksOf fromRun (duEntity s) l)"
  shows "ledgerInv (transferChunks fromRun toRun l)"
proof -
  let ?g = "\<lambda>d. case resumeSource fromRun toRun l d of None \<Rightarrow> d | Some s \<Rightarrow> copySummary s d"
  have rd: "runDumps (transferChunks fromRun toRun l) = map ?g (runDumps l)"
    by (simp add: transferChunks_def copySummaries_def)
  have "map dumpKey (map ?g (runDumps l)) = map dumpKey (runDumps l)"
    by (auto simp: dumpKey_def split: option.splits)
  then have "uniqueDumps (transferChunks fromRun toRun l)"
    using inv by (simp only: ledgerInv_def uniqueDumps_key rd)
  moreover have "progressCounted (transferChunks fromRun toRun l)"
    unfolding progressCounted_def rd
  proof (intro ballI impI)
    fix d' assume "d' \<in> set (map ?g (runDumps l))" and act: "runIsActive (duRun d') (transferChunks fromRun toRun l)"
    then obtain d where d: "d \<in> set (runDumps l)" "d' = ?g d" by auto
    then have keys: "duRun d' = duRun d" "duEntity d' = duEntity d" by (auto split: option.splits)
    then have live: "runIsActive (duRun d) l" using act by simp
    show "duProcessed d' = chunkItems (chunksOf (duRun d') (duEntity d') (transferChunks fromRun toRun l))"
    proof (cases "duRun d = toRun")
      case True
      then obtain s where s: "resumeSource fromRun toRun l d = Some s" using matched d(1) by auto
      from resumeSource_Some [OF s] have "duProcessed d' = chunkItems (chunksOf fromRun (duEntity d) l)"
        using counted d(2) s by auto
      then show ?thesis using keys True ne by (simp add: transfer_chunksOf [OF ne none])
    next
      case False
      then have "d' = d" using d(2) resumeSource_Some [of fromRun toRun l d] by (auto split: option.splits)
      moreover have "duRun d \<noteq> fromRun" using dead live by auto
      ultimately show ?thesis
        using False inv d(1) live by (simp add: transfer_chunksOf [OF ne none] ledgerInv_def progressCounted_def)
    qed
  qed
  ultimately show ?thesis using transfer_uniqueChunks [OF _ none] inv by (simp add: ledgerInv_def)
qed

section \<open>The admission transaction\<close>

text \<open>Documented behaviour of the schema: generated run identifiers are positive and not in use,
  and \<open>processed_items\<close> starts at zero.\<close>

definition freshRun :: "int \<Rightarrow> ledger \<Rightarrow> bool" where
  "freshRun rid l \<longleftrightarrow> 0 < rid \<and> rid \<notin> rnID ` set (runs l) \<and> rid \<notin> duRun ` set (runDumps l) \<and> rid \<notin> ckRun ` set (runChunks l)"

definition schemaOK :: "'x schema \<Rightarrow> bool" where
  "schemaOK sc \<longleftrightarrow> (\<forall>db. freshRun (scNextRun sc db) (dbLedger db)) \<and> scProcessedDefault sc = 0"

definition startedLedger ::
  "'x schema \<Rightarrow> int \<Rightarrow> string \<Rightarrow> bool \<Rightarrow> bool \<Rightarrow> string \<Rightarrow> int \<Rightarrow> int \<Rightarrow> (dump \<times> int \<times> int) list \<Rightarrow> ledger \<Rightarrow> ledger" where
  "startedLedger sc rid fp force allow version resumed chunkSize items l =
     l\<lparr>runs := runs l @ [newRun rid fp force allow version resumed],
       runDumps := runDumps l @ map (newDumpRow sc rid chunkSize) items\<rparr>"

lemma startAdmission_Inr:
  assumes "startAdmission sc fl now version plan dumpIDs chunkSize force allow db = (Inr p, db')"
  defines "items \<equiv> zip (apDumps plan) (zip dumpIDs (apRevisions plan))" and "n \<equiv> int (length (apDumps plan))"
  obtains (started) resumed rid db1 where
    "p = \<lparr>ipManifest = apFingerprint plan, ipRun = rid, ipResumedFrom = resumed, ipSkipped = False\<rparr>"
    and "rid = scNextRun sc db"
    and "resumed = (if force then 0 else case latestRun (resumable sc db (apFingerprint plan) chunkSize n) (dbLedger db) of
           None \<Rightarrow> 0 | Some r \<Rightarrow> rnID r)"
    and "distinct (map dumpKey (map (newDumpRow sc rid chunkSize) items))"
    and "dumpKey ` set (map (newDumpRow sc rid chunkSize) items) \<inter> dumpKey ` set (runDumps (dbLedger db)) = {}"
    and "dbLedger db1 = (let l = startedLedger sc rid (apFingerprint plan) force allow version resumed chunkSize items (dbLedger db)
           in if resumed = 0 then l else transferChunks resumed rid l)"
    and "resumed \<noteq> 0 \<Longrightarrow> countWhere (\<lambda>d. resumeSource resumed rid
           (startedLedger sc rid (apFingerprint plan) force allow version resumed chunkSize items (dbLedger db)) d \<noteq> None)
           (runDumps (startedLedger sc rid (apFingerprint plan) force allow version resumed chunkSize items (dbLedger db))) = n"
    and "dbStates db1 = dbStates db" and "dbDumps db1 = dbDumps db" and "dbRest db1 = dbRest db"
    and "andThen (markCatalogStatesImporting fl now rid (apOrdered plan))
           (\<lambda>_. runBootstrapOperation fl ''prepare'' (scPrepareBootstrap sc) rid) db1 = (Inr (), db')"
proof -
  let ?fp = "apFingerprint plan"
  from assms(1) obtain resumed t0 rid t1 t2 t3 t4 where
    r: "(if force then ret 0 else findResumableRun sc fl ?fp chunkSize n) db = (Inr resumed, t0)"
    and i: "insertImportRun sc fl ?fp force allow version resumed t0 = (Inr rid, t1)"
    and d: "insertRunDumps sc fl rid chunkSize items t1 = (Inr (), t2)"
    and c: "(if resumed \<noteq> 0 then copyResumeProgress fl resumed rid n else ret ()) t2 = (Inr (), t3)"
    and m: "markCatalogStatesImporting fl now rid (apOrdered plan) t3 = (Inr (), t4)"
    and b: "runBootstrapOperation fl ''prepare'' (scPrepareBootstrap sc) rid t4 = (Inr (), db')"
    and p: "p = \<lparr>ipManifest = ?fp, ipRun = rid, ipResumedFrom = resumed, ipSkipped = False\<rparr>"
    unfolding startAdmission_def Let_def items_def n_def by (auto simp: andThen_Inr_iff)
  have r': "t0 = db" "resumed = (if force then 0 else case latestRun (resumable sc db ?fp chunkSize n) (dbLedger db) of
           None \<Rightarrow> 0 | Some r \<Rightarrow> rnID r)"
    using r by (auto simp: findResumableRun_def stmt_Inr split: if_splits)
  note i' = insertImportRun_Inr [OF i]
  note d' = insertRunDumps_Inr [OF d]
  let ?l = "startedLedger sc rid ?fp force allow version resumed chunkSize items (dbLedger db)"
  have t2: "dbLedger t2 = ?l" "dbStates t2 = dbStates db" "dbDumps t2 = dbDumps db" "dbRest t2 = dbRest db"
    using i' d' r' by (auto simp: startedLedger_def)
  have t3: "dbLedger t3 = (if resumed = 0 then ?l else transferChunks resumed rid ?l)" "dbStates t3 = dbStates t2"
      "dbDumps t3 = dbDumps t2" "dbRest t3 = dbRest t2"
    and cnt: "resumed \<noteq> 0 \<Longrightarrow> countWhere (\<lambda>d. resumeSource resumed rid ?l d \<noteq> None) (runDumps ?l) = n"
    using c copyResumeProgress_Inr [of fl resumed rid n t2 "()" t3] t2 by (auto split: if_splits)
  show thesis
  proof (rule that [of rid resumed t3])
    show "andThen (markCatalogStatesImporting fl now rid (apOrdered plan))
           (\<lambda>_. runBootstrapOperation fl ''prepare'' (scPrepareBootstrap sc) rid) t3 = (Inr (), db')"
      using m b by (auto simp: andThen_Inr_iff)
  qed (use p i' r' d' t2 t3 cnt in \<open>simp_all add: Let_def\<close>)
qed

text \<open>A started run: the invariant holds in the ledger with the new run and its dumps.\<close>

lemma startedLedger_inv:
  assumes inv: "ledgerInv l" and fresh: "freshRun rid l" and zero: "scProcessedDefault sc = 0"
    and dist: "distinct (map dumpKey (map (newDumpRow sc rid chunkSize) items))"
    and new: "dumpKey ` set (map (newDumpRow sc rid chunkSize) items) \<inter> dumpKey ` set (runDumps l) = {}"
  shows "ledgerInv (startedLedger sc rid fp force allow version resumed chunkSize items l)" (is "ledgerInv ?l")
proof -
  have row: "duRun (newDumpRow sc rid chunkSize it) = rid" "duProcessed (newDumpRow sc rid chunkSize it) = 0" for it
    using zero by (auto simp: newDumpRow_def split: prod.splits)
  have chunks: "chunksOf r e ?l = chunksOf r e l" for r e by (simp add: chunksOf_def startedLedger_def)
  have none: "chunksOf rid e l = []" for e
    using fresh by (auto simp: freshRun_def chunksOf_def chunkMatches_def filter_empty_conv)
  have old: "r \<noteq> rid \<Longrightarrow> runIsActive r ?l \<longleftrightarrow> runIsActive r l" for r
    by (auto simp: runIsActive_def startedLedger_def newRun_def)
  have "uniqueDumps ?l" using inv dist new
    by (auto simp: ledgerInv_def uniqueDumps_key startedLedger_def)
  moreover have "uniqueChunks ?l" using inv by (simp add: ledgerInv_def uniqueChunks_key startedLedger_def)
  moreover have "progressCounted ?l"
    unfolding progressCounted_def
  proof (intro ballI impI)
    fix d assume d: "d \<in> set (runDumps ?l)" and act: "runIsActive (duRun d) ?l"
    show "duProcessed d = chunkItems (chunksOf (duRun d) (duEntity d) ?l)"
    proof (cases "d \<in> set (runDumps l)")
      case True
      then have "duRun d \<noteq> rid" using fresh by (auto simp: freshRun_def)
      then show ?thesis using True inv act old chunks by (simp add: ledgerInv_def progressCounted_def)
    next
      case False
      then obtain it where "d = newDumpRow sc rid chunkSize it" using d by (auto simp: startedLedger_def)
      then show ?thesis using row none chunks by simp
    qed
  qed
  ultimately show ?thesis by (simp add: ledgerInv_def)
qed

lemma resumable_dumps:
  assumes "resumable sc db fp chunkSize n r" and "d \<in> set (runDumps (dbLedger db))" and "duRun d = rnID r"
  shows "duProcessed d = chunkItems (chunksOf (rnID r) (duEntity d) (dbLedger db))"
    and "duRevision d = currentRevision sc (duEntity d)" and "duChunkSize d = Some chunkSize"
  using assms by (auto simp: resumable_def Let_def dumpsOfRun_def)

text \<open>The resumed run is inactive: its row is failed, and run identifiers are unique.\<close>

definition uniqueRuns :: "ledger \<Rightarrow> bool" where
  "uniqueRuns l \<longleftrightarrow> distinct (map rnID (runs l))"

lemma uniqueRuns_eq: "uniqueRuns l \<Longrightarrow> r \<in> set (runs l) \<Longrightarrow> s \<in> set (runs l) \<Longrightarrow> rnID r = rnID s \<Longrightarrow> r = s"
  unfolding uniqueRuns_def by (rule distinct_map_eqD)

lemma startAdmission_inv:
  assumes run: "startAdmission sc fl now version plan dumpIDs chunkSize force allow db = (Inr p, db')"
    and inv: "ledgerInv (dbLedger db)" and uniq: "uniqueRuns (dbLedger db)" and sc: "schemaOK sc"
  shows "ledgerInv (dbLedger db') \<and> uniqueRuns (dbLedger db')"
proof -
  let ?items = "zip (apDumps plan) (zip dumpIDs (apRevisions plan))" and ?n = "int (length (apDumps plan))"
  from run show ?thesis
  proof (cases rule: startAdmission_Inr)
  case (started resumed rid db1)
  have rid: "rid = scNextRun sc db" and
    res: "resumed = (if force then 0 else case latestRun (resumable sc db (apFingerprint plan) chunkSize ?n) (dbLedger db) of
           None \<Rightarrow> 0 | Some r \<Rightarrow> rnID r)"
    and dist: "distinct (map dumpKey (map (newDumpRow sc rid chunkSize) ?items))"
      "dumpKey ` set (map (newDumpRow sc rid chunkSize) ?items) \<inter> dumpKey ` set (runDumps (dbLedger db)) = {}"
    and l1: "dbLedger db1 = (let l = startedLedger sc rid (apFingerprint plan) force allow version resumed chunkSize ?items (dbLedger db)
           in if resumed = 0 then l else transferChunks resumed rid l)"
    and cnt: "resumed \<noteq> 0 \<Longrightarrow> countWhere (\<lambda>d. resumeSource resumed rid
           (startedLedger sc rid (apFingerprint plan) force allow version resumed chunkSize ?items (dbLedger db)) d \<noteq> None)
           (runDumps (startedLedger sc rid (apFingerprint plan) force allow version resumed chunkSize ?items (dbLedger db))) = ?n"
    and fin: "andThen (markCatalogStatesImporting fl now rid (apOrdered plan))
           (\<lambda>_. runBootstrapOperation fl ''prepare'' (scPrepareBootstrap sc) rid) db1 = (Inr (), db')" using started by blast+
  let ?l = "startedLedger sc rid (apFingerprint plan) force allow version resumed chunkSize ?items (dbLedger db)"
  have fresh: "freshRun rid (dbLedger db)" using sc rid by (simp add: schemaOK_def)
  have same: "dbLedger db' = dbLedger db1"
    using fin by (auto simp: andThen_Inr_iff dest!: sameLedgerD [OF sameLedger_marks(1)] sameLedgerD [OF sameLedger_bootstrap])
  have I: "ledgerInv ?l" using startedLedger_inv [OF inv fresh _ dist] sc by (simp add: schemaOK_def)
  have U: "uniqueRuns ?l" using uniq fresh by (simp add: uniqueRuns_def startedLedger_def newRun_def freshRun_def)
  have "ledgerInv (transferChunks resumed rid ?l)" if nz: "resumed \<noteq> 0"
  proof -
    obtain r where r: "latestRun (resumable sc db (apFingerprint plan) chunkSize ?n) (dbLedger db) = Some r" "resumed = rnID r"
      using res nz by (auto split: if_splits option.splits)
    note lr = latestRun_Some [OF r(1)]
    have ne: "resumed \<noteq> rid" using lr(1) r(2) fresh by (auto simp: freshRun_def)
    have none: "chunksOfRun rid ?l = []"
      using fresh by (auto simp: chunksOfRun_def startedLedger_def freshRun_def filter_empty_conv)
    have "rnStatus r = Failed" using lr(2) by (simp add: resumable_def Let_def)
    then have dead: "\<not> runIsActive resumed ?l"
      using r(2) ne uniqueRuns_eq [OF uniq lr(1)] by (fastforce simp: runIsActive_def startedLedger_def newRun_def)
    have matched: "\<forall>d \<in> set (runDumps ?l). duRun d = rid \<longrightarrow> resumeSource resumed rid ?l d \<noteq> None"
    proof (intro ballI impI)
      fix d assume d: "d \<in> set (runDumps ?l)" "duRun d = rid"
      have old: "\<forall>d \<in> set (runDumps (dbLedger db)). duRun d \<noteq> rid" using fresh by (auto simp: freshRun_def)
      have "countWhere (\<lambda>d. duRun d = rid) (runDumps ?l) \<le> int (length ?items)"
        using old countWhere_length [of "\<lambda>d. duRun d = rid" "map (newDumpRow sc rid chunkSize) ?items"]
          countWhere_zero [of "\<lambda>d. duRun d = rid" "runDumps (dbLedger db)"]
        by (simp add: startedLedger_def countWhere_append)
      also have "\<dots> \<le> ?n" by simp
      finally have le: "countWhere (\<lambda>d. duRun d = rid) (runDumps ?l) \<le>
          countWhere (\<lambda>d. resumeSource resumed rid ?l d \<noteq> None) (runDumps ?l)"
        using cnt [OF nz] by simp
      show "resumeSource resumed rid ?l d \<noteq> None"
        by (rule countWhere_all [OF _ le d(1)]) (use d(2) resumeSource_Some in \<open>auto\<close>)
    qed
    have counted: "\<forall>s \<in> set (runDumps ?l). duRun s = resumed \<longrightarrow> duProcessed s = chunkItems (chunksOf resumed (duEntity s) ?l)"
    proof (intro ballI impI)
      fix s assume s: "s \<in> set (runDumps ?l)" "duRun s = resumed"
      then have "s \<in> set (runDumps (dbLedger db))" using ne by (auto simp: startedLedger_def newDumpRow_def split: prod.splits)
      moreover have "chunksOf resumed (duEntity s) ?l = chunksOf resumed (duEntity s) (dbLedger db)"
        by (simp add: chunksOf_def startedLedger_def)
      ultimately show "duProcessed s = chunkItems (chunksOf resumed (duEntity s) ?l)"
        using resumable_dumps(1) [OF lr(2)] s(2) r(2) by simp
    qed
    show ?thesis by (rule transfer_inv [OF I ne none dead matched counted])
  qed
  moreover have "uniqueRuns (transferChunks resumed rid ?l)" using U by (simp add: uniqueRuns_def)
  ultimately show ?thesis using I U l1 same by (auto simp: Let_def split: if_splits)
  qed
qed

definition dbOK :: "'x catalogDB \<Rightarrow> bool" where
  "dbOK db \<longleftrightarrow> ledgerInv (dbLedger db) \<and> uniqueRuns (dbLedger db)"

lemma dbOK_cong: "dbLedger db' = dbLedger db \<Longrightarrow> dbOK db' = dbOK db"
  by (simp add: dbOK_def)

text \<open>Fewer active runs and fewer chunks of inactive runs keep the invariant.\<close>

lemma ledgerInv_deactivate:
  assumes "ledgerInv l" and "runDumps l' = runDumps l" and "runChunks l' = filter P (runChunks l)"
    and "\<And>r. runIsActive r l' \<Longrightarrow> runIsActive r l \<and> (\<forall>k \<in> set (runChunks l). ckRun k = r \<longrightarrow> P k)"
  shows "ledgerInv l'"
proof -
  have "chunksOf r e l' = chunksOf r e l" if "runIsActive r l'" for r e
    unfolding chunksOf_def assms(3) filter_filter
    by (rule filter_cong) (use assms(4) [OF that] in \<open>auto simp: chunkMatches_def\<close>)
  moreover have "uniqueChunks l'"
    using assms(1,3) by (auto simp: ledgerInv_def uniqueChunks_key intro: distinct_map_filter)
  ultimately show ?thesis
    using assms by (auto simp: ledgerInv_def uniqueDumps_key progressCounted_def)
qed

lemma abandonRuns_inv: "ledgerInv l \<Longrightarrow> ledgerInv (abandonRuns now types l)"
  by (rule ledgerInv_deactivate [where P = "\<lambda>_. True"]) (auto simp: abandonRuns_active)

lemma abandonRuns_unique: "uniqueRuns (abandonRuns now types l) = uniqueRuns l"
  by (simp add: uniqueRuns_def abandonRuns_def updateWhere_keys)

lemma consolidated_inv:
  assumes inv: "ledgerInv l" and fresh: "rid \<notin> rnID ` set (runs l)" and st: "rnStatus r = Succeeded" "rnID r = rid"
    and rows: "\<forall>d \<in> set rows. duRun d = rid" "distinct (map dumpKey rows)"
      "dumpKey ` set rows \<inter> dumpKey ` set (runDumps l) = {}"
  shows "ledgerInv (l\<lparr>runs := runs l @ [r], runDumps := runDumps l @ rows\<rparr>)"
proof -
  let ?l = "l\<lparr>runs := runs l @ [r], runDumps := runDumps l @ rows\<rparr>"
  have act: "runIsActive x ?l \<longleftrightarrow> runIsActive x l" for x using st by (auto simp: runIsActive_def)
  have "\<not> runIsActive rid l" using fresh by (auto simp: runIsActive_def)
  then have "progressCounted ?l"
    using inv rows(1) act by (auto simp: progressCounted_def ledgerInv_def chunksOf_def)
  then show ?thesis using inv rows(2,3)
    by (auto simp: ledgerInv_def uniqueDumps_key uniqueChunks_key)
qed

lemma consolidate_Inr:
  assumes "consolidateSuccessfulImportRun sc fl now fp version n db = (Inr rid, db')"
  obtains r rows where "rid = scNextRun sc db" and "rnID r = scNextRun sc db" and "rnStatus r = Succeeded"
    and "rnManifest r = fp" and "\<forall>d \<in> set rows. duRun d = scNextRun sc db" and "distinct (map dumpKey rows)"
    and "dumpKey ` set rows \<inter> dumpKey ` set (runDumps (dbLedger db)) = {}" and "int (length rows) = n"
    and "db' = overLedger (\<lambda>l. l\<lparr>runs := runs l @ [r], runDumps := runDumps l @ rows\<rparr>) db"
proof -
  let ?rid = "scNextRun sc db"
  let ?r = "\<lparr>rnID = ?rid, rnManifest = fp, rnStatus = Succeeded, rnCompletedAt = Some now, rnForce = False,
      rnAllowDowngrade = False, rnVersion = version, rnResumedFrom = None, rnFailure = None\<rparr>"
  let ?db1 = "overLedger (\<lambda>l. l\<lparr>runs := runs l @ [?r]\<rparr>) db"
  define rows where "rows = concat (map (consolidatedRow sc ?db1 ?rid)
    (case latestRun (\<lambda>r. successfulRun fp r \<and> rnID r \<noteq> ?rid) (dbLedger ?db1) of
       None \<Rightarrow> [] | Some r \<Rightarrow> dumpsOfRun (rnID r) (dbLedger ?db1)))"
  have run: "\<forall>d \<in> set rows. duRun d = ?rid"
    by (auto simp: rows_def consolidatedRow_def split: option.splits prod.splits if_splits)
  let ?ins = "insertDumpRows ''record consolidated successful import run dumps'' rows"
  from assms have "andThen ?ins (\<lambda>_. if int (length rows) \<noteq> n then throw (Recorded (int (length rows)) n) else ret ?rid) ?db1
      = (Inr rid, db')"
    unfolding consolidateSuccessfulImportRun_def andThen_Inr_iff [of "stmt _ _ _"] stmt_Inr Let_def rows_def
    by clarsimp
  from andThen_guard [OF this]
  obtain u where ins: "?ins ?db1 = (Inr u, db')" and n: "int (length rows) = n" and rid: "rid = ?rid" by blast
  from insertDumpRows_Inr [OF ins] have
    "db' = overLedger (\<lambda>l. l\<lparr>runs := runs l @ [?r], runDumps := runDumps l @ rows\<rparr>) db"
    "distinct (map dumpKey rows)" "dumpKey ` set rows \<inter> dumpKey ` set (runDumps (dbLedger db)) = {}"
    by (auto simp: overLedger_def)
  with run n rid show thesis by (intro that [of ?r rows]) simp_all
qed

lemma skipAdmission_inv:
  assumes skip: "skipAdmission sc fl now version plan k db = (Inr p, db')" and ok: "dbOK db" and sc: "schemaOK sc"
  shows "dbOK db'"
proof -
  from skip obtain rid db1 u where c: "(if cmExact k = 0
      then consolidateSuccessfulImportRun sc fl now (apFingerprint plan) version (int (length (apDumps plan)))
      else ret (cmExact k)) db = (Inr rid, db1)"
    and m: "markCatalogStatesReady fl now rid (apOrdered plan) db1 = (Inr u, db')"
    by (auto simp: skipAdmission_def andThen_Inr_iff)
  have same: "dbLedger db' = dbLedger db1" by (rule sameLedgerD [OF sameLedger_marks(2) m])
  show ?thesis
  proof (cases "cmExact k = 0")
    case False
    then show ?thesis using c same ok by (auto simp: dbOK_def)
  next
    case True
    then have c': "consolidateSuccessfulImportRun sc fl now (apFingerprint plan) version (int (length (apDumps plan))) db = (Inr rid, db1)"
      using c by simp
    have fresh: "freshRun (scNextRun sc db) (dbLedger db)" using sc by (simp add: schemaOK_def)
    from c' show ?thesis
    proof (cases rule: consolidate_Inr)
      case (1 r rows)
      have "ledgerInv (dbLedger db1)"
        using consolidated_inv [of "dbLedger db" "scNextRun sc db" r rows] 1 ok fresh by (simp add: dbOK_def freshRun_def)
      then show ?thesis using 1 same ok fresh by (simp add: dbOK_def uniqueRuns_def freshRun_def)
    qed
  qed
qed

text \<open>The admission transaction up to its decision.\<close>

text \<open>Up to the compatibility check an admission only ends abandoned runs and records the dumps of
  the plan it did not know.\<close>

definition beforeAdmission :: "int \<Rightarrow> entityType list \<Rightarrow> dump list \<Rightarrow> 'x catalogDB \<Rightarrow> 'x catalogDB \<Rightarrow> bool" where
  "beforeAdmission now types ds db0 db \<longleftrightarrow>
     dbLedger db = abandonRuns now types (dbLedger db0) \<and> dbStates db = dbStates db0 \<and> dbRest db = dbRest db0 \<and>
     (\<exists>new. dbDumps db = dbDumps db0 @ new \<and> dpDump ` set new \<subseteq> set ds)"

lemma assertNotDowngrade_same: "assertNotDowngrade sc fl ds allow db = (r, db') \<Longrightarrow> db' = db"
proof (cases allow)
  case False
  assume "assertNotDowngrade sc fl ds allow db = (r, db')"
  with False show ?thesis unfolding assertNotDowngrade_def
    by (induction ds) (fastforce simp: andThen_def stmt_def split: option.splits if_splits sum.splits)+
qed (simp add: assertNotDowngrade_def)

lemma findOrInsertDump_adds:
  "findOrInsertDump sc fl d db = (Inr i, db') \<Longrightarrow>
     dbStates db' = dbStates db \<and> dbRest db' = dbRest db \<and> (\<exists>new. dbDumps db' = dbDumps db @ new \<and> dpDump ` set new \<subseteq> {d})"
  by (auto simp: findOrInsertDump_def stmt_Inr split: option.splits)

lemma recordDumps_adds:
  "mapEach (findOrInsertDump sc fl) ds db = (Inr is, db') \<Longrightarrow>
     dbStates db' = dbStates db \<and> dbRest db' = dbRest db \<and> (\<exists>new. dbDumps db' = dbDumps db @ new \<and> dpDump ` set new \<subseteq> set ds)"
proof (induction ds arbitrary: "is" db)
  case (Cons d ds)
  then obtain i js t where one: "findOrInsertDump sc fl d db = (Inr i, t)" and rest: "mapEach (findOrInsertDump sc fl) ds t = (Inr js, db')"
    by (auto simp: andThen_Inr_iff)
  from findOrInsertDump_adds [OF one] Cons.IH [OF rest] obtain a b where
    "dbDumps t = dbDumps db @ a" "dpDump ` set a \<subseteq> {d}" "dbDumps db' = dbDumps t @ b" "dpDump ` set b \<subseteq> set ds"
    "dbStates db' = dbStates db" "dbRest db' = dbRest db" by auto
  then show ?case by (intro conjI exI [of _ "a @ b"]) auto
qed simp

lemma admit_Inr:
  assumes "admit sc fl now version plan chunkSize force allow db = (Inr p, db')"
  obtains (skipped) db1 k where "dbLedger db1 = abandonRuns now (apOrdered plan) (dbLedger db)"
      and "findSuccessfulRun sc fl (apFingerprint plan) db1 = (Inr k, db1)"
      and "fullySatisfied force (int (length (apDumps plan))) k"
      and "skipAdmission sc fl now version plan k db1 = (Inr p, db')"
      and "beforeAdmission now (apOrdered plan) (apDumps plan) db db1"
  | (begun) db1 dumpIDs k where "dbLedger db1 = abandonRuns now (apOrdered plan) (dbLedger db)"
      and "findSuccessfulRun sc fl (apFingerprint plan) db1 = (Inr k, db1)"
      and "\<not> fullySatisfied force (int (length (apDumps plan))) k"
      and "\<not> partiallySatisfied force (int (length (apDumps plan))) k"
      and "length dumpIDs = length (apDumps plan)"
      and "startAdmission sc fl now version plan dumpIDs chunkSize force allow db1 = (Inr p, db')"
proof -
  from assms obtain t0 t1 dumpIDs db1 k t3 where
    a: "markAbandonedRuns fl now (apOrdered plan) db = (Inr (), t0)"
    and b: "assertNotDowngrade sc fl (apDumps plan) allow t0 = (Inr (), t1)"
    and c: "mapEach (findOrInsertDump sc fl) (apDumps plan) t1 = (Inr dumpIDs, db1)"
    and d: "findSuccessfulRun sc fl (apFingerprint plan) db1 = (Inr k, t3)"
    and e: "(if partiallySatisfied force (int (length (apDumps plan))) k
          then throw (PartiallySatisfied (cmIncompatible k))
          else if fullySatisfied force (int (length (apDumps plan))) k
          then skipAdmission sc fl now version plan k
          else startAdmission sc fl now version plan dumpIDs chunkSize force allow) t3 = (Inr p, db')"
    by (auto simp: admit_def andThen_Inr_iff)
  have l: "dbLedger db1 = abandonRuns now (apOrdered plan) (dbLedger db)"
    using markAbandonedRuns_Inr [OF a] sameLedgerD [OF sameLedger_assert b] sameLedgerD [OF sameLedger_dump c] by simp
  have "beforeAdmission now (apOrdered plan) (apDumps plan) db db1"
    using l markAbandonedRuns_Inr [OF a] assertNotDowngrade_same [OF b] recordDumps_adds [OF c] by (simp add: beforeAdmission_def)
  moreover have "t3 = db1" using d by (auto simp: findSuccessfulRun_def stmt_Inr)
  ultimately show thesis using l d e mapEach_length [OF c] skipped begun by (cases "fullySatisfied force (int (length (apDumps plan))) k") (auto split: if_splits)
qed

lemma admit_inv:
  assumes run: "admit sc fl now version plan chunkSize force allow db = (Inr p, db')" and ok: "dbOK db" and sc: "schemaOK sc"
  shows "dbOK db'"
  using run
proof (cases rule: admit_Inr)
  case (skipped db1 k)
  then have "dbOK db1" using ok by (simp add: dbOK_def abandonRuns_inv abandonRuns_unique)
  then show ?thesis using skipAdmission_inv [OF skipped(4) _ sc] by blast
next
  case (begun db1 dumpIDs k)
  then have "ledgerInv (dbLedger db1)" "uniqueRuns (dbLedger db1)"
    using ok by (simp_all add: dbOK_def abandonRuns_inv abandonRuns_unique)
  then show ?thesis using startAdmission_inv [OF begun(6) _ _ sc] by (simp add: dbOK_def)
qed

end
