(* ===== verification/Coordinator_Spec.thy ===== *)
theory Coordinator_Spec
  imports Run_Lifecycle "HOL-Library.Multiset"
begin

text \<open>
  The contract of the import coordinator: what \<open>Prepare\<close> and \<open>Complete\<close> promise to the import
  runner, on every branch.
\<close>

section \<open>Locks taken and released\<close>

lemma acquireLock_run:
  assumes "acquireLock sc fl session e (c, s) = (r, (c', s'))"
  shows "svDB s' = svDB s \<and> cConn c' = cConn c \<and> cRunID c' = cRunID c \<and> cEntities c' = cEntities c \<and> cVersion c' = cVersion c \<and>
    (\<exists>ks. cLockKeys c' = cLockKeys c @ ks \<and> svLocks s' = svLocks s @ map (\<lambda>k. (k, session)) ks \<and>
       (\<forall>k \<in> set ks. \<forall>h. (k, h) \<in> set (svLocks s) \<longrightarrow> h = session) \<and>
       (case r of Inl _ \<Rightarrow> ks = [] | Inr _ \<Rightarrow> (\<exists>k. ks = [k] \<and> scLockKey sc e = Inr k)))"
  using assms by (auto simp: acquireLock_def stmt_def split: sum.splits if_splits)

lemma acquireEntityLocks_run:
  assumes "acquireEntityLocks sc fl session types (c, s) = (r, (c', s'))"
  shows "svDB s' = svDB s \<and> cConn c' = cConn c \<and> cRunID c' = cRunID c \<and> cEntities c' = cEntities c \<and> cVersion c' = cVersion c \<and>
    (\<exists>ks. cLockKeys c' = cLockKeys c @ ks \<and> svLocks s' = svLocks s @ map (\<lambda>k. (k, session)) ks \<and>
       (\<forall>k \<in> set ks. \<forall>h. (k, h) \<in> set (svLocks s) \<longrightarrow> h = session) \<and>
       (case r of Inl _ \<Rightarrow> True | Inr _ \<Rightarrow> map (scLockKey sc) types = map Inr ks))"
  using assms
proof (induction types arbitrary: c s)
  case Nil
  then show ?case by (auto simp: acquireEntityLocks_def split: sum.splits)
next
  case (Cons e types)
  from Cons.prems have "andThen (acquireLock sc fl session e) (\<lambda>_. acquireEntityLocks sc fl session types) (c, s) = (r, (c', s'))"
    by (simp add: acquireEntityLocks_def)
  then show ?case
  proof (cases rule: andThen_cases)
    case (stop x)
    then show ?thesis using acquireLock_run [OF stop(1)] by auto
  next
    case (go u t)
    obtain c1 s1 where t: "t = (c1, s1)" by (cases t)
    from acquireLock_run [OF go(1) [unfolded t]] obtain k where
      k: "svDB s1 = svDB s" "cConn c1 = cConn c" "cRunID c1 = cRunID c" "cEntities c1 = cEntities c" "cVersion c1 = cVersion c"
        "cLockKeys c1 = cLockKeys c @ [k]" "svLocks s1 = svLocks s @ [(k, session)]" "scLockKey sc e = Inr k"
        "\<forall>h. (k, h) \<in> set (svLocks s) \<longrightarrow> h = session" by auto
    from Cons.IH [OF go(2) [unfolded t]] obtain ks where
      ks: "svDB s' = svDB s1" "cConn c' = cConn c1" "cRunID c' = cRunID c1" "cEntities c' = cEntities c1" "cVersion c' = cVersion c1"
        "cLockKeys c' = cLockKeys c1 @ ks" "svLocks s' = svLocks s1 @ map (\<lambda>k. (k, session)) ks"
        "\<forall>k \<in> set ks. \<forall>h. (k, h) \<in> set (svLocks s1) \<longrightarrow> h = session"
        "case r of Inl _ \<Rightarrow> True | Inr _ \<Rightarrow> map (scLockKey sc) types = map Inr ks" by blast
    show ?thesis
      using k ks by (intro conjI exI [of _ "k # ks"]) (auto split: sum.splits)
  qed
qed

text \<open>An unlock statement that fails leaves its lock with the session; the others give theirs back.\<close>

definition unlockFails :: "faultPlan \<Rightarrow> int \<Rightarrow> bool" where
  "unlockFails fl k = fl (''unlock '' @ formatInt k)"

lemma unlock_all:
  "mset (foldl (unlock fl session) locks ks) = mset locks - mset (map (\<lambda>k. (k, session)) (filter (\<lambda>k. \<not> unlockFails fl k) ks))"
proof (induction ks arbitrary: locks)
  case (Cons k ks)
  show ?case using Cons.IH [of "unlock fl session locks k"] by (simp add: unlock_def unlockFails_def)
qed simp

lemma unlock_subset: "set (foldl (unlock fl session) locks ks) \<subseteq> set locks"
proof (induction ks arbitrary: locks)
  case (Cons k ks)
  have "set (unlock fl session locks k) \<subseteq> set locks" by (cases "fl (''unlock '' @ formatInt k)") (simp_all only: unlock_def set_remove1_subset if_True if_False subset_refl)
  then show ?case using Cons.IH [of "unlock fl session locks k"] by auto
qed simp

lemma unlock_other:
  "h \<noteq> session \<Longrightarrow> (k, h) \<in> set (foldl (unlock fl session) locks ks) \<longleftrightarrow> (k, h) \<in> set locks"
proof (induction ks arbitrary: locks)
  case (Cons x ks)
  have "(k, h) \<in> set (unlock fl session locks x) \<longleftrightarrow> (k, h) \<in> set locks"
    using Cons.prems by (auto simp: unlock_def)
  then show ?case using Cons.IH [OF Cons.prems, of "unlock fl session locks x"] by simp
qed simp

lemma release_sel:
  assumes "release fl (c, s) = (c', s')" and "cConn c = Some session"
  shows "svDB s' = svDB s" and "cConn c' = None" and "cRunID c' = 0" and "cLockKeys c' = []" and "cEntities c' = []"
    and "svLocks s' = foldl (unlock fl session) (svLocks s) (rev (cLockKeys c))"
  using assms by (auto simp: release_def)

text \<open>The locks after a release: those of before the locks of this session were taken, and those of
  its own whose unlock statement failed.\<close>

definition givenBack :: "faultPlan \<Rightarrow> int \<Rightarrow> (int \<times> int) list \<Rightarrow> (int \<times> int) list \<Rightarrow> bool" where
  "givenBack fl session locks locks' \<longleftrightarrow>
     (\<exists>ks. mset locks' = mset locks + mset (map (\<lambda>k. (k, session)) ks) \<and> (\<forall>k \<in> set ks. unlockFails fl k))"

lemma givenBack_all: "givenBack fl session locks locks' \<Longrightarrow> (\<And>k. \<not> unlockFails fl k) \<Longrightarrow> mset locks' = mset locks"
  by (auto simp: givenBack_def)

lemma givenBack_same: "mset locks' = mset locks \<Longrightarrow> givenBack fl session locks locks'"
  by (auto simp: givenBack_def intro: exI [of _ "[]"])

lemma release_mset:
  assumes "release fl (c, s) = (c', s')" and "cConn c = Some session"
    and "svLocks s = locks @ map (\<lambda>k. (k, session)) (cLockKeys c)"
  shows "givenBack fl session locks (svLocks s')"
proof -
  let ?own = "\<lambda>P. mset (map (\<lambda>k. (k, session)) (filter P (cLockKeys c)))"
  have split: "mset (map (\<lambda>k. (k, session)) (cLockKeys c)) = ?own (unlockFails fl) + ?own (\<lambda>k. \<not> unlockFails fl k)"
    by (induction "cLockKeys c") (metis image_mset_union mset_filter mset_map multiset_partition)+
  have "mset (svLocks s') = mset (svLocks s) - ?own (\<lambda>k. \<not> unlockFails fl k)"
    by (simp add: release_sel(6) [OF assms(1,2)] unlock_all rev_filter [symmetric] rev_map [symmetric])
  then have "mset (svLocks s') = mset locks + ?own (unlockFails fl)" using assms(3) split by (simp add: add.assoc [symmetric])
  then show ?thesis unfolding givenBack_def by (intro exI [of _ "filter (unlockFails fl) (cLockKeys c)"]) simp
qed

section \<open>The branches of Prepare\<close>

lemma coordTx_Inl: "coordTx fl m s = (Inl e, s') \<Longrightarrow> s' = s"
  unfolding coordTx_def by (rule atomically_Inl)

lemma coordTx_Inr: "coordTx fl m s = (Inr x, s') \<longleftrightarrow> \<not> fl ''begin'' \<and> \<not> fl ''commit'' \<and> m s = (Inr x, s')"
  by (simp add: coordTx_def atomically_Inr)

lemma resolvePlan_Inr:
  assumes "resolvePlan sc ds = Inr plan"
  shows "apDumps plan = ds" and "scFingerprint sc (map manifestOf ds) = Inr (apFingerprint plan)"
    and "scOrdered sc (map dEntity ds) = Inr (apOrdered plan)"
    and "scLockTypes sc (apOrdered plan) = Inr (apLockTypes plan)"
    and "resolveImportContractRevisions sc (map dEntity ds) = Inr (apRevisions plan)"
  using assms by (auto simp: resolvePlan_def split: sum.splits)

lemma prepare_cases:
  assumes "prepare sc fl now session dumps chunkSize force allow (c, s) = (r, (c', s'))"
  obtains (refused) e where "r = Inl e" and "c' = c" and "s' = s"
  | (busy) e and plan :: admissionPlan and c1 s1 x where "r = Inl e" and "cConn c = None"
      and "acquireEntityLocks sc fl session (apLockTypes plan) (c\<lparr>cConn := Some session\<rparr>, s) = (Inl x, (c1, s1))"
      and "release fl (c1, s1) = (c', s')"
  | (admitted) ds plan c1 s1 x db where "cConn c = None" and "0 < chunkSize" and "those dumps = Some ds" and "ds \<noteq> []"
      and "resolvePlan sc ds = Inr plan"
      and "acquireEntityLocks sc fl session (apLockTypes plan) (c\<lparr>cConn := Some session\<rparr>, s) = (Inr x, (c1, s1))"
      and "coordTx fl (admit sc fl now (cVersion c) plan chunkSize force allow) (svDB s) = (r, db)"
      and "svDB s1 = svDB s"
      and "(case r of Inl _ \<Rightarrow> True | Inr p \<Rightarrow> ipSkipped p) \<Longrightarrow> release fl (c1, s1\<lparr>svDB := db\<rparr>) = (c', s')"
      and "\<And>p. r = Inr p \<Longrightarrow> \<not> ipSkipped p \<Longrightarrow>
             c' = c1\<lparr>cRunID := ipRun p, cEntities := apOrdered plan\<rparr> \<and> s' = s1\<lparr>svDB := db\<rparr>"
proof -
  consider (early) e where "r = Inl e" "c' = c" "s' = s"
    | (late) ds plan x c1 s1 where "cConn c = None" "0 < chunkSize" "those dumps = Some ds" "dumps \<noteq> []"
        "resolvePlan sc ds = Inr plan"
        "acquireEntityLocks sc fl session (apLockTypes plan) (c\<lparr>cConn := Some session\<rparr>, s) = (x, (c1, s1))"
    using assms
    by (cases "acquireEntityLocks sc fl session (apLockTypes (projr (resolvePlan sc (the (those dumps))))) (c\<lparr>cConn := Some session\<rparr>, s)")
      (auto simp: prepare_def split: if_splits option.splits sum.splits)
  then show thesis
  proof cases
    case early
    then show ?thesis by (rule refused)
  next
    case late
    have ds: "ds \<noteq> []" using late(3,4) by (cases dumps) (auto split: option.splits)
    show ?thesis
    proof (cases x)
      case (Inl e)
      show ?thesis
      proof (cases "fl ''reserve connection''")
        case True
        then show ?thesis using assms late by (intro refused) (auto simp: prepare_def)
      next
        case False
        then show ?thesis using assms late Inl by (intro busy [of e plan e c1 s1]) (auto simp: prepare_def)
      qed
    next
      case (Inr u)
      have db: "svDB s1 = svDB s" using acquireEntityLocks_run [OF late(6)] by simp
      obtain y db where tx: "coordTx fl (admit sc fl now (cVersion c) plan chunkSize force allow) (svDB s) = (y, db)"
        by (metis surj_pair)
      show ?thesis
      proof (cases "fl ''reserve connection''")
        case True
        then show ?thesis using assms late by (intro refused) (auto simp: prepare_def)
      next
        case False
        have *: "(case y of Inl e \<Rightarrow> (Inl e, release fl (c1, s1\<lparr>svDB := db\<rparr>))
            | Inr p \<Rightarrow> if ipSkipped p then (Inr p, release fl (c1, s1\<lparr>svDB := db\<rparr>))
                 else (Inr p, (c1\<lparr>cRunID := ipRun p, cEntities := apOrdered plan\<rparr>, s1\<lparr>svDB := db\<rparr>))) = (r, (c', s'))"
          using assms late False Inr tx db by (auto simp: prepare_def split: sum.splits)
        have "y = r" using * by (auto split: sum.splits if_splits)
        with * tx db late Inr ds show ?thesis
          by (intro admitted [of ds plan u c1 s1 db]) (auto split: sum.splits if_splits)
      qed
    qed
  qed
qed

lemma admit_preparation:
  assumes "admit sc fl now version plan chunkSize force allow db = (Inr p, db')"
  shows "ipManifest p = apFingerprint plan" and "ipSkipped p \<Longrightarrow> \<not> force" and "force \<Longrightarrow> ipResumedFrom p = 0"
  using assms
  by (cases rule: admit_Inr;
      fastforce simp: skipAdmission_def andThen_Inr_iff fullySatisfied_def elim!: startAdmission_Inr)+

lemma started_states:
  assumes "andThen (markCatalogStatesImporting fl now rid types)
      (\<lambda>_. runBootstrapOperation fl a f rid) db1 = (Inr u, db')"
  shows "dbLedger db' = dbLedger db1 \<and>
    (\<forall>st \<in> set (dbStates db'). esEntity st \<in> set types \<longrightarrow> esActive st = Some rid \<and> esStatus st = catalogStatusImporting) \<and>
    length (filter (\<lambda>st. esEntity st \<in> set types) (dbStates db')) = length types"
proof -
  let ?f = "\<lambda>s. s\<lparr>esStatus := catalogStatusImporting,
      esOperation := Some (if esLastSuccess s = None then ''bootstrap'' else ''refresh''),
      esActive := Some rid, esUpdatedAt := Some now, esFailure := None\<rparr>"
  from assms obtain t where m: "markCatalogStatesImporting fl now rid types db1 = (Inr (), t)"
    and b: "runBootstrapOperation fl a f rid t = (Inr u, db')" by (auto simp: andThen_Inr_iff)
  have t: "dbStates t = updateWhere (\<lambda>s. esEntity s \<in> set types) ?f (dbStates db1)"
    "countWhere (\<lambda>s. esEntity s \<in> set types) (dbStates db1) = int (length types)" "dbLedger t = dbLedger db1"
    using m by (auto simp: markCatalogStatesImporting_def updateStates_def stmt_Inr Let_def split: if_splits)
  have db': "dbStates db' = dbStates t" "dbLedger db' = dbLedger t"
    using b by (auto simp: runBootstrapOperation_def stmt_Inr split: option.splits)
  have "length (filter (\<lambda>st. esEntity st \<in> set types) (dbStates t)) = length types"
  proof -
    have "esEntity (if P then ?f x else x) = esEntity x" for P x by simp
    then have "length (filter (\<lambda>st. esEntity st \<in> set types) (dbStates t)) =
        length (filter (\<lambda>st. esEntity st \<in> set types) (dbStates db1))"
      unfolding t(1) updateWhere_def by (simp add: filter_map o_def)
    then show ?thesis using t(2) by (simp add: countWhere_def)
  qed
  then show ?thesis using t(1,3) db' by (auto simp: updateWhere_def)
qed

lemma resolve_length:
  "resolveImportContractRevisions sc es = Inr vs \<Longrightarrow> length vs = length es"
  by (induction es arbitrary: vs) (auto split: option.splits sum.splits if_splits)

section \<open>Properties of Prepare\<close>

definition idle :: "coordinator \<Rightarrow> bool" where
  "idle c \<longleftrightarrow> cConn c = None \<and> cRunID c = 0 \<and> cLockKeys c = [] \<and> cEntities c = []"

lemma release_idle:
  assumes "release fl (c1, s1) = (c', s')" and "cConn c1 = Some session" and "idle c" and "cVersion c1 = cVersion c"
  shows "c' = c"
  using assms by (auto simp: release_def idle_def)

lemma prepare_closed:
  assumes run: "prepare sc fl now session dumps chunkSize force allow (c, s) = (r, (c', s'))" and idle: "idle c"
    and closed: "case r of Inl _ \<Rightarrow> True | Inr p \<Rightarrow> ipSkipped p"
  shows "c' = c \<and> givenBack fl session (svLocks s) (svLocks s') \<and> (isl r \<longrightarrow> svDB s' = svDB s)"
  using run
proof (cases rule: prepare_cases)
  case (busy e plan c1 s1 x)
  from acquireEntityLocks_run [OF busy(3)] obtain ks where
    a: "svDB s1 = svDB s" "cConn c1 = Some session" "cVersion c1 = cVersion c" "cLockKeys c1 = ks"
      "svLocks s1 = svLocks s @ map (\<lambda>k. (k, session)) ks" using idle by (auto simp: idle_def)
  then show ?thesis
    using release_idle [OF busy(4) a(2) idle a(3)] release_mset [OF busy(4) a(2), of "svLocks s"]
      release_sel(1) [OF busy(4) a(2)] by simp
next
  case (admitted ds plan c1 s1 x db)
  from acquireEntityLocks_run [OF admitted(6)] obtain ks where
    a: "svDB s1 = svDB s" "cConn c1 = Some session" "cVersion c1 = cVersion c" "cLockKeys c1 = ks"
      "svLocks s1 = svLocks s @ map (\<lambda>k. (k, session)) ks" using idle by (auto simp: idle_def)
  have rel: "release fl (c1, s1\<lparr>svDB := db\<rparr>) = (c', s')" using admitted(9) closed by simp
  have "isl r \<Longrightarrow> db = svDB s" using admitted(7) coordTx_Inl by (cases r) auto
  then show ?thesis
    using release_idle [OF rel a(2) idle a(3)] release_mset [OF rel a(2), of "svLocks s"]
      release_sel(1) [OF rel a(2)] a by simp
qed (simp add: givenBack_same)

text \<open>C9. A \<open>Prepare\<close> that is refused or fails on an idle coordinator leaves no trace in the database,
  which is exactly as before, whatever statement failed, nor in the coordinator, which is idle as
  before. The locks of other sessions and those held before stay; of the locks it took it keeps
  those, and only those, whose unlock statement failed too (its error is ignored), so that all are
  given back when the unlock statements succeed.\<close>

theorem prepare_failure_leaves_no_trace:
  assumes "prepare sc fl now session dumps chunkSize force allow (c, s) = (Inl e, (c', s'))" and "idle c"
  shows "svDB s' = svDB s \<and> c' = c \<and>
    (\<exists>ks. mset (svLocks s') = mset (svLocks s) + mset (map (\<lambda>k. (k, session)) ks) \<and>
       (\<forall>k \<in> set ks. fl (''unlock '' @ formatInt k)))"
  using prepare_closed [OF assms(1,2)] by (simp add: givenBack_def unlockFails_def)

text \<open>What the successful admission of a run means.\<close>

lemma prepare_started:
  assumes run: "prepare sc fl now session dumps chunkSize force allow (c, s) = (Inr p, (c', s'))" and "\<not> ipSkipped p"
  obtains ds plan db c1 s1 x where "cConn c = None" and "those dumps = Some ds" and "resolvePlan sc ds = Inr plan"
    and "acquireEntityLocks sc fl session (apLockTypes plan) (c\<lparr>cConn := Some session\<rparr>, s) = (Inr x, (c1, s1))"
    and "admit sc fl now (cVersion c) plan chunkSize force allow (svDB s) = (Inr p, db)"
    and "c' = c1\<lparr>cRunID := ipRun p, cEntities := apOrdered plan\<rparr>" and "s' = s1\<lparr>svDB := db\<rparr>"
  using run
proof (cases rule: prepare_cases)
  case (admitted ds plan c1 s1 x db)
  then show ?thesis using that [of ds plan x c1 s1 db] assms(2) by (simp add: coordTx_Inr)
qed simp_all

lemma prepare_skipped:
  assumes run: "prepare sc fl now session dumps chunkSize force allow (c, s) = (Inr p, (c', s'))" and "ipSkipped p"
  obtains ds plan where "those dumps = Some ds" and "ds \<noteq> []" and "resolvePlan sc ds = Inr plan"
    and "admit sc fl now (cVersion c) plan chunkSize force allow (svDB s) = (Inr p, svDB s')"
  using run
proof (cases rule: prepare_cases)
  case (admitted ds plan c1 s1 x db)
  have "cConn c1 = Some session" using acquireEntityLocks_run [OF admitted(6)] by simp
  then have "svDB s' = db" using admitted(9) assms(2) by (auto simp: release_def)
  then show ?thesis using that [of ds plan] admitted by (simp add: coordTx_Inr)
qed simp_all

lemma prepare_dbOK:
  assumes run: "prepare sc fl now session dumps chunkSize force allow (c, s) = (r, (c', s'))" and ok: "dbOK (svDB s)"
    and sc: "schemaOK sc"
  shows "dbOK (svDB s')"
  using run
proof (cases rule: prepare_cases)
  case (busy e plan c1 s1 x)
  then show ?thesis using acquireEntityLocks_run [OF busy(3)] ok by (auto simp: release_def)
next
  case (admitted ds plan c1 s1 x db)
  have conn: "cConn c1 = Some session" using acquireEntityLocks_run [OF admitted(6)] by simp
  have "dbOK db"
  proof (cases r)
    case (Inl e)
    have "db = svDB s" by (rule coordTx_Inl [OF admitted(7) [unfolded Inl]])
    then show ?thesis using ok by simp
  next
    case (Inr p)
    have "admit sc fl now (cVersion c) plan chunkSize force allow (svDB s) = (Inr p, db)"
      using admitted(7) Inr by (simp add: coordTx_Inr)
    then show ?thesis by (rule admit_inv [OF _ ok sc])
  qed
  moreover have "svDB s' = db"
  proof (cases "case r of Inl _ \<Rightarrow> True | Inr p \<Rightarrow> ipSkipped p")
    case True
    from release_sel(1) [OF admitted(9) [OF True] conn] show ?thesis by simp
  next
    case False
    then obtain p where "r = Inr p" "\<not> ipSkipped p" by (cases r) auto
    from admitted(10) [OF this] show ?thesis by simp
  qed
  ultimately show ?thesis by simp
qed (use ok in simp)

lemma started_run:
  assumes run: "prepare sc fl now session dumps chunkSize force allow (c, s) = (Inr p, (c', s'))" and "\<not> ipSkipped p"
    and sc: "schemaOK sc"
  shows "\<exists>ds types. those dumps = Some ds \<and> scOrdered sc (map dEntity ds) = Inr types \<and>
    ipRun p \<notin> rnID ` set (runs (dbLedger (svDB s))) \<and> runIsActive (ipRun p) (dbLedger (svDB s')) \<and>
    map (\<lambda>d. (duEntity d, duChunkSize d)) (dumpsOfRun (ipRun p) (dbLedger (svDB s'))) = map (\<lambda>d. (dEntity d, Some chunkSize)) ds \<and>
    (\<forall>d \<in> set (runDumps (dbLedger (svDB s'))). duEntity d \<in> set types \<longrightarrow> runIsActive (duRun d) (dbLedger (svDB s')) \<longrightarrow>
       duRun d = ipRun p) \<and>
    length (filter (\<lambda>st. esEntity st \<in> set types) (dbStates (svDB s'))) = length types \<and>
    (\<forall>st \<in> set (dbStates (svDB s')). esEntity st \<in> set types \<longrightarrow> esActive st = Some (ipRun p))"
proof -
  from assms(1,2) obtain ds plan db c1 s1 x where ds: "those dumps = Some ds" and plan: "resolvePlan sc ds = Inr plan"
    and adm: "admit sc fl now (cVersion c) plan chunkSize force allow (svDB s) = (Inr p, db)" and s': "s' = s1\<lparr>svDB := db\<rparr>"
    by (rule prepare_started)
  note pl = resolvePlan_Inr [OF plan]
  have len: "length (apRevisions plan) = length ds" using resolve_length [OF pl(5)] by simp
  from adm show ?thesis
  proof (cases rule: admit_Inr)
    case (skipped db1 k)
    then show ?thesis using assms(2) by (auto simp: skipAdmission_def andThen_Inr_iff)
  next
    case (begun db1 dumpIDs k)
    let ?lold = "dbLedger (svDB s)" and ?lrec = "abandonRuns now (apOrdered plan) (dbLedger (svDB s))"
    let ?items = "zip (apDumps plan) (zip dumpIDs (apRevisions plan))"
    from begun(6) show ?thesis
    proof (cases rule: startAdmission_Inr)
      case (started resumed rid db2)
      let ?l = "startedLedger sc rid (apFingerprint plan) force allow (cVersion c) resumed chunkSize ?items ?lrec"
      let ?lend = "if resumed = 0 then ?l else transferChunks resumed rid ?l"
      have fresh: "freshRun rid ?lrec" using sc started(2) begun(1) unfolding schemaOK_def by metis
      have st: "dbLedger db = ?lend"
        "length (filter (\<lambda>st. esEntity st \<in> set (apOrdered plan)) (dbStates db)) = length (apOrdered plan)"
        "\<forall>st \<in> set (dbStates db). esEntity st \<in> set (apOrdered plan) \<longrightarrow> esActive st = Some rid"
        using started_states [OF started(11)] started(6) begun(1) by (simp_all add: Let_def)
      have ids: "rnID ` set (runs ?lrec) = rnID ` set (runs ?lold)" by (rule abandonRuns_ids)
      have rows: "map (\<lambda>d. (duRun d, duEntity d, duChunkSize d)) (runDumps ?lend) = map (\<lambda>d. (duRun d, duEntity d, duChunkSize d)) (runDumps ?l)"
        by (auto simp: transferChunks_def copySummaries_def split: option.splits)
      have filt: "map g (dumpsOfRun r l) = map (g' \<circ> snd) (filter (\<lambda>x. fst x = r) (map (\<lambda>d. (duRun d, duEntity d, duChunkSize d)) (runDumps l)))"
        if "\<And>d. g d = g' (duEntity d, duChunkSize d)" for g g' r l
        using that by (simp add: dumpsOfRun_def filter_map o_def)
      have "map (\<lambda>d. (duEntity d, duChunkSize d)) (dumpsOfRun rid ?lend) = map (\<lambda>d. (duEntity d, duChunkSize d)) (dumpsOfRun rid ?l)"
        unfolding filt [of "\<lambda>d. (duEntity d, duChunkSize d)" "\<lambda>x. x", OF refl] rows ..
      also have "\<dots> = map (\<lambda>d. (duEntity d, duChunkSize d)) (map (newDumpRow sc rid chunkSize) ?items)"
      proof -
        have "filter (\<lambda>d. duRun d = rid) (runDumps ?lrec) = []" using fresh by (auto simp: freshRun_def filter_empty_conv)
        moreover have "filter (\<lambda>d. duRun d = rid) (map (newDumpRow sc rid chunkSize) ?items) = map (newDumpRow sc rid chunkSize) ?items"
          by (subst filter_id_iff) (auto simp: newDumpRow_def)
        ultimately show ?thesis by (simp add: dumpsOfRun_def startedLedger_def)
      qed
      also have "\<dots> = map (\<lambda>d. (dEntity d, Some chunkSize)) (map fst ?items)"
        by (auto simp: newDumpRow_def)
      also have "map fst ?items = ds" using len begun(5) pl(1) by (simp add: map_fst_zip)
      finally have dumps': "map (\<lambda>d. (duEntity d, duChunkSize d)) (dumpsOfRun rid ?lend) = map (\<lambda>d. (dEntity d, Some chunkSize)) ds" .
      have act: "runIsActive r ?lend \<longleftrightarrow> r = rid \<or> runIsActive r ?lrec" for r
        by (auto simp: runIsActive_def startedLedger_def newRun_def)
      have excl: "duRun d = rid" if "d \<in> set (runDumps ?lend)" "duEntity d \<in> set (apOrdered plan)" "runIsActive (duRun d) ?lend" for d
      proof (rule ccontr)
        assume ne: "duRun d \<noteq> rid"
        then have a: "runIsActive (duRun d) ?lrec" using act that(3) by simp
        from map_eq_mem [OF rows that(1)]
        obtain d0 where "d0 \<in> set (runDumps ?l)" "duRun d0 = duRun d" "duEntity d0 = duEntity d" by auto
        moreover from this ne have "d0 \<in> set (runDumps ?lold)" by (auto simp: startedLedger_def newDumpRow_def)
        ultimately show False using abandonRuns_inactive [of d0 ?lold "apOrdered plan" now] that(2) a by simp
      qed
      have p: "ipRun p = rid" unfolding started(1) by simp
      have "svDB s' = db" unfolding s' by simp
      then have s'': "dbLedger (svDB s') = ?lend" "dbStates (svDB s') = dbStates db" by (simp_all only: st(1))
      show ?thesis
      proof (intro exI conjI)
        show "those dumps = Some ds" by (rule ds)
        show "scOrdered sc (map dEntity ds) = Inr (apOrdered plan)" by (rule pl(3))
        show "ipRun p \<notin> rnID ` set (runs ?lold)" using fresh ids unfolding p freshRun_def by simp
        show "runIsActive (ipRun p) (dbLedger (svDB s'))" unfolding p s'' act by simp
        show "map (\<lambda>d. (duEntity d, duChunkSize d)) (dumpsOfRun (ipRun p) (dbLedger (svDB s'))) = map (\<lambda>d. (dEntity d, Some chunkSize)) ds"
          unfolding p s'' by (rule dumps')
        show "\<forall>d \<in> set (runDumps (dbLedger (svDB s'))). duEntity d \<in> set (apOrdered plan) \<longrightarrow>
            runIsActive (duRun d) (dbLedger (svDB s')) \<longrightarrow> duRun d = ipRun p"
          unfolding p s'' using excl by blast
        show "length (filter (\<lambda>st. esEntity st \<in> set (apOrdered plan)) (dbStates (svDB s'))) = length (apOrdered plan)"
          unfolding s'' by (rule st(2))
        show "\<forall>st \<in> set (dbStates (svDB s')). esEntity st \<in> set (apOrdered plan) \<longrightarrow> esActive st = Some (ipRun p)"
          unfolding p s'' by (rule st(3))
      qed
    qed
  qed
qed

text \<open>C10. An admitted run is complete and exclusive: it has a new identifier and is the only active
  run that touches a selected entity type, abandoned ones having been failed; it has one dump row
  for every dump of the plan, with the chunk size of this import, and every selected catalog state
  points to it.\<close>

theorem prepare_starts_exclusive_run:
  assumes run: "prepare sc fl now session dumps chunkSize force allow (c, s) = (Inr p, (c', s'))" and "\<not> ipSkipped p"
    and sc: "schemaOK sc"
  shows "\<exists>ds types. those dumps = Some ds \<and> scOrdered sc (map dEntity ds) = Inr types \<and>
    ipRun p \<notin> rnID ` set (runs (dbLedger (svDB s))) \<and> runIsActive (ipRun p) (dbLedger (svDB s')) \<and>
    map (\<lambda>d. (duEntity d, duChunkSize d)) (dumpsOfRun (ipRun p) (dbLedger (svDB s'))) = map (\<lambda>d. (dEntity d, Some chunkSize)) ds \<and>
    (\<forall>d \<in> set (runDumps (dbLedger (svDB s'))). duEntity d \<in> set types \<longrightarrow> runIsActive (duRun d) (dbLedger (svDB s')) \<longrightarrow>
       duRun d = ipRun p) \<and>
    length (filter (\<lambda>st. esEntity st \<in> set types) (dbStates (svDB s'))) = length types \<and>
    (\<forall>st \<in> set (dbStates (svDB s')). esEntity st \<in> set types \<longrightarrow> esActive st = Some (ipRun p))"
  by (rule started_run [OF assms])

text \<open>C8. Resuming moves the recorded progress and loses none of it: the run resumed from is a failed
  run of the same manifest that was not forced; every chunk it had recorded, and no other, is
  recorded for the new run, and none is left with the old one; the summaries of the new run count
  exactly these chunks, with the same dump and chunk size.\<close>

theorem prepare_resume_moves_progress:
  assumes run: "prepare sc fl now session dumps chunkSize force allow (c, s) = (Inr p, (c', s'))" and "\<not> ipSkipped p"
    and resumed: "ipResumedFrom p \<noteq> 0" and sc: "schemaOK sc" and ok: "dbOK (svDB s)"
  shows "\<not> force \<and>
    (\<exists>r \<in> set (runs (dbLedger (svDB s'))). rnID r = ipResumedFrom p \<and> rnStatus r = Failed \<and> rnManifest r = ipManifest p \<and> \<not> rnForce r) \<and>
    (\<forall>e. chunksOf (ipRun p) e (dbLedger (svDB s')) =
           map (\<lambda>k. k\<lparr>ckRun := ipRun p\<rparr>) (chunksOf (ipResumedFrom p) e (dbLedger (svDB s))) \<and>
         chunksOf (ipResumedFrom p) e (dbLedger (svDB s')) = []) \<and>
    (\<forall>d \<in> set (runDumps (dbLedger (svDB s'))). duRun d = ipRun p \<longrightarrow>
       duChunkSize d = Some chunkSize \<and> duProcessed d = chunkItems (chunksOf (ipRun p) (duEntity d) (dbLedger (svDB s'))) \<and>
       (\<exists>d0 \<in> set (runDumps (dbLedger (svDB s))). duRun d0 = ipResumedFrom p \<and> duEntity d0 = duEntity d \<and>
          duDump d0 = duDump d \<and> duChunkSize d0 = Some chunkSize))"
proof -
  let ?lold = "dbLedger (svDB s)"
  from assms(1,2) obtain ds plan db c1 s1 x where plan: "resolvePlan sc ds = Inr plan"
    and adm: "admit sc fl now (cVersion c) plan chunkSize force allow (svDB s) = (Inr p, db)" and s': "s' = s1\<lparr>svDB := db\<rparr>"
    by (rule prepare_started)
  have dbOK': "dbOK (svDB s')" by (rule prepare_dbOK [OF run ok sc])
  from adm show ?thesis
  proof (cases rule: admit_Inr)
    case (skipped db1 k)
    then show ?thesis using assms(2) by (auto simp: skipAdmission_def andThen_Inr_iff)
  next
    case (begun db1 dumpIDs k)
    let ?lrec = "abandonRuns now (apOrdered plan) ?lold"
    let ?items = "zip (apDumps plan) (zip dumpIDs (apRevisions plan))"
    from begun(6) show ?thesis
    proof (cases rule: startAdmission_Inr)
      case (started resumed rid db2)
      let ?l = "startedLedger sc rid (apFingerprint plan) force allow (cVersion c) resumed chunkSize ?items ?lrec"
      have p: "ipRun p = rid" "ipResumedFrom p = resumed" "ipManifest p = apFingerprint plan" unfolding started(1) by simp_all
      have fresh: "freshRun rid ?lrec" using sc started(2) begun(1) unfolding schemaOK_def by metis
      have "svDB s' = db" unfolding s' by simp
      then have l': "dbLedger (svDB s') = transferChunks resumed rid ?l"
        using started_states [OF started(11)] started(6) begun(1) resumed p by (simp add: Let_def)
      from started(3) resumed p obtain r where nf: "\<not> force"
        and r: "latestRun (resumable sc db1 (apFingerprint plan) chunkSize (int (length (apDumps plan)))) (dbLedger db1) = Some r"
          "resumed = rnID r" by (auto split: if_splits option.splits)
      note lr = latestRun_Some [OF r(1)]
      have res: "rnStatus r = Failed" "rnManifest r = apFingerprint plan" "\<not> rnForce r"
        using lr(2) by (simp_all add: resumable_def Let_def)
      have rin: "r \<in> set (runs ?lrec)" using lr(1) begun(1) by simp
      have ne: "resumed \<noteq> rid" using rin r(2) fresh by (auto simp: freshRun_def)
      have none: "chunksOfRun rid ?l = []"
        using fresh by (auto simp: chunksOfRun_def startedLedger_def freshRun_def filter_empty_conv)
      have chunks: "chunksOf resumed e ?l = chunksOf resumed e ?lold" for e
        by (simp add: chunksOf_def startedLedger_def)
      have act: "runIsActive rid (dbLedger (svDB s'))" unfolding l' by (simp add: runIsActive_def startedLedger_def newRun_def)
      have row: "duChunkSize d = Some chunkSize \<and> duProcessed d = chunkItems (chunksOf rid (duEntity d) (dbLedger (svDB s'))) \<and>
          (\<exists>d0 \<in> set (runDumps ?lold). duRun d0 = resumed \<and> duEntity d0 = duEntity d \<and>
             duDump d0 = duDump d \<and> duChunkSize d0 = Some chunkSize)"
        if d: "d \<in> set (runDumps (dbLedger (svDB s')))" "duRun d = rid" for d
      proof -
        obtain d1 where d1: "d1 \<in> set (runDumps ?l)"
            "d = (case resumeSource resumed rid ?l d1 of None \<Rightarrow> d1 | Some s \<Rightarrow> copySummary s d1)"
          using d(1) unfolding l' by (auto simp: transferChunks_def copySummaries_def)
        have same: "duRun d1 = duRun d" "duEntity d1 = duEntity d" "duDump d1 = duDump d" "duChunkSize d1 = duChunkSize d"
          using d1(2) by (auto split: option.splits)
        have new: "d1 \<notin> set (runDumps ?lrec)" using same(1) d(2) fresh by (auto simp: freshRun_def)
        then have size: "duChunkSize d1 = Some chunkSize"
          using d1(1) by (auto simp: startedLedger_def newDumpRow_def)
        have "countWhere (\<lambda>d. duRun d = rid) (runDumps ?l) \<le> countWhere (\<lambda>d. resumeSource resumed rid ?l d \<noteq> None) (runDumps ?l)"
        proof -
          have "\<forall>d \<in> set (runDumps ?lrec). duRun d \<noteq> rid" using fresh by (auto simp: freshRun_def)
          then have "countWhere (\<lambda>d. duRun d = rid) (runDumps ?l) \<le> int (length ?items)"
            using countWhere_length [of "\<lambda>d. duRun d = rid" "map (newDumpRow sc rid chunkSize) ?items"]
              countWhere_zero [of "\<lambda>d. duRun d = rid" "runDumps ?lrec"]
            by (simp add: startedLedger_def countWhere_append)
          also have "\<dots> \<le> int (length (apDumps plan))" by simp
          also have "\<dots> = countWhere (\<lambda>d. resumeSource resumed rid ?l d \<noteq> None) (runDumps ?l)"
            using started(7) resumed p begun(1) by simp
          finally show ?thesis .
        qed
        from countWhere_all [OF _ this d1(1)] obtain s0 where "resumeSource resumed rid ?l d1 = Some s0"
          using same(1) d(2) resumeSource_Some by fastforce
        from resumeSource_Some [OF this] have s0: "s0 \<in> set (runDumps ?l)" "duRun s0 = resumed" "duEntity s0 = duEntity d"
            "duDump s0 = duDump d" "duChunkSize s0 = Some chunkSize" using same size by auto
        then have "s0 \<in> set (runDumps ?lold)" using ne by (auto simp: startedLedger_def newDumpRow_def)
        moreover have "duProcessed d = chunkItems (chunksOf rid (duEntity d) (dbLedger (svDB s')))"
          using dbOK' d act by (simp add: dbOK_def ledgerInv_def progressCounted_def)
        ultimately show ?thesis using s0 size same(4) by auto
      qed
      have moved: "chunksOf rid e (dbLedger (svDB s')) = map (\<lambda>k. k\<lparr>ckRun := rid\<rparr>) (chunksOf resumed e ?lold)"
        "chunksOf resumed e (dbLedger (svDB s')) = []" for e
        using ne unfolding l' transfer_chunksOf [OF ne none] chunks by simp_all
      have "r \<in> set (runs (dbLedger (svDB s')))" unfolding l' using rin by (simp add: startedLedger_def)
      then show ?thesis unfolding p using nf r(2) res row moved by blast
    qed
  qed
qed

lemma findSuccessfulRun_satisfied:
  assumes "findSuccessfulRun sc fl fp db = (Inr k, db)" and "fullySatisfied force n k" and "0 < n"
  obtains r where "r \<in> set (runs (dbLedger db))" and "successfulRun fp r" and "int (length (dumpsOfRun (rnID r) (dbLedger db))) = n"
    and "\<forall>d \<in> set (dumpsOfRun (rnID r) (dbLedger db)). entityCompatible sc db d" and "cmExact k = rnID r \<or> cmExact k = 0"
proof -
  have k: "k = (case latestRun (successfulRun fp) (dbLedger db) of
        None \<Rightarrow> \<lparr>cmExact = 0, cmCompatible = 0, cmSelected = 0, cmIncompatible = []\<rparr>
      | Some r \<Rightarrow>
          (let expected = dumpsOfRun (rnID r) (dbLedger db)
           in \<lparr>cmExact = (if \<forall>d \<in> set expected. duRevision d = currentRevision sc (duEntity d) then rnID r else 0),
               cmCompatible = countWhere (entityCompatible sc db) expected,
               cmSelected = int (length expected),
               cmIncompatible = sort (map duEntity (filter (\<lambda>d. \<not> entityCompatible sc db d) expected))\<rparr>))"
    using assms(1) by (auto simp: findSuccessfulRun_def stmt_Inr)
  show thesis
  proof (cases "latestRun (successfulRun fp) (dbLedger db)")
    case None
    then show ?thesis using k assms(2,3) by (simp add: fullySatisfied_def)
  next
    case (Some r)
    note lr = latestRun_Some [OF Some]
    have "countWhere (\<lambda>_. True) (dumpsOfRun (rnID r) (dbLedger db)) \<le>
        countWhere (entityCompatible sc db) (dumpsOfRun (rnID r) (dbLedger db))"
      using k Some assms(2) by (simp add: fullySatisfied_def Let_def countWhere_def)
    from countWhere_all [OF _ this]
    have "\<forall>d \<in> set (dumpsOfRun (rnID r) (dbLedger db)). entityCompatible sc db d" by blast
    then show ?thesis using that [OF lr(1,2)] k Some assms(2) by (simp add: fullySatisfied_def Let_def split: if_splits)
  qed
qed

lemma entityCompatible_checkpoint:
  assumes "entityCompatible sc db d"
  shows "\<exists>cp cur v.
     scCheckpoint sc db (duEntity d) = Some cp \<and>
     cur \<in> set (runDumps (dbLedger db)) \<and> duRun cur = cpRun cp \<and> duEntity cur = duEntity d \<and>
     duDump cur = duDump d \<and> duRevision cur = Some v \<and> currentRevision sc (duEntity d) = Some v \<and>
     (\<forall>x \<in> set (runDumps (dbLedger db)). \<forall>row \<in> set (runs (dbLedger db)). \<forall>t.
        duEntity x = duEntity d \<and> rnID row = duRun x \<and> rnStatus row = Failed \<and> rnCompletedAt row = Some t \<longrightarrow>
        t < cpAppliedAt cp \<or> t = cpAppliedAt cp \<and> rnID row \<le> cpRun cp)"
proof -
  obtain cp cur where cd: "currentDump sc db (duEntity d) = Some (cp, cur)"
    using assms by (cases "currentDump sc db (duEntity d)") (auto simp: entityCompatible_def)
  with assms have facts: "duDump cur = duDump d" "duRevision cur \<noteq> None"
    "duRevision cur = currentRevision sc (duEntity d)" "\<not> failedSince (dbLedger db) (duEntity d) cp"
    unfolding entityCompatible_def cd option.case prod.case by blast+
  note dump = facts(1) and rev = facts(3) and failed = facts(4)
  from facts(2) obtain v where v: "duRevision cur = Some v" by (cases "duRevision cur") simp_all
  have cp: "scCheckpoint sc db (duEntity d) = Some cp" "find (dumpMatches (cpRun cp) (duEntity d)) (runDumps (dbLedger db)) = Some cur"
    using cd by (auto simp: currentDump_def split: option.splits)
  have cur: "cur \<in> set (runDumps (dbLedger db))" "dumpMatches (cpRun cp) (duEntity d) cur"
    using cp(2) by (auto simp: find_Some_iff)
  have "t < cpAppliedAt cp \<or> t = cpAppliedAt cp \<and> rnID row \<le> cpRun cp"
    if "x \<in> set (runDumps (dbLedger db))" "row \<in> set (runs (dbLedger db))"
      "duEntity x = duEntity d" "rnID row = duRun x" "rnStatus row = Failed" "rnCompletedAt row = Some t" for x row t
  proof (rule ccontr)
    assume "\<not> ?thesis"
    then have "t > cpAppliedAt cp \<or> (t = cpAppliedAt cp \<and> rnID row > cpRun cp)" by auto
    with that have "failedSince (dbLedger db) (duEntity d) cp" unfolding failedSince_def
      by (intro bexI [of _ x] bexI [of _ row] conjI) auto
    with failed show False by simp
  qed
  then show ?thesis using cp cur dump rev v
    by (intro exI [of _ cp] exI [of _ cur] exI [of _ v] conjI ballI allI impI) (auto simp: dumpMatches_def)
qed

lemma skipped_satisfied:
  assumes run: "prepare sc fl now session dumps chunkSize force allow (c, s) = (Inr p, (c', s'))" and "ipSkipped p"
  shows "\<not> force \<and>
    (\<exists>db ds types r. those dumps = Some ds \<and> scOrdered sc (map dEntity ds) = Inr types \<and>
       beforeAdmission now types ds (svDB s) db \<and>
       r \<in> set (runs (dbLedger db)) \<and> rnManifest r = ipManifest p \<and> rnStatus r = Succeeded \<and>
       length (dumpsOfRun (rnID r) (dbLedger db)) = length ds \<and>
       (\<forall>d \<in> set (dumpsOfRun (rnID r) (dbLedger db)). \<exists>cp cur v.
          scCheckpoint sc db (duEntity d) = Some cp \<and>
          cur \<in> set (runDumps (dbLedger db)) \<and> duRun cur = cpRun cp \<and> duEntity cur = duEntity d \<and>
          duDump cur = duDump d \<and> duRevision cur = Some v \<and> currentRevision sc (duEntity d) = Some v \<and>
          (\<forall>x \<in> set (runDumps (dbLedger db)). \<forall>row \<in> set (runs (dbLedger db)). \<forall>t.
             duEntity x = duEntity d \<and> rnID row = duRun x \<and> rnStatus row = Failed \<and> rnCompletedAt row = Some t \<longrightarrow>
             t < cpAppliedAt cp \<or> t = cpAppliedAt cp \<and> rnID row \<le> cpRun cp))) \<and>
    (\<forall>i. runIsActive i (dbLedger (svDB s')) \<longrightarrow> runIsActive i (dbLedger (svDB s))) \<and>
    (\<exists>r \<in> set (runs (dbLedger (svDB s'))). rnID r = ipRun p \<and> successfulRun (ipManifest p) r)"
proof -
  from assms obtain ds plan where ds: "those dumps = Some ds" "ds \<noteq> []" and plan: "resolvePlan sc ds = Inr plan"
    and adm: "admit sc fl now (cVersion c) plan chunkSize force allow (svDB s) = (Inr p, svDB s')"
    by (rule prepare_skipped)
  note pl = resolvePlan_Inr [OF plan]
  from adm show ?thesis
  proof (cases rule: admit_Inr)
    case (begun db1 dumpIDs k)
    from begun(6) have "\<not> ipSkipped p" by (cases rule: startAdmission_Inr) simp
    then show ?thesis using assms(2) by simp
  next
    case (skipped db1 k)
    from findSuccessfulRun_satisfied [OF skipped(2,3)] ds(2) pl(1) obtain r where
      r: "r \<in> set (runs (dbLedger db1))" "successfulRun (apFingerprint plan) r"
        "int (length (dumpsOfRun (rnID r) (dbLedger db1))) = int (length ds)"
        "\<forall>d \<in> set (dumpsOfRun (rnID r) (dbLedger db1)). entityCompatible sc db1 d" "cmExact k = rnID r \<or> cmExact k = 0"
      by (metis length_greater_0_conv of_nat_0_less_iff)
    from skipped(4) obtain rid db2 u where c: "(if cmExact k = 0
        then consolidateSuccessfulImportRun sc fl now (apFingerprint plan) (cVersion c) (int (length (apDumps plan)))
        else ret (cmExact k)) db1 = (Inr rid, db2)"
      and m: "markCatalogStatesReady fl now rid (apOrdered plan) db2 = (Inr u, svDB s')"
      and p: "ipManifest p = apFingerprint plan" "ipRun p = rid"
      by (auto simp: skipAdmission_def andThen_Inr_iff)
    have same: "dbLedger (svDB s') = dbLedger db2" by (rule sameLedgerD [OF sameLedger_marks(2) m])
    have end': "(\<forall>i. runIsActive i (dbLedger db2) \<longrightarrow> runIsActive i (dbLedger db1)) \<and>
        (\<exists>r \<in> set (runs (dbLedger db2)). rnID r = rid \<and> successfulRun (apFingerprint plan) r)"
    proof (cases "cmExact k = 0")
      case False
      then show ?thesis using c r(1,2,5) by auto
    next
      case True
      then have "consolidateSuccessfulImportRun sc fl now (apFingerprint plan) (cVersion c) (int (length (apDumps plan))) db1 = (Inr rid, db2)"
        using c by simp
      then show ?thesis
        by (cases rule: consolidate_Inr) (auto simp: runIsActive_def successfulRun_def)
    qed
    moreover have "\<not> force" using skipped(3) by (simp add: fullySatisfied_def)
    moreover have "\<forall>i. runIsActive i (dbLedger db1) \<longrightarrow> runIsActive i (dbLedger (svDB s))"
      unfolding skipped(1) abandonRuns_active by blast
    moreover have "length (dumpsOfRun (rnID r) (dbLedger db1)) = length ds" using r(3) by simp
    moreover have "beforeAdmission now (apOrdered plan) ds (svDB s) db1" using skipped(5) pl(1) by simp
    moreover note entityCompatible_checkpoint
    ultimately show ?thesis unfolding p same using ds(1) pl(3) r(1,2,4) unfolding successfulRun_def
      by (intro conjI exI [of _ db1] exI [of _ ds] exI [of _ "apOrdered plan"] exI [of _ r] ballI) blast+
  qed
qed

lemma started_row:
  assumes run: "prepare sc fl now session dumps chunkSize force allow (c, s) = (Inr p, (c', s'))" and "\<not> ipSkipped p"
    and sc: "schemaOK sc"
  shows "0 < ipRun p \<and> (\<forall>r \<in> set (runs (dbLedger (svDB s'))). rnID r = ipRun p \<longrightarrow> rnManifest r = ipManifest p)"
proof -
  from assms(1,2) obtain ds plan db c1 s1 x where
    adm: "admit sc fl now (cVersion c) plan chunkSize force allow (svDB s) = (Inr p, db)" and s': "s' = s1\<lparr>svDB := db\<rparr>"
    by (rule prepare_started)
  from adm show ?thesis
  proof (cases rule: admit_Inr)
    case (skipped db1 k)
    then show ?thesis using assms(2) by (auto simp: skipAdmission_def andThen_Inr_iff)
  next
    case (begun db1 dumpIDs k)
    from begun(6) show ?thesis
    proof (cases rule: startAdmission_Inr)
      case (started resumed rid db2)
      have fresh: "freshRun rid (dbLedger db1)" using sc started(2) unfolding schemaOK_def by metis
      have "runs (dbLedger db) = runs (dbLedger db1) @
          [newRun rid (apFingerprint plan) force allow (cVersion c) resumed]"
        using started_states [OF started(11)] started(6) by (simp add: Let_def startedLedger_def transferChunks_def copySummaries_def)
      then show ?thesis using fresh started(1) by (auto simp: s' freshRun_def newRun_def)
    qed
  qed
qed

lemma prepared_locks:
  assumes "prepare sc fl now session dumps chunkSize force allow (c, s) = (Inr p, (c', s'))" and "\<not> ipSkipped p" and "idle c"
  shows "cConn c' = Some session \<and> cRunID c' = ipRun p \<and> svLocks s' = svLocks s @ map (\<lambda>k. (k, session)) (cLockKeys c') \<and>
    0 < chunkSize"
  using assms(1)
proof (cases rule: prepare_cases)
  case (admitted ds plan c1 s1 x db)
  from acquireEntityLocks_run [OF admitted(6)] assms(2,3) admitted(2) admitted(10) show ?thesis
    by (auto simp: idle_def)
qed (use assms(2) in auto)

text \<open>C12. An import is skipped only when it may be: not when forced, and only if, in the database as
  it is once the abandoned runs of the selected types are ended and the dumps of the plan recorded,
  a successful run of the same manifest has as many dump rows as the plan, and for each of them the
  current checkpoint of the entity type has a dump row for the same dump, with the current contract
  revision, and no run of this entity type has failed since that checkpoint was applied. Skipping
  activates no run, and the run it reports is a successful run of this manifest.\<close>

theorem prepare_skips_only_satisfied:
  assumes run: "prepare sc fl now session dumps chunkSize force allow (c, s) = (Inr p, (c', s'))" and "ipSkipped p"
  shows "\<not> force \<and>
    (\<exists>db ds types r. those dumps = Some ds \<and> scOrdered sc (map dEntity ds) = Inr types \<and>
       beforeAdmission now types ds (svDB s) db \<and>
       r \<in> set (runs (dbLedger db)) \<and> rnManifest r = ipManifest p \<and> rnStatus r = Succeeded \<and>
       length (dumpsOfRun (rnID r) (dbLedger db)) = length ds \<and>
       (\<forall>d \<in> set (dumpsOfRun (rnID r) (dbLedger db)). \<exists>cp cur v.
          scCheckpoint sc db (duEntity d) = Some cp \<and>
          cur \<in> set (runDumps (dbLedger db)) \<and> duRun cur = cpRun cp \<and> duEntity cur = duEntity d \<and>
          duDump cur = duDump d \<and> duRevision cur = Some v \<and> currentRevision sc (duEntity d) = Some v \<and>
          (\<forall>x \<in> set (runDumps (dbLedger db)). \<forall>row \<in> set (runs (dbLedger db)). \<forall>t.
             duEntity x = duEntity d \<and> rnID row = duRun x \<and> rnStatus row = Failed \<and> rnCompletedAt row = Some t \<longrightarrow>
             t < cpAppliedAt cp \<or> t = cpAppliedAt cp \<and> rnID row \<le> cpRun cp))) \<and>
    (\<forall>i. runIsActive i (dbLedger (svDB s')) \<longrightarrow> runIsActive i (dbLedger (svDB s))) \<and>
    (\<exists>r \<in> set (runs (dbLedger (svDB s'))). rnID r = ipRun p \<and> successfulRun (ipManifest p) r)"
  by (rule skipped_satisfied [OF assms])

text \<open>Every admitted import but one with the downgrade override passes the checkpoint: no dump of
  the plan is older than the checkpoint of its entity type.\<close>

theorem prepare_refuses_downgrade:
  assumes run: "prepare sc fl now session dumps chunkSize force False (c, s) = (Inr p, (c', s'))"
  shows "\<exists>db ds. those dumps = Some ds \<and> dbDumps db = dbDumps (svDB s) \<and> dbStates db = dbStates (svDB s) \<and> dbRest db = dbRest (svDB s) \<and>
    (\<exists>types. dbLedger db = abandonRuns now types (dbLedger (svDB s))) \<and>
    (\<forall>d \<in> set ds. case scCheckpoint sc db (dEntity d) of
       Some cp \<Rightarrow> (case cpDate cp of Some t \<Rightarrow> \<not> scIsDowngrade sc (dDate d) t | None \<Rightarrow> True) | None \<Rightarrow> True)"
proof -
  from run have "\<exists>ds plan db. those dumps = Some ds \<and> resolvePlan sc ds = Inr plan \<and>
    admit sc fl now (cVersion c) plan chunkSize force False (svDB s) = (Inr p, db)"
  proof (cases rule: prepare_cases)
    case (admitted ds plan c1 s1 x db)
    then show ?thesis by (auto simp: coordTx_Inr)
  qed simp_all
  then obtain ds plan db where ds: "those dumps = Some ds" and plan: "resolvePlan sc ds = Inr plan"
    and adm: "admit sc fl now (cVersion c) plan chunkSize force False (svDB s) = (Inr p, db)" by blast
  from adm obtain t1 t2 where m: "markAbandonedRuns fl now (apOrdered plan) (svDB s) = (Inr (), t1)"
    and a: "assertNotDowngrade sc fl (apDumps plan) False t1 = (Inr (), t2)"
    by (auto simp: admit_def andThen_Inr_iff)
  have t1: "t1 = overLedger (abandonRuns now (apOrdered plan)) (svDB s)" by (rule markAbandonedRuns_Inr [OF m])
  have chk: "\<forall>d \<in> set xs. case scCheckpoint sc t1 (dEntity d) of
       Some cp \<Rightarrow> (case cpDate cp of Some t \<Rightarrow> \<not> scIsDowngrade sc (dDate d) t | None \<Rightarrow> True) | None \<Rightarrow> True"
    if "assertNotDowngrade sc fl xs False t1 = (Inr (), t2)" for xs
    using that
    by (induction xs)
      (fastforce simp: assertNotDowngrade_def andThen_Inr_iff stmt_Inr split: option.splits if_splits)+
  show ?thesis
    using ds chk [OF a] resolvePlan_Inr(1) [OF plan] t1
    by (intro exI [of _ t1] exI [of _ ds]) (auto simp del: split_paired_All intro!: exI [of _ "apOrdered plan"])
qed

section \<open>Properties of Complete\<close>

definition endRun :: "int \<Rightarrow> int \<Rightarrow> string option \<Rightarrow> ledger \<Rightarrow> ledger" where
  "endRun now rid reason l = l\<lparr>runs := updateWhere (\<lambda>r. rnID r = rid \<and> rnStatus r = Running)
     (\<lambda>r. r\<lparr>rnStatus := (if reason = None then Succeeded else Failed), rnCompletedAt := Some now, rnFailure := reason\<rparr>) (runs l)\<rparr>"

lemma endRun_sel [simp]: "runDumps (endRun now rid reason l) = runDumps l" "runChunks (endRun now rid reason l) = runChunks l"
  by (simp_all add: endRun_def)

lemma endRun_active: "runIsActive r (endRun now rid reason l) \<longleftrightarrow> r \<noteq> rid \<and> runIsActive r l"
  by (auto simp: runIsActive_def endRun_def updateWhere_def split: if_splits)

lemma finishRun_Inr:
  "finishRun fl now rid reason db = (Inr u, db') \<Longrightarrow>
     db' = overLedger (endRun now rid reason) db \<and> runIsActive rid (dbLedger db)"
  using countWhere_one [of "\<lambda>r. rnID r = rid \<and> rnStatus r = Running" "runs (dbLedger db)"]
  by (auto simp: finishRun_def stmt_Inr Let_def overLedger_def endRun_def runIsActive_def split: if_splits)

lemma markReady_Inr:
  assumes "markCatalogStatesReady fl now rid types db = (Inr u, db')"
  shows "dbLedger db' = dbLedger db \<and>
    length (filter (\<lambda>st. esEntity st \<in> set types \<and> esLastSuccess st = Some rid \<and> esStatus st = catalogStatusReady \<and>
      esActive st = None) (dbStates db')) \<ge> length types"
proof -
  let ?P = "\<lambda>s. esEntity s \<in> set types \<and> (esActive s = Some rid \<or> esActive s = None)"
  let ?f = "\<lambda>s. s\<lparr>esStatus := catalogStatusReady, esOperation := None, esActive := None, esLastSuccess := Some rid,
              esReadyAt := Some now, esUpdatedAt := Some now, esFailure := None\<rparr>"
  let ?Q = "\<lambda>st. esEntity st \<in> set types \<and> esLastSuccess st = Some rid \<and> esStatus st = catalogStatusReady \<and> esActive st = None"
  have u: "dbStates db' = updateWhere ?P ?f (dbStates db)" "countWhere ?P (dbStates db) = int (length types)"
      "dbLedger db' = dbLedger db"
    using assms by (auto simp: markCatalogStatesReady_def updateStates_def stmt_Inr Let_def split: if_splits)
  have "length (filter ?P xs) \<le> length (filter ?Q (updateWhere ?P ?f xs))" for xs
    by (induction xs) (auto simp: updateWhere_def)
  from this [of "dbStates db"] show ?thesis using u by (simp add: countWhere_def)
qed

lemma completionBody_Inr:
  assumes "completionBody sc fl now rid entities runErr db = (Inr cerr, db')"
  obtains (succeeded) P where "runErr = None" and "cerr = None" and "runIsActive rid (dbLedger db)"
      and "\<forall>d \<in> set (runDumps (dbLedger db)). \<not> incompleteDump rid d"
      and "dbLedger db' = (endRun now rid None (dbLedger db))\<lparr>runChunks := filter P (runChunks (dbLedger db))\<rparr>"
      and "\<And>k. P k \<Longrightarrow> ckRun k \<noteq> rid"
      and "\<And>k. k \<in> set (runChunks (dbLedger db)) \<Longrightarrow> \<not> P k \<Longrightarrow>
             ckRun k = rid \<or> (\<exists>r \<in> set (runs (endRun now rid None (dbLedger db))). rnID r = ckRun k \<and> rnStatus r = Failed)"
      and "length (filter (\<lambda>st. esEntity st \<in> set entities \<and> esLastSuccess st = Some rid \<and> esStatus st = catalogStatusReady \<and>
             esActive st = None) (dbStates db')) \<ge> length entities"
  | (failed) m where "runErr = Some m \<and> cerr = None \<or>
        runErr = None \<and> (\<exists>n. cerr = Some (IncompleteRun rid n) \<and> n \<noteq> 0)"
      and "runIsActive rid (dbLedger db)" and "dbLedger db' = endRun now rid (Some m) (dbLedger db)"
proof -
  from assms obtain inc t0 where v: "(if runErr = None then validateCompletion fl rid else ret None) db = (Inr inc, t0)"
    and rest: "andThen (finishRun fl now rid (if runErr = None then map_option fst inc else runErr))
       (\<lambda>_. andThen (case (if runErr = None then map_option fst inc else runErr) of
                None \<Rightarrow> andThen (runBootstrapOperation fl ''finalize'' (scFinalizeBootstrap sc) rid)
                          (\<lambda>_. markCatalogStatesReady fl now rid entities)
              | Some m \<Rightarrow> markCatalogStatesFailed fl now rid entities m)
       (\<lambda>_. andThen (if (if runErr = None then map_option fst inc else runErr) = None
                then andThen (pruneSupersededFailedProgress sc fl) (\<lambda>_. deleteRunChunks fl rid) else ret ())
       (\<lambda>_. ret (map_option snd inc)))) t0 = (Inr cerr, db')"
    unfolding completionBody_def Let_def by (subst (asm) andThen_Inr_iff) blast
  let ?reason = "if runErr = None then map_option fst inc else runErr"
  have t0: "t0 = db" using v by (auto simp: validateCompletion_def stmt_Inr Let_def split: if_splits)
  from rest obtain t1 t2 where f: "finishRun fl now rid ?reason t0 = (Inr (), t1)"
    and g: "(case ?reason of
                None \<Rightarrow> andThen (runBootstrapOperation fl ''finalize'' (scFinalizeBootstrap sc) rid)
                          (\<lambda>_. markCatalogStatesReady fl now rid entities)
              | Some m \<Rightarrow> markCatalogStatesFailed fl now rid entities m) t1 = (Inr (), t2)"
    and h: "(if ?reason = None then andThen (pruneSupersededFailedProgress sc fl) (\<lambda>_. deleteRunChunks fl rid) else ret ()) t2
        = (Inr (), db')" and cerr: "cerr = map_option snd inc"
    by (auto simp: andThen_Inr_iff)
  note f' = finishRun_Inr [OF f]
  show thesis
  proof (cases ?reason)
    case (Some m)
    have g': "markCatalogStatesFailed fl now rid entities m t1 = (Inr (), t2)" using g unfolding Some by simp
    have h': "db' = t2" using h unfolding Some by simp
    have l: "dbLedger db' = endRun now rid (Some m) (dbLedger db)"
      using f' sameLedgerD [OF sameLedger_marks(3) g'] unfolding Some h' t0 by simp
    have "runErr = Some m \<and> cerr = None \<or> runErr = None \<and> (\<exists>n. cerr = Some (IncompleteRun rid n) \<and> n \<noteq> 0)"
      using Some v cerr by (auto simp: validateCompletion_def stmt_Inr Let_def split: if_splits)
    then show ?thesis using failed [OF _ _ l] f' unfolding t0 by blast
  next
    case None
    then have none: "runErr = None" "inc = None" by (auto split: if_splits)
    have complete: "\<forall>d \<in> set (runDumps (dbLedger db)). \<not> incompleteDump rid d"
      using v none by (auto simp: validateCompletion_def stmt_Inr Let_def countWhere_zero split: if_splits)
    from g obtain tb where b: "runBootstrapOperation fl ''finalize'' (scFinalizeBootstrap sc) rid t1 = (Inr (), tb)"
      and m: "markCatalogStatesReady fl now rid entities tb = (Inr (), t2)"
      unfolding None by (auto simp: andThen_Inr_iff)
    have t2: "dbLedger t2 = endRun now rid None (dbLedger db)"
      using f' sameLedgerD [OF sameLedger_bootstrap b] markReady_Inr [OF m] unfolding None t0 by simp
    let ?P = "\<lambda>k. ckRun k \<noteq> rid \<and> \<not> (\<exists>r \<in> set (runs (dbLedger t2)). rnID r = ckRun k \<and> supersededRun sc t2 r)"
    have db': "dbLedger db' = (dbLedger t2)\<lparr>runChunks := filter ?P (runChunks (dbLedger t2))\<rparr>" "dbStates db' = dbStates t2"
      using h unfolding None
      by (auto simp: andThen_Inr_iff pruneSupersededFailedProgress_def deleteRunChunks_def stmt_Inr conj_commute)
    show ?thesis
    proof (rule succeeded [of ?P])
      show "dbLedger db' = (endRun now rid None (dbLedger db))\<lparr>runChunks := filter ?P (runChunks (dbLedger db))\<rparr>"
        using db' t2 by simp
      show "ckRun k = rid \<or> (\<exists>r \<in> set (runs (endRun now rid None (dbLedger db))). rnID r = ckRun k \<and> rnStatus r = Failed)"
        if "\<not> ?P k" for k using that t2 by (auto simp: supersededRun_def)
      show "length (filter (\<lambda>st. esEntity st \<in> set entities \<and> esLastSuccess st = Some rid \<and> esStatus st = catalogStatusReady \<and>
             esActive st = None) (dbStates db')) \<ge> length entities" using markReady_Inr [OF m] db'(2) by simp
    qed (use none cerr f' complete t0 in simp_all)
  qed
qed

lemma completionBody_inv:
  assumes run: "completionBody sc fl now rid entities runErr db = (Inr cerr, db')" and ok: "dbOK db"
  shows "dbOK db'"
proof -
  have uniq: "uniqueRuns (endRun now rid reason (dbLedger db))" for reason
    using ok by (simp add: dbOK_def uniqueRuns_def endRun_def updateWhere_keys)
  from run show ?thesis
  proof (cases rule: completionBody_Inr)
    case (succeeded P)
    have "ledgerInv (dbLedger db')"
    proof (rule ledgerInv_deactivate [where P = P and l = "dbLedger db"])
      fix r assume "runIsActive r (dbLedger db')"
      then have act: "runIsActive r (endRun now rid None (dbLedger db))" by (simp add: succeeded(5))
      moreover have "P k" if k: "k \<in> set (runChunks (dbLedger db))" "ckRun k = r" for k
      proof (rule ccontr)
        assume "\<not> P k"
        then obtain r' where "r' \<in> set (runs (endRun now rid None (dbLedger db)))" "rnID r' = r" "rnStatus r' = Failed"
          using succeeded(7) [OF k(1)] k(2) act by (auto simp: endRun_active)
        then show False using act uniqueRuns_eq [OF uniq] by (fastforce simp: runIsActive_def)
      qed
      ultimately show "runIsActive r (dbLedger db) \<and> (\<forall>k \<in> set (runChunks (dbLedger db)). ckRun k = r \<longrightarrow> P k)"
        by (simp add: endRun_active)
    qed (use ok succeeded(5) in \<open>simp_all add: dbOK_def\<close>)
    moreover have "uniqueRuns (dbLedger db')" using uniq [of None] unfolding succeeded(5) by (simp add: uniqueRuns_def)
    ultimately show ?thesis by (simp add: dbOK_def)
  next
    case (failed m)
    have "ledgerInv (dbLedger db')"
      by (rule ledgerInv_deactivate [where P = "\<lambda>_. True" and l = "dbLedger db"])
        (use ok failed(3) in \<open>simp_all add: dbOK_def endRun_active\<close>)
    then show ?thesis using uniq failed(3) by (simp add: dbOK_def)
  qed
qed

lemma complete_cases:
  assumes "complete sc fl now runErr (c, s) = (r, (c', s'))" and "cConn c = Some session" and "cRunID c \<noteq> 0"
  obtains (undone) e where "r = Some e" and "release fl (c, s) = (c', s')"
  | (ended) db where "completionBody sc fl now (cRunID c) (cEntities c) runErr (svDB s) = (Inr r, db)"
      and "release fl (c, s\<lparr>svDB := db\<rparr>) = (c', s')"
proof -
  obtain y db where tx: "coordTx fl (completionBody sc fl now (cRunID c) (cEntities c) runErr) (svDB s) = (y, db)"
    by (metis surj_pair)
  show thesis
  proof (cases y)
    case (Inl e)
    have "db = svDB s" by (rule coordTx_Inl [OF tx [unfolded Inl]])
    then show ?thesis using assms tx Inl undone [of e] by (simp add: complete_def)
  next
    case (Inr cerr)
    then show ?thesis using assms tx ended [of db] by (simp add: complete_def coordTx_Inr)
  qed
qed

lemma complete_dbOK:
  assumes "complete sc fl now runErr (c, s) = (r, (c', s'))" and "dbOK (svDB s)"
  shows "dbOK (svDB s')"
proof (cases "cConn c = None \<or> cRunID c = 0")
  case True
  then show ?thesis using assms by (simp add: complete_def)
next
  case False
  then obtain session where c: "cConn c = Some session" "cRunID c \<noteq> 0" by auto
  from assms(1) c show ?thesis
  proof (cases rule: complete_cases)
    case (undone e)
    then show ?thesis using release_sel(1) [OF undone(2) c(1)] assms(2) by simp
  next
    case (ended db)
    then show ?thesis using release_sel(1) [OF ended(2) c(1)] completionBody_inv [OF ended(1) assms(2)] by simp
  qed
qed

text \<open>C28. Whatever statement of \<open>Prepare\<close> or \<open>Complete\<close> fails, and on every branch they take, the
  ledger stays consistent: unique runs, dump rows and chunks, and the progress of every active run
  counting exactly its recorded chunks.\<close>

theorem coordinator_keeps_ledger:
  assumes "dbOK (svDB s)" and "schemaOK sc"
  shows "dbOK (svDB (snd (snd (prepare sc fl now session dumps chunkSize force allow (c, s))))) \<and>
    dbOK (svDB (snd (snd (complete sc fl now runErr (c, s)))))"
proof
  obtain r c' s' where "prepare sc fl now session dumps chunkSize force allow (c, s) = (r, (c', s'))" by (metis surj_pair)
  then show "dbOK (svDB (snd (snd (prepare sc fl now session dumps chunkSize force allow (c, s)))))"
    using prepare_dbOK [OF _ assms] by auto
  obtain r c' s' where "complete sc fl now runErr (c, s) = (r, (c', s'))" by (metis surj_pair)
  then show "dbOK (svDB (snd (snd (complete sc fl now runErr (c, s)))))"
    using complete_dbOK [OF _ assms(1)] by auto
qed

text \<open>C11. Ending a run has three outcomes. A failed statement leaves the run as it was and is reported.
  Otherwise, without an import error and with every entity complete, the run is successful, its
  chunk records are gone and all its entity types are ready with this run as the last success. In
  the remaining case the run is failed, its recorded chunks are kept for resuming, and if the only
  reason was an incomplete entity that is reported. The coordinator is closed in every case.\<close>

theorem complete_outcomes:
  assumes run: "complete sc fl now runErr (c, s) = (r, (c', s'))" and c: "cConn c = Some session" "cRunID c \<noteq> 0"
  shows "cConn c' = None \<and> cRunID c' = 0 \<and>
    (case r of
       None \<Rightarrow> \<not> runIsActive (cRunID c) (dbLedger (svDB s')) \<and>
         (if runErr = None
          then (\<forall>d \<in> set (runDumps (dbLedger (svDB s'))). \<not> incompleteDump (cRunID c) d) \<and>
            chunksOfRun (cRunID c) (dbLedger (svDB s')) = [] \<and>
            (\<exists>row \<in> set (runs (dbLedger (svDB s'))). rnID row = cRunID c \<and> rnStatus row = Succeeded) \<and>
            length (cEntities c) \<le> length (filter (\<lambda>st. esEntity st \<in> set (cEntities c) \<and> esLastSuccess st = Some (cRunID c) \<and>
              esStatus st = catalogStatusReady \<and> esActive st = None) (dbStates (svDB s')))
          else (\<exists>row \<in> set (runs (dbLedger (svDB s'))). rnID row = cRunID c \<and> rnStatus row = Failed \<and> rnFailure row = runErr) \<and>
            runChunks (dbLedger (svDB s')) = runChunks (dbLedger (svDB s)))
     | Some e \<Rightarrow> svDB s' = svDB s \<or>
         (runErr = None \<and> (\<exists>n. e = IncompleteRun (cRunID c) n) \<and>
          (\<exists>row \<in> set (runs (dbLedger (svDB s'))). rnID row = cRunID c \<and> rnStatus row = Failed) \<and>
          runChunks (dbLedger (svDB s')) = runChunks (dbLedger (svDB s))))"
proof -
  have row: "\<exists>row \<in> set (runs (endRun now i reason l)). rnID row = i \<and>
      rnStatus row = (if reason = None then Succeeded else Failed) \<and> rnFailure row = reason" if act: "runIsActive i l" for i reason l
  proof -
    obtain x where x: "x \<in> set (runs l)" "rnID x = i \<and> rnStatus x = Running" using act by (auto simp: runIsActive_def)
    let ?x = "x\<lparr>rnStatus := (if reason = None then Succeeded else Failed), rnCompletedAt := Some now, rnFailure := reason\<rparr>"
    have "?x \<in> set (runs (endRun now i reason l))"
      unfolding endRun_def
      using updateWhere_mem [of x "runs l" "\<lambda>r. rnID r = i \<and> rnStatus r = Running"
        "\<lambda>r. r\<lparr>rnStatus := (if reason = None then Succeeded else Failed), rnCompletedAt := Some now, rnFailure := reason\<rparr>",
        OF x] by simp
    moreover have "rnID ?x = i \<and> rnStatus ?x = (if reason = None then Succeeded else Failed) \<and> rnFailure ?x = reason"
      using x(2) by simp
    ultimately show ?thesis by blast
  qed
  from run c show ?thesis
  proof (cases rule: complete_cases)
    case (undone e)
    then show ?thesis using release_sel [OF undone(2) c(1)] by simp
  next
    case (ended db)
    note rel = release_sel [OF ended(2) c(1)]
    have db: "svDB s' = db" using rel(1) by simp
    from ended(1) show ?thesis
    proof (cases rule: completionBody_Inr)
      case (succeeded P)
      have "\<not> runIsActive (cRunID c) (dbLedger db)" unfolding succeeded(5) by (simp add: endRun_active)
      moreover have "chunksOfRun (cRunID c) (dbLedger db) = []"
        unfolding succeeded(5) chunksOfRun_def using succeeded(6) by (auto simp: filter_empty_conv)
      moreover have "runs (dbLedger db) = runs (endRun now (cRunID c) None (dbLedger (svDB s)))" unfolding succeeded(5) by simp
      moreover have "\<exists>row \<in> set (runs (endRun now (cRunID c) None (dbLedger (svDB s)))). rnID row = cRunID c \<and> rnStatus row = Succeeded"
        using row [OF succeeded(3), of None] by auto
      ultimately show ?thesis
        using rel(2,3) succeeded(1,2,4,8) unfolding db by (simp add: succeeded(5))
    next
      case (failed m)
      have dead: "\<not> runIsActive (cRunID c) (dbLedger db)" unfolding failed(3) by (simp add: endRun_active)
      have ch: "runChunks (dbLedger db) = runChunks (dbLedger (svDB s))" unfolding failed(3) by simp
      have fr: "\<exists>row \<in> set (runs (dbLedger db)). rnID row = cRunID c \<and> rnStatus row = Failed \<and> rnFailure row = Some m"
        using row [OF failed(2), of "Some m"] unfolding failed(3) by simp
      from failed(1) show ?thesis
      proof
        assume e: "runErr = Some m \<and> r = None"
        show ?thesis using e rel(2,3) dead ch fr unfolding db by simp
      next
        assume e: "runErr = None \<and> (\<exists>n. r = Some (IncompleteRun (cRunID c) n) \<and> n \<noteq> 0)"
        then show ?thesis using rel(2,3) ch fr unfolding db by auto
      qed
    qed
  qed
qed

section \<open>A small server\<close>

definition largest :: "int list \<Rightarrow> int" where
  "largest xs = foldr max xs 0"

lemma largest_ge: "x \<in> set xs \<Longrightarrow> x \<le> largest xs" and largest_nonneg: "0 \<le> largest xs"
  by (induction xs) (auto simp: largest_def)

definition demoSchema :: "unit schema" where
  "demoSchema = \<lparr>scFingerprint = (\<lambda>ds. Inr ''m''), scOrdered = Inr, scLockTypes = Inr, scLockKey = (\<lambda>e. Inr (int (length e))),
     scRevision = (\<lambda>e. Some 1), scIsDowngrade = (\<lambda>a b. a < b), scCheckpoint = (\<lambda>db e. None),
     scNextRun = (\<lambda>db. 1 + largest (map rnID (runs (dbLedger db)) @ map duRun (runDumps (dbLedger db)) @ map ckRun (runChunks (dbLedger db)))),
     scNextDump = (\<lambda>db. 1 + largest (map dpID (dbDumps db))), scProcessedDefault = 0,
     scPrepareBootstrap = (\<lambda>i x. Some x), scFinalizeBootstrap = (\<lambda>i x. Some x)\<rparr>"

lemma demoSchema_OK: "schemaOK demoSchema"
proof -
  have "freshRun (scNextRun demoSchema db) (dbLedger db)" for db
  proof -
    let ?xs = "map rnID (runs (dbLedger db)) @ map duRun (runDumps (dbLedger db)) @ map ckRun (runChunks (dbLedger db))"
    have "x \<noteq> 1 + largest ?xs" if "x \<in> set ?xs" for x using largest_ge [OF that] by simp
    then show ?thesis using largest_nonneg [of ?xs] by (force simp: freshRun_def demoSchema_def)
  qed
  then show ?thesis by (simp add: schemaOK_def demoSchema_def)
qed

definition demoState :: entityState where
  "demoState = \<lparr>esEntity = ''artist'', esStatus = ''empty'', esOperation = None, esActive = None, esLastSuccess = None,
     esReadyAt = None, esUpdatedAt = None, esFailure = None\<rparr>"

definition demoServer :: "unit server" where
  "demoServer = \<lparr>svDB = \<lparr>dbLedger = \<lparr>runs = [], runDumps = [], runChunks = []\<rparr>, dbDumps = [], dbStates = [demoState], dbRest = ()\<rparr>,
     svLocks = []\<rparr>"

definition demoDump :: dump where
  "demoDump = \<lparr>dETag = [], dDate = 10, dEntity = ''artist'', dChecksum = ''c'', dSize = 1, dURI = []\<rparr>"

definition noFault :: faultPlan where "noFault = (\<lambda>_. False)"

definition demoPrepare where
  "demoPrepare = prepare demoSchema noFault 5 1 [Some demoDump] 2 False False (newImportExecutionCoordinator [], demoServer)"

lemmas prepare_defs = prepare_def acquireEntityLocks_def acquireLock_def resolvePlan_def admit_def markAbandonedRuns_def
  assertNotDowngrade_def findOrInsertDump_def findSuccessfulRun_def startAdmission_def insertImportRun_def
  insertRunDumps_def insertImportRunDump_def insertDumpRows_def findResumableRun_def markCatalogStatesImporting_def
  updateStates_def runBootstrapOperation_def coordTx_def atomically_def stmt_def andThen_def overLedger_def
  latestRun_def partiallySatisfied_def fullySatisfied_def updateWhere_def countWhere_def release_def

lemma demo_prepare: "fst demoPrepare = Inr \<lparr>ipManifest = ''m'', ipRun = 1, ipResumedFrom = 0, ipSkipped = False\<rparr>"
  by (simp add: demoPrepare_def prepare_defs demoSchema_def demoServer_def demoDump_def demoState_def noFault_def
      newImportExecutionCoordinator_def trimSpace_def currentRevision_def entityType_defs largest_def Let_def)

definition coordOf :: "'a \<times> coordinator \<times> 'x server \<Rightarrow> coordinator" where "coordOf x = fst (snd x)"
definition serverOf :: "'a \<times> coordinator \<times> 'x server \<Rightarrow> 'x server" where "serverOf x = snd (snd x)"

lemma split_run: "x = (fst x, (coordOf x, serverOf x))"
  by (simp add: coordOf_def serverOf_def)

lemma demo_prepare_run:
  "prepare demoSchema noFault 5 1 [Some demoDump] 2 False False (newImportExecutionCoordinator [], demoServer) =
     (Inr \<lparr>ipManifest = ''m'', ipRun = 1, ipResumedFrom = 0, ipSkipped = False\<rparr>, (coordOf demoPrepare, serverOf demoPrepare))"
  using demo_prepare split_run [of demoPrepare] by (simp add: demoPrepare_def)

text \<open>An earlier attempt that failed after its first chunk.\<close>

definition failedServer :: "unit server" where
  "failedServer = \<lparr>svDB = \<lparr>dbLedger =
      \<lparr>runs = [\<lparr>rnID = 1, rnManifest = ''m'', rnStatus = Failed, rnCompletedAt = Some 3, rnForce = False,
          rnAllowDowngrade = False, rnVersion = [], rnResumedFrom = None, rnFailure = Some ''x''\<rparr>],
       runDumps = [\<lparr>duRun = 1, duEntity = ''artist'', duDump = 1, duChunkSize = Some 2, duRevision = Some 1, duProcessed = 2,
          duTotalItems = None, duTotalChunks = None, duCompletedAt = None, duLastProgressAt = Some 2\<rparr>],
       runChunks = [\<lparr>ckRun = 1, ckEntity = ''artist'', ckIndex = 0, ckFirst = 0, ckCount = 2, ckCompletedAt = 2\<rparr>]\<rparr>,
     dbDumps = [\<lparr>dpID = 1, dpDump = demoDump\<rparr>], dbStates = [demoState], dbRest = ()\<rparr>, svLocks = []\<rparr>"

definition resumePrepare where
  "resumePrepare = prepare demoSchema noFault 5 1 [Some demoDump] 2 False False (newImportExecutionCoordinator [], failedServer)"

lemmas resume_defs = resumable_def dumpsOfRun_def chunksOf_def chunkMatches_def chunkMisplaced_def supersededSince_def
  currentDump_def copyResumeProgress_def resumeSource_def copySummaries_def copySummary_def insertChunkRows_def chunksOfRun_def
  sameDump_def ageOf_def

lemma resume_prepare: "fst resumePrepare = Inr \<lparr>ipManifest = ''m'', ipRun = 2, ipResumedFrom = 1, ipSkipped = False\<rparr>"
  by (auto simp: resumePrepare_def prepare_defs demoSchema_def failedServer_def demoDump_def demoState_def noFault_def
      newImportExecutionCoordinator_def trimSpace_def currentRevision_def entityType_defs largest_def Let_def resume_defs
      successfulRun_def abandonable_def dumpMatches_def)

lemma resume_prepare_run:
  "prepare demoSchema noFault 5 1 [Some demoDump] 2 False False (newImportExecutionCoordinator [], failedServer) =
     (Inr \<lparr>ipManifest = ''m'', ipRun = 2, ipResumedFrom = 1, ipSkipped = False\<rparr>, (coordOf resumePrepare, serverOf resumePrepare))"
  using resume_prepare split_run [of resumePrepare] by (simp add: resumePrepare_def)

lemma failedServer_OK: "dbOK (svDB failedServer)"
  by (simp add: dbOK_def ledgerInv_def uniqueDumps_def uniqueChunks_def progressCounted_def uniqueRuns_def failedServer_def
      runIsActive_def)

text \<open>An earlier attempt that succeeded, with its checkpoint.\<close>

definition checkedSchema :: "unit schema" where
  "checkedSchema = demoSchema\<lparr>scCheckpoint := (\<lambda>db e. Some \<lparr>cpRun = 1, cpAppliedAt = 3, cpDate = Some 10\<rparr>)\<rparr>"

definition doneServer :: "unit server" where
  "doneServer = \<lparr>svDB = \<lparr>dbLedger =
      \<lparr>runs = [\<lparr>rnID = 1, rnManifest = ''m'', rnStatus = Succeeded, rnCompletedAt = Some 3, rnForce = False,
          rnAllowDowngrade = False, rnVersion = [], rnResumedFrom = None, rnFailure = None\<rparr>],
       runDumps = [\<lparr>duRun = 1, duEntity = ''artist'', duDump = 1, duChunkSize = Some 2, duRevision = Some 1, duProcessed = 2,
          duTotalItems = Some 2, duTotalChunks = Some 1, duCompletedAt = Some 3, duLastProgressAt = Some 2\<rparr>],
       runChunks = []\<rparr>,
     dbDumps = [\<lparr>dpID = 1, dpDump = demoDump\<rparr>], dbStates = [demoState], dbRest = ()\<rparr>, svLocks = []\<rparr>"

definition skipPrepare where
  "skipPrepare = prepare checkedSchema noFault 5 1 [Some demoDump] 2 False False (newImportExecutionCoordinator [], doneServer)"

lemma skip_prepare: "fst skipPrepare = Inr \<lparr>ipManifest = ''m'', ipRun = 1, ipResumedFrom = 0, ipSkipped = True\<rparr>"
  by (simp add: skipPrepare_def prepare_defs checkedSchema_def demoSchema_def doneServer_def demoDump_def demoState_def noFault_def
      newImportExecutionCoordinator_def trimSpace_def currentRevision_def entityType_defs largest_def Let_def resume_defs
      successfulRun_def abandonable_def entityCompatible_def failedSince_def skipAdmission_def markCatalogStatesReady_def dumpMatches_def)

lemma skip_prepare_run:
  "prepare checkedSchema noFault 5 1 [Some demoDump] 2 False False (newImportExecutionCoordinator [], doneServer) =
     (Inr \<lparr>ipManifest = ''m'', ipRun = 1, ipResumedFrom = 0, ipSkipped = True\<rparr>, (coordOf skipPrepare, serverOf skipPrepare))"
  using skip_prepare split_run [of skipPrepare] by (simp add: skipPrepare_def)

definition demoComplete where
  "demoComplete = complete demoSchema noFault 8 (Some ''boom'') (coordOf demoPrepare, serverOf demoPrepare)"

lemmas complete_defs = complete_def completionBody_def finishRun_def markCatalogStatesFailed_def

lemma demo_coord: "cConn (coordOf demoPrepare) = Some 1" "cRunID (coordOf demoPrepare) = 1"
  by (simp_all add: coordOf_def demoPrepare_def prepare_defs demoSchema_def demoServer_def demoDump_def demoState_def noFault_def
      newImportExecutionCoordinator_def trimSpace_def currentRevision_def entityType_defs largest_def Let_def)

lemma demo_complete: "fst demoComplete = None"
  by (simp add: demoComplete_def complete_defs coordOf_def serverOf_def demoPrepare_def prepare_defs demoSchema_def demoServer_def
      demoDump_def demoState_def noFault_def newImportExecutionCoordinator_def trimSpace_def currentRevision_def entityType_defs
      largest_def Let_def)

section \<open>Witnesses\<close>

lemma newCoordinator_idle: "idle (newImportExecutionCoordinator v)"
  by (simp add: idle_def newImportExecutionCoordinator_def)

lemma demo_commit_fails:
  "fst (prepare demoSchema (\<lambda>q. q = ''commit'') 5 1 [Some demoDump] 2 False False (newImportExecutionCoordinator [], demoServer))
     = Inl (StatementError ''commit'')"
  by (simp add: prepare_defs demoSchema_def demoServer_def demoDump_def demoState_def
      newImportExecutionCoordinator_def trimSpace_def currentRevision_def entityType_defs largest_def Let_def)

theorem prepare_failure_leaves_no_trace_witness:
  "let s' = snd (snd (prepare demoSchema (\<lambda>q. q = ''commit'') 5 1 [Some demoDump] 2 False False
     (newImportExecutionCoordinator [], demoServer)))
   in svDB s' = svDB demoServer \<and> svLocks s' = []"
proof -
  let ?x = "prepare demoSchema (\<lambda>q. q = ''commit'') 5 1 [Some demoDump] 2 False False (newImportExecutionCoordinator [], demoServer)"
  have "?x = (Inl (StatementError ''commit''), (fst (snd ?x), snd (snd ?x)))" using demo_commit_fails by (metis prod.collapse)
  from prepare_failure_leaves_no_trace [OF this newCoordinator_idle] show ?thesis by (auto simp: Let_def demoServer_def)
qed

theorem prepare_starts_exclusive_run_witness: "runIsActive 1 (dbLedger (svDB (serverOf demoPrepare)))"
  using prepare_starts_exclusive_run [OF demo_prepare_run _ demoSchema_OK] by auto

theorem prepare_resume_moves_progress_witness:
  "chunksOf 2 ''artist'' (dbLedger (svDB (serverOf resumePrepare))) =
     map (\<lambda>k. k\<lparr>ckRun := 2\<rparr>) (chunksOf 1 ''artist'' (dbLedger (svDB failedServer)))"
  using prepare_resume_moves_progress [OF resume_prepare_run _ _ demoSchema_OK failedServer_OK] by simp

theorem prepare_skips_only_satisfied_witness:
  "\<exists>r \<in> set (runs (dbLedger (svDB (serverOf skipPrepare)))). rnID r = 1 \<and> successfulRun ''m'' r"
  using prepare_skips_only_satisfied [OF skip_prepare_run] by simp

theorem prepare_refuses_downgrade_witness:
  "\<exists>db. dbRest db = dbRest (svDB doneServer) \<and> \<not> scIsDowngrade checkedSchema 10 (the (cpDate (the (scCheckpoint checkedSchema db ''artist''))))"
  using prepare_refuses_downgrade [OF skip_prepare_run] by (auto simp: checkedSchema_def demoDump_def)

theorem coordinator_keeps_ledger_witness:
  "dbOK (svDB (snd (snd (prepare demoSchema noFault 5 1 [Some demoDump] 2 False False (newImportExecutionCoordinator [], failedServer)))))"
  by (rule coordinator_keeps_ledger [OF failedServer_OK demoSchema_OK, THEN conjunct1])

theorem complete_outcomes_witness:
  "\<not> runIsActive 1 (dbLedger (svDB (serverOf demoComplete)))"
proof -
  have "complete demoSchema noFault 8 (Some ''boom'') (coordOf demoPrepare, serverOf demoPrepare) =
      (None, (coordOf demoComplete, serverOf demoComplete))"
    using demo_complete split_run [of demoComplete] by (simp add: demoComplete_def)
  from complete_outcomes [OF this demo_coord(1)] demo_coord(2) show ?thesis by simp
qed

end
