(* ===== verification/Import_Locks.thy ===== *)
theory Import_Locks
  imports Coordinator_Spec
begin

text \<open>
  Several importers against one database. A world has the server and the coordinator of every
  process; a step is a whole \<open>Prepare\<close> or \<open>Complete\<close> of one process, a transaction of the import
  it runs, or its crash, which ends its session. The advisory locks are what keeps recovery of
  abandoned runs from failing a run that is still being imported.
\<close>

section \<open>Worlds\<close>

record 'x world =
  wServer :: "'x server"
  wCoord :: "nat \<Rightarrow> coordinator"

definition closeSession :: "int option \<Rightarrow> 'x server \<Rightarrow> 'x server" where
  "closeSession conn s = (case conn of
     None \<Rightarrow> s
   | Some session \<Rightarrow> s\<lparr>svLocks := filter (\<lambda>(k, h). h \<noteq> session) (svLocks s)\<rparr>)"

definition withTables :: "ledger \<times> 'x \<Rightarrow> 'x server \<Rightarrow> 'x server" where
  "withTables t s = s\<lparr>svDB := (svDB s)\<lparr>dbLedger := fst t, dbRest := snd t\<rparr>\<rparr>"

inductive world_step :: "'x schema \<Rightarrow> 'x world \<Rightarrow> 'x world \<Rightarrow> bool" for sc where
  prepare_step: "(\<And>j. j \<noteq> i \<Longrightarrow> cConn (wCoord w j) \<noteq> Some session) \<Longrightarrow>
     prepare sc fl now session dumps chunkSize force allow (wCoord w i, wServer w) = (r, (c', s')) \<Longrightarrow>
     world_step sc w (w\<lparr>wServer := s', wCoord := (wCoord w)(i := c')\<rparr>)"
| complete_step: "complete sc fl now runErr (wCoord w i, wServer w) = (r, (c', s')) \<Longrightarrow>
     world_step sc w (w\<lparr>wServer := s', wCoord := (wCoord w)(i := c')\<rparr>)"
| chunk_step: "cRunID (wCoord w i) \<noteq> 0 \<Longrightarrow> oRunID ord = cRunID (wCoord w i) \<Longrightarrow>
     executeChunk fl now ord chunk write (dbLedger (svDB (wServer w)), dbRest (svDB (wServer w))) = (res, t) \<Longrightarrow>
     world_step sc w (w\<lparr>wServer := withTables t (wServer w)\<rparr>)"
| fenced_step: "cRunID (wCoord w i) \<noteq> 0 \<Longrightarrow> oRunID ord = cRunID (wCoord w i) \<Longrightarrow>
     executeActiveRunTransaction fl ord write (dbLedger (svDB (wServer w)), dbRest (svDB (wServer w))) = (res, t) \<Longrightarrow>
     world_step sc w (w\<lparr>wServer := withTables t (wServer w)\<rparr>)"
| entity_step: "cRunID (wCoord w i) \<noteq> 0 \<Longrightarrow> oRunID ord = cRunID (wCoord w i) \<Longrightarrow>
     completeEntityProgress fl now ord ti tc (dbLedger (svDB (wServer w))) = (res', l') \<Longrightarrow>
     world_step sc w (w\<lparr>wServer := withTables (l', dbRest (svDB (wServer w))) (wServer w)\<rparr>)"
| crash_step: "world_step sc w (w\<lparr>wServer := closeSession (cConn (wCoord w i)) (wServer w),
     wCoord := (wCoord w)(i := newImportExecutionCoordinator (cVersion (wCoord w i)))\<rparr>)"

inductive_cases world_stepE: "world_step sc w w'"

definition startWorld :: "'x server \<Rightarrow> (nat \<Rightarrow> string) \<Rightarrow> 'x world" where
  "startWorld s versions = \<lparr>wServer = s, wCoord = (\<lambda>i. newImportExecutionCoordinator (versions i))\<rparr>"

section \<open>The invariant\<close>

text \<open>A lock has one holder.\<close>

definition oneHolder :: "(int \<times> int) list \<Rightarrow> bool" where
  "oneHolder locks \<longleftrightarrow> (\<forall>k h h'. (k, h) \<in> set locks \<longrightarrow> (k, h') \<in> set locks \<longrightarrow> h = h')"

text \<open>A coordinator with a run: its session holds the locks of the entity types of the run, which is
  active and has no dump of another type.\<close>

definition coordLive :: "'x schema \<Rightarrow> 'x server \<Rightarrow> coordinator \<Rightarrow> bool" where
  "coordLive sc s c \<longleftrightarrow>
     (\<exists>session. cConn c = Some session \<and>
        (\<forall>e \<in> set (cEntities c). \<exists>k. scLockKey sc e = Inr k \<and> (k, session) \<in> set (svLocks s)) \<and>
        runIsActive (cRunID c) (dbLedger (svDB s)) \<and>
        (\<forall>d \<in> set (runDumps (dbLedger (svDB s))). duRun d = cRunID c \<longrightarrow> duEntity d \<in> set (cEntities c)))"

definition worldOK :: "'x schema \<Rightarrow> 'x world \<Rightarrow> bool" where
  "worldOK sc w \<longleftrightarrow>
     dbOK (svDB (wServer w)) \<and>
     oneHolder (svLocks (wServer w)) \<and>
     (\<forall>i. if cRunID (wCoord w i) = 0 then idle (wCoord w i) else coordLive sc (wServer w) (wCoord w i)) \<and>
     (\<forall>i j. i \<noteq> j \<longrightarrow> cConn (wCoord w i) \<noteq> None \<longrightarrow> cConn (wCoord w i) \<noteq> cConn (wCoord w j)) \<and>
     (\<forall>i j. i \<noteq> j \<longrightarrow> cRunID (wCoord w i) \<noteq> 0 \<longrightarrow> cRunID (wCoord w i) \<noteq> cRunID (wCoord w j))"

text \<open>Documented behaviour of the manifest library: the ordered types are the given ones, and the
  required locks include them.\<close>

definition lockTypesOK :: "'x schema \<Rightarrow> bool" where
  "lockTypesOK sc \<longleftrightarrow>
     (\<forall>es ts. scOrdered sc es = Inr ts \<longrightarrow> set ts = set es) \<and>
     (\<forall>ts ls. scLockTypes sc ts = Inr ls \<longrightarrow> set ts \<subseteq> set ls)"

section \<open>One process steps, the others do not notice\<close>

text \<open>What another live coordinator relies on: the locks of other sessions stay, its run stays
  active, and no dump row of its run appears.\<close>

definition undisturbed :: "int option \<Rightarrow> int \<Rightarrow> 'x server \<Rightarrow> 'x server \<Rightarrow> bool" where
  "undisturbed conn rid s s' \<longleftrightarrow>
     (\<forall>k h. Some h = conn \<longrightarrow> (k, h) \<in> set (svLocks s) \<longrightarrow> (k, h) \<in> set (svLocks s')) \<and>
     (runIsActive rid (dbLedger (svDB s)) \<longrightarrow> runIsActive rid (dbLedger (svDB s'))) \<and>
     (\<forall>d \<in> set (runDumps (dbLedger (svDB s'))). duRun d = rid \<longrightarrow>
        (\<exists>d0 \<in> set (runDumps (dbLedger (svDB s))). duRun d0 = rid \<and> duEntity d0 = duEntity d))"

lemma coordLive_undisturbed:
  assumes "coordLive sc s c" and "undisturbed (cConn c) (cRunID c) s s'" shows "coordLive sc s' c"
proof -
  obtain session where c: "cConn c = Some session"
    "\<forall>e \<in> set (cEntities c). \<exists>k. scLockKey sc e = Inr k \<and> (k, session) \<in> set (svLocks s)"
    "runIsActive (cRunID c) (dbLedger (svDB s))"
    "\<forall>d \<in> set (runDumps (dbLedger (svDB s))). duRun d = cRunID c \<longrightarrow> duEntity d \<in> set (cEntities c)"
    using assms(1) by (auto simp: coordLive_def)
  have "\<forall>e \<in> set (cEntities c). \<exists>k. scLockKey sc e = Inr k \<and> (k, session) \<in> set (svLocks s')"
    using c(1,2) assms(2) unfolding undisturbed_def by metis
  moreover have "\<forall>d \<in> set (runDumps (dbLedger (svDB s'))). duRun d = cRunID c \<longrightarrow> duEntity d \<in> set (cEntities c)"
    using c(4) assms(2) unfolding undisturbed_def by metis
  ultimately show ?thesis using c(1,3) assms(2) by (auto simp: coordLive_def undisturbed_def)
qed

text \<open>A step of process \<open>i\<close> keeps the invariant if it leaves a good coordinator behind and disturbs
  no other.\<close>

lemma worldOK_update:
  assumes ok: "worldOK sc w" and db: "dbOK (svDB s')" and one: "oneHolder (svLocks s')"
    and mine: "if cRunID c' = 0 then idle c' else coordLive sc s' c'"
    and conn: "cConn c' \<noteq> None \<Longrightarrow> \<forall>j. j \<noteq> i \<longrightarrow> cConn (wCoord w j) \<noteq> cConn c'"
    and rid: "cRunID c' \<noteq> 0 \<Longrightarrow> \<forall>j. j \<noteq> i \<longrightarrow> cRunID (wCoord w j) \<noteq> cRunID c'"
    and other: "\<And>j. j \<noteq> i \<Longrightarrow> cRunID (wCoord w j) \<noteq> 0 \<Longrightarrow>
      undisturbed (cConn (wCoord w j)) (cRunID (wCoord w j)) (wServer w) s'"
  shows "worldOK sc (w\<lparr>wServer := s', wCoord := (wCoord w)(i := c')\<rparr>)"
proof -
  let ?w = "w\<lparr>wServer := s', wCoord := (wCoord w)(i := c')\<rparr>"
  have each: "if cRunID (wCoord ?w j) = 0 then idle (wCoord ?w j) else coordLive sc (wServer ?w) (wCoord ?w j)" for j
  proof (cases "j = i")
    case False
    have old: "if cRunID (wCoord w j) = 0 then idle (wCoord w j) else coordLive sc (wServer w) (wCoord w j)"
      using ok by (simp add: worldOK_def)
    show ?thesis
    proof (cases "cRunID (wCoord w j) = 0")
      case True
      then show ?thesis using old False by simp
    next
      case live: False
      then show ?thesis using old coordLive_undisturbed [OF _ other [OF False live]] False by simp
    qed
  qed (use mine in simp)
  have conns: "cConn (wCoord ?w j) \<noteq> cConn (wCoord ?w k)" if "j \<noteq> k" "cConn (wCoord ?w j) \<noteq> None" for j k
    using that conn ok unfolding worldOK_def by (cases "j = i"; cases "k = i") auto
  have rids: "cRunID (wCoord ?w j) \<noteq> cRunID (wCoord ?w k)" if "j \<noteq> k" "cRunID (wCoord ?w j) \<noteq> 0" for j k
    using that rid ok unfolding worldOK_def by (cases "j = i"; cases "k = i") auto
  show ?thesis
    unfolding worldOK_def
  proof (intro conjI allI impI)
    show "dbOK (svDB (wServer ?w))" "oneHolder (svLocks (wServer ?w))" using db one by simp_all
  qed (rule each, rule conns, assumption+, rule rids, assumption+)
qed

lemma undisturbed_refl: "svLocks s' = svLocks s \<Longrightarrow> dbLedger (svDB s') = dbLedger (svDB s) \<Longrightarrow> undisturbed conn rid s s'"
  by (auto simp: undisturbed_def)

text \<open>The tables of an import only grow progress: runs and dump keys stay.\<close>

lemma tables_undisturbed:
  assumes "runs l' = runs (dbLedger (svDB s))" and "map dumpKey (runDumps l') = map dumpKey (runDumps (dbLedger (svDB s)))"
  shows "undisturbed conn rid s (withTables (l', x) s)"
proof -
  have "\<exists>d0 \<in> set (runDumps (dbLedger (svDB s))). duRun d0 = duRun d \<and> duEntity d0 = duEntity d" if "d \<in> set (runDumps l')" for d
    using map_eq_mem [OF assms(2) that] by (auto simp: dumpKey_def)
  then show ?thesis using assms(1) by (auto simp: undisturbed_def withTables_def runIsActive_def)
qed

lemma executeChunk_tables:
  assumes "executeChunk fl now ord chunk write (l, c) = (r, (l', c'))"
  shows "runs l' = runs l \<and> map dumpKey (runDumps l') = map dumpKey (runDumps l)"
  using assms
proof (cases rule: executeChunk_cases)
  case written
  then show ?thesis
    using recordCompletedChunk_Inr [of fl now ord chunk l "()" l']
    by (cases "oRunID ord = 0") (simp_all add: updateWhere_keys dumpKey_def [abs_def])
qed simp_all

lemma completeEntityProgress_tables:
  assumes "completeEntityProgress fl now ord ti tc l = (r, l')"
  shows "runs l' = runs l \<and> map dumpKey (runDumps l') = map dumpKey (runDumps l)"
  using assms
  by (auto simp: completeEntityProgress_def sql_def Let_def updateWhere_keys dumpKey_def [abs_def] split: if_splits)

section \<open>Prepare next to a live run\<close>

text \<open>The admission of entity types other than those of an active run leaves that run alone.\<close>

definition keepsRun :: "int \<Rightarrow> ledger \<Rightarrow> ledger \<Rightarrow> bool" where
  "keepsRun rid l l' \<longleftrightarrow> runIsActive rid l' \<and>
     (\<forall>d \<in> set (runDumps l'). duRun d = rid \<longrightarrow> (\<exists>d0 \<in> set (runDumps l). duRun d0 = rid \<and> duEntity d0 = duEntity d))"

lemma active_id: "runIsActive rid l \<Longrightarrow> rid \<in> rnID ` set (runs l)"
  by (auto simp: runIsActive_def)

lemma admit_keepsRun:
  assumes adm: "admit sc fl now version plan chunkSize force allow db = (Inr p, db')" and sc: "schemaOK sc"
    and act: "runIsActive rid (dbLedger db)"
    and disjoint: "\<forall>d \<in> set (runDumps (dbLedger db)). duRun d = rid \<longrightarrow> duEntity d \<notin> set (apOrdered plan)"
  shows "keepsRun rid (dbLedger db) (dbLedger db')"
proof -
  have rec: "runIsActive rid (abandonRuns now (apOrdered plan) (dbLedger db))"
    using act disjoint by (auto simp: abandonRuns_active)
  from adm show ?thesis
  proof (cases rule: admit_Inr)
    case (skipped db1 k)
    from skipped(4) obtain i db2 u where c: "(if cmExact k = 0
        then consolidateSuccessfulImportRun sc fl now (apFingerprint plan) version (int (length (apDumps plan)))
        else ret (cmExact k)) db1 = (Inr i, db2)" and m: "markCatalogStatesReady fl now i (apOrdered plan) db2 = (Inr u, db')"
      by (auto simp: skipAdmission_def andThen_Inr_iff)
    have same: "dbLedger db' = dbLedger db2" by (rule sameLedgerD [OF sameLedger_marks(2) m])
    show ?thesis
    proof (cases "cmExact k = 0")
      case False
      then show ?thesis using c rec same skipped(1) by (auto simp: keepsRun_def)
    next
      case True
      then have "consolidateSuccessfulImportRun sc fl now (apFingerprint plan) version (int (length (apDumps plan))) db1 = (Inr i, db2)"
        using c by simp
      then show ?thesis
      proof (cases rule: consolidate_Inr)
        case (1 r rows)
        have "freshRun (scNextRun sc db1) (dbLedger db1)" using sc by (simp add: schemaOK_def)
        then have "rid \<noteq> scNextRun sc db1" using active_id [OF rec] skipped(1) unfolding freshRun_def by metis
        then show ?thesis using 1 rec same skipped(1) by (auto simp: keepsRun_def runIsActive_def)
      qed
    qed
  next
    case (begun db1 dumpIDs k)
    from begun(6) show ?thesis
    proof (cases rule: startAdmission_Inr)
      case (started resumed i db2)
      let ?l = "startedLedger sc i (apFingerprint plan) force allow version resumed chunkSize
          (zip (apDumps plan) (zip dumpIDs (apRevisions plan))) (dbLedger db1)"
      have "freshRun i (dbLedger db1)" using sc started(2) by (simp add: schemaOK_def)
      then have ne: "rid \<noteq> i" using active_id [OF rec] begun(1) by (auto simp: freshRun_def)
      have end': "dbLedger db' = (if resumed = 0 then ?l else transferChunks resumed i ?l)"
        using started_states [OF started(11)] started(6) by (simp add: Let_def)
      have keys: "map dumpKey (runDumps (dbLedger db')) = map dumpKey (runDumps ?l)"
        unfolding end' by (auto simp: transferChunks_def copySummaries_def dumpKey_def split: option.splits)
      have "runIsActive rid (dbLedger db')"
        using rec begun(1) unfolding end' by (auto simp: runIsActive_def startedLedger_def)
      moreover have "\<exists>d0 \<in> set (runDumps (dbLedger db)). duRun d0 = rid \<and> duEntity d0 = duEntity d"
        if d: "d \<in> set (runDumps (dbLedger db'))" "duRun d = rid" for d
      proof -
        from map_eq_mem [OF keys d(1)] obtain d0 where "d0 \<in> set (runDumps ?l)" "duRun d0 = rid" "duEntity d0 = duEntity d"
          using d(2) by (auto simp: dumpKey_def)
        moreover from this have "d0 \<in> set (runDumps (dbLedger db1))"
          using ne by (auto simp: startedLedger_def newDumpRow_def)
        ultimately show ?thesis using begun(1) by auto
      qed
      ultimately show ?thesis by (simp add: keepsRun_def)
    qed
  qed
qed

text \<open>The locks after \<open>Prepare\<close>: other sessions keep theirs, and no lock has two holders.\<close>

lemma prepare_locks:
  assumes run: "prepare sc fl now session dumps chunkSize force allow (c, s) = (r, (c', s'))" and one: "oneHolder (svLocks s)"
  shows "oneHolder (svLocks s') \<and> (\<forall>k h. h \<noteq> session \<longrightarrow> ((k, h) \<in> set (svLocks s') \<longleftrightarrow> (k, h) \<in> set (svLocks s)))"
proof -
  have grown: "oneHolder locks \<and> (\<forall>k h. h \<noteq> session \<longrightarrow> ((k, h) \<in> set locks \<longleftrightarrow> (k, h) \<in> set (svLocks s)))"
    if "set locks \<subseteq> set (svLocks s @ map (\<lambda>k. (k, session)) ks)" "\<forall>k \<in> set ks. \<forall>h. (k, h) \<in> set (svLocks s) \<longrightarrow> h = session"
      "\<forall>k h. h \<noteq> session \<longrightarrow> ((k, h) \<in> set locks \<longleftrightarrow> (k, h) \<in> set (svLocks s @ map (\<lambda>k. (k, session)) ks))" for locks ks
    using that one unfolding oneHolder_def by (auto simp: image_iff) blast+
  from run show ?thesis
  proof (cases rule: prepare_cases)
    case (refused e)
    then show ?thesis using one by simp
  next
    case (busy e plan c1 s1 x)
    from acquireEntityLocks_run [OF busy(3)] obtain ks where a: "cConn c1 = Some session"
      "svLocks s1 = svLocks s @ map (\<lambda>k. (k, session)) ks" "\<forall>k \<in> set ks. \<forall>h. (k, h) \<in> set (svLocks s) \<longrightarrow> h = session" by auto
    show ?thesis
      using release_sel(6) [OF busy(4) a(1)] unlock_subset [of fl session "svLocks s1" "rev (cLockKeys c1)"]
        unlock_other [of _ session _ fl "svLocks s1" "rev (cLockKeys c1)"] a
      by (intro grown [of _ ks]) simp_all
  next
    case (admitted ds plan c1 s1 x db)
    from acquireEntityLocks_run [OF admitted(6)] obtain ks where a: "cConn c1 = Some session"
      "svLocks s1 = svLocks s @ map (\<lambda>k. (k, session)) ks" "\<forall>k \<in> set ks. \<forall>h. (k, h) \<in> set (svLocks s) \<longrightarrow> h = session" by auto
    show ?thesis
    proof (cases "case r of Inl _ \<Rightarrow> True | Inr p \<Rightarrow> ipSkipped p")
      case True
      show ?thesis
        using release_sel(6) [OF admitted(9) [OF True] a(1)] unlock_subset [of fl session "svLocks s1" "rev (cLockKeys c1)"]
          unlock_other [of _ session _ fl "svLocks s1" "rev (cLockKeys c1)"] a
        by (intro grown [of _ ks]) simp_all
    next
      case False
      then obtain p where "r = Inr p" "\<not> ipSkipped p" by (cases r) auto
      from admitted(10) [OF this] show ?thesis using a by (intro grown [of _ ks]) simp_all
    qed
  qed
qed

lemma prepare_undisturbed:
  assumes run: "prepare sc fl now session dumps chunkSize force allow (c, s) = (r, (c', s'))" and one: "oneHolder (svLocks s)"
    and sc: "schemaOK sc" and lt: "lockTypesOK sc" and live: "coordLive sc s cj" and other: "cConn cj \<noteq> Some session"
  shows "undisturbed (cConn cj) (cRunID cj) s s'"
proof -
  obtain h where h: "cConn cj = Some h" "\<forall>e \<in> set (cEntities cj). \<exists>k. scLockKey sc e = Inr k \<and> (k, h) \<in> set (svLocks s)"
    "runIsActive (cRunID cj) (dbLedger (svDB s))"
    "\<forall>d \<in> set (runDumps (dbLedger (svDB s))). duRun d = cRunID cj \<longrightarrow> duEntity d \<in> set (cEntities cj)"
    using live by (auto simp: coordLive_def)
  have ne: "h \<noteq> session" using h(1) other by auto
  have locks: "(k, h) \<in> set (svLocks s) \<Longrightarrow> (k, h) \<in> set (svLocks s')" for k using prepare_locks [OF run one] ne by blast
  have "keepsRun (cRunID cj) (dbLedger (svDB s)) (dbLedger (svDB s'))"
  proof -
    have trivial: "keepsRun (cRunID cj) (dbLedger (svDB s)) (dbLedger (svDB s))" using h(3) by (auto simp: keepsRun_def)
    from run show ?thesis
    proof (cases rule: prepare_cases)
      case (refused e)
      then show ?thesis using trivial by simp
    next
      case (busy e plan c1 s1 x)
      then show ?thesis using acquireEntityLocks_run [OF busy(3)] trivial release_sel(1) [OF busy(4)] by auto
    next
      case (admitted ds plan c1 s1 x db)
      from acquireEntityLocks_run [OF admitted(6)] obtain ks where a: "cConn c1 = Some session"
        "map (scLockKey sc) (apLockTypes plan) = map Inr ks" "\<forall>k \<in> set ks. \<forall>h. (k, h) \<in> set (svLocks s) \<longrightarrow> h = session" by auto
      have end': "svDB s' = db"
      proof (cases "case r of Inl _ \<Rightarrow> True | Inr p \<Rightarrow> ipSkipped p")
        case True
        from release_sel(1) [OF admitted(9) [OF True] a(1)] show ?thesis by simp
      next
        case False
        then obtain p where "r = Inr p" "\<not> ipSkipped p" by (cases r) auto
        from admitted(10) [OF this] show ?thesis by simp
      qed
      show ?thesis
      proof (cases r)
        case (Inl e)
        have "db = svDB s" by (rule coordTx_Inl [OF admitted(7) [unfolded Inl]])
        then show ?thesis using trivial end' by simp
      next
        case (Inr p)
        have "duEntity d \<notin> set (apOrdered plan)" if d: "d \<in> set (runDumps (dbLedger (svDB s)))" "duRun d = cRunID cj" for d
        proof
          assume "duEntity d \<in> set (apOrdered plan)"
          then have "duEntity d \<in> set (apLockTypes plan)"
            using lt resolvePlan_Inr(4) [OF admitted(5)] unfolding lockTypesOK_def by blast
          then have "scLockKey sc (duEntity d) \<in> set (map Inr ks)" unfolding a(2) [symmetric] by simp
          then obtain k where "scLockKey sc (duEntity d) = Inr k" "k \<in> set ks" by auto
          moreover obtain k' where "scLockKey sc (duEntity d) = Inr k'" "(k', h) \<in> set (svLocks s)" using h(2,4) d by blast
          ultimately show False using a(3) ne by auto
        qed
        then have disjoint: "\<forall>d \<in> set (runDumps (dbLedger (svDB s))). duRun d = cRunID cj \<longrightarrow> duEntity d \<notin> set (apOrdered plan)"
          by blast
        have "admit sc fl now (cVersion c) plan chunkSize force allow (svDB s) = (Inr p, db)"
          using admitted(7) Inr by (simp add: coordTx_Inr)
        from admit_keepsRun [OF this sc h(3) disjoint] show ?thesis unfolding end' .
      qed
    qed
  qed
  then show ?thesis using locks h(1) by (auto simp: undisturbed_def keepsRun_def)
qed

section \<open>Every step keeps the invariant\<close>

lemma prepare_own:
  assumes run: "prepare sc fl now session dumps chunkSize force allow (c, s) = (r, (c', s'))"
    and sc: "schemaOK sc" and lt: "lockTypesOK sc" and mine: "if cRunID c = 0 then idle c else coordLive sc s c"
  shows "(c' = c \<and> s' = s) \<or> idle c' \<or>
    (coordLive sc s' c' \<and> cConn c' = Some session \<and> cRunID c' \<noteq> 0 \<and> cRunID c' \<notin> rnID ` set (runs (dbLedger (svDB s))))"
  using run
proof (cases rule: prepare_cases)
  case (busy e plan c1 s1 x)
  have "cConn c1 = Some session" using acquireEntityLocks_run [OF busy(3)] by simp
  from release_sel [OF busy(4) this] show ?thesis by (simp add: idle_def)
next
  case (admitted ds plan c1 s1 x db)
  from acquireEntityLocks_run [OF admitted(6)] obtain ks where a: "cConn c1 = Some session"
    "svLocks s1 = svLocks s @ map (\<lambda>k. (k, session)) ks" "map (scLockKey sc) (apLockTypes plan) = map Inr ks" by auto
  show ?thesis
  proof (cases "case r of Inl _ \<Rightarrow> True | Inr p \<Rightarrow> ipSkipped p")
    case True
    from release_sel [OF admitted(9) [OF True] a(1)] show ?thesis by (simp add: idle_def)
  next
    case False
    then obtain p where p: "r = Inr p" "\<not> ipSkipped p" by (cases r) auto
    have end': "c' = c1\<lparr>cRunID := ipRun p, cEntities := apOrdered plan\<rparr>" "s' = s1\<lparr>svDB := db\<rparr>"
      using admitted(10) [OF p] by simp_all
    have prep: "prepare sc fl now session dumps chunkSize force allow (c, s) = (Inr p, (c', s'))" using run p by simp
    from started_run [OF prep p(2) sc] obtain ds' types where st: "those dumps = Some ds'" "scOrdered sc (map dEntity ds') = Inr types"
      "ipRun p \<notin> rnID ` set (runs (dbLedger (svDB s)))" "runIsActive (ipRun p) (dbLedger (svDB s'))"
      "map (\<lambda>d. (duEntity d, duChunkSize d)) (dumpsOfRun (ipRun p) (dbLedger (svDB s'))) = map (\<lambda>d. (dEntity d, Some chunkSize)) ds'"
      by blast
    have ds: "ds' = ds" "types = apOrdered plan" using st(1,2) admitted(3) resolvePlan_Inr(3) [OF admitted(5)] by auto
    have pos: "ipRun p \<noteq> 0"
    proof -
      have "admit sc fl now (cVersion c) plan chunkSize force allow (svDB s) = (Inr p, db)"
        using admitted(7) p by (simp add: coordTx_Inr)
      then show ?thesis
      proof (cases rule: admit_Inr)
        case (skipped db1 k)
        then show ?thesis using p(2) by (auto simp: skipAdmission_def andThen_Inr_iff)
      next
        case (begun db1 dumpIDs k)
        from begun(6) show ?thesis
        proof (cases rule: startAdmission_Inr)
          case (started resumed rid db2)
          have "freshRun rid (dbLedger db1)" using sc started(2) by (simp add: schemaOK_def)
          then show ?thesis using started(1) by (simp add: freshRun_def)
        qed
      qed
    qed
    have keys: "\<exists>k. scLockKey sc e = Inr k \<and> (k, session) \<in> set (svLocks s')" if "e \<in> set (apOrdered plan)" for e
    proof -
      have "e \<in> set (apLockTypes plan)" using that lt resolvePlan_Inr(4) [OF admitted(5)] unfolding lockTypesOK_def by blast
      then have "scLockKey sc e \<in> set (map Inr ks)" unfolding a(3) [symmetric] by simp
      then show ?thesis using a(2) end'(2) by auto
    qed
    have ent: "duEntity d \<in> set (apOrdered plan)" if d: "d \<in> set (runDumps (dbLedger (svDB s')))" "duRun d = ipRun p" for d
    proof -
      have "d \<in> set (dumpsOfRun (ipRun p) (dbLedger (svDB s')))" using d by (simp add: dumpsOfRun_def)
      from map_eq_mem [OF st(5) this] have "duEntity d \<in> set (map dEntity ds)" using ds by auto
      then show ?thesis using lt st(2) ds unfolding lockTypesOK_def by blast
    qed
    have "coordLive sc s' c'"
      unfolding coordLive_def end'(1) using keys ent st(4) a(1) by simp
    then show ?thesis using end' a(1) pos st(3) by simp
  qed
qed simp

lemma oneHolder_subset: "oneHolder locks \<Longrightarrow> set locks' \<subseteq> set locks \<Longrightarrow> oneHolder locks'"
  unfolding oneHolder_def by blast

lemma world_live:
  "worldOK sc w \<Longrightarrow> cRunID (wCoord w j) \<noteq> 0 \<Longrightarrow> coordLive sc (wServer w) (wCoord w j)"
  unfolding worldOK_def by metis

lemma prepare_world:
  assumes ok: "worldOK sc w" and sc: "schemaOK sc" and lt: "lockTypesOK sc"
    and fresh: "\<And>j. j \<noteq> i \<Longrightarrow> cConn (wCoord w j) \<noteq> Some session"
    and run: "prepare sc fl now session dumps chunkSize force allow (wCoord w i, wServer w) = (r, (c', s'))"
  shows "worldOK sc (w\<lparr>wServer := s', wCoord := (wCoord w)(i := c')\<rparr>)"
proof -
  have db: "dbOK (svDB (wServer w))" and one: "oneHolder (svLocks (wServer w))"
    and mine: "if cRunID (wCoord w i) = 0 then idle (wCoord w i) else coordLive sc (wServer w) (wCoord w i)"
    and conns: "\<And>j. j \<noteq> i \<Longrightarrow> cConn (wCoord w i) \<noteq> None \<Longrightarrow> cConn (wCoord w i) \<noteq> cConn (wCoord w j)"
    and rids: "\<And>j. j \<noteq> i \<Longrightarrow> cRunID (wCoord w i) \<noteq> 0 \<Longrightarrow> cRunID (wCoord w i) \<noteq> cRunID (wCoord w j)"
    using ok unfolding worldOK_def by auto
  note own = prepare_own [OF run sc lt mine]
  have used: "cRunID (wCoord w j) \<noteq> 0 \<Longrightarrow> cRunID (wCoord w j) \<in> rnID ` set (runs (dbLedger (svDB (wServer w))))" for j
    using world_live [OF ok] active_id unfolding coordLive_def by blast
  show ?thesis
  proof (rule worldOK_update [OF ok])
    show "dbOK (svDB s')" by (rule prepare_dbOK [OF run db sc])
    show "oneHolder (svLocks s')" using prepare_locks [OF run one] by blast
    show "if cRunID c' = 0 then idle c' else coordLive sc s' c'" using own mine by (auto simp: idle_def)
    show "\<forall>j. j \<noteq> i \<longrightarrow> cConn (wCoord w j) \<noteq> cConn c'" if "cConn c' \<noteq> None"
      using own that conns fresh unfolding idle_def by metis
    show "\<forall>j. j \<noteq> i \<longrightarrow> cRunID (wCoord w j) \<noteq> cRunID c'" if "cRunID c' \<noteq> 0"
      using own that rids used unfolding idle_def by metis
    show "undisturbed (cConn (wCoord w j)) (cRunID (wCoord w j)) (wServer w) s'" if "j \<noteq> i" "cRunID (wCoord w j) \<noteq> 0" for j
      by (rule prepare_undisturbed [OF run one sc lt world_live [OF ok that(2)] fresh [OF that(1)]])
  qed
qed

lemma complete_world:
  assumes ok: "worldOK sc w" and run: "complete sc fl now runErr (wCoord w i, wServer w) = (r, (c', s'))"
  shows "worldOK sc (w\<lparr>wServer := s', wCoord := (wCoord w)(i := c')\<rparr>)"
proof (cases "cRunID (wCoord w i) = 0")
  case True
  then have "c' = wCoord w i" "s' = wServer w" using run by (simp_all add: complete_def)
  then show ?thesis using ok by simp
next
  case False
  let ?c = "wCoord w i" and ?s = "wServer w"
  obtain session where c: "cConn ?c = Some session" using world_live [OF ok False] by (auto simp: coordLive_def)
  have db: "dbOK (svDB ?s)" and one: "oneHolder (svLocks ?s)"
    and others: "\<And>j. j \<noteq> i \<Longrightarrow> cConn (wCoord w j) \<noteq> Some session" "\<And>j. j \<noteq> i \<Longrightarrow> cRunID (wCoord w j) \<noteq> cRunID ?c"
    using ok c False unfolding worldOK_def by (metis option.distinct(1))+
  obtain db' where rel: "release fl (?c, ?s\<lparr>svDB := db'\<rparr>) = (c', s')"
    and l': "db' = svDB ?s \<or> (\<exists>reason. runs (dbLedger db') = runs (endRun now (cRunID ?c) reason (dbLedger (svDB ?s))) \<and>
       runDumps (dbLedger db') = runDumps (dbLedger (svDB ?s)))"
    using run c False
  proof (cases rule: complete_cases)
    case (undone e)
    then show ?thesis using that [of "svDB ?s"] by simp
  next
    case (ended db)
    from ended(1) show ?thesis
    proof (cases rule: completionBody_Inr)
      case (succeeded P)
      then show ?thesis using that [OF ended(2)] by auto
    next
      case (failed m)
      then show ?thesis using that [OF ended(2)] by auto
    qed
  qed
  note sel = release_sel [OF rel c]
  show ?thesis
  proof (rule worldOK_update [OF ok])
    show "dbOK (svDB s')" by (rule complete_dbOK [OF run db])
    show "oneHolder (svLocks s')" using sel(6) unlock_subset oneHolder_subset [OF one] by simp
    show "if cRunID c' = 0 then idle c' else coordLive sc s' c'" using sel by (simp add: idle_def)
    show "undisturbed (cConn (wCoord w j)) (cRunID (wCoord w j)) ?s s'" if j: "j \<noteq> i" "cRunID (wCoord w j) \<noteq> 0" for j
    proof -
      have "(k, h) \<in> set (svLocks s')" if "(k, h) \<in> set (svLocks ?s)" "Some h = cConn (wCoord w j)" for k h
      proof -
        have "h \<noteq> session" using that(2) others(1) [OF j(1)] by metis
        then show ?thesis using sel(6) that(1) unlock_other [of h session k fl "svLocks ?s" "rev (cLockKeys ?c)"] by simp
      qed
      moreover have "runIsActive (cRunID (wCoord w j)) (dbLedger (svDB ?s)) \<Longrightarrow> runIsActive (cRunID (wCoord w j)) (dbLedger (svDB s'))"
        using l' sel(1) others(2) [OF j(1)] endRun_active [of "cRunID (wCoord w j)" now "cRunID ?c"] by (auto simp: runIsActive_def)
      moreover have "runDumps (dbLedger (svDB s')) = runDumps (dbLedger (svDB ?s))" using l' sel(1) by auto
      ultimately show ?thesis by (auto simp: undisturbed_def)
    qed
  qed (use sel in simp_all)
qed

lemma tables_world:
  assumes ok: "worldOK sc w" and inv: "ledgerInv l'"
    and tables: "runs l' = runs (dbLedger (svDB (wServer w)))" "map dumpKey (runDumps l') = map dumpKey (runDumps (dbLedger (svDB (wServer w))))"
  shows "worldOK sc (w\<lparr>wServer := withTables (l', x) (wServer w)\<rparr>)"
proof -
  let ?s = "withTables (l', x) (wServer w)"
  have "worldOK sc (w\<lparr>wServer := ?s, wCoord := (wCoord w)(0 := wCoord w 0)\<rparr>)"
  proof (rule worldOK_update [OF ok])
    show "dbOK (svDB ?s)" using ok inv tables(1) by (simp add: worldOK_def dbOK_def withTables_def uniqueRuns_def)
    show "oneHolder (svLocks ?s)" using ok by (simp add: worldOK_def withTables_def)
    show "if cRunID (wCoord w 0) = 0 then idle (wCoord w 0) else coordLive sc ?s (wCoord w 0)"
      using ok coordLive_undisturbed [OF world_live [OF ok] tables_undisturbed [OF tables]] unfolding worldOK_def by metis
    show "\<forall>j. j \<noteq> 0 \<longrightarrow> cConn (wCoord w j) \<noteq> cConn (wCoord w 0)" if "cConn (wCoord w 0) \<noteq> None"
      using ok that unfolding worldOK_def by metis
    show "\<forall>j. j \<noteq> 0 \<longrightarrow> cRunID (wCoord w j) \<noteq> cRunID (wCoord w 0)" if "cRunID (wCoord w 0) \<noteq> 0"
      using ok that unfolding worldOK_def by metis
    show "undisturbed (cConn (wCoord w j)) (cRunID (wCoord w j)) (wServer w) ?s" for j
      by (rule tables_undisturbed [OF tables])
  qed
  then show ?thesis by simp
qed

lemma crash_world:
  assumes ok: "worldOK sc w"
  shows "worldOK sc (w\<lparr>wServer := closeSession (cConn (wCoord w i)) (wServer w), wCoord := (wCoord w)(i := newImportExecutionCoordinator v)\<rparr>)"
proof (rule worldOK_update [OF ok])
  let ?s = "closeSession (cConn (wCoord w i)) (wServer w)"
  have db: "svDB ?s = svDB (wServer w)" and locks: "set (svLocks ?s) \<subseteq> set (svLocks (wServer w))"
    by (auto simp: closeSession_def split: option.splits)
  show "dbOK (svDB ?s)" using ok db by (simp add: worldOK_def)
  show "oneHolder (svLocks ?s)" using oneHolder_subset [OF _ locks] ok by (simp add: worldOK_def)
  show "if cRunID (newImportExecutionCoordinator v) = 0 then idle (newImportExecutionCoordinator v)
      else coordLive sc ?s (newImportExecutionCoordinator v)" by (simp add: newCoordinator_idle) (simp add: newImportExecutionCoordinator_def)
  show "undisturbed (cConn (wCoord w j)) (cRunID (wCoord w j)) (wServer w) ?s" if "j \<noteq> i" "cRunID (wCoord w j) \<noteq> 0" for j
  proof -
    have "cConn (wCoord w j) \<noteq> None" using world_live [OF ok that(2)] by (auto simp: coordLive_def)
    then have "cConn (wCoord w j) \<noteq> cConn (wCoord w i)" using ok that(1) unfolding worldOK_def by metis
    then show ?thesis using db by (auto simp: undisturbed_def closeSession_def split: option.splits)
  qed
qed (simp_all add: newImportExecutionCoordinator_def)

lemma world_step_ok:
  assumes st: "world_step sc w w'" and ok: "worldOK sc w" and sc: "schemaOK sc" and lt: "lockTypesOK sc"
  shows "worldOK sc w'"
  using st
proof cases
  case (prepare_step i session fl now dumps chunkSize force allow r c' s')
  from prepare_world [OF ok sc lt prepare_step(2,3)] prepare_step(1) show ?thesis by simp
next
  case (complete_step fl now runErr i r c' s')
  from complete_world [OF ok complete_step(2)] complete_step(1) show ?thesis by simp
next
  case (chunk_step i ord fl now chunk "write" res t)
  obtain l' x where t: "t = (l', x)" by (cases t)
  have "ledgerInv l'" using executeChunk_inv [OF _ chunk_step(4) [unfolded t]] ok by (simp add: worldOK_def dbOK_def)
  from tables_world [OF ok this] executeChunk_tables [OF chunk_step(4) [unfolded t]] show ?thesis using chunk_step(1) t by simp
next
  case (fenced_step i ord fl "write" res t)
  have l: "fst t = dbLedger (svDB (wServer w))" using executeActiveRunTransaction_ledger fenced_step(4) by (metis snd_conv)
  have "ledgerInv (fst t)" using l ok by (simp add: worldOK_def dbOK_def)
  from tables_world [OF ok this, of "snd t"] show ?thesis unfolding fenced_step(1) l by (simp add: l [symmetric])
next
  case (entity_step i ord fl now ti tc res' l')
  have "ledgerInv l'" using completeEntityProgress_any_inv [OF _ entity_step(4)] ok by (simp add: worldOK_def dbOK_def)
  from tables_world [OF ok this] completeEntityProgress_tables [OF entity_step(4)] show ?thesis using entity_step(1) by simp
next
  case (crash_step i)
  from crash_world [OF ok] crash_step(1) show ?thesis by simp
qed

definition importWorld :: "'x schema \<Rightarrow> 'x world \<Rightarrow> bool" where
  "importWorld sc w \<longleftrightarrow> schemaOK sc \<and> lockTypesOK sc \<and> worldOK sc w"

interpretation importers: invariant_system "world_step sc" "importWorld sc" for sc :: "'x schema"
  by unfold_locales (use world_step_ok in \<open>auto simp: importWorld_def\<close>)

lemma startWorld_ok:
  assumes "dbOK (svDB s)" and "svLocks s = []" shows "worldOK sc (startWorld s versions)"
proof -
  have "idle (newImportExecutionCoordinator v) \<and> cConn (newImportExecutionCoordinator v) = None \<and> cRunID (newImportExecutionCoordinator v) = 0" for v
    using newCoordinator_idle [of v] by (simp add: idle_def)
  then show ?thesis using assms by (simp add: worldOK_def startWorld_def oneHolder_def)
qed

text \<open>C6. A live import is never taken for an abandoned one: however prepares, imports, completions
  and crashes of any number of processes interleave, the run of every process that still has its
  coordinator open is active, and no two of them import the same entity type.\<close>

theorem live_run_never_abandoned:
  assumes "(world_step sc)\<^sup>*\<^sup>* (startWorld s versions) w" and "schemaOK sc" and "lockTypesOK sc"
    and "dbOK (svDB s)" and "svLocks s = []"
  shows "(\<forall>i. cRunID (wCoord w i) = 0 \<or> runIsActive (cRunID (wCoord w i)) (dbLedger (svDB (wServer w)))) \<and>
    (\<forall>i j e. i \<noteq> j \<and> cRunID (wCoord w i) \<noteq> 0 \<and> cRunID (wCoord w j) \<noteq> 0 \<and> e \<in> set (cEntities (wCoord w i)) \<longrightarrow>
       e \<notin> set (cEntities (wCoord w j)))"
proof -
  have "importWorld sc w"
    using importers.reach_ok [OF assms(1)] startWorld_ok [OF assms(4,5)] assms(2,3) by (simp add: importWorld_def)
  then have ok: "worldOK sc w" by (simp add: importWorld_def)
  have live: "\<And>i. cRunID (wCoord w i) \<noteq> 0 \<Longrightarrow> coordLive sc (wServer w) (wCoord w i)" using world_live [OF ok] .
  have disjoint: "e \<notin> set (cEntities (wCoord w j))"
    if h: "i \<noteq> j" "cRunID (wCoord w i) \<noteq> 0" "cRunID (wCoord w j) \<noteq> 0" "e \<in> set (cEntities (wCoord w i))" for i j e
  proof
    assume e: "e \<in> set (cEntities (wCoord w j))"
    obtain a ka where a: "cConn (wCoord w i) = Some a" "scLockKey sc e = Inr ka" "(ka, a) \<in> set (svLocks (wServer w))"
      using live [OF h(2)] h(4) unfolding coordLive_def by blast
    obtain b kb where b: "cConn (wCoord w j) = Some b" "scLockKey sc e = Inr kb" "(kb, b) \<in> set (svLocks (wServer w))"
      using live [OF h(3)] e unfolding coordLive_def by blast
    have "a = b" using a b ok unfolding worldOK_def oneHolder_def by auto
    moreover have "cConn (wCoord w i) \<noteq> cConn (wCoord w j)" using ok h(1) a(1) unfolding worldOK_def by (metis option.distinct(1))
    ultimately show False using a(1) b(1) by simp
  qed
  have "runIsActive (cRunID (wCoord w i)) (dbLedger (svDB (wServer w)))" if "cRunID (wCoord w i) \<noteq> 0" for i
    using live [OF that] by (auto simp: coordLive_def)
  then show ?thesis using disjoint by blast
qed

lemma demoSchema_locks: "lockTypesOK demoSchema"
  by (simp add: lockTypesOK_def demoSchema_def)

theorem live_run_never_abandoned_witness:
  "runIsActive 1 (dbLedger (svDB (wServer ((startWorld demoServer (\<lambda>_. []))\<lparr>wServer := serverOf demoPrepare,
     wCoord := (\<lambda>i. newImportExecutionCoordinator [])(0 := coordOf demoPrepare)\<rparr>))))"
proof -
  let ?w = "startWorld demoServer (\<lambda>_. [])"
  let ?v = "?w\<lparr>wServer := serverOf demoPrepare, wCoord := (\<lambda>i. newImportExecutionCoordinator [])(0 := coordOf demoPrepare)\<rparr>"
  have "world_step demoSchema ?w (?w\<lparr>wServer := serverOf demoPrepare, wCoord := (wCoord ?w)(0 := coordOf demoPrepare)\<rparr>)"
  proof (rule world_step.prepare_step)
    show "prepare demoSchema noFault 5 1 [Some demoDump] 2 False False (wCoord ?w 0, wServer ?w) =
        (Inr \<lparr>ipManifest = ''m'', ipRun = 1, ipResumedFrom = 0, ipSkipped = False\<rparr>, (coordOf demoPrepare, serverOf demoPrepare))"
      using demo_prepare_run by (simp add: startWorld_def)
  qed (simp add: startWorld_def newImportExecutionCoordinator_def)
  then have "(world_step demoSchema)\<^sup>*\<^sup>* ?w ?v" by (simp add: startWorld_def r_into_rtranclp)
  moreover have "dbOK (svDB demoServer)"
    by (simp add: dbOK_def ledgerInv_def uniqueDumps_def uniqueChunks_def progressCounted_def uniqueRuns_def demoServer_def)
  moreover have "svLocks demoServer = []" by (simp add: demoServer_def)
  ultimately have "cRunID (wCoord ?v 0) = 0 \<or> runIsActive (cRunID (wCoord ?v 0)) (dbLedger (svDB (wServer ?v)))"
    using live_run_never_abandoned [OF _ demoSchema_OK demoSchema_locks] by blast
  then show ?thesis using demo_coord(2) by simp
qed

end
