(* ===== verification/Batch_Write.thy ===== *)
theory Batch_Write
  imports Ledger Rows
begin

text \<open>
  The write path of \<open>src/batch/writer.go\<close> and \<open>src/batch/insert.go\<close>, \<open>extract.go\<close>: rows go to a
  table in multi-row inserts of at most 65535 bind parameters, each with the conflict clause of
  its table. An insert is the PostgreSQL statement, row by row: a row that collides on the
  conflict columns is skipped, or updates the existing row when one of its business columns
  differs; a statement that would update one row twice is an error.

  The number of columns of a table belongs to the generated schema module and is a parameter, and
  so is the plan of statements that fail. The contract \<open>insert_clause\<close> gives every clause the
  meaning \<open>mergeRows\<close>, and batching has no influence on it.
\<close>

section \<open>Conflict clauses\<close>

record 'r onConflict =
  ocSame :: "'r \<Rightarrow> 'r \<Rightarrow> bool"
  ocUpdate :: "('r \<Rightarrow> 'r \<Rightarrow> 'r) option"
  ocWhere :: "'r \<Rightarrow> 'r \<Rightarrow> bool"

text \<open>A clause is given the conflict columns of a row; \<open>updateWhenChanged\<close> also its business columns
  and the assignment of \<open>excluded\<close> to the current row.\<close>

definition doNothing :: "('r \<Rightarrow> 'k) \<Rightarrow> 'r onConflict" where
  "doNothing columns =
     \<lparr>ocSame = (\<lambda>current excluded. columns current = columns excluded), ocUpdate = None,
      ocWhere = (\<lambda>_ _. True)\<rparr>"

definition updateWhenChanged :: "('r \<Rightarrow> 'k) \<Rightarrow> ('r \<Rightarrow> 'b) \<Rightarrow> ('r \<Rightarrow> 'r \<Rightarrow> 'r) \<Rightarrow> 'r onConflict" where
  "updateWhenChanged columns business assign =
     \<lparr>ocSame = (\<lambda>current excluded. columns current = columns excluded), ocUpdate = Some assign,
      ocWhere = (\<lambda>current excluded. business current \<noteq> business excluded)\<rparr>"

record 'r tableSpec =
  tsName :: string
  tsClause :: "'r onConflict"

section \<open>Insert statements\<close>

text \<open>The rows of one statement in turn; \<open>touched\<close> are those it has inserted or updated.\<close>

fun insertRows :: "'r onConflict \<Rightarrow> 'r list \<Rightarrow> int \<Rightarrow> 'r list \<Rightarrow> 'r list \<Rightarrow> string + int \<times> 'r list" where
  "insertRows cl touched n [] rows = Inr (n, rows)"
| "insertRows cl touched n (r # rs) rows =
     (if \<exists>e \<in> set rows. ocSame cl e r then
        (case ocUpdate cl of
           None \<Rightarrow> insertRows cl touched n rs rows
         | Some assign \<Rightarrow>
             if \<exists>t \<in> set touched. ocSame cl t r
             then Inl ''ON CONFLICT DO UPDATE command cannot affect row a second time''
             else if \<exists>e \<in> set rows. ocSame cl e r \<and> ocWhere cl e r
             then insertRows cl (r # touched) (n + 1) rs
                    (updateWhere (\<lambda>e. ocSame cl e r \<and> ocWhere cl e r) (\<lambda>e. assign e r) rows)
             else insertRows cl touched n rs rows)
      else insertRows cl (r # touched) (n + 1) rs (rows @ [r]))"

definition insertStatement :: "faultPlan \<Rightarrow> string \<Rightarrow> 'r onConflict \<Rightarrow> 'r list \<Rightarrow> 'r list writer" where
  "insertStatement fl name cl part rows =
     (if fl name then (newResult 0 (Some name), rows)
      else case insertRows cl [] 0 part rows of
        Inl e \<Rightarrow> (newResult 0 (Some e), rows)
      | Inr (n, rows') \<Rightarrow> (newResult n None, rows'))"

definition postgresBindParameterLimit :: int where
  "postgresBindParameterLimit = 65535"

definition postgresSafeBatchSize :: "int \<Rightarrow> int \<Rightarrow> string + int" where
  "postgresSafeBatchSize requested columnCount =
     (if requested < 1 then Inl ''chunk size must be positive''
      else if columnCount < 1 then Inl ''insert schema has no columns''
      else let maxRows = postgresBindParameterLimit div columnCount
        in if maxRows < 1 then Inl (''insert schema has too many columns: '' @ formatInt columnCount)
           else Inr (min requested maxRows))"

record writeEnv =
  weFault :: faultPlan
  weColumns :: "string \<Rightarrow> int"
  weNullsEqual :: bool

text \<open>The batch loop of \<open>doWrite\<close>. A batch size below one, which \<open>postgresSafeBatchSize\<close> never
  returns, would not advance; the model stops there.\<close>

definition batchName :: "string \<Rightarrow> nat \<Rightarrow> string" where
  "batchName table start = ''insert '' @ table @ '' '' @ decText start"

function doWriteFrom ::
  "writeEnv \<Rightarrow> 'r tableSpec \<Rightarrow> nat \<Rightarrow> 'r list \<Rightarrow> nat \<Rightarrow> string result \<Rightarrow> 'r list writer" where
  "doWriteFrom env tab chunkSize items start resultSum rows =
     (if start \<ge> length items \<or> isErr resultSum \<or> chunkSize = 0 then (resultSum, rows)
      else (case insertStatement (weFault env) (batchName (tsName tab) start) (tsClause tab)
                   (take chunkSize (drop start items)) rows of
              (r, rows') \<Rightarrow>
                doWriteFrom env tab chunkSize items (start + chunkSize) (sumResult resultSum (Some r)) rows'))"
  by pat_completeness auto
termination
  by (relation "measure (\<lambda>(env, tab, chunkSize, items, start, resultSum, rows). length items - start)") auto

declare doWriteFrom.simps [simp del]

definition doWrite :: "writeEnv \<Rightarrow> order \<Rightarrow> 'r tableSpec \<Rightarrow> 'r list \<Rightarrow> 'r list writer" where
  "doWrite env ord tab items rows =
     (if items = [] then (newResult 0 None, rows)
      else if weFault env (''parse insert schema '' @ tsName tab)
      then (newResult 0 (Some (''parse insert schema '' @ tsName tab)), rows)
      else case postgresSafeBatchSize (oChunkSize ord) (weColumns env (tsName tab)) of
        Inl e \<Rightarrow> (newResult 0 (Some e), rows)
      | Inr chunkSize \<Rightarrow> doWriteFrom env tab (nat chunkSize) items 0 (newResult 0 None) rows)"

section \<open>The meaning of an insert\<close>

text \<open>\<open>mergeRows\<close>: an existing row absorbs the incoming row with its key, the others are appended.
  \<open>affected\<close> is the number of rows inserted or updated.\<close>

definition incomingFor :: "('r \<Rightarrow> 'k) \<Rightarrow> 'r list \<Rightarrow> 'k \<Rightarrow> 'r option" where
  "incomingFor key items = map_of (map (\<lambda>r. (key r, r)) items)"

definition mergeRows :: "('r \<Rightarrow> 'k) \<Rightarrow> ('r \<Rightarrow> 'r \<Rightarrow> 'r) \<Rightarrow> 'r list \<Rightarrow> 'r list \<Rightarrow> 'r list" where
  "mergeRows key upd items rows =
     map (\<lambda>e. case incomingFor key items (key e) of None \<Rightarrow> e | Some r \<Rightarrow> upd e r) rows @
     filter (\<lambda>r. key r \<notin> key ` set rows) items"

definition affected :: "('r \<Rightarrow> 'k) \<Rightarrow> ('r \<Rightarrow> 'r \<Rightarrow> bool) \<Rightarrow> 'r list \<Rightarrow> 'r list \<Rightarrow> int" where
  "affected key changes items rows =
     int (length (filter (\<lambda>e. case incomingFor key items (key e) of None \<Rightarrow> False | Some r \<Rightarrow> changes e r) rows)) +
     int (length (filter (\<lambda>r. key r \<notin> key ` set rows) items))"

lemma incomingFor_Nil [simp]: "incomingFor key [] k = None"
  by (simp add: incomingFor_def)

lemma incomingFor_Cons: "incomingFor key (r # rs) k = (if key r = k then Some r else incomingFor key rs k)"
  by (simp add: incomingFor_def)

lemma incomingFor_append:
  "incomingFor key (xs @ ys) k = (case incomingFor key xs k of None \<Rightarrow> incomingFor key ys k | Some r \<Rightarrow> Some r)"
  by (simp add: incomingFor_def map_add_def split: option.split)

lemma incomingFor_None: "incomingFor key items k = None \<longleftrightarrow> k \<notin> key ` set items"
  by (induction items) (auto simp: incomingFor_Cons)

lemma incomingFor_SomeD: "incomingFor key items k = Some r \<Longrightarrow> r \<in> set items \<and> key r = k"
  by (induction items) (auto simp: incomingFor_Cons split: if_splits)

lemma incomingFor_mem: "distinct (map key items) \<Longrightarrow> r \<in> set items \<Longrightarrow> incomingFor key items (key r) = Some r"
  by (induction items) (auto simp: incomingFor_Cons)

lemma mergeRows_Nil [simp]: "mergeRows key upd [] rows = rows"
  by (simp add: mergeRows_def)

lemma affected_Nil [simp]: "affected key changes [] rows = 0"
  by (simp add: affected_def)

locale insert_clause =
  fixes cl :: "'r onConflict" and key :: "'r \<Rightarrow> 'k" and upd :: "'r \<Rightarrow> 'r \<Rightarrow> 'r" and changes :: "'r \<Rightarrow> 'r \<Rightarrow> bool"
  assumes same_key: "ocSame cl a b \<longleftrightarrow> key a = key b"
    and upd_key: "key (upd e r) = key e"
    and no_update: "ocUpdate cl = None \<Longrightarrow> upd e r = e \<and> \<not> changes e r"
    and update: "ocUpdate cl = Some assign \<Longrightarrow>
      changes e r = ocWhere cl e r \<and> upd e r = (if changes e r then assign e r else e)"
begin

lemma merge_keys: "map key (mergeRows key upd items rows) = map key rows @ map key (filter (\<lambda>r. key r \<notin> key ` set rows) items)"
  by (auto simp: mergeRows_def upd_key split: option.split)

lemma merge_key_set: "key ` set (mergeRows key upd items rows) = key ` set rows \<union> key ` set items"
  using arg_cong [OF merge_keys [of items rows], of set] by auto

lemma merge_distinct:
  "distinct (map key rows) \<Longrightarrow> distinct (map key items) \<Longrightarrow> distinct (map key (mergeRows key upd items rows))"
  by (auto simp: merge_keys distinct_map_filter) (metis imageI)

lemma merge_append:
  assumes "distinct (map key (xs @ ys))"
  shows "mergeRows key upd (xs @ ys) rows = mergeRows key upd ys (mergeRows key upd xs rows)"
proof -
  have apart: "key r \<notin> key ` set ys" if "r \<in> set xs" for r using that assms by auto
  have kept: "(case incomingFor key ys (key e') of None \<Rightarrow> e' | Some r \<Rightarrow> upd e' r) =
      (case incomingFor key (xs @ ys) (key e) of None \<Rightarrow> e | Some r \<Rightarrow> upd e r)"
    if "e' = (case incomingFor key xs (key e) of None \<Rightarrow> e | Some r \<Rightarrow> upd e r)" for e e'
  proof (cases "incomingFor key xs (key e)")
    case None
    with that show ?thesis by (cases "incomingFor key ys (key e)") (simp_all add: incomingFor_append)
  next
    case (Some r)
    then have "key e \<notin> key ` set ys" using apart [of r] incomingFor_SomeD [OF Some] by auto
    then have "incomingFor key ys (key e) = None" by (simp add: incomingFor_None)
    with Some that show ?thesis by (simp add: incomingFor_append upd_key)
  qed
  have fresh: "map (\<lambda>e. case incomingFor key ys (key e) of None \<Rightarrow> e | Some r \<Rightarrow> upd e r)
      (filter (\<lambda>r. key r \<notin> key ` set rows) xs) = filter (\<lambda>r. key r \<notin> key ` set rows) xs"
    by (rule map_idI) (use apart in \<open>simp add: incomingFor_None [THEN iffD2]\<close>)
  have "r \<in> set ys \<Longrightarrow> key r \<notin> key ` set xs" for r using assms by auto
  then have later: "r \<in> set ys \<Longrightarrow> key r \<in> key ` set (mergeRows key upd xs rows) \<longleftrightarrow> key r \<in> key ` set rows" for r
    by (simp add: merge_key_set)
  have new: "filter (\<lambda>r. key r \<notin> key ` set (mergeRows key upd xs rows)) ys = filter (\<lambda>r. key r \<notin> key ` set rows) ys"
    by (rule filter_cong [OF refl]) (simp add: later)
  show ?thesis
    unfolding mergeRows_def [of _ _ ys] mergeRows_def [of _ _ "xs @ ys"] new
    unfolding mergeRows_def map_append fresh filter_append map_map comp_def
    by (simp add: kept [OF refl])
qed

lemma affected_append:
  assumes "distinct (map key (xs @ ys))"
  shows "affected key changes (xs @ ys) rows = affected key changes xs rows + affected key changes ys (mergeRows key upd xs rows)"
proof -
  let ?c = "\<lambda>items e. case incomingFor key items (key e) of None \<Rightarrow> False | Some r \<Rightarrow> changes e r"
  let ?u = "\<lambda>e. case incomingFor key xs (key e) of None \<Rightarrow> e | Some r \<Rightarrow> upd e r"
  have apart: "key r \<notin> key ` set ys" if "r \<in> set xs" for r using that assms by auto
  have one: "(?c (xs @ ys) e \<longleftrightarrow> ?c xs e \<or> ?c ys (?u e)) \<and> \<not> (?c xs e \<and> ?c ys (?u e))" for e
  proof (cases "incomingFor key xs (key e)")
    case None
    then show ?thesis by (cases "incomingFor key ys (key e)") (simp_all add: incomingFor_append)
  next
    case (Some r)
    then have "key e \<notin> key ` set ys" using apart [of r] incomingFor_SomeD [OF Some] by auto
    then have "incomingFor key ys (key e) = None" by (simp add: incomingFor_None)
    with Some show ?thesis by (simp add: incomingFor_append upd_key)
  qed
  have old: "length (filter (?c (xs @ ys)) rows) = length (filter (?c xs) rows) + length (filter (?c ys) (map ?u rows))"
  proof (induction rows)
    case (Cons e rows)
    with one [of e] show ?case by auto
  qed simp
  have fresh: "filter (?c ys) (filter (\<lambda>r. key r \<notin> key ` set rows) xs) = []"
    using apart by (auto simp: filter_empty_conv incomingFor_None [THEN iffD2])
  have "r \<in> set ys \<Longrightarrow> key r \<notin> key ` set xs" for r using assms by auto
  then have later: "filter (\<lambda>r. key r \<notin> key ` set (mergeRows key upd xs rows)) ys = filter (\<lambda>r. key r \<notin> key ` set rows) ys"
    by (intro filter_cong [OF refl]) (simp add: merge_key_set)
  show ?thesis
    unfolding affected_def [of _ _ "xs @ ys"] affected_def [of _ _ ys] affected_def [of _ _ xs] later
    unfolding mergeRows_def filter_append length_append fresh old
    by simp
qed

lemma insertRows_merge:
  assumes "distinct (map key items)" and "distinct (map key rows)" and "key ` set touched \<inter> key ` set items = {}"
  shows "insertRows cl touched n items rows = Inr (n + affected key changes items rows, mergeRows key upd items rows)"
  using assms
proof (induction items arbitrary: touched n rows)
  case (Cons r rs)
  have split: "mergeRows key upd (r # rs) rows = mergeRows key upd rs (mergeRows key upd [r] rows)"
    "affected key changes (r # rs) rows = affected key changes [r] rows + affected key changes rs (mergeRows key upd [r] rows)"
    using merge_append [of "[r]" rs rows] affected_append [of "[r]" rs rows] Cons.prems by simp_all
  have "key r \<notin> key ` set touched" using Cons.prems by auto
  then have untouched: "\<not> (\<exists>t \<in> set touched. ocSame cl t r)" unfolding same_key by (metis imageI)
  show ?case
  proof (cases "key r \<in> key ` set rows")
    case False
    then have m: "mergeRows key upd [r] rows = rows @ [r]"
      by (auto simp: mergeRows_def incomingFor_Cons intro!: map_idI)
    have a: "affected key changes [r] rows = 1"
      using False by (auto simp: affected_def incomingFor_Cons filter_empty_conv)
    have "insertRows cl (r # touched) (n + 1) rs (rows @ [r]) =
        Inr (n + 1 + affected key changes rs (rows @ [r]), mergeRows key upd rs (rows @ [r]))"
      using Cons.prems False by (intro Cons.IH) auto
    moreover have "\<not> (\<exists>e \<in> set rows. ocSame cl e r)" using False unfolding same_key by (metis imageI)
    ultimately show ?thesis by (simp add: split m a)
  next
    case True
    then have hit: "\<exists>e \<in> set rows. ocSame cl e r" by (auto simp: same_key)
    have m: "mergeRows key upd [r] rows = map (\<lambda>e. if key e = key r then upd e r else e) rows"
      using True by (auto simp: mergeRows_def incomingFor_Cons)
    have step: "insertRows cl t k rs (mergeRows key upd [r] rows) =
        Inr (k + affected key changes rs (mergeRows key upd [r] rows), mergeRows key upd rs (mergeRows key upd [r] rows))"
      if "key ` set t \<inter> key ` set rs = {}" for t k
      using Cons.prems that by (intro Cons.IH merge_distinct) auto
    have a: "affected key changes [r] rows = (if \<exists>e \<in> set rows. key e = key r \<and> changes e r then 1 else 0)"
    proof -
      have eq: "affected key changes [r] rows = int (length (filter (\<lambda>e. key e = key r \<and> changes e r) rows))"
        using True by (simp add: affected_def incomingFor_Cons) (metis (mono_tags, opaque_lifting))
      have "length (filter (\<lambda>e. key e = key r \<and> changes e r) rows) \<le> 1"
        using \<open>distinct (map key rows)\<close> by (rule distinct_key_once)
      then show ?thesis unfolding eq by (auto simp: le_Suc_eq filter_empty_conv)
    qed
    have rest: "key ` set (r # touched) \<inter> key ` set rs = {}" using Cons.prems by auto
    have a0: "ocUpdate cl = None \<Longrightarrow> affected key changes [r] rows = 0" using a by (simp add: no_update)
    show ?thesis
    proof (cases "ocUpdate cl")
      case None
      then have "mergeRows key upd [r] rows = rows" by (auto simp: m no_update intro!: map_idI)
      moreover have "insertRows cl touched n (r # rs) rows = insertRows cl touched n rs rows" using hit None by simp
      ultimately show ?thesis using step [of touched n] rest a0 [OF None] by (simp add: split)
    next
      case (Some assign)
      have upd: "updateWhere (\<lambda>e. ocSame cl e r \<and> ocWhere cl e r) (\<lambda>e. assign e r) rows = mergeRows key upd [r] rows"
        unfolding m updateWhere_def by (rule map_cong [OF refl]) (simp add: same_key update [OF Some])
      show ?thesis
      proof (cases "\<exists>e \<in> set rows. ocSame cl e r \<and> ocWhere cl e r")
        case True
        then have "\<exists>e \<in> set rows. key e = key r \<and> changes e r" using update [OF Some] by (auto simp: same_key)
        then show ?thesis using step [OF rest, of "n + 1"] hit True untouched Some a by (simp add: split upd)
      next
        case False
        then have "\<not> (\<exists>e \<in> set rows. key e = key r \<and> changes e r)" using update [OF Some] by (auto simp: same_key)
        moreover have "mergeRows key upd [r] rows = rows"
          using False by (auto simp: m same_key update [OF Some] intro!: map_idI)
        moreover have "insertRows cl touched n (r # rs) rows = insertRows cl touched n rs rows"
          using False hit untouched Some by simp blast
        ultimately show ?thesis using step [of touched n] rest a by (simp add: split)
      qed
    qed
  qed
qed simp

text \<open>A whole write: the result of one insert of all rows, whatever the batch size.\<close>

lemma insertStatement_ok:
  assumes "insertStatement fl name cl part rows = (w, rows')" and "\<not> isErr w"
    and "distinct (map key part)" and "distinct (map key rows)"
  shows "rows' = mergeRows key upd part rows \<and> count w = affected key changes part rows"
  using assms insertRows_merge [of part rows "[]" 0]
  by (auto simp: insertStatement_def isErr_def split: if_splits)

lemma doWriteFrom_ok:
  assumes "doWriteFrom env tab n items start acc rows = (w, rows')" and "\<not> isErr w" and "0 < n"
    and "tsClause tab = cl" and "distinct (map key items)" and "distinct (map key rows)"
  shows "rows' = mergeRows key upd (drop start items) rows \<and>
    count w = count acc + affected key changes (drop start items) rows"
  using assms
proof (induction env tab n items start acc rows arbitrary: w rows' rule: doWriteFrom.induct)
  case (1 env tab n items start acc rows)
  show ?case
  proof (cases "start \<ge> length items \<or> isErr acc \<or> n = 0")
    case True
    then have "w = acc \<and> rows' = rows" using 1(2) by (simp add: doWriteFrom.simps)
    with True 1(3,4) show ?thesis by auto
  next
    case False
    obtain r rows1 where ins: "insertStatement (weFault env) (batchName (tsName tab) start) (tsClause tab)
        (take n (drop start items)) rows = (r, rows1)" by fastforce
    then have rest: "doWriteFrom env tab n items (start + n) (sumResult acc (Some r)) rows1 = (w, rows')"
      using 1(2) False by (simp add: doWriteFrom.simps)
    have ok: "\<not> isErr r"
    proof
      assume "isErr r"
      then have "doWriteFrom env tab n items (start + n) (sumResult acc (Some r)) rows1 = (sumResult acc (Some r), rows1)"
        by (simp add: doWriteFrom.simps)
      with rest \<open>isErr r\<close> 1(3) show False by auto
    qed
    have parts: "take n (drop start items) @ drop (start + n) items = drop start items"
      by (metis append_take_drop_id drop_drop add.commute)
    have dist: "distinct (map key (take n (drop start items) @ drop (start + n) items))"
      unfolding parts using 1(6) by (simp flip: drop_map)
    then have first: "rows1 = mergeRows key upd (take n (drop start items)) rows"
      "count r = affected key changes (take n (drop start items)) rows"
      using insertStatement_ok [OF ins [unfolded 1(5)] ok] 1(7) by auto
    have "distinct (map key rows1)" unfolding first(1) using dist 1(7) by (intro merge_distinct) auto
    then have "rows' = mergeRows key upd (drop (start + n) items) rows1 \<and>
        count w = count (sumResult acc (Some r)) + affected key changes (drop (start + n) items) rows1"
      using 1(1) [OF False ins [symmetric] rest] 1(3-6) by blast
    then show ?thesis
      using merge_append [OF dist, of rows] affected_append [OF dist, of rows] first unfolding parts by simp
  qed
qed

lemma doWrite_ok:
  assumes "doWrite env ord tab items rows = (w, rows')" and "\<not> isErr w"
    and "tsClause tab = cl" and "distinct (map key items)" and "distinct (map key rows)"
  shows "rows' = mergeRows key upd items rows \<and> count w = affected key changes items rows"
proof (cases "items = []")
  case True
  with assms(1) show ?thesis by (auto simp: doWrite_def)
next
  case False
  then obtain n where n: "postgresSafeBatchSize (oChunkSize ord) (weColumns env (tsName tab)) = Inr n"
    and run: "doWriteFrom env tab (nat n) items 0 (newResult 0 None) rows = (w, rows')"
    using assms(1,2) by (auto simp: doWrite_def isErr_def split: if_splits sum.splits)
  have "0 < nat n" using n by (auto simp: postgresSafeBatchSize_def Let_def split: if_splits)
  from doWriteFrom_ok [OF run assms(2) this assms(3-5)] show ?thesis by simp
qed

end

section \<open>Batches\<close>

lemma postgresSafeBatchSize_iff:
  "postgresSafeBatchSize requested columns = Inr n \<longleftrightarrow>
    1 \<le> requested \<and> 1 \<le> columns \<and> columns \<le> postgresBindParameterLimit \<and>
    n = min requested (postgresBindParameterLimit div columns)"
proof -
  have "1 \<le> columns \<Longrightarrow> postgresBindParameterLimit div columns < 1 \<longleftrightarrow> postgresBindParameterLimit < columns"
    using pos_imp_zdiv_pos_iff [of columns postgresBindParameterLimit] by auto
  then show ?thesis by (auto simp: postgresSafeBatchSize_def Let_def)
qed

text \<open>A clause settles when an absorbed row leaves nothing to change: then a row already held is not
  written again.\<close>

definition holdsAll :: "('r \<Rightarrow> 'k) \<Rightarrow> ('r \<Rightarrow> 'r \<Rightarrow> bool) \<Rightarrow> 'r list \<Rightarrow> 'r list \<Rightarrow> bool" where
  "holdsAll key changes items rows \<longleftrightarrow> (\<forall>r \<in> set items. \<exists>e \<in> set rows. key e = key r \<and> \<not> changes e r)"

text \<open>What a write of \<open>items\<close> leaves: every item is held, other rows are the old ones, no key is lost
  and none is double.\<close>

definition merged ::
  "('r \<Rightarrow> 'k) \<Rightarrow> ('r \<Rightarrow> 'r \<Rightarrow> bool) \<Rightarrow> 'r list \<Rightarrow> 'r list \<Rightarrow> 'r list \<Rightarrow> bool" where
  "merged key changes items rows rows' \<longleftrightarrow>
     holdsAll key changes items rows' \<and>
     filter (\<lambda>e. key e \<notin> key ` set items) rows' = filter (\<lambda>e. key e \<notin> key ` set items) rows \<and>
     key ` set rows' = key ` set rows \<union> key ` set items \<and> distinct (map key rows')"

locale settled_clause = insert_clause +
  assumes settled: "\<not> changes (upd e r) r"
    and same_settled: "\<not> changes r r"
begin

lemma unchanged: "\<not> changes e r \<Longrightarrow> upd e r = e"
  by (cases "ocUpdate cl") (simp_all add: no_update update)

lemma merge_merged:
  assumes "distinct (map key items)" and "distinct (map key rows)"
  shows "merged key changes items rows (mergeRows key upd items rows)"
proof -
  have "holdsAll key changes items (mergeRows key upd items rows)"
    unfolding holdsAll_def
  proof
    fix r assume r: "r \<in> set items"
    show "\<exists>e \<in> set (mergeRows key upd items rows). key e = key r \<and> \<not> changes e r"
    proof (cases "key r \<in> key ` set rows")
      case True
      then obtain e where e: "e \<in> set rows" "key e = key r" by (metis imageE)
      then have "upd e r \<in> set (mergeRows key upd items rows)"
        unfolding mergeRows_def set_append set_map
        by (intro UnI1 image_eqI [of _ _ e]) (simp_all add: incomingFor_mem [OF assms(1) r])
      then show ?thesis by (rule bexI [rotated]) (simp add: upd_key e(2) settled)
    next
      case False
      then have "r \<in> set (mergeRows key upd items rows)" using r by (simp add: mergeRows_def)
      then show ?thesis using same_settled by blast
    qed
  qed
  moreover have "filter (\<lambda>e. key e \<notin> key ` set items) (mergeRows key upd items rows) =
      filter (\<lambda>e. key e \<notin> key ` set items) rows"
  proof -
    let ?u = "\<lambda>e. case incomingFor key items (key e) of None \<Rightarrow> e | Some r \<Rightarrow> upd e r"
    have "filter (\<lambda>e. key e \<notin> key ` set items) (map ?u xs) = filter (\<lambda>e. key e \<notin> key ` set items) xs" for xs
    proof (induction xs)
      case (Cons e xs)
      show ?case
      proof (cases "incomingFor key items (key e)")
        case None
        with Cons show ?thesis by simp
      next
        case (Some r)
        then have "key e \<in> key ` set items" using incomingFor_None [of key items "key e"] by simp
        with Cons Some show ?thesis by (simp add: upd_key)
      qed
    qed simp
    then show ?thesis by (auto simp: mergeRows_def filter_empty_conv)
  qed
  ultimately show ?thesis
    using merge_distinct [OF assms(2,1)] merge_key_set unfolding merged_def by blast
qed

lemma merge_noop:
  assumes "distinct (map key items)" and "distinct (map key rows)" and held: "holdsAll key changes items rows"
  shows "mergeRows key upd items rows = rows" and "affected key changes items rows = 0"
proof -
  have none: "filter (\<lambda>r. key r \<notin> key ` set rows) items = []"
    using held unfolding holdsAll_def filter_empty_conv by (metis imageI)
  have same: "\<not> changes e r" if "e \<in> set rows" "incomingFor key items (key e) = Some r" for e r
  proof -
    have "r \<in> set items" "key r = key e" using incomingFor_SomeD [OF that(2)] by auto
    then obtain e' where e': "e' \<in> set rows" "key e' = key r" "\<not> changes e' r" using held by (auto simp: holdsAll_def)
    then have "e' = e" using distinct_map_eqD [OF assms(2) e'(1) that(1)] \<open>key r = key e\<close> by simp
    with e' show ?thesis by simp
  qed
  show "mergeRows key upd items rows = rows"
    unfolding mergeRows_def none append_Nil2
    by (rule map_idI) (use same unchanged in \<open>auto split: option.split\<close>)
  show "affected key changes items rows = 0"
    unfolding affected_def none using same by (auto simp: filter_empty_conv split: option.split)
qed

lemma doWrite_merged:
  assumes "doWrite env ord tab items rows = (w, rows')" and "\<not> isErr w"
    and "tsClause tab = cl" and "distinct (map key items)" and "distinct (map key rows)"
  shows "merged key changes items rows rows' \<and> (holdsAll key changes items rows \<longrightarrow> rows' = rows \<and> count w = 0)"
  using doWrite_ok [OF assms] merge_merged [OF assms(4,5)] merge_noop [OF assms(4,5)] by simp

lemma doWriteFrom_merged:
  assumes "doWriteFrom env tab n items 0 (newResult 0 None) rows = (w, rows')" and "\<not> isErr w" and "0 < n"
    and "tsClause tab = cl" and "distinct (map key items)" and "distinct (map key rows)"
  shows "merged key changes items rows rows' \<and> (holdsAll key changes items rows \<longrightarrow> rows' = rows \<and> count w = 0)"
  using doWriteFrom_ok [OF assms] merge_merged [OF assms(5,6)] merge_noop [OF assms(5,6)] by simp

end

lemma insert_clause_doNothing: "insert_clause (doNothing key) key (\<lambda>e r. e) (\<lambda>e r. False)"
  by unfold_locales (simp_all add: doNothing_def)

lemma insert_clause_update:
  assumes "\<And>e r. key (assign e r) = key e"
  shows "insert_clause (updateWhenChanged key business assign) key
    (\<lambda>e r. if business e \<noteq> business r then assign e r else e) (\<lambda>e r. business e \<noteq> business r)"
  by unfold_locales (simp_all add: updateWhenChanged_def assms)

lemma settled_clause_doNothing: "settled_clause (doNothing key) key (\<lambda>e r. e) (\<lambda>e r. False)"
  by (rule settled_clause.intro [OF insert_clause_doNothing]) (simp add: settled_clause_axioms_def)

lemma settled_clause_update:
  assumes "\<And>e r. key (assign e r) = key e" and "\<And>e r. business (assign e r) = business r"
  shows "settled_clause (updateWhenChanged key business assign) key
    (\<lambda>e r. if business e \<noteq> business r then assign e r else e) (\<lambda>e r. business e \<noteq> business r)"
  by (rule settled_clause.intro [OF insert_clause_update]) (simp_all add: settled_clause_axioms_def assms)

end
