(* ===== verification/Convergence.thy ===== *)
theory Convergence
  imports Batch_Write
begin

text \<open>
  \<open>src/batch/convergence.go\<close>: for the roots of a chunk, a relation table is made to hold exactly
  the rows of the chunk. \<open>findExistingRelationRoots\<close> finds the roots that have rows at all, the
  \<open>reconcile\<close> functions delete their rows that are not in the chunk and insert the chunk's rows.
  A relation is described by the columns its SQL names; \<open>unnest\<close> of parallel arrays is \<open>zip\<close>, and
  a comparison with NULL is not true.

  All six hand-written variants are shown to be one specification, \<open>reconcileBy\<close>, and the contract
  \<open>relation_table\<close> derives what they promise: \<open>converged\<close>, and no write at all when the table
  already agrees with the chunk.
\<close>

section \<open>Existing roots\<close>

type_synonym existingRelationRoots = "string \<rightharpoonup> int32 list"

definition forTable :: "existingRelationRoots \<Rightarrow> string \<Rightarrow> int32 list" where
  "forTable roots table = (case roots table of None \<Rightarrow> [] | Some ids \<Rightarrow> ids)"

text \<open>\<open>select current.parent from t current where current.parent = any(ids) group by current.parent\<close>\<close>

definition rootGroup :: "int32 list \<Rightarrow> int32 list \<Rightarrow> int32 list" where
  "rootGroup rootIDs parents = filter (\<lambda>i. i \<in> set rootIDs) (remdups parents)"

text \<open>A relation is given by its table name and the values of its parent column.\<close>

definition findExistingRelationRoots ::
  "faultPlan \<Rightarrow> int32 list \<Rightarrow> (string \<times> int32 list) list \<Rightarrow> string + existingRelationRoots" where
  "findExistingRelationRoots fl rootIDs relations =
     (if rootIDs = [] \<or> relations = [] then Inr Map.empty
      else if fl ''find existing relation roots'' then Inl ''find existing relation roots''
      else Inr (foldl (\<lambda>result (table, i). result(table \<mapsto> forTable result table @ [i])) Map.empty
                  (concat (map (\<lambda>(table, parents). map (Pair table) (rootGroup rootIDs parents)) relations))))"

lemma forTable_fold:
  "forTable (foldl (\<lambda>m (t, i). m(t \<mapsto> forTable m t @ [i])) m rows) table =
     forTable m table @ map snd (filter (\<lambda>(t, i). t = table) rows)"
  by (induction rows arbitrary: m) (auto simp: forTable_def)

lemma existing_roots:
  assumes "findExistingRelationRoots fl rootIDs relations = Inr roots" and "(table, parents) \<in> set relations"
    and "distinct (map fst relations)"
  shows "set (forTable roots table) = set rootIDs \<inter> set parents"
proof (cases "rootIDs = []")
  case True
  with assms(1) show ?thesis by (auto simp: findExistingRelationRoots_def forTable_def)
next
  case False
  have only: "map snd (filter (\<lambda>(t, i). t = table) (concat (map (\<lambda>(t, ps). map (Pair t) (rootGroup rootIDs ps)) relations))) =
      rootGroup rootIDs parents"
    using assms(2,3)
  proof (induction relations)
    case (Cons r relations)
    have none: "table \<notin> fst ` set relations \<Longrightarrow>
        filter (\<lambda>(t, i). t = table) (concat (map (\<lambda>(t, ps). map (Pair t) (rootGroup rootIDs ps)) relations)) = []"
      by (auto simp: filter_empty_conv rev_image_eqI)
    obtain t ps where r: "r = (t, ps)" by fastforce
    show ?case
    proof (cases "t = table")
      case True
      then have "table \<notin> fst ` set relations" using Cons.prems r by auto
      moreover from this have "ps = parents" using Cons.prems r True by (auto simp: rev_image_eqI)
      ultimately show ?thesis using none r True by (simp add: filter_map comp_def)
    next
      case False
      then have "filter (\<lambda>(t, i). t = table) (map (Pair t) xs) = []" for xs :: "int32 list"
        by (auto simp: filter_empty_conv)
      with False Cons r show ?thesis by auto
    qed
  qed simp
  have empty: "forTable Map.empty table = []" by (simp add: forTable_def)
  have "relations \<noteq> []" using assms(2) by auto
  with False assms(1) have "forTable roots table = rootGroup rootIDs parents"
    by (auto simp: findExistingRelationRoots_def forTable_fold only empty split: if_splits)
  then show ?thesis by (auto simp: rootGroup_def)
qed

section \<open>Relations\<close>

record 'r integerRelation =
  irTable :: string
  irParentColumn :: "'r \<Rightarrow> int32"
  irKeyColumn :: "'r \<Rightarrow> int32"

record 'r digestIntegerRelation =
  dirTable :: string
  dirParentColumn :: "'r \<Rightarrow> int32"
  dirKeyColumn :: "'r \<Rightarrow> int32"
  dirIdentityColumn :: "'r \<Rightarrow> digest option"

record 'r textRelation =
  trTable :: string
  trParentColumn :: "'r \<Rightarrow> int32"
  trKeyColumn :: "'r \<Rightarrow> string"

record 'r twoIntegerKeyRelation =
  tikTable :: string
  tikParentColumn :: "'r \<Rightarrow> int32"
  tikFirstKeyColumn :: "'r \<Rightarrow> int32"
  tikSecondKeyColumn :: "'r \<Rightarrow> int32"

record 'r digestTwoIntegerKeyRelation =
  dtkTable :: string
  dtkParentColumn :: "'r \<Rightarrow> int32"
  dtkFirstKeyColumn :: "'r \<Rightarrow> int32"
  dtkSecondKeyColumn :: "'r \<Rightarrow> int32"
  dtkIdentityColumn :: "'r \<Rightarrow> digest option"

record 'r integerNullableTextKeyRelation =
  ntkTable :: string
  ntkParentColumn :: "'r \<Rightarrow> int32"
  ntkIntegerKeyColumn :: "'r \<Rightarrow> int32"
  ntkNullableKeyColumn :: "'r \<Rightarrow> string option"

section \<open>Reconciliation\<close>

text \<open>SQL equality: NULL equals nothing.\<close>

definition sqlEq :: "'a option \<Rightarrow> 'a option \<Rightarrow> bool" where
  "sqlEq a b \<longleftrightarrow> a = b \<and> a \<noteq> None"

text \<open>The common tail of the variants: the delete, its error, then the write; the counts add up.\<close>

definition deleteThenWrite ::
  "writeEnv \<Rightarrow> order \<Rightarrow> 'r tableSpec \<Rightarrow> string \<Rightarrow> ('r \<Rightarrow> bool) \<Rightarrow> 'r list \<Rightarrow> 'r list writer" where
  "deleteThenWrite env ord tab table stale incoming rows =
     (if weFault env (''delete stale '' @ table) then (newResult 0 (Some (''delete stale '' @ table)), rows)
      else let remaining = filter (\<lambda>current. \<not> stale current) rows;
               rowsAffected = int (length rows) - int (length remaining)
        in case doWrite env ord tab incoming remaining of
             (written, rows') \<Rightarrow> (sumResult (newResult rowsAffected None) (Some written), rows'))"

definition reconcileIntegerRelation ::
  "writeEnv \<Rightarrow> order \<Rightarrow> 'r tableSpec \<Rightarrow> 'r integerRelation \<Rightarrow> bool \<Rightarrow> int32 list \<Rightarrow> 'r list
     \<Rightarrow> ('r \<Rightarrow> int32) \<Rightarrow> ('r \<Rightarrow> int32) \<Rightarrow> 'r list writer" where
  "reconcileIntegerRelation env ord tab rel deleteStale rootIDs incoming parentID key rows =
     (if \<not> deleteStale then doWrite env ord tab incoming rows
      else let parents = map parentID incoming; keys = map key incoming
        in deleteThenWrite env ord tab (irTable rel)
             (\<lambda>current. irParentColumn rel current \<in> set rootIDs \<and>
                \<not> (\<exists>(p, k) \<in> set (zip parents keys).
                     p = irParentColumn rel current \<and> k = irKeyColumn rel current)) incoming rows)"

definition reconcileDigestIntegerRelation ::
  "writeEnv \<Rightarrow> order \<Rightarrow> 'r tableSpec \<Rightarrow> 'r digestIntegerRelation \<Rightarrow> bool \<Rightarrow> int32 list \<Rightarrow> 'r list
     \<Rightarrow> ('r \<Rightarrow> int32) \<Rightarrow> ('r \<Rightarrow> int32) \<Rightarrow> ('r \<Rightarrow> digest option) \<Rightarrow> 'r list writer" where
  "reconcileDigestIntegerRelation env ord tab rel deleteStale rootIDs incoming parentID key identity rows =
     (if \<not> deleteStale then doWrite env ord tab incoming rows
      else let parents = map parentID incoming; keys = map key incoming; identities = map identity incoming
        in deleteThenWrite env ord tab (dirTable rel)
             (\<lambda>current. dirParentColumn rel current \<in> set rootIDs \<and>
                \<not> (\<exists>(p, k, d) \<in> set (zip parents (zip keys identities)).
                     p = dirParentColumn rel current \<and> k = dirKeyColumn rel current \<and>
                     sqlEq d (dirIdentityColumn rel current))) incoming rows)"

definition reconcileTextRelation ::
  "writeEnv \<Rightarrow> order \<Rightarrow> 'r tableSpec \<Rightarrow> 'r textRelation \<Rightarrow> bool \<Rightarrow> int32 list \<Rightarrow> 'r list
     \<Rightarrow> ('r \<Rightarrow> int32) \<Rightarrow> ('r \<Rightarrow> string) \<Rightarrow> 'r list writer" where
  "reconcileTextRelation env ord tab rel deleteStale rootIDs incoming parentID key rows =
     (if \<not> deleteStale then doWrite env ord tab incoming rows
      else let parents = map parentID incoming; keys = map key incoming
        in deleteThenWrite env ord tab (trTable rel)
             (\<lambda>current. trParentColumn rel current \<in> set rootIDs \<and>
                \<not> (\<exists>(p, k) \<in> set (zip parents keys).
                     p = trParentColumn rel current \<and> k = trKeyColumn rel current)) incoming rows)"

definition reconcileTwoIntegerKeyRelation ::
  "writeEnv \<Rightarrow> order \<Rightarrow> 'r tableSpec \<Rightarrow> 'r twoIntegerKeyRelation \<Rightarrow> bool \<Rightarrow> int32 list \<Rightarrow> 'r list
     \<Rightarrow> ('r \<Rightarrow> int32) \<Rightarrow> ('r \<Rightarrow> int32) \<Rightarrow> ('r \<Rightarrow> int32) \<Rightarrow> 'r list writer" where
  "reconcileTwoIntegerKeyRelation env ord tab rel deleteStale rootIDs incoming parentID firstKey secondKey rows =
     (if \<not> deleteStale then doWrite env ord tab incoming rows
      else let parents = map parentID incoming; firstKeys = map firstKey incoming; secondKeys = map secondKey incoming
        in deleteThenWrite env ord tab (tikTable rel)
             (\<lambda>current. tikParentColumn rel current \<in> set rootIDs \<and>
                \<not> (\<exists>(p, a, b) \<in> set (zip parents (zip firstKeys secondKeys)).
                     p = tikParentColumn rel current \<and> a = tikFirstKeyColumn rel current \<and>
                     b = tikSecondKeyColumn rel current)) incoming rows)"

definition reconcileDigestTwoIntegerKeyRelation ::
  "writeEnv \<Rightarrow> order \<Rightarrow> 'r tableSpec \<Rightarrow> 'r digestTwoIntegerKeyRelation \<Rightarrow> bool \<Rightarrow> int32 list \<Rightarrow> 'r list
     \<Rightarrow> ('r \<Rightarrow> int32) \<Rightarrow> ('r \<Rightarrow> int32) \<Rightarrow> ('r \<Rightarrow> int32) \<Rightarrow> ('r \<Rightarrow> digest option) \<Rightarrow> 'r list writer" where
  "reconcileDigestTwoIntegerKeyRelation env ord tab rel deleteStale rootIDs incoming parentID firstKey secondKey identity rows =
     (if \<not> deleteStale then doWrite env ord tab incoming rows
      else let parents = map parentID incoming; firstKeys = map firstKey incoming;
               secondKeys = map secondKey incoming; identities = map identity incoming
        in deleteThenWrite env ord tab (dtkTable rel)
             (\<lambda>current. dtkParentColumn rel current \<in> set rootIDs \<and>
                \<not> (\<exists>(p, a, b, d) \<in> set (zip parents (zip firstKeys (zip secondKeys identities))).
                     p = dtkParentColumn rel current \<and> a = dtkFirstKeyColumn rel current \<and>
                     b = dtkSecondKeyColumn rel current \<and> sqlEq d (dtkIdentityColumn rel current))) incoming rows)"

definition reconcileIntegerNullableTextKeyRelation ::
  "writeEnv \<Rightarrow> order \<Rightarrow> 'r tableSpec \<Rightarrow> 'r integerNullableTextKeyRelation \<Rightarrow> bool \<Rightarrow> int32 list \<Rightarrow> 'r list
     \<Rightarrow> ('r \<Rightarrow> int32) \<Rightarrow> ('r \<Rightarrow> int32) \<Rightarrow> ('r \<Rightarrow> string option) \<Rightarrow> 'r list writer" where
  "reconcileIntegerNullableTextKeyRelation env ord tab rel deleteStale rootIDs incoming parentID integerKey nullableTextKey rows =
     (if \<not> deleteStale then doWrite env ord tab incoming rows
      else let parents = map parentID incoming; integerKeys = map integerKey incoming;
               textKeys = map (\<lambda>item. case nullableTextKey item of None \<Rightarrow> [] | Some t \<Rightarrow> t) incoming;
               hasTextKeys = map (\<lambda>item. nullableTextKey item \<noteq> None) incoming
        in deleteThenWrite env ord tab (ntkTable rel)
             (\<lambda>current. ntkParentColumn rel current \<in> set rootIDs \<and>
                \<not> (\<exists>(p, i, t, h) \<in> set (zip parents (zip integerKeys (zip textKeys hasTextKeys))).
                     p = ntkParentColumn rel current \<and> i = ntkIntegerKeyColumn rel current \<and>
                     h = (ntkNullableKeyColumn rel current \<noteq> None) \<and>
                     (\<not> h \<or> sqlEq (Some t) (ntkNullableKeyColumn rel current)))) incoming rows)"

section \<open>One specification for all variants\<close>

definition reconcileBy ::
  "writeEnv \<Rightarrow> order \<Rightarrow> 'r tableSpec \<Rightarrow> string \<Rightarrow> ('r \<Rightarrow> int32) \<Rightarrow> ('r \<Rightarrow> 'm) \<Rightarrow> int32 list \<Rightarrow> 'r list \<Rightarrow> 'r list writer" where
  "reconcileBy env ord tab table parent match roots incoming rows =
     (if roots = [] then doWrite env ord tab incoming rows
      else deleteThenWrite env ord tab table
             (\<lambda>r. parent r \<in> set roots \<and> match r \<notin> match ` set incoming) incoming rows)"

lemma zip_map_same: "zip (map f xs) (map g xs) = map (\<lambda>x. (f x, g x)) xs"
  by (simp add: zip_map_map zip_same_conv_map)

lemma reconcileBy_cong:
  assumes "\<And>r. r \<in> set rows \<Longrightarrow> parent r \<in> set roots \<Longrightarrow> listed r \<longleftrightarrow> (\<exists>x \<in> set incoming. match x = match r)"
  shows "(if \<not> length roots > 0 then doWrite env ord tab incoming rows
      else deleteThenWrite env ord tab table (\<lambda>r. parent r \<in> set roots \<and> \<not> listed r) incoming rows) =
    reconcileBy env ord tab table parent match roots incoming rows"
proof -
  have "filter (\<lambda>r. \<not> (parent r \<in> set roots \<and> \<not> listed r)) rows =
      filter (\<lambda>r. \<not> (parent r \<in> set roots \<and> match r \<notin> match ` set incoming)) rows"
    by (rule filter_cong [OF refl]) (use assms in \<open>auto simp: image_iff eq_commute\<close>)
  then show ?thesis unfolding reconcileBy_def deleteThenWrite_def by simp
qed

lemma reconcileInteger_by:
  "reconcileIntegerRelation env ord tab rel (length roots > 0) roots incoming (irParentColumn rel) (irKeyColumn rel) rows =
     reconcileBy env ord tab (irTable rel) (irParentColumn rel) (\<lambda>r. (irParentColumn rel r, irKeyColumn rel r)) roots incoming rows"
  unfolding reconcileIntegerRelation_def Let_def zip_map_same
  by (rule reconcileBy_cong) (auto simp: sqlEq_def split: option.splits)

lemma reconcileText_by:
  "reconcileTextRelation env ord tab rel (length roots > 0) roots incoming (trParentColumn rel) (trKeyColumn rel) rows =
     reconcileBy env ord tab (trTable rel) (trParentColumn rel) (\<lambda>r. (trParentColumn rel r, trKeyColumn rel r)) roots incoming rows"
  unfolding reconcileTextRelation_def Let_def zip_map_same
  by (rule reconcileBy_cong) (auto simp: sqlEq_def split: option.splits)

lemma reconcileTwoIntegerKey_by:
  "reconcileTwoIntegerKeyRelation env ord tab rel (length roots > 0) roots incoming
      (tikParentColumn rel) (tikFirstKeyColumn rel) (tikSecondKeyColumn rel) rows =
     reconcileBy env ord tab (tikTable rel) (tikParentColumn rel)
       (\<lambda>r. (tikParentColumn rel r, tikFirstKeyColumn rel r, tikSecondKeyColumn rel r)) roots incoming rows"
  unfolding reconcileTwoIntegerKeyRelation_def Let_def zip_map_same
  by (rule reconcileBy_cong) (auto simp: sqlEq_def split: option.splits)

lemma reconcileDigestInteger_by:
  assumes "\<forall>r \<in> set incoming. dirIdentityColumn rel r \<noteq> None"
  shows "reconcileDigestIntegerRelation env ord tab rel (length roots > 0) roots incoming
      (dirParentColumn rel) (dirKeyColumn rel) (dirIdentityColumn rel) rows =
     reconcileBy env ord tab (dirTable rel) (dirParentColumn rel)
       (\<lambda>r. (dirParentColumn rel r, dirKeyColumn rel r, dirIdentityColumn rel r)) roots incoming rows"
  unfolding reconcileDigestIntegerRelation_def Let_def zip_map_same
  by (rule reconcileBy_cong) (use assms in \<open>auto simp: sqlEq_def\<close>)

lemma reconcileDigestTwoInteger_by:
  assumes "\<forall>r \<in> set incoming. dtkIdentityColumn rel r \<noteq> None"
  shows "reconcileDigestTwoIntegerKeyRelation env ord tab rel (length roots > 0) roots incoming
      (dtkParentColumn rel) (dtkFirstKeyColumn rel) (dtkSecondKeyColumn rel) (dtkIdentityColumn rel) rows =
     reconcileBy env ord tab (dtkTable rel) (dtkParentColumn rel)
       (\<lambda>r. (dtkParentColumn rel r, dtkFirstKeyColumn rel r, dtkSecondKeyColumn rel r, dtkIdentityColumn rel r)) roots incoming rows"
  unfolding reconcileDigestTwoIntegerKeyRelation_def Let_def zip_map_same
  by (rule reconcileBy_cong) (use assms in \<open>auto simp: sqlEq_def\<close>)

lemma nullable_match:
  "(a \<noteq> None) = (b \<noteq> None) \<and> (\<not> a \<noteq> None \<or> sqlEq (Some (case a of None \<Rightarrow> [] | Some t \<Rightarrow> t)) b) \<longleftrightarrow> a = b"
  by (cases a) (auto simp: sqlEq_def)

lemma reconcileNullableText_by:
  "reconcileIntegerNullableTextKeyRelation env ord tab rel (length roots > 0) roots incoming
      (ntkParentColumn rel) (ntkIntegerKeyColumn rel) (ntkNullableKeyColumn rel) rows =
     reconcileBy env ord tab (ntkTable rel) (ntkParentColumn rel)
       (\<lambda>r. (ntkParentColumn rel r, ntkIntegerKeyColumn rel r, ntkNullableKeyColumn rel r)) roots incoming rows"
  unfolding reconcileIntegerNullableTextKeyRelation_def Let_def zip_map_same
  by (rule reconcileBy_cong) (simp only: set_map bex_simps prod.case nullable_match prod.inject)

section \<open>What reconciliation promises\<close>

text \<open>After reconciliation the rows of the chunk's roots are those of the chunk, row by row in the
  compared columns; rows that were already there are the old rows, with their timestamps; and the
  rows of other roots are untouched.\<close>

definition converged :: "('r \<Rightarrow> int32) \<Rightarrow> ('r \<Rightarrow> 'm) \<Rightarrow> int32 list \<Rightarrow> 'r list \<Rightarrow> 'r list \<Rightarrow> 'r list \<Rightarrow> bool" where
  "converged parent match rootIDs incoming rows rows' \<longleftrightarrow>
     filter (\<lambda>r. parent r \<notin> set rootIDs) rows' = filter (\<lambda>r. parent r \<notin> set rootIDs) rows \<and>
     match ` {r \<in> set rows'. parent r \<in> set rootIDs} = match ` set incoming \<and>
     (\<forall>r \<in> set rows. parent r \<in> set rootIDs \<longrightarrow> match r \<in> match ` set incoming \<longrightarrow> r \<in> set rows') \<and>
     set rows' \<subseteq> set rows \<union> set incoming"

locale relation_table = insert_clause cl key "\<lambda>e r. e" "\<lambda>e r. False"
  for cl :: "'r onConflict" and key :: "'r \<Rightarrow> 'k" +
  fixes parent :: "'r \<Rightarrow> int32" and match :: "'r \<Rightarrow> 'm"
  assumes key_parent: "key r = key s \<Longrightarrow> parent r = parent s"
    and match_key: "match r = match s \<Longrightarrow> key r = key s"
begin

abbreviation stale :: "int32 list \<Rightarrow> 'r list \<Rightarrow> 'r \<Rightarrow> bool" where
  "stale roots incoming \<equiv> \<lambda>r. parent r \<in> set roots \<and> match r \<notin> match ` set incoming"

lemma reconcile_ok:
  assumes "reconcileBy env ord tab table parent match roots incoming rows = (w, rows')" and "\<not> isErr w"
    and "tsClause tab = cl" and "distinct (map key incoming)" and "distinct (map key rows)"
  shows "rows' = mergeRows key (\<lambda>e r. e) incoming (filter (\<lambda>r. \<not> stale roots incoming r) rows) \<and>
    count w = int (length (filter (stale roots incoming) rows)) +
      affected key (\<lambda>e r. False) incoming (filter (\<lambda>r. \<not> stale roots incoming r) rows)"
proof (cases "roots = []")
  case True
  then show ?thesis using assms doWrite_ok [of env ord tab incoming rows w rows'] by (simp add: reconcileBy_def)
next
  case False
  let ?kept = "filter (\<lambda>r. \<not> stale roots incoming r) rows"
  obtain v where v: "doWrite env ord tab incoming ?kept = (v, rows')"
    and w: "w = sumResult (newResult (int (length rows) - int (length ?kept)) None) (Some v)"
    using assms(1,2) False
    by (auto simp: reconcileBy_def deleteThenWrite_def Let_def isErr_def split: if_splits prod.splits)
  have "\<not> isErr v" using assms(2) w by simp
  moreover have "distinct (map key ?kept)" using assms(5) by (rule distinct_map_filter)
  ultimately have "rows' = mergeRows key (\<lambda>e r. e) incoming ?kept" "count v = affected key (\<lambda>e r. False) incoming ?kept"
    using doWrite_ok [OF v _ assms(3,4)] by auto
  moreover have "int (length rows) - int (length ?kept) = int (length (filter (stale roots incoming) rows))"
    using sum_length_filter_compl [of "stale roots incoming" rows] by simp
  ultimately show ?thesis using w by simp
qed

text \<open>With the roots that have rows, and one row per key on both sides, the table converges.\<close>

lemma reconcile_converges:
  assumes run: "reconcileBy env ord tab table parent match roots incoming rows = (w, rows')" "\<not> isErr w"
    and tab: "tsClause tab = cl" and keys: "distinct (map key incoming)" "distinct (map key rows)"
    and roots: "set roots = set rootIDs \<inter> set (map parent rows)"
    and parents: "parent ` set incoming \<subseteq> set rootIDs"
  shows "converged parent match rootIDs incoming rows rows'" and "distinct (map key rows')"
proof -
  let ?kept = "filter (\<lambda>r. \<not> stale roots incoming r) rows"
  let ?new = "filter (\<lambda>r. key r \<notin> key ` set ?kept) incoming"
  have rows': "rows' = ?kept @ ?new"
    using reconcile_ok [OF run tab keys] by (auto simp: mergeRows_def split: option.split intro!: map_idI)
  have kept: "r \<in> set ?kept \<longleftrightarrow> r \<in> set rows \<and> (parent r \<in> set rootIDs \<longrightarrow> match r \<in> match ` set incoming)" for r
    using roots by auto
  have other: "filter (\<lambda>r. parent r \<notin> set rootIDs) ?kept = filter (\<lambda>r. parent r \<notin> set rootIDs) rows"
    unfolding filter_filter by (rule filter_cong [OF refl]) (use roots in auto)
  have none: "filter (\<lambda>r. parent r \<notin> set rootIDs) ?new = []"
    using parents by (auto simp: filter_empty_conv)
  have covered: "match r \<in> match ` {x \<in> set rows'. parent x \<in> set rootIDs}" if r: "r \<in> set incoming" for r
  proof (cases "key r \<in> key ` set ?kept")
    case False
    then have "r \<in> set rows'" using r rows' by simp
    then show ?thesis using r parents by auto
  next
    case True
    then obtain e where e: "e \<in> set ?kept" "key r = key e" by (blast elim!: imageE)
    have "parent r \<in> set rootIDs" using r parents by auto
    then have p: "parent e \<in> set rootIDs" using key_parent [OF e(2)] by simp
    then obtain x where x: "x \<in> set incoming" "match e = match x" using e(1) kept by blast
    have "key x = key r" using match_key [OF x(2)] e(2) by simp
    then have xr: "x = r" by (rule distinct_map_eqD [OF keys(1) x(1) r])
    have "e \<in> {x \<in> set rows'. parent x \<in> set rootIDs}" using e(1) p rows' by simp
    then have "match e \<in> match ` {x \<in> set rows'. parent x \<in> set rootIDs}" by (rule imageI)
    then show ?thesis unfolding x(2) xr .
  qed
  have bound: "match r \<in> match ` set incoming" if "r \<in> set rows'" "parent r \<in> set rootIDs" for r
  proof (cases "r \<in> set ?kept")
    case False
    then have "r \<in> set incoming" using that rows' by auto
    then show ?thesis by simp
  qed (use kept that in blast)
  have "filter (\<lambda>r. parent r \<notin> set rootIDs) rows' = filter (\<lambda>r. parent r \<notin> set rootIDs) rows"
    unfolding rows' filter_append other none by simp
  moreover have "match ` {r \<in> set rows'. parent r \<in> set rootIDs} = match ` set incoming"
    using covered bound by blast
  moreover have "set ?kept \<subseteq> set rows'" "set rows' \<subseteq> set rows \<union> set incoming" using rows' by auto
  ultimately show "converged parent match rootIDs incoming rows rows'"
    unfolding converged_def using kept by blast
  show "distinct (map key rows')"
    using reconcile_ok [OF run tab keys] merge_distinct [OF distinct_map_filter [OF keys(2)] keys(1)] by simp
qed

text \<open>A table that already holds the chunk's rows is not written at all.\<close>

lemma reconcile_noop:
  assumes run: "reconcileBy env ord tab table parent match roots incoming rows = (w, rows')" "\<not> isErr w"
    and tab: "tsClause tab = cl" and keys: "distinct (map key incoming)" "distinct (map key rows)"
    and roots: "set roots = set rootIDs \<inter> set (map parent rows)"
    and same: "match ` {r \<in> set rows. parent r \<in> set rootIDs} = match ` set incoming"
  shows "rows' = rows" and "count w = 0"
proof -
  have none: "filter (stale roots incoming) rows = []" using roots same by (auto simp: filter_empty_conv)
  then have all: "filter (\<lambda>r. \<not> stale roots incoming r) rows = rows"
    by (auto simp: filter_id_iff filter_empty_conv)
  have "key r \<in> key ` set rows" if "r \<in> set incoming" for r
  proof -
    have "match r \<in> match ` {r \<in> set rows. parent r \<in> set rootIDs}" using that same by auto
    then obtain e where "e \<in> set rows" "match r = match e" by auto
    then show ?thesis using match_key by (metis imageI)
  qed
  then have "filter (\<lambda>r. key r \<notin> key ` set rows) incoming = []" by (auto simp: filter_empty_conv)
  then show "rows' = rows" and "count w = 0"
    using reconcile_ok [OF run tab keys] unfolding all none
    by (auto simp: mergeRows_def affected_def filter_empty_conv split: option.split intro!: map_idI)
qed

end

end
