(* ===== verification/Catalog.thy ===== *)
theory Catalog
  imports Convergence Table_Dedupe
begin

text \<open>
  The catalog tables, the conflict clause of each (\<open>ExtractClause\<close> in \<open>src/batch/extract.go\<close>) and the
  columns by which \<open>artist.go\<close>, \<open>label.go\<close>, \<open>master.go\<close> and \<open>release.go\<close> reconcile each relation.
  Every table interprets the contract of its clause, every relation \<open>relation_table\<close>.

  A column named in the code is the field of the row record for it. The unique index of
  \<open>label_release_item\<close> includes a nullable column; whether NULL equals NULL there is declared by the
  schema module and is a parameter of the clause.
\<close>

section \<open>Tables\<close>

record catalog =
  tArtist :: "artistRow list"
  tLabel :: "labelRow list"
  tMaster :: "masterRow list"
  tReleaseItem :: "releaseItemRow list"
  tArtistURL :: "artistURLRow list"
  tArtistAlias :: "artistAliasRow list"
  tArtistGroup :: "artistGroupRow list"
  tArtistMember :: "artistMemberRow list"
  tArtistNameVariation :: "artistNameVariationRow list"
  tLabelURL :: "labelURLRow list"
  tLabelSubLabel :: "labelSubLabelRow list"
  tMasterArtist :: "masterArtistRow list"
  tMasterGenre :: "masterGenreRow list"
  tMasterStyle :: "masterStyleRow list"
  tMasterVideo :: "masterVideoRow list"
  tReleaseArtist :: "releaseArtistRow list"
  tReleaseCreditedArtist :: "releaseCreditedArtistRow list"
  tReleaseWork :: "releaseWorkRow list"
  tReleaseStyle :: "releaseStyleRow list"
  tReleaseGenre :: "releaseGenreRow list"
  tReleaseFormat :: "releaseFormatRow list"
  tReleaseIdentifier :: "releaseIdentifierRow list"
  tReleaseImage :: "releaseImageRow list"
  tReleaseTrack :: "releaseTrackRow list"
  tReleaseVideo :: "releaseVideoRow list"
  tLabelRelease :: "labelReleaseRow list"
  tGenre :: "genreRow list"
  tStyle :: "styleRow list"

section \<open>Conflict clauses\<close>

definition artistBusiness where
  "artistBusiness r = (arDataQuality r, arName r, arProfile r, arRealName r)"

definition artistAssign :: "artistRow \<Rightarrow> artistRow \<Rightarrow> artistRow" where
  "artistAssign current excluded =
     current\<lparr>arDataQuality := arDataQuality excluded,
     arName := arName excluded,
     arProfile := arProfile excluded,
     arRealName := arRealName excluded,
     arLastModifiedAt := arLastModifiedAt excluded\<rparr>"

definition artistTable :: "artistRow tableSpec" where
  "artistTable = \<lparr>tsName = ''artist'', tsClause = updateWhenChanged arID artistBusiness artistAssign\<rparr>"

definition labelBusiness where
  "labelBusiness r = (laContactInfo r, laDataQuality r, laName r, laProfile r)"

definition labelAssign :: "labelRow \<Rightarrow> labelRow \<Rightarrow> labelRow" where
  "labelAssign current excluded =
     current\<lparr>laContactInfo := laContactInfo excluded,
     laDataQuality := laDataQuality excluded,
     laName := laName excluded,
     laProfile := laProfile excluded,
     laLastModifiedAt := laLastModifiedAt excluded\<rparr>"

definition labelTable :: "labelRow tableSpec" where
  "labelTable = \<lparr>tsName = ''label'', tsClause = updateWhenChanged laID labelBusiness labelAssign\<rparr>"

definition masterBusiness where
  "masterBusiness r = (maDataQuality r, maTitle r, maYear r)"

definition masterAssign :: "masterRow \<Rightarrow> masterRow \<Rightarrow> masterRow" where
  "masterAssign current excluded =
     current\<lparr>maDataQuality := maDataQuality excluded,
     maTitle := maTitle excluded,
     maYear := maYear excluded,
     maLastModifiedAt := maLastModifiedAt excluded\<rparr>"

definition masterTable :: "masterRow tableSpec" where
  "masterTable = \<lparr>tsName = ''master'', tsClause = updateWhenChanged maID masterBusiness masterAssign\<rparr>"

definition releaseItemBusiness where
  "releaseItemBusiness r = (riCountry r, riDataQuality r, riHasValidDay r, riHasValidMonth r, riHasValidYear r, riIsMaster r, riMasterID r, riListedReleaseDate r, riNotes r, riReleaseDate r, riStatus r, riTitle r)"

definition releaseItemAssign :: "releaseItemRow \<Rightarrow> releaseItemRow \<Rightarrow> releaseItemRow" where
  "releaseItemAssign current excluded =
     current\<lparr>riCountry := riCountry excluded,
     riDataQuality := riDataQuality excluded,
     riHasValidDay := riHasValidDay excluded,
     riHasValidMonth := riHasValidMonth excluded,
     riHasValidYear := riHasValidYear excluded,
     riIsMaster := riIsMaster excluded,
     riMasterID := riMasterID excluded,
     riListedReleaseDate := riListedReleaseDate excluded,
     riNotes := riNotes excluded,
     riReleaseDate := riReleaseDate excluded,
     riStatus := riStatus excluded,
     riTitle := riTitle excluded,
     riLastModifiedAt := riLastModifiedAt excluded\<rparr>"

definition releaseItemTable :: "releaseItemRow tableSpec" where
  "releaseItemTable = \<lparr>tsName = ''release_item'', tsClause = updateWhenChanged riID releaseItemBusiness releaseItemAssign\<rparr>"

definition artistURLTable :: "artistURLRow tableSpec" where
  "artistURLTable = \<lparr>tsName = ''artist_url'', tsClause = doNothing (\<lambda>r. (auArtistID r, auHash r))\<rparr>"

definition artistAliasTable :: "artistAliasRow tableSpec" where
  "artistAliasTable = \<lparr>tsName = ''artist_alias'', tsClause = doNothing (\<lambda>r. (aaArtistID r, aaAliasID r))\<rparr>"

definition artistGroupTable :: "artistGroupRow tableSpec" where
  "artistGroupTable = \<lparr>tsName = ''artist_group'', tsClause = doNothing (\<lambda>r. (agArtistID r, agGroupID r))\<rparr>"

definition artistMemberTable :: "artistMemberRow tableSpec" where
  "artistMemberTable = \<lparr>tsName = ''artist_member'', tsClause = doNothing (\<lambda>r. (amArtistID r, amMemberID r))\<rparr>"

definition artistNameVariationTable :: "artistNameVariationRow tableSpec" where
  "artistNameVariationTable = \<lparr>tsName = ''artist_name_variation'', tsClause = doNothing (\<lambda>r. (avArtistID r, avHash r))\<rparr>"

definition labelURLTable :: "labelURLRow tableSpec" where
  "labelURLTable = \<lparr>tsName = ''label_url'', tsClause = doNothing (\<lambda>r. (luLabelID r, luHash r))\<rparr>"

definition labelSubLabelTable :: "labelSubLabelRow tableSpec" where
  "labelSubLabelTable = \<lparr>tsName = ''label_sub_label'', tsClause = doNothing (\<lambda>r. (lsParentLabelID r, lsSubLabelID r))\<rparr>"

definition masterArtistTable :: "masterArtistRow tableSpec" where
  "masterArtistTable = \<lparr>tsName = ''master_artist'', tsClause = doNothing (\<lambda>r. (mtMasterID r, mtArtistID r))\<rparr>"

definition masterGenreTable :: "masterGenreRow tableSpec" where
  "masterGenreTable = \<lparr>tsName = ''master_genre'', tsClause = doNothing (\<lambda>r. (mgMasterID r, mgGenre r))\<rparr>"

definition masterStyleTable :: "masterStyleRow tableSpec" where
  "masterStyleTable = \<lparr>tsName = ''master_style'', tsClause = doNothing (\<lambda>r. (msMasterID r, msStyle r))\<rparr>"

definition masterVideoTable :: "masterVideoRow tableSpec" where
  "masterVideoTable = \<lparr>tsName = ''master_video'', tsClause = doNothing (\<lambda>r. (mvMasterID r, mvHash r))\<rparr>"

definition releaseArtistTable :: "releaseArtistRow tableSpec" where
  "releaseArtistTable = \<lparr>tsName = ''release_item_artist'', tsClause = doNothing (\<lambda>r. (rtReleaseItemID r, rtArtistID r))\<rparr>"

definition releaseCreditedArtistTable :: "releaseCreditedArtistRow tableSpec" where
  "releaseCreditedArtistTable = \<lparr>tsName = ''release_item_credited_artist'', tsClause = doNothing (\<lambda>r. (rcReleaseItemID r, rcArtistID r, rcHash r))\<rparr>"

definition releaseWorkTable :: "releaseWorkRow tableSpec" where
  "releaseWorkTable = \<lparr>tsName = ''release_item_work'', tsClause = doNothing (\<lambda>r. (rwReleaseItemID r, rwLabelID r, rwHash r))\<rparr>"

definition releaseStyleTable :: "releaseStyleRow tableSpec" where
  "releaseStyleTable = \<lparr>tsName = ''release_item_style'', tsClause = doNothing (\<lambda>r. (rsReleaseItemID r, rsStyle r))\<rparr>"

definition releaseGenreTable :: "releaseGenreRow tableSpec" where
  "releaseGenreTable = \<lparr>tsName = ''release_item_genre'', tsClause = doNothing (\<lambda>r. (rgReleaseItemID r, rgGenre r))\<rparr>"

definition releaseFormatTable :: "releaseFormatRow tableSpec" where
  "releaseFormatTable = \<lparr>tsName = ''release_item_format'', tsClause = doNothing (\<lambda>r. (rfReleaseItemID r, rfHash r))\<rparr>"

definition releaseIdentifierTable :: "releaseIdentifierRow tableSpec" where
  "releaseIdentifierTable = \<lparr>tsName = ''release_item_identifier'', tsClause = doNothing (\<lambda>r. (rdReleaseItemID r, rdHash r))\<rparr>"

definition releaseImageTable :: "releaseImageRow tableSpec" where
  "releaseImageTable = \<lparr>tsName = ''release_item_image'', tsClause = doNothing (\<lambda>r. (rmReleaseItemID r, rmHash r))\<rparr>"

definition releaseTrackTable :: "releaseTrackRow tableSpec" where
  "releaseTrackTable = \<lparr>tsName = ''release_item_track'', tsClause = doNothing (\<lambda>r. (rkReleaseItemID r, rkHash r))\<rparr>"

definition releaseVideoTable :: "releaseVideoRow tableSpec" where
  "releaseVideoTable = \<lparr>tsName = ''release_item_video'', tsClause = doNothing (\<lambda>r. (rvReleaseItemID r, rvHash r))\<rparr>"

definition genreTable :: "genreRow tableSpec" where
  "genreTable = \<lparr>tsName = ''genre'', tsClause = doNothing gnName\<rparr>"

definition styleTable :: "styleRow tableSpec" where
  "styleTable = \<lparr>tsName = ''style'', tsClause = doNothing syName\<rparr>"

definition labelReleaseTable :: "bool \<Rightarrow> labelReleaseRow tableSpec" where
  "labelReleaseTable nullsEqual = \<lparr>tsName = ''label_release_item'', tsClause =
     \<lparr>ocSame = (\<lambda>current excluded. lrReleaseItemID current = lrReleaseItemID excluded \<and>
         lrLabelID current = lrLabelID excluded \<and>
         (if nullsEqual then lrCategoryNotation current = lrCategoryNotation excluded
          else sqlEq (lrCategoryNotation current) (lrCategoryNotation excluded))),
      ocUpdate = None, ocWhere = (\<lambda>_ _. True)\<rparr>\<rparr>"

section \<open>Relations\<close>

definition artistAliasRelation :: "artistAliasRow integerRelation" where
  "artistAliasRelation = \<lparr>irTable = ''artist_alias'', irParentColumn = aaArtistID, irKeyColumn = aaAliasID\<rparr>"

definition artistGroupRelation :: "artistGroupRow integerRelation" where
  "artistGroupRelation = \<lparr>irTable = ''artist_group'', irParentColumn = agArtistID, irKeyColumn = agGroupID\<rparr>"

definition artistMemberRelation :: "artistMemberRow integerRelation" where
  "artistMemberRelation = \<lparr>irTable = ''artist_member'', irParentColumn = amArtistID, irKeyColumn = amMemberID\<rparr>"

definition artistNameVariationRelation :: "artistNameVariationRow digestIntegerRelation" where
  "artistNameVariationRelation = \<lparr>dirTable = ''artist_name_variation'', dirParentColumn = avArtistID, dirKeyColumn = avHash,
     dirIdentityColumn = avIdentity\<rparr>"

definition artistURLRelation :: "artistURLRow digestIntegerRelation" where
  "artistURLRelation = \<lparr>dirTable = ''artist_url'', dirParentColumn = auArtistID, dirKeyColumn = auHash,
     dirIdentityColumn = auIdentity\<rparr>"

definition labelSubLabelRelation :: "labelSubLabelRow integerRelation" where
  "labelSubLabelRelation = \<lparr>irTable = ''label_sub_label'', irParentColumn = lsParentLabelID, irKeyColumn = lsSubLabelID\<rparr>"

definition labelURLRelation :: "labelURLRow digestIntegerRelation" where
  "labelURLRelation = \<lparr>dirTable = ''label_url'', dirParentColumn = luLabelID, dirKeyColumn = luHash,
     dirIdentityColumn = luIdentity\<rparr>"

definition masterArtistRelation :: "masterArtistRow integerRelation" where
  "masterArtistRelation = \<lparr>irTable = ''master_artist'', irParentColumn = mtMasterID, irKeyColumn = mtArtistID\<rparr>"

definition masterGenreRelation :: "masterGenreRow textRelation" where
  "masterGenreRelation = \<lparr>trTable = ''master_genre'', trParentColumn = mgMasterID, trKeyColumn = mgGenre\<rparr>"

definition masterStyleRelation :: "masterStyleRow textRelation" where
  "masterStyleRelation = \<lparr>trTable = ''master_style'', trParentColumn = msMasterID, trKeyColumn = msStyle\<rparr>"

definition masterVideoRelation :: "masterVideoRow digestIntegerRelation" where
  "masterVideoRelation = \<lparr>dirTable = ''master_video'', dirParentColumn = mvMasterID, dirKeyColumn = mvHash,
     dirIdentityColumn = mvIdentity\<rparr>"

definition releaseArtistRelation :: "releaseArtistRow integerRelation" where
  "releaseArtistRelation = \<lparr>irTable = ''release_item_artist'', irParentColumn = rtReleaseItemID, irKeyColumn = rtArtistID\<rparr>"

definition releaseCreditedArtistRelation :: "releaseCreditedArtistRow digestTwoIntegerKeyRelation" where
  "releaseCreditedArtistRelation = \<lparr>dtkTable = ''release_item_credited_artist'', dtkParentColumn = rcReleaseItemID,
     dtkFirstKeyColumn = rcArtistID, dtkSecondKeyColumn = rcHash, dtkIdentityColumn = rcIdentity\<rparr>"

definition releaseFormatRelation :: "releaseFormatRow digestIntegerRelation" where
  "releaseFormatRelation = \<lparr>dirTable = ''release_item_format'', dirParentColumn = rfReleaseItemID, dirKeyColumn = rfHash,
     dirIdentityColumn = rfIdentity\<rparr>"

definition releaseGenreRelation :: "releaseGenreRow textRelation" where
  "releaseGenreRelation = \<lparr>trTable = ''release_item_genre'', trParentColumn = rgReleaseItemID, trKeyColumn = rgGenre\<rparr>"

definition releaseIdentifierRelation :: "releaseIdentifierRow digestIntegerRelation" where
  "releaseIdentifierRelation = \<lparr>dirTable = ''release_item_identifier'', dirParentColumn = rdReleaseItemID, dirKeyColumn = rdHash,
     dirIdentityColumn = rdIdentity\<rparr>"

definition releaseStyleRelation :: "releaseStyleRow textRelation" where
  "releaseStyleRelation = \<lparr>trTable = ''release_item_style'', trParentColumn = rsReleaseItemID, trKeyColumn = rsStyle\<rparr>"

definition releaseTrackRelation :: "releaseTrackRow digestIntegerRelation" where
  "releaseTrackRelation = \<lparr>dirTable = ''release_item_track'', dirParentColumn = rkReleaseItemID, dirKeyColumn = rkHash,
     dirIdentityColumn = rkIdentity\<rparr>"

definition releaseVideoRelation :: "releaseVideoRow digestIntegerRelation" where
  "releaseVideoRelation = \<lparr>dirTable = ''release_item_video'', dirParentColumn = rvReleaseItemID, dirKeyColumn = rvHash,
     dirIdentityColumn = rvIdentity\<rparr>"

definition releaseWorkRelation :: "releaseWorkRow digestTwoIntegerKeyRelation" where
  "releaseWorkRelation = \<lparr>dtkTable = ''release_item_work'', dtkParentColumn = rwReleaseItemID,
     dtkFirstKeyColumn = rwLabelID, dtkSecondKeyColumn = rwHash, dtkIdentityColumn = rwIdentity\<rparr>"

definition labelReleaseRelation :: "labelReleaseRow integerNullableTextKeyRelation" where
  "labelReleaseRelation = \<lparr>ntkTable = ''label_release_item'', ntkParentColumn = lrReleaseItemID,
     ntkIntegerKeyColumn = lrLabelID, ntkNullableKeyColumn = lrCategoryNotation\<rparr>"

section \<open>The contracts\<close>

interpretation artistIns: settled_clause "tsClause artistTable" arID
    "\<lambda>e r. if artistBusiness e \<noteq> artistBusiness r then artistAssign e r else e" "\<lambda>e r. artistBusiness e \<noteq> artistBusiness r"
  unfolding artistTable_def tableSpec.select_convs
  by (rule settled_clause_update) (simp_all add: artistAssign_def artistBusiness_def)

interpretation labelIns: settled_clause "tsClause labelTable" laID
    "\<lambda>e r. if labelBusiness e \<noteq> labelBusiness r then labelAssign e r else e" "\<lambda>e r. labelBusiness e \<noteq> labelBusiness r"
  unfolding labelTable_def tableSpec.select_convs
  by (rule settled_clause_update) (simp_all add: labelAssign_def labelBusiness_def)

interpretation masterIns: settled_clause "tsClause masterTable" maID
    "\<lambda>e r. if masterBusiness e \<noteq> masterBusiness r then masterAssign e r else e" "\<lambda>e r. masterBusiness e \<noteq> masterBusiness r"
  unfolding masterTable_def tableSpec.select_convs
  by (rule settled_clause_update) (simp_all add: masterAssign_def masterBusiness_def)

interpretation releaseItemIns: settled_clause "tsClause releaseItemTable" riID
    "\<lambda>e r. if releaseItemBusiness e \<noteq> releaseItemBusiness r then releaseItemAssign e r else e" "\<lambda>e r. releaseItemBusiness e \<noteq> releaseItemBusiness r"
  unfolding releaseItemTable_def tableSpec.select_convs
  by (rule settled_clause_update) (simp_all add: releaseItemAssign_def releaseItemBusiness_def)

interpretation genreIns: settled_clause "tsClause genreTable" gnName "\<lambda>e r. e" "\<lambda>e r. False"
  unfolding genreTable_def tableSpec.select_convs by (rule settled_clause_doNothing)

interpretation styleIns: settled_clause "tsClause styleTable" syName "\<lambda>e r. e" "\<lambda>e r. False"
  unfolding styleTable_def tableSpec.select_convs by (rule settled_clause_doNothing)

interpretation artistAliasRel: relation_table "tsClause artistAliasTable" "\<lambda>r. (aaArtistID r, aaAliasID r)"
    aaArtistID "\<lambda>r. (aaArtistID r, aaAliasID r)"
  by (rule relation_table.intro) (simp_all add: artistAliasTable_def insert_clause_doNothing relation_table_axioms_def)

interpretation artistGroupRel: relation_table "tsClause artistGroupTable" "\<lambda>r. (agArtistID r, agGroupID r)"
    agArtistID "\<lambda>r. (agArtistID r, agGroupID r)"
  by (rule relation_table.intro) (simp_all add: artistGroupTable_def insert_clause_doNothing relation_table_axioms_def)

interpretation artistMemberRel: relation_table "tsClause artistMemberTable" "\<lambda>r. (amArtistID r, amMemberID r)"
    amArtistID "\<lambda>r. (amArtistID r, amMemberID r)"
  by (rule relation_table.intro) (simp_all add: artistMemberTable_def insert_clause_doNothing relation_table_axioms_def)

interpretation artistNameVariationRel: relation_table "tsClause artistNameVariationTable" "\<lambda>r. (avArtistID r, avHash r)"
    avArtistID "\<lambda>r. (avArtistID r, avHash r, avIdentity r)"
  by (rule relation_table.intro) (simp_all add: artistNameVariationTable_def insert_clause_doNothing relation_table_axioms_def)

interpretation artistURLRel: relation_table "tsClause artistURLTable" "\<lambda>r. (auArtistID r, auHash r)"
    auArtistID "\<lambda>r. (auArtistID r, auHash r, auIdentity r)"
  by (rule relation_table.intro) (simp_all add: artistURLTable_def insert_clause_doNothing relation_table_axioms_def)

interpretation labelSubLabelRel: relation_table "tsClause labelSubLabelTable" "\<lambda>r. (lsParentLabelID r, lsSubLabelID r)"
    lsParentLabelID "\<lambda>r. (lsParentLabelID r, lsSubLabelID r)"
  by (rule relation_table.intro) (simp_all add: labelSubLabelTable_def insert_clause_doNothing relation_table_axioms_def)

interpretation labelURLRel: relation_table "tsClause labelURLTable" "\<lambda>r. (luLabelID r, luHash r)"
    luLabelID "\<lambda>r. (luLabelID r, luHash r, luIdentity r)"
  by (rule relation_table.intro) (simp_all add: labelURLTable_def insert_clause_doNothing relation_table_axioms_def)

interpretation masterArtistRel: relation_table "tsClause masterArtistTable" "\<lambda>r. (mtMasterID r, mtArtistID r)"
    mtMasterID "\<lambda>r. (mtMasterID r, mtArtistID r)"
  by (rule relation_table.intro) (simp_all add: masterArtistTable_def insert_clause_doNothing relation_table_axioms_def)

interpretation masterGenreRel: relation_table "tsClause masterGenreTable" "\<lambda>r. (mgMasterID r, mgGenre r)"
    mgMasterID "\<lambda>r. (mgMasterID r, mgGenre r)"
  by (rule relation_table.intro) (simp_all add: masterGenreTable_def insert_clause_doNothing relation_table_axioms_def)

interpretation masterStyleRel: relation_table "tsClause masterStyleTable" "\<lambda>r. (msMasterID r, msStyle r)"
    msMasterID "\<lambda>r. (msMasterID r, msStyle r)"
  by (rule relation_table.intro) (simp_all add: masterStyleTable_def insert_clause_doNothing relation_table_axioms_def)

interpretation masterVideoRel: relation_table "tsClause masterVideoTable" "\<lambda>r. (mvMasterID r, mvHash r)"
    mvMasterID "\<lambda>r. (mvMasterID r, mvHash r, mvIdentity r)"
  by (rule relation_table.intro) (simp_all add: masterVideoTable_def insert_clause_doNothing relation_table_axioms_def)

interpretation releaseArtistRel: relation_table "tsClause releaseArtistTable" "\<lambda>r. (rtReleaseItemID r, rtArtistID r)"
    rtReleaseItemID "\<lambda>r. (rtReleaseItemID r, rtArtistID r)"
  by (rule relation_table.intro) (simp_all add: releaseArtistTable_def insert_clause_doNothing relation_table_axioms_def)

interpretation releaseCreditedArtistRel: relation_table "tsClause releaseCreditedArtistTable" "\<lambda>r. (rcReleaseItemID r, rcArtistID r, rcHash r)"
    rcReleaseItemID "\<lambda>r. (rcReleaseItemID r, rcArtistID r, rcHash r, rcIdentity r)"
  by (rule relation_table.intro) (simp_all add: releaseCreditedArtistTable_def insert_clause_doNothing relation_table_axioms_def)

interpretation releaseFormatRel: relation_table "tsClause releaseFormatTable" "\<lambda>r. (rfReleaseItemID r, rfHash r)"
    rfReleaseItemID "\<lambda>r. (rfReleaseItemID r, rfHash r, rfIdentity r)"
  by (rule relation_table.intro) (simp_all add: releaseFormatTable_def insert_clause_doNothing relation_table_axioms_def)

interpretation releaseGenreRel: relation_table "tsClause releaseGenreTable" "\<lambda>r. (rgReleaseItemID r, rgGenre r)"
    rgReleaseItemID "\<lambda>r. (rgReleaseItemID r, rgGenre r)"
  by (rule relation_table.intro) (simp_all add: releaseGenreTable_def insert_clause_doNothing relation_table_axioms_def)

interpretation releaseIdentifierRel: relation_table "tsClause releaseIdentifierTable" "\<lambda>r. (rdReleaseItemID r, rdHash r)"
    rdReleaseItemID "\<lambda>r. (rdReleaseItemID r, rdHash r, rdIdentity r)"
  by (rule relation_table.intro) (simp_all add: releaseIdentifierTable_def insert_clause_doNothing relation_table_axioms_def)

interpretation releaseStyleRel: relation_table "tsClause releaseStyleTable" "\<lambda>r. (rsReleaseItemID r, rsStyle r)"
    rsReleaseItemID "\<lambda>r. (rsReleaseItemID r, rsStyle r)"
  by (rule relation_table.intro) (simp_all add: releaseStyleTable_def insert_clause_doNothing relation_table_axioms_def)

interpretation releaseTrackRel: relation_table "tsClause releaseTrackTable" "\<lambda>r. (rkReleaseItemID r, rkHash r)"
    rkReleaseItemID "\<lambda>r. (rkReleaseItemID r, rkHash r, rkIdentity r)"
  by (rule relation_table.intro) (simp_all add: releaseTrackTable_def insert_clause_doNothing relation_table_axioms_def)

interpretation releaseVideoRel: relation_table "tsClause releaseVideoTable" "\<lambda>r. (rvReleaseItemID r, rvHash r)"
    rvReleaseItemID "\<lambda>r. (rvReleaseItemID r, rvHash r, rvIdentity r)"
  by (rule relation_table.intro) (simp_all add: releaseVideoTable_def insert_clause_doNothing relation_table_axioms_def)

interpretation releaseWorkRel: relation_table "tsClause releaseWorkTable" "\<lambda>r. (rwReleaseItemID r, rwLabelID r, rwHash r)"
    rwReleaseItemID "\<lambda>r. (rwReleaseItemID r, rwLabelID r, rwHash r, rwIdentity r)"
  by (rule relation_table.intro) (simp_all add: releaseWorkTable_def insert_clause_doNothing relation_table_axioms_def)

interpretation releaseImageIns: insert_clause "tsClause releaseImageTable" "\<lambda>r. (rmReleaseItemID r, rmHash r)"
    "\<lambda>e r. e" "\<lambda>e r. False"
  unfolding releaseImageTable_def tableSpec.select_convs by (rule insert_clause_doNothing)

interpretation labelReleaseRel: relation_table "tsClause (labelReleaseTable True)"
    "\<lambda>r. (lrReleaseItemID r, lrLabelID r, lrCategoryNotation r)" lrReleaseItemID
    "\<lambda>r. (lrReleaseItemID r, lrLabelID r, lrCategoryNotation r)"
  by unfold_locales (simp_all add: labelReleaseTable_def)

end
