(* ===== verification/Chunk_Writers.thy ===== *)
theory Chunk_Writers
  imports Catalog Relation_Import Xml_Records
begin

text \<open>
  The chunk writers of \<open>src/batch/artist.go\<close>, \<open>label.go\<close>, \<open>master.go\<close> and \<open>release.go\<close>: the rows of a
  chunk are collected from its items and deduplicated; any deduplication error rejects the chunk
  before its transaction; otherwise one transaction writes the reference names and the root rows
  and reconciles every relation of the entity. Genre and style names become known to later
  chunks only once the transaction that wrote them has committed.

  A nil item is \<open>None\<close>. The workers share the caches; a writer takes them and returns them.
\<close>

section \<open>Reference names\<close>

text \<open>\<open>filterGenres\<close> and \<open>filterStyles\<close>: trimmed names, empty ones dropped, each kept once.\<close>

definition filterGenres :: "genreRow option list \<Rightarrow> genreRow list" where
  "filterGenres genres =
     collectFresh (\<lambda>g. case g of None \<Rightarrow> None
         | Some v \<Rightarrow> (let name = trimSpace (gnName v) in if name = [] then None else Some name))
       (\<lambda>name. \<lparr>gnName = name\<rparr>) {} genres"

definition filterStyles :: "styleRow option list \<Rightarrow> styleRow list" where
  "filterStyles styles =
     collectFresh (\<lambda>s. case s of None \<Rightarrow> None
         | Some v \<Rightarrow> (let name = trimSpace (syName v) in if name = [] then None else Some name))
       (\<lambda>name. \<lparr>syName = name\<rparr>) {} styles"

definition sortReferenceEntities :: "genreRow list \<Rightarrow> styleRow list \<Rightarrow> genreRow list \<times> styleRow list" where
  "sortReferenceEntities genres styles = (sort_key gnName genres, sort_key syName styles)"

definition filterConfirmedReferenceEntities ::
  "caches \<Rightarrow> genreRow list \<Rightarrow> styleRow list \<Rightarrow> genreRow list \<times> styleRow list" where
  "filterConfirmedReferenceEntities cs genres styles =
     (filter (\<lambda>g. \<not> containsName (GenreNames cs) (gnName g)) genres,
      filter (\<lambda>s. \<not> containsName (StyleNames cs) (syName s)) styles)"

definition confirmReferenceEntities :: "genreRow list \<Rightarrow> styleRow list \<Rightarrow> caches \<Rightarrow> caches" where
  "confirmReferenceEntities genres styles cs =
     cs\<lparr>GenreNames := fold (\<lambda>g. addName (gnName g)) genres (GenreNames cs),
        StyleNames := fold (\<lambda>s. addName (syName s)) styles (StyleNames cs)\<rparr>"

text \<open>A statement on one table of the catalog.\<close>

definition onTable :: "('c \<Rightarrow> 'r list) \<Rightarrow> (('r list \<Rightarrow> 'r list) \<Rightarrow> 'c \<Rightarrow> 'c) \<Rightarrow> 'r list writer \<Rightarrow> 'c writer" where
  "onTable get put write c = (case write (get c) of (r, rows) \<Rightarrow> (r, put (\<lambda>_. rows) c))"

text \<open>\<open>CreateInBatches\<close> of the ORM: one insert for every \<open>chunkSize\<close> rows.\<close>

definition createInBatches :: "writeEnv \<Rightarrow> order \<Rightarrow> 'r tableSpec \<Rightarrow> 'r list \<Rightarrow> 'r list writer" where
  "createInBatches env ord tab items = doWriteFrom env tab (nat (oChunkSize ord)) items 0 (newResult 0 None)"

definition writeReferenceEntities :: "writeEnv \<Rightarrow> order \<Rightarrow> genreRow list \<Rightarrow> styleRow list \<Rightarrow> catalog writer" where
  "writeReferenceEntities env ord genres styles c =
     (case onTable tGenre tGenre_update (createInBatches env ord genreTable genres) c of
        (r, c') \<Rightarrow>
          if isErr r then (newResult 0 (err r), c')
          else case onTable tStyle tStyle_update (createInBatches env ord styleTable styles) c' of
            (r', c'') \<Rightarrow> if isErr r' then (newResult 0 (err r'), c'') else (newResult 0 None, c''))"

section \<open>Errors of a chunk\<close>

datatype chunkError = NotCanonical "dedupeError list" | NotWritten ledgerError

definition joinErrors :: "dedupeError option list \<Rightarrow> dedupeError list" where
  "joinErrors es = List.map_filter id es"

definition errorOf :: "'e + 'a \<Rightarrow> 'e option" where
  "errorOf r = (case r of Inl e \<Rightarrow> Some e | Inr _ \<Rightarrow> None)"

definition notWritten :: "ledgerError result \<Rightarrow> chunkError result" where
  "notWritten r = newResult (result.count r) (map_option NotWritten (err r))"

text \<open>\<open>afterCanonicalization\<close>, over the state \<open>persist\<close> works on.\<close>

definition afterCanonicalization ::
  "dedupeError list \<Rightarrow> ('s \<Rightarrow> ledgerError result \<times> 's) \<Rightarrow> 's \<Rightarrow> chunkError result \<times> 's" where
  "afterCanonicalization es persist s =
     (if es \<noteq> [] then (newResult 0 (Some (NotCanonical es)), s)
      else case persist s of (r, s') \<Rightarrow> (notWritten r, s'))"

definition presentItems :: "(time \<Rightarrow> 'x \<Rightarrow> 'x) \<Rightarrow> time \<Rightarrow> 'x option list \<Rightarrow> 'x list" where
  "presentItems setObservedAt observedAt items =
     List.map_filter id (assignChunkObservedAt setObservedAt observedAt items)"

definition seedPolicy :: "bool \<Rightarrow> masterRow \<Rightarrow> masterRow" where
  "seedPolicy seed m = (if seed then m else m\<lparr>maMainReleaseID := None\<rparr>)"

section \<open>Artists\<close>

record artistChunk =
  acRootIDs :: "int32 list"
  acNameVariations :: "artistNameVariationRow list"
  acAliases :: "artistAliasRow list"
  acGroups :: "artistGroupRow list"
  acMembers :: "artistMemberRow list"
  acUrls :: "artistURLRow list"

definition collectArtistChunk ::
  "caches \<Rightarrow> time \<Rightarrow> xmlArtistRelation option list \<Rightarrow> dedupeError list \<times> artistChunk" where
  "collectArtistChunk cs observedAt items =
     (let present = presentItems artistSetObservedAt observedAt items;
          nameVariations = deduplicateArtistNameVariations (concat (map (map Some \<circ> getNameVars observedAt) present));
          aliases = deduplicateArtistAliases (concat (map (map Some \<circ> getAliases cs observedAt) present));
          groups = deduplicateArtistGroups (concat (map (map Some \<circ> getGroups cs observedAt) present));
          members = deduplicateArtistMembers (concat (map (map Some \<circ> getMembers cs observedAt) present));
          urls = deduplicateArtistURLs (concat (map (map Some \<circ> getArtistUrls observedAt) present))
      in (joinErrors [errorOf aliases, errorOf groups, errorOf members, errorOf nameVariations, errorOf urls],
          \<lparr>acRootIDs = deduplicateComparable (map xarID present),
           acNameVariations = projr nameVariations,
           acAliases = projr aliases,
           acGroups = projr groups,
           acMembers = projr members,
           acUrls = projr urls\<rparr>))"

definition artistReconcilers :: "writeEnv \<Rightarrow> order \<Rightarrow> artistChunk \<Rightarrow> existingRelationRoots \<Rightarrow> catalog writer list" where
  "artistReconcilers env ord rows roots =
     [onTable tArtistAlias tArtistAlias_update (reconcileIntegerRelation env ord artistAliasTable artistAliasRelation
        (length (forTable roots (irTable artistAliasRelation)) > 0) (forTable roots (irTable artistAliasRelation))
        (acAliases rows) aaArtistID aaAliasID),
      onTable tArtistGroup tArtistGroup_update (reconcileIntegerRelation env ord artistGroupTable artistGroupRelation
        (length (forTable roots (irTable artistGroupRelation)) > 0) (forTable roots (irTable artistGroupRelation))
        (acGroups rows) agArtistID agGroupID),
      onTable tArtistMember tArtistMember_update (reconcileIntegerRelation env ord artistMemberTable artistMemberRelation
        (length (forTable roots (irTable artistMemberRelation)) > 0) (forTable roots (irTable artistMemberRelation))
        (acMembers rows) amArtistID amMemberID),
      onTable tArtistNameVariation tArtistNameVariation_update (reconcileDigestIntegerRelation env ord artistNameVariationTable artistNameVariationRelation
        (length (forTable roots (dirTable artistNameVariationRelation)) > 0) (forTable roots (dirTable artistNameVariationRelation))
        (acNameVariations rows) avArtistID avHash avIdentity),
      onTable tArtistURL tArtistURL_update (reconcileDigestIntegerRelation env ord artistURLTable artistURLRelation
        (length (forTable roots (dirTable artistURLRelation)) > 0) (forTable roots (dirTable artistURLRelation))
        (acUrls rows) auArtistID auHash auIdentity)]"

definition artistRelationRoots :: "catalog \<Rightarrow> (string \<times> int32 list) list" where
  "artistRelationRoots c =
     [(irTable artistAliasRelation, map (irParentColumn artistAliasRelation) (tArtistAlias c)),
      (irTable artistGroupRelation, map (irParentColumn artistGroupRelation) (tArtistGroup c)),
      (irTable artistMemberRelation, map (irParentColumn artistMemberRelation) (tArtistMember c)),
      (dirTable artistNameVariationRelation, map (dirParentColumn artistNameVariationRelation) (tArtistNameVariation c)),
      (dirTable artistURLRelation, map (dirParentColumn artistURLRelation) (tArtistURL c))]"

definition artistChunkWriter :: "writeEnv \<Rightarrow> order \<Rightarrow> artistChunk \<Rightarrow> catalog writer" where
  "artistChunkWriter env ord rows c =
     (case findExistingRelationRoots (weFault env) (acRootIDs rows) (artistRelationRoots c) of
        Inl e \<Rightarrow> (newResult 0 (Some e), c)
      | Inr roots \<Rightarrow> reconcileRelations (artistReconcilers env ord rows roots) c)"

definition writeArtistRelationChunk ::
  "writeEnv \<Rightarrow> int \<Rightarrow> caches \<Rightarrow> time \<Rightarrow> order \<Rightarrow> chunkMeta \<Rightarrow> xmlArtistRelation option list
     \<Rightarrow> ledger \<times> catalog \<Rightarrow> chunkError result \<times> ledger \<times> catalog" where
  "writeArtistRelationChunk env now cs observedAt ord chunk items db =
     (case collectArtistChunk cs observedAt items of
        (es, rows) \<Rightarrow>
          afterCanonicalization es (executeChunk (weFault env) now ord chunk (artistChunkWriter env ord rows)) db)"

section \<open>Labels\<close>

record labelChunk =
  lcRootIDs :: "int32 list"
  lcUrls :: "labelURLRow list"
  lcSubLabels :: "labelSubLabelRow list"

definition collectLabelChunk ::
  "caches \<Rightarrow> time \<Rightarrow> xmlLabelRelation option list \<Rightarrow> dedupeError list \<times> labelChunk" where
  "collectLabelChunk cs observedAt items =
     (let present = presentItems labelSetObservedAt observedAt items;
          urls = deduplicateLabelURLs (concat (map (map Some \<circ> getLabelUrls observedAt) present));
          subLabels = deduplicateLabelSubLabels (concat (map (map Some \<circ> getSubLabels cs observedAt) present))
      in (joinErrors [errorOf urls, errorOf subLabels],
          \<lparr>lcRootIDs = deduplicateComparable (map xlrID present),
           lcUrls = projr urls,
           lcSubLabels = projr subLabels\<rparr>))"

definition labelReconcilers :: "writeEnv \<Rightarrow> order \<Rightarrow> labelChunk \<Rightarrow> existingRelationRoots \<Rightarrow> catalog writer list" where
  "labelReconcilers env ord rows roots =
     [onTable tLabelURL tLabelURL_update (reconcileDigestIntegerRelation env ord labelURLTable labelURLRelation
        (length (forTable roots (dirTable labelURLRelation)) > 0) (forTable roots (dirTable labelURLRelation))
        (lcUrls rows) luLabelID luHash luIdentity),
      onTable tLabelSubLabel tLabelSubLabel_update (reconcileIntegerRelation env ord labelSubLabelTable labelSubLabelRelation
        (length (forTable roots (irTable labelSubLabelRelation)) > 0) (forTable roots (irTable labelSubLabelRelation))
        (lcSubLabels rows) lsParentLabelID lsSubLabelID)]"

definition labelRelationRoots :: "catalog \<Rightarrow> (string \<times> int32 list) list" where
  "labelRelationRoots c =
     [(dirTable labelURLRelation, map (dirParentColumn labelURLRelation) (tLabelURL c)),
      (irTable labelSubLabelRelation, map (irParentColumn labelSubLabelRelation) (tLabelSubLabel c))]"

definition labelChunkWriter :: "writeEnv \<Rightarrow> order \<Rightarrow> labelChunk \<Rightarrow> catalog writer" where
  "labelChunkWriter env ord rows c =
     (case findExistingRelationRoots (weFault env) (lcRootIDs rows) (labelRelationRoots c) of
        Inl e \<Rightarrow> (newResult 0 (Some e), c)
      | Inr roots \<Rightarrow> reconcileRelations (labelReconcilers env ord rows roots) c)"

definition writeLabelRelationChunk ::
  "writeEnv \<Rightarrow> int \<Rightarrow> caches \<Rightarrow> time \<Rightarrow> order \<Rightarrow> chunkMeta \<Rightarrow> xmlLabelRelation option list
     \<Rightarrow> ledger \<times> catalog \<Rightarrow> chunkError result \<times> ledger \<times> catalog" where
  "writeLabelRelationChunk env now cs observedAt ord chunk items db =
     (case collectLabelChunk cs observedAt items of
        (es, rows) \<Rightarrow>
          afterCanonicalization es (executeChunk (weFault env) now ord chunk (labelChunkWriter env ord rows)) db)"

section \<open>Masters\<close>

record masterChunk =
  mcRootIDs :: "int32 list"
  mcGenres :: "genreRow list"
  mcStyles :: "styleRow list"
  mcMasters :: "masterRow list"
  mcArtists :: "masterArtistRow list"
  mcMasterGenres :: "masterGenreRow list"
  mcMasterStyles :: "masterStyleRow list"
  mcVideos :: "masterVideoRow list"

definition collectMasterChunk ::
  "bool \<Rightarrow> caches \<Rightarrow> time \<Rightarrow> xmlMasterRelation option list \<Rightarrow> dedupeError list \<times> masterChunk" where
  "collectMasterChunk seed cs observedAt items =
     (let present = presentItems masterSetObservedAt observedAt items;
          root = deduplicateMasters (map (Some \<circ> seedPolicy seed \<circ> getMaster observedAt) present);
          artists = deduplicateMasterArtists (concat (map (map Some \<circ> getMasterArtists cs observedAt) present));
          masterGenres = deduplicateMasterGenres (concat (map (map Some \<circ> getMasterGenres observedAt) present));
          masterStyles = deduplicateMasterStyles (concat (map (map Some \<circ> getMasterStyles observedAt) present));
          videos = deduplicateMasterVideos (concat (map (map Some \<circ> getMasterVideos observedAt) present));
          (genres, styles) = sortReferenceEntities
            (filterGenres (concat (map (map Some \<circ> genreRows \<circ> xmrGenres) present)))
            (filterStyles (concat (map (map Some \<circ> styleRows \<circ> xmrStyles) present)));
          (genres, styles) = filterConfirmedReferenceEntities cs genres styles
      in (joinErrors [errorOf root, errorOf artists, errorOf masterGenres, errorOf masterStyles, errorOf videos],
          \<lparr>mcRootIDs = deduplicateComparable (map xmrID present),
           mcGenres = genres, mcStyles = styles, mcMasters = projr root,
           mcArtists = projr artists,
           mcMasterGenres = projr masterGenres,
           mcMasterStyles = projr masterStyles,
           mcVideos = projr videos\<rparr>))"

definition masterReconcilers :: "writeEnv \<Rightarrow> order \<Rightarrow> masterChunk \<Rightarrow> existingRelationRoots \<Rightarrow> catalog writer list" where
  "masterReconcilers env ord rows roots =
     [onTable tMasterArtist tMasterArtist_update (reconcileIntegerRelation env ord masterArtistTable masterArtistRelation
        (length (forTable roots (irTable masterArtistRelation)) > 0) (forTable roots (irTable masterArtistRelation))
        (mcArtists rows) mtMasterID mtArtistID),
      onTable tMasterGenre tMasterGenre_update (reconcileTextRelation env ord masterGenreTable masterGenreRelation
        (length (forTable roots (trTable masterGenreRelation)) > 0) (forTable roots (trTable masterGenreRelation))
        (mcMasterGenres rows) mgMasterID mgGenre),
      onTable tMasterStyle tMasterStyle_update (reconcileTextRelation env ord masterStyleTable masterStyleRelation
        (length (forTable roots (trTable masterStyleRelation)) > 0) (forTable roots (trTable masterStyleRelation))
        (mcMasterStyles rows) msMasterID msStyle),
      onTable tMasterVideo tMasterVideo_update (reconcileDigestIntegerRelation env ord masterVideoTable masterVideoRelation
        (length (forTable roots (dirTable masterVideoRelation)) > 0) (forTable roots (dirTable masterVideoRelation))
        (mcVideos rows) mvMasterID mvHash mvIdentity)]"

definition masterRelationRoots :: "catalog \<Rightarrow> (string \<times> int32 list) list" where
  "masterRelationRoots c =
     [(irTable masterArtistRelation, map (irParentColumn masterArtistRelation) (tMasterArtist c)),
      (trTable masterGenreRelation, map (trParentColumn masterGenreRelation) (tMasterGenre c)),
      (trTable masterStyleRelation, map (trParentColumn masterStyleRelation) (tMasterStyle c)),
      (dirTable masterVideoRelation, map (dirParentColumn masterVideoRelation) (tMasterVideo c))]"

definition masterChunkWriter :: "writeEnv \<Rightarrow> order \<Rightarrow> masterChunk \<Rightarrow> catalog writer" where
  "masterChunkWriter env ord rows c =
     (case findExistingRelationRoots (weFault env) (mcRootIDs rows) (masterRelationRoots c) of
        Inl e \<Rightarrow> (newResult 0 (Some e), c)
      | Inr roots \<Rightarrow>
          (case writeReferenceEntities env ord (mcGenres rows) (mcStyles rows) c of
             (referenceResult, c1) \<Rightarrow>
               if isErr referenceResult then (referenceResult, c1)
               else (case onTable tMaster tMaster_update (doWrite env ord masterTable (mcMasters rows)) c1 of
                 (written, c2) \<Rightarrow>
                   if isErr written then (written, c2)
                   else (case reconcileRelations (masterReconcilers env ord rows roots) c2 of
                     (r, c3) \<Rightarrow> (sumResult written (Some r), c3)))))"

definition writeMasterRelationChunkWithMainReleasePolicy ::
  "writeEnv \<Rightarrow> int \<Rightarrow> caches \<Rightarrow> time \<Rightarrow> order \<Rightarrow> chunkMeta \<Rightarrow> xmlMasterRelation option list \<Rightarrow> bool
     \<Rightarrow> ledger \<times> catalog \<Rightarrow> chunkError result \<times> caches \<times> ledger \<times> catalog" where
  "writeMasterRelationChunkWithMainReleasePolicy env now cs observedAt ord chunk items seed db =
     (let cs' = cs\<lparr>MasterIDs := fold addID (map xmrID (presentItems masterSetObservedAt observedAt items)) (MasterIDs cs)\<rparr> in
      case collectMasterChunk seed cs' observedAt items of
        (es, rows) \<Rightarrow>
          if es \<noteq> [] then (newResult 0 (Some (NotCanonical es)), cs', db)
          else case executeChunk (weFault env) now ord chunk (masterChunkWriter env ord rows) db of
            (written, db') \<Rightarrow>
              (notWritten written,
               (if \<not> isErr written then confirmReferenceEntities (mcGenres rows) (mcStyles rows) cs' else cs'),
               db'))"

section \<open>Releases\<close>

record releaseChunk =
  rcRootIDs :: "int32 list"
  rcGenres :: "genreRow list"
  rcStyles :: "styleRow list"
  rcReleases :: "releaseItemRow list"
  rcArtists :: "releaseArtistRow list"
  rcCreditedArtists :: "releaseCreditedArtistRow list"
  rcWorks :: "releaseWorkRow list"
  rcReleaseStyles :: "releaseStyleRow list"
  rcReleaseGenres :: "releaseGenreRow list"
  rcLabels :: "labelReleaseRow list"
  rcFormats :: "releaseFormatRow list"
  rcIdentifiers :: "releaseIdentifierRow list"
  rcTracks :: "releaseTrackRow list"
  rcVideos :: "releaseVideoRow list"

definition collectReleaseChunk ::
  "caches \<Rightarrow> time \<Rightarrow> xmlReleaseRelation option list \<Rightarrow> dedupeError list \<times> releaseChunk" where
  "collectReleaseChunk cs observedAt items =
     (let present = presentItems releaseSetObservedAt observedAt items;
          root = deduplicateReleaseItems (map (Some \<circ> getRelease cs observedAt) present);
          artists = deduplicateReleaseArtists (concat (map (map Some \<circ> getReleaseArtists cs observedAt) present));
          creditedArtists = deduplicateReleaseCreditedArtists (concat (map (map Some \<circ> getCreditedArtists cs observedAt) present));
          works = deduplicateReleaseWorks (concat (map (map Some \<circ> getWorks cs observedAt) present));
          releaseStyles = deduplicateReleaseStyles (concat (map (map Some \<circ> getReleaseStyles observedAt) present));
          releaseGenres = deduplicateReleaseGenres (concat (map (map Some \<circ> getReleaseGenres observedAt) present));
          labels = deduplicateLabelReleaseItems (concat (map (map Some \<circ> getLabels cs observedAt) present));
          formats = deduplicateReleaseFormats (concat (map (map Some \<circ> getFormats observedAt) present));
          identifiers = deduplicateReleaseIdentifiers (concat (map (map Some \<circ> getIdentifiers observedAt) present));
          tracks = deduplicateReleaseTracks (concat (map (map Some \<circ> getTracks observedAt) present));
          videos = deduplicateReleaseVideos (concat (map (map Some \<circ> getVideos observedAt) present));
          (genres, styles) = sortReferenceEntities
            (filterGenres (concat (map (map Some \<circ> genreRows \<circ> xrrGenres) present)))
            (filterStyles (concat (map (map Some \<circ> styleRows \<circ> xrrStyles) present)));
          (genres, styles) = filterConfirmedReferenceEntities cs genres styles
      in (joinErrors [errorOf root, errorOf artists, errorOf creditedArtists, errorOf works, errorOf releaseStyles, errorOf releaseGenres, errorOf labels, errorOf formats, errorOf identifiers, errorOf tracks, errorOf videos],
          \<lparr>rcRootIDs = deduplicateComparable (map xrrID present),
           rcGenres = genres, rcStyles = styles, rcReleases = projr root,
           rcArtists = projr artists,
           rcCreditedArtists = projr creditedArtists,
           rcWorks = projr works,
           rcReleaseStyles = projr releaseStyles,
           rcReleaseGenres = projr releaseGenres,
           rcLabels = projr labels,
           rcFormats = projr formats,
           rcIdentifiers = projr identifiers,
           rcTracks = projr tracks,
           rcVideos = projr videos\<rparr>))"

definition releaseReconcilers :: "writeEnv \<Rightarrow> order \<Rightarrow> releaseChunk \<Rightarrow> existingRelationRoots \<Rightarrow> catalog writer list" where
  "releaseReconcilers env ord rows roots =
     [onTable tReleaseArtist tReleaseArtist_update (reconcileIntegerRelation env ord releaseArtistTable releaseArtistRelation
        (length (forTable roots (irTable releaseArtistRelation)) > 0) (forTable roots (irTable releaseArtistRelation))
        (rcArtists rows) rtReleaseItemID rtArtistID),
      onTable tReleaseCreditedArtist tReleaseCreditedArtist_update (reconcileDigestTwoIntegerKeyRelation env ord releaseCreditedArtistTable releaseCreditedArtistRelation
        (length (forTable roots (dtkTable releaseCreditedArtistRelation)) > 0) (forTable roots (dtkTable releaseCreditedArtistRelation))
        (rcCreditedArtists rows) rcReleaseItemID rcArtistID rcHash rcIdentity),
      onTable tReleaseWork tReleaseWork_update (reconcileDigestTwoIntegerKeyRelation env ord releaseWorkTable releaseWorkRelation
        (length (forTable roots (dtkTable releaseWorkRelation)) > 0) (forTable roots (dtkTable releaseWorkRelation))
        (rcWorks rows) rwReleaseItemID rwLabelID rwHash rwIdentity),
      onTable tReleaseStyle tReleaseStyle_update (reconcileTextRelation env ord releaseStyleTable releaseStyleRelation
        (length (forTable roots (trTable releaseStyleRelation)) > 0) (forTable roots (trTable releaseStyleRelation))
        (rcReleaseStyles rows) rsReleaseItemID rsStyle),
      onTable tReleaseGenre tReleaseGenre_update (reconcileTextRelation env ord releaseGenreTable releaseGenreRelation
        (length (forTable roots (trTable releaseGenreRelation)) > 0) (forTable roots (trTable releaseGenreRelation))
        (rcReleaseGenres rows) rgReleaseItemID rgGenre),
      onTable tLabelRelease tLabelRelease_update (reconcileIntegerNullableTextKeyRelation env ord (labelReleaseTable (weNullsEqual env)) labelReleaseRelation
        (length (forTable roots (ntkTable labelReleaseRelation)) > 0) (forTable roots (ntkTable labelReleaseRelation))
        (rcLabels rows) lrReleaseItemID lrLabelID lrCategoryNotation),
      onTable tReleaseFormat tReleaseFormat_update (reconcileDigestIntegerRelation env ord releaseFormatTable releaseFormatRelation
        (length (forTable roots (dirTable releaseFormatRelation)) > 0) (forTable roots (dirTable releaseFormatRelation))
        (rcFormats rows) rfReleaseItemID rfHash rfIdentity),
      onTable tReleaseIdentifier tReleaseIdentifier_update (reconcileDigestIntegerRelation env ord releaseIdentifierTable releaseIdentifierRelation
        (length (forTable roots (dirTable releaseIdentifierRelation)) > 0) (forTable roots (dirTable releaseIdentifierRelation))
        (rcIdentifiers rows) rdReleaseItemID rdHash rdIdentity),
      onTable tReleaseTrack tReleaseTrack_update (reconcileDigestIntegerRelation env ord releaseTrackTable releaseTrackRelation
        (length (forTable roots (dirTable releaseTrackRelation)) > 0) (forTable roots (dirTable releaseTrackRelation))
        (rcTracks rows) rkReleaseItemID rkHash rkIdentity),
      onTable tReleaseVideo tReleaseVideo_update (reconcileDigestIntegerRelation env ord releaseVideoTable releaseVideoRelation
        (length (forTable roots (dirTable releaseVideoRelation)) > 0) (forTable roots (dirTable releaseVideoRelation))
        (rcVideos rows) rvReleaseItemID rvHash rvIdentity)]"

definition releaseRelationRoots :: "catalog \<Rightarrow> (string \<times> int32 list) list" where
  "releaseRelationRoots c =
     [(irTable releaseArtistRelation, map (irParentColumn releaseArtistRelation) (tReleaseArtist c)),
      (dtkTable releaseCreditedArtistRelation, map (dtkParentColumn releaseCreditedArtistRelation) (tReleaseCreditedArtist c)),
      (dtkTable releaseWorkRelation, map (dtkParentColumn releaseWorkRelation) (tReleaseWork c)),
      (trTable releaseStyleRelation, map (trParentColumn releaseStyleRelation) (tReleaseStyle c)),
      (trTable releaseGenreRelation, map (trParentColumn releaseGenreRelation) (tReleaseGenre c)),
      (ntkTable labelReleaseRelation, map (ntkParentColumn labelReleaseRelation) (tLabelRelease c)),
      (dirTable releaseFormatRelation, map (dirParentColumn releaseFormatRelation) (tReleaseFormat c)),
      (dirTable releaseIdentifierRelation, map (dirParentColumn releaseIdentifierRelation) (tReleaseIdentifier c)),
      (dirTable releaseTrackRelation, map (dirParentColumn releaseTrackRelation) (tReleaseTrack c)),
      (dirTable releaseVideoRelation, map (dirParentColumn releaseVideoRelation) (tReleaseVideo c))]"

definition releaseChunkWriter :: "writeEnv \<Rightarrow> order \<Rightarrow> releaseChunk \<Rightarrow> catalog writer" where
  "releaseChunkWriter env ord rows c =
     (case findExistingRelationRoots (weFault env) (rcRootIDs rows) (releaseRelationRoots c) of
        Inl e \<Rightarrow> (newResult 0 (Some e), c)
      | Inr roots \<Rightarrow>
          (case writeReferenceEntities env ord (rcGenres rows) (rcStyles rows) c of
             (referenceResult, c1) \<Rightarrow>
               if isErr referenceResult then (referenceResult, c1)
               else (case onTable tReleaseItem tReleaseItem_update (doWrite env ord releaseItemTable (rcReleases rows)) c1 of
                 (written, c2) \<Rightarrow>
                   if isErr written then (written, c2)
                   else (case reconcileRelations (releaseReconcilers env ord rows roots) c2 of
                     (r, c3) \<Rightarrow> (sumResult written (Some r), c3)))))"

definition writeReleaseRelationChunk ::
  "writeEnv \<Rightarrow> int \<Rightarrow> caches \<Rightarrow> time \<Rightarrow> order \<Rightarrow> chunkMeta \<Rightarrow> xmlReleaseRelation option list
     \<Rightarrow> ledger \<times> catalog \<Rightarrow> chunkError result \<times> caches \<times> ledger \<times> catalog" where
  "writeReleaseRelationChunk env now cs observedAt ord chunk items db =
     (case collectReleaseChunk cs observedAt items of
        (es, rows) \<Rightarrow>
          if es \<noteq> [] then (newResult 0 (Some (NotCanonical es)), cs, db)
          else case executeChunk (weFault env) now ord chunk (releaseChunkWriter env ord rows) db of
            (written, db') \<Rightarrow>
              (notWritten written,
               (if \<not> isErr written then confirmReferenceEntities (rcGenres rows) (rcStyles rows) cs else cs),
               db'))"

end
