(* ===== verification/Relation_Contracts.thy ===== *)
theory Relation_Contracts
  imports Chunk_Writers
begin

text \<open>
  The interface between deduplication and reconciliation. \<open>chunk_relation\<close> says what a relation's
  deduplication promises its reconciliation: one row per conflict key, no new roots, and the
  identity column set. It is interpreted for the twenty-one relations, and each call of a
  \<open>reconcile\<close> function is shown to be the specification \<open>reconcileBy\<close>.
\<close>

section \<open>Deduplication as a contract\<close>

text \<open>A table after its reconciliation: converged, keyed, and untouched if it already agreed.\<close>

definition reconciled ::
  "('r \<Rightarrow> int32) \<Rightarrow> ('r \<Rightarrow> 'm) \<Rightarrow> ('r \<Rightarrow> 'k) \<Rightarrow> int32 list \<Rightarrow> 'r list \<Rightarrow> 'r list \<Rightarrow> int \<Rightarrow> 'r list \<Rightarrow> bool" where
  "reconciled parent match key rootIDs incoming old n new \<longleftrightarrow>
     converged parent match rootIDs incoming old new \<and> distinct (map key new) \<and>
     (match ` {r \<in> set old. parent r \<in> set rootIDs} = match ` set incoming \<longrightarrow> new = old \<and> n = 0)"

locale chunk_relation = relation_table cl key parent match
  for cl :: "'r onConflict" and key :: "'r \<Rightarrow> 'k" and parent :: "'r \<Rightarrow> int32" and match :: "'r \<Rightarrow> 'm" +
  fixes dedupe :: "'r option list \<Rightarrow> dedupeError + 'r list" and identified :: "'r \<Rightarrow> bool"
  assumes dedupe_unique: "dedupe (map Some rs) = Inr out \<Longrightarrow> distinct (map key out)"
    and dedupe_parents: "dedupe (map Some rs) = Inr out \<Longrightarrow> parent ` set out \<subseteq> parent ` set rs"
    and dedupe_identified: "dedupe (map Some rs) = Inr out \<Longrightarrow> r \<in> set out \<Longrightarrow> identified r"
begin

lemma collected:
  assumes "dedupe (concat (map (map Some \<circ> f) present)) = Inr out"
    and "\<And>x r. x \<in> set present \<Longrightarrow> r \<in> set (f x) \<Longrightarrow> parent r = root x"
  shows "distinct (map key out)" and "parent ` set out \<subseteq> root ` set present" and "\<forall>r \<in> set out. identified r"
proof -
  have "concat (map (map Some \<circ> f) present) = map Some (concat (map f present))"
    by (simp add: map_concat)
  with assms(1) have d: "dedupe (map Some (concat (map f present))) = Inr out" by simp
  show "distinct (map key out)" using d by (rule dedupe_unique)
  show "parent ` set out \<subseteq> root ` set present"
    by (rule order_trans [OF dedupe_parents [OF d]]) (auto simp: assms(2))
  show "\<forall>r \<in> set out. identified r" using dedupe_identified [OF d] by blast
qed

text \<open>One relation of a chunk's transaction.\<close>

lemma table_reconciled:
  assumes "onTable get put (reconcileBy env ord tab table parent match roots incoming) c = (v, c')" and "\<not> isErr v"
    and "tsClause tab = cl" and "distinct (map key incoming)" and "distinct (map key (get c))"
    and "set roots = set rootIDs \<inter> set (map parent (get c))" and "parent ` set incoming \<subseteq> set rootIDs"
  shows "\<exists>rows. c' = put (\<lambda>_. rows) c \<and> reconciled parent match key rootIDs incoming (get c) (result.count v) rows"
proof -
  obtain rows where run: "reconcileBy env ord tab table parent match roots incoming (get c) = (v, rows)"
    and c': "c' = put (\<lambda>_. rows) c"
    using assms(1) by (auto simp: onTable_def split: prod.splits)
  have "reconciled parent match key rootIDs incoming (get c) (result.count v) rows"
    using reconcile_converges [OF run assms(2-7)] reconcile_noop [OF run assms(2-6)]
    by (simp add: reconciled_def)
  with c' show ?thesis by blast
qed

end

section \<open>The relations\<close>

lemma formats_canonicalized:
  "canonicalizeFormats n (map Some rs) = Inr fs \<Longrightarrow>
    \<exists>rs'. fs = map Some rs' \<and> map rfReleaseItemID rs' = map rfReleaseItemID rs"
proof (induction rs arbitrary: n fs)
  case (Cons r rs)
  obtain r' where r': "canonicalizeReleaseFormatQuantity r = Inr r'"
    using Cons.prems by (cases "canonicalizeReleaseFormatQuantity r") auto
  obtain gs where gs: "canonicalizeFormats (Suc n) (map Some rs) = Inr gs" and fs: "fs = Some r' # gs"
    using Cons.prems r' by (cases "canonicalizeFormats (Suc n) (map Some rs)") auto
  obtain rs' where "gs = map Some rs'" "map rfReleaseItemID rs' = map rfReleaseItemID rs"
    using Cons.IH [OF gs] by blast
  moreover have "rfReleaseItemID r' = rfReleaseItemID r"
    using r' by (auto simp: canonicalizeReleaseFormatQuantity_def split: option.splits if_splits sum.splits)
  ultimately show ?case using fs by (intro exI [of _ "r' # rs'"]) simp
qed simp

interpretation artistAliasChunk: chunk_relation "tsClause artistAliasTable" "\<lambda>r. (aaArtistID r, aaAliasID r)"
    aaArtistID "\<lambda>r. (aaArtistID r, aaAliasID r)" deduplicateArtistAliases "\<lambda>_. True"
proof unfold_locales
  fix rs out assume d: "deduplicateArtistAliases (map Some rs) = Inr out"
  note laws = aak.dedupe_laws [OF d [unfolded deduplicateArtistAliases_def]]
  show "distinct (map (\<lambda>r. (aaArtistID r, aaAliasID r)) out)" using laws(1) by (simp add: artistAliasesKey_def [abs_def])
  show "aaArtistID ` set out \<subseteq> aaArtistID ` set rs" using laws(2) by (rule image_mono)
qed simp

interpretation artistGroupChunk: chunk_relation "tsClause artistGroupTable" "\<lambda>r. (agArtistID r, agGroupID r)"
    agArtistID "\<lambda>r. (agArtistID r, agGroupID r)" deduplicateArtistGroups "\<lambda>_. True"
proof unfold_locales
  fix rs out assume d: "deduplicateArtistGroups (map Some rs) = Inr out"
  note laws = agk.dedupe_laws [OF d [unfolded deduplicateArtistGroups_def]]
  show "distinct (map (\<lambda>r. (agArtistID r, agGroupID r)) out)" using laws(1) by (simp add: artistGroupsKey_def [abs_def])
  show "agArtistID ` set out \<subseteq> agArtistID ` set rs" using laws(2) by (rule image_mono)
qed simp

interpretation artistMemberChunk: chunk_relation "tsClause artistMemberTable" "\<lambda>r. (amArtistID r, amMemberID r)"
    amArtistID "\<lambda>r. (amArtistID r, amMemberID r)" deduplicateArtistMembers "\<lambda>_. True"
proof unfold_locales
  fix rs out assume d: "deduplicateArtistMembers (map Some rs) = Inr out"
  note laws = amk.dedupe_laws [OF d [unfolded deduplicateArtistMembers_def]]
  show "distinct (map (\<lambda>r. (amArtistID r, amMemberID r)) out)" using laws(1) by (simp add: artistMembersKey_def [abs_def])
  show "amArtistID ` set out \<subseteq> amArtistID ` set rs" using laws(2) by (rule image_mono)
qed simp

interpretation artistNameVariationChunk: chunk_relation "tsClause artistNameVariationTable" "\<lambda>r. (avArtistID r, avHash r)"
    avArtistID "\<lambda>r. (avArtistID r, avHash r, avIdentity r)" deduplicateArtistNameVariations "\<lambda>r. avIdentity r \<noteq> None"
proof unfold_locales
  fix rs out r assume d: "deduplicateArtistNameVariations (map Some rs) = Inr out"
  note as = d [unfolded as_contract]
  show "distinct (map (\<lambda>r. (avArtistID r, avHash r)) out)"
    by (rule distinct_map_finer [OF avh.dedupe_slots_distinct [OF as]]) (simp add: artistNameVariationsScope_def)
  show "avArtistID ` set out \<subseteq> avArtistID ` set rs"
    using avh.dedupe_rows [OF as] by (fastforce simp: artistNameVariationsSet_def)
  show "r \<in> set out \<Longrightarrow> avIdentity r \<noteq> None"
    by (drule avh.dedupe_rows [OF as]) (auto simp: artistNameVariationsSet_def)
qed

interpretation artistURLChunk: chunk_relation "tsClause artistURLTable" "\<lambda>r. (auArtistID r, auHash r)"
    auArtistID "\<lambda>r. (auArtistID r, auHash r, auIdentity r)" deduplicateArtistURLs "\<lambda>r. auIdentity r \<noteq> None"
proof unfold_locales
  fix rs out r assume d: "deduplicateArtistURLs (map Some rs) = Inr out"
  note as = d [unfolded as_contract]
  show "distinct (map (\<lambda>r. (auArtistID r, auHash r)) out)"
    by (rule distinct_map_finer [OF auh.dedupe_slots_distinct [OF as]]) (simp add: artistURLsScope_def)
  show "auArtistID ` set out \<subseteq> auArtistID ` set rs"
    using auh.dedupe_rows [OF as] by (fastforce simp: artistURLsSet_def)
  show "r \<in> set out \<Longrightarrow> auIdentity r \<noteq> None"
    by (drule auh.dedupe_rows [OF as]) (auto simp: artistURLsSet_def)
qed

interpretation labelURLChunk: chunk_relation "tsClause labelURLTable" "\<lambda>r. (luLabelID r, luHash r)"
    luLabelID "\<lambda>r. (luLabelID r, luHash r, luIdentity r)" deduplicateLabelURLs "\<lambda>r. luIdentity r \<noteq> None"
proof unfold_locales
  fix rs out r assume d: "deduplicateLabelURLs (map Some rs) = Inr out"
  note as = d [unfolded as_contract]
  show "distinct (map (\<lambda>r. (luLabelID r, luHash r)) out)"
    by (rule distinct_map_finer [OF luh.dedupe_slots_distinct [OF as]]) (simp add: labelURLsScope_def)
  show "luLabelID ` set out \<subseteq> luLabelID ` set rs"
    using luh.dedupe_rows [OF as] by (fastforce simp: labelURLsSet_def)
  show "r \<in> set out \<Longrightarrow> luIdentity r \<noteq> None"
    by (drule luh.dedupe_rows [OF as]) (auto simp: labelURLsSet_def)
qed

interpretation labelSubLabelChunk: chunk_relation "tsClause labelSubLabelTable" "\<lambda>r. (lsParentLabelID r, lsSubLabelID r)"
    lsParentLabelID "\<lambda>r. (lsParentLabelID r, lsSubLabelID r)" deduplicateLabelSubLabels "\<lambda>_. True"
proof unfold_locales
  fix rs out assume d: "deduplicateLabelSubLabels (map Some rs) = Inr out"
  note laws = lsk.dedupe_laws [OF d [unfolded deduplicateLabelSubLabels_def]]
  show "distinct (map (\<lambda>r. (lsParentLabelID r, lsSubLabelID r)) out)" using laws(1) by (simp add: labelSubLabelsKey_def [abs_def])
  show "lsParentLabelID ` set out \<subseteq> lsParentLabelID ` set rs" using laws(2) by (rule image_mono)
qed simp

interpretation masterArtistChunk: chunk_relation "tsClause masterArtistTable" "\<lambda>r. (mtMasterID r, mtArtistID r)"
    mtMasterID "\<lambda>r. (mtMasterID r, mtArtistID r)" deduplicateMasterArtists "\<lambda>_. True"
proof unfold_locales
  fix rs out assume d: "deduplicateMasterArtists (map Some rs) = Inr out"
  note laws = mtk.dedupe_laws [OF d [unfolded deduplicateMasterArtists_def]]
  show "distinct (map (\<lambda>r. (mtMasterID r, mtArtistID r)) out)" using laws(1) by (simp add: masterArtistsKey_def [abs_def])
  show "mtMasterID ` set out \<subseteq> mtMasterID ` set rs" using laws(2) by (rule image_mono)
qed simp

interpretation masterGenreChunk: chunk_relation "tsClause masterGenreTable" "\<lambda>r. (mgMasterID r, mgGenre r)"
    mgMasterID "\<lambda>r. (mgMasterID r, mgGenre r)" deduplicateMasterGenres "\<lambda>_. True"
proof unfold_locales
  fix rs out assume d: "deduplicateMasterGenres (map Some rs) = Inr out"
  note laws = mgk.dedupe_laws [OF d [unfolded deduplicateMasterGenres_def]]
  show "distinct (map (\<lambda>r. (mgMasterID r, mgGenre r)) out)" using laws(1) by (simp add: masterGenresKey_def [abs_def])
  show "mgMasterID ` set out \<subseteq> mgMasterID ` set rs" using laws(2) by (rule image_mono)
qed simp

interpretation masterStyleChunk: chunk_relation "tsClause masterStyleTable" "\<lambda>r. (msMasterID r, msStyle r)"
    msMasterID "\<lambda>r. (msMasterID r, msStyle r)" deduplicateMasterStyles "\<lambda>_. True"
proof unfold_locales
  fix rs out assume d: "deduplicateMasterStyles (map Some rs) = Inr out"
  note laws = msk.dedupe_laws [OF d [unfolded deduplicateMasterStyles_def]]
  show "distinct (map (\<lambda>r. (msMasterID r, msStyle r)) out)" using laws(1) by (simp add: masterStylesKey_def [abs_def])
  show "msMasterID ` set out \<subseteq> msMasterID ` set rs" using laws(2) by (rule image_mono)
qed simp

interpretation masterVideoChunk: chunk_relation "tsClause masterVideoTable" "\<lambda>r. (mvMasterID r, mvHash r)"
    mvMasterID "\<lambda>r. (mvMasterID r, mvHash r, mvIdentity r)" deduplicateMasterVideos "\<lambda>r. mvIdentity r \<noteq> None"
proof unfold_locales
  fix rs out r assume d: "deduplicateMasterVideos (map Some rs) = Inr out"
  note as = d [unfolded as_contract]
  show "distinct (map (\<lambda>r. (mvMasterID r, mvHash r)) out)"
    by (rule distinct_map_finer [OF mvh.dedupe_slots_distinct [OF as]]) (simp add: masterVideosScope_def)
  show "mvMasterID ` set out \<subseteq> mvMasterID ` set rs"
    using mvh.dedupe_rows [OF as] by (fastforce simp: masterVideosSet_def)
  show "r \<in> set out \<Longrightarrow> mvIdentity r \<noteq> None"
    by (drule mvh.dedupe_rows [OF as]) (auto simp: masterVideosSet_def)
qed

interpretation releaseArtistChunk: chunk_relation "tsClause releaseArtistTable" "\<lambda>r. (rtReleaseItemID r, rtArtistID r)"
    rtReleaseItemID "\<lambda>r. (rtReleaseItemID r, rtArtistID r)" deduplicateReleaseArtists "\<lambda>_. True"
proof unfold_locales
  fix rs out assume d: "deduplicateReleaseArtists (map Some rs) = Inr out"
  note laws = rtk.dedupe_laws [OF d [unfolded deduplicateReleaseArtists_def]]
  show "distinct (map (\<lambda>r. (rtReleaseItemID r, rtArtistID r)) out)" using laws(1) by (simp add: releaseArtistsKey_def [abs_def])
  show "rtReleaseItemID ` set out \<subseteq> rtReleaseItemID ` set rs" using laws(2) by (rule image_mono)
qed simp

interpretation releaseCreditedArtistChunk: chunk_relation "tsClause releaseCreditedArtistTable" "\<lambda>r. (rcReleaseItemID r, rcArtistID r, rcHash r)"
    rcReleaseItemID "\<lambda>r. (rcReleaseItemID r, rcArtistID r, rcHash r, rcIdentity r)" deduplicateReleaseCreditedArtists "\<lambda>r. rcIdentity r \<noteq> None"
proof unfold_locales
  fix rs out r assume d: "deduplicateReleaseCreditedArtists (map Some rs) = Inr out"
  note as = d [unfolded as_contract]
  show "distinct (map (\<lambda>r. (rcReleaseItemID r, rcArtistID r, rcHash r)) out)"
    by (rule distinct_map_finer [OF rch.dedupe_slots_distinct [OF as]]) (simp add: releaseCreditedArtistsScope_def)
  show "rcReleaseItemID ` set out \<subseteq> rcReleaseItemID ` set rs"
    using rch.dedupe_rows [OF as] by (fastforce simp: releaseCreditedArtistsSet_def)
  show "r \<in> set out \<Longrightarrow> rcIdentity r \<noteq> None"
    by (drule rch.dedupe_rows [OF as]) (auto simp: releaseCreditedArtistsSet_def)
qed

interpretation releaseWorkChunk: chunk_relation "tsClause releaseWorkTable" "\<lambda>r. (rwReleaseItemID r, rwLabelID r, rwHash r)"
    rwReleaseItemID "\<lambda>r. (rwReleaseItemID r, rwLabelID r, rwHash r, rwIdentity r)" deduplicateReleaseWorks "\<lambda>r. rwIdentity r \<noteq> None"
proof unfold_locales
  fix rs out r assume d: "deduplicateReleaseWorks (map Some rs) = Inr out"
  note as = d [unfolded as_contract]
  show "distinct (map (\<lambda>r. (rwReleaseItemID r, rwLabelID r, rwHash r)) out)"
    by (rule distinct_map_finer [OF rwh.dedupe_slots_distinct [OF as]]) (simp add: releaseWorksScope_def)
  show "rwReleaseItemID ` set out \<subseteq> rwReleaseItemID ` set rs"
    using rwh.dedupe_rows [OF as] by (fastforce simp: releaseWorksSet_def)
  show "r \<in> set out \<Longrightarrow> rwIdentity r \<noteq> None"
    by (drule rwh.dedupe_rows [OF as]) (auto simp: releaseWorksSet_def)
qed

interpretation releaseStyleChunk: chunk_relation "tsClause releaseStyleTable" "\<lambda>r. (rsReleaseItemID r, rsStyle r)"
    rsReleaseItemID "\<lambda>r. (rsReleaseItemID r, rsStyle r)" deduplicateReleaseStyles "\<lambda>_. True"
proof unfold_locales
  fix rs out assume d: "deduplicateReleaseStyles (map Some rs) = Inr out"
  note laws = rsk.dedupe_laws [OF d [unfolded deduplicateReleaseStyles_def]]
  show "distinct (map (\<lambda>r. (rsReleaseItemID r, rsStyle r)) out)" using laws(1) by (simp add: releaseStylesKey_def [abs_def])
  show "rsReleaseItemID ` set out \<subseteq> rsReleaseItemID ` set rs" using laws(2) by (rule image_mono)
qed simp

interpretation releaseGenreChunk: chunk_relation "tsClause releaseGenreTable" "\<lambda>r. (rgReleaseItemID r, rgGenre r)"
    rgReleaseItemID "\<lambda>r. (rgReleaseItemID r, rgGenre r)" deduplicateReleaseGenres "\<lambda>_. True"
proof unfold_locales
  fix rs out assume d: "deduplicateReleaseGenres (map Some rs) = Inr out"
  note laws = rgk.dedupe_laws [OF d [unfolded deduplicateReleaseGenres_def]]
  show "distinct (map (\<lambda>r. (rgReleaseItemID r, rgGenre r)) out)" using laws(1) by (simp add: releaseGenresKey_def [abs_def])
  show "rgReleaseItemID ` set out \<subseteq> rgReleaseItemID ` set rs" using laws(2) by (rule image_mono)
qed simp

interpretation labelReleaseChunk: chunk_relation "tsClause (labelReleaseTable True)" "\<lambda>r. (lrReleaseItemID r, lrLabelID r, lrCategoryNotation r)"
    lrReleaseItemID "\<lambda>r. (lrReleaseItemID r, lrLabelID r, lrCategoryNotation r)" deduplicateLabelReleaseItems "\<lambda>_. True"
proof unfold_locales
  fix rs out assume d: "deduplicateLabelReleaseItems (map Some rs) = Inr out"
  note laws = lrk.dedupe_laws [OF d [unfolded deduplicateLabelReleaseItems_def]]
  show "distinct (map (\<lambda>r. (lrReleaseItemID r, lrLabelID r, lrCategoryNotation r)) out)"
    by (rule distinct_map_finer [OF laws(1)]) (simp add: labelReleaseItemsKey_def newNullableStringKey_inject)
  show "lrReleaseItemID ` set out \<subseteq> lrReleaseItemID ` set rs" using laws(2) by (rule image_mono)
qed simp

interpretation releaseFormatChunk: chunk_relation "tsClause releaseFormatTable" "\<lambda>r. (rfReleaseItemID r, rfHash r)"
    rfReleaseItemID "\<lambda>r. (rfReleaseItemID r, rfHash r, rfIdentity r)" deduplicateReleaseFormats "\<lambda>r. rfIdentity r \<noteq> None"
proof unfold_locales
  fix rs out r assume "deduplicateReleaseFormats (map Some rs) = Inr out"
  then obtain fs where "canonicalizeFormats 0 (map Some rs) = Inr fs" and as0:
      "rfh.dedupe (compatibilitySlot Format) compatibilitySlotAttemptCount ''release_item_format'' fs releaseFormatsEqual = Inr out"
    unfolding formats_as_contract by blast
  then obtain rs' where fs: "fs = map Some rs'" and ids: "map rfReleaseItemID rs' = map rfReleaseItemID rs"
    using formats_canonicalized by blast
  note as = as0 [unfolded fs]
  show "distinct (map (\<lambda>r. (rfReleaseItemID r, rfHash r)) out)"
    by (rule distinct_map_finer [OF rfh.dedupe_slots_distinct [OF as]]) (simp add: releaseFormatsScope_def)
  have "rfReleaseItemID ` set rs' = rfReleaseItemID ` set rs" using arg_cong [OF ids, of set] by simp
  moreover have "rfReleaseItemID ` set out \<subseteq> rfReleaseItemID ` set rs'"
    using rfh.dedupe_rows [OF as] by (fastforce simp: releaseFormatsSet_def)
  ultimately show "rfReleaseItemID ` set out \<subseteq> rfReleaseItemID ` set rs" by simp
  show "r \<in> set out \<Longrightarrow> rfIdentity r \<noteq> None"
    by (drule rfh.dedupe_rows [OF as]) (auto simp: releaseFormatsSet_def)
qed

interpretation releaseIdentifierChunk: chunk_relation "tsClause releaseIdentifierTable" "\<lambda>r. (rdReleaseItemID r, rdHash r)"
    rdReleaseItemID "\<lambda>r. (rdReleaseItemID r, rdHash r, rdIdentity r)" deduplicateReleaseIdentifiers "\<lambda>r. rdIdentity r \<noteq> None"
proof unfold_locales
  fix rs out r assume d: "deduplicateReleaseIdentifiers (map Some rs) = Inr out"
  note as = d [unfolded as_contract]
  show "distinct (map (\<lambda>r. (rdReleaseItemID r, rdHash r)) out)"
    by (rule distinct_map_finer [OF rdh.dedupe_slots_distinct [OF as]]) (simp add: releaseIdentifiersScope_def)
  show "rdReleaseItemID ` set out \<subseteq> rdReleaseItemID ` set rs"
    using rdh.dedupe_rows [OF as] by (fastforce simp: releaseIdentifiersSet_def)
  show "r \<in> set out \<Longrightarrow> rdIdentity r \<noteq> None"
    by (drule rdh.dedupe_rows [OF as]) (auto simp: releaseIdentifiersSet_def)
qed

interpretation releaseTrackChunk: chunk_relation "tsClause releaseTrackTable" "\<lambda>r. (rkReleaseItemID r, rkHash r)"
    rkReleaseItemID "\<lambda>r. (rkReleaseItemID r, rkHash r, rkIdentity r)" deduplicateReleaseTracks "\<lambda>r. rkIdentity r \<noteq> None"
proof unfold_locales
  fix rs out r assume d: "deduplicateReleaseTracks (map Some rs) = Inr out"
  note as = d [unfolded as_contract]
  show "distinct (map (\<lambda>r. (rkReleaseItemID r, rkHash r)) out)"
    by (rule distinct_map_finer [OF rkh.dedupe_slots_distinct [OF as]]) (simp add: releaseTracksScope_def)
  show "rkReleaseItemID ` set out \<subseteq> rkReleaseItemID ` set rs"
    using rkh.dedupe_rows [OF as] by (fastforce simp: releaseTracksSet_def)
  show "r \<in> set out \<Longrightarrow> rkIdentity r \<noteq> None"
    by (drule rkh.dedupe_rows [OF as]) (auto simp: releaseTracksSet_def)
qed

interpretation releaseVideoChunk: chunk_relation "tsClause releaseVideoTable" "\<lambda>r. (rvReleaseItemID r, rvHash r)"
    rvReleaseItemID "\<lambda>r. (rvReleaseItemID r, rvHash r, rvIdentity r)" deduplicateReleaseVideos "\<lambda>r. rvIdentity r \<noteq> None"
proof unfold_locales
  fix rs out r assume d: "deduplicateReleaseVideos (map Some rs) = Inr out"
  note as = d [unfolded as_contract]
  show "distinct (map (\<lambda>r. (rvReleaseItemID r, rvHash r)) out)"
    by (rule distinct_map_finer [OF rvh.dedupe_slots_distinct [OF as]]) (simp add: releaseVideosScope_def)
  show "rvReleaseItemID ` set out \<subseteq> rvReleaseItemID ` set rs"
    using rvh.dedupe_rows [OF as] by (fastforce simp: releaseVideosSet_def)
  show "r \<in> set out \<Longrightarrow> rvIdentity r \<noteq> None"
    by (drule rvh.dedupe_rows [OF as]) (auto simp: releaseVideosSet_def)
qed

section \<open>Every call is the specification\<close>

lemma artistAlias_by:
  "reconcileIntegerRelation env ord tab artistAliasRelation (length roots > 0) roots incoming aaArtistID aaAliasID =
    reconcileBy env ord tab ''artist_alias'' aaArtistID (\<lambda>r. (aaArtistID r, aaAliasID r)) roots incoming"
  using reconcileInteger_by [of env ord tab artistAliasRelation roots incoming]
  by (intro ext) (simp add: artistAliasRelation_def)

lemma artistGroup_by:
  "reconcileIntegerRelation env ord tab artistGroupRelation (length roots > 0) roots incoming agArtistID agGroupID =
    reconcileBy env ord tab ''artist_group'' agArtistID (\<lambda>r. (agArtistID r, agGroupID r)) roots incoming"
  using reconcileInteger_by [of env ord tab artistGroupRelation roots incoming]
  by (intro ext) (simp add: artistGroupRelation_def)

lemma artistMember_by:
  "reconcileIntegerRelation env ord tab artistMemberRelation (length roots > 0) roots incoming amArtistID amMemberID =
    reconcileBy env ord tab ''artist_member'' amArtistID (\<lambda>r. (amArtistID r, amMemberID r)) roots incoming"
  using reconcileInteger_by [of env ord tab artistMemberRelation roots incoming]
  by (intro ext) (simp add: artistMemberRelation_def)

lemma artistNameVariation_by:
  assumes "\<forall>r \<in> set incoming. avIdentity r \<noteq> None"
  shows "reconcileDigestIntegerRelation env ord tab artistNameVariationRelation (length roots > 0) roots incoming avArtistID avHash avIdentity =
    reconcileBy env ord tab ''artist_name_variation'' avArtistID (\<lambda>r. (avArtistID r, avHash r, avIdentity r)) roots incoming"
  using reconcileDigestInteger_by [of incoming artistNameVariationRelation env ord tab roots] assms
  by (intro ext) (simp add: artistNameVariationRelation_def)

lemma artistURL_by:
  assumes "\<forall>r \<in> set incoming. auIdentity r \<noteq> None"
  shows "reconcileDigestIntegerRelation env ord tab artistURLRelation (length roots > 0) roots incoming auArtistID auHash auIdentity =
    reconcileBy env ord tab ''artist_url'' auArtistID (\<lambda>r. (auArtistID r, auHash r, auIdentity r)) roots incoming"
  using reconcileDigestInteger_by [of incoming artistURLRelation env ord tab roots] assms
  by (intro ext) (simp add: artistURLRelation_def)

lemma labelURL_by:
  assumes "\<forall>r \<in> set incoming. luIdentity r \<noteq> None"
  shows "reconcileDigestIntegerRelation env ord tab labelURLRelation (length roots > 0) roots incoming luLabelID luHash luIdentity =
    reconcileBy env ord tab ''label_url'' luLabelID (\<lambda>r. (luLabelID r, luHash r, luIdentity r)) roots incoming"
  using reconcileDigestInteger_by [of incoming labelURLRelation env ord tab roots] assms
  by (intro ext) (simp add: labelURLRelation_def)

lemma labelSubLabel_by:
  "reconcileIntegerRelation env ord tab labelSubLabelRelation (length roots > 0) roots incoming lsParentLabelID lsSubLabelID =
    reconcileBy env ord tab ''label_sub_label'' lsParentLabelID (\<lambda>r. (lsParentLabelID r, lsSubLabelID r)) roots incoming"
  using reconcileInteger_by [of env ord tab labelSubLabelRelation roots incoming]
  by (intro ext) (simp add: labelSubLabelRelation_def)

lemma masterArtist_by:
  "reconcileIntegerRelation env ord tab masterArtistRelation (length roots > 0) roots incoming mtMasterID mtArtistID =
    reconcileBy env ord tab ''master_artist'' mtMasterID (\<lambda>r. (mtMasterID r, mtArtistID r)) roots incoming"
  using reconcileInteger_by [of env ord tab masterArtistRelation roots incoming]
  by (intro ext) (simp add: masterArtistRelation_def)

lemma masterGenre_by:
  "reconcileTextRelation env ord tab masterGenreRelation (length roots > 0) roots incoming mgMasterID mgGenre =
    reconcileBy env ord tab ''master_genre'' mgMasterID (\<lambda>r. (mgMasterID r, mgGenre r)) roots incoming"
  using reconcileText_by [of env ord tab masterGenreRelation roots incoming]
  by (intro ext) (simp add: masterGenreRelation_def)

lemma masterStyle_by:
  "reconcileTextRelation env ord tab masterStyleRelation (length roots > 0) roots incoming msMasterID msStyle =
    reconcileBy env ord tab ''master_style'' msMasterID (\<lambda>r. (msMasterID r, msStyle r)) roots incoming"
  using reconcileText_by [of env ord tab masterStyleRelation roots incoming]
  by (intro ext) (simp add: masterStyleRelation_def)

lemma masterVideo_by:
  assumes "\<forall>r \<in> set incoming. mvIdentity r \<noteq> None"
  shows "reconcileDigestIntegerRelation env ord tab masterVideoRelation (length roots > 0) roots incoming mvMasterID mvHash mvIdentity =
    reconcileBy env ord tab ''master_video'' mvMasterID (\<lambda>r. (mvMasterID r, mvHash r, mvIdentity r)) roots incoming"
  using reconcileDigestInteger_by [of incoming masterVideoRelation env ord tab roots] assms
  by (intro ext) (simp add: masterVideoRelation_def)

lemma releaseArtist_by:
  "reconcileIntegerRelation env ord tab releaseArtistRelation (length roots > 0) roots incoming rtReleaseItemID rtArtistID =
    reconcileBy env ord tab ''release_item_artist'' rtReleaseItemID (\<lambda>r. (rtReleaseItemID r, rtArtistID r)) roots incoming"
  using reconcileInteger_by [of env ord tab releaseArtistRelation roots incoming]
  by (intro ext) (simp add: releaseArtistRelation_def)

lemma releaseCreditedArtist_by:
  assumes "\<forall>r \<in> set incoming. rcIdentity r \<noteq> None"
  shows "reconcileDigestTwoIntegerKeyRelation env ord tab releaseCreditedArtistRelation (length roots > 0) roots incoming rcReleaseItemID rcArtistID rcHash rcIdentity =
    reconcileBy env ord tab ''release_item_credited_artist'' rcReleaseItemID (\<lambda>r. (rcReleaseItemID r, rcArtistID r, rcHash r, rcIdentity r)) roots incoming"
  using reconcileDigestTwoInteger_by [of incoming releaseCreditedArtistRelation env ord tab roots] assms
  by (intro ext) (simp add: releaseCreditedArtistRelation_def)

lemma releaseWork_by:
  assumes "\<forall>r \<in> set incoming. rwIdentity r \<noteq> None"
  shows "reconcileDigestTwoIntegerKeyRelation env ord tab releaseWorkRelation (length roots > 0) roots incoming rwReleaseItemID rwLabelID rwHash rwIdentity =
    reconcileBy env ord tab ''release_item_work'' rwReleaseItemID (\<lambda>r. (rwReleaseItemID r, rwLabelID r, rwHash r, rwIdentity r)) roots incoming"
  using reconcileDigestTwoInteger_by [of incoming releaseWorkRelation env ord tab roots] assms
  by (intro ext) (simp add: releaseWorkRelation_def)

lemma releaseStyle_by:
  "reconcileTextRelation env ord tab releaseStyleRelation (length roots > 0) roots incoming rsReleaseItemID rsStyle =
    reconcileBy env ord tab ''release_item_style'' rsReleaseItemID (\<lambda>r. (rsReleaseItemID r, rsStyle r)) roots incoming"
  using reconcileText_by [of env ord tab releaseStyleRelation roots incoming]
  by (intro ext) (simp add: releaseStyleRelation_def)

lemma releaseGenre_by:
  "reconcileTextRelation env ord tab releaseGenreRelation (length roots > 0) roots incoming rgReleaseItemID rgGenre =
    reconcileBy env ord tab ''release_item_genre'' rgReleaseItemID (\<lambda>r. (rgReleaseItemID r, rgGenre r)) roots incoming"
  using reconcileText_by [of env ord tab releaseGenreRelation roots incoming]
  by (intro ext) (simp add: releaseGenreRelation_def)

lemma labelRelease_by:
  "reconcileIntegerNullableTextKeyRelation env ord tab labelReleaseRelation (length roots > 0) roots incoming
      lrReleaseItemID lrLabelID lrCategoryNotation =
    reconcileBy env ord tab ''label_release_item'' lrReleaseItemID
      (\<lambda>r. (lrReleaseItemID r, lrLabelID r, lrCategoryNotation r)) roots incoming"
  using reconcileNullableText_by [of env ord tab labelReleaseRelation roots incoming]
  by (intro ext) (simp add: labelReleaseRelation_def)

lemma releaseFormat_by:
  assumes "\<forall>r \<in> set incoming. rfIdentity r \<noteq> None"
  shows "reconcileDigestIntegerRelation env ord tab releaseFormatRelation (length roots > 0) roots incoming rfReleaseItemID rfHash rfIdentity =
    reconcileBy env ord tab ''release_item_format'' rfReleaseItemID (\<lambda>r. (rfReleaseItemID r, rfHash r, rfIdentity r)) roots incoming"
  using reconcileDigestInteger_by [of incoming releaseFormatRelation env ord tab roots] assms
  by (intro ext) (simp add: releaseFormatRelation_def)

lemma releaseIdentifier_by:
  assumes "\<forall>r \<in> set incoming. rdIdentity r \<noteq> None"
  shows "reconcileDigestIntegerRelation env ord tab releaseIdentifierRelation (length roots > 0) roots incoming rdReleaseItemID rdHash rdIdentity =
    reconcileBy env ord tab ''release_item_identifier'' rdReleaseItemID (\<lambda>r. (rdReleaseItemID r, rdHash r, rdIdentity r)) roots incoming"
  using reconcileDigestInteger_by [of incoming releaseIdentifierRelation env ord tab roots] assms
  by (intro ext) (simp add: releaseIdentifierRelation_def)

lemma releaseTrack_by:
  assumes "\<forall>r \<in> set incoming. rkIdentity r \<noteq> None"
  shows "reconcileDigestIntegerRelation env ord tab releaseTrackRelation (length roots > 0) roots incoming rkReleaseItemID rkHash rkIdentity =
    reconcileBy env ord tab ''release_item_track'' rkReleaseItemID (\<lambda>r. (rkReleaseItemID r, rkHash r, rkIdentity r)) roots incoming"
  using reconcileDigestInteger_by [of incoming releaseTrackRelation env ord tab roots] assms
  by (intro ext) (simp add: releaseTrackRelation_def)

lemma releaseVideo_by:
  assumes "\<forall>r \<in> set incoming. rvIdentity r \<noteq> None"
  shows "reconcileDigestIntegerRelation env ord tab releaseVideoRelation (length roots > 0) roots incoming rvReleaseItemID rvHash rvIdentity =
    reconcileBy env ord tab ''release_item_video'' rvReleaseItemID (\<lambda>r. (rvReleaseItemID r, rvHash r, rvIdentity r)) roots incoming"
  using reconcileDigestInteger_by [of incoming releaseVideoRelation env ord tab roots] assms
  by (intro ext) (simp add: releaseVideoRelation_def)

end
