(* ===== verification/Chunk_Convergence.thy ===== *)
theory Chunk_Convergence
  imports Relation_Contracts
begin

text \<open>
  What a committed chunk leaves in the catalog. For every entity: each relation table holds, for
  the roots of the chunk, exactly the canonical rows of the chunk; rows of other roots, rows that
  were already right and all other tables are untouched; the conflict keys stay unique; and a
  chunk the catalog already agrees with changes nothing and counts nothing.
\<close>

section \<open>Keys of the catalog\<close>

definition catalogKeyed :: "catalog \<Rightarrow> bool" where
  "catalogKeyed c \<longleftrightarrow>
     distinct (map arID (tArtist c)) \<and>
     distinct (map laID (tLabel c)) \<and>
     distinct (map maID (tMaster c)) \<and>
     distinct (map riID (tReleaseItem c)) \<and>
     distinct (map gnName (tGenre c)) \<and>
     distinct (map syName (tStyle c)) \<and>
     distinct (map (\<lambda>r. (aaArtistID r, aaAliasID r)) (tArtistAlias c)) \<and>
     distinct (map (\<lambda>r. (agArtistID r, agGroupID r)) (tArtistGroup c)) \<and>
     distinct (map (\<lambda>r. (amArtistID r, amMemberID r)) (tArtistMember c)) \<and>
     distinct (map (\<lambda>r. (avArtistID r, avHash r)) (tArtistNameVariation c)) \<and>
     distinct (map (\<lambda>r. (auArtistID r, auHash r)) (tArtistURL c)) \<and>
     distinct (map (\<lambda>r. (luLabelID r, luHash r)) (tLabelURL c)) \<and>
     distinct (map (\<lambda>r. (lsParentLabelID r, lsSubLabelID r)) (tLabelSubLabel c)) \<and>
     distinct (map (\<lambda>r. (mtMasterID r, mtArtistID r)) (tMasterArtist c)) \<and>
     distinct (map (\<lambda>r. (mgMasterID r, mgGenre r)) (tMasterGenre c)) \<and>
     distinct (map (\<lambda>r. (msMasterID r, msStyle r)) (tMasterStyle c)) \<and>
     distinct (map (\<lambda>r. (mvMasterID r, mvHash r)) (tMasterVideo c)) \<and>
     distinct (map (\<lambda>r. (rtReleaseItemID r, rtArtistID r)) (tReleaseArtist c)) \<and>
     distinct (map (\<lambda>r. (rcReleaseItemID r, rcArtistID r, rcHash r)) (tReleaseCreditedArtist c)) \<and>
     distinct (map (\<lambda>r. (rwReleaseItemID r, rwLabelID r, rwHash r)) (tReleaseWork c)) \<and>
     distinct (map (\<lambda>r. (rsReleaseItemID r, rsStyle r)) (tReleaseStyle c)) \<and>
     distinct (map (\<lambda>r. (rgReleaseItemID r, rgGenre r)) (tReleaseGenre c)) \<and>
     distinct (map (\<lambda>r. (lrReleaseItemID r, lrLabelID r, lrCategoryNotation r)) (tLabelRelease c)) \<and>
     distinct (map (\<lambda>r. (rfReleaseItemID r, rfHash r)) (tReleaseFormat c)) \<and>
     distinct (map (\<lambda>r. (rdReleaseItemID r, rdHash r)) (tReleaseIdentifier c)) \<and>
     distinct (map (\<lambda>r. (rkReleaseItemID r, rkHash r)) (tReleaseTrack c)) \<and>
     distinct (map (\<lambda>r. (rvReleaseItemID r, rvHash r)) (tReleaseVideo c))"

lemma catalogKeyed_unique [dest]:
  assumes "catalogKeyed c"
  shows "distinct (map arID (tArtist c))"
    and "distinct (map laID (tLabel c))"
    and "distinct (map maID (tMaster c))"
    and "distinct (map riID (tReleaseItem c))"
    and "distinct (map gnName (tGenre c))"
    and "distinct (map syName (tStyle c))"
    and "distinct (map (\<lambda>r. (aaArtistID r, aaAliasID r)) (tArtistAlias c))"
    and "distinct (map (\<lambda>r. (agArtistID r, agGroupID r)) (tArtistGroup c))"
    and "distinct (map (\<lambda>r. (amArtistID r, amMemberID r)) (tArtistMember c))"
    and "distinct (map (\<lambda>r. (avArtistID r, avHash r)) (tArtistNameVariation c))"
    and "distinct (map (\<lambda>r. (auArtistID r, auHash r)) (tArtistURL c))"
    and "distinct (map (\<lambda>r. (luLabelID r, luHash r)) (tLabelURL c))"
    and "distinct (map (\<lambda>r. (lsParentLabelID r, lsSubLabelID r)) (tLabelSubLabel c))"
    and "distinct (map (\<lambda>r. (mtMasterID r, mtArtistID r)) (tMasterArtist c))"
    and "distinct (map (\<lambda>r. (mgMasterID r, mgGenre r)) (tMasterGenre c))"
    and "distinct (map (\<lambda>r. (msMasterID r, msStyle r)) (tMasterStyle c))"
    and "distinct (map (\<lambda>r. (mvMasterID r, mvHash r)) (tMasterVideo c))"
    and "distinct (map (\<lambda>r. (rtReleaseItemID r, rtArtistID r)) (tReleaseArtist c))"
    and "distinct (map (\<lambda>r. (rcReleaseItemID r, rcArtistID r, rcHash r)) (tReleaseCreditedArtist c))"
    and "distinct (map (\<lambda>r. (rwReleaseItemID r, rwLabelID r, rwHash r)) (tReleaseWork c))"
    and "distinct (map (\<lambda>r. (rsReleaseItemID r, rsStyle r)) (tReleaseStyle c))"
    and "distinct (map (\<lambda>r. (rgReleaseItemID r, rgGenre r)) (tReleaseGenre c))"
    and "distinct (map (\<lambda>r. (lrReleaseItemID r, lrLabelID r, lrCategoryNotation r)) (tLabelRelease c))"
    and "distinct (map (\<lambda>r. (rfReleaseItemID r, rfHash r)) (tReleaseFormat c))"
    and "distinct (map (\<lambda>r. (rdReleaseItemID r, rdHash r)) (tReleaseIdentifier c))"
    and "distinct (map (\<lambda>r. (rkReleaseItemID r, rkHash r)) (tReleaseTrack c))"
    and "distinct (map (\<lambda>r. (rvReleaseItemID r, rvHash r)) (tReleaseVideo c))"
  using assms unfolding catalogKeyed_def by simp_all

section \<open>A run of reconcilers\<close>

lemma reconcileFrom_trace:
  assumes "reconcileFrom acc ws c = (r, c')" and "\<not> isErr r"
  obtains s v where "s 0 = c" and "s (length ws) = c'"
    and "\<And>i. i < length ws \<Longrightarrow> (ws ! i) (s i) = (v i, s (Suc i)) \<and> \<not> isErr (v i)"
    and "result.count r = result.count acc + (\<Sum>i < length ws. result.count (v i))"
  using assms
proof (induction ws arbitrary: acc c thesis)
  case Nil
  show ?case by (rule Nil(1) [of "\<lambda>_. c" "\<lambda>_. newResult 0 None"]) (use Nil(2) in auto)
next
  case (Cons w ws)
  obtain v0 c1 where w: "w c = (v0, c1)" by fastforce
  have ok: "\<not> isErr v0" and rest: "reconcileFrom (sumResult acc (Some v0)) ws c1 = (r, c')"
    using Cons(3,4) w by (auto simp: Let_def split: if_splits)
  obtain s v where sv: "s 0 = c1" "s (length ws) = c'"
    "\<And>i. i < length ws \<Longrightarrow> (ws ! i) (s i) = (v i, s (Suc i)) \<and> \<not> isErr (v i)"
    "result.count r = result.count (sumResult acc (Some v0)) + (\<Sum>i < length ws. result.count (v i))"
    using Cons.IH [OF _ rest Cons(4)] by blast
  show ?case
  proof (rule Cons(2) [of "\<lambda>i. case i of 0 \<Rightarrow> c | Suc j \<Rightarrow> s j" "\<lambda>i. case i of 0 \<Rightarrow> v0 | Suc j \<Rightarrow> v j"])
    show "((w # ws) ! i) (case i of 0 \<Rightarrow> c | Suc j \<Rightarrow> s j) =
        (case i of 0 \<Rightarrow> v0 | Suc j \<Rightarrow> v j, case Suc i of 0 \<Rightarrow> c | Suc j \<Rightarrow> s j) \<and>
      \<not> isErr (case i of 0 \<Rightarrow> v0 | Suc j \<Rightarrow> v j)" if "i < length (w # ws)" for i
      using that w ok sv(1,3) by (cases i) auto
  qed (use sv in \<open>simp_all add: sum.lessThan_Suc_shift del: sum.lessThan_Suc\<close>)
qed

section \<open>Collected rows\<close>

lemma joinErrors_Nil: "joinErrors es = [] \<longleftrightarrow> set es \<subseteq> {None}"
  by (induction es) (auto simp: joinErrors_def map_filter_simps split: option.splits)

lemma errorOf_None: "errorOf r = None \<longleftrightarrow> r = Inr (projr r)"
  by (cases r) (simp_all add: errorOf_def)

lemma collectFresh_mem: "r \<in> set (collectFresh key mk seen xs) \<Longrightarrow> \<exists>k. r = mk k"
  by (induction key mk seen xs rule: collectFresh.induct) (auto split: option.splits if_splits)

lemma map_filter_mem: "r \<in> set (List.map_filter f xs) \<Longrightarrow> \<exists>x \<in> set xs. f x = Some r"
  by (auto simp: List.map_filter_def)

named_theorems collected_roots \<open>the root of a collected row is the root of its item\<close>

lemma artistNameVariation_root [collected_roots]: "r \<in> set (getNameVars t x) \<Longrightarrow> avArtistID r = xarID x"
  by (auto simp: getNameVars_def Let_def dest!: map_filter_mem split: if_splits)

lemma artistAlias_root [collected_roots]: "r \<in> set (getAliases cs t x) \<Longrightarrow> aaArtistID r = xarID x"
  by (auto simp: getAliases_def Let_def dest!: map_filter_mem split: if_splits)

lemma artistGroup_root [collected_roots]: "r \<in> set (getGroups cs t x) \<Longrightarrow> agArtistID r = xarID x"
  by (auto simp: getGroups_def Let_def dest!: map_filter_mem split: if_splits)

lemma artistMember_root [collected_roots]: "r \<in> set (getMembers cs t x) \<Longrightarrow> amArtistID r = xarID x"
  by (auto simp: getMembers_def Let_def dest!: map_filter_mem split: if_splits)

lemma artistURL_root [collected_roots]: "r \<in> set (getArtistUrls t x) \<Longrightarrow> auArtistID r = xarID x"
  by (auto simp: getArtistUrls_def Let_def dest!: map_filter_mem split: if_splits)

lemma labelURL_root [collected_roots]: "r \<in> set (getLabelUrls t x) \<Longrightarrow> luLabelID r = xlrID x"
  by (auto simp: getLabelUrls_def Let_def dest!: map_filter_mem split: if_splits)

lemma labelSubLabel_root [collected_roots]: "r \<in> set (getSubLabels cs t x) \<Longrightarrow> lsParentLabelID r = xlrID x"
  by (auto simp: getSubLabels_def Let_def dest!: map_filter_mem split: if_splits)

lemma masterArtist_root [collected_roots]: "r \<in> set (getMasterArtists cs t x) \<Longrightarrow> mtMasterID r = xmrID x"
  by (auto simp: getMasterArtists_def Let_def dest!: map_filter_mem split: if_splits)

lemma masterGenre_root [collected_roots]: "r \<in> set (getMasterGenres t x) \<Longrightarrow> mgMasterID r = xmrID x"
  by (auto simp: getMasterGenres_def Let_def dest!: map_filter_mem split: if_splits)

lemma masterStyle_root [collected_roots]: "r \<in> set (getMasterStyles t x) \<Longrightarrow> msMasterID r = xmrID x"
  by (auto simp: getMasterStyles_def Let_def dest!: map_filter_mem split: if_splits)

lemma masterVideo_root [collected_roots]: "r \<in> set (getMasterVideos t x) \<Longrightarrow> mvMasterID r = xmrID x"
  by (auto simp: getMasterVideos_def Let_def dest!: map_filter_mem split: if_splits)

lemma releaseArtist_root [collected_roots]: "r \<in> set (getReleaseArtists cs t x) \<Longrightarrow> rtReleaseItemID r = xrrID x"
  by (auto simp: getReleaseArtists_def Let_def dest!: map_filter_mem split: if_splits)

lemma releaseCreditedArtist_root [collected_roots]: "r \<in> set (getCreditedArtists cs t x) \<Longrightarrow> rcReleaseItemID r = xrrID x"
  by (auto simp: getCreditedArtists_def Let_def dest!: map_filter_mem split: if_splits)

lemma releaseWork_root [collected_roots]: "r \<in> set (getWorks cs t x) \<Longrightarrow> rwReleaseItemID r = xrrID x"
  by (auto simp: getWorks_def Let_def dest!: map_filter_mem split: if_splits)

lemma releaseStyle_root [collected_roots]: "r \<in> set (getReleaseStyles t x) \<Longrightarrow> rsReleaseItemID r = xrrID x"
  by (auto simp: getReleaseStyles_def Let_def dest!: collectFresh_mem)

lemma releaseGenre_root [collected_roots]: "r \<in> set (getReleaseGenres t x) \<Longrightarrow> rgReleaseItemID r = xrrID x"
  by (auto simp: getReleaseGenres_def Let_def dest!: collectFresh_mem)

lemma labelRelease_root [collected_roots]: "r \<in> set (getLabels cs t x) \<Longrightarrow> lrReleaseItemID r = xrrID x"
  by (auto simp: getLabels_def Let_def dest!: collectFresh_mem)

lemma releaseFormat_root [collected_roots]: "r \<in> set (getFormats t x) \<Longrightarrow> rfReleaseItemID r = xrrID x"
  by (auto simp: getFormats_def Let_def dest!: map_filter_mem split: if_splits)

lemma releaseIdentifier_root [collected_roots]: "r \<in> set (getIdentifiers t x) \<Longrightarrow> rdReleaseItemID r = xrrID x"
  by (auto simp: getIdentifiers_def Let_def dest!: map_filter_mem split: if_splits)

lemma releaseTrack_root [collected_roots]: "r \<in> set (getTracks t x) \<Longrightarrow> rkReleaseItemID r = xrrID x"
  by (auto simp: getTracks_def Let_def dest!: map_filter_mem split: if_splits)

lemma releaseVideo_root [collected_roots]: "r \<in> set (getVideos t x) \<Longrightarrow> rvReleaseItemID r = xrrID x"
  by (auto simp: getVideos_def Let_def dest!: map_filter_mem split: if_splits)

section \<open>One table of a chunk\<close>

lemma artistNameVariation_step:
  assumes "onTable tArtistNameVariation tArtistNameVariation_update (reconcileDigestIntegerRelation env ord artistNameVariationTable artistNameVariationRelation (length R > 0) R incoming
        avArtistID avHash avIdentity) c = (v, c') \<and> \<not> isErr v"
    and "deduplicateArtistNameVariations (concat (map (map Some \<circ> getNameVars t) present)) = Inr incoming"
    and "distinct (map (\<lambda>r. (avArtistID r, avHash r)) (tArtistNameVariation c))"
    and "set R = set rootIDs \<inter> set (map avArtistID (tArtistNameVariation c))" and "set rootIDs = xarID ` set present"
  shows "\<exists>T. c' = c\<lparr>tArtistNameVariation := T\<rparr> \<and> reconciled avArtistID (\<lambda>r. (avArtistID r, avHash r, avIdentity r))
      (\<lambda>r. (avArtistID r, avHash r)) rootIDs incoming (tArtistNameVariation c) (result.count v) T"
proof -
  have new: "distinct (map (\<lambda>r. (avArtistID r, avHash r)) incoming)" "avArtistID ` set incoming \<subseteq> xarID ` set present"
    "\<forall>r \<in> set incoming. avIdentity r \<noteq> None"
    by (rule artistNameVariationChunk.collected [OF assms(2), where root = xarID], erule artistNameVariation_root)+
  show ?thesis
    using artistNameVariationChunk.table_reconciled [of tArtistNameVariation tArtistNameVariation_update env ord artistNameVariationTable "''artist_name_variation''" R incoming c v c' rootIDs]
      assms new(1,2) unfolding artistNameVariation_by [OF new(3)] by simp
qed

lemma artistAlias_step:
  assumes "onTable tArtistAlias tArtistAlias_update (reconcileIntegerRelation env ord artistAliasTable artistAliasRelation (length R > 0) R incoming
        aaArtistID aaAliasID) c = (v, c') \<and> \<not> isErr v"
    and "deduplicateArtistAliases (concat (map (map Some \<circ> getAliases cs t) present)) = Inr incoming"
    and "distinct (map (\<lambda>r. (aaArtistID r, aaAliasID r)) (tArtistAlias c))"
    and "set R = set rootIDs \<inter> set (map aaArtistID (tArtistAlias c))" and "set rootIDs = xarID ` set present"
  shows "\<exists>T. c' = c\<lparr>tArtistAlias := T\<rparr> \<and> reconciled aaArtistID (\<lambda>r. (aaArtistID r, aaAliasID r))
      (\<lambda>r. (aaArtistID r, aaAliasID r)) rootIDs incoming (tArtistAlias c) (result.count v) T"
proof -
  have new: "distinct (map (\<lambda>r. (aaArtistID r, aaAliasID r)) incoming)" "aaArtistID ` set incoming \<subseteq> xarID ` set present"
    by (rule artistAliasChunk.collected [OF assms(2), where root = xarID], erule artistAlias_root)+
  show ?thesis
    using artistAliasChunk.table_reconciled [of tArtistAlias tArtistAlias_update env ord artistAliasTable "''artist_alias''" R incoming c v c' rootIDs]
      assms new(1,2) unfolding artistAlias_by by simp
qed

lemma artistGroup_step:
  assumes "onTable tArtistGroup tArtistGroup_update (reconcileIntegerRelation env ord artistGroupTable artistGroupRelation (length R > 0) R incoming
        agArtistID agGroupID) c = (v, c') \<and> \<not> isErr v"
    and "deduplicateArtistGroups (concat (map (map Some \<circ> getGroups cs t) present)) = Inr incoming"
    and "distinct (map (\<lambda>r. (agArtistID r, agGroupID r)) (tArtistGroup c))"
    and "set R = set rootIDs \<inter> set (map agArtistID (tArtistGroup c))" and "set rootIDs = xarID ` set present"
  shows "\<exists>T. c' = c\<lparr>tArtistGroup := T\<rparr> \<and> reconciled agArtistID (\<lambda>r. (agArtistID r, agGroupID r))
      (\<lambda>r. (agArtistID r, agGroupID r)) rootIDs incoming (tArtistGroup c) (result.count v) T"
proof -
  have new: "distinct (map (\<lambda>r. (agArtistID r, agGroupID r)) incoming)" "agArtistID ` set incoming \<subseteq> xarID ` set present"
    by (rule artistGroupChunk.collected [OF assms(2), where root = xarID], erule artistGroup_root)+
  show ?thesis
    using artistGroupChunk.table_reconciled [of tArtistGroup tArtistGroup_update env ord artistGroupTable "''artist_group''" R incoming c v c' rootIDs]
      assms new(1,2) unfolding artistGroup_by by simp
qed

lemma artistMember_step:
  assumes "onTable tArtistMember tArtistMember_update (reconcileIntegerRelation env ord artistMemberTable artistMemberRelation (length R > 0) R incoming
        amArtistID amMemberID) c = (v, c') \<and> \<not> isErr v"
    and "deduplicateArtistMembers (concat (map (map Some \<circ> getMembers cs t) present)) = Inr incoming"
    and "distinct (map (\<lambda>r. (amArtistID r, amMemberID r)) (tArtistMember c))"
    and "set R = set rootIDs \<inter> set (map amArtistID (tArtistMember c))" and "set rootIDs = xarID ` set present"
  shows "\<exists>T. c' = c\<lparr>tArtistMember := T\<rparr> \<and> reconciled amArtistID (\<lambda>r. (amArtistID r, amMemberID r))
      (\<lambda>r. (amArtistID r, amMemberID r)) rootIDs incoming (tArtistMember c) (result.count v) T"
proof -
  have new: "distinct (map (\<lambda>r. (amArtistID r, amMemberID r)) incoming)" "amArtistID ` set incoming \<subseteq> xarID ` set present"
    by (rule artistMemberChunk.collected [OF assms(2), where root = xarID], erule artistMember_root)+
  show ?thesis
    using artistMemberChunk.table_reconciled [of tArtistMember tArtistMember_update env ord artistMemberTable "''artist_member''" R incoming c v c' rootIDs]
      assms new(1,2) unfolding artistMember_by by simp
qed

lemma artistURL_step:
  assumes "onTable tArtistURL tArtistURL_update (reconcileDigestIntegerRelation env ord artistURLTable artistURLRelation (length R > 0) R incoming
        auArtistID auHash auIdentity) c = (v, c') \<and> \<not> isErr v"
    and "deduplicateArtistURLs (concat (map (map Some \<circ> getArtistUrls t) present)) = Inr incoming"
    and "distinct (map (\<lambda>r. (auArtistID r, auHash r)) (tArtistURL c))"
    and "set R = set rootIDs \<inter> set (map auArtistID (tArtistURL c))" and "set rootIDs = xarID ` set present"
  shows "\<exists>T. c' = c\<lparr>tArtistURL := T\<rparr> \<and> reconciled auArtistID (\<lambda>r. (auArtistID r, auHash r, auIdentity r))
      (\<lambda>r. (auArtistID r, auHash r)) rootIDs incoming (tArtistURL c) (result.count v) T"
proof -
  have new: "distinct (map (\<lambda>r. (auArtistID r, auHash r)) incoming)" "auArtistID ` set incoming \<subseteq> xarID ` set present"
    "\<forall>r \<in> set incoming. auIdentity r \<noteq> None"
    by (rule artistURLChunk.collected [OF assms(2), where root = xarID], erule artistURL_root)+
  show ?thesis
    using artistURLChunk.table_reconciled [of tArtistURL tArtistURL_update env ord artistURLTable "''artist_url''" R incoming c v c' rootIDs]
      assms new(1,2) unfolding artistURL_by [OF new(3)] by simp
qed

lemma labelURL_step:
  assumes "onTable tLabelURL tLabelURL_update (reconcileDigestIntegerRelation env ord labelURLTable labelURLRelation (length R > 0) R incoming
        luLabelID luHash luIdentity) c = (v, c') \<and> \<not> isErr v"
    and "deduplicateLabelURLs (concat (map (map Some \<circ> getLabelUrls t) present)) = Inr incoming"
    and "distinct (map (\<lambda>r. (luLabelID r, luHash r)) (tLabelURL c))"
    and "set R = set rootIDs \<inter> set (map luLabelID (tLabelURL c))" and "set rootIDs = xlrID ` set present"
  shows "\<exists>T. c' = c\<lparr>tLabelURL := T\<rparr> \<and> reconciled luLabelID (\<lambda>r. (luLabelID r, luHash r, luIdentity r))
      (\<lambda>r. (luLabelID r, luHash r)) rootIDs incoming (tLabelURL c) (result.count v) T"
proof -
  have new: "distinct (map (\<lambda>r. (luLabelID r, luHash r)) incoming)" "luLabelID ` set incoming \<subseteq> xlrID ` set present"
    "\<forall>r \<in> set incoming. luIdentity r \<noteq> None"
    by (rule labelURLChunk.collected [OF assms(2), where root = xlrID], erule labelURL_root)+
  show ?thesis
    using labelURLChunk.table_reconciled [of tLabelURL tLabelURL_update env ord labelURLTable "''label_url''" R incoming c v c' rootIDs]
      assms new(1,2) unfolding labelURL_by [OF new(3)] by simp
qed

lemma labelSubLabel_step:
  assumes "onTable tLabelSubLabel tLabelSubLabel_update (reconcileIntegerRelation env ord labelSubLabelTable labelSubLabelRelation (length R > 0) R incoming
        lsParentLabelID lsSubLabelID) c = (v, c') \<and> \<not> isErr v"
    and "deduplicateLabelSubLabels (concat (map (map Some \<circ> getSubLabels cs t) present)) = Inr incoming"
    and "distinct (map (\<lambda>r. (lsParentLabelID r, lsSubLabelID r)) (tLabelSubLabel c))"
    and "set R = set rootIDs \<inter> set (map lsParentLabelID (tLabelSubLabel c))" and "set rootIDs = xlrID ` set present"
  shows "\<exists>T. c' = c\<lparr>tLabelSubLabel := T\<rparr> \<and> reconciled lsParentLabelID (\<lambda>r. (lsParentLabelID r, lsSubLabelID r))
      (\<lambda>r. (lsParentLabelID r, lsSubLabelID r)) rootIDs incoming (tLabelSubLabel c) (result.count v) T"
proof -
  have new: "distinct (map (\<lambda>r. (lsParentLabelID r, lsSubLabelID r)) incoming)" "lsParentLabelID ` set incoming \<subseteq> xlrID ` set present"
    by (rule labelSubLabelChunk.collected [OF assms(2), where root = xlrID], erule labelSubLabel_root)+
  show ?thesis
    using labelSubLabelChunk.table_reconciled [of tLabelSubLabel tLabelSubLabel_update env ord labelSubLabelTable "''label_sub_label''" R incoming c v c' rootIDs]
      assms new(1,2) unfolding labelSubLabel_by by simp
qed

lemma masterArtist_step:
  assumes "onTable tMasterArtist tMasterArtist_update (reconcileIntegerRelation env ord masterArtistTable masterArtistRelation (length R > 0) R incoming
        mtMasterID mtArtistID) c = (v, c') \<and> \<not> isErr v"
    and "deduplicateMasterArtists (concat (map (map Some \<circ> getMasterArtists cs t) present)) = Inr incoming"
    and "distinct (map (\<lambda>r. (mtMasterID r, mtArtistID r)) (tMasterArtist c))"
    and "set R = set rootIDs \<inter> set (map mtMasterID (tMasterArtist c))" and "set rootIDs = xmrID ` set present"
  shows "\<exists>T. c' = c\<lparr>tMasterArtist := T\<rparr> \<and> reconciled mtMasterID (\<lambda>r. (mtMasterID r, mtArtistID r))
      (\<lambda>r. (mtMasterID r, mtArtistID r)) rootIDs incoming (tMasterArtist c) (result.count v) T"
proof -
  have new: "distinct (map (\<lambda>r. (mtMasterID r, mtArtistID r)) incoming)" "mtMasterID ` set incoming \<subseteq> xmrID ` set present"
    by (rule masterArtistChunk.collected [OF assms(2), where root = xmrID], erule masterArtist_root)+
  show ?thesis
    using masterArtistChunk.table_reconciled [of tMasterArtist tMasterArtist_update env ord masterArtistTable "''master_artist''" R incoming c v c' rootIDs]
      assms new(1,2) unfolding masterArtist_by by simp
qed

lemma masterGenre_step:
  assumes "onTable tMasterGenre tMasterGenre_update (reconcileTextRelation env ord masterGenreTable masterGenreRelation (length R > 0) R incoming
        mgMasterID mgGenre) c = (v, c') \<and> \<not> isErr v"
    and "deduplicateMasterGenres (concat (map (map Some \<circ> getMasterGenres t) present)) = Inr incoming"
    and "distinct (map (\<lambda>r. (mgMasterID r, mgGenre r)) (tMasterGenre c))"
    and "set R = set rootIDs \<inter> set (map mgMasterID (tMasterGenre c))" and "set rootIDs = xmrID ` set present"
  shows "\<exists>T. c' = c\<lparr>tMasterGenre := T\<rparr> \<and> reconciled mgMasterID (\<lambda>r. (mgMasterID r, mgGenre r))
      (\<lambda>r. (mgMasterID r, mgGenre r)) rootIDs incoming (tMasterGenre c) (result.count v) T"
proof -
  have new: "distinct (map (\<lambda>r. (mgMasterID r, mgGenre r)) incoming)" "mgMasterID ` set incoming \<subseteq> xmrID ` set present"
    by (rule masterGenreChunk.collected [OF assms(2), where root = xmrID], erule masterGenre_root)+
  show ?thesis
    using masterGenreChunk.table_reconciled [of tMasterGenre tMasterGenre_update env ord masterGenreTable "''master_genre''" R incoming c v c' rootIDs]
      assms new(1,2) unfolding masterGenre_by by simp
qed

lemma masterStyle_step:
  assumes "onTable tMasterStyle tMasterStyle_update (reconcileTextRelation env ord masterStyleTable masterStyleRelation (length R > 0) R incoming
        msMasterID msStyle) c = (v, c') \<and> \<not> isErr v"
    and "deduplicateMasterStyles (concat (map (map Some \<circ> getMasterStyles t) present)) = Inr incoming"
    and "distinct (map (\<lambda>r. (msMasterID r, msStyle r)) (tMasterStyle c))"
    and "set R = set rootIDs \<inter> set (map msMasterID (tMasterStyle c))" and "set rootIDs = xmrID ` set present"
  shows "\<exists>T. c' = c\<lparr>tMasterStyle := T\<rparr> \<and> reconciled msMasterID (\<lambda>r. (msMasterID r, msStyle r))
      (\<lambda>r. (msMasterID r, msStyle r)) rootIDs incoming (tMasterStyle c) (result.count v) T"
proof -
  have new: "distinct (map (\<lambda>r. (msMasterID r, msStyle r)) incoming)" "msMasterID ` set incoming \<subseteq> xmrID ` set present"
    by (rule masterStyleChunk.collected [OF assms(2), where root = xmrID], erule masterStyle_root)+
  show ?thesis
    using masterStyleChunk.table_reconciled [of tMasterStyle tMasterStyle_update env ord masterStyleTable "''master_style''" R incoming c v c' rootIDs]
      assms new(1,2) unfolding masterStyle_by by simp
qed

lemma masterVideo_step:
  assumes "onTable tMasterVideo tMasterVideo_update (reconcileDigestIntegerRelation env ord masterVideoTable masterVideoRelation (length R > 0) R incoming
        mvMasterID mvHash mvIdentity) c = (v, c') \<and> \<not> isErr v"
    and "deduplicateMasterVideos (concat (map (map Some \<circ> getMasterVideos t) present)) = Inr incoming"
    and "distinct (map (\<lambda>r. (mvMasterID r, mvHash r)) (tMasterVideo c))"
    and "set R = set rootIDs \<inter> set (map mvMasterID (tMasterVideo c))" and "set rootIDs = xmrID ` set present"
  shows "\<exists>T. c' = c\<lparr>tMasterVideo := T\<rparr> \<and> reconciled mvMasterID (\<lambda>r. (mvMasterID r, mvHash r, mvIdentity r))
      (\<lambda>r. (mvMasterID r, mvHash r)) rootIDs incoming (tMasterVideo c) (result.count v) T"
proof -
  have new: "distinct (map (\<lambda>r. (mvMasterID r, mvHash r)) incoming)" "mvMasterID ` set incoming \<subseteq> xmrID ` set present"
    "\<forall>r \<in> set incoming. mvIdentity r \<noteq> None"
    by (rule masterVideoChunk.collected [OF assms(2), where root = xmrID], erule masterVideo_root)+
  show ?thesis
    using masterVideoChunk.table_reconciled [of tMasterVideo tMasterVideo_update env ord masterVideoTable "''master_video''" R incoming c v c' rootIDs]
      assms new(1,2) unfolding masterVideo_by [OF new(3)] by simp
qed

lemma releaseArtist_step:
  assumes "onTable tReleaseArtist tReleaseArtist_update (reconcileIntegerRelation env ord releaseArtistTable releaseArtistRelation (length R > 0) R incoming
        rtReleaseItemID rtArtistID) c = (v, c') \<and> \<not> isErr v"
    and "deduplicateReleaseArtists (concat (map (map Some \<circ> getReleaseArtists cs t) present)) = Inr incoming"
    and "distinct (map (\<lambda>r. (rtReleaseItemID r, rtArtistID r)) (tReleaseArtist c))"
    and "set R = set rootIDs \<inter> set (map rtReleaseItemID (tReleaseArtist c))" and "set rootIDs = xrrID ` set present"
  shows "\<exists>T. c' = c\<lparr>tReleaseArtist := T\<rparr> \<and> reconciled rtReleaseItemID (\<lambda>r. (rtReleaseItemID r, rtArtistID r))
      (\<lambda>r. (rtReleaseItemID r, rtArtistID r)) rootIDs incoming (tReleaseArtist c) (result.count v) T"
proof -
  have new: "distinct (map (\<lambda>r. (rtReleaseItemID r, rtArtistID r)) incoming)" "rtReleaseItemID ` set incoming \<subseteq> xrrID ` set present"
    by (rule releaseArtistChunk.collected [OF assms(2), where root = xrrID], erule releaseArtist_root)+
  show ?thesis
    using releaseArtistChunk.table_reconciled [of tReleaseArtist tReleaseArtist_update env ord releaseArtistTable "''release_item_artist''" R incoming c v c' rootIDs]
      assms new(1,2) unfolding releaseArtist_by by simp
qed

lemma releaseCreditedArtist_step:
  assumes "onTable tReleaseCreditedArtist tReleaseCreditedArtist_update (reconcileDigestTwoIntegerKeyRelation env ord releaseCreditedArtistTable releaseCreditedArtistRelation (length R > 0) R incoming
        rcReleaseItemID rcArtistID rcHash rcIdentity) c = (v, c') \<and> \<not> isErr v"
    and "deduplicateReleaseCreditedArtists (concat (map (map Some \<circ> getCreditedArtists cs t) present)) = Inr incoming"
    and "distinct (map (\<lambda>r. (rcReleaseItemID r, rcArtistID r, rcHash r)) (tReleaseCreditedArtist c))"
    and "set R = set rootIDs \<inter> set (map rcReleaseItemID (tReleaseCreditedArtist c))" and "set rootIDs = xrrID ` set present"
  shows "\<exists>T. c' = c\<lparr>tReleaseCreditedArtist := T\<rparr> \<and> reconciled rcReleaseItemID (\<lambda>r. (rcReleaseItemID r, rcArtistID r, rcHash r, rcIdentity r))
      (\<lambda>r. (rcReleaseItemID r, rcArtistID r, rcHash r)) rootIDs incoming (tReleaseCreditedArtist c) (result.count v) T"
proof -
  have new: "distinct (map (\<lambda>r. (rcReleaseItemID r, rcArtistID r, rcHash r)) incoming)" "rcReleaseItemID ` set incoming \<subseteq> xrrID ` set present"
    "\<forall>r \<in> set incoming. rcIdentity r \<noteq> None"
    by (rule releaseCreditedArtistChunk.collected [OF assms(2), where root = xrrID], erule releaseCreditedArtist_root)+
  show ?thesis
    using releaseCreditedArtistChunk.table_reconciled [of tReleaseCreditedArtist tReleaseCreditedArtist_update env ord releaseCreditedArtistTable "''release_item_credited_artist''" R incoming c v c' rootIDs]
      assms new(1,2) unfolding releaseCreditedArtist_by [OF new(3)] by simp
qed

lemma releaseWork_step:
  assumes "onTable tReleaseWork tReleaseWork_update (reconcileDigestTwoIntegerKeyRelation env ord releaseWorkTable releaseWorkRelation (length R > 0) R incoming
        rwReleaseItemID rwLabelID rwHash rwIdentity) c = (v, c') \<and> \<not> isErr v"
    and "deduplicateReleaseWorks (concat (map (map Some \<circ> getWorks cs t) present)) = Inr incoming"
    and "distinct (map (\<lambda>r. (rwReleaseItemID r, rwLabelID r, rwHash r)) (tReleaseWork c))"
    and "set R = set rootIDs \<inter> set (map rwReleaseItemID (tReleaseWork c))" and "set rootIDs = xrrID ` set present"
  shows "\<exists>T. c' = c\<lparr>tReleaseWork := T\<rparr> \<and> reconciled rwReleaseItemID (\<lambda>r. (rwReleaseItemID r, rwLabelID r, rwHash r, rwIdentity r))
      (\<lambda>r. (rwReleaseItemID r, rwLabelID r, rwHash r)) rootIDs incoming (tReleaseWork c) (result.count v) T"
proof -
  have new: "distinct (map (\<lambda>r. (rwReleaseItemID r, rwLabelID r, rwHash r)) incoming)" "rwReleaseItemID ` set incoming \<subseteq> xrrID ` set present"
    "\<forall>r \<in> set incoming. rwIdentity r \<noteq> None"
    by (rule releaseWorkChunk.collected [OF assms(2), where root = xrrID], erule releaseWork_root)+
  show ?thesis
    using releaseWorkChunk.table_reconciled [of tReleaseWork tReleaseWork_update env ord releaseWorkTable "''release_item_work''" R incoming c v c' rootIDs]
      assms new(1,2) unfolding releaseWork_by [OF new(3)] by simp
qed

lemma releaseStyle_step:
  assumes "onTable tReleaseStyle tReleaseStyle_update (reconcileTextRelation env ord releaseStyleTable releaseStyleRelation (length R > 0) R incoming
        rsReleaseItemID rsStyle) c = (v, c') \<and> \<not> isErr v"
    and "deduplicateReleaseStyles (concat (map (map Some \<circ> getReleaseStyles t) present)) = Inr incoming"
    and "distinct (map (\<lambda>r. (rsReleaseItemID r, rsStyle r)) (tReleaseStyle c))"
    and "set R = set rootIDs \<inter> set (map rsReleaseItemID (tReleaseStyle c))" and "set rootIDs = xrrID ` set present"
  shows "\<exists>T. c' = c\<lparr>tReleaseStyle := T\<rparr> \<and> reconciled rsReleaseItemID (\<lambda>r. (rsReleaseItemID r, rsStyle r))
      (\<lambda>r. (rsReleaseItemID r, rsStyle r)) rootIDs incoming (tReleaseStyle c) (result.count v) T"
proof -
  have new: "distinct (map (\<lambda>r. (rsReleaseItemID r, rsStyle r)) incoming)" "rsReleaseItemID ` set incoming \<subseteq> xrrID ` set present"
    by (rule releaseStyleChunk.collected [OF assms(2), where root = xrrID], erule releaseStyle_root)+
  show ?thesis
    using releaseStyleChunk.table_reconciled [of tReleaseStyle tReleaseStyle_update env ord releaseStyleTable "''release_item_style''" R incoming c v c' rootIDs]
      assms new(1,2) unfolding releaseStyle_by by simp
qed

lemma releaseGenre_step:
  assumes "onTable tReleaseGenre tReleaseGenre_update (reconcileTextRelation env ord releaseGenreTable releaseGenreRelation (length R > 0) R incoming
        rgReleaseItemID rgGenre) c = (v, c') \<and> \<not> isErr v"
    and "deduplicateReleaseGenres (concat (map (map Some \<circ> getReleaseGenres t) present)) = Inr incoming"
    and "distinct (map (\<lambda>r. (rgReleaseItemID r, rgGenre r)) (tReleaseGenre c))"
    and "set R = set rootIDs \<inter> set (map rgReleaseItemID (tReleaseGenre c))" and "set rootIDs = xrrID ` set present"
  shows "\<exists>T. c' = c\<lparr>tReleaseGenre := T\<rparr> \<and> reconciled rgReleaseItemID (\<lambda>r. (rgReleaseItemID r, rgGenre r))
      (\<lambda>r. (rgReleaseItemID r, rgGenre r)) rootIDs incoming (tReleaseGenre c) (result.count v) T"
proof -
  have new: "distinct (map (\<lambda>r. (rgReleaseItemID r, rgGenre r)) incoming)" "rgReleaseItemID ` set incoming \<subseteq> xrrID ` set present"
    by (rule releaseGenreChunk.collected [OF assms(2), where root = xrrID], erule releaseGenre_root)+
  show ?thesis
    using releaseGenreChunk.table_reconciled [of tReleaseGenre tReleaseGenre_update env ord releaseGenreTable "''release_item_genre''" R incoming c v c' rootIDs]
      assms new(1,2) unfolding releaseGenre_by by simp
qed

lemma labelRelease_step:
  assumes "onTable tLabelRelease tLabelRelease_update (reconcileIntegerNullableTextKeyRelation env ord (labelReleaseTable True) labelReleaseRelation (length R > 0) R incoming
        lrReleaseItemID lrLabelID lrCategoryNotation) c = (v, c') \<and> \<not> isErr v"
    and "deduplicateLabelReleaseItems (concat (map (map Some \<circ> getLabels cs t) present)) = Inr incoming"
    and "distinct (map (\<lambda>r. (lrReleaseItemID r, lrLabelID r, lrCategoryNotation r)) (tLabelRelease c))"
    and "set R = set rootIDs \<inter> set (map lrReleaseItemID (tLabelRelease c))" and "set rootIDs = xrrID ` set present"
  shows "\<exists>T. c' = c\<lparr>tLabelRelease := T\<rparr> \<and> reconciled lrReleaseItemID (\<lambda>r. (lrReleaseItemID r, lrLabelID r, lrCategoryNotation r))
      (\<lambda>r. (lrReleaseItemID r, lrLabelID r, lrCategoryNotation r)) rootIDs incoming (tLabelRelease c) (result.count v) T"
proof -
  have new: "distinct (map (\<lambda>r. (lrReleaseItemID r, lrLabelID r, lrCategoryNotation r)) incoming)" "lrReleaseItemID ` set incoming \<subseteq> xrrID ` set present"
    by (rule labelReleaseChunk.collected [OF assms(2), where root = xrrID], erule labelRelease_root)+
  show ?thesis
    using labelReleaseChunk.table_reconciled [of tLabelRelease tLabelRelease_update env ord "labelReleaseTable True" "''label_release_item''" R incoming c v c' rootIDs]
      assms new(1,2) unfolding labelRelease_by by simp
qed

lemma releaseFormat_step:
  assumes "onTable tReleaseFormat tReleaseFormat_update (reconcileDigestIntegerRelation env ord releaseFormatTable releaseFormatRelation (length R > 0) R incoming
        rfReleaseItemID rfHash rfIdentity) c = (v, c') \<and> \<not> isErr v"
    and "deduplicateReleaseFormats (concat (map (map Some \<circ> getFormats t) present)) = Inr incoming"
    and "distinct (map (\<lambda>r. (rfReleaseItemID r, rfHash r)) (tReleaseFormat c))"
    and "set R = set rootIDs \<inter> set (map rfReleaseItemID (tReleaseFormat c))" and "set rootIDs = xrrID ` set present"
  shows "\<exists>T. c' = c\<lparr>tReleaseFormat := T\<rparr> \<and> reconciled rfReleaseItemID (\<lambda>r. (rfReleaseItemID r, rfHash r, rfIdentity r))
      (\<lambda>r. (rfReleaseItemID r, rfHash r)) rootIDs incoming (tReleaseFormat c) (result.count v) T"
proof -
  have new: "distinct (map (\<lambda>r. (rfReleaseItemID r, rfHash r)) incoming)" "rfReleaseItemID ` set incoming \<subseteq> xrrID ` set present"
    "\<forall>r \<in> set incoming. rfIdentity r \<noteq> None"
    by (rule releaseFormatChunk.collected [OF assms(2), where root = xrrID], erule releaseFormat_root)+
  show ?thesis
    using releaseFormatChunk.table_reconciled [of tReleaseFormat tReleaseFormat_update env ord releaseFormatTable "''release_item_format''" R incoming c v c' rootIDs]
      assms new(1,2) unfolding releaseFormat_by [OF new(3)] by simp
qed

lemma releaseIdentifier_step:
  assumes "onTable tReleaseIdentifier tReleaseIdentifier_update (reconcileDigestIntegerRelation env ord releaseIdentifierTable releaseIdentifierRelation (length R > 0) R incoming
        rdReleaseItemID rdHash rdIdentity) c = (v, c') \<and> \<not> isErr v"
    and "deduplicateReleaseIdentifiers (concat (map (map Some \<circ> getIdentifiers t) present)) = Inr incoming"
    and "distinct (map (\<lambda>r. (rdReleaseItemID r, rdHash r)) (tReleaseIdentifier c))"
    and "set R = set rootIDs \<inter> set (map rdReleaseItemID (tReleaseIdentifier c))" and "set rootIDs = xrrID ` set present"
  shows "\<exists>T. c' = c\<lparr>tReleaseIdentifier := T\<rparr> \<and> reconciled rdReleaseItemID (\<lambda>r. (rdReleaseItemID r, rdHash r, rdIdentity r))
      (\<lambda>r. (rdReleaseItemID r, rdHash r)) rootIDs incoming (tReleaseIdentifier c) (result.count v) T"
proof -
  have new: "distinct (map (\<lambda>r. (rdReleaseItemID r, rdHash r)) incoming)" "rdReleaseItemID ` set incoming \<subseteq> xrrID ` set present"
    "\<forall>r \<in> set incoming. rdIdentity r \<noteq> None"
    by (rule releaseIdentifierChunk.collected [OF assms(2), where root = xrrID], erule releaseIdentifier_root)+
  show ?thesis
    using releaseIdentifierChunk.table_reconciled [of tReleaseIdentifier tReleaseIdentifier_update env ord releaseIdentifierTable "''release_item_identifier''" R incoming c v c' rootIDs]
      assms new(1,2) unfolding releaseIdentifier_by [OF new(3)] by simp
qed

lemma releaseTrack_step:
  assumes "onTable tReleaseTrack tReleaseTrack_update (reconcileDigestIntegerRelation env ord releaseTrackTable releaseTrackRelation (length R > 0) R incoming
        rkReleaseItemID rkHash rkIdentity) c = (v, c') \<and> \<not> isErr v"
    and "deduplicateReleaseTracks (concat (map (map Some \<circ> getTracks t) present)) = Inr incoming"
    and "distinct (map (\<lambda>r. (rkReleaseItemID r, rkHash r)) (tReleaseTrack c))"
    and "set R = set rootIDs \<inter> set (map rkReleaseItemID (tReleaseTrack c))" and "set rootIDs = xrrID ` set present"
  shows "\<exists>T. c' = c\<lparr>tReleaseTrack := T\<rparr> \<and> reconciled rkReleaseItemID (\<lambda>r. (rkReleaseItemID r, rkHash r, rkIdentity r))
      (\<lambda>r. (rkReleaseItemID r, rkHash r)) rootIDs incoming (tReleaseTrack c) (result.count v) T"
proof -
  have new: "distinct (map (\<lambda>r. (rkReleaseItemID r, rkHash r)) incoming)" "rkReleaseItemID ` set incoming \<subseteq> xrrID ` set present"
    "\<forall>r \<in> set incoming. rkIdentity r \<noteq> None"
    by (rule releaseTrackChunk.collected [OF assms(2), where root = xrrID], erule releaseTrack_root)+
  show ?thesis
    using releaseTrackChunk.table_reconciled [of tReleaseTrack tReleaseTrack_update env ord releaseTrackTable "''release_item_track''" R incoming c v c' rootIDs]
      assms new(1,2) unfolding releaseTrack_by [OF new(3)] by simp
qed

lemma releaseVideo_step:
  assumes "onTable tReleaseVideo tReleaseVideo_update (reconcileDigestIntegerRelation env ord releaseVideoTable releaseVideoRelation (length R > 0) R incoming
        rvReleaseItemID rvHash rvIdentity) c = (v, c') \<and> \<not> isErr v"
    and "deduplicateReleaseVideos (concat (map (map Some \<circ> getVideos t) present)) = Inr incoming"
    and "distinct (map (\<lambda>r. (rvReleaseItemID r, rvHash r)) (tReleaseVideo c))"
    and "set R = set rootIDs \<inter> set (map rvReleaseItemID (tReleaseVideo c))" and "set rootIDs = xrrID ` set present"
  shows "\<exists>T. c' = c\<lparr>tReleaseVideo := T\<rparr> \<and> reconciled rvReleaseItemID (\<lambda>r. (rvReleaseItemID r, rvHash r, rvIdentity r))
      (\<lambda>r. (rvReleaseItemID r, rvHash r)) rootIDs incoming (tReleaseVideo c) (result.count v) T"
proof -
  have new: "distinct (map (\<lambda>r. (rvReleaseItemID r, rvHash r)) incoming)" "rvReleaseItemID ` set incoming \<subseteq> xrrID ` set present"
    "\<forall>r \<in> set incoming. rvIdentity r \<noteq> None"
    by (rule releaseVideoChunk.collected [OF assms(2), where root = xrrID], erule releaseVideo_root)+
  show ?thesis
    using releaseVideoChunk.table_reconciled [of tReleaseVideo tReleaseVideo_update env ord releaseVideoTable "''release_item_video''" R incoming c v c' rootIDs]
      assms new(1,2) unfolding releaseVideo_by [OF new(3)] by simp
qed

end
