(* ===== verification/Chunk_Spec.thy ===== *)
theory Chunk_Spec
  imports Chunk_Convergence
begin

text \<open>
  The four chunk transactions as a whole: \<open>artistConverged\<close>, \<open>labelConverged\<close>, \<open>masterConverged\<close> and
  \<open>releaseConverged\<close> say what a committed chunk leaves in the relation tables of its entity, the
  \<open>Agrees\<close> predicates when there was nothing to do.
\<close>

lemmas artist_relation_defs = artistAliasRelation_def artistGroupRelation_def artistMemberRelation_def artistNameVariationRelation_def artistURLRelation_def

lemmas label_relation_defs = labelURLRelation_def labelSubLabelRelation_def

lemmas master_relation_defs = masterArtistRelation_def masterGenreRelation_def masterStyleRelation_def masterVideoRelation_def

lemmas release_relation_defs = releaseArtistRelation_def releaseCreditedArtistRelation_def releaseWorkRelation_def releaseStyleRelation_def releaseGenreRelation_def labelReleaseRelation_def releaseFormatRelation_def releaseIdentifierRelation_def releaseTrackRelation_def releaseVideoRelation_def


section \<open>Artist chunks\<close>

definition artistConverged :: "artistChunk \<Rightarrow> catalog \<Rightarrow> catalog \<Rightarrow> bool" where
  "artistConverged rows c c' \<longleftrightarrow>
     converged aaArtistID (\<lambda>r. (aaArtistID r, aaAliasID r)) (acRootIDs rows)
       (acAliases rows) (tArtistAlias c) (tArtistAlias c') \<and>
     converged agArtistID (\<lambda>r. (agArtistID r, agGroupID r)) (acRootIDs rows)
       (acGroups rows) (tArtistGroup c) (tArtistGroup c') \<and>
     converged amArtistID (\<lambda>r. (amArtistID r, amMemberID r)) (acRootIDs rows)
       (acMembers rows) (tArtistMember c) (tArtistMember c') \<and>
     converged avArtistID (\<lambda>r. (avArtistID r, avHash r, avIdentity r)) (acRootIDs rows)
       (acNameVariations rows) (tArtistNameVariation c) (tArtistNameVariation c') \<and>
     converged auArtistID (\<lambda>r. (auArtistID r, auHash r, auIdentity r)) (acRootIDs rows)
       (acUrls rows) (tArtistURL c) (tArtistURL c')"

definition artistAgrees :: "artistChunk \<Rightarrow> catalog \<Rightarrow> bool" where
  "artistAgrees rows c \<longleftrightarrow>
     (\<lambda>r. (aaArtistID r, aaAliasID r)) ` {r \<in> set (tArtistAlias c). aaArtistID r \<in> set (acRootIDs rows)} =
       (\<lambda>r. (aaArtistID r, aaAliasID r)) ` set (acAliases rows) \<and>
     (\<lambda>r. (agArtistID r, agGroupID r)) ` {r \<in> set (tArtistGroup c). agArtistID r \<in> set (acRootIDs rows)} =
       (\<lambda>r. (agArtistID r, agGroupID r)) ` set (acGroups rows) \<and>
     (\<lambda>r. (amArtistID r, amMemberID r)) ` {r \<in> set (tArtistMember c). amArtistID r \<in> set (acRootIDs rows)} =
       (\<lambda>r. (amArtistID r, amMemberID r)) ` set (acMembers rows) \<and>
     (\<lambda>r. (avArtistID r, avHash r, avIdentity r)) ` {r \<in> set (tArtistNameVariation c). avArtistID r \<in> set (acRootIDs rows)} =
       (\<lambda>r. (avArtistID r, avHash r, avIdentity r)) ` set (acNameVariations rows) \<and>
     (\<lambda>r. (auArtistID r, auHash r, auIdentity r)) ` {r \<in> set (tArtistURL c). auArtistID r \<in> set (acRootIDs rows)} =
       (\<lambda>r. (auArtistID r, auHash r, auIdentity r)) ` set (acUrls rows)"

lemma artist_collected:
  assumes "collectArtistChunk cs t items = ([], rows)" and "present = presentItems artistSetObservedAt t items"
  shows "deduplicateArtistAliases (concat (map (map Some \<circ> getAliases cs t) present)) = Inr (acAliases rows)"
    and "deduplicateArtistGroups (concat (map (map Some \<circ> getGroups cs t) present)) = Inr (acGroups rows)"
    and "deduplicateArtistMembers (concat (map (map Some \<circ> getMembers cs t) present)) = Inr (acMembers rows)"
    and "deduplicateArtistNameVariations (concat (map (map Some \<circ> getNameVars t) present)) = Inr (acNameVariations rows)"
    and "deduplicateArtistURLs (concat (map (map Some \<circ> getArtistUrls t) present)) = Inr (acUrls rows)"
    and "set (acRootIDs rows) = xarID ` set present"
  using assms by (auto simp: collectArtistChunk_def Let_def joinErrors_Nil errorOf_None split: prod.splits)

lemma artist_reconciled:
  assumes run: "reconcileRelations (artistReconcilers env ord rows roots) c = (r, c')" "\<not> isErr r"
    and found: "findExistingRelationRoots fl (acRootIDs rows) (artistRelationRoots c) = Inr roots"
    and rows: "collectArtistChunk cs t items = ([], rows)" and keyed: "catalogKeyed c"
  shows "artistConverged rows c c' \<and> catalogKeyed c' \<and> (artistAgrees rows c \<longrightarrow> c' = c \<and> result.count r = 0)"
    and "\<exists>T0 T1 T2 T3 T4. c' = c\<lparr>tArtistAlias := T0, tArtistGroup := T1, tArtistMember := T2, tArtistNameVariation := T3, tArtistURL := T4\<rparr>"
proof -
  note new = artist_collected [OF rows refl] and unique = catalogKeyed_unique [OF keyed]
  obtain s v where s: "s 0 = c" "s (length (artistReconcilers env ord rows roots)) = c'"
    and step: "\<And>i. i < length (artistReconcilers env ord rows roots) \<Longrightarrow>
      (artistReconcilers env ord rows roots ! i) (s i) = (v i, s (Suc i)) \<and> \<not> isErr (v i)"
    and counts: "result.count r = (\<Sum>i < length (artistReconcilers env ord rows roots). result.count (v i))"
    using reconcileFrom_trace [OF run [unfolded reconcileRelations_def]] by auto
  have len: "length (artistReconcilers env ord rows roots) = 5" by (simp add: artistReconcilers_def)
  have step': "i < 5 \<Longrightarrow> j = Suc i \<Longrightarrow>
      (artistReconcilers env ord rows roots ! i) (s i) = (v i, s j) \<and> \<not> isErr (v i)" for i j
    using step len by simp
  have rts: "set (forTable roots (irTable artistAliasRelation)) = set (acRootIDs rows) \<inter> set (map aaArtistID (tArtistAlias c))"
    "set (forTable roots (irTable artistGroupRelation)) = set (acRootIDs rows) \<inter> set (map agArtistID (tArtistGroup c))"
    "set (forTable roots (irTable artistMemberRelation)) = set (acRootIDs rows) \<inter> set (map amArtistID (tArtistMember c))"
    "set (forTable roots (dirTable artistNameVariationRelation)) = set (acRootIDs rows) \<inter> set (map avArtistID (tArtistNameVariation c))"
    "set (forTable roots (dirTable artistURLRelation)) = set (acRootIDs rows) \<inter> set (map auArtistID (tArtistURL c))"
    by (rule existing_roots [OF found]; simp add: artistRelationRoots_def artist_relation_defs)+
  have st: "(artistReconcilers env ord rows roots ! 0) (s 0) = (v 0, s (Suc 0)) \<and> \<not> isErr (v 0)"
    by (rule step') simp_all
  have "\<exists>T. s (Suc 0) = (s 0)\<lparr>tArtistAlias := T\<rparr> \<and> reconciled aaArtistID (\<lambda>r. (aaArtistID r, aaAliasID r))
      (\<lambda>r. (aaArtistID r, aaAliasID r)) (acRootIDs rows) (acAliases rows) (tArtistAlias (s 0)) (result.count (v 0)) T"
    using st
    by (intro artistAlias_step [where env = env and ord = ord and R = "forTable roots (irTable artistAliasRelation)", OF _ new(1) _ _ new(6)])
      (simp_all add: artistReconcilers_def s(1) rts(1) unique del: length_greater_0_conv)
  then obtain T0 where T0: "s (Suc 0) = c\<lparr>tArtistAlias := T0\<rparr>"
      "reconciled aaArtistID (\<lambda>r. (aaArtistID r, aaAliasID r))
      (\<lambda>r. (aaArtistID r, aaAliasID r)) (acRootIDs rows) (acAliases rows) (tArtistAlias c) (result.count (v 0)) T0"
    by (auto simp: s(1))
  have st: "(artistReconcilers env ord rows roots ! (Suc 0)) (s (Suc 0)) = (v (Suc 0), s 2) \<and> \<not> isErr (v (Suc 0))"
    by (rule step') simp_all
  have "\<exists>T. s 2 = (s (Suc 0))\<lparr>tArtistGroup := T\<rparr> \<and> reconciled agArtistID (\<lambda>r. (agArtistID r, agGroupID r))
      (\<lambda>r. (agArtistID r, agGroupID r)) (acRootIDs rows) (acGroups rows) (tArtistGroup (s (Suc 0))) (result.count (v 1)) T"
    using st
    by (intro artistGroup_step [where env = env and ord = ord and R = "forTable roots (irTable artistGroupRelation)", OF _ new(2) _ _ new(6)])
      (simp_all add: artistReconcilers_def T0(1) rts(2) unique del: length_greater_0_conv)
  then obtain T1 where T1: "s 2 = c\<lparr>tArtistAlias := T0, tArtistGroup := T1\<rparr>"
      "reconciled agArtistID (\<lambda>r. (agArtistID r, agGroupID r))
      (\<lambda>r. (agArtistID r, agGroupID r)) (acRootIDs rows) (acGroups rows) (tArtistGroup c) (result.count (v 1)) T1"
    by (auto simp: T0(1))
  have st: "(artistReconcilers env ord rows roots ! 2) (s 2) = (v 2, s 3) \<and> \<not> isErr (v 2)"
    by (rule step') simp_all
  have "\<exists>T. s 3 = (s 2)\<lparr>tArtistMember := T\<rparr> \<and> reconciled amArtistID (\<lambda>r. (amArtistID r, amMemberID r))
      (\<lambda>r. (amArtistID r, amMemberID r)) (acRootIDs rows) (acMembers rows) (tArtistMember (s 2)) (result.count (v 2)) T"
    using st
    by (intro artistMember_step [where env = env and ord = ord and R = "forTable roots (irTable artistMemberRelation)", OF _ new(3) _ _ new(6)])
      (simp_all add: artistReconcilers_def T1(1) rts(3) unique del: length_greater_0_conv)
  then obtain T2 where T2: "s 3 = c\<lparr>tArtistAlias := T0, tArtistGroup := T1, tArtistMember := T2\<rparr>"
      "reconciled amArtistID (\<lambda>r. (amArtistID r, amMemberID r))
      (\<lambda>r. (amArtistID r, amMemberID r)) (acRootIDs rows) (acMembers rows) (tArtistMember c) (result.count (v 2)) T2"
    by (auto simp: T1(1))
  have st: "(artistReconcilers env ord rows roots ! 3) (s 3) = (v 3, s 4) \<and> \<not> isErr (v 3)"
    by (rule step') simp_all
  have "\<exists>T. s 4 = (s 3)\<lparr>tArtistNameVariation := T\<rparr> \<and> reconciled avArtistID (\<lambda>r. (avArtistID r, avHash r, avIdentity r))
      (\<lambda>r. (avArtistID r, avHash r)) (acRootIDs rows) (acNameVariations rows) (tArtistNameVariation (s 3)) (result.count (v 3)) T"
    using st
    by (intro artistNameVariation_step [where env = env and ord = ord and R = "forTable roots (dirTable artistNameVariationRelation)", OF _ new(4) _ _ new(6)])
      (simp_all add: artistReconcilers_def T2(1) rts(4) unique del: length_greater_0_conv)
  then obtain T3 where T3: "s 4 = c\<lparr>tArtistAlias := T0, tArtistGroup := T1, tArtistMember := T2, tArtistNameVariation := T3\<rparr>"
      "reconciled avArtistID (\<lambda>r. (avArtistID r, avHash r, avIdentity r))
      (\<lambda>r. (avArtistID r, avHash r)) (acRootIDs rows) (acNameVariations rows) (tArtistNameVariation c) (result.count (v 3)) T3"
    by (auto simp: T2(1))
  have st: "(artistReconcilers env ord rows roots ! 4) (s 4) = (v 4, s 5) \<and> \<not> isErr (v 4)"
    by (rule step') simp_all
  have "\<exists>T. s 5 = (s 4)\<lparr>tArtistURL := T\<rparr> \<and> reconciled auArtistID (\<lambda>r. (auArtistID r, auHash r, auIdentity r))
      (\<lambda>r. (auArtistID r, auHash r)) (acRootIDs rows) (acUrls rows) (tArtistURL (s 4)) (result.count (v 4)) T"
    using st
    by (intro artistURL_step [where env = env and ord = ord and R = "forTable roots (dirTable artistURLRelation)", OF _ new(5) _ _ new(6)])
      (simp_all add: artistReconcilers_def T3(1) rts(5) unique del: length_greater_0_conv)
  then obtain T4 where T4: "s 5 = c\<lparr>tArtistAlias := T0, tArtistGroup := T1, tArtistMember := T2, tArtistNameVariation := T3, tArtistURL := T4\<rparr>"
      "reconciled auArtistID (\<lambda>r. (auArtistID r, auHash r, auIdentity r))
      (\<lambda>r. (auArtistID r, auHash r)) (acRootIDs rows) (acUrls rows) (tArtistURL c) (result.count (v 4)) T4"
    by (auto simp: T3(1))
  note all = T0(2) T1(2) T2(2) T3(2) T4(2)
  have c': "c' = c\<lparr>tArtistAlias := T0, tArtistGroup := T1, tArtistMember := T2, tArtistNameVariation := T3, tArtistURL := T4\<rparr>"
    using s(2) T4(1) by (simp add: len)
  show "\<exists>T0 T1 T2 T3 T4. c' = c\<lparr>tArtistAlias := T0, tArtistGroup := T1, tArtistMember := T2, tArtistNameVariation := T3, tArtistURL := T4\<rparr>"
    using c' by blast
  have sum: "result.count r = result.count (v 0) + result.count (v 1) + result.count (v 2) + result.count (v 3) + result.count (v 4)"
    using counts len by (simp add: eval_nat_numeral)
  have conv: "artistConverged rows c c'"
    using all unfolding artistConverged_def reconciled_def c' by simp
  have keys: "catalogKeyed c'" using all keyed unfolding catalogKeyed_def reconciled_def c' by simp
  have "c' = c \<and> result.count r = 0" if "artistAgrees rows c"
  proof -
    have "T0 = tArtistAlias c \<and> result.count (v 0) = 0 \<and> T1 = tArtistGroup c \<and> result.count (v 1) = 0 \<and> T2 = tArtistMember c \<and> result.count (v 2) = 0 \<and> T3 = tArtistNameVariation c \<and> result.count (v 3) = 0 \<and> T4 = tArtistURL c \<and> result.count (v 4) = 0"
      using that all unfolding artistAgrees_def reconciled_def by simp
    then show ?thesis unfolding c' sum by (simp add: catalog.equality)
  qed
  with conv keys show "artistConverged rows c c' \<and> catalogKeyed c' \<and> (artistAgrees rows c \<longrightarrow> c' = c \<and> result.count r = 0)"
    by blast
qed

section \<open>Label chunks\<close>

definition labelConverged :: "labelChunk \<Rightarrow> catalog \<Rightarrow> catalog \<Rightarrow> bool" where
  "labelConverged rows c c' \<longleftrightarrow>
     converged luLabelID (\<lambda>r. (luLabelID r, luHash r, luIdentity r)) (lcRootIDs rows)
       (lcUrls rows) (tLabelURL c) (tLabelURL c') \<and>
     converged lsParentLabelID (\<lambda>r. (lsParentLabelID r, lsSubLabelID r)) (lcRootIDs rows)
       (lcSubLabels rows) (tLabelSubLabel c) (tLabelSubLabel c')"

definition labelAgrees :: "labelChunk \<Rightarrow> catalog \<Rightarrow> bool" where
  "labelAgrees rows c \<longleftrightarrow>
     (\<lambda>r. (luLabelID r, luHash r, luIdentity r)) ` {r \<in> set (tLabelURL c). luLabelID r \<in> set (lcRootIDs rows)} =
       (\<lambda>r. (luLabelID r, luHash r, luIdentity r)) ` set (lcUrls rows) \<and>
     (\<lambda>r. (lsParentLabelID r, lsSubLabelID r)) ` {r \<in> set (tLabelSubLabel c). lsParentLabelID r \<in> set (lcRootIDs rows)} =
       (\<lambda>r. (lsParentLabelID r, lsSubLabelID r)) ` set (lcSubLabels rows)"

lemma label_collected:
  assumes "collectLabelChunk cs t items = ([], rows)" and "present = presentItems labelSetObservedAt t items"
  shows "deduplicateLabelURLs (concat (map (map Some \<circ> getLabelUrls t) present)) = Inr (lcUrls rows)"
    and "deduplicateLabelSubLabels (concat (map (map Some \<circ> getSubLabels cs t) present)) = Inr (lcSubLabels rows)"
    and "set (lcRootIDs rows) = xlrID ` set present"
  using assms by (auto simp: collectLabelChunk_def Let_def joinErrors_Nil errorOf_None split: prod.splits)

lemma label_reconciled:
  assumes run: "reconcileRelations (labelReconcilers env ord rows roots) c = (r, c')" "\<not> isErr r"
    and found: "findExistingRelationRoots fl (lcRootIDs rows) (labelRelationRoots c) = Inr roots"
    and rows: "collectLabelChunk cs t items = ([], rows)" and keyed: "catalogKeyed c"
  shows "labelConverged rows c c' \<and> catalogKeyed c' \<and> (labelAgrees rows c \<longrightarrow> c' = c \<and> result.count r = 0)"
    and "\<exists>T0 T1. c' = c\<lparr>tLabelURL := T0, tLabelSubLabel := T1\<rparr>"
proof -
  note new = label_collected [OF rows refl] and unique = catalogKeyed_unique [OF keyed]
  obtain s v where s: "s 0 = c" "s (length (labelReconcilers env ord rows roots)) = c'"
    and step: "\<And>i. i < length (labelReconcilers env ord rows roots) \<Longrightarrow>
      (labelReconcilers env ord rows roots ! i) (s i) = (v i, s (Suc i)) \<and> \<not> isErr (v i)"
    and counts: "result.count r = (\<Sum>i < length (labelReconcilers env ord rows roots). result.count (v i))"
    using reconcileFrom_trace [OF run [unfolded reconcileRelations_def]] by auto
  have len: "length (labelReconcilers env ord rows roots) = 2" by (simp add: labelReconcilers_def)
  have step': "i < 2 \<Longrightarrow> j = Suc i \<Longrightarrow>
      (labelReconcilers env ord rows roots ! i) (s i) = (v i, s j) \<and> \<not> isErr (v i)" for i j
    using step len by simp
  have rts: "set (forTable roots (dirTable labelURLRelation)) = set (lcRootIDs rows) \<inter> set (map luLabelID (tLabelURL c))"
    "set (forTable roots (irTable labelSubLabelRelation)) = set (lcRootIDs rows) \<inter> set (map lsParentLabelID (tLabelSubLabel c))"
    by (rule existing_roots [OF found]; simp add: labelRelationRoots_def label_relation_defs)+
  have st: "(labelReconcilers env ord rows roots ! 0) (s 0) = (v 0, s (Suc 0)) \<and> \<not> isErr (v 0)"
    by (rule step') simp_all
  have "\<exists>T. s (Suc 0) = (s 0)\<lparr>tLabelURL := T\<rparr> \<and> reconciled luLabelID (\<lambda>r. (luLabelID r, luHash r, luIdentity r))
      (\<lambda>r. (luLabelID r, luHash r)) (lcRootIDs rows) (lcUrls rows) (tLabelURL (s 0)) (result.count (v 0)) T"
    using st
    by (intro labelURL_step [where env = env and ord = ord and R = "forTable roots (dirTable labelURLRelation)", OF _ new(1) _ _ new(3)])
      (simp_all add: labelReconcilers_def s(1) rts(1) unique del: length_greater_0_conv)
  then obtain T0 where T0: "s (Suc 0) = c\<lparr>tLabelURL := T0\<rparr>"
      "reconciled luLabelID (\<lambda>r. (luLabelID r, luHash r, luIdentity r))
      (\<lambda>r. (luLabelID r, luHash r)) (lcRootIDs rows) (lcUrls rows) (tLabelURL c) (result.count (v 0)) T0"
    by (auto simp: s(1))
  have st: "(labelReconcilers env ord rows roots ! (Suc 0)) (s (Suc 0)) = (v (Suc 0), s 2) \<and> \<not> isErr (v (Suc 0))"
    by (rule step') simp_all
  have "\<exists>T. s 2 = (s (Suc 0))\<lparr>tLabelSubLabel := T\<rparr> \<and> reconciled lsParentLabelID (\<lambda>r. (lsParentLabelID r, lsSubLabelID r))
      (\<lambda>r. (lsParentLabelID r, lsSubLabelID r)) (lcRootIDs rows) (lcSubLabels rows) (tLabelSubLabel (s (Suc 0))) (result.count (v 1)) T"
    using st
    by (intro labelSubLabel_step [where env = env and ord = ord and R = "forTable roots (irTable labelSubLabelRelation)", OF _ new(2) _ _ new(3)])
      (simp_all add: labelReconcilers_def T0(1) rts(2) unique del: length_greater_0_conv)
  then obtain T1 where T1: "s 2 = c\<lparr>tLabelURL := T0, tLabelSubLabel := T1\<rparr>"
      "reconciled lsParentLabelID (\<lambda>r. (lsParentLabelID r, lsSubLabelID r))
      (\<lambda>r. (lsParentLabelID r, lsSubLabelID r)) (lcRootIDs rows) (lcSubLabels rows) (tLabelSubLabel c) (result.count (v 1)) T1"
    by (auto simp: T0(1))
  note all = T0(2) T1(2)
  have c': "c' = c\<lparr>tLabelURL := T0, tLabelSubLabel := T1\<rparr>"
    using s(2) T1(1) by (simp add: len)
  show "\<exists>T0 T1. c' = c\<lparr>tLabelURL := T0, tLabelSubLabel := T1\<rparr>"
    using c' by blast
  have sum: "result.count r = result.count (v 0) + result.count (v 1)"
    using counts len by (simp add: eval_nat_numeral)
  have conv: "labelConverged rows c c'"
    using all unfolding labelConverged_def reconciled_def c' by simp
  have keys: "catalogKeyed c'" using all keyed unfolding catalogKeyed_def reconciled_def c' by simp
  have "c' = c \<and> result.count r = 0" if "labelAgrees rows c"
  proof -
    have "T0 = tLabelURL c \<and> result.count (v 0) = 0 \<and> T1 = tLabelSubLabel c \<and> result.count (v 1) = 0"
      using that all unfolding labelAgrees_def reconciled_def by simp
    then show ?thesis unfolding c' sum by (simp add: catalog.equality)
  qed
  with conv keys show "labelConverged rows c c' \<and> catalogKeyed c' \<and> (labelAgrees rows c \<longrightarrow> c' = c \<and> result.count r = 0)"
    by blast
qed

section \<open>Master chunks\<close>

definition masterConverged :: "masterChunk \<Rightarrow> catalog \<Rightarrow> catalog \<Rightarrow> bool" where
  "masterConverged rows c c' \<longleftrightarrow>
     converged mtMasterID (\<lambda>r. (mtMasterID r, mtArtistID r)) (mcRootIDs rows)
       (mcArtists rows) (tMasterArtist c) (tMasterArtist c') \<and>
     converged mgMasterID (\<lambda>r. (mgMasterID r, mgGenre r)) (mcRootIDs rows)
       (mcMasterGenres rows) (tMasterGenre c) (tMasterGenre c') \<and>
     converged msMasterID (\<lambda>r. (msMasterID r, msStyle r)) (mcRootIDs rows)
       (mcMasterStyles rows) (tMasterStyle c) (tMasterStyle c') \<and>
     converged mvMasterID (\<lambda>r. (mvMasterID r, mvHash r, mvIdentity r)) (mcRootIDs rows)
       (mcVideos rows) (tMasterVideo c) (tMasterVideo c')"

definition masterAgrees :: "masterChunk \<Rightarrow> catalog \<Rightarrow> bool" where
  "masterAgrees rows c \<longleftrightarrow>
     (\<lambda>r. (mtMasterID r, mtArtistID r)) ` {r \<in> set (tMasterArtist c). mtMasterID r \<in> set (mcRootIDs rows)} =
       (\<lambda>r. (mtMasterID r, mtArtistID r)) ` set (mcArtists rows) \<and>
     (\<lambda>r. (mgMasterID r, mgGenre r)) ` {r \<in> set (tMasterGenre c). mgMasterID r \<in> set (mcRootIDs rows)} =
       (\<lambda>r. (mgMasterID r, mgGenre r)) ` set (mcMasterGenres rows) \<and>
     (\<lambda>r. (msMasterID r, msStyle r)) ` {r \<in> set (tMasterStyle c). msMasterID r \<in> set (mcRootIDs rows)} =
       (\<lambda>r. (msMasterID r, msStyle r)) ` set (mcMasterStyles rows) \<and>
     (\<lambda>r. (mvMasterID r, mvHash r, mvIdentity r)) ` {r \<in> set (tMasterVideo c). mvMasterID r \<in> set (mcRootIDs rows)} =
       (\<lambda>r. (mvMasterID r, mvHash r, mvIdentity r)) ` set (mcVideos rows)"

lemma master_collected:
  assumes "collectMasterChunk seed cs t items = ([], rows)" and "present = presentItems masterSetObservedAt t items"
  shows "deduplicateMasters (map (Some \<circ> seedPolicy seed \<circ> getMaster t) present) = Inr (mcMasters rows)"
    and "deduplicateMasterArtists (concat (map (map Some \<circ> getMasterArtists cs t) present)) = Inr (mcArtists rows)"
    and "deduplicateMasterGenres (concat (map (map Some \<circ> getMasterGenres t) present)) = Inr (mcMasterGenres rows)"
    and "deduplicateMasterStyles (concat (map (map Some \<circ> getMasterStyles t) present)) = Inr (mcMasterStyles rows)"
    and "deduplicateMasterVideos (concat (map (map Some \<circ> getMasterVideos t) present)) = Inr (mcVideos rows)"
    and "set (mcRootIDs rows) = xmrID ` set present"
  using assms by (auto simp: collectMasterChunk_def Let_def joinErrors_Nil errorOf_None split: prod.splits)

lemma master_reconciled:
  assumes run: "reconcileRelations (masterReconcilers env ord rows roots) c = (r, c')" "\<not> isErr r"
    and found: "findExistingRelationRoots fl (mcRootIDs rows) (masterRelationRoots c) = Inr roots"
    and rows: "collectMasterChunk seed cs t items = ([], rows)" and keyed: "catalogKeyed c"
  shows "masterConverged rows c c' \<and> catalogKeyed c' \<and> (masterAgrees rows c \<longrightarrow> c' = c \<and> result.count r = 0)"
    and "\<exists>T0 T1 T2 T3. c' = c\<lparr>tMasterArtist := T0, tMasterGenre := T1, tMasterStyle := T2, tMasterVideo := T3\<rparr>"
proof -
  note new = master_collected [OF rows refl] and unique = catalogKeyed_unique [OF keyed]
  obtain s v where s: "s 0 = c" "s (length (masterReconcilers env ord rows roots)) = c'"
    and step: "\<And>i. i < length (masterReconcilers env ord rows roots) \<Longrightarrow>
      (masterReconcilers env ord rows roots ! i) (s i) = (v i, s (Suc i)) \<and> \<not> isErr (v i)"
    and counts: "result.count r = (\<Sum>i < length (masterReconcilers env ord rows roots). result.count (v i))"
    using reconcileFrom_trace [OF run [unfolded reconcileRelations_def]] by auto
  have len: "length (masterReconcilers env ord rows roots) = 4" by (simp add: masterReconcilers_def)
  have step': "i < 4 \<Longrightarrow> j = Suc i \<Longrightarrow>
      (masterReconcilers env ord rows roots ! i) (s i) = (v i, s j) \<and> \<not> isErr (v i)" for i j
    using step len by simp
  have rts: "set (forTable roots (irTable masterArtistRelation)) = set (mcRootIDs rows) \<inter> set (map mtMasterID (tMasterArtist c))"
    "set (forTable roots (trTable masterGenreRelation)) = set (mcRootIDs rows) \<inter> set (map mgMasterID (tMasterGenre c))"
    "set (forTable roots (trTable masterStyleRelation)) = set (mcRootIDs rows) \<inter> set (map msMasterID (tMasterStyle c))"
    "set (forTable roots (dirTable masterVideoRelation)) = set (mcRootIDs rows) \<inter> set (map mvMasterID (tMasterVideo c))"
    by (rule existing_roots [OF found]; simp add: masterRelationRoots_def master_relation_defs)+
  have st: "(masterReconcilers env ord rows roots ! 0) (s 0) = (v 0, s (Suc 0)) \<and> \<not> isErr (v 0)"
    by (rule step') simp_all
  have "\<exists>T. s (Suc 0) = (s 0)\<lparr>tMasterArtist := T\<rparr> \<and> reconciled mtMasterID (\<lambda>r. (mtMasterID r, mtArtistID r))
      (\<lambda>r. (mtMasterID r, mtArtistID r)) (mcRootIDs rows) (mcArtists rows) (tMasterArtist (s 0)) (result.count (v 0)) T"
    using st
    by (intro masterArtist_step [where env = env and ord = ord and R = "forTable roots (irTable masterArtistRelation)", OF _ new(2) _ _ new(6)])
      (simp_all add: masterReconcilers_def s(1) rts(1) unique del: length_greater_0_conv)
  then obtain T0 where T0: "s (Suc 0) = c\<lparr>tMasterArtist := T0\<rparr>"
      "reconciled mtMasterID (\<lambda>r. (mtMasterID r, mtArtistID r))
      (\<lambda>r. (mtMasterID r, mtArtistID r)) (mcRootIDs rows) (mcArtists rows) (tMasterArtist c) (result.count (v 0)) T0"
    by (auto simp: s(1))
  have st: "(masterReconcilers env ord rows roots ! (Suc 0)) (s (Suc 0)) = (v (Suc 0), s 2) \<and> \<not> isErr (v (Suc 0))"
    by (rule step') simp_all
  have "\<exists>T. s 2 = (s (Suc 0))\<lparr>tMasterGenre := T\<rparr> \<and> reconciled mgMasterID (\<lambda>r. (mgMasterID r, mgGenre r))
      (\<lambda>r. (mgMasterID r, mgGenre r)) (mcRootIDs rows) (mcMasterGenres rows) (tMasterGenre (s (Suc 0))) (result.count (v 1)) T"
    using st
    by (intro masterGenre_step [where env = env and ord = ord and R = "forTable roots (trTable masterGenreRelation)", OF _ new(3) _ _ new(6)])
      (simp_all add: masterReconcilers_def T0(1) rts(2) unique del: length_greater_0_conv)
  then obtain T1 where T1: "s 2 = c\<lparr>tMasterArtist := T0, tMasterGenre := T1\<rparr>"
      "reconciled mgMasterID (\<lambda>r. (mgMasterID r, mgGenre r))
      (\<lambda>r. (mgMasterID r, mgGenre r)) (mcRootIDs rows) (mcMasterGenres rows) (tMasterGenre c) (result.count (v 1)) T1"
    by (auto simp: T0(1))
  have st: "(masterReconcilers env ord rows roots ! 2) (s 2) = (v 2, s 3) \<and> \<not> isErr (v 2)"
    by (rule step') simp_all
  have "\<exists>T. s 3 = (s 2)\<lparr>tMasterStyle := T\<rparr> \<and> reconciled msMasterID (\<lambda>r. (msMasterID r, msStyle r))
      (\<lambda>r. (msMasterID r, msStyle r)) (mcRootIDs rows) (mcMasterStyles rows) (tMasterStyle (s 2)) (result.count (v 2)) T"
    using st
    by (intro masterStyle_step [where env = env and ord = ord and R = "forTable roots (trTable masterStyleRelation)", OF _ new(4) _ _ new(6)])
      (simp_all add: masterReconcilers_def T1(1) rts(3) unique del: length_greater_0_conv)
  then obtain T2 where T2: "s 3 = c\<lparr>tMasterArtist := T0, tMasterGenre := T1, tMasterStyle := T2\<rparr>"
      "reconciled msMasterID (\<lambda>r. (msMasterID r, msStyle r))
      (\<lambda>r. (msMasterID r, msStyle r)) (mcRootIDs rows) (mcMasterStyles rows) (tMasterStyle c) (result.count (v 2)) T2"
    by (auto simp: T1(1))
  have st: "(masterReconcilers env ord rows roots ! 3) (s 3) = (v 3, s 4) \<and> \<not> isErr (v 3)"
    by (rule step') simp_all
  have "\<exists>T. s 4 = (s 3)\<lparr>tMasterVideo := T\<rparr> \<and> reconciled mvMasterID (\<lambda>r. (mvMasterID r, mvHash r, mvIdentity r))
      (\<lambda>r. (mvMasterID r, mvHash r)) (mcRootIDs rows) (mcVideos rows) (tMasterVideo (s 3)) (result.count (v 3)) T"
    using st
    by (intro masterVideo_step [where env = env and ord = ord and R = "forTable roots (dirTable masterVideoRelation)", OF _ new(5) _ _ new(6)])
      (simp_all add: masterReconcilers_def T2(1) rts(4) unique del: length_greater_0_conv)
  then obtain T3 where T3: "s 4 = c\<lparr>tMasterArtist := T0, tMasterGenre := T1, tMasterStyle := T2, tMasterVideo := T3\<rparr>"
      "reconciled mvMasterID (\<lambda>r. (mvMasterID r, mvHash r, mvIdentity r))
      (\<lambda>r. (mvMasterID r, mvHash r)) (mcRootIDs rows) (mcVideos rows) (tMasterVideo c) (result.count (v 3)) T3"
    by (auto simp: T2(1))
  note all = T0(2) T1(2) T2(2) T3(2)
  have c': "c' = c\<lparr>tMasterArtist := T0, tMasterGenre := T1, tMasterStyle := T2, tMasterVideo := T3\<rparr>"
    using s(2) T3(1) by (simp add: len)
  show "\<exists>T0 T1 T2 T3. c' = c\<lparr>tMasterArtist := T0, tMasterGenre := T1, tMasterStyle := T2, tMasterVideo := T3\<rparr>"
    using c' by blast
  have sum: "result.count r = result.count (v 0) + result.count (v 1) + result.count (v 2) + result.count (v 3)"
    using counts len by (simp add: eval_nat_numeral)
  have conv: "masterConverged rows c c'"
    using all unfolding masterConverged_def reconciled_def c' by simp
  have keys: "catalogKeyed c'" using all keyed unfolding catalogKeyed_def reconciled_def c' by simp
  have "c' = c \<and> result.count r = 0" if "masterAgrees rows c"
  proof -
    have "T0 = tMasterArtist c \<and> result.count (v 0) = 0 \<and> T1 = tMasterGenre c \<and> result.count (v 1) = 0 \<and> T2 = tMasterStyle c \<and> result.count (v 2) = 0 \<and> T3 = tMasterVideo c \<and> result.count (v 3) = 0"
      using that all unfolding masterAgrees_def reconciled_def by simp
    then show ?thesis unfolding c' sum by (simp add: catalog.equality)
  qed
  with conv keys show "masterConverged rows c c' \<and> catalogKeyed c' \<and> (masterAgrees rows c \<longrightarrow> c' = c \<and> result.count r = 0)"
    by blast
qed

section \<open>Release chunks\<close>

definition releaseConverged :: "releaseChunk \<Rightarrow> catalog \<Rightarrow> catalog \<Rightarrow> bool" where
  "releaseConverged rows c c' \<longleftrightarrow>
     converged rtReleaseItemID (\<lambda>r. (rtReleaseItemID r, rtArtistID r)) (rcRootIDs rows)
       (rcArtists rows) (tReleaseArtist c) (tReleaseArtist c') \<and>
     converged rcReleaseItemID (\<lambda>r. (rcReleaseItemID r, rcArtistID r, rcHash r, rcIdentity r)) (rcRootIDs rows)
       (rcCreditedArtists rows) (tReleaseCreditedArtist c) (tReleaseCreditedArtist c') \<and>
     converged rwReleaseItemID (\<lambda>r. (rwReleaseItemID r, rwLabelID r, rwHash r, rwIdentity r)) (rcRootIDs rows)
       (rcWorks rows) (tReleaseWork c) (tReleaseWork c') \<and>
     converged rsReleaseItemID (\<lambda>r. (rsReleaseItemID r, rsStyle r)) (rcRootIDs rows)
       (rcReleaseStyles rows) (tReleaseStyle c) (tReleaseStyle c') \<and>
     converged rgReleaseItemID (\<lambda>r. (rgReleaseItemID r, rgGenre r)) (rcRootIDs rows)
       (rcReleaseGenres rows) (tReleaseGenre c) (tReleaseGenre c') \<and>
     converged lrReleaseItemID (\<lambda>r. (lrReleaseItemID r, lrLabelID r, lrCategoryNotation r)) (rcRootIDs rows)
       (rcLabels rows) (tLabelRelease c) (tLabelRelease c') \<and>
     converged rfReleaseItemID (\<lambda>r. (rfReleaseItemID r, rfHash r, rfIdentity r)) (rcRootIDs rows)
       (rcFormats rows) (tReleaseFormat c) (tReleaseFormat c') \<and>
     converged rdReleaseItemID (\<lambda>r. (rdReleaseItemID r, rdHash r, rdIdentity r)) (rcRootIDs rows)
       (rcIdentifiers rows) (tReleaseIdentifier c) (tReleaseIdentifier c') \<and>
     converged rkReleaseItemID (\<lambda>r. (rkReleaseItemID r, rkHash r, rkIdentity r)) (rcRootIDs rows)
       (rcTracks rows) (tReleaseTrack c) (tReleaseTrack c') \<and>
     converged rvReleaseItemID (\<lambda>r. (rvReleaseItemID r, rvHash r, rvIdentity r)) (rcRootIDs rows)
       (rcVideos rows) (tReleaseVideo c) (tReleaseVideo c')"

definition releaseAgrees :: "releaseChunk \<Rightarrow> catalog \<Rightarrow> bool" where
  "releaseAgrees rows c \<longleftrightarrow>
     (\<lambda>r. (rtReleaseItemID r, rtArtistID r)) ` {r \<in> set (tReleaseArtist c). rtReleaseItemID r \<in> set (rcRootIDs rows)} =
       (\<lambda>r. (rtReleaseItemID r, rtArtistID r)) ` set (rcArtists rows) \<and>
     (\<lambda>r. (rcReleaseItemID r, rcArtistID r, rcHash r, rcIdentity r)) ` {r \<in> set (tReleaseCreditedArtist c). rcReleaseItemID r \<in> set (rcRootIDs rows)} =
       (\<lambda>r. (rcReleaseItemID r, rcArtistID r, rcHash r, rcIdentity r)) ` set (rcCreditedArtists rows) \<and>
     (\<lambda>r. (rwReleaseItemID r, rwLabelID r, rwHash r, rwIdentity r)) ` {r \<in> set (tReleaseWork c). rwReleaseItemID r \<in> set (rcRootIDs rows)} =
       (\<lambda>r. (rwReleaseItemID r, rwLabelID r, rwHash r, rwIdentity r)) ` set (rcWorks rows) \<and>
     (\<lambda>r. (rsReleaseItemID r, rsStyle r)) ` {r \<in> set (tReleaseStyle c). rsReleaseItemID r \<in> set (rcRootIDs rows)} =
       (\<lambda>r. (rsReleaseItemID r, rsStyle r)) ` set (rcReleaseStyles rows) \<and>
     (\<lambda>r. (rgReleaseItemID r, rgGenre r)) ` {r \<in> set (tReleaseGenre c). rgReleaseItemID r \<in> set (rcRootIDs rows)} =
       (\<lambda>r. (rgReleaseItemID r, rgGenre r)) ` set (rcReleaseGenres rows) \<and>
     (\<lambda>r. (lrReleaseItemID r, lrLabelID r, lrCategoryNotation r)) ` {r \<in> set (tLabelRelease c). lrReleaseItemID r \<in> set (rcRootIDs rows)} =
       (\<lambda>r. (lrReleaseItemID r, lrLabelID r, lrCategoryNotation r)) ` set (rcLabels rows) \<and>
     (\<lambda>r. (rfReleaseItemID r, rfHash r, rfIdentity r)) ` {r \<in> set (tReleaseFormat c). rfReleaseItemID r \<in> set (rcRootIDs rows)} =
       (\<lambda>r. (rfReleaseItemID r, rfHash r, rfIdentity r)) ` set (rcFormats rows) \<and>
     (\<lambda>r. (rdReleaseItemID r, rdHash r, rdIdentity r)) ` {r \<in> set (tReleaseIdentifier c). rdReleaseItemID r \<in> set (rcRootIDs rows)} =
       (\<lambda>r. (rdReleaseItemID r, rdHash r, rdIdentity r)) ` set (rcIdentifiers rows) \<and>
     (\<lambda>r. (rkReleaseItemID r, rkHash r, rkIdentity r)) ` {r \<in> set (tReleaseTrack c). rkReleaseItemID r \<in> set (rcRootIDs rows)} =
       (\<lambda>r. (rkReleaseItemID r, rkHash r, rkIdentity r)) ` set (rcTracks rows) \<and>
     (\<lambda>r. (rvReleaseItemID r, rvHash r, rvIdentity r)) ` {r \<in> set (tReleaseVideo c). rvReleaseItemID r \<in> set (rcRootIDs rows)} =
       (\<lambda>r. (rvReleaseItemID r, rvHash r, rvIdentity r)) ` set (rcVideos rows)"

lemma release_collected:
  assumes "collectReleaseChunk cs t items = ([], rows)" and "present = presentItems releaseSetObservedAt t items"
  shows "deduplicateReleaseItems (map (Some \<circ> getRelease cs t) present) = Inr (rcReleases rows)"
    and "deduplicateReleaseArtists (concat (map (map Some \<circ> getReleaseArtists cs t) present)) = Inr (rcArtists rows)"
    and "deduplicateReleaseCreditedArtists (concat (map (map Some \<circ> getCreditedArtists cs t) present)) = Inr (rcCreditedArtists rows)"
    and "deduplicateReleaseWorks (concat (map (map Some \<circ> getWorks cs t) present)) = Inr (rcWorks rows)"
    and "deduplicateReleaseStyles (concat (map (map Some \<circ> getReleaseStyles t) present)) = Inr (rcReleaseStyles rows)"
    and "deduplicateReleaseGenres (concat (map (map Some \<circ> getReleaseGenres t) present)) = Inr (rcReleaseGenres rows)"
    and "deduplicateLabelReleaseItems (concat (map (map Some \<circ> getLabels cs t) present)) = Inr (rcLabels rows)"
    and "deduplicateReleaseFormats (concat (map (map Some \<circ> getFormats t) present)) = Inr (rcFormats rows)"
    and "deduplicateReleaseIdentifiers (concat (map (map Some \<circ> getIdentifiers t) present)) = Inr (rcIdentifiers rows)"
    and "deduplicateReleaseTracks (concat (map (map Some \<circ> getTracks t) present)) = Inr (rcTracks rows)"
    and "deduplicateReleaseVideos (concat (map (map Some \<circ> getVideos t) present)) = Inr (rcVideos rows)"
    and "set (rcRootIDs rows) = xrrID ` set present"
  using assms by (auto simp: collectReleaseChunk_def Let_def joinErrors_Nil errorOf_None split: prod.splits)

lemma release_reconciled:
  assumes run: "reconcileRelations (releaseReconcilers env ord rows roots) c = (r, c')" "\<not> isErr r"
    and found: "findExistingRelationRoots fl (rcRootIDs rows) (releaseRelationRoots c) = Inr roots"
    and rows: "collectReleaseChunk cs t items = ([], rows)" and keyed: "catalogKeyed c"
    and nulls: "weNullsEqual env"
  shows "releaseConverged rows c c' \<and> catalogKeyed c' \<and> (releaseAgrees rows c \<longrightarrow> c' = c \<and> result.count r = 0)"
    and "\<exists>T0 T1 T2 T3 T4 T5 T6 T7 T8 T9. c' = c\<lparr>tReleaseArtist := T0, tReleaseCreditedArtist := T1, tReleaseWork := T2, tReleaseStyle := T3, tReleaseGenre := T4, tLabelRelease := T5, tReleaseFormat := T6, tReleaseIdentifier := T7, tReleaseTrack := T8, tReleaseVideo := T9\<rparr>"
proof -
  note new = release_collected [OF rows refl] and unique = catalogKeyed_unique [OF keyed]
  obtain s v where s: "s 0 = c" "s (length (releaseReconcilers env ord rows roots)) = c'"
    and step: "\<And>i. i < length (releaseReconcilers env ord rows roots) \<Longrightarrow>
      (releaseReconcilers env ord rows roots ! i) (s i) = (v i, s (Suc i)) \<and> \<not> isErr (v i)"
    and counts: "result.count r = (\<Sum>i < length (releaseReconcilers env ord rows roots). result.count (v i))"
    using reconcileFrom_trace [OF run [unfolded reconcileRelations_def]] by auto
  have len: "length (releaseReconcilers env ord rows roots) = 10" by (simp add: releaseReconcilers_def)
  have step': "i < 10 \<Longrightarrow> j = Suc i \<Longrightarrow>
      (releaseReconcilers env ord rows roots ! i) (s i) = (v i, s j) \<and> \<not> isErr (v i)" for i j
    using step len by simp
  have rts: "set (forTable roots (irTable releaseArtistRelation)) = set (rcRootIDs rows) \<inter> set (map rtReleaseItemID (tReleaseArtist c))"
    "set (forTable roots (dtkTable releaseCreditedArtistRelation)) = set (rcRootIDs rows) \<inter> set (map rcReleaseItemID (tReleaseCreditedArtist c))"
    "set (forTable roots (dtkTable releaseWorkRelation)) = set (rcRootIDs rows) \<inter> set (map rwReleaseItemID (tReleaseWork c))"
    "set (forTable roots (trTable releaseStyleRelation)) = set (rcRootIDs rows) \<inter> set (map rsReleaseItemID (tReleaseStyle c))"
    "set (forTable roots (trTable releaseGenreRelation)) = set (rcRootIDs rows) \<inter> set (map rgReleaseItemID (tReleaseGenre c))"
    "set (forTable roots (ntkTable labelReleaseRelation)) = set (rcRootIDs rows) \<inter> set (map lrReleaseItemID (tLabelRelease c))"
    "set (forTable roots (dirTable releaseFormatRelation)) = set (rcRootIDs rows) \<inter> set (map rfReleaseItemID (tReleaseFormat c))"
    "set (forTable roots (dirTable releaseIdentifierRelation)) = set (rcRootIDs rows) \<inter> set (map rdReleaseItemID (tReleaseIdentifier c))"
    "set (forTable roots (dirTable releaseTrackRelation)) = set (rcRootIDs rows) \<inter> set (map rkReleaseItemID (tReleaseTrack c))"
    "set (forTable roots (dirTable releaseVideoRelation)) = set (rcRootIDs rows) \<inter> set (map rvReleaseItemID (tReleaseVideo c))"
    by (rule existing_roots [OF found]; simp add: releaseRelationRoots_def release_relation_defs)+
  have st: "(releaseReconcilers env ord rows roots ! 0) (s 0) = (v 0, s (Suc 0)) \<and> \<not> isErr (v 0)"
    by (rule step') simp_all
  have "\<exists>T. s (Suc 0) = (s 0)\<lparr>tReleaseArtist := T\<rparr> \<and> reconciled rtReleaseItemID (\<lambda>r. (rtReleaseItemID r, rtArtistID r))
      (\<lambda>r. (rtReleaseItemID r, rtArtistID r)) (rcRootIDs rows) (rcArtists rows) (tReleaseArtist (s 0)) (result.count (v 0)) T"
    using st
    by (intro releaseArtist_step [where env = env and ord = ord and R = "forTable roots (irTable releaseArtistRelation)", OF _ new(2) _ _ new(12)])
      (simp_all add: releaseReconcilers_def s(1) rts(1) nulls unique del: length_greater_0_conv)
  then obtain T0 where T0: "s (Suc 0) = c\<lparr>tReleaseArtist := T0\<rparr>"
      "reconciled rtReleaseItemID (\<lambda>r. (rtReleaseItemID r, rtArtistID r))
      (\<lambda>r. (rtReleaseItemID r, rtArtistID r)) (rcRootIDs rows) (rcArtists rows) (tReleaseArtist c) (result.count (v 0)) T0"
    by (auto simp: s(1))
  have st: "(releaseReconcilers env ord rows roots ! (Suc 0)) (s (Suc 0)) = (v (Suc 0), s 2) \<and> \<not> isErr (v (Suc 0))"
    by (rule step') simp_all
  have "\<exists>T. s 2 = (s (Suc 0))\<lparr>tReleaseCreditedArtist := T\<rparr> \<and> reconciled rcReleaseItemID (\<lambda>r. (rcReleaseItemID r, rcArtistID r, rcHash r, rcIdentity r))
      (\<lambda>r. (rcReleaseItemID r, rcArtistID r, rcHash r)) (rcRootIDs rows) (rcCreditedArtists rows) (tReleaseCreditedArtist (s (Suc 0))) (result.count (v 1)) T"
    using st
    by (intro releaseCreditedArtist_step [where env = env and ord = ord and R = "forTable roots (dtkTable releaseCreditedArtistRelation)", OF _ new(3) _ _ new(12)])
      (simp_all add: releaseReconcilers_def T0(1) rts(2) nulls unique del: length_greater_0_conv)
  then obtain T1 where T1: "s 2 = c\<lparr>tReleaseArtist := T0, tReleaseCreditedArtist := T1\<rparr>"
      "reconciled rcReleaseItemID (\<lambda>r. (rcReleaseItemID r, rcArtistID r, rcHash r, rcIdentity r))
      (\<lambda>r. (rcReleaseItemID r, rcArtistID r, rcHash r)) (rcRootIDs rows) (rcCreditedArtists rows) (tReleaseCreditedArtist c) (result.count (v 1)) T1"
    by (auto simp: T0(1))
  have st: "(releaseReconcilers env ord rows roots ! 2) (s 2) = (v 2, s 3) \<and> \<not> isErr (v 2)"
    by (rule step') simp_all
  have "\<exists>T. s 3 = (s 2)\<lparr>tReleaseWork := T\<rparr> \<and> reconciled rwReleaseItemID (\<lambda>r. (rwReleaseItemID r, rwLabelID r, rwHash r, rwIdentity r))
      (\<lambda>r. (rwReleaseItemID r, rwLabelID r, rwHash r)) (rcRootIDs rows) (rcWorks rows) (tReleaseWork (s 2)) (result.count (v 2)) T"
    using st
    by (intro releaseWork_step [where env = env and ord = ord and R = "forTable roots (dtkTable releaseWorkRelation)", OF _ new(4) _ _ new(12)])
      (simp_all add: releaseReconcilers_def T1(1) rts(3) nulls unique del: length_greater_0_conv)
  then obtain T2 where T2: "s 3 = c\<lparr>tReleaseArtist := T0, tReleaseCreditedArtist := T1, tReleaseWork := T2\<rparr>"
      "reconciled rwReleaseItemID (\<lambda>r. (rwReleaseItemID r, rwLabelID r, rwHash r, rwIdentity r))
      (\<lambda>r. (rwReleaseItemID r, rwLabelID r, rwHash r)) (rcRootIDs rows) (rcWorks rows) (tReleaseWork c) (result.count (v 2)) T2"
    by (auto simp: T1(1))
  have st: "(releaseReconcilers env ord rows roots ! 3) (s 3) = (v 3, s 4) \<and> \<not> isErr (v 3)"
    by (rule step') simp_all
  have "\<exists>T. s 4 = (s 3)\<lparr>tReleaseStyle := T\<rparr> \<and> reconciled rsReleaseItemID (\<lambda>r. (rsReleaseItemID r, rsStyle r))
      (\<lambda>r. (rsReleaseItemID r, rsStyle r)) (rcRootIDs rows) (rcReleaseStyles rows) (tReleaseStyle (s 3)) (result.count (v 3)) T"
    using st
    by (intro releaseStyle_step [where env = env and ord = ord and R = "forTable roots (trTable releaseStyleRelation)", OF _ new(5) _ _ new(12)])
      (simp_all add: releaseReconcilers_def T2(1) rts(4) nulls unique del: length_greater_0_conv)
  then obtain T3 where T3: "s 4 = c\<lparr>tReleaseArtist := T0, tReleaseCreditedArtist := T1, tReleaseWork := T2, tReleaseStyle := T3\<rparr>"
      "reconciled rsReleaseItemID (\<lambda>r. (rsReleaseItemID r, rsStyle r))
      (\<lambda>r. (rsReleaseItemID r, rsStyle r)) (rcRootIDs rows) (rcReleaseStyles rows) (tReleaseStyle c) (result.count (v 3)) T3"
    by (auto simp: T2(1))
  have st: "(releaseReconcilers env ord rows roots ! 4) (s 4) = (v 4, s 5) \<and> \<not> isErr (v 4)"
    by (rule step') simp_all
  have "\<exists>T. s 5 = (s 4)\<lparr>tReleaseGenre := T\<rparr> \<and> reconciled rgReleaseItemID (\<lambda>r. (rgReleaseItemID r, rgGenre r))
      (\<lambda>r. (rgReleaseItemID r, rgGenre r)) (rcRootIDs rows) (rcReleaseGenres rows) (tReleaseGenre (s 4)) (result.count (v 4)) T"
    using st
    by (intro releaseGenre_step [where env = env and ord = ord and R = "forTable roots (trTable releaseGenreRelation)", OF _ new(6) _ _ new(12)])
      (simp_all add: releaseReconcilers_def T3(1) rts(5) nulls unique del: length_greater_0_conv)
  then obtain T4 where T4: "s 5 = c\<lparr>tReleaseArtist := T0, tReleaseCreditedArtist := T1, tReleaseWork := T2, tReleaseStyle := T3, tReleaseGenre := T4\<rparr>"
      "reconciled rgReleaseItemID (\<lambda>r. (rgReleaseItemID r, rgGenre r))
      (\<lambda>r. (rgReleaseItemID r, rgGenre r)) (rcRootIDs rows) (rcReleaseGenres rows) (tReleaseGenre c) (result.count (v 4)) T4"
    by (auto simp: T3(1))
  have st: "(releaseReconcilers env ord rows roots ! 5) (s 5) = (v 5, s 6) \<and> \<not> isErr (v 5)"
    by (rule step') simp_all
  have "\<exists>T. s 6 = (s 5)\<lparr>tLabelRelease := T\<rparr> \<and> reconciled lrReleaseItemID (\<lambda>r. (lrReleaseItemID r, lrLabelID r, lrCategoryNotation r))
      (\<lambda>r. (lrReleaseItemID r, lrLabelID r, lrCategoryNotation r)) (rcRootIDs rows) (rcLabels rows) (tLabelRelease (s 5)) (result.count (v 5)) T"
    using st
    by (intro labelRelease_step [where env = env and ord = ord and R = "forTable roots (ntkTable labelReleaseRelation)", OF _ new(7) _ _ new(12)])
      (simp_all add: releaseReconcilers_def T4(1) rts(6) nulls unique del: length_greater_0_conv)
  then obtain T5 where T5: "s 6 = c\<lparr>tReleaseArtist := T0, tReleaseCreditedArtist := T1, tReleaseWork := T2, tReleaseStyle := T3, tReleaseGenre := T4, tLabelRelease := T5\<rparr>"
      "reconciled lrReleaseItemID (\<lambda>r. (lrReleaseItemID r, lrLabelID r, lrCategoryNotation r))
      (\<lambda>r. (lrReleaseItemID r, lrLabelID r, lrCategoryNotation r)) (rcRootIDs rows) (rcLabels rows) (tLabelRelease c) (result.count (v 5)) T5"
    by (auto simp: T4(1))
  have st: "(releaseReconcilers env ord rows roots ! 6) (s 6) = (v 6, s 7) \<and> \<not> isErr (v 6)"
    by (rule step') simp_all
  have "\<exists>T. s 7 = (s 6)\<lparr>tReleaseFormat := T\<rparr> \<and> reconciled rfReleaseItemID (\<lambda>r. (rfReleaseItemID r, rfHash r, rfIdentity r))
      (\<lambda>r. (rfReleaseItemID r, rfHash r)) (rcRootIDs rows) (rcFormats rows) (tReleaseFormat (s 6)) (result.count (v 6)) T"
    using st
    by (intro releaseFormat_step [where env = env and ord = ord and R = "forTable roots (dirTable releaseFormatRelation)", OF _ new(8) _ _ new(12)])
      (simp_all add: releaseReconcilers_def T5(1) rts(7) nulls unique del: length_greater_0_conv)
  then obtain T6 where T6: "s 7 = c\<lparr>tReleaseArtist := T0, tReleaseCreditedArtist := T1, tReleaseWork := T2, tReleaseStyle := T3, tReleaseGenre := T4, tLabelRelease := T5, tReleaseFormat := T6\<rparr>"
      "reconciled rfReleaseItemID (\<lambda>r. (rfReleaseItemID r, rfHash r, rfIdentity r))
      (\<lambda>r. (rfReleaseItemID r, rfHash r)) (rcRootIDs rows) (rcFormats rows) (tReleaseFormat c) (result.count (v 6)) T6"
    by (auto simp: T5(1))
  have st: "(releaseReconcilers env ord rows roots ! 7) (s 7) = (v 7, s 8) \<and> \<not> isErr (v 7)"
    by (rule step') simp_all
  have "\<exists>T. s 8 = (s 7)\<lparr>tReleaseIdentifier := T\<rparr> \<and> reconciled rdReleaseItemID (\<lambda>r. (rdReleaseItemID r, rdHash r, rdIdentity r))
      (\<lambda>r. (rdReleaseItemID r, rdHash r)) (rcRootIDs rows) (rcIdentifiers rows) (tReleaseIdentifier (s 7)) (result.count (v 7)) T"
    using st
    by (intro releaseIdentifier_step [where env = env and ord = ord and R = "forTable roots (dirTable releaseIdentifierRelation)", OF _ new(9) _ _ new(12)])
      (simp_all add: releaseReconcilers_def T6(1) rts(8) nulls unique del: length_greater_0_conv)
  then obtain T7 where T7: "s 8 = c\<lparr>tReleaseArtist := T0, tReleaseCreditedArtist := T1, tReleaseWork := T2, tReleaseStyle := T3, tReleaseGenre := T4, tLabelRelease := T5, tReleaseFormat := T6, tReleaseIdentifier := T7\<rparr>"
      "reconciled rdReleaseItemID (\<lambda>r. (rdReleaseItemID r, rdHash r, rdIdentity r))
      (\<lambda>r. (rdReleaseItemID r, rdHash r)) (rcRootIDs rows) (rcIdentifiers rows) (tReleaseIdentifier c) (result.count (v 7)) T7"
    by (auto simp: T6(1))
  have st: "(releaseReconcilers env ord rows roots ! 8) (s 8) = (v 8, s 9) \<and> \<not> isErr (v 8)"
    by (rule step') simp_all
  have "\<exists>T. s 9 = (s 8)\<lparr>tReleaseTrack := T\<rparr> \<and> reconciled rkReleaseItemID (\<lambda>r. (rkReleaseItemID r, rkHash r, rkIdentity r))
      (\<lambda>r. (rkReleaseItemID r, rkHash r)) (rcRootIDs rows) (rcTracks rows) (tReleaseTrack (s 8)) (result.count (v 8)) T"
    using st
    by (intro releaseTrack_step [where env = env and ord = ord and R = "forTable roots (dirTable releaseTrackRelation)", OF _ new(10) _ _ new(12)])
      (simp_all add: releaseReconcilers_def T7(1) rts(9) nulls unique del: length_greater_0_conv)
  then obtain T8 where T8: "s 9 = c\<lparr>tReleaseArtist := T0, tReleaseCreditedArtist := T1, tReleaseWork := T2, tReleaseStyle := T3, tReleaseGenre := T4, tLabelRelease := T5, tReleaseFormat := T6, tReleaseIdentifier := T7, tReleaseTrack := T8\<rparr>"
      "reconciled rkReleaseItemID (\<lambda>r. (rkReleaseItemID r, rkHash r, rkIdentity r))
      (\<lambda>r. (rkReleaseItemID r, rkHash r)) (rcRootIDs rows) (rcTracks rows) (tReleaseTrack c) (result.count (v 8)) T8"
    by (auto simp: T7(1))
  have st: "(releaseReconcilers env ord rows roots ! 9) (s 9) = (v 9, s 10) \<and> \<not> isErr (v 9)"
    by (rule step') simp_all
  have "\<exists>T. s 10 = (s 9)\<lparr>tReleaseVideo := T\<rparr> \<and> reconciled rvReleaseItemID (\<lambda>r. (rvReleaseItemID r, rvHash r, rvIdentity r))
      (\<lambda>r. (rvReleaseItemID r, rvHash r)) (rcRootIDs rows) (rcVideos rows) (tReleaseVideo (s 9)) (result.count (v 9)) T"
    using st
    by (intro releaseVideo_step [where env = env and ord = ord and R = "forTable roots (dirTable releaseVideoRelation)", OF _ new(11) _ _ new(12)])
      (simp_all add: releaseReconcilers_def T8(1) rts(10) nulls unique del: length_greater_0_conv)
  then obtain T9 where T9: "s 10 = c\<lparr>tReleaseArtist := T0, tReleaseCreditedArtist := T1, tReleaseWork := T2, tReleaseStyle := T3, tReleaseGenre := T4, tLabelRelease := T5, tReleaseFormat := T6, tReleaseIdentifier := T7, tReleaseTrack := T8, tReleaseVideo := T9\<rparr>"
      "reconciled rvReleaseItemID (\<lambda>r. (rvReleaseItemID r, rvHash r, rvIdentity r))
      (\<lambda>r. (rvReleaseItemID r, rvHash r)) (rcRootIDs rows) (rcVideos rows) (tReleaseVideo c) (result.count (v 9)) T9"
    by (auto simp: T8(1))
  note all = T0(2) T1(2) T2(2) T3(2) T4(2) T5(2) T6(2) T7(2) T8(2) T9(2)
  have c': "c' = c\<lparr>tReleaseArtist := T0, tReleaseCreditedArtist := T1, tReleaseWork := T2, tReleaseStyle := T3, tReleaseGenre := T4, tLabelRelease := T5, tReleaseFormat := T6, tReleaseIdentifier := T7, tReleaseTrack := T8, tReleaseVideo := T9\<rparr>"
    using s(2) T9(1) by (simp add: len)
  show "\<exists>T0 T1 T2 T3 T4 T5 T6 T7 T8 T9. c' = c\<lparr>tReleaseArtist := T0, tReleaseCreditedArtist := T1, tReleaseWork := T2, tReleaseStyle := T3, tReleaseGenre := T4, tLabelRelease := T5, tReleaseFormat := T6, tReleaseIdentifier := T7, tReleaseTrack := T8, tReleaseVideo := T9\<rparr>"
    using c' by blast
  have sum: "result.count r = result.count (v 0) + result.count (v 1) + result.count (v 2) + result.count (v 3) + result.count (v 4) + result.count (v 5) + result.count (v 6) + result.count (v 7) + result.count (v 8) + result.count (v 9)"
    using counts len by (simp add: eval_nat_numeral)
  have conv: "releaseConverged rows c c'"
    using all unfolding releaseConverged_def reconciled_def c' by simp
  have keys: "catalogKeyed c'" using all keyed unfolding catalogKeyed_def reconciled_def c' by simp
  have "c' = c \<and> result.count r = 0" if "releaseAgrees rows c"
  proof -
    have "T0 = tReleaseArtist c \<and> result.count (v 0) = 0 \<and> T1 = tReleaseCreditedArtist c \<and> result.count (v 1) = 0 \<and> T2 = tReleaseWork c \<and> result.count (v 2) = 0 \<and> T3 = tReleaseStyle c \<and> result.count (v 3) = 0 \<and> T4 = tReleaseGenre c \<and> result.count (v 4) = 0 \<and> T5 = tLabelRelease c \<and> result.count (v 5) = 0 \<and> T6 = tReleaseFormat c \<and> result.count (v 6) = 0 \<and> T7 = tReleaseIdentifier c \<and> result.count (v 7) = 0 \<and> T8 = tReleaseTrack c \<and> result.count (v 8) = 0 \<and> T9 = tReleaseVideo c \<and> result.count (v 9) = 0"
      using that all unfolding releaseAgrees_def reconciled_def by simp
    then show ?thesis unfolding c' sum by (simp add: catalog.equality)
  qed
  with conv keys show "releaseConverged rows c c' \<and> catalogKeyed c' \<and> (releaseAgrees rows c \<longrightarrow> c' = c \<and> result.count r = 0)"
    by blast
qed

end
