(* ===== verification/Chunk_Commit.thy ===== *)
theory Chunk_Commit
  imports Chunk_Spec
begin

text \<open>
  What a committed chunk means, per entity. \<open>Committed\<close> is the whole effect of the chunk's
  transaction on the catalog: the reference names and the root rows are merged, every relation
  converges, and no other table is touched. \<open>Held\<close> says that the catalog already has all of it;
  such a chunk is not written at all. The transaction is the writer inside \<open>executeChunk\<close>.
\<close>

section \<open>Reference names\<close>

lemma distinct_map_sort_key: "distinct (map f (sort_key g xs)) \<longleftrightarrow> distinct (map f xs)"
  by (rule mset_eq_imp_distinct_iff) simp

lemma collectFresh_keys:
  assumes "\<And>k. name (mk k) = k"
  shows "distinct (map name (collectFresh key mk seen xs)) \<and> name ` set (collectFresh key mk seen xs) \<inter> seen = {}"
  using assms by (induction key mk seen xs rule: collectFresh.induct) (auto split: option.splits)

lemma collectFresh_names:
  assumes "\<And>k. name (mk k) = k"
  shows "name ` set (collectFresh key mk seen xs) = {k. \<exists>x \<in> set xs. key x = Some k} - seen"
  using assms by (induction key mk seen xs rule: collectFresh.induct) (auto split: option.splits)

lemma filterGenres_names:
  "distinct (map gnName (filterGenres gs))"
  "gnName ` set (filterGenres gs) = {k. k \<noteq> [] \<and> (\<exists>g. Some g \<in> set gs \<and> trimSpace (gnName g) = k)}"
proof -
  show "distinct (map gnName (filterGenres gs))"
    unfolding filterGenres_def by (rule conjunct1 [OF collectFresh_keys]) simp
  show "gnName ` set (filterGenres gs) = {k. k \<noteq> [] \<and> (\<exists>g. Some g \<in> set gs \<and> trimSpace (gnName g) = k)}"
    unfolding filterGenres_def
    by (subst collectFresh_names) (auto simp: Let_def split: option.splits if_splits intro: bexI [rotated])
qed

lemma filterStyles_names:
  "distinct (map syName (filterStyles ss))"
  "syName ` set (filterStyles ss) = {k. k \<noteq> [] \<and> (\<exists>s. Some s \<in> set ss \<and> trimSpace (syName s) = k)}"
proof -
  show "distinct (map syName (filterStyles ss))"
    unfolding filterStyles_def by (rule conjunct1 [OF collectFresh_keys]) simp
  show "syName ` set (filterStyles ss) = {k. k \<noteq> [] \<and> (\<exists>s. Some s \<in> set ss \<and> trimSpace (syName s) = k)}"
    unfolding filterStyles_def
    by (subst collectFresh_names) (auto simp: Let_def split: option.splits if_splits intro: bexI [rotated])
qed

lemma references_merged:
  assumes "writeReferenceEntities env ord genres styles c = (r, c')" and "\<not> isErr r" and "0 < oChunkSize ord"
    and "distinct (map gnName genres)" and "distinct (map syName styles)" and "catalogKeyed c"
  shows "\<exists>G S. c' = c\<lparr>tGenre := G, tStyle := S\<rparr> \<and> result.count r = 0 \<and>
    merged gnName (\<lambda>_ _. False) genres (tGenre c) G \<and> merged syName (\<lambda>_ _. False) styles (tStyle c) S \<and>
    (holdsAll gnName (\<lambda>_ _. False) genres (tGenre c) \<longrightarrow> G = tGenre c) \<and>
    (holdsAll syName (\<lambda>_ _. False) styles (tStyle c) \<longrightarrow> S = tStyle c)"
proof -
  obtain g G where g: "createInBatches env ord genreTable genres (tGenre c) = (g, G)" by fastforce
  then have og: "\<not> isErr g"
    using assms(1,2) by (cases "isErr g") (auto simp: writeReferenceEntities_def onTable_def isErr_def)
  obtain s S where s: "createInBatches env ord styleTable styles (tStyle c) = (s, S)" by fastforce
  then have os: "\<not> isErr s" and r: "r = newResult 0 None" "c' = c\<lparr>tGenre := G, tStyle := S\<rparr>"
    using assms(1,2) g og by (auto simp: writeReferenceEntities_def onTable_def isErr_def split: if_splits)
  have n: "0 < nat (oChunkSize ord)" using assms(3) by simp
  have keys: "distinct (map gnName (tGenre c))" "distinct (map syName (tStyle c))"
    using assms(6) by (simp_all add: catalogKeyed_def)
  show ?thesis
    using genreIns.doWriteFrom_merged [OF g [unfolded createInBatches_def] og n refl assms(4) keys(1)]
      styleIns.doWriteFrom_merged [OF s [unfolded createInBatches_def] os n refl assms(5) keys(2)] r
    by auto
qed

section \<open>The transaction around a writer\<close>

lemma executeChunk_wrote:
  assumes "executeChunk fl now ord chunk write (l, c) = (r, (l', c'))" and "\<not> isErr r"
    and "\<not> (oResume ord \<and> chunkAlreadyCompleted ord chunk l = Inr True)"
  obtains w where "write c = (w, c')" and "\<not> isErr w" and "r = newResult (result.count w) None"
  using assms(1)
proof (cases rule: executeChunk_cases)
  case (written)
  then show ?thesis using that [of "fst (write c)"] by (cases "write c") (simp add: isErr_def)
qed (use assms in \<open>auto simp: isErr_def\<close>)

section \<open>Artist chunks\<close>

definition artistCommitted :: "artistChunk \<Rightarrow> catalog \<Rightarrow> catalog \<Rightarrow> bool" where
  "artistCommitted rows c c' \<longleftrightarrow>
     artistConverged rows c c' \<and>
     c' = c\<lparr>tArtistAlias := tArtistAlias c', tArtistGroup := tArtistGroup c', tArtistMember := tArtistMember c', tArtistNameVariation := tArtistNameVariation c', tArtistURL := tArtistURL c'\<rparr>"

definition artistHeld :: "artistChunk \<Rightarrow> catalog \<Rightarrow> bool" where
  "artistHeld rows c \<longleftrightarrow> artistAgrees rows c"

lemma artist_committed_held: "artistCommitted rows c c' \<Longrightarrow> artistHeld rows c'"
  by (simp add: artistCommitted_def artistHeld_def artistConverged_def artistAgrees_def converged_def merged_def)

lemma artist_commit:
  assumes run: "artistChunkWriter env ord rows c = (w, c')" "\<not> isErr w"
    and rows: "collectArtistChunk cs t items = ([], rows)" and keyed: "catalogKeyed c"
  shows "artistCommitted rows c c' \<and> catalogKeyed c' \<and> (artistHeld rows c \<longrightarrow> c' = c \<and> result.count w = 0)"
proof -
  obtain roots where roots: "findExistingRelationRoots (weFault env) (acRootIDs rows) (artistRelationRoots c) = Inr roots"
    and rec: "reconcileRelations (artistReconcilers env ord rows roots) c = (w, c')"
    using run by (auto simp: artistChunkWriter_def isErr_def split: sum.splits)
  note result = artist_reconciled [OF rec run(2) roots rows keyed]
  have "c' = c\<lparr>tArtistAlias := tArtistAlias c', tArtistGroup := tArtistGroup c', tArtistMember := tArtistMember c', tArtistNameVariation := tArtistNameVariation c', tArtistURL := tArtistURL c'\<rparr>" using result(2) by (auto simp: catalog.equality)
  then show ?thesis using result(1) by (simp add: artistCommitted_def artistHeld_def)
qed

section \<open>Label chunks\<close>

definition labelCommitted :: "labelChunk \<Rightarrow> catalog \<Rightarrow> catalog \<Rightarrow> bool" where
  "labelCommitted rows c c' \<longleftrightarrow>
     labelConverged rows c c' \<and>
     c' = c\<lparr>tLabelURL := tLabelURL c', tLabelSubLabel := tLabelSubLabel c'\<rparr>"

definition labelHeld :: "labelChunk \<Rightarrow> catalog \<Rightarrow> bool" where
  "labelHeld rows c \<longleftrightarrow> labelAgrees rows c"

lemma label_committed_held: "labelCommitted rows c c' \<Longrightarrow> labelHeld rows c'"
  by (simp add: labelCommitted_def labelHeld_def labelConverged_def labelAgrees_def converged_def merged_def)

lemma label_commit:
  assumes run: "labelChunkWriter env ord rows c = (w, c')" "\<not> isErr w"
    and rows: "collectLabelChunk cs t items = ([], rows)" and keyed: "catalogKeyed c"
  shows "labelCommitted rows c c' \<and> catalogKeyed c' \<and> (labelHeld rows c \<longrightarrow> c' = c \<and> result.count w = 0)"
proof -
  obtain roots where roots: "findExistingRelationRoots (weFault env) (lcRootIDs rows) (labelRelationRoots c) = Inr roots"
    and rec: "reconcileRelations (labelReconcilers env ord rows roots) c = (w, c')"
    using run by (auto simp: labelChunkWriter_def isErr_def split: sum.splits)
  note result = label_reconciled [OF rec run(2) roots rows keyed]
  have "c' = c\<lparr>tLabelURL := tLabelURL c', tLabelSubLabel := tLabelSubLabel c'\<rparr>" using result(2) by (auto simp: catalog.equality)
  then show ?thesis using result(1) by (simp add: labelCommitted_def labelHeld_def)
qed

section \<open>Master chunks\<close>

definition masterCommitted :: "masterChunk \<Rightarrow> catalog \<Rightarrow> catalog \<Rightarrow> bool" where
  "masterCommitted rows c c' \<longleftrightarrow>
     merged gnName (\<lambda>_ _. False) (mcGenres rows) (tGenre c) (tGenre c') \<and>
     merged syName (\<lambda>_ _. False) (mcStyles rows) (tStyle c) (tStyle c') \<and>
     merged maID (\<lambda>e r. masterBusiness e \<noteq> masterBusiness r) (mcMasters rows) (tMaster c) (tMaster c') \<and>
     masterConverged rows c c' \<and>
     c' = c\<lparr>tGenre := tGenre c', tStyle := tStyle c', tMaster := tMaster c', tMasterArtist := tMasterArtist c', tMasterGenre := tMasterGenre c', tMasterStyle := tMasterStyle c', tMasterVideo := tMasterVideo c'\<rparr>"

definition masterHeld :: "masterChunk \<Rightarrow> catalog \<Rightarrow> bool" where
  "masterHeld rows c \<longleftrightarrow> holdsAll gnName (\<lambda>_ _. False) (mcGenres rows) (tGenre c) \<and>
     holdsAll syName (\<lambda>_ _. False) (mcStyles rows) (tStyle c) \<and>
     holdsAll maID (\<lambda>e r. masterBusiness e \<noteq> masterBusiness r) (mcMasters rows) (tMaster c) \<and> masterAgrees rows c"

lemma master_committed_held: "masterCommitted rows c c' \<Longrightarrow> masterHeld rows c'"
  by (simp add: masterCommitted_def masterHeld_def masterConverged_def masterAgrees_def converged_def merged_def)

lemma master_collected_roots:
  assumes "collectMasterChunk seed cs t items = ([], rows)"
  shows "distinct (map gnName (mcGenres rows))" and "distinct (map syName (mcStyles rows))"
    and "distinct (map maID (mcMasters rows))"
    and "set (mcGenres rows) = {g \<in> set (filterGenres (concat (map (map Some \<circ> genreRows \<circ> xmrGenres) (presentItems masterSetObservedAt t items)))).
      \<not> containsName (GenreNames cs) (gnName g)}"
    and "set (mcStyles rows) = {s \<in> set (filterStyles (concat (map (map Some \<circ> styleRows \<circ> xmrStyles) (presentItems masterSetObservedAt t items)))).
      \<not> containsName (StyleNames cs) (syName s)}"
proof -
  let ?p = "presentItems masterSetObservedAt t items"
  have g: "mcGenres rows = filter (\<lambda>g. \<not> containsName (GenreNames cs) (gnName g))
      (sort_key gnName (filterGenres (concat (map (map Some \<circ> genreRows \<circ> xmrGenres) ?p))))"
    and s: "mcStyles rows = filter (\<lambda>s. \<not> containsName (StyleNames cs) (syName s))
      (sort_key syName (filterStyles (concat (map (map Some \<circ> styleRows \<circ> xmrStyles) ?p))))"
    using assms by (auto simp: collectMasterChunk_def Let_def sortReferenceEntities_def filterConfirmedReferenceEntities_def)
  show "distinct (map gnName (mcGenres rows))" and "distinct (map syName (mcStyles rows))"
    unfolding g s by (simp_all add: distinct_map_filter distinct_map_sort_key filterGenres_names(1) filterStyles_names(1))
  show "set (mcGenres rows) = {g \<in> set (filterGenres (concat (map (map Some \<circ> genreRows \<circ> xmrGenres) ?p))).
      \<not> containsName (GenreNames cs) (gnName g)}"
    and "set (mcStyles rows) = {s \<in> set (filterStyles (concat (map (map Some \<circ> styleRows \<circ> xmrStyles) ?p))).
      \<not> containsName (StyleNames cs) (syName s)}"
    unfolding g s by simp_all
  have d: "deduplicateMasters (map Some (map (seedPolicy seed \<circ> getMaster t) ?p)) = Inr (mcMasters rows)"
    using master_collected(1) [OF assms refl] by (simp add: comp_assoc)
  show "distinct (map maID (mcMasters rows))"
    using mak.dedupe_laws(1) [OF d [unfolded deduplicateMasters_def]] by (simp add: mastersKey_def [abs_def])
qed

lemma master_commit:
  assumes run: "masterChunkWriter env ord rows c = (w, c')" "\<not> isErr w" and size: "0 < oChunkSize ord"
    and rows: "collectMasterChunk seed cs t items = ([], rows)" and keyed: "catalogKeyed c"
  shows "masterCommitted rows c c' \<and> catalogKeyed c' \<and> (masterHeld rows c \<longrightarrow> c' = c \<and> result.count w = 0)"
proof -
  note new = master_collected_roots [OF rows]
  obtain roots where roots: "findExistingRelationRoots (weFault env) (mcRootIDs rows) (masterRelationRoots c) = Inr roots"
    using run by (auto simp: masterChunkWriter_def isErr_def split: sum.splits)
  obtain v c1 where refs: "writeReferenceEntities env ord (mcGenres rows) (mcStyles rows) c = (v, c1)" by fastforce
  then have okv: "\<not> isErr v" using run roots by (auto simp: masterChunkWriter_def)
  from references_merged [OF refs okv size new(1,2) keyed] obtain G S where GS: "c1 = c\<lparr>tGenre := G, tStyle := S\<rparr>"
      "merged gnName (\<lambda>_ _. False) (mcGenres rows) (tGenre c) G" "merged syName (\<lambda>_ _. False) (mcStyles rows) (tStyle c) S"
      "holdsAll gnName (\<lambda>_ _. False) (mcGenres rows) (tGenre c) \<longrightarrow> G = tGenre c"
      "holdsAll syName (\<lambda>_ _. False) (mcStyles rows) (tStyle c) \<longrightarrow> S = tStyle c"
    by auto
  obtain u M where ins: "doWrite env ord masterTable (mcMasters rows) (tMaster c) = (u, M)" by fastforce
  let ?c2 = "c\<lparr>tGenre := G, tStyle := S, tMaster := M\<rparr>"
  have step: "onTable tMaster tMaster_update (doWrite env ord masterTable (mcMasters rows)) c1 = (u, ?c2)"
    using ins GS(1) by (simp add: onTable_def)
  have oku: "\<not> isErr u" using run roots refs okv step by (auto simp: masterChunkWriter_def)
  obtain r where rec: "reconcileRelations (masterReconcilers env ord rows roots) ?c2 = (r, c')" and w: "w = sumResult u (Some r)"
    using run(1) roots refs okv step oku by (auto simp: masterChunkWriter_def split: prod.splits)
  have okr: "\<not> isErr r" using run(2) w by simp
  have M: "merged maID (\<lambda>e r. masterBusiness e \<noteq> masterBusiness r) (mcMasters rows) (tMaster c) M"
    and Mn: "holdsAll maID (\<lambda>e r. masterBusiness e \<noteq> masterBusiness r) (mcMasters rows) (tMaster c) \<longrightarrow> M = tMaster c \<and> result.count u = 0"
    using masterIns.doWrite_merged [OF ins oku refl new(3)] keyed by (simp_all add: catalogKeyed_def)
  have keyed2: "catalogKeyed ?c2"
    using keyed GS(2,3) M by (simp add: catalogKeyed_def merged_def)
  have found: "findExistingRelationRoots (weFault env) (mcRootIDs rows) (masterRelationRoots ?c2) = Inr roots"
    using roots by (simp add: masterRelationRoots_def)
  note result = master_reconciled [OF rec okr found rows keyed2]
  have unit: "c' = c\<lparr>tGenre := tGenre c', tStyle := tStyle c', tMaster := tMaster c', tMasterArtist := tMasterArtist c', tMasterGenre := tMasterGenre c', tMasterStyle := tMasterStyle c', tMasterVideo := tMasterVideo c'\<rparr>" and tabs: "tGenre c' = G" "tStyle c' = S" "tMaster c' = M"
    using result(2) by (auto simp: catalog.equality)
  have conv: "masterConverged rows c c'" using result(1) by (simp add: masterConverged_def)
  have "c' = c \<and> result.count w = 0" if held: "masterHeld rows c"
  proof -
    have "?c2 = c" and "result.count u = 0" using held GS(4,5) Mn by (simp_all add: masterHeld_def catalog.equality)
    moreover have "masterAgrees rows ?c2" using held by (simp add: masterHeld_def masterAgrees_def)
    ultimately show ?thesis using result(1) w by simp
  qed
  then show ?thesis using unit tabs conv GS M result(1) by (simp add: masterCommitted_def)
qed

section \<open>Release chunks\<close>

definition releaseCommitted :: "releaseChunk \<Rightarrow> catalog \<Rightarrow> catalog \<Rightarrow> bool" where
  "releaseCommitted rows c c' \<longleftrightarrow>
     merged gnName (\<lambda>_ _. False) (rcGenres rows) (tGenre c) (tGenre c') \<and>
     merged syName (\<lambda>_ _. False) (rcStyles rows) (tStyle c) (tStyle c') \<and>
     merged riID (\<lambda>e r. releaseItemBusiness e \<noteq> releaseItemBusiness r) (rcReleases rows) (tReleaseItem c) (tReleaseItem c') \<and>
     releaseConverged rows c c' \<and>
     c' = c\<lparr>tGenre := tGenre c', tStyle := tStyle c', tReleaseItem := tReleaseItem c', tReleaseArtist := tReleaseArtist c', tReleaseCreditedArtist := tReleaseCreditedArtist c', tReleaseWork := tReleaseWork c', tReleaseStyle := tReleaseStyle c', tReleaseGenre := tReleaseGenre c', tLabelRelease := tLabelRelease c', tReleaseFormat := tReleaseFormat c', tReleaseIdentifier := tReleaseIdentifier c', tReleaseTrack := tReleaseTrack c', tReleaseVideo := tReleaseVideo c'\<rparr>"

definition releaseHeld :: "releaseChunk \<Rightarrow> catalog \<Rightarrow> bool" where
  "releaseHeld rows c \<longleftrightarrow> holdsAll gnName (\<lambda>_ _. False) (rcGenres rows) (tGenre c) \<and>
     holdsAll syName (\<lambda>_ _. False) (rcStyles rows) (tStyle c) \<and>
     holdsAll riID (\<lambda>e r. releaseItemBusiness e \<noteq> releaseItemBusiness r) (rcReleases rows) (tReleaseItem c) \<and> releaseAgrees rows c"

lemma release_committed_held: "releaseCommitted rows c c' \<Longrightarrow> releaseHeld rows c'"
  by (simp add: releaseCommitted_def releaseHeld_def releaseConverged_def releaseAgrees_def converged_def merged_def)

lemma release_collected_roots:
  assumes "collectReleaseChunk cs t items = ([], rows)"
  shows "distinct (map gnName (rcGenres rows))" and "distinct (map syName (rcStyles rows))"
    and "distinct (map riID (rcReleases rows))"
    and "set (rcGenres rows) = {g \<in> set (filterGenres (concat (map (map Some \<circ> genreRows \<circ> xrrGenres) (presentItems releaseSetObservedAt t items)))).
      \<not> containsName (GenreNames cs) (gnName g)}"
    and "set (rcStyles rows) = {s \<in> set (filterStyles (concat (map (map Some \<circ> styleRows \<circ> xrrStyles) (presentItems releaseSetObservedAt t items)))).
      \<not> containsName (StyleNames cs) (syName s)}"
proof -
  let ?p = "presentItems releaseSetObservedAt t items"
  have g: "rcGenres rows = filter (\<lambda>g. \<not> containsName (GenreNames cs) (gnName g))
      (sort_key gnName (filterGenres (concat (map (map Some \<circ> genreRows \<circ> xrrGenres) ?p))))"
    and s: "rcStyles rows = filter (\<lambda>s. \<not> containsName (StyleNames cs) (syName s))
      (sort_key syName (filterStyles (concat (map (map Some \<circ> styleRows \<circ> xrrStyles) ?p))))"
    using assms by (auto simp: collectReleaseChunk_def Let_def sortReferenceEntities_def filterConfirmedReferenceEntities_def)
  show "distinct (map gnName (rcGenres rows))" and "distinct (map syName (rcStyles rows))"
    unfolding g s by (simp_all add: distinct_map_filter distinct_map_sort_key filterGenres_names(1) filterStyles_names(1))
  show "set (rcGenres rows) = {g \<in> set (filterGenres (concat (map (map Some \<circ> genreRows \<circ> xrrGenres) ?p))).
      \<not> containsName (GenreNames cs) (gnName g)}"
    and "set (rcStyles rows) = {s \<in> set (filterStyles (concat (map (map Some \<circ> styleRows \<circ> xrrStyles) ?p))).
      \<not> containsName (StyleNames cs) (syName s)}"
    unfolding g s by simp_all
  have d: "deduplicateReleaseItems (map Some (map (getRelease cs t) ?p)) = Inr (rcReleases rows)"
    using release_collected(1) [OF assms refl] by (simp add: comp_assoc)
  show "distinct (map riID (rcReleases rows))"
    using rik.dedupe_laws(1) [OF d [unfolded deduplicateReleaseItems_def]] by (simp add: releaseItemsKey_def [abs_def])
qed

lemma release_commit:
  assumes run: "releaseChunkWriter env ord rows c = (w, c')" "\<not> isErr w" and size: "0 < oChunkSize ord"
    and rows: "collectReleaseChunk cs t items = ([], rows)" and keyed: "catalogKeyed c"
    and nulls: "weNullsEqual env"
  shows "releaseCommitted rows c c' \<and> catalogKeyed c' \<and> (releaseHeld rows c \<longrightarrow> c' = c \<and> result.count w = 0)"
proof -
  note new = release_collected_roots [OF rows]
  obtain roots where roots: "findExistingRelationRoots (weFault env) (rcRootIDs rows) (releaseRelationRoots c) = Inr roots"
    using run by (auto simp: releaseChunkWriter_def isErr_def split: sum.splits)
  obtain v c1 where refs: "writeReferenceEntities env ord (rcGenres rows) (rcStyles rows) c = (v, c1)" by fastforce
  then have okv: "\<not> isErr v" using run roots by (auto simp: releaseChunkWriter_def)
  from references_merged [OF refs okv size new(1,2) keyed] obtain G S where GS: "c1 = c\<lparr>tGenre := G, tStyle := S\<rparr>"
      "merged gnName (\<lambda>_ _. False) (rcGenres rows) (tGenre c) G" "merged syName (\<lambda>_ _. False) (rcStyles rows) (tStyle c) S"
      "holdsAll gnName (\<lambda>_ _. False) (rcGenres rows) (tGenre c) \<longrightarrow> G = tGenre c"
      "holdsAll syName (\<lambda>_ _. False) (rcStyles rows) (tStyle c) \<longrightarrow> S = tStyle c"
    by auto
  obtain u M where ins: "doWrite env ord releaseItemTable (rcReleases rows) (tReleaseItem c) = (u, M)" by fastforce
  let ?c2 = "c\<lparr>tGenre := G, tStyle := S, tReleaseItem := M\<rparr>"
  have step: "onTable tReleaseItem tReleaseItem_update (doWrite env ord releaseItemTable (rcReleases rows)) c1 = (u, ?c2)"
    using ins GS(1) by (simp add: onTable_def)
  have oku: "\<not> isErr u" using run roots refs okv step by (auto simp: releaseChunkWriter_def)
  obtain r where rec: "reconcileRelations (releaseReconcilers env ord rows roots) ?c2 = (r, c')" and w: "w = sumResult u (Some r)"
    using run(1) roots refs okv step oku by (auto simp: releaseChunkWriter_def split: prod.splits)
  have okr: "\<not> isErr r" using run(2) w by simp
  have M: "merged riID (\<lambda>e r. releaseItemBusiness e \<noteq> releaseItemBusiness r) (rcReleases rows) (tReleaseItem c) M"
    and Mn: "holdsAll riID (\<lambda>e r. releaseItemBusiness e \<noteq> releaseItemBusiness r) (rcReleases rows) (tReleaseItem c) \<longrightarrow> M = tReleaseItem c \<and> result.count u = 0"
    using releaseItemIns.doWrite_merged [OF ins oku refl new(3)] keyed by (simp_all add: catalogKeyed_def)
  have keyed2: "catalogKeyed ?c2"
    using keyed GS(2,3) M by (simp add: catalogKeyed_def merged_def)
  have found: "findExistingRelationRoots (weFault env) (rcRootIDs rows) (releaseRelationRoots ?c2) = Inr roots"
    using roots by (simp add: releaseRelationRoots_def)
  note result = release_reconciled [OF rec okr found rows keyed2 nulls]
  have unit: "c' = c\<lparr>tGenre := tGenre c', tStyle := tStyle c', tReleaseItem := tReleaseItem c', tReleaseArtist := tReleaseArtist c', tReleaseCreditedArtist := tReleaseCreditedArtist c', tReleaseWork := tReleaseWork c', tReleaseStyle := tReleaseStyle c', tReleaseGenre := tReleaseGenre c', tLabelRelease := tLabelRelease c', tReleaseFormat := tReleaseFormat c', tReleaseIdentifier := tReleaseIdentifier c', tReleaseTrack := tReleaseTrack c', tReleaseVideo := tReleaseVideo c'\<rparr>" and tabs: "tGenre c' = G" "tStyle c' = S" "tReleaseItem c' = M"
    using result(2) by (auto simp: catalog.equality)
  have conv: "releaseConverged rows c c'" using result(1) by (simp add: releaseConverged_def)
  have "c' = c \<and> result.count w = 0" if held: "releaseHeld rows c"
  proof -
    have "?c2 = c" and "result.count u = 0" using held GS(4,5) Mn by (simp_all add: releaseHeld_def catalog.equality)
    moreover have "releaseAgrees rows ?c2" using held by (simp add: releaseHeld_def releaseAgrees_def)
    ultimately show ?thesis using result(1) w by simp
  qed
  then show ?thesis using unit tabs conv GS M result(1) by (simp add: releaseCommitted_def)
qed

end
