(* ===== verification/Retimed.thy ===== *)
theory Retimed
  imports Chunk_Commit
begin

text \<open>
  Time is not content. The rows of a release chunk observed at another time, by an importer that
  knows other genre and style names, are the same rows with another modification time: the
  transformers stamp the time on every row, and deduplication commutes with the stamp, since neither
  keys nor payloads nor digests read it.
\<close>

section \<open>Deduplication commutes with a stamp\<close>

lemma canonicalLoop_stamp:
  assumes "\<And>r. key (f r) = key r" and "\<And>a b. equalPayload (f a) (f b) \<longleftrightarrow> equalPayload a b"
    and "canonicalLoop table key equalPayload i items seen acc = Inr out"
  shows "canonicalLoop table key equalPayload i (map (map_option f) items) (\<lambda>k. map_option f (seen k)) (map f acc) = Inr (map f out)"
  using assms(3)
proof (induction items arbitrary: i seen acc)
  case (Cons x items)
  show ?case
  proof (cases x)
    case (Some r)
    have seen: "(\<lambda>k. map_option f ((seen(key r \<mapsto> r)) k)) = (\<lambda>k. map_option f (seen k))(key r \<mapsto> f r)" by auto
    show ?thesis
    proof (cases "seen (key r)")
      case None
      then show ?thesis
        using Cons.prems Some Cons.IH [of "Suc i" "seen(key r \<mapsto> r)" "acc @ [r]", unfolded seen]
        by (simp add: assms(1) del: fun_upd_apply)
    qed (use Cons Some in \<open>auto simp: assms(1,2) split: if_splits\<close>)
  qed (use Cons in simp)
qed simp

lemma canonical_stamp:
  assumes "\<And>r. key (f r) = key r" and "\<And>a b. equalPayload (f a) (f b) \<longleftrightarrow> equalPayload a b"
    and "deduplicateCanonicalRows table items key equalPayload = Inr out"
  shows "deduplicateCanonicalRows table (map (map_option f) items) key equalPayload = Inr (map f out)"
  using canonicalLoop_stamp [of key f equalPayload table 0 items Map.empty "[]" out] assms
  by (simp add: deduplicateCanonicalRows_def)

definition stampState :: "('r \<Rightarrow> 'r) \<Rightarrow> ('k, 'r) hashedState \<Rightarrow> ('k, 'r) hashedState" where
  "stampState f st = st\<lparr>rowsByIdentity := (\<lambda>k d. map_option f (rowsByIdentity st k d)), kept := map f (kept st)\<rparr>"

lemma stampState_keep: "keepRow k h d (f r) (stampState f st) = stampState f (keepRow k h d r st)"
  by (auto simp: stampState_def keepRow_def fun_eq_iff)

lemma hashedLoop_stamp:
  assumes "\<And>r. scope (f r) = scope r" and "\<And>r. hash (f r) = hash r" and "\<And>r. dig (f r) = dig r"
    and "\<And>a b. equalPayload (f a) (f b) \<longleftrightarrow> equalPayload a b"
    and "hashedLoop table scope hash dig equalPayload i items st = Inr st'"
  shows "hashedLoop table scope hash dig equalPayload i (map (map_option f) items) (stampState f st) = Inr (stampState f st')"
  using assms(5)
proof (induction items arbitrary: i st)
  case (Cons x items)
  show ?case
  proof (cases x)
    case (Some r)
    have sel: "rowsByIdentity (stampState f st) k d = map_option f (rowsByIdentity st k d)" for k d by (simp add: stampState_def)
    show ?thesis
      using Cons Some
      by (cases "rowsByIdentity st (scope r) (dig r)") (auto simp: assms(1-4) sel stampState_keep split: if_splits)
  qed (use Cons in simp)
qed simp

lemma applyCalls_stamp:
  assumes "\<And>r h d. setIdentity (f r) h d = f (setIdentity r h d)"
  shows "applyCalls setIdentity calls (map f rows) = map f (applyCalls setIdentity calls rows)"
  unfolding applyCalls_def
proof (induction calls arbitrary: rows)
  case (Cons x calls)
  obtain p h d where x: "x = (p, h, d)" by (cases x)
  have "(map f rows)[p := setIdentity (map f rows ! p) h d] = map f (rows[p := setIdentity (rows ! p) h d])"
    by (cases "p < length rows") (simp_all add: assms map_update list_update_beyond)
  then show ?case using Cons by (simp add: x)
qed simp

lemma allocateScopes_stamp:
  assumes "\<And>r h d. setIdentity (f r) h d = f (setIdentity r h d)"
    and "allocateScopes table allocate setIdentity scs rows = Inr out"
  shows "allocateScopes table allocate setIdentity scs (map f rows) = Inr (map f out)"
  using assms(2)
proof (induction scs arbitrary: rows)
  case (Cons sc scs)
  obtain k s where sc: "sc = (k, s)" by fastforce
  then show ?case
    using Cons applyCalls_stamp [of setIdentity f, OF assms(1)] by (cases "allocate s") simp_all
qed simp

lemma hashed_stamp:
  assumes "\<And>r. scope (f r) = scope r" and "\<And>r. hash (f r) = hash r" and "\<And>r. dig (f r) = dig r"
    and "\<And>a b. equalPayload (f a) (f b) \<longleftrightarrow> equalPayload a b" and "\<And>r h d. setIdentity (f r) h d = f (setIdentity r h d)"
    and "deduplicateHashedReleaseRows table rel items scope hash dig equalPayload setIdentity = Inr out"
  shows "deduplicateHashedReleaseRows table rel (map (map_option f) items) scope hash dig equalPayload setIdentity = Inr (map f out)"
proof -
  from assms(6) obtain st where st: "hashedLoop table scope hash dig equalPayload 0 items emptyHashed = Inr st"
    and out: "allocateScopes table (assignCompatibilitySlots rel) setIdentity (scopes st) (kept st) = Inr out"
    by (auto simp: deduplicateHashedReleaseRows_def deduplicateHashedRowsWithAllocator_def split: sum.splits)
  have "stampState f emptyHashed = (emptyHashed :: ('b, 'a) hashedState)" by (auto simp: stampState_def emptyHashed_def fun_eq_iff)
  then have "hashedLoop table scope hash dig equalPayload 0 (map (map_option f) items) emptyHashed = Inr (stampState f st)"
    using hashedLoop_stamp [of scope f hash dig equalPayload table 0 items emptyHashed st, OF assms(1-4) st] by simp
  moreover have "scopes (stampState f st) = scopes st" "kept (stampState f st) = map f (kept st)" by (simp_all add: stampState_def)
  ultimately show ?thesis
    using allocateScopes_stamp [of setIdentity f, OF assms(5) out]
    by (simp add: deduplicateHashedReleaseRows_def deduplicateHashedRowsWithAllocator_def)
qed

lemma canonicalizeFormats_stamp:
  assumes "\<And>r. canonicalizeReleaseFormatQuantity (f r) = map_sum id f (canonicalizeReleaseFormatQuantity r)"
    and "canonicalizeFormats i items = Inr items'"
  shows "canonicalizeFormats i (map (map_option f) items) = Inr (map (map_option f) items')"
  using assms(2)
proof (induction items arbitrary: i items')
  case (Cons x items)
  obtain rest where rest: "canonicalizeFormats (Suc i) items = Inr rest"
    using Cons.prems by (cases x; cases "canonicalizeFormats (Suc i) items") (auto split: sum.splits)
  show ?case
    using Cons.prems Cons.IH [OF rest] rest by (cases x) (auto simp: assms(1) split: sum.splits)
qed simp

section \<open>The transformers stamp the time\<close>

lemma map_mapFilter: "map f (List.map_filter g xs) = List.map_filter (\<lambda>x. map_option f (g x)) xs"
  by (induction xs) (auto simp: map_filter_simps split: option.splits)

lemma map_collectFresh: "map f (collectFresh key mk seen xs) = collectFresh key (\<lambda>k. f (mk k)) seen xs"
  by (induction xs arbitrary: seen) (auto split: option.splits)

lemmas stamp_defs = releaseTimestamp_def releaseSetObservedAt_def Let_def map_mapFilter map_collectFresh if_distrib [of "map_option _"]

lemma getters_stamp:
  "getRelease cs t (releaseSetObservedAt t x) =
     (\<lambda>r. r\<lparr>riCreatedAt := t, riLastModifiedAt := t\<rparr>) (getRelease cs u (releaseSetObservedAt u x))"
  "getReleaseArtists cs t (releaseSetObservedAt t x) = map (rtLastModifiedAt_update (\<lambda>_. t)) (getReleaseArtists cs u (releaseSetObservedAt u x))"
  "getCreditedArtists cs t (releaseSetObservedAt t x) = map (rcLastModifiedAt_update (\<lambda>_. t)) (getCreditedArtists cs u (releaseSetObservedAt u x))"
  "getWorks cs t (releaseSetObservedAt t x) = map (rwLastModifiedAt_update (\<lambda>_. t)) (getWorks cs u (releaseSetObservedAt u x))"
  "getReleaseStyles t (releaseSetObservedAt t x) = map (rsLastModifiedAt_update (\<lambda>_. t)) (getReleaseStyles u (releaseSetObservedAt u x))"
  "getReleaseGenres t (releaseSetObservedAt t x) = map (rgLastModifiedAt_update (\<lambda>_. t)) (getReleaseGenres u (releaseSetObservedAt u x))"
  "getLabels cs t (releaseSetObservedAt t x) = map (lrLastModifiedAt_update (\<lambda>_. t)) (getLabels cs u (releaseSetObservedAt u x))"
  "getFormats t (releaseSetObservedAt t x) = map (rfLastModifiedAt_update (\<lambda>_. t)) (getFormats u (releaseSetObservedAt u x))"
  "getIdentifiers t (releaseSetObservedAt t x) = map (rdLastModifiedAt_update (\<lambda>_. t)) (getIdentifiers u (releaseSetObservedAt u x))"
  "getTracks t (releaseSetObservedAt t x) = map (rkLastModifiedAt_update (\<lambda>_. t)) (getTracks u (releaseSetObservedAt u x))"
  "getVideos t (releaseSetObservedAt t x) = map (rvLastModifiedAt_update (\<lambda>_. t)) (getVideos u (releaseSetObservedAt u x))"
  by (simp_all add: getRelease_def releaseItem_def getReleaseArtists_def getCreditedArtists_def getWorks_def getReleaseStyles_def
      getReleaseGenres_def getLabels_def getFormats_def getIdentifiers_def getTracks_def getVideos_def stamp_defs
      case_prod_unfold cong: if_cong)

lemma presentItems_stamp: "presentItems releaseSetObservedAt t items = map (releaseSetObservedAt t) (List.map_filter id items)"
  unfolding presentItems_def assignChunkObservedAt_def
  by (induction items) (auto simp: map_filter_simps split: option.splits)

lemma collected_stamp:
  assumes "\<And>x. get t (releaseSetObservedAt t x) = map f (get u (releaseSetObservedAt u x))"
  shows "concat (map (map Some \<circ> get t) (presentItems releaseSetObservedAt t items)) =
    map (map_option f) (concat (map (map Some \<circ> get u) (presentItems releaseSetObservedAt u items)))"
  unfolding presentItems_stamp
  by (induction items) (auto simp: map_filter_simps assms split: option.splits)

section \<open>A release chunk at another time\<close>

lemmas canonical_defs = deduplicateReleaseItems_def releaseItemsKey_def releaseItemsEqual_def deduplicateReleaseArtists_def
  releaseArtistsKey_def releaseArtistsEqual_def deduplicateReleaseStyles_def releaseStylesKey_def releaseStylesEqual_def
  deduplicateReleaseGenres_def releaseGenresKey_def releaseGenresEqual_def deduplicateLabelReleaseItems_def labelReleaseItemsKey_def
  labelReleaseItemsEqual_def

lemma canonical_dedupe_stamp:
  "deduplicateReleaseItems is = Inr a \<Longrightarrow> deduplicateReleaseItems (map (map_option (\<lambda>r. r\<lparr>riCreatedAt := t, riLastModifiedAt := t\<rparr>)) is) =
     Inr (map (\<lambda>r. r\<lparr>riCreatedAt := t, riLastModifiedAt := t\<rparr>) a)"
  "deduplicateReleaseArtists rt = Inr b \<Longrightarrow> deduplicateReleaseArtists (map (map_option (rtLastModifiedAt_update (\<lambda>_. t))) rt) =
     Inr (map (rtLastModifiedAt_update (\<lambda>_. t)) b)"
  "deduplicateReleaseStyles rs = Inr c \<Longrightarrow> deduplicateReleaseStyles (map (map_option (rsLastModifiedAt_update (\<lambda>_. t))) rs) =
     Inr (map (rsLastModifiedAt_update (\<lambda>_. t)) c)"
  "deduplicateReleaseGenres rg = Inr d \<Longrightarrow> deduplicateReleaseGenres (map (map_option (rgLastModifiedAt_update (\<lambda>_. t))) rg) =
     Inr (map (rgLastModifiedAt_update (\<lambda>_. t)) d)"
  "deduplicateLabelReleaseItems lr = Inr e \<Longrightarrow> deduplicateLabelReleaseItems (map (map_option (lrLastModifiedAt_update (\<lambda>_. t))) lr) =
     Inr (map (lrLastModifiedAt_update (\<lambda>_. t)) e)"
  unfolding canonical_defs by (erule canonical_stamp [rotated 2]; simp)+

lemmas hashed_defs = deduplicateReleaseCreditedArtists_def releaseCreditedArtistsScope_def releaseCreditedArtistsDigest_def
  releaseCreditedArtistsEqual_def releaseCreditedArtistsSet_def deduplicateReleaseWorks_def releaseWorksScope_def
  releaseWorksDigest_def releaseWorksEqual_def releaseWorksSet_def releaseFormatsScope_def releaseFormatsDigest_def
  releaseFormatsEqual_def releaseFormatsSet_def releaseFormatQuantityField_def deduplicateReleaseIdentifiers_def
  releaseIdentifiersScope_def releaseIdentifiersDigest_def releaseIdentifiersEqual_def releaseIdentifiersSet_def
  deduplicateReleaseTracks_def releaseTracksScope_def releaseTracksDigest_def releaseTracksEqual_def releaseTracksSet_def
  deduplicateReleaseVideos_def releaseVideosScope_def releaseVideosDigest_def releaseVideosEqual_def releaseVideosSet_def

lemma hashed_dedupe_stamp:
  "deduplicateReleaseCreditedArtists rc = Inr a \<Longrightarrow>
     deduplicateReleaseCreditedArtists (map (map_option (rcLastModifiedAt_update (\<lambda>_. t))) rc) = Inr (map (rcLastModifiedAt_update (\<lambda>_. t)) a)"
  "deduplicateReleaseWorks rw = Inr b \<Longrightarrow>
     deduplicateReleaseWorks (map (map_option (rwLastModifiedAt_update (\<lambda>_. t))) rw) = Inr (map (rwLastModifiedAt_update (\<lambda>_. t)) b)"
  "deduplicateReleaseIdentifiers rd = Inr d \<Longrightarrow>
     deduplicateReleaseIdentifiers (map (map_option (rdLastModifiedAt_update (\<lambda>_. t))) rd) = Inr (map (rdLastModifiedAt_update (\<lambda>_. t)) d)"
  "deduplicateReleaseTracks rk = Inr e \<Longrightarrow>
     deduplicateReleaseTracks (map (map_option (rkLastModifiedAt_update (\<lambda>_. t))) rk) = Inr (map (rkLastModifiedAt_update (\<lambda>_. t)) e)"
  "deduplicateReleaseVideos rv = Inr f \<Longrightarrow>
     deduplicateReleaseVideos (map (map_option (rvLastModifiedAt_update (\<lambda>_. t))) rv) = Inr (map (rvLastModifiedAt_update (\<lambda>_. t)) f)"
  unfolding deduplicateReleaseCreditedArtists_def deduplicateReleaseWorks_def deduplicateReleaseIdentifiers_def
    deduplicateReleaseTracks_def deduplicateReleaseVideos_def
  by (erule hashed_stamp [rotated 5]; simp add: hashed_defs)+

lemma formats_dedupe_stamp:
  assumes "deduplicateReleaseFormats rf = Inr a"
  shows "deduplicateReleaseFormats (map (map_option (rfLastModifiedAt_update (\<lambda>_. t))) rf) = Inr (map (rfLastModifiedAt_update (\<lambda>_. t)) a)"
proof -
  obtain rf' where c: "canonicalizeFormats 0 rf = Inr rf'"
    and d: "deduplicateHashedReleaseRows ''release_item_format'' Format rf' releaseFormatsScope rfHash releaseFormatsDigest
      releaseFormatsEqual releaseFormatsSet = Inr a"
    using assms by (auto simp: deduplicateReleaseFormats_def split: sum.splits)
  have "canonicalizeFormats 0 (map (map_option (rfLastModifiedAt_update (\<lambda>_. t))) rf) =
      Inr (map (map_option (rfLastModifiedAt_update (\<lambda>_. t))) rf')"
    by (rule canonicalizeFormats_stamp [OF _ c])
      (auto simp: canonicalizeReleaseFormatQuantity_def split: option.splits sum.splits)
  moreover have "deduplicateHashedReleaseRows ''release_item_format'' Format (map (map_option (rfLastModifiedAt_update (\<lambda>_. t))) rf')
      releaseFormatsScope rfHash releaseFormatsDigest releaseFormatsEqual releaseFormatsSet = Inr (map (rfLastModifiedAt_update (\<lambda>_. t)) a)"
    by (rule hashed_stamp [OF _ _ _ _ _ d]) (simp_all add: hashed_defs)
  ultimately show ?thesis by (simp add: deduplicateReleaseFormats_def)
qed

definition stampChunk :: "time \<Rightarrow> releaseChunk \<Rightarrow> releaseChunk" where
  "stampChunk t rows =
     rows\<lparr>rcReleases := map (\<lambda>r. r\<lparr>riCreatedAt := t, riLastModifiedAt := t\<rparr>) (rcReleases rows),
       rcArtists := map (rtLastModifiedAt_update (\<lambda>_. t)) (rcArtists rows),
       rcCreditedArtists := map (rcLastModifiedAt_update (\<lambda>_. t)) (rcCreditedArtists rows),
       rcWorks := map (rwLastModifiedAt_update (\<lambda>_. t)) (rcWorks rows),
       rcReleaseStyles := map (rsLastModifiedAt_update (\<lambda>_. t)) (rcReleaseStyles rows),
       rcReleaseGenres := map (rgLastModifiedAt_update (\<lambda>_. t)) (rcReleaseGenres rows),
       rcLabels := map (lrLastModifiedAt_update (\<lambda>_. t)) (rcLabels rows),
       rcFormats := map (rfLastModifiedAt_update (\<lambda>_. t)) (rcFormats rows),
       rcIdentifiers := map (rdLastModifiedAt_update (\<lambda>_. t)) (rcIdentifiers rows),
       rcTracks := map (rkLastModifiedAt_update (\<lambda>_. t)) (rcTracks rows),
       rcVideos := map (rvLastModifiedAt_update (\<lambda>_. t)) (rcVideos rows)\<rparr>"

lemma release_chunk_stamp:
  assumes "collectReleaseChunk cs u items = ([], rows)"
  shows "collectReleaseChunk cs t items = ([], stampChunk t rows)"
proof -
  note new = release_collected [OF assms refl]
  have items: "map (Some \<circ> getRelease cs t) (presentItems releaseSetObservedAt t items) =
      map (map_option (\<lambda>r. r\<lparr>riCreatedAt := t, riLastModifiedAt := t\<rparr>)) (map (Some \<circ> getRelease cs u) (presentItems releaseSetObservedAt u items))"
    by (simp add: presentItems_stamp getters_stamp(1) [of cs t _ u])
  note at_t = canonical_dedupe_stamp(1) [OF new(1), of t, folded items]
    canonical_dedupe_stamp(2) [OF new(2), of t, folded collected_stamp [where get = "getReleaseArtists cs", OF getters_stamp(2)]]
    hashed_dedupe_stamp(1) [OF new(3), of t, folded collected_stamp [where get = "getCreditedArtists cs", OF getters_stamp(3)]]
    hashed_dedupe_stamp(2) [OF new(4), of t, folded collected_stamp [where get = "getWorks cs", OF getters_stamp(4)]]
    canonical_dedupe_stamp(3) [OF new(5), of t, folded collected_stamp [where get = "getReleaseStyles", OF getters_stamp(5)]]
    canonical_dedupe_stamp(4) [OF new(6), of t, folded collected_stamp [where get = "getReleaseGenres", OF getters_stamp(6)]]
    canonical_dedupe_stamp(5) [OF new(7), of t, folded collected_stamp [where get = "getLabels cs", OF getters_stamp(7)]]
    formats_dedupe_stamp [OF new(8), of t, folded collected_stamp [where get = "getFormats", OF getters_stamp(8)]]
    hashed_dedupe_stamp(3) [OF new(9), of t, folded collected_stamp [where get = "getIdentifiers", OF getters_stamp(9)]]
    hashed_dedupe_stamp(4) [OF new(10), of t, folded collected_stamp [where get = "getTracks", OF getters_stamp(10)]]
    hashed_dedupe_stamp(5) [OF new(11), of t, folded collected_stamp [where get = "getVideos", OF getters_stamp(11)]]
  have plain: "map xrrID (presentItems releaseSetObservedAt t items) = map xrrID (presentItems releaseSetObservedAt u items)"
    "concat (map (map Some \<circ> genreRows \<circ> xrrGenres) (presentItems releaseSetObservedAt t items)) =
      concat (map (map Some \<circ> genreRows \<circ> xrrGenres) (presentItems releaseSetObservedAt u items))"
    "concat (map (map Some \<circ> styleRows \<circ> xrrStyles) (presentItems releaseSetObservedAt t items)) =
      concat (map (map Some \<circ> styleRows \<circ> xrrStyles) (presentItems releaseSetObservedAt u items))"
    by (simp_all add: presentItems_stamp comp_def releaseSetObservedAt_def)
  show ?thesis
    using assms unfolding collectReleaseChunk_def Let_def at_t new(1-11) plain
    by (cases rows) (auto simp: errorOf_def joinErrors_def stampChunk_def split: prod.splits)
qed

text \<open>What a chunk finds in the catalog does not depend on the time it was observed at.\<close>

lemma holdsAll_stamp:
  "holdsAll riID (\<lambda>e r. releaseItemBusiness e \<noteq> releaseItemBusiness r)
     (map (\<lambda>r :: releaseItemRow. r\<lparr>riCreatedAt := t, riLastModifiedAt := t\<rparr>) xs) rs =
   holdsAll riID (\<lambda>e r. releaseItemBusiness e \<noteq> releaseItemBusiness r) xs rs"
  by (simp add: holdsAll_def releaseItemBusiness_def)

lemma releaseHeld_stamp: "releaseHeld (stampChunk t rows) c = releaseHeld rows c"
  unfolding releaseHeld_def releaseAgrees_def stampChunk_def
  by (simp add: image_image holdsAll_stamp)

end
