(* ===== verification/Chunk_Results.thy ===== *)
theory Chunk_Results
  imports Retimed "HOL-Library.Code_Target_Numeral"
begin

text \<open>
  The results for the chunk writers: what a successful \<open>writeReleaseRelationChunk\<close> leaves behind,
  that writing a chunk again changes nothing, that no relation ever names a genre or style that is
  not in its table, and that the batches of an insert are invisible and within the protocol limit.
\<close>

section \<open>From the functions to their transactions\<close>

lemma writeArtist_ok:
  assumes "writeArtistRelationChunk env now cs t ord chunk items (l, c) = (r, (l', c'))" and "\<not> isErr r"
    and "\<not> (oResume ord \<and> chunkAlreadyCompleted ord chunk l = Inr True)"
  obtains rows w where "collectArtistChunk cs t items = ([], rows)" and "artistChunkWriter env ord rows c = (w, c')"
    and "\<not> isErr w" and "result.count r = result.count w"
proof -
  obtain es rows where rows: "collectArtistChunk cs t items = (es, rows)" by fastforce
  have es: "es = []"
    using assms(1,2) rows by (auto simp: writeArtistRelationChunk_def afterCanonicalization_def isErr_def split: if_splits)
  obtain v where ex: "executeChunk (weFault env) now ord chunk (artistChunkWriter env ord rows) (l, c) = (v, (l', c'))"
    and r: "r = notWritten v"
    using assms(1) rows es
    by (auto simp: writeArtistRelationChunk_def afterCanonicalization_def split: prod.splits)
  have "\<not> isErr v" using assms(2) r by (simp add: notWritten_def isErr_def)
  from executeChunk_wrote [OF ex this assms(3)] obtain w
    where w: "artistChunkWriter env ord rows c = (w, c')" "\<not> isErr w" "v = newResult (result.count w) None" .
  show ?thesis by (rule that [of rows w]) (use rows es r w in \<open>simp_all add: notWritten_def\<close>)
qed

lemma writeLabel_ok:
  assumes "writeLabelRelationChunk env now cs t ord chunk items (l, c) = (r, (l', c'))" and "\<not> isErr r"
    and "\<not> (oResume ord \<and> chunkAlreadyCompleted ord chunk l = Inr True)"
  obtains rows w where "collectLabelChunk cs t items = ([], rows)" and "labelChunkWriter env ord rows c = (w, c')"
    and "\<not> isErr w" and "result.count r = result.count w"
proof -
  obtain es rows where rows: "collectLabelChunk cs t items = (es, rows)" by fastforce
  have es: "es = []"
    using assms(1,2) rows by (auto simp: writeLabelRelationChunk_def afterCanonicalization_def isErr_def split: if_splits)
  obtain v where ex: "executeChunk (weFault env) now ord chunk (labelChunkWriter env ord rows) (l, c) = (v, (l', c'))"
    and r: "r = notWritten v"
    using assms(1) rows es
    by (auto simp: writeLabelRelationChunk_def afterCanonicalization_def split: prod.splits)
  have "\<not> isErr v" using assms(2) r by (simp add: notWritten_def isErr_def)
  from executeChunk_wrote [OF ex this assms(3)] obtain w
    where w: "labelChunkWriter env ord rows c = (w, c')" "\<not> isErr w" "v = newResult (result.count w) None" .
  show ?thesis by (rule that [of rows w]) (use rows es r w in \<open>simp_all add: notWritten_def\<close>)
qed

text \<open>An unsuccessful release or master chunk changes neither the database nor the caches.\<close>

lemma writeRelease_cases:
  assumes "writeReleaseRelationChunk env now cs t ord chunk items (l, c) = (r, cs', (l', c'))"
    and "\<not> (oResume ord \<and> chunkAlreadyCompleted ord chunk l = Inr True)"
  obtains (failed) "isErr r" "cs' = cs" "l' = l" "c' = c"
  | (written) rows w where "\<not> isErr r" "collectReleaseChunk cs t items = ([], rows)"
      "releaseChunkWriter env ord rows c = (w, c')" "\<not> isErr w" "result.count r = result.count w"
      "cs' = confirmReferenceEntities (rcGenres rows) (rcStyles rows) cs"
proof -
  obtain es rows where rows: "collectReleaseChunk cs t items = (es, rows)" by fastforce
  show thesis
  proof (cases "es = []")
    case False
    then show ?thesis using assms(1) rows by (intro failed) (auto simp: writeReleaseRelationChunk_def isErr_def)
  next
    case True
    obtain v where ex: "executeChunk (weFault env) now ord chunk (releaseChunkWriter env ord rows) (l, c) = (v, (l', c'))"
      and r: "r = notWritten v"
      and cs': "cs' = (if \<not> isErr v then confirmReferenceEntities (rcGenres rows) (rcStyles rows) cs else cs)"
      using assms(1) rows True by (auto simp: writeReleaseRelationChunk_def split: prod.splits)
    have same: "isErr r \<longleftrightarrow> isErr v" using r by (simp add: notWritten_def isErr_def)
    show ?thesis
    proof (cases "isErr v")
      case True
      from ex have "l' = l \<and> c' = c"
        by (cases rule: executeChunk_cases) (use True in \<open>auto simp: isErr_def\<close>)
      then show ?thesis using True same cs' by (intro failed) auto
    next
      case False
      from executeChunk_wrote [OF ex False assms(2)] obtain w
        where "releaseChunkWriter env ord rows c = (w, c')" "\<not> isErr w" "v = newResult (result.count w) None" .
      then show ?thesis
        using False same cs' rows r \<open>es = []\<close> by (intro written [of rows w]) (auto simp: notWritten_def)
    qed
  qed
qed

text \<open>A chunk found recorded is not written, but its names become known.\<close>

lemma executeChunk_recorded:
  assumes "executeChunk fl now ord chunk write (l, c) = (r, (l', c'))"
    and "oResume ord \<and> chunkAlreadyCompleted ord chunk l = Inr True"
  shows "c' = c"
  using assms(1)
proof (cases rule: executeChunk_cases)
  case written
  show ?thesis
    using assms
    by (auto simp: executeChunk_def transaction_def atomically_def chunkBody_def andThen_def onLedger_def sql_def
        split: sum.splits if_splits prod.splits)
qed simp_all

lemma writeRelease_resumed:
  assumes "writeReleaseRelationChunk env now cs t ord chunk items (l, c) = (r, cs', (l', c'))"
    and "oResume ord \<and> chunkAlreadyCompleted ord chunk l = Inr True"
  obtains (same) "cs' = cs" "c' = c"
  | (confirmed) rows where "collectReleaseChunk cs t items = ([], rows)" "c' = c"
      "cs' = confirmReferenceEntities (rcGenres rows) (rcStyles rows) cs"
proof -
  obtain es rows where rows: "collectReleaseChunk cs t items = (es, rows)" by fastforce
  show thesis
  proof (cases "es = []")
    case True
    obtain v where ex: "executeChunk (weFault env) now ord chunk (releaseChunkWriter env ord rows) (l, c) = (v, (l', c'))"
      and cs': "cs' = (if \<not> isErr v then confirmReferenceEntities (rcGenres rows) (rcStyles rows) cs else cs)"
      using assms(1) rows True by (auto simp: writeReleaseRelationChunk_def split: prod.splits)
    have "c' = c" by (rule executeChunk_recorded [OF ex assms(2)])
    then show ?thesis using cs' rows True same confirmed [of rows] by (cases "isErr v") auto
  qed (use assms(1) rows in \<open>auto simp: writeReleaseRelationChunk_def intro: same\<close>)
qed

section \<open>Demonstration data\<close>

definition demoReleaseItem :: xmlReleaseRelation where
  "demoReleaseItem =
     \<lparr>xrrID = 7, xrrTitle = Some ''Title'', xrrCountry = None, xrrDataQuality = None, xrrListedReleaseDate = None,
      xrrNotes = None, xrrMasterInfo = \<lparr>miMasterID = None, miIsMaster = False\<rparr>, xrrStatus = None, xrrArtists = [],
      xrrLabels = [], xrrCreditedArtists = [], xrrFormats = [], xrrGenres = [''Rock''], xrrStyles = [], xrrTracks = [],
      xrrIdentifiers = [], xrrVideos = [], xrrWorks = [], xrrObservedAt = None\<rparr>"

definition emptyCatalog :: catalog where
  "emptyCatalog =
     \<lparr>tArtist = [], tLabel = [], tMaster = [], tReleaseItem = [], tArtistURL = [], tArtistAlias = [], tArtistGroup = [],
      tArtistMember = [], tArtistNameVariation = [], tLabelURL = [], tLabelSubLabel = [], tMasterArtist = [],
      tMasterGenre = [], tMasterStyle = [], tMasterVideo = [], tReleaseArtist = [], tReleaseCreditedArtist = [],
      tReleaseWork = [], tReleaseStyle = [], tReleaseGenre = [], tReleaseFormat = [], tReleaseIdentifier = [],
      tReleaseImage = [], tReleaseTrack = [], tReleaseVideo = [], tLabelRelease = [], tGenre = [], tStyle = []\<rparr>"

definition demoEnv :: writeEnv where
  "demoEnv = \<lparr>weFault = (\<lambda>_. False), weColumns = (\<lambda>_. 4), weNullsEqual = True\<rparr>"

definition demoReleaseOrder :: order where
  "demoReleaseOrder = \<lparr>oChunkSize = 2, oEntity = ''release'', oMaxWorkers = 1, oFile = [], oRunID = 0, oResume = False\<rparr>"

text \<open>Release 7 has a genre it no longer has in the dump, release 8 is not in the chunk.\<close>

definition demoStale :: catalog where
  "demoStale = emptyCatalog\<lparr>tGenre := [\<lparr>gnName = ''Jazz''\<rparr>],
     tReleaseGenre := [\<lparr>rgReleaseItemID = 7, rgGenre = ''Jazz'', rgLastModifiedAt = 1\<rparr>,
       \<lparr>rgReleaseItemID = 8, rgGenre = ''Jazz'', rgLastModifiedAt = 1\<rparr>]\<rparr>"

definition demoChunkRun :: "chunkError result \<times> caches \<times> ledger \<times> catalog" where
  "demoChunkRun = writeReleaseRelationChunk demoEnv 9 emptyCaches 5 demoReleaseOrder
     \<lparr>cmIndex = 0, cmFirst = 0, cmCount = 1\<rparr> [Some demoReleaseItem] (demoLedger, demoStale)"

definition demoConverged :: catalog where
  "demoConverged = snd (snd (snd demoChunkRun))"

lemma demo_catalogKeyed: "catalogKeyed demoStale"
  by (simp add: catalogKeyed_def demoStale_def emptyCatalog_def)

lemma demo_chunk_run:
  "\<not> isErr (fst demoChunkRun)"
  "map (\<lambda>r. (rgReleaseItemID r, rgGenre r)) (tReleaseGenre demoConverged) = [(8, ''Jazz''), (7, ''Rock'')]"
  by code_simp+

lemma demo_run_split:
  "writeReleaseRelationChunk demoEnv 9 emptyCaches 5 demoReleaseOrder \<lparr>cmIndex = 0, cmFirst = 0, cmCount = 1\<rparr>
     [Some demoReleaseItem] (demoLedger, demoStale) =
   (fst demoChunkRun, fst (snd demoChunkRun), fst (snd (snd demoChunkRun)), demoConverged)"
  by (simp add: demoChunkRun_def demoConverged_def)

section \<open>Names of genres and styles\<close>

text \<open>\<open>namesCommitted\<close>: a name the caches call known is in its table. \<open>namesClosed\<close>: a genre or style
  relation only uses names of the tables.\<close>

definition namesCommitted :: "caches \<Rightarrow> catalog \<Rightarrow> bool" where
  "namesCommitted cs c \<longleftrightarrow>
     (\<forall>n. containsName (GenreNames cs) n \<longrightarrow> n \<in> gnName ` set (tGenre c)) \<and>
     (\<forall>n. containsName (StyleNames cs) n \<longrightarrow> n \<in> syName ` set (tStyle c))"

definition namesClosed :: "catalog \<Rightarrow> bool" where
  "namesClosed c \<longleftrightarrow>
     rgGenre ` set (tReleaseGenre c) \<union> mgGenre ` set (tMasterGenre c) \<subseteq> gnName ` set (tGenre c) \<and>
     rsStyle ` set (tReleaseStyle c) \<union> msStyle ` set (tMasterStyle c) \<subseteq> syName ` set (tStyle c)"

lemma containsName_fold:
  "containsName (fold (\<lambda>g. addName (f g)) gs ns) n \<longleftrightarrow> containsName ns n \<or> n \<in> f ` set gs"
  by (induction gs arbitrary: ns) (auto simp: containsName_def addName_def)

lemma confirmed_names:
  "containsName (GenreNames (confirmReferenceEntities gs ss cs)) n \<longleftrightarrow> containsName (GenreNames cs) n \<or> n \<in> gnName ` set gs"
  "containsName (StyleNames (confirmReferenceEntities gs ss cs)) n \<longleftrightarrow> containsName (StyleNames cs) n \<or> n \<in> syName ` set ss"
  by (simp_all add: confirmReferenceEntities_def containsName_fold)

lemma genreRows_set: "set (genreRows vs) = (\<lambda>v. \<lparr>gnName = trimSpace v\<rparr>) ` {v \<in> set vs. trimSpace v \<noteq> []}"
  unfolding genreRows_def List.map_filter_def set_map set_filter deduplicateComparable_set Let_def
  by (auto split: if_splits intro!: rev_image_eqI)

lemma trimmed_genres:
  "gnName ` set (filterGenres (concat (map (map Some \<circ> genreRows \<circ> f) xs))) =
    {k. k \<noteq> [] \<and> (\<exists>x \<in> set xs. \<exists>v \<in> set (f x). trimSpace v = k)}"
proof (rule set_eqI)
  fix k
  have "k \<in> gnName ` set (filterGenres (concat (map (map Some \<circ> genreRows \<circ> f) xs))) \<longleftrightarrow>
      k \<noteq> [] \<and> (\<exists>x \<in> set xs. \<exists>g \<in> set (genreRows (f x)). trimSpace (gnName g) = k)"
    unfolding filterGenres_names(2) by auto
  also have "\<dots> \<longleftrightarrow> k \<noteq> [] \<and> (\<exists>x \<in> set xs. \<exists>v \<in> set (f x). trimSpace v = k)"
    unfolding genreRows_set by auto
  finally show "k \<in> gnName ` set (filterGenres (concat (map (map Some \<circ> genreRows \<circ> f) xs))) \<longleftrightarrow>
      k \<in> {k. k \<noteq> [] \<and> (\<exists>x \<in> set xs. \<exists>v \<in> set (f x). trimSpace v = k)}"
    by simp
qed

lemma styleRows_set: "set (styleRows vs) = (\<lambda>v. \<lparr>syName = trimSpace v\<rparr>) ` {v \<in> set vs. trimSpace v \<noteq> []}"
  unfolding styleRows_def List.map_filter_def set_map set_filter deduplicateComparable_set Let_def
  by (auto split: if_splits intro!: rev_image_eqI)

lemma trimmed_styles:
  "syName ` set (filterStyles (concat (map (map Some \<circ> styleRows \<circ> f) xs))) =
    {k. k \<noteq> [] \<and> (\<exists>x \<in> set xs. \<exists>v \<in> set (f x). trimSpace v = k)}"
proof (rule set_eqI)
  fix k
  have "k \<in> syName ` set (filterStyles (concat (map (map Some \<circ> styleRows \<circ> f) xs))) \<longleftrightarrow>
      k \<noteq> [] \<and> (\<exists>x \<in> set xs. \<exists>g \<in> set (styleRows (f x)). trimSpace (syName g) = k)"
    unfolding filterStyles_names(2) by auto
  also have "\<dots> \<longleftrightarrow> k \<noteq> [] \<and> (\<exists>x \<in> set xs. \<exists>v \<in> set (f x). trimSpace v = k)"
    unfolding styleRows_set by auto
  finally show "k \<in> syName ` set (filterStyles (concat (map (map Some \<circ> styleRows \<circ> f) xs))) \<longleftrightarrow>
      k \<in> {k. k \<noteq> [] \<and> (\<exists>x \<in> set xs. \<exists>v \<in> set (f x). trimSpace v = k)}"
    by simp
qed

lemma known_or_new: "f ` A \<subseteq> {n. P n} \<union> f ` {a \<in> A. \<not> P (f a)}"
  by auto

lemma names_within:
  assumes "set rows \<subseteq> set (concat (map h xs))" and "\<And>x. f ` set (h x) \<subseteq> {k. k \<noteq> [] \<and> (\<exists>v \<in> set (g x). trimSpace v = k)}"
  shows "f ` set rows \<subseteq> {k. k \<noteq> [] \<and> (\<exists>x \<in> set xs. \<exists>v \<in> set (g x). trimSpace v = k)}"
proof (rule image_subsetI)
  fix r assume "r \<in> set rows"
  then obtain x where x: "x \<in> set xs" "r \<in> set (h x)" using assms(1) by auto
  then have "f r \<in> {k. k \<noteq> [] \<and> (\<exists>v \<in> set (g x). trimSpace v = k)}" using assms(2) by blast
  with x(1) show "f r \<in> {k. k \<noteq> [] \<and> (\<exists>x \<in> set xs. \<exists>v \<in> set (g x). trimSpace v = k)}" by blast
qed

lemma release_footprint_other:
  assumes "releaseCommitted rows c c'"
  shows "tMasterGenre c' = tMasterGenre c" and "tMasterStyle c' = tMasterStyle c"
proof -
  have eq: "c' = c\<lparr>tGenre := tGenre c', tStyle := tStyle c', tReleaseItem := tReleaseItem c', tReleaseArtist := tReleaseArtist c',
      tReleaseCreditedArtist := tReleaseCreditedArtist c', tReleaseWork := tReleaseWork c', tReleaseStyle := tReleaseStyle c',
      tReleaseGenre := tReleaseGenre c', tLabelRelease := tLabelRelease c', tReleaseFormat := tReleaseFormat c',
      tReleaseIdentifier := tReleaseIdentifier c', tReleaseTrack := tReleaseTrack c', tReleaseVideo := tReleaseVideo c'\<rparr>"
    using assms by (simp only: releaseCommitted_def)
  show "tMasterGenre c' = tMasterGenre c" using arg_cong [OF eq, of tMasterGenre] by simp
  show "tMasterStyle c' = tMasterStyle c" using arg_cong [OF eq, of tMasterStyle] by simp
qed

text \<open>Every name a chunk's relations use is either known already or among the names it writes.\<close>

lemma release_names:
  assumes rows: "collectReleaseChunk cs t items = ([], rows)"
  shows "rgGenre ` set (rcReleaseGenres rows) \<subseteq> {n. containsName (GenreNames cs) n} \<union> gnName ` set (rcGenres rows)"
    and "rsStyle ` set (rcReleaseStyles rows) \<subseteq> {n. containsName (StyleNames cs) n} \<union> syName ` set (rcStyles rows)"
proof -
  let ?p = "presentItems releaseSetObservedAt t items"
  note new = release_collected [OF rows refl] and names = release_collected_roots(4,5) [OF rows]
  have split: "concat (map (map Some \<circ> f) ?p) = map Some (concat (map f ?p))" for f by (simp add: map_concat)
  have "set (rcReleaseGenres rows) \<subseteq> set (concat (map (getReleaseGenres t) ?p))"
    using new(6) unfolding split deduplicateReleaseGenres_def by (rule rgk.dedupe_laws(2))
  moreover have "rgGenre ` set (getReleaseGenres t x) \<subseteq> {k. k \<noteq> [] \<and> (\<exists>v \<in> set (xrrGenres x). trimSpace v = k)}" for x
    unfolding getReleaseGenres_def Let_def
    by (subst collectFresh_names) (auto simp: freshText_def Let_def split: if_splits)
  ultimately have "rgGenre ` set (rcReleaseGenres rows) \<subseteq>
      gnName ` set (filterGenres (concat (map (map Some \<circ> genreRows \<circ> xrrGenres) ?p)))"
    unfolding trimmed_genres by (rule names_within)
  then show "rgGenre ` set (rcReleaseGenres rows) \<subseteq> {n. containsName (GenreNames cs) n} \<union> gnName ` set (rcGenres rows)"
    unfolding names by (rule order_trans) (rule known_or_new)
  have "set (rcReleaseStyles rows) \<subseteq> set (concat (map (getReleaseStyles t) ?p))"
    using new(5) unfolding split deduplicateReleaseStyles_def by (rule rsk.dedupe_laws(2))
  moreover have "rsStyle ` set (getReleaseStyles t x) \<subseteq> {k. k \<noteq> [] \<and> (\<exists>v \<in> set (xrrStyles x). trimSpace v = k)}" for x
    unfolding getReleaseStyles_def Let_def
    by (subst collectFresh_names) (auto simp: freshText_def Let_def split: if_splits)
  ultimately have "rsStyle ` set (rcReleaseStyles rows) \<subseteq>
      syName ` set (filterStyles (concat (map (map Some \<circ> styleRows \<circ> xrrStyles) ?p)))"
    unfolding trimmed_styles by (rule names_within)
  then show "rsStyle ` set (rcReleaseStyles rows) \<subseteq> {n. containsName (StyleNames cs) n} \<union> syName ` set (rcStyles rows)"
    unfolding names by (rule order_trans) (rule known_or_new)
qed

lemma release_names_closed:
  assumes rows: "collectReleaseChunk cs t items = ([], rows)" and com: "releaseCommitted rows c c'"
    and known: "namesCommitted cs c" and closed: "namesClosed c"
  shows "namesCommitted (confirmReferenceEntities (rcGenres rows) (rcStyles rows) cs) c' \<and> namesClosed c'"
proof -
  have names: "gnName ` set (tGenre c') = gnName ` set (tGenre c) \<union> gnName ` set (rcGenres rows)"
    "syName ` set (tStyle c') = syName ` set (tStyle c) \<union> syName ` set (rcStyles rows)"
    using com by (simp_all add: releaseCommitted_def merged_def)
  have rel: "set (tReleaseGenre c') \<subseteq> set (tReleaseGenre c) \<union> set (rcReleaseGenres rows)"
    "set (tReleaseStyle c') \<subseteq> set (tReleaseStyle c) \<union> set (rcReleaseStyles rows)"
    using com by (simp_all add: releaseCommitted_def releaseConverged_def converged_def)
  have same: "tMasterGenre c' = tMasterGenre c" "tMasterStyle c' = tMasterStyle c"
    by (rule release_footprint_other [OF com])+
  have new: "rgGenre ` set (rcReleaseGenres rows) \<subseteq> gnName ` set (tGenre c')"
    "rsStyle ` set (rcReleaseStyles rows) \<subseteq> syName ` set (tStyle c')"
    using release_names [OF rows] known unfolding namesCommitted_def names by blast+
  have "namesCommitted (confirmReferenceEntities (rcGenres rows) (rcStyles rows) cs) c'"
    using known unfolding namesCommitted_def confirmed_names names by blast
  moreover have "namesClosed c'"
    unfolding namesClosed_def same Un_subset_iff
  proof (intro conjI)
    have old: "rgGenre ` set (tReleaseGenre c) \<subseteq> gnName ` set (tGenre c')" "mgGenre ` set (tMasterGenre c) \<subseteq> gnName ` set (tGenre c')"
      "rsStyle ` set (tReleaseStyle c) \<subseteq> syName ` set (tStyle c')" "msStyle ` set (tMasterStyle c) \<subseteq> syName ` set (tStyle c')"
      using closed by (simp_all add: namesClosed_def names le_supI1)
    show "mgGenre ` set (tMasterGenre c) \<subseteq> gnName ` set (tGenre c')" "msStyle ` set (tMasterStyle c) \<subseteq> syName ` set (tStyle c')"
      by (rule old)+
    show "rgGenre ` set (tReleaseGenre c') \<subseteq> gnName ` set (tGenre c')"
      using image_mono [OF rel(1), of rgGenre] old(1) new(1) unfolding image_Un by (meson Un_least order_trans)
    show "rsStyle ` set (tReleaseStyle c') \<subseteq> syName ` set (tStyle c')"
      using image_mono [OF rel(2), of rsStyle] old(3) new(2) unfolding image_Un by (meson Un_least order_trans)
  qed
  ultimately show ?thesis ..
qed

section \<open>Chunks held by the catalog\<close>

text \<open>Which genre and style names are known decides only which of them a chunk writes again. A chunk is
  held by the catalog when all of its names, releases and relation rows are there.\<close>

definition noNames :: "caches \<Rightarrow> caches" where
  "noNames cs = cs\<lparr>GenreNames := emptyNameSet, StyleNames := emptyNameSet\<rparr>"

definition releaseChunkHeld :: "caches \<Rightarrow> time \<Rightarrow> xmlReleaseRelation option list \<Rightarrow> catalog \<Rightarrow> bool" where
  "releaseChunkHeld ids t items c \<longleftrightarrow> (\<exists>rows. collectReleaseChunk (noNames ids) t items = ([], rows) \<and> releaseHeld rows c)"

lemma noNames_sel [simp]:
  "ArtistIDs (noNames cs) = ArtistIDs cs" "LabelIDs (noNames cs) = LabelIDs cs" "MasterIDs (noNames cs) = MasterIDs cs"
  "noNames (noNames cs) = noNames cs"
  by (simp_all add: noNames_def)

lemma release_rows_names:
  assumes "collectReleaseChunk cs t items = (es, rows)"
  shows "\<exists>G S. collectReleaseChunk (noNames cs) t items = (es, rows\<lparr>rcGenres := G, rcStyles := S\<rparr>)"
proof -
  have g: "getRelease (noNames cs) = getRelease cs" "getReleaseArtists (noNames cs) = getReleaseArtists cs"
    "getCreditedArtists (noNames cs) = getCreditedArtists cs" "getWorks (noNames cs) = getWorks cs" "getLabels (noNames cs) = getLabels cs"
    unfolding fun_eq_iff getRelease_def releaseItem_def getReleaseArtists_def getCreditedArtists_def getWorks_def getLabels_def noNames_sel
    by blast+
  show ?thesis
    using assms unfolding collectReleaseChunk_def g by (auto simp: Let_def split: prod.splits)
qed

lemma release_names_split:
  assumes "collectReleaseChunk cs t items = ([], rows)" and "collectReleaseChunk (noNames cs) t items = ([], all)"
  shows "gnName ` set (rcGenres all) \<subseteq> {n. containsName (GenreNames cs) n} \<union> gnName ` set (rcGenres rows)"
    and "syName ` set (rcStyles all) \<subseteq> {n. containsName (StyleNames cs) n} \<union> syName ` set (rcStyles rows)"
  using release_collected_roots(4,5) [OF assms(1)] release_collected_roots(4,5) [OF assms(2)] by auto

lemma holdsAll_names: "holdsAll f (\<lambda>_ _. False) items rows \<longleftrightarrow> f ` set items \<subseteq> f ` set rows"
  unfolding holdsAll_def image_subset_iff image_iff by metis

lemma known_within: "X \<subseteq> {n. P n} \<union> Y \<Longrightarrow> \<forall>n. P n \<longrightarrow> n \<in> A \<Longrightarrow> A \<union> Y \<subseteq> B \<Longrightarrow> X \<subseteq> B"
  by blast

lemma release_held_names:
  assumes "releaseCommitted rows c c'" and "collectReleaseChunk cs t items = ([], rows)" and "namesCommitted cs c"
  shows "releaseChunkHeld (noNames cs) t items c'"
proof -
  obtain G S where all: "collectReleaseChunk (noNames cs) t items = ([], rows\<lparr>rcGenres := G, rcStyles := S\<rparr>)"
    using release_rows_names [OF assms(2)] by blast
  note names = release_names_split [OF assms(2) all]
  have kept: "gnName ` set (tGenre c) \<union> gnName ` set (rcGenres rows) \<subseteq> gnName ` set (tGenre c')"
    "syName ` set (tStyle c) \<union> syName ` set (rcStyles rows) \<subseteq> syName ` set (tStyle c')"
    using assms(1) by (simp_all add: releaseCommitted_def merged_def)
  have "gnName ` set G \<subseteq> gnName ` set (tGenre c')"
    using assms(3) by (intro known_within [OF names(1) [simplified] _ kept(1)]) (simp add: namesCommitted_def)
  moreover have "syName ` set S \<subseteq> syName ` set (tStyle c')"
    using assms(3) by (intro known_within [OF names(2) [simplified] _ kept(2)]) (simp add: namesCommitted_def)
  ultimately have "releaseHeld (rows\<lparr>rcGenres := G, rcStyles := S\<rparr>) c'"
    using release_committed_held [OF assms(1)] by (simp add: releaseHeld_def releaseAgrees_def holdsAll_names)
  with all show ?thesis by (auto simp: releaseChunkHeld_def noNames_def)
qed

lemma release_held_again:
  assumes "releaseChunkHeld (noNames cs) u items c" and "collectReleaseChunk cs' t items = ([], rows)" and "noNames cs' = noNames cs"
  shows "releaseHeld rows c"
proof -
  obtain old where old: "collectReleaseChunk (noNames cs) u items = ([], old)" "releaseHeld old c"
    using assms(1) by (auto simp: releaseChunkHeld_def)
  obtain G S where all: "collectReleaseChunk (noNames cs') t items = ([], rows\<lparr>rcGenres := G, rcStyles := S\<rparr>)"
    using release_rows_names [OF assms(2)] by blast
  have "rows\<lparr>rcGenres := G, rcStyles := S\<rparr> = stampChunk t old"
    using release_chunk_stamp [OF old(1), of t] all assms(3) by simp
  then have held: "releaseHeld (rows\<lparr>rcGenres := G, rcStyles := S\<rparr>) c" using old(2) by (simp add: releaseHeld_stamp)
  have "gnName ` set (rcGenres rows) \<subseteq> gnName ` set G" "syName ` set (rcStyles rows) \<subseteq> syName ` set S"
    using release_collected_roots(4,5) [OF assms(2)] release_collected_roots(4,5) [OF all]
    by (auto simp: noNames_def emptyNameSet_def containsName_def)
  moreover have "gnName ` set G \<subseteq> gnName ` set (tGenre c)" "syName ` set S \<subseteq> syName ` set (tStyle c)"
    using held by (simp_all add: releaseHeld_def holdsAll_names)
  ultimately have "gnName ` set (rcGenres rows) \<subseteq> gnName ` set (tGenre c)" "syName ` set (rcStyles rows) \<subseteq> syName ` set (tStyle c)"
    by (blast intro: order_trans)+
  with held show ?thesis unfolding releaseHeld_def releaseAgrees_def holdsAll_names by (elim conjE) simp
qed

definition demoMaster :: "int32 \<Rightarrow> masterRow" where
  "demoMaster i = \<lparr>maID = i, maCreatedAt = 5, maLastModifiedAt = 5, maTitle = Some ''Title'', maDataQuality = None,
     maYear = None, maMainReleaseID = None\<rparr>"

section \<open>Properties\<close>

text \<open>C3. A release chunk whose write reports success was canonical, and the catalog is exactly the
  old one with the chunk merged in: the new genre and style names and the release rows are there,
  each of the ten relation tables holds for the chunk's releases precisely the canonical rows of
  the dump - stale rows gone, right rows kept as they were - while rows of other releases and all
  other tables are untouched, and every conflict key is still unique.\<close>

theorem release_chunk_converges:
  assumes run: "writeReleaseRelationChunk env now cs t ord chunk items (l, c) = (r, cs', (l', c'))" and ok: "\<not> isErr r"
    and fresh: "\<not> (oResume ord \<and> chunkAlreadyCompleted ord chunk l = Inr True)"
    and keyed: "catalogKeyed c" and nulls: "weNullsEqual env" and size: "0 < oChunkSize ord"
  shows "\<exists>rows. collectReleaseChunk cs t items = ([], rows) \<and> releaseCommitted rows c c' \<and> catalogKeyed c'"
  using run fresh
proof (cases rule: writeRelease_cases)
  case (written rows w)
  then show ?thesis using release_commit [OF written(3,4) size written(2) keyed nulls] by blast
qed (use ok in simp)

theorem release_chunk_converges_witness:
  "\<exists>rows. collectReleaseChunk emptyCaches 5 [Some demoReleaseItem] = ([], rows) \<and>
     releaseCommitted rows demoStale demoConverged \<and>
     map (\<lambda>r. (rgReleaseItemID r, rgGenre r)) (tReleaseGenre demoConverged) = [(8, ''Jazz''), (7, ''Rock'')]"
  using release_chunk_converges [OF demo_run_split demo_chunk_run(1) _ demo_catalogKeyed]
  by (auto simp: demo_chunk_run demoEnv_def demoReleaseOrder_def)

text \<open>C14. Writing a chunk again changes nothing. After a successful write of a release chunk, a second
  successful write of the same items - at another time, by another run, in another order, with
  another chunk size, knowing other genre and style names but the same artists, labels and
  masters - leaves the catalog as it is, modification times included, and reports no row.\<close>

theorem release_chunk_idempotent:
  assumes first: "writeReleaseRelationChunk env now cs t ord chunk items (l, c) = (r, cs1, (l1, c1))" "\<not> isErr r"
    and again: "writeReleaseRelationChunk env' now' cs' t' ord' chunk' items (l2, c1) = (r', cs2, (l3, c2))" "\<not> isErr r'"
    and fresh: "\<not> (oResume ord \<and> chunkAlreadyCompleted ord chunk l = Inr True)"
      "\<not> (oResume ord' \<and> chunkAlreadyCompleted ord' chunk' l2 = Inr True)"
    and same: "ArtistIDs cs' = ArtistIDs cs" "LabelIDs cs' = LabelIDs cs" "MasterIDs cs' = MasterIDs cs"
    and known: "namesCommitted cs c" and keyed: "catalogKeyed c" and nulls: "weNullsEqual env" "weNullsEqual env'"
    and size: "0 < oChunkSize ord" "0 < oChunkSize ord'"
  shows "c2 = c1 \<and> result.count r' = 0"
  using first(1) fresh(1)
proof (cases rule: writeRelease_cases)
  case one: (written rows w)
  have com: "releaseCommitted rows c c1" "catalogKeyed c1"
    using release_commit [OF one(3,4) size(1) one(2) keyed nulls(1)] by auto
  note held = release_held_names [OF com(1) one(2) known]
  from again(1) fresh(2) show ?thesis
  proof (cases rule: writeRelease_cases)
    case two: (written rows' w')
    have "releaseHeld rows' c1" by (rule release_held_again [OF held two(2)]) (simp add: noNames_def same)
    with release_commit [OF two(3,4) size(2) two(2) com(2) nulls(2)] two(5) show ?thesis by simp
  qed (use again in simp)
qed (use first in simp)

theorem release_chunk_idempotent_witness:
  "case writeReleaseRelationChunk demoEnv 10 (fst (snd demoChunkRun)) 6 (demoReleaseOrder\<lparr>oChunkSize := 1\<rparr>)
     \<lparr>cmIndex = 0, cmFirst = 0, cmCount = 1\<rparr> [Some demoReleaseItem] (demoLedger, demoConverged) of
   (r, _, _, c2) \<Rightarrow> c2 = demoConverged \<and> result.count r = 0"
proof -
  let ?again = "writeReleaseRelationChunk demoEnv 10 (fst (snd demoChunkRun)) 6 (demoReleaseOrder\<lparr>oChunkSize := 1\<rparr>)
     \<lparr>cmIndex = 0, cmFirst = 0, cmCount = 1\<rparr> [Some demoReleaseItem] (demoLedger, demoConverged)"
  have run: "\<not> isErr (fst ?again)" "oResume demoReleaseOrder = False" "0 < oChunkSize demoReleaseOrder" "weNullsEqual demoEnv"
    "ArtistIDs (fst (snd demoChunkRun)) = ArtistIDs emptyCaches" "LabelIDs (fst (snd demoChunkRun)) = LabelIDs emptyCaches"
    "MasterIDs (fst (snd demoChunkRun)) = MasterIDs emptyCaches"
    by code_simp+
  have "namesCommitted emptyCaches demoStale"
    by (simp add: namesCommitted_def emptyCaches_def emptyNameSet_def containsName_def)
  then show ?thesis
    using run release_chunk_idempotent [OF demo_run_split demo_chunk_run(1), of demoEnv 10 "fst (snd demoChunkRun)" 6
        "demoReleaseOrder\<lparr>oChunkSize := 1\<rparr>" "\<lparr>cmIndex = 0, cmFirst = 0, cmCount = 1\<rparr>" demoLedger]
      demo_catalogKeyed
    by (cases ?again) simp
qed

text \<open>C26. No relation ever names a genre or style that is not in its table. If the known names are
  committed and the relations closed before a release chunk, they are so afterwards, whether the
  chunk was written, rejected, rolled back or, on a resumed run, found recorded as completed: names
  become known only after the transaction that wrote them, and a chunk writes every name its
  relations use that was not known. For a recorded chunk, which is not written but whose names
  become known, the catalog must hold what it was recorded for.\<close>

theorem release_chunk_keeps_names:
  assumes run: "writeReleaseRelationChunk env now cs t ord chunk items (l, c) = (r, cs', (l', c'))"
    and resumed: "oResume ord \<Longrightarrow> chunkAlreadyCompleted ord chunk l = Inr True \<Longrightarrow> \<exists>u. releaseChunkHeld (noNames cs) u items c"
    and keyed: "catalogKeyed c" and nulls: "weNullsEqual env" and size: "0 < oChunkSize ord"
    and known: "namesCommitted cs c" and closed: "namesClosed c"
  shows "namesCommitted cs' c' \<and> namesClosed c'"
proof (cases "oResume ord \<and> chunkAlreadyCompleted ord chunk l = Inr True")
  case True
  from run True show ?thesis
  proof (cases rule: writeRelease_resumed)
    case (confirmed rows)
    obtain u where "releaseChunkHeld (noNames cs) u items c" using resumed True by blast
    from release_held_again [OF this confirmed(1) refl] have "releaseHeld rows c" .
    with known closed confirmed(2,3) show ?thesis
      by (auto simp: namesCommitted_def confirmed_names releaseHeld_def holdsAll_names)
  qed (use known closed in simp)
next
  case False
  from run False show ?thesis
  proof (cases rule: writeRelease_cases)
    case failed
    with known closed show ?thesis by simp
  next
    case (written rows w)
    have "releaseCommitted rows c c'"
      using release_commit [OF written(3,4) size written(2) keyed nulls] by simp
    from release_names_closed [OF written(2) this known closed] written(6) show ?thesis by simp
  qed
qed

theorem release_chunk_keeps_names_witness:
  "namesClosed demoConverged \<and> namesCommitted (fst (snd demoChunkRun)) demoConverged"
  using release_chunk_keeps_names [OF demo_run_split _ demo_catalogKeyed]
  by (simp add: demoEnv_def demoReleaseOrder_def namesCommitted_def namesClosed_def demoStale_def emptyCatalog_def
      emptyCaches_def emptyNameSet_def containsName_def)

text \<open>What a reconcile function promises, in terms of the table alone: given the roots that have rows,
  and one row for each conflict key on both sides, a successful call leaves for the roots of the
  chunk exactly the given rows in the compared columns, keeps those that were there and the rows of
  all other roots, leaves the keys unique, and does nothing where there is nothing to do.\<close>

definition reconciles :: "'r tableSpec \<Rightarrow> ('r \<Rightarrow> 'k) \<Rightarrow> ('r \<Rightarrow> int32) \<Rightarrow> ('r \<Rightarrow> 'm) \<Rightarrow> 'r list \<Rightarrow> (int32 list \<Rightarrow> 'r list writer) \<Rightarrow> bool" where
  "reconciles tab key parent match incoming reconcile \<longleftrightarrow>
     (tsClause tab = doNothing key \<longrightarrow>
      (\<forall>r s. key r = key s \<longrightarrow> parent r = parent s) \<longrightarrow> (\<forall>r s. match r = match s \<longrightarrow> key r = key s) \<longrightarrow>
      (\<forall>rootIDs roots rows v rows'. distinct (map key incoming) \<longrightarrow> distinct (map key rows) \<longrightarrow>
         set roots = set rootIDs \<inter> set (map parent rows) \<longrightarrow> parent ` set incoming \<subseteq> set rootIDs \<longrightarrow>
         reconcile roots rows = (v, rows') \<longrightarrow> \<not> isErr v \<longrightarrow>
         filter (\<lambda>r. parent r \<notin> set rootIDs) rows' = filter (\<lambda>r. parent r \<notin> set rootIDs) rows \<and>
         match ` {r \<in> set rows'. parent r \<in> set rootIDs} = match ` set incoming \<and>
         (\<forall>r \<in> set rows. parent r \<in> set rootIDs \<longrightarrow> match r \<in> match ` set incoming \<longrightarrow> r \<in> set rows') \<and>
         set rows' \<subseteq> set rows \<union> set incoming \<and> distinct (map key rows') \<and>
         (match ` {r \<in> set rows. parent r \<in> set rootIDs} = match ` set incoming \<longrightarrow> rows' = rows \<and> result.count v = 0)))"

lemma reconcileBy_reconciles:
  assumes "\<And>roots rows. reconcile roots rows = reconcileBy env ord tab table parent match roots incoming rows"
  shows "reconciles tab key parent match incoming reconcile"
  unfolding reconciles_def
proof (intro impI allI)
  fix rootIDs roots rows v rows'
  assume tab: "tsClause tab = doNothing key" and laws: "\<forall>r s. key r = key s \<longrightarrow> parent r = parent s"
      "\<forall>r s. match r = match s \<longrightarrow> key r = key s"
    and keys: "distinct (map key incoming)" "distinct (map key rows)"
    and roots: "set roots = set rootIDs \<inter> set (map parent rows)" "parent ` set incoming \<subseteq> set rootIDs"
    and run: "reconcile roots rows = (v, rows')" "\<not> isErr v"
  have rel: "relation_table (doNothing key) key parent match"
    by (intro relation_table.intro relation_table_axioms.intro insert_clause_doNothing) (use laws in blast)+
  note spec = run(1) [unfolded assms]
  show "filter (\<lambda>r. parent r \<notin> set rootIDs) rows' = filter (\<lambda>r. parent r \<notin> set rootIDs) rows \<and>
         match ` {r \<in> set rows'. parent r \<in> set rootIDs} = match ` set incoming \<and>
         (\<forall>r \<in> set rows. parent r \<in> set rootIDs \<longrightarrow> match r \<in> match ` set incoming \<longrightarrow> r \<in> set rows') \<and>
         set rows' \<subseteq> set rows \<union> set incoming \<and> distinct (map key rows') \<and>
         (match ` {r \<in> set rows. parent r \<in> set rootIDs} = match ` set incoming \<longrightarrow> rows' = rows \<and> result.count v = 0)"
    using relation_table.reconcile_converges [OF rel spec run(2) tab keys roots]
      relation_table.reconcile_noop [OF rel spec run(2) tab keys roots(1)] by (simp add: converged_def)
qed

lemma reconcilesD:
  assumes "reconciles tab key parent match incoming reconcile" and "tsClause tab = doNothing key"
    and "\<forall>r s. key r = key s \<longrightarrow> parent r = parent s" and "\<forall>r s. match r = match s \<longrightarrow> key r = key s"
    and "distinct (map key incoming)" and "distinct (map key rows)"
    and "set roots = set rootIDs \<inter> set (map parent rows)" and "parent ` set incoming \<subseteq> set rootIDs"
    and "\<not> isErr (fst (reconcile roots rows))"
  shows "match ` {r \<in> set (snd (reconcile roots rows)). parent r \<in> set rootIDs} = match ` set incoming"
  using assms(1) [unfolded reconciles_def, rule_format, OF assms(2) _ _ assms(5-8) prod.collapse [symmetric] assms(9)] assms(3,4)
  by blast

text \<open>C25. The six hand-written reconcile functions keep this promise, whatever the key of a relation
  is made of: one integer, a text, two integers, a nullable text, with or without an identity
  digest. For the digest variants the given rows carry their digest, as NULL equals nothing.\<close>

theorem reconcile_variants_refine:
  assumes "\<forall>r \<in> set xs. dirIdentityColumn drel r \<noteq> None" and "\<forall>r \<in> set ys. dtkIdentityColumn trel r \<noteq> None"
  shows "reconciles itab ikey (irParentColumn irel) (\<lambda>r. (irParentColumn irel r, irKeyColumn irel r)) is
      (\<lambda>roots. reconcileIntegerRelation env ord itab irel (length roots > 0) roots is (irParentColumn irel) (irKeyColumn irel)) \<and>
    reconciles ttab tkey (trParentColumn txrel) (\<lambda>r. (trParentColumn txrel r, trKeyColumn txrel r)) ts
      (\<lambda>roots. reconcileTextRelation env ord ttab txrel (length roots > 0) roots ts (trParentColumn txrel) (trKeyColumn txrel)) \<and>
    reconciles ptab pkey (tikParentColumn prel) (\<lambda>r. (tikParentColumn prel r, tikFirstKeyColumn prel r, tikSecondKeyColumn prel r)) ps
      (\<lambda>roots. reconcileTwoIntegerKeyRelation env ord ptab prel (length roots > 0) roots ps
        (tikParentColumn prel) (tikFirstKeyColumn prel) (tikSecondKeyColumn prel)) \<and>
    reconciles dtab dkey (dirParentColumn drel) (\<lambda>r. (dirParentColumn drel r, dirKeyColumn drel r, dirIdentityColumn drel r)) xs
      (\<lambda>roots. reconcileDigestIntegerRelation env ord dtab drel (length roots > 0) roots xs
        (dirParentColumn drel) (dirKeyColumn drel) (dirIdentityColumn drel)) \<and>
    reconciles xtab xkey (dtkParentColumn trel)
      (\<lambda>r. (dtkParentColumn trel r, dtkFirstKeyColumn trel r, dtkSecondKeyColumn trel r, dtkIdentityColumn trel r)) ys
      (\<lambda>roots. reconcileDigestTwoIntegerKeyRelation env ord xtab trel (length roots > 0) roots ys
        (dtkParentColumn trel) (dtkFirstKeyColumn trel) (dtkSecondKeyColumn trel) (dtkIdentityColumn trel)) \<and>
    reconciles ntab nkey (ntkParentColumn nrel)
      (\<lambda>r. (ntkParentColumn nrel r, ntkIntegerKeyColumn nrel r, ntkNullableKeyColumn nrel r)) ns
      (\<lambda>roots. reconcileIntegerNullableTextKeyRelation env ord ntab nrel (length roots > 0) roots ns
        (ntkParentColumn nrel) (ntkIntegerKeyColumn nrel) (ntkNullableKeyColumn nrel))"
  by (intro conjI)
    (rule reconcileBy_reconciles, rule reconcileInteger_by reconcileText_by reconcileTwoIntegerKey_by reconcileNullableText_by
      reconcileDigestInteger_by [OF assms(1)] reconcileDigestTwoInteger_by [OF assms(2)])+

text \<open>Release 7 loses Jazz and gets Rock; release 8 keeps its row.\<close>

definition demoRock :: releaseGenreRow where
  "demoRock = \<lparr>rgReleaseItemID = 7, rgGenre = ''Rock'', rgLastModifiedAt = 5\<rparr>"

definition demoGenreRun :: "string result \<times> releaseGenreRow list" where
  "demoGenreRun = reconcileTextRelation demoEnv demoReleaseOrder releaseGenreTable releaseGenreRelation True [7] [demoRock]
     (trParentColumn releaseGenreRelation) (trKeyColumn releaseGenreRelation) (tReleaseGenre demoStale)"

theorem reconcile_variants_refine_witness:
  "rgGenre ` {r \<in> set (snd demoGenreRun). rgReleaseItemID r = 7} = {''Rock''}"
proof -
  let ?m = "\<lambda>r. (trParentColumn releaseGenreRelation r, trKeyColumn releaseGenreRelation r)"
  let ?run = "\<lambda>roots. reconcileTextRelation demoEnv demoReleaseOrder releaseGenreTable releaseGenreRelation (length roots > 0) roots [demoRock]
        (trParentColumn releaseGenreRelation) (trKeyColumn releaseGenreRelation)"
  have run: "\<not> isErr (fst demoGenreRun)" by code_simp
  have same: "?run [7] (tReleaseGenre demoStale) = demoGenreRun" by (simp add: demoGenreRun_def)
  have "reconciles releaseGenreTable (\<lambda>r. (rgReleaseItemID r, rgGenre r)) (trParentColumn releaseGenreRelation) ?m [demoRock] ?run"
    by (rule reconcile_variants_refine [of "[]" releaseTrackRelation "[]" releaseWorkRelation, THEN conjunct2, THEN conjunct1]) simp_all
  then have "?m ` {r \<in> set (snd (?run [7] (tReleaseGenre demoStale))). trParentColumn releaseGenreRelation r \<in> set [7]} =
      ?m ` set [demoRock]"
  proof (rule reconcilesD)
    show "\<not> isErr (fst (?run [7] (tReleaseGenre demoStale)))" unfolding same by (rule run)
  qed (simp_all add: releaseGenreTable_def releaseGenreRelation_def demoRock_def demoStale_def emptyCatalog_def)
  then have "?m ` {r \<in> set (snd demoGenreRun). trParentColumn releaseGenreRelation r \<in> set [7]} = ?m ` set [demoRock]"
    unfolding same .
  from arg_cong [OF this, of "image snd"] show ?thesis
    unfolding image_image by (simp add: releaseGenreRelation_def demoRock_def)
qed

text \<open>C27. The batches of an insert are invisible: whatever chunk size is requested and however many
  columns limit a batch, two successful writes of the same rows with distinct keys give the same
  table and the same count. The result is that of merging row by row.\<close>

theorem insert_batches_invisible:
  assumes clause: "tsClause tab = updateWhenChanged key business assign \<and> (\<forall>e r. key (assign e r) = key e)"
    and keys: "distinct (map key items)" "distinct (map key rows)"
    and one: "doWrite env ord tab items rows = (w, rows1)" "\<not> isErr w"
    and other: "doWrite env' ord' tab items rows = (w', rows2)" "\<not> isErr w'"
  shows "rows1 = rows2 \<and> result.count w = result.count w' \<and>
    rows1 = mergeRows key (\<lambda>e r. if business e \<noteq> business r then assign e r else e) items rows"
proof -
  have ins: "insert_clause (tsClause tab) key (\<lambda>e r. if business e \<noteq> business r then assign e r else e)
      (\<lambda>e r. business e \<noteq> business r)"
    using clause insert_clause_update [of key assign business] by simp
  show ?thesis
    using insert_clause.doWrite_ok [OF ins one refl keys] insert_clause.doWrite_ok [OF ins other refl keys] by simp
qed

theorem insert_batches_invisible_witness:
  "case (doWrite demoEnv (demoReleaseOrder\<lparr>oChunkSize := 1\<rparr>) masterTable [demoMaster 1, demoMaster 2, demoMaster 3] [demoMaster 2],
         doWrite demoEnv (demoReleaseOrder\<lparr>oChunkSize := 7\<rparr>) masterTable [demoMaster 1, demoMaster 2, demoMaster 3] [demoMaster 2]) of
     ((w, rows1), (w', rows2)) \<Rightarrow> rows1 = rows2 \<and> result.count w = 2 \<and> result.count w' = 2"
proof -
  let ?one = "doWrite demoEnv (demoReleaseOrder\<lparr>oChunkSize := 1\<rparr>) masterTable [demoMaster 1, demoMaster 2, demoMaster 3] [demoMaster 2]"
  let ?all = "doWrite demoEnv (demoReleaseOrder\<lparr>oChunkSize := 7\<rparr>) masterTable [demoMaster 1, demoMaster 2, demoMaster 3] [demoMaster 2]"
  have run: "\<not> isErr (fst ?one)" "\<not> isErr (fst ?all)" "result.count (fst ?one) = 2" by code_simp+
  have clause: "tsClause masterTable = updateWhenChanged maID masterBusiness masterAssign \<and>
      (\<forall>e r. maID (masterAssign e r) = maID e)"
    by (simp add: masterTable_def masterAssign_def)
  show ?thesis
    using insert_batches_invisible [OF clause _ _ _ run(1) _ run(2), of "[demoMaster 1, demoMaster 2, demoMaster 3]" "[demoMaster 2]"
        demoEnv "demoReleaseOrder\<lparr>oChunkSize := 1\<rparr>" "snd ?one" demoEnv "demoReleaseOrder\<lparr>oChunkSize := 7\<rparr>" "snd ?all"] run(3)
    by (cases ?one; cases ?all) (simp add: demoMaster_def)
qed

text \<open>C38. The batch size is safe and as large as possible: a statement of that many rows stays within
  the 65535 bind parameters of the protocol, it never exceeds the requested size, and if it is
  smaller, one more row would not fit. It is refused exactly for a request or a column count below
  one and for rows with more columns than a statement can bind.\<close>

theorem safe_batch_size_exact:
  "(case postgresSafeBatchSize requested columnCount of
      Inr n \<Rightarrow> 1 \<le> n \<and> n \<le> requested \<and> n * columnCount \<le> 65535 \<and> (n < requested \<longrightarrow> 65535 < (n + 1) * columnCount)
    | Inl e \<Rightarrow> requested < 1 \<or> columnCount < 1 \<or> 65535 < columnCount)"
proof (cases "postgresSafeBatchSize requested columnCount")
  case (Inl e)
  then have "\<not> (\<exists>n. postgresSafeBatchSize requested columnCount = Inr n)" by simp
  with Inl show ?thesis unfolding postgresSafeBatchSize_iff by (auto simp: postgresBindParameterLimit_def)
next
  case (Inr n)
  then have n: "1 \<le> requested" "1 \<le> columnCount" "columnCount \<le> 65535" "n = min requested (65535 div columnCount)"
    unfolding postgresSafeBatchSize_iff by (auto simp: postgresBindParameterLimit_def)
  have low: "65535 div columnCount * columnCount \<le> 65535"
    using n(2) div_mult_mod_eq [of 65535 columnCount] pos_mod_sign [of columnCount 65535] by linarith
  have high: "65535 < (65535 div columnCount + 1) * columnCount"
  proof -
    have "65535 div columnCount * columnCount + 65535 mod columnCount = 65535" by (rule div_mult_mod_eq)
    moreover have "65535 mod columnCount < columnCount" using n(2) by (intro pos_mod_bound) simp
    ultimately show ?thesis unfolding distrib_right mult_1 by linarith
  qed
  have "1 \<le> 65535 div columnCount" using n(2,3) pos_imp_zdiv_pos_iff [of columnCount 65535] by linarith
  moreover have "n * columnCount \<le> 65535"
    using n(2,4) by (intro order_trans [OF _ low] mult_right_mono) auto
  moreover have "1 \<le> n" "n \<le> requested" and "n < requested \<Longrightarrow> n = 65535 div columnCount"
    using n(1,4) calculation(1) by auto
  ultimately show ?thesis using Inr high by auto
qed

theorem safe_batch_size_exact_witness: "postgresSafeBatchSize 5000 14 = Inr 4681 \<and> 65535 < (4681 + 1) * (14 :: int)"
proof -
  have "postgresSafeBatchSize 5000 14 = Inr 4681" by code_simp
  with safe_batch_size_exact [of 5000 14] show ?thesis by simp
qed

end
