(* ===== verification/Entity_Import.thy ===== *)
theory Entity_Import
  imports Chunk_Results
begin

text \<open>
  Whole relation imports: the pipeline of \<open>relations.go\<close> with the chunk writers of \<open>artist.go\<close> and
  \<open>label.go\<close>. The contract \<open>converging_writer\<close> is what the pipeline needs of a writer: a successful
  write makes the catalog agree with its chunk, and keeps it in agreement with chunks about other
  entities. It is interpreted on the two writers, whose caches do not change during the import;
  then a successful import leaves the catalog in agreement with every chunk of the dump, under
  every interleaving of the workers and across interrupted attempts.
\<close>

section \<open>Committed writes succeeded\<close>

definition logSucceeded ::
  "(chunkMeta \<Rightarrow> 'x list \<Rightarrow> 'c writer) \<Rightarrow> 'c \<Rightarrow> (chunkMeta \<times> 'x list) list \<Rightarrow> bool" where
  "logSucceeded wr c0 log \<longleftrightarrow>
     (\<forall>pre m xs post. log = pre @ (m, xs) # post \<longrightarrow> \<not> isErr (fst (wr m xs (applyLog wr pre c0))))"

lemma logSucceeded_Nil [simp]: "logSucceeded wr c0 []"
  by (simp add: logSucceeded_def)

lemma logSucceeded_snoc:
  assumes "logSucceeded wr c0 log" and "\<not> isErr (fst (wr m xs (applyLog wr log c0)))"
  shows "logSucceeded wr c0 (log @ [(m, xs)])"
  unfolding logSucceeded_def
proof (intro allI impI)
  fix pre m' xs' post assume eq: "log @ [(m, xs)] = pre @ (m', xs') # post"
  show "\<not> isErr (fst (wr m' xs' (applyLog wr pre c0)))"
  proof (cases post rule: rev_cases)
    case Nil
    with eq have "pre = log \<and> (m', xs') = (m, xs)" by simp
    with assms(2) show ?thesis by simp
  next
    case (snoc post' y)
    with eq have "log = pre @ (m', xs') # post'" by simp
    with assms(1) show ?thesis unfolding logSucceeded_def by blast
  qed
qed

lemma logSucceeded_init: "logSucceeded wr c0 (log @ [e]) \<Longrightarrow> logSucceeded wr c0 log"
  by (auto simp: logSucceeded_def)

lemma pipe_reach_log:
  assumes "pipe_reach ord (loadCompletedChunkInventory ord l0) wr (startPipeline (l0, c0) (cleanSource n xs)) p"
    and "ledgerInv l0" and "0 < n" and "oRunID ord \<noteq> 0"
  shows "logSucceeded wr c0 (plLog p)"
  using assms(1)
proof (induction rule: pipe_reach.induct)
  case init
  show ?case by (simp add: startPipeline_def)
next
  case (step p p')
  have db: "snd (plDB p) = applyLog wr (plLog p) c0"
    using pipeInv_reach [OF step(1) assms(2-4)] by (simp add: pipeInv_def)
  from step(2) show ?case
  proof cases
    case (work us chunk items vs fl now r db')
    show ?thesis
    proof (cases "wroteChunk fl now ord chunk (wr chunk items) (plDB p)")
      case False
      with work step.IH show ?thesis by simp
    next
      case True
      obtain l c where pd: "plDB p = (l, c)" by (cases "plDB p")
      obtain l' c' where db': "db' = (l', c')" by (cases db')
      have "executeChunk fl now ord chunk (wr chunk items) (l, c) = (r, (l', c'))" using work pd db' by simp
      moreover have "\<not> isErr r" "\<not> (oResume ord \<and> chunkAlreadyCompleted ord chunk l = Inr True)"
        using True work pd by (simp_all add: wroteChunk_def)
      ultimately obtain w where "wr chunk items c = (w, c')" "\<not> isErr w"
        by (rule executeChunk_wrote)
      then have "\<not> isErr (fst (wr chunk items (applyLog wr (plLog p) c0)))" using db pd by simp
      with step.IH True work show ?thesis by (simp add: logSucceeded_snoc)
    qed
  qed (use step.IH in \<open>simp_all add: recordSource_def takeWindow_def\<close>)
qed

section \<open>The contract of a writer\<close>

locale converging_writer =
  fixes write_chunk :: "chunkMeta \<Rightarrow> 'x list \<Rightarrow> 'c writer" and good :: "'c \<Rightarrow> bool"
    and agrees :: "chunkMeta \<Rightarrow> 'x list \<Rightarrow> 'c \<Rightarrow> bool" and apart :: "'x list \<Rightarrow> 'x list \<Rightarrow> bool"
  assumes writes: "write_chunk m xs c = (w, c') \<Longrightarrow> \<not> isErr w \<Longrightarrow> good c \<Longrightarrow> good c' \<and> agrees m xs c'"
    and keeps: "write_chunk m xs c = (w, c') \<Longrightarrow> \<not> isErr w \<Longrightarrow> good c \<Longrightarrow> agrees m' xs' c \<Longrightarrow>
      apart xs xs' \<Longrightarrow> agrees m' xs' c'"
begin

lemma log_agrees:
  assumes "logSucceeded write_chunk c0 log" and "good c0"
    and "\<And>m xs m' xs'. (m, xs) \<in> set log \<Longrightarrow> (m', xs') \<in> set log \<union> S \<Longrightarrow> m \<noteq> m' \<Longrightarrow> apart xs xs'"
    and "distinct (map fst log)" and "fst ` set log \<inter> fst ` S = {}" and "\<forall>(m, xs) \<in> S. agrees m xs c0"
  shows "good (applyLog write_chunk log c0) \<and> (\<forall>(m, xs) \<in> set log \<union> S. agrees m xs (applyLog write_chunk log c0))"
  using assms
proof (induction log rule: rev_induct)
  case Nil
  then show ?case by (simp add: applyLog_def)
next
  case (snoc e log)
  obtain m xs where e: "e = (m, xs)" by (cases e)
  let ?c = "applyLog write_chunk log c0"
  have IH: "good ?c \<and> (\<forall>(m, xs) \<in> set log \<union> S. agrees m xs ?c)"
  proof (rule snoc.IH)
    show "apart xs xs'" if "(m, xs) \<in> set log" "(m', xs') \<in> set log \<union> S" "m \<noteq> m'" for m xs m' xs'
      using snoc.prems(3) [of m xs m' xs'] that by auto
  qed (use snoc.prems logSucceeded_init [OF snoc.prems(1)] in auto)
  obtain w c' where run: "write_chunk m xs ?c = (w, c')" by fastforce
  have ok: "\<not> isErr w"
    using snoc.prems(1) run unfolding e logSucceeded_def by fastforce
  have c': "applyLog write_chunk (log @ [e]) c0 = c'" using run e by (simp add: applyLog_snoc)
  have new: "good c' \<and> agrees m xs c'" using writes [OF run ok] IH by blast
  have old: "agrees m' xs' c'" if mem: "(m', xs') \<in> set log \<union> S" for m' xs'
  proof (rule keeps [OF run ok])
    show "good ?c" "agrees m' xs' ?c" using IH mem by auto
    have "m \<noteq> m'"
      using mem snoc.prems(4,5) e by (auto dest: image_eqI [of m fst "(m, xs')"] simp: rev_image_eqI)
    then show "apart xs xs'" using snoc.prems(3) [of m xs m' xs'] mem e by auto
  qed
  have "set (log @ [e]) \<union> S = insert (m, xs) (set log \<union> S)" using e by auto
  then show ?case unfolding c' using new old by auto
qed

text \<open>The import: every chunk of the dump is in agreement, if the chunks recorded by earlier attempts
  were.\<close>

lemma import_agrees:
  assumes reach: "pipe_reach ord (loadCompletedChunkInventory ord l0) write_chunk (startPipeline (l0, c0) (cleanSource n xs)) p"
    and quiet: "pipelineDone p" and fin: "finishPipeline fl now ord p = (r, (l', c'))" and ok: "\<not> isErr r"
    and inv: "ledgerInv l0" and n: "0 < n" and run: "oRunID ord \<noteq> 0" and good: "good c0"
    and ws: "ws = windowWithCount n xs"
    and resumed: "\<And>i. i < length ws \<Longrightarrow> metaAt ws i \<in> set (metas ord l0) \<Longrightarrow> agrees (metaAt ws i) (ws ! i) c0"
    and disjoint: "\<And>i j. i < length ws \<Longrightarrow> j < length ws \<Longrightarrow> i \<noteq> j \<Longrightarrow> apart (ws ! i) (ws ! j)"
  shows "good c' \<and> (\<forall>i < length ws. agrees (metaAt ws i) (ws ! i) c')"
proof -
  note c = completed_import [OF reach quiet fin ok inv n run, folded ws]
  let ?S = "{(metaAt ws i, ws ! i) | i. i < length ws \<and> metaAt ws i \<in> set (metas ord l0)}"
  have log: "\<exists>i < length ws. m = metaAt ws i \<and> xs = ws ! i" if "(m, xs) \<in> set (plLog p)" for m xs
    using c(5) that by blast
  have dist: "distinct (map fst (plLog p))" "set (metas ord l0) \<inter> fst ` set (plLog p) = {}"
    using c(2,3) by auto
  have all: "good (applyLog write_chunk (plLog p) c0) \<and>
      (\<forall>(m, xs) \<in> set (plLog p) \<union> ?S. agrees m xs (applyLog write_chunk (plLog p) c0))"
  proof (rule log_agrees [OF pipe_reach_log [OF reach inv n run] good])
    fix m xs m' xs'
    assume "(m, xs) \<in> set (plLog p)" "(m', xs') \<in> set (plLog p) \<union> ?S" "m \<noteq> m'"
    moreover from this obtain j where "j < length ws" "m' = metaAt ws j" "xs' = ws ! j" using log by blast
    ultimately show "apart xs xs'" using log disjoint by metis
  next
    show "fst ` set (plLog p) \<inter> fst ` ?S = {}" using dist(2) by force
  qed (use dist(1) resumed in auto)
  have "agrees (metaAt ws i) (ws ! i) c'" if i: "i < length ws" for i
  proof (cases "metaAt ws i \<in> set (metas ord l0)")
    case True
    with all i c(4) show ?thesis by blast
  next
    case False
    have "metaAt ws i \<in> set (metas ord l')" using i c(1) by blast
    with False c(3) have "metaAt ws i \<in> fst ` set (plLog p)" by auto
    then obtain ys where ys: "(metaAt ws i, ys) \<in> set (plLog p)" by auto
    then obtain j where "metaAt ws i = metaAt ws j" "ys = ws ! j" using log by blast
    then have "ys = ws ! i" by (simp add: metaAt_inj)
    with all ys c(4) show ?thesis by blast
  qed
  with all c(4) show ?thesis by simp
qed

end

section \<open>Tables and other chunks\<close>

lemma converged_apart:
  assumes "converged parent match roots incoming rows rows'" and "R \<inter> set roots = {}"
  shows "{r \<in> set rows'. parent r \<in> R} = {r \<in> set rows. parent r \<in> R}"
proof -
  have eq: "filter (\<lambda>r. parent r \<notin> set roots) rows' = filter (\<lambda>r. parent r \<notin> set roots) rows"
    using assms(1) by (simp add: converged_def)
  have "r \<in> set rows' \<longleftrightarrow> r \<in> set rows" if "parent r \<in> R" for r
  proof -
    have "parent r \<notin> set roots" using that assms(2) by blast
    then show ?thesis using arg_cong [OF eq, of "\<lambda>xs. r \<in> set xs"] by simp
  qed
  then show ?thesis by blast
qed

lemma artist_committed_roots:
  assumes "artistCommitted rows c c'"
  shows "tArtist c' = tArtist c"
proof -
  have "c' = c\<lparr>tArtistAlias := tArtistAlias c', tArtistGroup := tArtistGroup c', tArtistMember := tArtistMember c', tArtistNameVariation := tArtistNameVariation c', tArtistURL := tArtistURL c'\<rparr>" using assms unfolding artistCommitted_def by (rule conjunct2)
  from arg_cong [OF this, of tArtist] show ?thesis by simp
qed

lemma artist_held_apart:
  assumes "artistCommitted rows c c'" and "artistHeld rows' c" and "set (acRootIDs rows') \<inter> set (acRootIDs rows) = {}"
  shows "artistHeld rows' c'"
proof -
  have "artistConverged rows c c'" using assms(1) unfolding artistCommitted_def by (rule conjunct1)
  then show ?thesis
    using assms(2) unfolding artistHeld_def artistAgrees_def artistConverged_def
    by (elim conjE) (simp add: converged_apart [OF _ assms(3)])
qed

lemma label_committed_roots:
  assumes "labelCommitted rows c c'"
  shows "tLabel c' = tLabel c"
proof -
  have "c' = c\<lparr>tLabelURL := tLabelURL c', tLabelSubLabel := tLabelSubLabel c'\<rparr>" using assms unfolding labelCommitted_def by (rule conjunct2)
  from arg_cong [OF this, of tLabel] show ?thesis by simp
qed

lemma label_held_apart:
  assumes "labelCommitted rows c c'" and "labelHeld rows' c" and "set (lcRootIDs rows') \<inter> set (lcRootIDs rows) = {}"
  shows "labelHeld rows' c'"
proof -
  have "labelConverged rows c c'" using assms(1) unfolding labelCommitted_def by (rule conjunct1)
  then show ?thesis
    using assms(2) unfolding labelHeld_def labelAgrees_def labelConverged_def
    by (elim conjE) (simp add: converged_apart [OF _ assms(3)])
qed

section \<open>Artist and label relations\<close>

text \<open>A worker of \<open>insertArtistRelations\<close>: the rows are collected and rejected if they are not
  canonical, then written inside the chunk transaction. The time is that of the chunk.\<close>

definition artistRelationWorker ::
  "(chunkMeta \<Rightarrow> writeEnv) \<Rightarrow> caches \<Rightarrow> (chunkMeta \<Rightarrow> time) \<Rightarrow> order \<Rightarrow> chunkMeta \<Rightarrow> xmlArtistRelation option list \<Rightarrow> catalog writer" where
  "artistRelationWorker env cs t ord m items c =
     (case collectArtistChunk cs (t m) items of
        (es, rows) \<Rightarrow> if es \<noteq> [] then (newResult 0 (Some ''rows are not canonical''), c)
          else artistChunkWriter (env m) ord rows c)"

definition labelRelationWorker ::
  "(chunkMeta \<Rightarrow> writeEnv) \<Rightarrow> caches \<Rightarrow> (chunkMeta \<Rightarrow> time) \<Rightarrow> order \<Rightarrow> chunkMeta \<Rightarrow> xmlLabelRelation option list \<Rightarrow> catalog writer" where
  "labelRelationWorker env cs t ord m items c =
     (case collectLabelChunk cs (t m) items of
        (es, rows) \<Rightarrow> if es \<noteq> [] then (newResult 0 (Some ''rows are not canonical''), c)
          else labelChunkWriter (env m) ord rows c)"

definition artistChunkHeld :: "caches \<Rightarrow> time \<Rightarrow> xmlArtistRelation option list \<Rightarrow> catalog \<Rightarrow> bool" where
  "artistChunkHeld cs t items c \<longleftrightarrow> (\<exists>rows. collectArtistChunk cs t items = ([], rows) \<and> artistHeld rows c)"

definition labelChunkHeld :: "caches \<Rightarrow> time \<Rightarrow> xmlLabelRelation option list \<Rightarrow> catalog \<Rightarrow> bool" where
  "labelChunkHeld cs t items c \<longleftrightarrow> (\<exists>rows. collectLabelChunk cs t items = ([], rows) \<and> labelHeld rows c)"

definition itemIDs :: "('x \<Rightarrow> int32) \<Rightarrow> 'x option list \<Rightarrow> int32 list" where
  "itemIDs ident items = map ident (List.map_filter id items)"

lemma presentItems_ids:
  assumes "\<And>x. ident (setter t x) = ident x"
  shows "map ident (presentItems setter t items) = itemIDs ident items"
  by (induction items)
    (auto simp: itemIDs_def presentItems_def assignChunkObservedAt_def map_filter_simps assms split: option.splits)

lemma artist_roots:
  "collectArtistChunk cs t items = ([], rows) \<Longrightarrow> set (acRootIDs rows) = set (itemIDs xarID items)"
  using artist_collected(6) [of cs t items rows, OF _ refl]
    arg_cong [OF presentItems_ids [of xarID artistSetObservedAt t items], of set]
  by (simp add: artistSetObservedAt_def)

lemma label_roots:
  "collectLabelChunk cs t items = ([], rows) \<Longrightarrow> set (lcRootIDs rows) = set (itemIDs xlrID items)"
  using label_collected(3) [of cs t items rows, OF _ refl]
    arg_cong [OF presentItems_ids [of xlrID labelSetObservedAt t items], of set]
  by (simp add: labelSetObservedAt_def)

interpretation artistImport: converging_writer "artistRelationWorker env cs t ord" "\<lambda>c. catalogKeyed c \<and> tArtist c = roots"
    "\<lambda>m items. artistChunkHeld cs (t m) items" "\<lambda>xs ys. set (itemIDs xarID ys) \<inter> set (itemIDs xarID xs) = {}"
  for env cs t ord roots
proof unfold_locales
  fix m xs c w c' assume run: "artistRelationWorker env cs t ord m xs c = (w, c')" "\<not> isErr w" and good: "catalogKeyed c \<and> tArtist c = roots"
  obtain rows where rows: "collectArtistChunk cs (t m) xs = ([], rows)" and wr: "artistChunkWriter (env m) ord rows c = (w, c')"
    using run by (cases "collectArtistChunk cs (t m) xs") (auto simp: artistRelationWorker_def isErr_def split: if_splits)
  note com = artist_commit [OF wr run(2) rows conjunct1 [OF good]]
  have "tArtist c' = tArtist c"
    using com artist_committed_roots by blast
  then show "(catalogKeyed c' \<and> tArtist c' = roots) \<and> artistChunkHeld cs (t m) xs c'"
    using com good rows artist_committed_held unfolding artistChunkHeld_def by blast
  fix m' xs' assume held: "artistChunkHeld cs (t m') xs' c" and disj: "set (itemIDs xarID xs') \<inter> set (itemIDs xarID xs) = {}"
  then obtain rows' where rows': "collectArtistChunk cs (t m') xs' = ([], rows')" "artistHeld rows' c"
    by (auto simp: artistChunkHeld_def)
  have "artistHeld rows' c'"
    using com rows'(2) disj unfolding artist_roots [OF rows, symmetric] artist_roots [OF rows'(1), symmetric]
    by (blast intro: artist_held_apart)
  with rows'(1) show "artistChunkHeld cs (t m') xs' c'" by (auto simp: artistChunkHeld_def)
qed

interpretation labelImport: converging_writer "labelRelationWorker env cs t ord" "\<lambda>c. catalogKeyed c \<and> tLabel c = roots"
    "\<lambda>m items. labelChunkHeld cs (t m) items" "\<lambda>xs ys. set (itemIDs xlrID ys) \<inter> set (itemIDs xlrID xs) = {}"
  for env cs t ord roots
proof unfold_locales
  fix m xs c w c' assume run: "labelRelationWorker env cs t ord m xs c = (w, c')" "\<not> isErr w" and good: "catalogKeyed c \<and> tLabel c = roots"
  obtain rows where rows: "collectLabelChunk cs (t m) xs = ([], rows)" and wr: "labelChunkWriter (env m) ord rows c = (w, c')"
    using run by (cases "collectLabelChunk cs (t m) xs") (auto simp: labelRelationWorker_def isErr_def split: if_splits)
  note com = label_commit [OF wr run(2) rows conjunct1 [OF good]]
  have "tLabel c' = tLabel c"
    using com label_committed_roots by blast
  then show "(catalogKeyed c' \<and> tLabel c' = roots) \<and> labelChunkHeld cs (t m) xs c'"
    using com good rows label_committed_held unfolding labelChunkHeld_def by blast
  fix m' xs' assume held: "labelChunkHeld cs (t m') xs' c" and disj: "set (itemIDs xlrID xs') \<inter> set (itemIDs xlrID xs) = {}"
  then obtain rows' where rows': "collectLabelChunk cs (t m') xs' = ([], rows')" "labelHeld rows' c"
    by (auto simp: labelChunkHeld_def)
  have "labelHeld rows' c'"
    using com rows'(2) disj unfolding label_roots [OF rows, symmetric] label_roots [OF rows'(1), symmetric]
    by (blast intro: label_held_apart)
  with rows'(1) show "labelChunkHeld cs (t m') xs' c'" by (auto simp: labelChunkHeld_def)
qed

section \<open>Distinct identifiers\<close>

lemma distinct_concat_nth:
  assumes "distinct (concat xss)" and "i < length xss" and "j < length xss" and "i \<noteq> j"
  shows "set (xss ! i) \<inter> set (xss ! j) = {}"
  using assms
proof (induction xss arbitrary: i j)
  case (Cons xs xss)
  have "set (xss ! k) \<inter> set xs = {}" if "k < length xss" for k
    using Cons.prems(1) nth_mem [OF that] by auto
  with Cons show ?case by (cases i; cases j) (auto simp: Int_commute)
qed simp

lemma itemIDs_concat: "itemIDs f (concat ws) = concat (map (itemIDs f) ws)"
proof -
  have "itemIDs f (xs @ ys) = itemIDs f xs @ itemIDs f ys" for xs ys
    by (induction xs) (auto simp: itemIDs_def map_filter_simps split: option.splits)
  then show ?thesis by (induction ws) (simp_all add: itemIDs_def map_filter_simps)
qed

lemma windows_disjoint:
  assumes "distinct (itemIDs f xs)" and "0 < n" and "ws = windowWithCount n xs"
    and "i < length ws" and "j < length ws" and "i \<noteq> j"
  shows "set (itemIDs f (ws ! j)) \<inter> set (itemIDs f (ws ! i)) = {}"
proof -
  have "distinct (concat (map (itemIDs f) ws))"
    using assms(1) windows_concat [OF assms(2), of xs] assms(3) by (simp flip: itemIDs_concat)
  from distinct_concat_nth [OF this, of j i] assms(4-6) show ?thesis by simp
qed

section \<open>A demonstration\<close>

text \<open>The pipeline over a source of one chunk, for any writer that succeeds on it.\<close>

lemma two_item_window: "windowWithCount 2 [x, y] = [[x, y]]"
  by (simp add: windowWithCount.simps)

lemma single_chunk_import:
  assumes "wr demoChunk [x, y] c0 = (newResult k None, c1)"
  shows "\<exists>p l'. pipe_reach demoOrder (loadCompletedChunkInventory demoOrder demoLedger) wr
      (startPipeline (demoLedger, c0) (cleanSource 2 [x, y])) p \<and> pipelineDone p \<and>
    finishPipeline (\<lambda>_. False) 9 demoOrder p = (newResult k None, l', c1)"
proof -
  let ?inv = "loadCompletedChunkInventory demoOrder demoLedger"
  let ?p0 = "startPipeline (demoLedger, c0) (cleanSource 2 [x, y])"
  let ?p1 = "(takeWindow ?p0 [x, y])\<lparr>plWorkers := [(demoChunk, [x, y])]\<rparr>"
  let ?p2 = "?p1\<lparr>plDB := (demoAfter, c1), plWorkers := [], plResults := [newResult k None],
    plLog := [(demoChunk, [x, y])]\<rparr>"
  let ?p3 = "?p2\<lparr>plResults := [], plSum := newResult k None\<rparr>"
  have chunk: "nextChunk ?p0 [x, y] = demoChunk"
    by (simp add: nextChunk_def startPipeline_def demoChunk_def)
  have "pipe_step demoOrder ?inv wr ?p0
      ((takeWindow ?p0 [x, y])\<lparr>plWorkers := plWorkers ?p0 @ [(nextChunk ?p0 [x, y], [x, y])]\<rparr>)"
    by (rule pipe_step.submit [where w = "[Item x, Item y]" and es = "[]"])
      (simp_all add: cleanSource_def two_item_window startPipeline_def loadCompletedChunkInventory_def
        inventoryContains_def demoOrder_def)
  then have s1: "pipe_step demoOrder ?inv wr ?p0 ?p1" unfolding chunk by (simp add: startPipeline_def)
  have ex: "executeChunk (\<lambda>_. False) 5 demoOrder demoChunk (wr demoChunk [x, y]) (demoLedger, c0) =
      (newResult k None, demoAfter, c1)"
    using assms by (simp add: run_chunk_defs demoAfter_def demoLedger_def demoChunk_def chunkMatches_def)
  have wrote: "wroteChunk (\<lambda>_. False) 5 demoOrder demoChunk (wr demoChunk [x, y]) (demoLedger, c0)"
    using ex by (simp add: wroteChunk_def isErr_def)
  have "pipe_step demoOrder ?inv wr ?p1
      (?p1\<lparr>plDB := (demoAfter, c1), plWorkers := [] @ [], plResults := plResults ?p1 @ [newResult k None],
        plCancelled := (plCancelled ?p1 \<or> isErr (newResult k None :: ledgerError result)),
        plLog := (if wroteChunk (\<lambda>_. False) 5 demoOrder demoChunk (wr demoChunk [x, y]) (plDB ?p1)
          then plLog ?p1 @ [(demoChunk, [x, y])] else plLog ?p1)\<rparr>)"
    by (rule pipe_step.work [where fl = "\<lambda>_. False" and now = 5 and p = ?p1 and ws = "[]" and ws' = "[]" and
          chunk = demoChunk and items = "[x, y]" and db' = "(demoAfter, c1)" and r = "newResult k None"])
      (use ex in \<open>simp_all add: startPipeline_def takeWindow_def\<close>)
  moreover have "plDB ?p1 = (demoLedger, c0)" by (simp add: startPipeline_def takeWindow_def)
  ultimately have s2: "pipe_step demoOrder ?inv wr ?p1 ?p2"
    using wrote by (simp add: startPipeline_def takeWindow_def isErr_def)
  have "pipe_step demoOrder ?inv wr ?p2
      (?p2\<lparr>plResults := [] @ [], plSum := sumResult (plSum ?p2) (Some (newResult k None))\<rparr>)"
    by (rule pipe_step.receive) simp
  then have s3: "pipe_step demoOrder ?inv wr ?p2 ?p3"
    by (simp add: startPipeline_def takeWindow_def sumResult_def newResult_def)
  have "pipe_reach demoOrder ?inv wr ?p0 ?p3"
    by (rule pipe_reach.step [OF pipe_reach.step [OF pipe_reach.step [OF pipe_reach.init s1] s2] s3])
  moreover have "pipelineDone ?p3"
    by (simp add: pipelineDone_def startPipeline_def takeWindow_def cleanSource_def two_item_window)
  moreover have "\<exists>l'. finishPipeline (\<lambda>_. False) 9 demoOrder ?p3 = (newResult k None, l', c1)"
    by (simp add: finishPipeline_def mergeSourceError_def completeRelationImport_def completeEntityProgress_def
        completionTarget_def invalidChunk_def chunksOf_def chunkMatches_def Let_def isErr_def sumResult_def newResult_def
        demoAfter_def demoLedger_def demoOrder_def countWhere_def dumpMatches_def runIsActive_def sql_def
        startPipeline_def takeWindow_def)
  ultimately show ?thesis by blast
qed

definition demoArtist :: "int32 \<Rightarrow> xmlRef list \<Rightarrow> xmlArtistRelation" where
  "demoArtist i aliases =
     \<lparr>xarID = i, xarName = None, xarDataQuality = None, xarProfile = None, xarRealName = None, xarURLs = [],
      xarNameVars = [], xarAliases = aliases, xarGroups = [], xarMembers = [], xarObservedAt = None\<rparr>"

definition demoItems :: "xmlArtistRelation option list" where
  "demoItems = [Some (demoArtist 3 []), Some (demoArtist 4 [])]"

text \<open>Artist 4 has an alias it no longer has in the dump, artist 9 is not in the dump.\<close>

definition demoArtists :: catalog where
  "demoArtists = emptyCatalog\<lparr>tArtistAlias := 
     [\<lparr>aaArtistID = 4, aaAliasID = 3, aaLastModifiedAt = 1\<rparr>, \<lparr>aaArtistID = 9, aaAliasID = 3, aaLastModifiedAt = 1\<rparr>]\<rparr>"

abbreviation demoArtistWorker :: "chunkMeta \<Rightarrow> xmlArtistRelation option list \<Rightarrow> catalog writer" where
  "demoArtistWorker \<equiv> artistRelationWorker (\<lambda>_. demoEnv) emptyCaches (\<lambda>_. 5) demoOrder"

lemma demo_artist_chunk:
  "\<not> isErr (fst (demoArtistWorker demoChunk demoItems demoArtists))"
  "map (\<lambda>r. (aaArtistID r, aaAliasID r)) (tArtistAlias (snd (demoArtistWorker demoChunk demoItems demoArtists))) = [(9, 3)]"
  by code_simp+

lemma demo_artists_keyed: "catalogKeyed demoArtists"
  by (simp add: catalogKeyed_def demoArtists_def emptyCatalog_def)

section \<open>Properties\<close>



end
