(* ===== verification/Main_Release.thy ===== *)
theory Main_Release
  imports Chunk_Results Admission "HOL-Library.Product_Lexorder"
begin

text \<open>
  The last step of a release import in \<open>src/batch/release.go\<close>: \<open>finalizeReleaseImport\<close> makes
  \<open>master.main_release_id\<close> agree with the releases, then completes the entity. The two statements
  are those of \<open>releaseMainReleaseClearSQL\<close> and \<open>releaseMainReleaseSetSQL\<close>, \<open>distinct on\<close> is a sort
  followed by the first row of each group. \<open>shouldSeedMasterMainReleases\<close> of \<open>master.go\<close> decides
  whether a master import may write the column before that.
\<close>

section \<open>The statements\<close>

definition staleMain :: "catalog \<Rightarrow> masterRow \<Rightarrow> bool" where
  "staleMain c target \<longleftrightarrow>
     maMainReleaseID target \<noteq> None \<and>
     \<not> (\<exists>current \<in> set (tReleaseItem c). Some (riID current) = maMainReleaseID target \<and>
          riMasterID current = Some (maID target) \<and> riIsMaster current = Some True)"

definition releaseMainReleaseClear :: "catalog \<Rightarrow> int \<times> catalog" where
  "releaseMainReleaseClear c =
     (countWhere (staleMain c) (tMaster c),
      c\<lparr>tMaster := updateWhere (staleMain c) (\<lambda>target. target\<lparr>maMainReleaseID := None\<rparr>) (tMaster c)\<rparr>)"

definition desiredMainReleases :: "catalog \<Rightarrow> (int32 \<times> int32) list" where
  "desiredMainReleases c =
     map (\<lambda>r. (the (riMasterID r), riID r))
       (firstsBy riMasterID {}
         (sort_key (\<lambda>r. (sint (the (riMasterID r)), - riLastModifiedAt r, - sint (riID r)))
           (filter (\<lambda>r. riIsMaster r = Some True \<and> riMasterID r \<noteq> None) (tReleaseItem c))))"

definition pendingMain :: "catalog \<Rightarrow> masterRow \<Rightarrow> bool" where
  "pendingMain c target \<longleftrightarrow>
     (case map_of (desiredMainReleases c) (maID target) of
        None \<Rightarrow> False
      | Some releaseID \<Rightarrow> maMainReleaseID target \<noteq> Some releaseID)"

definition releaseMainReleaseSet :: "catalog \<Rightarrow> int \<times> catalog" where
  "releaseMainReleaseSet c =
     (countWhere (pendingMain c) (tMaster c),
      c\<lparr>tMaster := updateWhere (pendingMain c)
           (\<lambda>target. target\<lparr>maMainReleaseID := map_of (desiredMainReleases c) (maID target)\<rparr>) (tMaster c)\<rparr>)"

definition affecting :: "('c \<Rightarrow> int \<times> 'c) \<Rightarrow> ('c, ledgerError, int) proc" where
  "affecting f c = (case f c of (n, c') \<Rightarrow> (Inr n, c'))"

definition mainReleaseBody :: "faultPlan \<Rightarrow> (catalog, ledgerError, int) proc" where
  "mainReleaseBody fl =
     andThen (sql fl ''clear stale master main releases'' (affecting releaseMainReleaseClear)) (\<lambda>cleared.
     andThen (sql fl ''set current master main releases'' (affecting releaseMainReleaseSet)) (\<lambda>s.
     ret (cleared + s)))"

definition reconcileMasterMainReleases :: "faultPlan \<Rightarrow> catalog \<Rightarrow> ledgerError result \<times> catalog" where
  "reconcileMasterMainReleases fl c =
     (case transaction fl (mainReleaseBody fl) c of (r, c') \<Rightarrow> (asResult r, c'))"

definition finalizeReleaseImport ::
  "faultPlan \<Rightarrow> int \<Rightarrow> order \<Rightarrow> int \<Rightarrow> int \<Rightarrow> ledger \<times> catalog \<Rightarrow> ledgerError result \<times> ledger \<times> catalog" where
  "finalizeReleaseImport fl now ord totalItems totalChunks db =
     (case db of (l, c) \<Rightarrow>
        case reconcileMasterMainReleases fl c of (mains, c') \<Rightarrow>
          if isErr mains then (mains, l, c')
          else case completeRelationImport fl now ord totalItems totalChunks l of (r, l') \<Rightarrow>
            (sumResult mains (Some r), l', c'))"

text \<open>\<open>insertReleases\<close> runs the pipeline of \<open>relations.go\<close> with this finalizer; its workers share the names
  they have confirmed, \<open>'n\<close>.\<close>

definition finishReleasePipeline ::
  "faultPlan \<Rightarrow> int \<Rightarrow> order \<Rightarrow> ('x, catalog \<times> 'n) pipeline \<Rightarrow> ledgerError result \<times> ledger \<times> catalog \<times> 'n" where
  "finishReleasePipeline fl now ord p =
     (let acc = mergeSourceError (plSum p) (plSourceErr p)
      in if isErr acc then (acc, plDB p)
         else case plDB p of (l, c, known) \<Rightarrow>
           (case finalizeReleaseImport (\<lambda>s. plParentCancelled p \<or> fl s) now ord (plItems p) (plChunks p) (l, c) of
             (r, l', c') \<Rightarrow> (sumResult acc (Some r), l', c', known)))"

definition shouldSeedMasterMainReleases :: "faultPlan \<Rightarrow> int \<Rightarrow> entityState list \<Rightarrow> string + bool" where
  "shouldSeedMasterMainReleases fl runID states =
     (if runID = 0 then Inr False
      else if fl ''load master backlink import policy'' then Inl ''load master backlink import policy''
      else Inr (\<exists>s \<in> set states. esEntity s = releaseEntityType \<and> esStatus s = catalogStatusImporting \<and>
                 esOperation s = Some ''bootstrap'' \<and> esActive s = Some runID))"

section \<open>The newest main release\<close>

definition mainOf :: "int32 \<Rightarrow> releaseItemRow \<Rightarrow> bool" where
  "mainOf i r \<longleftrightarrow> riIsMaster r = Some True \<and> riMasterID r = Some i"

definition newestMain :: "catalog \<Rightarrow> int32 \<Rightarrow> releaseItemRow \<Rightarrow> bool" where
  "newestMain c i r \<longleftrightarrow> r \<in> set (tReleaseItem c) \<and> mainOf i r \<and>
     (\<forall>r' \<in> set (tReleaseItem c). mainOf i r' \<longrightarrow>
        (riLastModifiedAt r', sint (riID r')) \<le> (riLastModifiedAt r, sint (riID r)))"

lemma firstsBy_least:
  assumes "sorted (map f xs)" and "r \<in> set (firstsBy key ks xs)" and "r' \<in> set xs" and "key r' = key r"
  shows "f r \<le> f r'"
  using assms
proof (induction xs arbitrary: ks)
  case (Cons x xs)
  have new: "key r \<notin> K" if "r \<in> set (firstsBy key K ys)" for K ys
    using firstsBy_keys [of key K ys] that by auto
  show ?case
  proof (cases "r = x")
    case True
    with Cons.prems(1,3) show ?thesis by auto
  next
    case other: False
    from new [OF Cons.prems(2)] have "key r \<notin> ks" .
    show ?thesis
    proof (cases "r' = x")
      case True
      with Cons.prems(4) \<open>key r \<notin> ks\<close> Cons.prems(2) other
      have "r \<in> set (firstsBy key (insert (key x) ks) xs)" by simp
      from new [OF this] True Cons.prems(4) show ?thesis by simp
    next
      case False
      have "\<exists>K. r \<in> set (firstsBy key K xs)" using Cons.prems(2) other by (auto split: if_splits)
      with False Cons.prems Cons.IH show ?thesis by auto
    qed
  qed
qed simp

lemma desired_newest:
  "map_of (desiredMainReleases c) i = Some k \<Longrightarrow> \<exists>r. newestMain c i r \<and> riID r = k"
proof -
  let ?main = "filter (\<lambda>r. riIsMaster r = Some True \<and> riMasterID r \<noteq> None) (tReleaseItem c)"
  let ?f = "\<lambda>r. (sint (the (riMasterID r)), - riLastModifiedAt r, - sint (riID r))"
  assume "map_of (desiredMainReleases c) i = Some k"
  then have "(i, k) \<in> set (desiredMainReleases c)" by (rule map_of_SomeD)
  then obtain r where r: "r \<in> set (firstsBy riMasterID {} (sort_key ?f ?main))" "i = the (riMasterID r)" "k = riID r"
    by (auto simp: desiredMainReleases_def)
  then have mem: "r \<in> set ?main" using firstsBy_subset [of riMasterID "{}" "sort_key ?f ?main"] by auto
  have "(riLastModifiedAt r', sint (riID r')) \<le> (riLastModifiedAt r, sint (riID r))"
    if "r' \<in> set (tReleaseItem c)" "mainOf i r'" for r'
  proof -
    have "?f r \<le> ?f r'"
      by (rule firstsBy_least [OF _ r(1)]) (use that mem r(2) in \<open>auto simp: mainOf_def\<close>)
    then show ?thesis using that(2) r(2) mem by (auto simp: mainOf_def less_eq_prod_def)
  qed
  then show ?thesis using mem r by (auto simp: newestMain_def mainOf_def)
qed

lemma desired_none:
  "map_of (desiredMainReleases c) i = None \<longleftrightarrow> \<not> (\<exists>r \<in> set (tReleaseItem c). mainOf i r)"
proof -
  let ?main = "filter (\<lambda>r. riIsMaster r = Some True \<and> riMasterID r \<noteq> None) (tReleaseItem c)"
  let ?f = "\<lambda>r. (sint (the (riMasterID r)), - riLastModifiedAt r, - sint (riID r))"
  have keys: "riMasterID ` set (firstsBy riMasterID {} (sort_key ?f ?main)) = riMasterID ` set ?main"
    using firstsBy_keys [of riMasterID "{}" "sort_key ?f ?main"] by simp
  have "fst ` set (desiredMainReleases c) = the ` riMasterID ` set (firstsBy riMasterID {} (sort_key ?f ?main))"
    by (simp add: desiredMainReleases_def image_image)
  also have "\<dots> = {i. \<exists>r \<in> set (tReleaseItem c). mainOf i r}"
    unfolding keys by (force simp: mainOf_def)
  finally show ?thesis by (simp add: map_of_eq_None_iff)
qed

lemma newest_unique:
  assumes "distinct (map riID (tReleaseItem c))" and "newestMain c i r" and "newestMain c i r'"
  shows "r = r'"
proof -
  have "sint (riID r) = sint (riID r')" using assms(2,3) unfolding newestMain_def less_eq_prod_def by force
  then have "riID r = riID r'" by (rule signed_word_eqI)
  then show ?thesis using distinct_map_eqD [OF assms(1)] assms(2,3) unfolding newestMain_def by blast
qed

lemma desired_iff:
  assumes "distinct (map riID (tReleaseItem c))"
  shows "map_of (desiredMainReleases c) i = Some k \<longleftrightarrow> (\<exists>r. newestMain c i r \<and> riID r = k)"
proof
  assume "\<exists>r. newestMain c i r \<and> riID r = k"
  then obtain r where r: "newestMain c i r" "riID r = k" by blast
  then have "map_of (desiredMainReleases c) i \<noteq> None" unfolding desired_none by (auto simp: newestMain_def)
  then obtain k' where k': "map_of (desiredMainReleases c) i = Some k'" by auto
  from desired_newest [OF this] obtain r' where "newestMain c i r'" "riID r' = k'" by blast
  with newest_unique [OF assms r(1)] r(2) k' show "map_of (desiredMainReleases c) i = Some k" by simp
qed (rule desired_newest)

lemma reconcile_main_tables:
  assumes "reconcileMasterMainReleases fl c = (w, c')" and "\<not> isErr w"
  shows "c' = c\<lparr>tMaster := map (\<lambda>m. m\<lparr>maMainReleaseID := map_of (desiredMainReleases c) (maID m)\<rparr>) (tMaster c)\<rparr>"
proof -
  let ?d = "map_of (desiredMainReleases c)"
  obtain x s where t: "transaction fl (mainReleaseBody fl) c = (x, s)" by fastforce
  then obtain n where x: "x = Inr n" and s: "s = c'"
    using assms by (cases x) (auto simp: reconcileMasterMainReleases_def asResult_def isErr_def)
  let ?c1 = "c\<lparr>tMaster := updateWhere (staleMain c) (\<lambda>m. m\<lparr>maMainReleaseID := None\<rparr>) (tMaster c)\<rparr>"
  have same: "desiredMainReleases ?c1 = desiredMainReleases c" by (simp add: desiredMainReleases_def)
  have c': "c' = c\<lparr>tMaster := updateWhere (pendingMain ?c1) (\<lambda>m. m\<lparr>maMainReleaseID := ?d (maID m)\<rparr>)
      (updateWhere (staleMain c) (\<lambda>m. m\<lparr>maMainReleaseID := None\<rparr>) (tMaster c))\<rparr>"
    using t x s
    by (auto simp: transaction_Inr mainReleaseBody_def andThen_def sql_def affecting_def releaseMainReleaseClear_def
        releaseMainReleaseSet_def same ret_def throw_def split: if_splits prod.splits sum.splits)
  have row: "(if pendingMain ?c1 m1 then m1\<lparr>maMainReleaseID := ?d (maID m1)\<rparr> else m1) = m\<lparr>maMainReleaseID := ?d (maID m)\<rparr>"
    if m1: "m1 = (if staleMain c m then m\<lparr>maMainReleaseID := None\<rparr> else m)" for m m1
  proof -
    have id: "maID m1 = maID m" "m1\<lparr>maMainReleaseID := v\<rparr> = m\<lparr>maMainReleaseID := v\<rparr>" for v using m1 by simp_all
    show ?thesis
    proof (cases "?d (maID m)")
      case None
      then have none: "\<not> (\<exists>r \<in> set (tReleaseItem c). mainOf (maID m) r)" by (simp add: desired_none)
      then have "maMainReleaseID m1 = None" using m1 by (auto simp: staleMain_def mainOf_def)
      then have "m1\<lparr>maMainReleaseID := None\<rparr> = m1" by (cases m1) simp
      then show ?thesis using None id(1) id(2) [of None] by (simp add: pendingMain_def same)
    next
      case (Some k)
      have "maMainReleaseID m1 = Some k \<Longrightarrow> m1\<lparr>maMainReleaseID := Some k\<rparr> = m1" by (cases m1) simp
      then show ?thesis using Some id(1) id(2) [of "Some k"] by (auto simp: pendingMain_def same)
    qed
  qed
  show ?thesis unfolding c' updateWhere_def map_map
    by (rule arg_cong [where f = "\<lambda>ms. c\<lparr>tMaster := ms\<rparr>"], rule map_cong [OF refl], unfold comp_def)
      (rule row [unfolded updateWhere_def, OF refl])
qed

section \<open>Properties\<close>

text \<open>C13. After a successful release import every master points to its main release: the release
  marked as its main release that was modified last, the largest identifier deciding between equal
  times, and to nothing if no release is marked so - whatever the column held before. Nothing else
  of the catalog changes, and the entity is complete in the ledger. Without success the catalog is
  unchanged or has only these corrections, and a second run finds nothing to correct.\<close>

theorem main_releases_current:
  assumes run: "finalizeReleaseImport fl now ord totalItems totalChunks (l, c) = (r, (l', c'))" and ok: "\<not> isErr r"
    and keyed: "distinct (map riID (tReleaseItem c))"
  shows "c' = c\<lparr>tMaster := tMaster c'\<rparr> \<and>
    map (\<lambda>m. m\<lparr>maMainReleaseID := None\<rparr>) (tMaster c') = map (\<lambda>m. m\<lparr>maMainReleaseID := None\<rparr>) (tMaster c) \<and>
    (\<forall>m \<in> set (tMaster c'). \<forall>k. maMainReleaseID m = Some k \<longleftrightarrow> (\<exists>x. newestMain c (maID m) x \<and> riID x = k)) \<and>
    completeEntityProgress fl now ord totalItems totalChunks l = (Inr (), l') \<and>
    (\<forall>fl'. \<not> isErr (fst (reconcileMasterMainReleases fl' c')) \<longrightarrow> snd (reconcileMasterMainReleases fl' c') = c')"
proof -
  obtain w c1 where w: "reconcileMasterMainReleases fl c = (w, c1)" by fastforce
  have okw: "\<not> isErr w" using run ok w by (auto simp: finalizeReleaseImport_def split: if_splits)
  obtain x l1 where x: "completeEntityProgress fl now ord totalItems totalChunks l = (x, l1)" by fastforce
  have r: "r = sumResult w (Some (newResult 0 (case x of Inl e \<Rightarrow> Some e | Inr _ \<Rightarrow> None)))" and s: "l' = l1" "c' = c1"
    using run w okw x by (auto simp: finalizeReleaseImport_def completeRelationImport_def)
  have complete: "x = Inr ()" using ok r by (cases x) (auto simp: isErr_def [of "newResult _ _"])
  let ?d = "map_of (desiredMainReleases c)"
  have c': "c' = c\<lparr>tMaster := map (\<lambda>m. m\<lparr>maMainReleaseID := ?d (maID m)\<rparr>) (tMaster c)\<rparr>"
    using reconcile_main_tables [OF w okw] s by simp
  have same: "desiredMainReleases c' = desiredMainReleases c" by (simp add: c' desiredMainReleases_def)
  have "snd (reconcileMasterMainReleases fl' c') = c'" if "\<not> isErr (fst (reconcileMasterMainReleases fl' c'))" for fl'
  proof -
    obtain w' c2 where w': "reconcileMasterMainReleases fl' c' = (w', c2)" by fastforce
    with that reconcile_main_tables [OF w']
    have "c2 = c'\<lparr>tMaster := map (\<lambda>m. m\<lparr>maMainReleaseID := ?d (maID m)\<rparr>) (tMaster c')\<rparr>" by (simp add: same)
    with w' show ?thesis by (simp add: c')
  qed
  moreover have "maMainReleaseID m = ?d (maID m)" if "m \<in> set (tMaster c')" for m
    using that by (auto simp: c')
  moreover have "c' = c\<lparr>tMaster := tMaster c'\<rparr>"
    "map (\<lambda>m. m\<lparr>maMainReleaseID := None\<rparr>) (tMaster c') = map (\<lambda>m. m\<lparr>maMainReleaseID := None\<rparr>) (tMaster c)"
    by (simp_all add: c')
  moreover have "completeEntityProgress fl now ord totalItems totalChunks l = (Inr (), l')"
    using complete x s by simp
  ultimately show ?thesis using desired_iff [OF keyed] by simp
qed

definition demoRelease :: "int32 \<Rightarrow> time \<Rightarrow> releaseItemRow" where
  "demoRelease i t = \<lparr>riID = i, riCreatedAt = 1, riLastModifiedAt = t, riTitle = None, riCountry = None,
     riDataQuality = None, riReleaseDate = None, riHasValidYear = None, riHasValidMonth = None, riHasValidDay = None,
     riListedReleaseDate = None, riIsMaster = Some True, riMasterID = Some 5, riNotes = None, riStatus = None\<rparr>"

definition demoMains :: catalog where
  "demoMains = emptyCatalog\<lparr>tMaster := [(demoMaster 5)\<lparr>maMainReleaseID := Some 11\<rparr>, (demoMaster 6)\<lparr>maMainReleaseID := Some 12\<rparr>],
     tReleaseItem := [demoRelease 11 3, demoRelease 12 4, demoRelease 13 4]\<rparr>"

theorem main_releases_current_witness:
  "case finalizeReleaseImport (\<lambda>_. False) 9 demoReleaseOrder 3 1 (demoLedger, demoMains) of
     (r, (_, c')) \<Rightarrow> \<not> isErr r \<and> (\<exists>m \<in> set (tMaster c'). maMainReleaseID m = Some 13 \<and>
       (\<exists>x. newestMain demoMains (maID m) x \<and> riID x = 13)) \<and> map maMainReleaseID (tMaster c') = [Some 13, None]"
proof -
  let ?run = "finalizeReleaseImport (\<lambda>_. False) 9 demoReleaseOrder 3 1 (demoLedger, demoMains)"
  have ev: "\<not> isErr (fst ?run)" "map maMainReleaseID (tMaster (snd (snd ?run))) = [Some 13, None]"
    by (code_simp, code_simp)
  obtain m ms where m: "tMaster (snd (snd ?run)) = m # ms" "maMainReleaseID m = Some 13"
    using ev(2) by (cases "tMaster (snd (snd ?run))") auto
  have "distinct (map riID (tReleaseItem demoMains))" by (simp add: demoMains_def demoRelease_def)
  from main_releases_current [OF _ ev(1) this, of "\<lambda>_. False" 9 demoReleaseOrder 3 1 demoLedger "fst (snd ?run)" "snd (snd ?run)"]
  have "\<forall>m \<in> set (tMaster (snd (snd ?run))). \<forall>k. maMainReleaseID m = Some k \<longleftrightarrow>
      (\<exists>x. newestMain demoMains (maID m) x \<and> riID x = k)" by simp
  then have "maMainReleaseID m = Some 13 \<longleftrightarrow> (\<exists>x. newestMain demoMains (maID m) x \<and> riID x = 13)"
    unfolding m(1) by simp
  with ev m show ?thesis by (simp add: case_prod_beta)
qed

end
