(* ===== verification/Root_Insert.thy ===== *)
theory Root_Insert
  imports Entity_Import
begin

text \<open>
  The first pass over a dump of artists or labels, \<open>InsertSimple\<close> in \<open>src/batch/insert.go\<close>, and the
  writer it uses, \<open>gormWriter.Write\<close> in \<open>writer.go\<close>. Windows of the source are transformed in order,
  which registers every identifier in the caches, and inserted by a pool of workers in any order;
  the counts are added up. Then the steps \<open>GetArtistStep\<close> and \<open>GetLabelStep\<close>: this pass, then the
  relations of \<open>Entity_Import\<close>, on the caches the first pass has filled.

  The stream library is a parameter: what it delivers is a list of events, and after an error it
  may stop at any point. The lemmas show that a pass without error registers exactly what is in
  the table, so relation rows made with these caches refer to rows that exist.
\<close>

section \<open>The writer\<close>

text \<open>The error texts, without the identity or key they print.\<close>

fun dedupeMessage :: "dedupeError \<Rightarrow> string" where
  "dedupeMessage (NilRow table index) = ''nil '' @ table @ '' row at batch index '' @ decText index"
| "dedupeMessage (ConflictingPayload table d) = ''conflicting '' @ table @ '' payloads for SHA-256 identity''"
| "dedupeMessage (ConflictingLegacyHash table d) = ''conflicting '' @ table @ '' legacy hashes for SHA-256 identity''"
| "dedupeMessage (SlotsExhausted table) = ''allocate '' @ table @ '' compatibility slots''"
| "dedupeMessage (ConflictingRows table) = ''conflicting '' @ table @ '' rows for canonical key''"
| "dedupeMessage (InvalidQuantity index e) = ''invalid release_item_format quantity at batch index '' @ decText index"

definition writeCanonicalBatch ::
  "writeEnv \<Rightarrow> order \<Rightarrow> 'r tableSpec \<Rightarrow> ('r option list \<Rightarrow> dedupeError + 'r list) \<Rightarrow> 'r option list \<Rightarrow> 'r list writer" where
  "writeCanonicalBatch env ord tab deduplicate items rows =
     (case deduplicate items of
        Inl e \<Rightarrow> (newResult 0 (Some (dedupeMessage e)), rows)
      | Inr deduplicated \<Rightarrow> doWrite env ord tab deduplicated rows)"

definition writeReleaseRelationBatch ::
  "writeEnv \<Rightarrow> order \<Rightarrow> 'r tableSpec \<Rightarrow> ('r option list \<Rightarrow> dedupeError + 'r list) \<Rightarrow> 'r option list \<Rightarrow> 'r list writer" where
  "writeReleaseRelationBatch env ord tab deduplicate items rows =
     (case deduplicate items of
        Inl e \<Rightarrow> (newResult 0 (Some (dedupeMessage e)), rows)
      | Inr deduplicated \<Rightarrow> doWrite env ord tab deduplicated rows)"

text \<open>The slices the type switch of \<open>Write\<close> knows; any other is skipped.\<close>

datatype modelSlice =
    ArtistSlice "artistRow option list"
  | ArtistURLSlice "artistURLRow option list"
  | ArtistAliasSlice "artistAliasRow option list"
  | ArtistGroupSlice "artistGroupRow option list"
  | ArtistMemberSlice "artistMemberRow option list"
  | ArtistNameVariationSlice "artistNameVariationRow option list"
  | LabelSlice "labelRow option list"
  | LabelURLSlice "labelURLRow option list"
  | LabelSubLabelSlice "labelSubLabelRow option list"
  | LabelReleaseSlice "labelReleaseRow option list"
  | MasterSlice "masterRow option list"
  | MasterArtistSlice "masterArtistRow option list"
  | MasterGenreSlice "masterGenreRow option list"
  | MasterStyleSlice "masterStyleRow option list"
  | MasterVideoSlice "masterVideoRow option list"
  | ReleaseItemSlice "releaseItemRow option list"
  | ReleaseArtistSlice "releaseArtistRow option list"
  | ReleaseWorkSlice "releaseWorkRow option list"
  | ReleaseFormatSlice "releaseFormatRow option list"
  | ReleaseCreditedArtistSlice "releaseCreditedArtistRow option list"
  | ReleaseGenreSlice "releaseGenreRow option list"
  | ReleaseStyleSlice "releaseStyleRow option list"
  | ReleaseIdentifierSlice "releaseIdentifierRow option list"
  | ReleaseImageSlice "releaseImageRow option list"
  | ReleaseTrackSlice "releaseTrackRow option list"
  | ReleaseVideoSlice "releaseVideoRow option list"
  | StyleSlice "styleRow option list"
  | GenreSlice "genreRow option list"
  | OtherSlice

definition call :: "string result \<times> catalog \<Rightarrow> string result option \<times> catalog" where
  "call rc = (Some (fst rc), snd rc)"

fun writeSlice :: "writeEnv \<Rightarrow> order \<Rightarrow> modelSlice \<Rightarrow> catalog \<Rightarrow> string result option \<times> catalog" where
  "writeSlice env ord (ArtistSlice rows) c =
     call (onTable tArtist tArtist_update (writeCanonicalBatch env ord artistTable deduplicateArtists rows) c)"
| "writeSlice env ord (ArtistURLSlice rows) c =
     call (onTable tArtistURL tArtistURL_update (writeCanonicalBatch env ord artistURLTable deduplicateArtistURLs rows) c)"
| "writeSlice env ord (ArtistAliasSlice rows) c =
     call (onTable tArtistAlias tArtistAlias_update (writeCanonicalBatch env ord artistAliasTable deduplicateArtistAliases rows) c)"
| "writeSlice env ord (ArtistGroupSlice rows) c =
     call (onTable tArtistGroup tArtistGroup_update (writeCanonicalBatch env ord artistGroupTable deduplicateArtistGroups rows) c)"
| "writeSlice env ord (ArtistMemberSlice rows) c =
     call (onTable tArtistMember tArtistMember_update (writeCanonicalBatch env ord artistMemberTable deduplicateArtistMembers rows) c)"
| "writeSlice env ord (ArtistNameVariationSlice rows) c =
     call (onTable tArtistNameVariation tArtistNameVariation_update (writeCanonicalBatch env ord artistNameVariationTable deduplicateArtistNameVariations rows) c)"
| "writeSlice env ord (LabelSlice rows) c =
     call (onTable tLabel tLabel_update (writeCanonicalBatch env ord labelTable deduplicateLabels rows) c)"
| "writeSlice env ord (LabelURLSlice rows) c =
     call (onTable tLabelURL tLabelURL_update (writeCanonicalBatch env ord labelURLTable deduplicateLabelURLs rows) c)"
| "writeSlice env ord (LabelSubLabelSlice rows) c =
     call (onTable tLabelSubLabel tLabelSubLabel_update (writeCanonicalBatch env ord labelSubLabelTable deduplicateLabelSubLabels rows) c)"
| "writeSlice env ord (LabelReleaseSlice rows) c =
     call (onTable tLabelRelease tLabelRelease_update (writeReleaseRelationBatch env ord (labelReleaseTable (weNullsEqual env)) deduplicateLabelReleaseItems rows) c)"
| "writeSlice env ord (MasterSlice rows) c =
     call (onTable tMaster tMaster_update (writeCanonicalBatch env ord masterTable deduplicateMasters rows) c)"
| "writeSlice env ord (MasterArtistSlice rows) c =
     call (onTable tMasterArtist tMasterArtist_update (writeCanonicalBatch env ord masterArtistTable deduplicateMasterArtists rows) c)"
| "writeSlice env ord (MasterGenreSlice rows) c =
     call (onTable tMasterGenre tMasterGenre_update (writeCanonicalBatch env ord masterGenreTable deduplicateMasterGenres rows) c)"
| "writeSlice env ord (MasterStyleSlice rows) c =
     call (onTable tMasterStyle tMasterStyle_update (writeCanonicalBatch env ord masterStyleTable deduplicateMasterStyles rows) c)"
| "writeSlice env ord (MasterVideoSlice rows) c =
     call (onTable tMasterVideo tMasterVideo_update (writeCanonicalBatch env ord masterVideoTable deduplicateMasterVideos rows) c)"
| "writeSlice env ord (ReleaseItemSlice rows) c =
     call (onTable tReleaseItem tReleaseItem_update (writeCanonicalBatch env ord releaseItemTable deduplicateReleaseItems rows) c)"
| "writeSlice env ord (ReleaseArtistSlice rows) c =
     call (onTable tReleaseArtist tReleaseArtist_update (writeReleaseRelationBatch env ord releaseArtistTable deduplicateReleaseArtists rows) c)"
| "writeSlice env ord (ReleaseWorkSlice rows) c =
     call (onTable tReleaseWork tReleaseWork_update (writeReleaseRelationBatch env ord releaseWorkTable deduplicateReleaseWorks rows) c)"
| "writeSlice env ord (ReleaseFormatSlice rows) c =
     call (onTable tReleaseFormat tReleaseFormat_update (writeReleaseRelationBatch env ord releaseFormatTable deduplicateReleaseFormats rows) c)"
| "writeSlice env ord (ReleaseCreditedArtistSlice rows) c =
     call (onTable tReleaseCreditedArtist tReleaseCreditedArtist_update (writeReleaseRelationBatch env ord releaseCreditedArtistTable deduplicateReleaseCreditedArtists rows) c)"
| "writeSlice env ord (ReleaseGenreSlice rows) c =
     call (onTable tReleaseGenre tReleaseGenre_update (writeReleaseRelationBatch env ord releaseGenreTable deduplicateReleaseGenres rows) c)"
| "writeSlice env ord (ReleaseStyleSlice rows) c =
     call (onTable tReleaseStyle tReleaseStyle_update (writeReleaseRelationBatch env ord releaseStyleTable deduplicateReleaseStyles rows) c)"
| "writeSlice env ord (ReleaseIdentifierSlice rows) c =
     call (onTable tReleaseIdentifier tReleaseIdentifier_update (writeReleaseRelationBatch env ord releaseIdentifierTable deduplicateReleaseIdentifiers rows) c)"
| "writeSlice env ord (ReleaseImageSlice rows) c =
     call (onTable tReleaseImage tReleaseImage_update (writeReleaseRelationBatch env ord releaseImageTable deduplicateReleaseImages rows) c)"
| "writeSlice env ord (ReleaseTrackSlice rows) c =
     call (onTable tReleaseTrack tReleaseTrack_update (writeReleaseRelationBatch env ord releaseTrackTable deduplicateReleaseTracks rows) c)"
| "writeSlice env ord (ReleaseVideoSlice rows) c =
     call (onTable tReleaseVideo tReleaseVideo_update (writeReleaseRelationBatch env ord releaseVideoTable deduplicateReleaseVideos rows) c)"
| "writeSlice env ord (StyleSlice rows) c =
     call (onTable tStyle tStyle_update (writeCanonicalBatch env ord styleTable deduplicateStyles rows) c)"
| "writeSlice env ord (GenreSlice rows) c =
     call (onTable tGenre tGenre_update (writeCanonicalBatch env ord genreTable deduplicateGenres rows) c)"
| "writeSlice env ord OtherSlice c = (None, c)"

fun gormWriteFrom ::
  "writeEnv \<Rightarrow> order \<Rightarrow> int \<Rightarrow> string option \<Rightarrow> modelSlice list \<Rightarrow> catalog writer" where
  "gormWriteFrom env ord updated e [] c = (newResult updated e, c)"
| "gormWriteFrom env ord updated e (s # slices) c =
     (if e \<noteq> None then (newResult updated e, c)
      else case writeSlice env ord s c of
        (None, c') \<Rightarrow> gormWriteFrom env ord updated e slices c'
      | (Some r, c') \<Rightarrow> gormWriteFrom env ord (updated + result.count r) (err r) slices c')"

definition gormWrite :: "writeEnv \<Rightarrow> order \<Rightarrow> modelSlice list \<Rightarrow> catalog writer" where
  "gormWrite env ord slices = gormWriteFrom env ord 0 None slices"

section \<open>Transforming and inserting a window\<close>

datatype modelRow = ArtistModel artistRow | LabelModel labelRow | MasterModel masterRow | OtherModel

fun registerCache :: "modelRow \<Rightarrow> caches \<Rightarrow> caches" where
  "registerCache (ArtistModel r) cs = cs\<lparr>ArtistIDs := addID (arID r) (ArtistIDs cs)\<rparr>"
| "registerCache (LabelModel r) cs = cs\<lparr>LabelIDs := addID (laID r) (LabelIDs cs)\<rparr>"
| "registerCache (MasterModel r) cs = cs\<lparr>MasterIDs := addID (maID r) (MasterIDs cs)\<rparr>"
| "registerCache OtherModel cs = cs"

text \<open>\<open>stopped i\<close> is the answer of \<open>ctx.Err()\<close> before the \<open>i\<close>-th source. The transformers never
  return a nil row.\<close>

fun transformFrom ::
  "('r \<Rightarrow> modelRow) \<Rightarrow> (time \<Rightarrow> 'f \<Rightarrow> 'r) \<Rightarrow> (nat \<Rightarrow> bool) \<Rightarrow> time \<Rightarrow> nat \<Rightarrow> 'r list \<Rightarrow> 'f option list \<Rightarrow> caches
     \<Rightarrow> (string + 'r list) \<times> caches" where
  "transformFrom mk transform stopped t i rows [] cs = (Inr rows, cs)"
| "transformFrom mk transform stopped t i rows (s # sources) cs =
     (if stopped i then (Inl ''context canceled'', cs)
      else case s of
        None \<Rightarrow> transformFrom mk transform stopped t (Suc i) rows sources cs
      | Some x \<Rightarrow>
          transformFrom mk transform stopped t (Suc i) (rows @ [transform t x]) sources
            (registerCache (mk (transform t x)) cs))"

definition transformSourceChunk ::
  "('r \<Rightarrow> modelRow) \<Rightarrow> (time \<Rightarrow> 'f \<Rightarrow> 'r) \<Rightarrow> (nat \<Rightarrow> bool) \<Rightarrow> time \<Rightarrow> 'f option list \<Rightarrow> caches
     \<Rightarrow> (string + 'r list) \<times> caches" where
  "transformSourceChunk mk transform stopped t sources cs = transformFrom mk transform stopped t 0 [] sources cs"

definition insertBySlice ::
  "writeEnv \<Rightarrow> order \<Rightarrow> modelSlice \<Rightarrow> ledger \<times> catalog \<Rightarrow> (ledgerError + int) \<times> ledger \<times> catalog" where
  "insertBySlice env ord s db =
     (case executeActiveRunTransaction (weFault env) ord (gormWrite env ord [s]) db of
        (res, db') \<Rightarrow> (case err res of None \<Rightarrow> Inr (result.count res) | Some e \<Rightarrow> Inl e, db'))"

definition mergeCount :: "int option \<Rightarrow> int \<Rightarrow> int" where
  "mergeCount acc current = (case acc of None \<Rightarrow> current | Some n \<Rightarrow> n + current)"

section \<open>The pass\<close>

record ('f, 'r) insertRun =
  irDB :: "ledger \<times> catalog"
  irCaches :: caches
  irEvents :: "'f option event list"
  irBatches :: "'r list list"
  irCount :: "int option"
  irErr :: "ledgerError option"

definition startInsert :: "ledger \<times> catalog \<Rightarrow> caches \<Rightarrow> 'f option event list \<Rightarrow> ('f, 'r) insertRun" where
  "startInsert db cs events =
     \<lparr>irDB = db, irCaches = cs, irEvents = events, irBatches = [], irCount = None, irErr = None\<rparr>"

definition failInsert :: "ledgerError \<Rightarrow> ('f, 'r) insertRun \<Rightarrow> ('f, 'r) insertRun" where
  "failInsert e p = p\<lparr>irErr := (case irErr p of None \<Rightarrow> Some e | Some e' \<Rightarrow> Some e')\<rparr>"

inductive insert_step ::
  "writeEnv \<Rightarrow> order \<Rightarrow> ('r \<Rightarrow> modelRow) \<Rightarrow> ('r option list \<Rightarrow> modelSlice) \<Rightarrow> (time \<Rightarrow> 'f \<Rightarrow> 'r)
     \<Rightarrow> ('f, 'r) insertRun \<Rightarrow> ('f, 'r) insertRun \<Rightarrow> bool"
  for env ord mk mkSlice transform where
  source_error: "irEvents p = SourceError e # es \<Longrightarrow>
     insert_step env ord mk mkSlice transform p (failInsert (StatementFailed e) (p\<lparr>irEvents := es\<rparr>))"
| transform: "irEvents p = Window w # es \<Longrightarrow>
     transformSourceChunk mk transform stopped t (mapWindowedSlice w) (irCaches p) = (Inr rows, cs) \<Longrightarrow>
     insert_step env ord mk mkSlice transform p (p\<lparr>irEvents := es, irCaches := cs, irBatches := irBatches p @ [rows]\<rparr>)"
| cancelled: "irEvents p = Window w # es \<Longrightarrow>
     transformSourceChunk mk transform stopped t (mapWindowedSlice w) (irCaches p) = (Inl e, cs) \<Longrightarrow>
     insert_step env ord mk mkSlice transform p (failInsert (StatementFailed e) (p\<lparr>irEvents := es, irCaches := cs\<rparr>))"
| insert: "irBatches p = bs @ rows # bs' \<Longrightarrow>
     insertBySlice (env\<lparr>weFault := fl\<rparr>) ord (mkSlice (map Some rows)) (irDB p) = (Inr n, db') \<Longrightarrow>
     insert_step env ord mk mkSlice transform p
       (p\<lparr>irDB := db', irBatches := bs @ bs', irCount := Some (mergeCount (irCount p) n)\<rparr>)"
| insert_failed: "irBatches p = bs @ rows # bs' \<Longrightarrow>
     insertBySlice (env\<lparr>weFault := fl\<rparr>) ord (mkSlice (map Some rows)) (irDB p) = (Inl e, db') \<Longrightarrow>
     insert_step env ord mk mkSlice transform p (failInsert e (p\<lparr>irDB := db', irBatches := bs @ bs'\<rparr>))"
| stop: "irErr p \<noteq> None \<Longrightarrow> insert_step env ord mk mkSlice transform p (p\<lparr>irEvents := es, irBatches := bs\<rparr>)"

inductive insert_reach for env ord mk mkSlice transform p0 where
  init: "insert_reach env ord mk mkSlice transform p0 p0"
| step: "insert_reach env ord mk mkSlice transform p0 p \<Longrightarrow> insert_step env ord mk mkSlice transform p p' \<Longrightarrow>
     insert_reach env ord mk mkSlice transform p0 p'"

definition simpleInsertResult :: "string \<Rightarrow> ('f, 'r) insertRun \<Rightarrow> ledgerError result" where
  "simpleInsertResult topic p =
     (case irErr p of
        Some e \<Rightarrow> newResult 0 (Some e)
      | None \<Rightarrow>
          (case irCount p of
             None \<Rightarrow> newResult 0 (Some (StatementFailed (''insert result for '' @ topic @ '' did not contain a count'')))
           | Some updated \<Rightarrow> newResult updated None))"

text \<open>\<open>source\<close> is the opened dump, or the error of opening it.\<close>

inductive insertSimple ::
  "writeEnv \<Rightarrow> order \<Rightarrow> string \<Rightarrow> ('r \<Rightarrow> modelRow) \<Rightarrow> ('r option list \<Rightarrow> modelSlice) \<Rightarrow> (time \<Rightarrow> 'f \<Rightarrow> 'r)
     \<Rightarrow> string + 'f option event list \<Rightarrow> caches \<times> ledger \<times> catalog \<Rightarrow> ledgerError result \<Rightarrow> caches \<times> ledger \<times> catalog \<Rightarrow> bool"
  for env ord topic mk mkSlice transform source where
  not_opened: "source = Inl e \<Longrightarrow>
     insertSimple env ord topic mk mkSlice transform source s (newResult 0 (Some (StatementFailed e))) s"
| passed: "source = Inr events \<Longrightarrow>
     insert_reach env ord mk mkSlice transform (startInsert db cs events) p \<Longrightarrow> irEvents p = [] \<Longrightarrow> irBatches p = [] \<Longrightarrow>
     insertSimple env ord topic mk mkSlice transform source (cs, db) (simpleInsertResult topic p) (irCaches p, irDB p)"

section \<open>What a pass leaves\<close>

lemma transformFrom_Inr:
  "transformFrom mk transform stopped t i rows sources cs = (Inr rows', cs') \<Longrightarrow>
     rows' = rows @ map (transform t) (List.map_filter id sources) \<and>
     cs' = fold (\<lambda>r. registerCache (mk r)) (map (transform t) (List.map_filter id sources)) cs"
  by (induction mk transform stopped t i rows sources cs rule: transformFrom.induct)
    (auto simp: map_filter_simps split: if_splits option.splits)

lemma insertBySlice_Inr:
  assumes "insertBySlice env ord s (l, c) = (Inr n, db')"
  obtains w c' where "gormWrite env ord [s] c = (w, c')" and "\<not> isErr w" and "db' = (l, c')" and "n = result.count w"
proof -
  obtain w c' where w: "gormWrite env ord [s] c = (w, c')" by fastforce
  have "\<not> isErr w \<and> db' = (l, c') \<and> n = result.count w"
    using assms w
    by (auto simp: insertBySlice_def executeActiveRunTransaction_def transaction_def atomically_def andThen_def onLedger_def
        sql_def runWriter_def asResult_def isErr_def newResult_def ret_def throw_def
        split: if_splits option.splits prod.splits sum.splits)
  with w that show thesis by blast
qed

lemma insertBySlice_ledger: "fst (snd (insertBySlice env ord s db)) = fst db"
  using executeActiveRunTransaction_ledger [of "weFault env" ord "gormWrite env ord [s]" "fst db" "snd db"]
  by (cases "executeActiveRunTransaction (weFault env) ord (gormWrite env ord [s]) db")
    (auto simp: insertBySlice_def)

definition eventIDs :: "('f \<Rightarrow> int32) \<Rightarrow> 'f option event list \<Rightarrow> int32 set" where
  "eventIDs xid es = (\<Union>e \<in> set es. case e of Window w \<Rightarrow> set (itemIDs xid (mapWindowedSlice w)) | SourceError _ \<Rightarrow> {})"

lemma eventIDs_simps [simp]:
  "eventIDs xid [] = {}"
  "eventIDs xid (Window w # es) = set (itemIDs xid (mapWindowedSlice w)) \<union> eventIDs xid es"
  "eventIDs xid (SourceError e # es) = eventIDs xid es"
  by (simp_all add: eventIDs_def)

lemma eventIDs_clean:
  assumes "0 < n"
  shows "eventIDs xid (cleanSource n xs) = set (itemIDs xid xs)"
proof -
  have "eventIDs xid (map (\<lambda>w. Window (map Item w)) ws) = set (itemIDs xid (concat ws))" for ws
  proof (induction ws)
    case (Cons w ws)
    then show ?case using itemIDs_concat [of xid "[w, concat ws]"] by simp
  qed (simp add: itemIDs_def map_filter_simps)
  then show ?thesis using windows_concat [OF assms, of xs] by (simp add: cleanSource_def)
qed

text \<open>What a kind of root must promise: its registration adds its identifier to one set of the
  caches, its insert adds the rows to one table, and the transformer keeps identifiers.\<close>

locale root_table =
  fixes mk :: "'r \<Rightarrow> modelRow" and mkSlice :: "'r option list \<Rightarrow> modelSlice" and transform :: "time \<Rightarrow> 'f \<Rightarrow> 'r"
    and ident :: "'r \<Rightarrow> int32" and xid :: "'f \<Rightarrow> int32" and ids :: "caches \<Rightarrow> idSet" and table :: "catalog \<Rightarrow> 'r list"
  assumes same_id: "ident (transform t x) = xid x"
    and registers: "ids (registerCache (mk r) cs) = addID (ident r) (ids cs)"
    and inserts: "gormWrite env ord [mkSlice (map Some rows)] c = (w, c') \<Longrightarrow> \<not> isErr w \<Longrightarrow> catalogKeyed c \<Longrightarrow>
      catalogKeyed c' \<and> ident ` set (table c') = ident ` set (table c) \<union> ident ` set rows"
begin

lemma transformed:
  assumes "transformSourceChunk mk transform stopped t sources cs = (Inr rows, cs')"
  shows "ident ` set rows = set (itemIDs xid sources)"
    and "ids cs' = fold addID (itemIDs xid sources) (ids cs)"
proof -
  have rows: "rows = map (transform t) (List.map_filter id sources)"
    and cs': "cs' = fold (\<lambda>r. registerCache (mk r)) rows cs"
    using transformFrom_Inr [OF assms [unfolded transformSourceChunk_def]] by simp_all
  show "ident ` set rows = set (itemIDs xid sources)"
    by (simp add: rows itemIDs_def image_image same_id)
  have "ids (fold (\<lambda>r. registerCache (mk r)) rs cs) = fold addID (map ident rs) (ids cs)" for rs
    by (induction rs arbitrary: cs) (simp_all add: registers)
  then show "ids cs' = fold addID (itemIDs xid sources) (ids cs)"
    by (simp add: cs' rows itemIDs_def comp_def same_id)
qed

definition batchIDs :: "('f, 'r) insertRun \<Rightarrow> int32 set" where
  "batchIDs p = (\<Union>rows \<in> set (irBatches p). ident ` set rows)"

definition passInv :: "ledger \<Rightarrow> int32 set \<Rightarrow> int32 set \<Rightarrow> int32 set \<Rightarrow> ('f, 'r) insertRun \<Rightarrow> bool" where
  "passInv l0 T0 C0 S p \<longleftrightarrow> fst (irDB p) = l0 \<and>
     (irErr p = None \<longrightarrow> catalogKeyed (snd (irDB p)) \<and> idInvar (ids (irCaches p)) \<and>
        ident ` set (table (snd (irDB p))) \<union> batchIDs p \<union> eventIDs xid (irEvents p) = T0 \<union> S \<and>
        {j. containsID (ids (irCaches p)) j} \<union> {j \<in> eventIDs xid (irEvents p). 1 \<le> sint j} = C0 \<union> {j \<in> S. 1 \<le> sint j})"

lemma pass_step:
  assumes "insert_step env ord mk mkSlice transform p p'" and "passInv l0 T0 C0 S p"
  shows "passInv l0 T0 C0 S p'"
  using assms(1)
proof cases
  case (transform w es stopped t rows cs)
  note tr = transformed [OF transform(3)]
  show ?thesis
  proof (cases "irErr p")
    case None
    with assms(2) have inv: "idInvar (ids (irCaches p))" by (simp add: passInv_def)
    have "idInvar (ids cs)" "{j. containsID (ids cs) j} =
        {j. containsID (ids (irCaches p)) j} \<union> {j \<in> set (itemIDs xid (mapWindowedSlice w)). 1 \<le> sint j}"
      using ids.invar_fold [OF inv] ids.contains_fold [OF inv] by (auto simp: tr(2))
    moreover have "batchIDs p' = batchIDs p \<union> set (itemIDs xid (mapWindowedSlice w))"
      using transform tr(1) by (simp add: batchIDs_def Un_commute)
    ultimately show ?thesis
      using assms(2) None transform(1,2) by (simp add: passInv_def Un_assoc Collect_disj_eq conj_disj_distribR)
  qed (use assms(2) transform in \<open>simp add: passInv_def\<close>)
next
  case (insert bs rows bs' fl n db')
  obtain l c where db: "irDB p = (l, c)" by fastforce
  from insert(3) [unfolded db] obtain w c' where w: "gormWrite (env\<lparr>weFault := fl\<rparr>) ord [mkSlice (map Some rows)] c = (w, c')"
    "\<not> isErr w" "db' = (l, c')" by (rule insertBySlice_Inr)
  show ?thesis
  proof (cases "irErr p")
    case None
    with assms(2) db have "catalogKeyed c" by (simp add: passInv_def)
    from inserts [OF w(1,2) this] assms(2) None db w(3) insert show ?thesis by (simp add: passInv_def batchIDs_def Un_ac)
  qed (use assms(2) insert db w(3) in \<open>simp add: passInv_def\<close>)
next
  case (insert_failed bs rows bs' fl e db')
  with assms(2) show ?thesis
    using insertBySlice_ledger [of "env\<lparr>weFault := fl\<rparr>" ord "mkSlice (map Some rows)" "irDB p"]
    by (simp add: passInv_def failInsert_def split: option.splits)
qed (use assms(2) in \<open>auto simp: passInv_def failInsert_def split: option.splits\<close>)

lemma pass_reach:
  assumes "insert_reach env ord mk mkSlice transform (startInsert (l0, c0) cs events) p"
    and "catalogKeyed c0" and "idInvar (ids cs)"
  shows "passInv l0 (ident ` set (table c0)) {j. containsID (ids cs) j} (eventIDs xid events) p"
  using assms(1)
proof (induction rule: insert_reach.induct)
  case init
  show ?case using assms(2,3) by (simp add: passInv_def startInsert_def batchIDs_def)
qed (rule pass_step)

lemma inserted:
  assumes "insertSimple env ord topic mk mkSlice transform (Inr (cleanSource n xs)) (cs, (l0, c0)) r (cs', (l', c'))"
    and "\<not> isErr r" and "0 < n" and "catalogKeyed c0" and "idInvar (ids cs)"
  shows "l' = l0" and "catalogKeyed c'" and "idInvar (ids cs')"
    and "ident ` set (table c') = ident ` set (table c0) \<union> set (itemIDs xid xs)"
    and "containsID (ids cs') j \<longleftrightarrow> containsID (ids cs) j \<or> j \<in> set (itemIDs xid xs) \<and> 1 \<le> sint j"
proof -
  obtain p where p: "insert_reach env ord mk mkSlice transform (startInsert (l0, c0) cs (cleanSource n xs)) p"
    "irEvents p = []" "irBatches p = []" and out: "r = simpleInsertResult topic p" "cs' = irCaches p" "(l', c') = irDB p"
    using assms(1) by (auto elim!: insertSimple.cases)
  have none: "irErr p = None" using assms(2) out(1) by (cases "irErr p") (auto simp: simpleInsertResult_def isErr_def)
  note inv = pass_reach [OF p(1) assms(4,5), unfolded passInv_def eventIDs_clean [OF assms(3)]]
  have d: "fst (irDB p) = l'" "snd (irDB p) = c'" using out(3) by (metis fst_conv snd_conv)+
  show "l' = l0" "catalogKeyed c'" "idInvar (ids cs')"
    "ident ` set (table c') = ident ` set (table c0) \<union> set (itemIDs xid xs)"
    using inv none p(2,3) out(2) d by (simp_all add: batchIDs_def)
  have "{j. containsID (ids cs') j} = {j. containsID (ids cs) j} \<union> {j \<in> set (itemIDs xid xs). 1 \<le> sint j}"
    using inv none p(2) out(2) by simp
  then show "containsID (ids cs') j \<longleftrightarrow> containsID (ids cs) j \<or> j \<in> set (itemIDs xid xs) \<and> 1 \<le> sint j" by blast
qed

end

lemma gormWrite_one: "gormWrite env ord [s] c = (case writeSlice env ord s c of
    (None, c') \<Rightarrow> (newResult 0 None, c') | (Some r, c') \<Rightarrow> (newResult (result.count r) (err r), c'))"
  by (simp add: gormWrite_def split: prod.splits option.splits)

text \<open>A batch of one table: what \<open>merged\<close> says of the keys.\<close>

lemma canonical_batch_keys:
  assumes "writeCanonicalBatch env ord tab deduplicate (map Some rs) rows = (w, rows')" and "\<not> isErr w"
    and "\<And>out. deduplicate (map Some rs) = Inr out \<Longrightarrow> distinct (map key out) \<and> key ` set out = key ` set rs"
    and "\<And>out w rows'. doWrite env ord tab out rows = (w, rows') \<Longrightarrow> \<not> isErr w \<Longrightarrow> distinct (map key out) \<Longrightarrow>
      merged key changes out rows rows'"
  shows "distinct (map key rows') \<and> key ` set rows' = key ` set rows \<union> key ` set rs"
proof -
  obtain out where out: "deduplicate (map Some rs) = Inr out" and wr: "doWrite env ord tab out rows = (w, rows')"
    using assms(1,2) by (auto simp: writeCanonicalBatch_def isErr_def split: sum.splits)
  have k: "distinct (map key out) \<and> key ` set out = key ` set rs" by (rule assms(3) [OF out])
  from assms(4) [OF wr assms(2)] k show ?thesis by (simp add: merged_def)
qed

interpretation artistRoots: root_table ArtistModel ArtistSlice transformArtist arID xaID ArtistIDs tArtist
proof unfold_locales
  fix env ord rows c w c' assume run: "gormWrite env ord [ArtistSlice (map Some rows)] c = (w, c')" "\<not> isErr w" and keyed: "catalogKeyed c"
  obtain v rs where wr: "writeCanonicalBatch env ord artistTable deduplicateArtists (map Some rows) (tArtist c) = (v, rs)" by fastforce
  have v: "\<not> isErr v" and c': "c' = c\<lparr>tArtist := rs\<rparr>"
    using run wr by (auto simp: gormWrite_one call_def onTable_def isErr_def)
  have "distinct (map arID rs) \<and> arID ` set rs = arID ` set (tArtist c) \<union> arID ` set rows"
  proof (rule canonical_batch_keys [OF wr v])
    show "distinct (map arID out) \<and> arID ` set out = arID ` set rows" if "deduplicateArtists (map Some rows) = Inr out" for out
      using that ark.dedupe_keys unfolding deduplicateArtists_def artistsKey_def [abs_def] by blast
    show "merged arID (\<lambda>e r. artistBusiness e \<noteq> artistBusiness r) out (tArtist c) rows'"
      if "doWrite env ord artistTable out (tArtist c) = (w, rows')" "\<not> isErr w" "distinct (map arID out)" for out w rows'
      using artistIns.doWrite_merged [OF that(1,2) refl that(3)] keyed by (simp add: catalogKeyed_def)
  qed
  with keyed show "catalogKeyed c' \<and> arID ` set (tArtist c') = arID ` set (tArtist c) \<union> arID ` set rows"
    by (simp add: c' catalogKeyed_def)
qed (simp_all add: transformArtist_def)

interpretation labelRoots: root_table LabelModel LabelSlice transformLabel laID xlID LabelIDs tLabel
proof unfold_locales
  fix env ord rows c w c' assume run: "gormWrite env ord [LabelSlice (map Some rows)] c = (w, c')" "\<not> isErr w" and keyed: "catalogKeyed c"
  obtain v rs where wr: "writeCanonicalBatch env ord labelTable deduplicateLabels (map Some rows) (tLabel c) = (v, rs)" by fastforce
  have v: "\<not> isErr v" and c': "c' = c\<lparr>tLabel := rs\<rparr>"
    using run wr by (auto simp: gormWrite_one call_def onTable_def isErr_def)
  have "distinct (map laID rs) \<and> laID ` set rs = laID ` set (tLabel c) \<union> laID ` set rows"
  proof (rule canonical_batch_keys [OF wr v])
    show "distinct (map laID out) \<and> laID ` set out = laID ` set rows" if "deduplicateLabels (map Some rows) = Inr out" for out
      using that lak.dedupe_keys unfolding deduplicateLabels_def labelsKey_def [abs_def] by blast
    show "merged laID (\<lambda>e r. labelBusiness e \<noteq> labelBusiness r) out (tLabel c) rows'"
      if "doWrite env ord labelTable out (tLabel c) = (w, rows')" "\<not> isErr w" "distinct (map laID out)" for out w rows'
      using labelIns.doWrite_merged [OF that(1,2) refl that(3)] keyed by (simp add: catalogKeyed_def)
  qed
  with keyed show "catalogKeyed c' \<and> laID ` set (tLabel c') = laID ` set (tLabel c) \<union> laID ` set rows"
    by (simp add: c' catalogKeyed_def)
qed (simp_all add: transformLabel_def)

section \<open>The steps\<close>

definition completedEntityResult :: "faultPlan \<Rightarrow> order \<Rightarrow> ledger \<Rightarrow> ledgerError result \<times> bool" where
  "completedEntityResult fl ord l =
     (if oResume ord \<and> fl ''load completed progress''
      then (newResult 0 (Some (StatementFailed ''load completed progress'')), True)
      else case loadCompletedEntityProgress ord l of
        None \<Rightarrow> (newResult 0 None, False)
      | Some _ \<Rightarrow> (newResult 0 None, True))"

text \<open>\<open>processRelationChunksWithFinalizer\<close> around the pipeline of \<open>Relation_Import\<close>.\<close>

inductive processRelationChunks ::
  "faultPlan \<Rightarrow> order \<Rightarrow> (chunkMeta \<Rightarrow> 'x list \<Rightarrow> 'c writer) \<Rightarrow> (('x, 'c) pipeline \<Rightarrow> ledgerError result \<times> ledger \<times> 'c)
     \<Rightarrow> string + 'x event list \<Rightarrow> ledger \<times> 'c \<Rightarrow> ledgerError result \<Rightarrow> ledger \<times> 'c \<Rightarrow> bool"
  for fl ord wr finalize source where
  progress: "completedEntityResult fl ord l = (r, True) \<Longrightarrow>
     processRelationChunks fl ord wr finalize source (l, c) r (l, c)"
| inventory: "completedEntityResult fl ord l = (r, False) \<Longrightarrow> oResume ord \<Longrightarrow> fl ''load completed chunks'' \<Longrightarrow>
     processRelationChunks fl ord wr finalize source (l, c)
       (newResult 0 (Some (StatementFailed ''load completed chunks''))) (l, c)"
| not_opened: "completedEntityResult fl ord l = (r, False) \<Longrightarrow> source = Inl e \<Longrightarrow>
     processRelationChunks fl ord wr finalize source (l, c) (newResult 0 (Some (StatementFailed e))) (l, c)"
| piped: "completedEntityResult fl ord l = (r, False) \<Longrightarrow> source = Inr events \<Longrightarrow>
     pipe_reach ord (loadCompletedChunkInventory ord l) wr (startPipeline (l, c) events) p \<Longrightarrow> pipelineDone p \<Longrightarrow>
     finalize p = (r', db') \<Longrightarrow> processRelationChunks fl ord wr finalize source (l, c) r' db'"

definition insertArtists where
  "insertArtists env ord = insertSimple env ord ''artists'' ArtistModel ArtistSlice transformArtist"

definition insertLabels where
  "insertLabels env ord = insertSimple env ord ''labels'' LabelModel LabelSlice transformLabel"

text \<open>A step with a first pass: skipped if the entity is complete, the roots, then the relations,
  made with the caches the first pass leaves.\<close>

inductive rootedStep ::
  "faultPlan \<Rightarrow> order \<Rightarrow> (caches \<times> ledger \<times> catalog \<Rightarrow> ledgerError result \<Rightarrow> caches \<times> ledger \<times> catalog \<Rightarrow> bool)
     \<Rightarrow> (caches \<Rightarrow> ledger \<times> catalog \<Rightarrow> ledgerError result \<Rightarrow> ledger \<times> catalog \<Rightarrow> bool)
     \<Rightarrow> caches \<times> ledger \<times> catalog \<Rightarrow> ledgerError result \<Rightarrow> caches \<times> ledger \<times> catalog \<Rightarrow> bool"
  for fl ord roots relations where
  skipped: "completedEntityResult fl ord l = (r, True) \<Longrightarrow> rootedStep fl ord roots relations (cs, (l, c)) r (cs, (l, c))"
| roots_failed: "completedEntityResult fl ord l = (r0, False) \<Longrightarrow> roots (cs, (l, c)) r (cs', db') \<Longrightarrow> isErr r \<Longrightarrow>
     rootedStep fl ord roots relations (cs, (l, c)) (newResult (result.count r) (err r)) (cs', db')"
| completed: "completedEntityResult fl ord l = (r0, False) \<Longrightarrow> roots (cs, (l, c)) r (cs', db') \<Longrightarrow> \<not> isErr r \<Longrightarrow>
     relations cs' db' r' db'' \<Longrightarrow>
     rootedStep fl ord roots relations (cs, (l, c)) (newResult (result.count r + result.count r') (err r')) (cs', db'')"

definition getArtistStep ::
  "faultPlan \<Rightarrow> int \<Rightarrow> writeEnv \<Rightarrow> (chunkMeta \<Rightarrow> writeEnv) \<Rightarrow> (chunkMeta \<Rightarrow> time) \<Rightarrow> order
     \<Rightarrow> string + xmlArtist option event list \<Rightarrow> string + xmlArtistRelation option event list
     \<Rightarrow> caches \<times> ledger \<times> catalog \<Rightarrow> ledgerError result \<Rightarrow> caches \<times> ledger \<times> catalog \<Rightarrow> bool" where
  "getArtistStep fl now env envs t ord roots relations =
     rootedStep fl ord (insertArtists env ord roots)
       (\<lambda>cs. processRelationChunks fl ord (artistRelationWorker envs cs t ord) (finishPipeline fl now ord) relations)"

definition getLabelStep ::
  "faultPlan \<Rightarrow> int \<Rightarrow> writeEnv \<Rightarrow> (chunkMeta \<Rightarrow> writeEnv) \<Rightarrow> (chunkMeta \<Rightarrow> time) \<Rightarrow> order
     \<Rightarrow> string + xmlLabel option event list \<Rightarrow> string + xmlLabelRelation option event list
     \<Rightarrow> caches \<times> ledger \<times> catalog \<Rightarrow> ledgerError result \<Rightarrow> caches \<times> ledger \<times> catalog \<Rightarrow> bool" where
  "getLabelStep fl now env envs t ord roots relations =
     rootedStep fl ord (insertLabels env ord roots)
       (\<lambda>cs. processRelationChunks fl ord (labelRelationWorker envs cs t ord) (finishPipeline fl now ord) relations)"

end
