(* ===== verification/Import_Steps.thy ===== *)
theory Import_Steps
  imports Root_Insert Transform
begin

text \<open>
  What \<open>GetArtistStep\<close> of \<open>src/batch/artist.go\<close> guarantees as a whole: the first pass and the
  relations together leave no relation row of an artist of the dump that refers to an artist the
  catalog does not have.
\<close>

section \<open>Rows of a chunk refer to confirmed artists\<close>

lemma confirmed_rows:
  "aaAliasID ` set (getAliases cs t a) \<subseteq> {i. containsID (ArtistIDs cs) i}"
  "agGroupID ` set (getGroups cs t a) \<subseteq> {i. containsID (ArtistIDs cs) i}"
  "amMemberID ` set (getMembers cs t a) \<subseteq> {i. containsID (ArtistIDs cs) i}"
  by (auto simp: getAliases_def getGroups_def getMembers_def set_mapFilter Let_def split: if_splits)

lemma collected_confirmed:
  assumes "collectArtistChunk cs t items = ([], rows)"
  shows "aaAliasID ` set (acAliases rows) \<subseteq> {i. containsID (ArtistIDs cs) i}"
    and "agGroupID ` set (acGroups rows) \<subseteq> {i. containsID (ArtistIDs cs) i}"
    and "amMemberID ` set (acMembers rows) \<subseteq> {i. containsID (ArtistIDs cs) i}"
proof -
  have parts: "concat (map (map Some \<circ> f) xs) = map Some (concat (map f xs))" for f :: "'a \<Rightarrow> 'b list" and xs
    by (simp add: map_concat comp_def)
  note col = artist_collected [OF assms refl, unfolded parts]
  note c1 = aak.dedupe_laws(2) [OF col(1) [unfolded deduplicateArtistAliases_def]]
  note c2 = agk.dedupe_laws(2) [OF col(2) [unfolded deduplicateArtistGroups_def]]
  note c3 = amk.dedupe_laws(2) [OF col(3) [unfolded deduplicateArtistMembers_def]]
  show "aaAliasID ` set (acAliases rows) \<subseteq> {i. containsID (ArtistIDs cs) i}"
    using c1 confirmed_rows(1) [of cs t] by (fastforce simp: image_subset_iff subset_iff)
  show "agGroupID ` set (acGroups rows) \<subseteq> {i. containsID (ArtistIDs cs) i}"
    using c2 confirmed_rows(2) [of cs t] by (fastforce simp: image_subset_iff subset_iff)
  show "amMemberID ` set (acMembers rows) \<subseteq> {i. containsID (ArtistIDs cs) i}"
    using c3 confirmed_rows(3) [of cs t] by (fastforce simp: image_subset_iff subset_iff)
qed

text \<open>\<open>linked T ids c\<close>: the relation rows of the artists in \<open>ids\<close> refer to artists in \<open>T\<close>.\<close>

definition linked :: "int32 set \<Rightarrow> int32 set \<Rightarrow> catalog \<Rightarrow> bool" where
  "linked T ids c \<longleftrightarrow>
     (\<forall>r \<in> set (tArtistAlias c). aaArtistID r \<in> ids \<longrightarrow> aaAliasID r \<in> T) \<and>
     (\<forall>r \<in> set (tArtistGroup c). agArtistID r \<in> ids \<longrightarrow> agGroupID r \<in> T) \<and>
     (\<forall>r \<in> set (tArtistMember c). amArtistID r \<in> ids \<longrightarrow> amMemberID r \<in> T)"

lemma image_pair_snd:
  assumes "(\<lambda>r. (f r, g r)) ` {r \<in> R. f r \<in> I} = (\<lambda>r. (f r, g r)) ` S" and "g ` S \<subseteq> T"
  shows "\<forall>r \<in> R. f r \<in> I \<longrightarrow> g r \<in> T"
proof (intro ballI impI)
  fix r assume "r \<in> R" "f r \<in> I"
  then have "(f r, g r) \<in> (\<lambda>r. (f r, g r)) ` S" unfolding assms(1) [symmetric] by blast
  with assms(2) show "g r \<in> T" by auto
qed

lemma held_linked:
  assumes "artistChunkHeld cs t items c" and "{i. containsID (ArtistIDs cs) i} \<subseteq> T"
  shows "linked T (set (itemIDs xarID items)) c"
proof -
  obtain rows where rows: "collectArtistChunk cs t items = ([], rows)" and "artistHeld rows c"
    using assms(1) by (auto simp: artistChunkHeld_def)
  then have a: "artistAgrees rows c" by (simp add: artistHeld_def)
  note sub = subset_trans [OF collected_confirmed(1) [OF rows] assms(2)] subset_trans [OF collected_confirmed(2) [OF rows] assms(2)]
    subset_trans [OF collected_confirmed(3) [OF rows] assms(2)]
  show ?thesis
    unfolding linked_def artist_roots [OF rows, symmetric]
    using a unfolding artistAgrees_def by (intro conjI) (elim conjE, erule image_pair_snd, rule sub)+
qed

lemma linked_windows:
  assumes "\<And>w. w \<in> set ws \<Longrightarrow> linked T (set (itemIDs f w)) c"
  shows "linked T (set (itemIDs f (concat ws))) c"
  using assms unfolding linked_def itemIDs_concat by fastforce

section \<open>The step\<close>

lemma rooted_parts:
  assumes "rootedStep fl ord rts rels (cs, (l, c)) r s'" and "\<not> isErr r"
    and "completedEntityResult fl ord l = (r0, False)"
  obtains r1 cs' db' r2 db'' where "rts (cs, (l, c)) r1 (cs', db')" and "\<not> isErr r1" and "rels cs' db' r2 db''"
    and "\<not> isErr r2" and "s' = (cs', db'')"
  using assms
  by (auto elim!: rootedStep.cases simp: isErr_def newResult_def)

lemma piped_parts:
  assumes "processRelationChunks fl ord wr finalize source (l, c) r db'" and "\<not> isErr r"
    and "completedEntityResult fl ord l = (r0, False)"
  obtains events p where "source = Inr events" and "finalize p = (r, db')" and "pipelineDone p"
    and "pipe_reach ord (loadCompletedChunkInventory ord l) wr (startPipeline (l, c) events) p"
  using assms
  by (auto elim!: processRelationChunks.cases simp: isErr_def newResult_def)

text \<open>C5. An artist step that runs to success leaves the catalog closed: every artist of the dump is
  in the artist table and in the cache of identifiers, everything in the cache is in the table, and
  every alias, group and member row of an artist of the dump refers to an artist in the table. The
  two passes may read the dump differently and their workers interleave in any way.\<close>

theorem artist_step_references_exist:
  assumes step: "getArtistStep fl now env envs t ord (Inr (cleanSource n roots)) (Inr (cleanSource n rels))
      (cs, (l, c)) r (cs', (l', c'))" and ok: "\<not> isErr r"
    and todo: "completedEntityResult fl ord l = (r0, False)" and fresh: "metas ord l = []"
    and inv: "ledgerInv l" and n: "0 < n" and run: "oRunID ord \<noteq> 0" and keyed: "catalogKeyed c"
    and ids: "distinct (itemIDs xarID rels)" and valid: "idInvar (ArtistIDs cs)"
    and known: "\<forall>j. containsID (ArtistIDs cs) j \<longrightarrow> j \<in> arID ` set (tArtist c)"
  shows "set (itemIDs xaID roots) \<subseteq> arID ` set (tArtist c') \<and>
    (\<forall>j \<in> set (itemIDs xaID roots). 1 \<le> sint j \<longrightarrow> containsID (ArtistIDs cs') j) \<and>
    (\<forall>j. containsID (ArtistIDs cs') j \<longrightarrow> j \<in> arID ` set (tArtist c')) \<and>
    linked (arID ` set (tArtist c')) (set (itemIDs xarID rels)) c' \<and> catalogKeyed c'"
proof -
  obtain r1 l1 c1 r2 where first: "insertArtists env ord (Inr (cleanSource n roots)) (cs, (l, c)) r1 (cs', (l1, c1))" "\<not> isErr r1"
    and second: "processRelationChunks fl ord (artistRelationWorker envs cs' t ord) (finishPipeline fl now ord)
      (Inr (cleanSource n rels)) (l1, c1) r2 (l', c')" "\<not> isErr r2"
    by (rule rooted_parts [OF step [unfolded getArtistStep_def] ok todo]) auto
  note ins = artistRoots.inserted [OF first(1) [unfolded insertArtists_def] first(2) n keyed valid]
  obtain p where p: "finishPipeline fl now ord p = (r2, (l', c'))" "pipelineDone p"
    "pipe_reach ord (loadCompletedChunkInventory ord l) (artistRelationWorker envs cs' t ord)
      (startPipeline (l, c1) (cleanSource n rels)) p"
    using piped_parts [OF second] todo ins(1) by auto
  let ?ws = "windowWithCount n rels"
  have "(catalogKeyed c' \<and> tArtist c' = tArtist c1) \<and>
      (\<forall>i < length ?ws. artistChunkHeld cs' (t (metaAt ?ws i)) (?ws ! i) c')"
    by (intro artistImport.import_agrees [OF p(3,2,1) second(2) inv n run conjI [OF ins(2) refl] refl]
        windows_disjoint [OF ids n refl]) (simp_all add: fresh)
  then have keyed': "catalogKeyed c'" and same: "tArtist c' = tArtist c1"
    and held: "\<And>i. i < length ?ws \<Longrightarrow> artistChunkHeld cs' (t (metaAt ?ws i)) (?ws ! i) c'" by auto
  have cached: "{j. containsID (ArtistIDs cs') j} \<subseteq> arID ` set (tArtist c')"
    using ins(4,5) known same by auto
  have "linked (arID ` set (tArtist c')) (set (itemIDs xarID w)) c'" if "w \<in> set ?ws" for w
    using that held held_linked [OF _ cached] by (metis in_set_conv_nth)
  then have "linked (arID ` set (tArtist c')) (set (itemIDs xarID (concat ?ws))) c'" by (rule linked_windows)
  then show ?thesis
    using windows_concat [OF n, of rels] ins(4,5) same cached keyed' by auto
qed

text \<open>A dump of artists 3 and 4, of which only artist 3 passed the first pass, and artist 4 has two
  aliases, 3 and 8. Artist 8 is unknown.\<close>

definition demoRoot :: xmlArtist where
  "demoRoot = \<lparr>xaID = 3, xaName = Some ''A'', xaDataQuality = None, xaProfile = None, xaRealName = None\<rparr>"

definition demoRels :: "xmlArtistRelation option list" where
  "demoRels = [Some (demoArtist 3 []), Some (demoArtist 4 [\<lparr>refID = 3, refName = ''A''\<rparr>, \<lparr>refID = 8, refName = ''B''\<rparr>])]"

definition demoFirst :: "(ledgerError + int) \<times> ledger \<times> catalog" where
  "demoFirst = insertBySlice (demoEnv\<lparr>weFault := (\<lambda>_. False)\<rparr>) demoOrder (ArtistSlice [Some (transformArtist 5 demoRoot)])
     (demoLedger, emptyCatalog)"

definition demoFilled :: caches where
  "demoFilled = registerCache (ArtistModel (transformArtist 5 demoRoot)) emptyCaches"

text \<open>Caches with the same answers as \<open>demoFilled\<close>, in fewer words.\<close>

definition demoSmall :: caches where
  "demoSmall = emptyCaches\<lparr>ArtistIDs := \<lparr>segments = [0 \<mapsto> [8]]\<rparr>\<rparr>"

definition demoSecond :: "string result \<times> catalog" where
  "demoSecond = artistRelationWorker (\<lambda>_. demoEnv) demoSmall (\<lambda>_. 5) demoOrder demoChunk demoRels (snd (snd demoFirst))"

lemma demo_first: "fst demoFirst = Inr 1" "map arID (tArtist (snd (snd demoFirst))) = [3]" "fst (snd demoFirst) = demoLedger"
  by (code_simp, code_simp, simp add: demoFirst_def insertBySlice_ledger)

lemma demo_second: "\<not> isErr (fst demoSecond)"
  "map (\<lambda>r. (aaArtistID r, aaAliasID r)) (tArtistAlias (snd demoSecond)) = [(4, 3)]"
  by (code_simp, code_simp)

lemma demo_filled: "containsID (ArtistIDs demoFilled) j \<longleftrightarrow> j = 3"
  by (auto simp: demoFilled_def transformArtist_def demoRoot_def addID_contains emptyCaches_def)

lemma demo_small: "containsID (ArtistIDs demoSmall) 3" "\<not> containsID (ArtistIDs demoSmall) 8"
  by (code_simp, code_simp)

lemma mapFilter_agree: "(\<And>x. x \<in> set xs \<Longrightarrow> f x = g x) \<Longrightarrow> List.map_filter f xs = List.map_filter g xs"
  by (induction xs) (auto simp: map_filter_simps split: option.splits)

lemma demo_collect: "collectArtistChunk demoFilled t demoRels = collectArtistChunk demoSmall t demoRels"
proof -
  have "getAliases demoFilled u a = getAliases demoSmall u a" if "refID ` set (xarAliases a) \<subseteq> {3, 8}" for u a
    unfolding getAliases_def Let_def
    by (rule mapFilter_agree) (use that demo_filled demo_small in auto)
  then show ?thesis
    by (simp add: collectArtistChunk_def demoRels_def presentItems_def assignChunkObservedAt_def artistSetObservedAt_def
        map_filter_simps demoArtist_def getGroups_def getMembers_def)
qed

lemma demo_insert:
  "insertArtists demoEnv demoOrder (Inr (cleanSource 2 [Some demoRoot])) (emptyCaches, (demoLedger, emptyCatalog))
     (newResult 1 None) (demoFilled, (demoLedger, snd (snd demoFirst)))"
proof -
  let ?row = "transformArtist 5 demoRoot"
  let ?p0 = "startInsert (demoLedger, emptyCatalog) emptyCaches (cleanSource 2 [Some demoRoot]) :: (xmlArtist, artistRow) insertRun"
  let ?p1 = "?p0\<lparr>irEvents := [], irCaches := demoFilled, irBatches := [[?row]]\<rparr>"
  let ?p2 = "?p1\<lparr>irDB := snd demoFirst, irBatches := [], irCount := Some 1\<rparr>"
  have src: "cleanSource 2 [Some demoRoot] = [Window [Item (Some demoRoot)]]"
    by (simp add: cleanSource_def windowWithCount.simps)
  have "insert_step demoEnv demoOrder ArtistModel ArtistSlice transformArtist ?p0
      (?p0\<lparr>irEvents := [], irCaches := demoFilled, irBatches := irBatches ?p0 @ [[?row]]\<rparr>)"
    by (rule insert_step.transform [where w = "[Item (Some demoRoot)]" and stopped = "\<lambda>_. False" and t = 5])
      (simp_all add: startInsert_def src transformSourceChunk_def demoFilled_def)
  then have s1: "insert_step demoEnv demoOrder ArtistModel ArtistSlice transformArtist ?p0 ?p1"
    by (simp add: startInsert_def)
  have one: "insertBySlice (demoEnv\<lparr>weFault := \<lambda>_. False\<rparr>) demoOrder (ArtistSlice (map Some [?row])) (irDB ?p1) =
      (Inr 1, snd demoFirst)"
    using demo_first(1) by (simp add: demoFirst_def startInsert_def prod_eq_iff)
  have "insert_step demoEnv demoOrder ArtistModel ArtistSlice transformArtist ?p1
      (?p1\<lparr>irDB := snd demoFirst, irBatches := [] @ [], irCount := Some (mergeCount (irCount ?p1) 1)\<rparr>)"
    by (rule insert_step.insert [where bs = "[]" and rows = "[?row]" and bs' = "[]" and fl = "\<lambda>_. False"])
      (use one in simp_all)
  then have s2: "insert_step demoEnv demoOrder ArtistModel ArtistSlice transformArtist ?p1 ?p2"
    by (simp add: startInsert_def mergeCount_def)
  have "insertArtists demoEnv demoOrder (Inr (cleanSource 2 [Some demoRoot])) (emptyCaches, (demoLedger, emptyCatalog))
      (simpleInsertResult ''artists'' ?p2) (irCaches ?p2, irDB ?p2)"
    unfolding insertArtists_def
    by (rule insertSimple.passed [OF refl insert_reach.step [OF insert_reach.step [OF insert_reach.init s1] s2]]) simp_all
  moreover have "simpleInsertResult ''artists'' ?p2 = newResult 1 None"
    by (simp add: simpleInsertResult_def startInsert_def)
  moreover have "irDB ?p2 = (demoLedger, snd (snd demoFirst))" using demo_first(3) by (simp add: prod_eq_iff)
  ultimately show ?thesis by simp
qed

theorem artist_step_references_exist_witness:
  "\<exists>r cs' l' c'. getArtistStep (\<lambda>_. False) 9 demoEnv (\<lambda>_. demoEnv) (\<lambda>_. 5) demoOrder
      (Inr (cleanSource 2 [Some demoRoot])) (Inr (cleanSource 2 demoRels)) (emptyCaches, (demoLedger, emptyCatalog))
      r (cs', (l', c')) \<and> \<not> isErr r \<and> containsID (ArtistIDs cs') 3 \<and>
    map (\<lambda>r. (aaArtistID r, aaAliasID r)) (tArtistAlias c') = [(4, 3)] \<and>
    linked (arID ` set (tArtist c')) {3, 4} c'"
proof -
  let ?wr = "artistRelationWorker (\<lambda>_. demoEnv) demoFilled (\<lambda>_. 5) demoOrder"
  let ?c1 = "snd (snd demoFirst)" and ?c2 = "snd demoSecond" and ?k = "result.count (fst demoSecond)"
  have rels: "demoRels = [hd demoRels, last demoRels]" by (simp add: demoRels_def)
  have "?wr demoChunk demoRels ?c1 = demoSecond"
    by (simp add: artistRelationWorker_def demo_collect demoSecond_def)
  then have k: "?wr demoChunk [hd demoRels, last demoRels] ?c1 = (newResult ?k None, ?c2)"
    using demo_second(1) unfolding rels [symmetric]
    by (cases "fst demoSecond") (simp add: isErr_def newResult_def prod_eq_iff)
  obtain p l' where p: "pipe_reach demoOrder (loadCompletedChunkInventory demoOrder demoLedger) ?wr
      (startPipeline (demoLedger, ?c1) (cleanSource 2 demoRels)) p" "pipelineDone p"
      "finishPipeline (\<lambda>_. False) 9 demoOrder p = (newResult ?k None, l', ?c2)"
    using single_chunk_import [where wr = ?wr, OF k] unfolding rels [symmetric] by blast
  have todo: "completedEntityResult (\<lambda>_. False) demoOrder demoLedger = (newResult 0 None, False)"
    by code_simp
  have rel: "processRelationChunks (\<lambda>_. False) demoOrder ?wr (finishPipeline (\<lambda>_. False) 9 demoOrder)
      (Inr (cleanSource 2 demoRels)) (demoLedger, ?c1) (newResult ?k None) (l', ?c2)"
    by (rule processRelationChunks.piped [where p = p and events = "cleanSource 2 demoRels"]) (use todo p in simp_all)
  have step: "getArtistStep (\<lambda>_. False) 9 demoEnv (\<lambda>_. demoEnv) (\<lambda>_. 5) demoOrder
      (Inr (cleanSource 2 [Some demoRoot])) (Inr (cleanSource 2 demoRels)) (emptyCaches, (demoLedger, emptyCatalog))
      (newResult (1 + ?k) None) (demoFilled, (l', ?c2))"
    unfolding getArtistStep_def
    using rootedStep.completed [where fl = "\<lambda>_. False" and ord = demoOrder and
        roots = "insertArtists demoEnv demoOrder (Inr (cleanSource 2 [Some demoRoot]))" and
        relations = "\<lambda>cs. processRelationChunks (\<lambda>_. False) demoOrder
          (artistRelationWorker (\<lambda>_. demoEnv) cs (\<lambda>_. 5) demoOrder) (finishPipeline (\<lambda>_. False) 9 demoOrder)
          (Inr (cleanSource 2 demoRels))", OF todo demo_insert _ rel]
    by (simp add: isErr_def newResult_def)
  have ids: "itemIDs xarID demoRels = [3, 4]" by code_simp
  have "\<not> isErr (newResult (1 + ?k) None :: ledgerError result)" "metas demoOrder demoLedger = []"
    "catalogKeyed emptyCatalog" "idInvar (ArtistIDs emptyCaches)" "oRunID demoOrder \<noteq> 0"
    by (simp_all add: metas_def chunksOf_def demoLedger_def catalogKeyed_def emptyCatalog_def emptyCaches_def isErr_def)
  from artist_step_references_exist [OF step this(1) todo this(2) demo_inv _ this(5,3) _ this(4)]
  have "linked (arID ` set (tArtist ?c2)) {3, 4} ?c2" by (simp add: ids emptyCaches_def)
  with step demo_second(2) demo_filled show ?thesis
    by (intro exI [of _ "newResult (1 + ?k) None"] exI [of _ demoFilled] exI [of _ l'] exI [of _ ?c2]) (simp add: isErr_def)
qed

end
