(* ===== verification/Progress_Reporter.thy ===== *)
theory Progress_Reporter
  imports Rows
begin

text \<open>
  The byte progress of \<open>internal/progress/reporter.go\<close>, used by the downloads of
  \<open>src/file/file.go\<close> and the gzip source of \<open>src/reader/progressbar.go\<close>. A reporter is a state
  machine behind a mutex: its calls run one after the other, in any order its users make them.

  Byte counts are 64-bit signed integers, so \<open>Add\<close> may wrap around. The clock is a stream of
  instants, one for every reading. A record carries the state and the two byte counts; percent,
  rate and elapsed time are floating point values computed from them and are left out. The bar is
  the sequence of calls made on it.
\<close>

type_synonym int64 = "64 word"

section \<open>The reporter\<close>

definition stateStarted :: string where "stateStarted = ''started''"
definition stateRunning :: string where "stateRunning = ''running''"
definition stateCompleted :: string where "stateCompleted = ''completed''"
definition stateFailed :: string where "stateFailed = ''failed''"

lemmas reporterState_defs = stateStarted_def stateRunning_def stateCompleted_def stateFailed_def

record progressRecord =
  pgState :: string
  pgStage :: string
  pgResource :: string
  pgCompleted :: int64
  pgTotal :: int64

datatype barCall = RenderBlank | Set64 int64 | ClearBar | FinishBar | NewLine

record reporter =
  rpStage :: string
  rpResource :: string
  rpTotal :: int64
  rpCompleted :: int64
  rpStartedAt :: "time option"
  rpLastReportedAt :: time
  rpInterval :: time
  rpNow :: "nat \<Rightarrow> time"
  rpTicks :: nat
  rpFinished :: bool
  rpHasBar :: bool
  rpBar :: "barCall list"
  rpOutput :: "progressRecord list"

definition newReporter :: "bool \<Rightarrow> string \<Rightarrow> string \<Rightarrow> int64 \<Rightarrow> time \<Rightarrow> (nat \<Rightarrow> time) \<Rightarrow> reporter" where
  "newReporter terminal stage resource totalBytes interval now =
     (let cap = (if sint totalBytes < 0 then 0 else totalBytes)
      in \<lparr>rpStage = stage, rpResource = resource, rpTotal = cap, rpCompleted = 0, rpStartedAt = None,
          rpLastReportedAt = 0, rpInterval = interval, rpNow = now, rpTicks = 0, rpFinished = False,
          rpHasBar = (terminal \<and> 0 < sint cap), rpBar = [], rpOutput = []\<rparr>)"

definition readClock :: "reporter \<Rightarrow> time \<times> reporter" where
  "readClock r = (rpNow r (rpTicks r), r\<lparr>rpTicks := Suc (rpTicks r)\<rparr>)"

definition writeState :: "string \<Rightarrow> reporter \<Rightarrow> reporter" where
  "writeState st r =
     r\<lparr>rpOutput := rpOutput r @ [\<lparr>pgState = st, pgStage = rpStage r, pgResource = rpResource r,
        pgCompleted = rpCompleted r, pgTotal = rpTotal r\<rparr>]\<rparr>"

definition barDo :: "barCall list \<Rightarrow> reporter \<Rightarrow> reporter" where
  "barDo calls r = (if rpHasBar r then r\<lparr>rpBar := rpBar r @ calls\<rparr> else r)"

definition normalizedCompletedBytes :: "reporter \<Rightarrow> int64 \<Rightarrow> int64" where
  "normalizedCompletedBytes r n =
     (if sint n < sint (rpCompleted r) then rpCompleted r
      else if 0 < sint (rpTotal r) \<and> sint (rpTotal r) < sint n then rpTotal r
      else n)"

definition ensureStarted :: "reporter \<Rightarrow> reporter" where
  "ensureStarted r =
     (if rpStartedAt r \<noteq> None then r
      else case readClock r of (now, r') \<Rightarrow>
        writeState stateStarted (r'\<lparr>rpStartedAt := Some now, rpLastReportedAt := now\<rparr>))"

definition updateBar :: "reporter \<Rightarrow> reporter" where
  "updateBar r = barDo [Set64 (rpCompleted r)] r"

definition finishBar :: "bool \<Rightarrow> reporter \<Rightarrow> reporter" where
  "finishBar failed = barDo [if failed then ClearBar else FinishBar, NewLine]"

definition advance :: "int64 \<Rightarrow> reporter \<Rightarrow> reporter" where
  "advance n r = (let s = ensureStarted r in updateBar (s\<lparr>rpCompleted := normalizedCompletedBytes s n\<rparr>))"

definition setBytes :: "int64 \<Rightarrow> bool \<Rightarrow> reporter \<Rightarrow> reporter" where
  "setBytes n forceComplete r =
     (if rpFinished r then r
      else case readClock (advance n r) of (now, s) \<Rightarrow>
        if forceComplete \<or> (0 < sint (rpTotal s) \<and> rpCompleted s = rpTotal s)
        then (finishBar False (writeState stateCompleted s))\<lparr>rpFinished := True\<rparr>
        else if now - rpLastReportedAt s < rpInterval s then s
        else (writeState stateRunning s)\<lparr>rpLastReportedAt := now\<rparr>)"

section \<open>Its calls\<close>

datatype reporterCall = Start | Add int64 | SetTo int64 | Complete int64 | Fail int64

definition startReporter :: "reporter \<Rightarrow> reporter" where
  "startReporter r =
     (if rpFinished r \<or> rpStartedAt r \<noteq> None then r else barDo [RenderBlank] (ensureStarted r))"

definition addBytes :: "int64 \<Rightarrow> reporter \<Rightarrow> reporter" where
  "addBytes n r = (if sint n \<le> 0 then r else setBytes (rpCompleted r + n) False r)"

definition failReporter :: "int64 \<Rightarrow> reporter \<Rightarrow> reporter" where
  "failReporter n r =
     (if rpFinished r then r
      else case readClock (advance n r) of (now, s) \<Rightarrow>
        (finishBar True (writeState stateFailed s))\<lparr>rpFinished := True\<rparr>)"

fun reporterDo :: "reporterCall \<Rightarrow> reporter \<Rightarrow> reporter" where
  "reporterDo Start r = startReporter r"
| "reporterDo (Add n) r = addBytes n r"
| "reporterDo (SetTo n) r = setBytes n False r"
| "reporterDo (Complete n) r = setBytes n True r"
| "reporterDo (Fail n) r = failReporter n r"

text \<open>\<open>progressReader.Read\<close>: \<open>n\<close> bytes were read, \<open>failed\<close> if an error other than the end of the
  file came with them. \<open>execGrabReq\<close> sets the count at every tick until the download is done.\<close>

record progressReader =
  prCompleted :: int64
  prReporter :: reporter

definition progressRead :: "int64 \<Rightarrow> bool \<Rightarrow> progressReader \<Rightarrow> progressReader" where
  "progressRead n failed p =
     (let cap = prCompleted p + n; r = reporterDo (SetTo cap) (prReporter p)
      in \<lparr>prCompleted = cap, prReporter = (if failed then reporterDo (Fail cap) r else r)\<rparr>)"

definition downloadProgress :: "int64 list \<Rightarrow> bool \<Rightarrow> int64 \<Rightarrow> reporter \<Rightarrow> reporter" where
  "downloadProgress ticks failed bytes r =
     (let s = fold (\<lambda>n. reporterDo (SetTo n)) ticks (reporterDo Start r)
      in reporterDo (if failed then Fail bytes else Complete bytes) s)"

section \<open>Its life\<close>

text \<open>The states a reporter writes: started, any number of times running, then at most one end.\<close>

definition lifecycle :: "bool \<Rightarrow> string list \<Rightarrow> bool" where
  "lifecycle finished ss \<longleftrightarrow>
     ss = [] \<and> \<not> finished \<or>
     (\<exists>k. ss = stateStarted # replicate k stateRunning) \<and> \<not> finished \<or>
     (\<exists>k e. ss = stateStarted # replicate k stateRunning @ [e] \<and> e \<in> {stateCompleted, stateFailed}) \<and> finished"

text \<open>The counts never go back, and never beyond a known total.\<close>

definition climbing :: "int64 \<Rightarrow> int64 list \<Rightarrow> bool" where
  "climbing cap ns \<longleftrightarrow>
     sorted (map sint (0 # ns)) \<and> (0 < sint cap \<longrightarrow> (\<forall>n \<in> set ns. sint n \<le> sint cap))"

definition reporterInv :: "reporter \<Rightarrow> bool" where
  "reporterInv r \<longleftrightarrow>
     lifecycle (rpFinished r) (map pgState (rpOutput r)) \<and>
     climbing (rpTotal r) (map pgCompleted (rpOutput r) @ [rpCompleted r]) \<and>
     (rpStartedAt r = None \<longleftrightarrow> rpOutput r = [])"

lemma lifecycle_running: "lifecycle False ss \<Longrightarrow> ss \<noteq> [] \<Longrightarrow> lifecycle False (ss @ [stateRunning])"
proof -
  assume "lifecycle False ss" "ss \<noteq> []"
  then obtain k where "ss = stateStarted # replicate k stateRunning" by (auto simp: lifecycle_def)
  then have "ss @ [stateRunning] = stateStarted # replicate (Suc k) stateRunning"
    by (simp add: replicate_append_same)
  then show ?thesis unfolding lifecycle_def by blast
qed

lemma lifecycle_end:
  assumes "lifecycle False ss" and "ss \<noteq> []" and "e \<in> {stateCompleted, stateFailed}"
  shows "lifecycle True (ss @ [e])"
proof -
  obtain k where "ss = stateStarted # replicate k stateRunning" using assms(1,2) by (auto simp: lifecycle_def)
  then have "ss @ [e] = stateStarted # replicate k stateRunning @ [e]" by simp
  then show ?thesis using assms(3) unfolding lifecycle_def by blast
qed

lemma climbing_again: "climbing cap (ns @ [n]) \<Longrightarrow> climbing cap (ns @ [n, n])"
  by (auto simp: climbing_def sorted_append)

lemma climbing_more:
  assumes "climbing cap (ns @ [n])" and "sint n \<le> sint m" and "0 < sint cap \<Longrightarrow> sint m \<le> sint cap"
  shows "climbing cap (ns @ [m])"
  using assms by (fastforce simp: climbing_def sorted_append)

lemma climbing_le: "climbing cap (ns @ [n]) \<Longrightarrow> 0 < sint cap \<Longrightarrow> sint n \<le> sint cap"
  by (simp add: climbing_def)

lemma barDo_sel [simp]:
  "rpTotal (barDo cs r) = rpTotal r" "rpCompleted (barDo cs r) = rpCompleted r" "rpStartedAt (barDo cs r) = rpStartedAt r"
  "rpFinished (barDo cs r) = rpFinished r" "rpOutput (barDo cs r) = rpOutput r"
  "rpLastReportedAt (barDo cs r) = rpLastReportedAt r" "rpInterval (barDo cs r) = rpInterval r"
  by (simp_all add: barDo_def)

lemma writeState_sel [simp]:
  "rpTotal (writeState st r) = rpTotal r" "rpCompleted (writeState st r) = rpCompleted r"
  "rpStartedAt (writeState st r) = rpStartedAt r" "rpFinished (writeState st r) = rpFinished r"
  "map pgState (rpOutput (writeState st r)) = map pgState (rpOutput r) @ [st]"
  "map pgCompleted (rpOutput (writeState st r)) = map pgCompleted (rpOutput r) @ [rpCompleted r]"
  "rpOutput (writeState st r) \<noteq> []"
  by (simp_all add: writeState_def)

lemma write_inv:
  assumes "reporterInv r" and "\<not> rpFinished r" and "rpOutput r \<noteq> []"
  shows "reporterInv ((writeState stateRunning r)\<lparr>rpLastReportedAt := t\<rparr>)"
    and "st \<in> {stateCompleted, stateFailed} \<Longrightarrow> reporterInv ((finishBar b (writeState st r))\<lparr>rpFinished := True\<rparr>)"
  using assms climbing_again [of "rpTotal r" "map pgCompleted (rpOutput r)" "rpCompleted r"]
  by (auto simp: reporterInv_def finishBar_def lifecycle_running lifecycle_end)

lemma ensureStarted_inv:
  assumes "reporterInv r" and "\<not> rpFinished r"
  shows "reporterInv (ensureStarted r) \<and> \<not> rpFinished (ensureStarted r) \<and> rpOutput (ensureStarted r) \<noteq> [] \<and>
    rpTotal (ensureStarted r) = rpTotal r"
proof (cases "rpStartedAt r")
  case None
  have one: "lifecycle False [stateStarted]" unfolding lifecycle_def by (auto intro: exI [of _ 0])
  have "climbing (rpTotal r) [rpCompleted r]" using assms(1) None by (auto simp: reporterInv_def)
  from climbing_again [of "rpTotal r" "[]" "rpCompleted r"] this have "climbing (rpTotal r) [rpCompleted r, rpCompleted r]" by simp
  with assms None one show ?thesis
    by (simp add: ensureStarted_def readClock_def reporterInv_def writeState_def)
qed (use assms in \<open>simp add: ensureStarted_def reporterInv_def\<close>)

lemma normalized_climbs:
  assumes "climbing (rpTotal r) (ns @ [rpCompleted r])"
  shows "climbing (rpTotal r) (ns @ [normalizedCompletedBytes r n])"
  by (rule climbing_more [OF assms]) (use climbing_le [OF assms] in \<open>auto simp: normalizedCompletedBytes_def\<close>)

lemma advance_inv:
  assumes "reporterInv r" and "\<not> rpFinished r"
  shows "reporterInv (advance n r) \<and> \<not> rpFinished (advance n r) \<and> rpOutput (advance n r) \<noteq> []"
proof -
  let ?s = "ensureStarted r"
  have s: "reporterInv ?s" "\<not> rpFinished ?s" "rpOutput ?s \<noteq> []" using ensureStarted_inv [OF assms] by auto
  have "climbing (rpTotal ?s) (map pgCompleted (rpOutput ?s) @ [normalizedCompletedBytes ?s n])"
    using s(1) by (intro normalized_climbs) (simp add: reporterInv_def)
  with s show ?thesis by (simp add: advance_def updateBar_def Let_def reporterInv_def)
qed

lemma ticked_inv: "reporterInv (r\<lparr>rpTicks := k\<rparr>) = reporterInv r"
  by (simp add: reporterInv_def)

lemma setBytes_inv: "reporterInv r \<Longrightarrow> reporterInv (setBytes n b r)"
  using advance_inv [of r n] write_inv [of "snd (readClock (advance n r))"]
  by (auto simp: setBytes_def readClock_def ticked_inv)

lemma reporterDo_inv: "reporterInv r \<Longrightarrow> reporterInv (reporterDo call r)"
proof (cases call)
  case Start
  assume inv: "reporterInv r"
  then show ?thesis using ensureStarted_inv [of r] Start by (auto simp: startReporter_def reporterInv_def)
next
  case (Fail n)
  assume "reporterInv r"
  then show ?thesis using Fail advance_inv [of r n] write_inv(2) [of "snd (readClock (advance n r))" stateFailed True]
    by (auto simp: failReporter_def readClock_def ticked_inv)
qed (simp_all add: addBytes_def setBytes_inv)

lemma newReporter_inv: "reporterInv (newReporter terminal stage resource totalBytes interval now)"
  by (simp add: newReporter_def reporterInv_def lifecycle_def climbing_def Let_def)

lemma calls_inv: "reporterInv r \<Longrightarrow> reporterInv (fold reporterDo calls r)"
  by (induction calls arbitrary: r) (simp_all add: reporterDo_inv)

lemma finished_stays: "rpFinished r \<Longrightarrow> fold reporterDo calls r = r"
proof (induction calls)
  case (Cons call calls)
  have "reporterDo call r = r"
    using Cons.prems by (cases call) (simp_all add: startReporter_def addBytes_def setBytes_def failReporter_def)
  with Cons show ?case by simp
qed simp

section \<open>Properties\<close>

text \<open>C23. Whatever calls are made on a new progress reporter, in whatever order, and even if adding
  bytes wraps around: it writes nothing or one start, then running records, then at most one end,
  completed or failed, after which no call has any effect; the byte counts it writes never decrease,
  are never negative and never exceed a known total.\<close>

theorem reporter_life:
  "let start = newReporter terminal stage resource totalBytes interval now; r = fold reporterDo calls start
   in lifecycle (rpFinished r) (map pgState (rpOutput r)) \<and> climbing (rpTotal r) (map pgCompleted (rpOutput r)) \<and>
      fold reporterDo (calls @ later) start = (if rpFinished r then r else fold reporterDo later r)"
proof -
  let ?r = "fold reporterDo calls (newReporter terminal stage resource totalBytes interval now)"
  have inv: "reporterInv ?r" by (rule calls_inv [OF newReporter_inv])
  then have "climbing (rpTotal ?r) (map pgCompleted (rpOutput ?r))"
    by (simp add: reporterInv_def climbing_def sorted_append)
  with inv show ?thesis by (simp add: reporterInv_def finished_stays Let_def)
qed

end
