(* ===== verification/Import_Progress.thy ===== *)
theory Import_Progress
  imports Ledger Progress_Reporter
begin

text \<open>
  The committed progress of an import, \<open>src/batch/observability.go\<close>: a reporter that reads the summary
  row of its entity in the ledger and writes records, at most one per interval while it runs. The
  rate, the elapsed time and the value of the percentage are floating point and left out; whether
  a percentage is written is kept.
\<close>

definition importProgressEvent :: string where "importProgressEvent = ''import_progress''"
definition progressStateObservationErr :: string where "progressStateObservationErr = ''observation_error''"
definition defaultProgressInterval :: time where "defaultProgressInterval = 5 * 1000000000"

record committedProgress =
  cpItems :: int
  cpTotalItems :: "int option"
  cpLastProgressAt :: "int option"

definition readCommittedProgress :: "faultPlan \<Rightarrow> order \<Rightarrow> ledger \<Rightarrow> string + committedProgress" where
  "readCommittedProgress fl ord l =
     (if fl ''read progress summary'' then Inl ''read progress summary''
      else case filter (dumpMatches (oRunID ord) (oEntity ord)) (runDumps l) of
        [d] \<Rightarrow> Inr \<lparr>cpItems = duProcessed d, cpTotalItems = duTotalItems d, cpLastProgressAt = duLastProgressAt d\<rparr>
      | _ \<Rightarrow> Inl ''import progress summary is unavailable'')"

record importProgressRecord =
  irEvent :: string
  irState :: string
  irEntity :: string
  irCommittedItems :: int
  irHasPercent :: bool
  irResumed :: bool
  irInitialItems :: int
  irLastProgress :: "int option"
  irError :: string

record jsonReporter =
  jrEntity :: string
  jrResumed :: bool
  jrInterval :: time
  jrStartedAt :: time
  jrLastReportedAt :: time
  jrInitialItems :: int
  jrBaselineSet :: bool
  jrOutput :: "importProgressRecord list"

text \<open>\<open>None\<close> is the reporter that does nothing, for an import outside a tracked run.\<close>

definition newEntityProgressReporter :: "order \<Rightarrow> jsonReporter option" where
  "newEntityProgressReporter ord =
     (if oRunID ord = 0 then None
      else Some \<lparr>jrEntity = oEntity ord, jrResumed = oResume ord, jrInterval = defaultProgressInterval, jrStartedAt = 0,
                 jrLastReportedAt = 0, jrInitialItems = 0, jrBaselineSet = False, jrOutput = []\<rparr>)"

definition writeImportRecord :: "string \<Rightarrow> committedProgress \<Rightarrow> jsonReporter \<Rightarrow> jsonReporter" where
  "writeImportRecord st summary r =
     r\<lparr>jrOutput := jrOutput r @ [\<lparr>irEvent = importProgressEvent, irState = st, irEntity = jrEntity r,
        irCommittedItems = cpItems summary,
        irHasPercent = (case cpTotalItems summary of None \<Rightarrow> False | Some n \<Rightarrow> n > 0 \<or> n = 0),
        irResumed = jrResumed r, irInitialItems = jrInitialItems r, irLastProgress = cpLastProgressAt summary,
        irError = []\<rparr>]\<rparr>"

definition writeObservationError :: "string \<Rightarrow> jsonReporter \<Rightarrow> jsonReporter" where
  "writeObservationError e r =
     r\<lparr>jrOutput := jrOutput r @ [\<lparr>irEvent = importProgressEvent, irState = progressStateObservationErr,
        irEntity = jrEntity r, irCommittedItems = 0, irHasPercent = False, irResumed = jrResumed r,
        irInitialItems = 0, irLastProgress = None, irError = e\<rparr>]\<rparr>"

definition setBaselineIfNeeded :: "committedProgress \<Rightarrow> jsonReporter \<Rightarrow> jsonReporter" where
  "setBaselineIfNeeded summary r =
     (if jrBaselineSet r then r else r\<lparr>jrInitialItems := cpItems summary, jrBaselineSet := True\<rparr>)"

section \<open>Its calls\<close>

text \<open>A call is given the instant it reads and what reading the summary returns.\<close>

definition startProgress :: "time \<Rightarrow> string + committedProgress \<Rightarrow> jsonReporter \<Rightarrow> jsonReporter" where
  "startProgress now summary r =
     (let r' = r\<lparr>jrStartedAt := now, jrLastReportedAt := now\<rparr>
      in case summary of
        Inl e \<Rightarrow> writeObservationError e r'
      | Inr s \<Rightarrow> writeImportRecord stateStarted s (r'\<lparr>jrInitialItems := cpItems s, jrBaselineSet := True\<rparr>))"

definition observeProgress :: "time \<Rightarrow> string + committedProgress \<Rightarrow> jsonReporter \<Rightarrow> jsonReporter" where
  "observeProgress now summary r =
     (if now - jrLastReportedAt r < jrInterval r then r
      else let r' = r\<lparr>jrLastReportedAt := now\<rparr>
        in case summary of
          Inl e \<Rightarrow> writeObservationError e r'
        | Inr s \<Rightarrow> writeImportRecord stateRunning s (setBaselineIfNeeded s r'))"

definition finishProgress :: "bool \<Rightarrow> string + committedProgress \<Rightarrow> jsonReporter \<Rightarrow> jsonReporter" where
  "finishProgress success summary r =
     (case summary of
        Inl e \<Rightarrow> writeObservationError e r
      | Inr s \<Rightarrow> writeImportRecord (if success then stateCompleted else stateFailed) s (setBaselineIfNeeded s r))"

section \<open>The baseline\<close>

text \<open>Every record of a success names the same initial count, that of the first summary read.\<close>

definition baselineInv :: "jsonReporter \<Rightarrow> bool" where
  "baselineInv r \<longleftrightarrow> (\<forall>x \<in> set (jrOutput r). irState x \<noteq> progressStateObservationErr \<longrightarrow>
     jrBaselineSet r \<and> irInitialItems x = jrInitialItems r)"

lemma started_baseline:
  "jrOutput r = [] \<Longrightarrow> baselineInv (startProgress now summary r)"
  by (auto simp: startProgress_def baselineInv_def writeImportRecord_def writeObservationError_def Let_def split: sum.split)

lemma observed_baseline:
  "baselineInv r \<Longrightarrow> baselineInv (observeProgress now summary r)"
  by (auto simp: observeProgress_def setBaselineIfNeeded_def baselineInv_def writeImportRecord_def writeObservationError_def
      Let_def split: sum.split)

lemma finished_baseline:
  "baselineInv r \<Longrightarrow> baselineInv (finishProgress ok summary r)"
  by (auto simp: finishProgress_def setBaselineIfNeeded_def baselineInv_def writeImportRecord_def writeObservationError_def
      split: sum.split)

end
