(* ===== verification/Files.thy ===== *)
theory Files
  imports Dump_Catalog Sha256
begin

text \<open>
  The files of an import: \<open>src/file/file.go\<close>, \<open>FetchImportResources\<close> of \<open>data.go\<close> and
  \<open>cleanupImportFiles\<close> of \<open>runner.go\<close>. A file system maps paths to contents; the fault plan decides
  which calls of the operating system fail. The download library is the argument \<open>download\<close>: given
  a URL, a path and the checksum it is asked to verify, it changes the file system and reports an
  error or none.
\<close>

type_synonym fileSystem = "string \<Rightarrow> string option"
type_synonym downloader = "string \<Rightarrow> string \<Rightarrow> string option \<Rightarrow> fileSystem \<Rightarrow> string option \<times> fileSystem"

section \<open>The handler\<close>

definition exists :: "faultPlan \<Rightarrow> string \<Rightarrow> fileSystem \<Rightarrow> string + bool" where
  "exists fl path fs = (if fl ''stat'' then Inl ''stat'' else Inr (fs path \<noteq> None))"

definition readFile :: "faultPlan \<Rightarrow> string \<Rightarrow> fileSystem \<Rightarrow> string + string" where
  "readFile fl path fs =
     (if fl ''read'' then Inl ''read'' else case fs path of None \<Rightarrow> Inl ''file does not exist'' | Some c \<Rightarrow> Inr c)"

text \<open>\<open>os.Remove\<close> of a file that does not exist is no error.\<close>

definition deleteFile :: "faultPlan \<Rightarrow> string \<Rightarrow> fileSystem \<Rightarrow> string option \<times> fileSystem" where
  "deleteFile fl path fs =
     (if fs path = None then (None, fs) else if fl ''remove'' then (Some ''remove'', fs) else (None, fs(path := None)))"

text \<open>\<open>hex.DecodeString\<close>.\<close>

definition hexVal :: "char \<Rightarrow> nat option" where
  "hexVal c =
     (let n = byte_of c
      in if 48 \<le> n \<and> n \<le> 57 then Some (n - 48)
         else if 97 \<le> n \<and> n \<le> 102 then Some (n - 87)
         else if 65 \<le> n \<and> n \<le> 70 then Some (n - 55)
         else None)"

fun decodeHex :: "string \<Rightarrow> string option" where
  "decodeHex [] = Some []"
| "decodeHex [c] = None"
| "decodeHex (a # b # cs) =
     (case (hexVal a, hexVal b, decodeHex cs) of
        (Some x, Some y, Some bs) \<Rightarrow> Some (char_of (x * 16 + y) # bs)
      | _ \<Rightarrow> None)"

definition getDecodedChecksum :: "string \<Rightarrow> string + string" where
  "getDecodedChecksum checksum =
     (case decodeHex checksum of None \<Rightarrow> Inl ''failed to decode checksum'' | Some s \<Rightarrow> Inr s)"

definition verifyChecksum :: "faultPlan \<Rightarrow> string \<Rightarrow> string \<Rightarrow> fileSystem \<Rightarrow> string option" where
  "verifyChecksum fl path checksum fs =
     (case getDecodedChecksum checksum of
        Inl e \<Rightarrow> Some e
      | Inr s \<Rightarrow>
          (case readFile fl path fs of
             Inl e \<Rightarrow> Some e
           | Inr c \<Rightarrow> if s \<noteq> sha256 c then Some ''checksum not match'' else None))"

text \<open>\<open>Copy\<close> creates the target and refuses one that exists; a copy that fails leaves what it has
  written so far, the length \<open>n\<close>.\<close>

definition copyFile :: "faultPlan \<Rightarrow> nat \<Rightarrow> string \<Rightarrow> string \<Rightarrow> fileSystem \<Rightarrow> string option \<times> fileSystem" where
  "copyFile fl n source target fs =
     (case fs source of
        None \<Rightarrow> (Some ''file does not exist'', fs)
      | Some c \<Rightarrow>
          if fl ''open source'' then (Some ''open source'', fs)
          else if fs target \<noteq> None then (Some ''file exists'', fs)
          else if fl ''open target'' then (Some ''open target'', fs)
          else if fl ''copy'' then (Some ''copy'', fs(target \<mapsto> take n c))
          else (None, fs(target \<mapsto> c)))"

text \<open>\<open>Write\<close> truncates the file first; the error of the write comes before that of the close.\<close>

definition writeFile :: "faultPlan \<Rightarrow> nat \<Rightarrow> string \<Rightarrow> string \<Rightarrow> fileSystem \<Rightarrow> string option \<times> fileSystem" where
  "writeFile fl n path content fs =
     (if fl ''open'' then (Some ''open'', fs)
      else if fl ''write'' then (Some ''write'', fs(path \<mapsto> take n content))
      else if fl ''close'' then (Some ''close'', fs(path \<mapsto> content))
      else (None, fs(path \<mapsto> content)))"

text \<open>\<open>execGrabReq\<close>: after a failed download the file is removed, and an error of that is ignored.\<close>

definition execGrabReq :: "faultPlan \<Rightarrow> downloader \<Rightarrow> string \<Rightarrow> string \<Rightarrow> string option \<Rightarrow> fileSystem \<Rightarrow> string option \<times> fileSystem" where
  "execGrabReq fl download uri path chk fs =
     (case download uri path chk fs of
        (None, fs') \<Rightarrow> (None, fs')
      | (Some e, fs') \<Rightarrow> (Some (''failed to download '' @ e), snd (deleteFile fl path fs')))"

definition fetch :: "faultPlan \<Rightarrow> downloader \<Rightarrow> string \<Rightarrow> string \<Rightarrow> fileSystem \<Rightarrow> string option \<times> fileSystem" where
  "fetch fl download uri path fs =
     (if fl ''create download request'' then (Some ''create download request'', fs)
      else execGrabReq fl download uri path None fs)"

definition downloadChecked :: "faultPlan \<Rightarrow> downloader \<Rightarrow> string \<Rightarrow> string \<Rightarrow> string \<Rightarrow> fileSystem \<Rightarrow> string option \<times> fileSystem" where
  "downloadChecked fl download uri path checksum fs =
     (case getDecodedChecksum checksum of
        Inl e \<Rightarrow> (Some e, fs)
      | Inr s \<Rightarrow>
          if fl ''create download request'' then (Some ''create download request'', fs)
          else execGrabReq fl download uri path (Some s) fs)"

definition fetchAndCheckContext :: "faultPlan \<Rightarrow> downloader \<Rightarrow> string \<Rightarrow> string \<Rightarrow> string \<Rightarrow> fileSystem \<Rightarrow> string option \<times> fileSystem" where
  "fetchAndCheckContext fl download uri path checksum fs =
     (case exists fl path fs of
        Inl e \<Rightarrow> (Some e, fs)
      | Inr found \<Rightarrow>
          if \<not> found then downloadChecked fl download uri path checksum fs
          else if verifyChecksum fl path checksum fs = None then (None, fs)
          else (case deleteFile fl path fs of
            (Some e, fs') \<Rightarrow> (Some e, fs')
          | (None, fs') \<Rightarrow> downloadChecked fl download uri path checksum fs'))"

section \<open>The files of a plan\<close>

fun fetchDumps :: "faultPlan \<Rightarrow> downloader \<Rightarrow> (string \<times> string) list \<Rightarrow> dump list \<Rightarrow> fileSystem \<Rightarrow> string option \<times> fileSystem" where
  "fetchDumps fl download resources [] fs = (None, fs)"
| "fetchDumps fl download resources (d # ds) fs =
     (case map_of resources (resourceKey (dEntity d)) of
        None \<Rightarrow> (Some (''missing '' @ dEntity d @ '' import resource path''), fs)
      | Some path \<Rightarrow>
          if fl ''mkdir'' then (Some (''create '' @ dEntity d @ '' import directory''), fs)
          else (case fetchAndCheckContext fl download (dataDownloadURL (dURI d)) path (dChecksum d) fs of
            (Some e, fs') \<Rightarrow> (Some e, fs')
          | (None, fs') \<Rightarrow> fetchDumps fl download resources ds fs'))"

definition fetchImportResources :: "faultPlan \<Rightarrow> downloader \<Rightarrow> importPlan \<Rightarrow> fileSystem \<Rightarrow> string option \<times> fileSystem" where
  "fetchImportResources fl download plan = fetchDumps fl download (plResources plan) (plDumps plan)"

text \<open>\<open>errors.Join\<close>: nothing if both are nothing.\<close>

definition joinErrors :: "string option \<Rightarrow> string option \<Rightarrow> string option" where
  "joinErrors a b =
     (case (a, b) of
        (None, _) \<Rightarrow> b
      | (Some x, None) \<Rightarrow> Some x
      | (Some x, Some y) \<Rightarrow> Some (x @ CHR 0x0A # y))"

fun deleteAll :: "(string \<Rightarrow> faultPlan) \<Rightarrow> string list \<Rightarrow> string option \<Rightarrow> fileSystem \<Rightarrow> string option \<times> fileSystem" where
  "deleteAll fl [] e fs = (e, fs)"
| "deleteAll fl (path # paths) e fs =
     (case deleteFile (fl path) path fs of
        (bad, fs') \<Rightarrow> deleteAll fl paths (joinErrors e (map_option (\<lambda>x. ''delete '' @ path @ '': '' @ x) bad)) fs')"

definition cleanupImportFiles :: "(string \<Rightarrow> faultPlan) \<Rightarrow> importPlan \<Rightarrow> fileSystem \<Rightarrow> string option \<times> fileSystem" where
  "cleanupImportFiles fl plan = deleteAll fl (sort (remdups (map snd (plResources plan)))) None"

section \<open>What is on disk\<close>

text \<open>What the download library documents: with a checksum, success means that the file is there and
  has it; no other file is touched.\<close>

definition downloadOK :: "downloader \<Rightarrow> bool" where
  "downloadOK download \<longleftrightarrow>
     (\<forall>uri path s fs e fs'. download uri path (Some s) fs = (e, fs') \<longrightarrow>
        (e = None \<longrightarrow> (\<exists>c. fs' path = Some c \<and> sha256 c = s)) \<and> (\<forall>p. p \<noteq> path \<longrightarrow> fs' p = fs p))"

definition verified :: "string \<Rightarrow> string \<Rightarrow> fileSystem \<Rightarrow> bool" where
  "verified path checksum fs \<longleftrightarrow> (case fs path of None \<Rightarrow> False | Some c \<Rightarrow> decodeHex checksum = Some (sha256 c))"

lemma deleteFile_other: "deleteFile fl path fs = (e, fs') \<Longrightarrow> p \<noteq> path \<Longrightarrow> fs' p = fs p"
  by (auto simp: deleteFile_def split: if_splits)

lemma deleteFile_gone: "deleteFile fl path fs = (None, fs') \<Longrightarrow> fs' path = None"
  by (auto simp: deleteFile_def split: if_splits)

lemma downloadChecked_result:
  assumes "downloadOK download" and "downloadChecked fl download uri path checksum fs = (e, fs')"
  shows "(e = None \<longrightarrow> verified path checksum fs') \<and> (\<forall>p. p \<noteq> path \<longrightarrow> fs' p = fs p)"
proof -
  consider (none) "e \<noteq> None" "fs' = fs" | (run) s where "decodeHex checksum = Some s" "execGrabReq fl download uri path (Some s) fs = (e, fs')"
    using assms(2) by (auto simp: downloadChecked_def getDecodedChecksum_def split: option.splits if_splits)
  then show ?thesis
  proof cases
    case run
    obtain d g where d: "download uri path (Some s) fs = (d, g)" by fastforce
    then have g: "d = None \<longrightarrow> (\<exists>c. g path = Some c \<and> sha256 c = s)" "\<forall>p. p \<noteq> path \<longrightarrow> g p = fs p"
      using assms(1) unfolding downloadOK_def by blast+
    show ?thesis
    proof (cases d)
      case None
      then show ?thesis using run d g by (auto simp: execGrabReq_def verified_def)
    next
      case (Some x)
      then have "e \<noteq> None" "fs' = snd (deleteFile fl path g)" using run(2) d by (auto simp: execGrabReq_def)
      then show ?thesis using g(2) deleteFile_other [of fl path g "fst (deleteFile fl path g)" fs'] by (metis prod.collapse)
    qed
  qed auto
qed

lemma fetchAndCheck_result:
  assumes "downloadOK download" and "fetchAndCheckContext fl download uri path checksum fs = (e, fs')"
  shows "(e = None \<longrightarrow> verified path checksum fs') \<and> (\<forall>p. p \<noteq> path \<longrightarrow> fs' p = fs p)"
proof -
  consider (same) "fs' = fs" "e = None \<longrightarrow> verifyChecksum fl path checksum fs = None"
    | (delete) "deleteFile fl path fs = (e, fs')" "e \<noteq> None"
    | (download) g where "downloadChecked fl download uri path checksum g = (e, fs')" "\<forall>p. p \<noteq> path \<longrightarrow> g p = fs p"
    using assms(2) deleteFile_other [of fl path fs]
    by (auto simp: fetchAndCheckContext_def split: sum.splits if_splits prod.splits option.splits)
  then show ?thesis
  proof cases
    case same
    then show ?thesis
      by (auto simp: verifyChecksum_def verified_def getDecodedChecksum_def readFile_def split: sum.splits option.splits if_splits)
  next
    case delete
    then show ?thesis using deleteFile_other [of fl path fs e fs'] by auto
  next
    case download
    from downloadChecked_result [OF assms(1) this(1)] download(2) show ?thesis by metis
  qed
qed

lemma fetchDumps_result:
  assumes "downloadOK download" and "fetchDumps fl download rs ds fs = (None, fs')"
    and "distinct (map (\<lambda>d. map_of rs (resourceKey (dEntity d))) ds)"
  shows "list_all (\<lambda>d. case map_of rs (resourceKey (dEntity d)) of None \<Rightarrow> False | Some p \<Rightarrow> verified p (dChecksum d) fs') ds \<and>
    (\<forall>p. Some p \<notin> (\<lambda>d. map_of rs (resourceKey (dEntity d))) ` set ds \<longrightarrow> fs' p = fs p)"
  using assms(2,3)
proof (induction ds arbitrary: fs)
  case (Cons d ds)
  let ?path = "\<lambda>d. map_of rs (resourceKey (dEntity d))"
  obtain p where p: "?path d = Some p" using Cons.prems(1) by (cases "?path d") auto
  obtain g where g: "fetchAndCheckContext fl download (dataDownloadURL (dURI d)) p (dChecksum d) fs = (None, g)"
      "fetchDumps fl download rs ds g = (None, fs')"
    using Cons.prems(1) p by (auto split: if_splits prod.splits option.splits)
  have one: "verified p (dChecksum d) g" "\<forall>q. q \<noteq> p \<longrightarrow> g q = fs q" using fetchAndCheck_result [OF assms(1) g(1)] by auto
  have IH: "list_all (\<lambda>d. case ?path d of None \<Rightarrow> False | Some p \<Rightarrow> verified p (dChecksum d) fs') ds"
      "\<forall>q. Some q \<notin> ?path ` set ds \<longrightarrow> fs' q = g q"
    using Cons.IH [OF g(2)] Cons.prems(2) by auto
  have "Some p \<notin> ?path ` set ds" using Cons.prems(2) p by (auto simp: image_iff)
  then have "verified p (dChecksum d) fs'" using one(1) IH(2) by (simp add: verified_def)
  with IH one p show ?case by auto
qed simp

lemma deleteAll_result:
  "deleteAll fl paths e fs = (e', fs') \<Longrightarrow>
     (e' = None \<longrightarrow> e = None \<and> (\<forall>p \<in> set paths. fs' p = None)) \<and> (\<forall>p. p \<notin> set paths \<longrightarrow> fs' p = fs p) \<and>
     (\<forall>p. fs p = None \<longrightarrow> fs' p = None)"
proof (induction paths arbitrary: e fs)
  case (Cons path paths)
  obtain bad g where d: "deleteFile (fl path) path fs = (bad, g)" by fastforce
  have g: "\<forall>p. p \<noteq> path \<longrightarrow> g p = fs p" "bad = None \<longrightarrow> g path = None" "\<forall>p. fs p = None \<longrightarrow> g p = None"
    using d by (auto simp: deleteFile_def split: if_splits)
  have "joinErrors e (map_option f bad) = None \<longleftrightarrow> e = None \<and> bad = None" for f
    by (cases e; cases bad) (auto simp: joinErrors_def)
  with Cons.IH [OF Cons.prems [unfolded deleteAll.simps d prod.case]] g show ?case by auto
qed simp

lemma cleanup_result:
  assumes "cleanupImportFiles fl plan fs = (e, fs')"
  shows "e = None \<Longrightarrow> p \<in> snd ` set (plResources plan) \<Longrightarrow> fs' p = None"
    and "p \<notin> snd ` set (plResources plan) \<Longrightarrow> fs' p = fs p"
  using deleteAll_result [OF assms [unfolded cleanupImportFiles_def]] by auto

section \<open>Property\<close>

text \<open>C16. When the files of a plan have been fetched without an error, every dump of the plan has a file
  at its path whose SHA-256 is the checksum of the catalog, whether it was downloaded or already
  there, and no other file has changed.\<close>

theorem import_files_verified:
  assumes "downloadOK download" and "fetchImportResources fl download plan fs = (None, fs')"
    and "distinct (map (\<lambda>d. map_of (plResources plan) (resourceKey (dEntity d))) (plDumps plan))"
  shows "list_all (\<lambda>d. case map_of (plResources plan) (resourceKey (dEntity d)) of
        None \<Rightarrow> False | Some p \<Rightarrow> verified p (dChecksum d) fs') (plDumps plan) \<and>
    (\<forall>p. p \<notin> snd ` set (plResources plan) \<longrightarrow> fs' p = fs p)"
proof -
  note r = fetchDumps_result [OF assms(1) assms(2) [unfolded fetchImportResources_def] assms(3)]
  have "fs' p = fs p" if "p \<notin> snd ` set (plResources plan)" for p
  proof -
    have "map_of (plResources plan) k \<noteq> Some p" for k using that map_of_SomeD [of "plResources plan" k p] by force
    then have "Some p \<notin> (\<lambda>d. map_of (plResources plan) (resourceKey (dEntity d))) ` set (plDumps plan)" by (metis imageE)
    with r show ?thesis by blast
  qed
  with r show ?thesis by blast
qed

text \<open>A library that delivers the empty file when asked for its checksum.\<close>

definition demoDownload :: downloader where
  "demoDownload = (\<lambda>uri path chk fs.
     case chk of
       None \<Rightarrow> (None, fs(path \<mapsto> []))
     | Some s \<Rightarrow> if s = sha256 [] then (None, fs(path \<mapsto> [])) else (Some ''checksum mismatch'', fs))"

lemma demoDownload_OK: "downloadOK demoDownload"
  by (auto simp: downloadOK_def demoDownload_def split: if_splits)

definition encodeHex :: "string \<Rightarrow> string" where
  "encodeHex bs = concat (map (\<lambda>c. [hexDigit (byte_of c div 16), hexDigit (byte_of c mod 16)]) bs)"

lemma hexVal_hexDigit: "n < 16 \<Longrightarrow> hexVal (hexDigit n) = Some n"
  by (auto simp: hexVal_def hexDigit_def Let_def take_bit_eq_mod)

lemma decode_encode: "decodeHex (encodeHex bs) = Some bs"
proof (induction bs)
  case (Cons c bs)
  have "byte_of c div 16 < 16" using nat_of_char_less_256 [of c] by (simp add: less_mult_imp_div_less)
  then show ?case using Cons by (simp add: encodeHex_def hexVal_hexDigit)
qed (simp add: encodeHex_def)

definition demoPlan :: importPlan where
  "demoPlan = \<lparr>plResources = [(''artists'', ''/d/a.gz'')],
     plDumps = [\<lparr>dETag = [], dDate = 20240201, dEntity = ''artist'', dChecksum = encodeHex (sha256 []), dSize = 0, dURI = ''data/a.gz''\<rparr>]\<rparr>"

lemma demoPlan_key: "resourceKey ''artist'' = ''artists''"
  by (simp add: resourceKey_def trimSuffix_def suffix_def)

lemma demoPlan_fetched: "fetchImportResources (\<lambda>_. False) demoDownload demoPlan (\<lambda>_. None) = (None, [''/d/a.gz'' \<mapsto> []])"
  by (simp add: fetchImportResources_def demoPlan_def demoPlan_key fetchAndCheckContext_def exists_def downloadChecked_def
      getDecodedChecksum_def decode_encode execGrabReq_def demoDownload_def)

theorem import_files_verified_witness:
  "verified ''/d/a.gz'' (encodeHex (sha256 [])) [''/d/a.gz'' \<mapsto> []]"
  using import_files_verified [OF demoDownload_OK demoPlan_fetched] by (simp add: demoPlan_def demoPlan_key)

end
