(* ===== verification/Import_Run.thy ===== *)
theory Import_Run
  imports Files Preflight Coordinator_Spec Cache
begin

text \<open>
  A whole import, \<open>Runner.Run\<close> of \<open>src/batch/runner.go\<close> with its helpers, \<open>helper.go\<close> and
  \<open>batch.go\<close>: schema and connection, catalog and plan, preflight, admission, files, caches, steps,
  completion, cleanup.

  Everything it calls that is modelled elsewhere is called as modelled. The rest is an environment:
  the migrations (\<open>reDDL\<close>), what the provider serves (\<open>reFetch\<close>, \<open>reQuery\<close>), the download library,
  the identifiers a table streams, and the steps of the interface \<open>Batch\<close>, which act on the whole
  world. Each phase has its own fault plan: the context of a run can be cancelled, which makes
  statements fail, while completion runs on a context that is not. A panic is an outcome.
\<close>

section \<open>Configuration and world\<close>

record runConfig =
  rcDatabaseURL :: string
  rcSchema :: string
  rcDumpMonth :: string
  rcDataDir :: string
  rcEntities :: "string list"
  rcSelected :: "string \<Rightarrow> bool"
  rcChunk :: int
  rcWorkers :: int
  rcForce :: bool
  rcAllowDowngrade :: bool
  rcCleanup :: bool

definition hasArtist :: "runConfig \<Rightarrow> bool" where "hasArtist k = rcSelected k ''artists''"
definition hasLabel :: "runConfig \<Rightarrow> bool" where "hasLabel k = rcSelected k ''labels''"
definition hasMaster :: "runConfig \<Rightarrow> bool" where "hasMaster k = rcSelected k ''masters''"
definition hasRelease :: "runConfig \<Rightarrow> bool" where "hasRelease k = rcSelected k ''releases''"

lemmas has_defs = hasArtist_def hasLabel_def hasMaster_def hasRelease_def

record 'x runWorld =
  rwPg :: "pgCatalog option"
  rwCoord :: coordinator
  rwServer :: "'x server"
  rwFiles :: fileSystem
  rwCaches :: caches

record 'x runEnv =
  reSchema :: "'x schema"
  reFaults :: "string \<Rightarrow> faultPlan"
  reVersion :: string
  reSession :: int
  rePrepareNow :: int
  reCompleteNow :: int
  reConnect :: "string \<Rightarrow> string \<Rightarrow> string option"
  reDDL :: "string \<Rightarrow> 'x server \<Rightarrow> string option \<times> 'x server"
  reFetch :: fetcher
  reQuery :: "string \<Rightarrow> string \<Rightarrow> string"
  reDownload :: downloader
  reIDs :: "string \<Rightarrow> 'x catalogDB \<Rightarrow> string + int32 list \<times> string option"
  reStep :: "entityType \<Rightarrow> order \<Rightarrow> 'x runWorld \<Rightarrow> string result \<times> 'x runWorld"
  reCoordText :: "coordError \<Rightarrow> string"

datatype runOutcome = Panicked | Returned "string option"

definition overDB :: "('x catalogDB \<Rightarrow> 'a \<times> 'x catalogDB) \<Rightarrow> 'x runWorld \<Rightarrow> 'a \<times> 'x runWorld" where
  "overDB f w = (case f (svDB (rwServer w)) of (r, db) \<Rightarrow> (r, w\<lparr>rwServer := (rwServer w)\<lparr>svDB := db\<rparr>\<rparr>))"

section \<open>The plan\<close>

definition refreshDumpCatalog :: "'x runEnv \<Rightarrow> runConfig \<Rightarrow> 'x runWorld \<Rightarrow> string option \<times> 'x runWorld" where
  "refreshDumpCatalog env k w =
     (case overDB (updateSelectedData (reSchema env) (reFaults env ''refresh'') (reFetch env) (reQuery env)
         (rcEntities k) (rcDumpMonth k)) w of
        (Inl e, w') \<Rightarrow> (Some e, w')
      | (Inr n, w') \<Rightarrow> (None, w'))"

definition planFrom :: "'x runEnv \<Rightarrow> string \<Rightarrow> runConfig \<Rightarrow> 'x runWorld \<Rightarrow> string + importPlan" where
  "planFrom env phase k w =
     resolveImportPlan (reFaults env phase) (rcEntities k) (rcDumpMonth k) (rcDataDir k) (svDB (rwServer w))"

definition resolveCatalogPlan :: "'x runEnv \<Rightarrow> runConfig \<Rightarrow> 'x runWorld \<Rightarrow> (string + importPlan) \<times> 'x runWorld" where
  "resolveCatalogPlan env k w =
     (if rcDumpMonth k \<noteq> [] then
        (case planFrom env ''resolve cached'' k w of
           Inr plan \<Rightarrow> (Inr plan, w)
         | Inl cacheErr \<Rightarrow>
             (case refreshDumpCatalog env k w of
                (Some e, w') \<Rightarrow> (Inl (the (joinErrors (Some e) (Some cacheErr))), w')
              | (None, w') \<Rightarrow> (planFrom env ''resolve'' k w', w')))
      else
        (case refreshDumpCatalog env k w of
           (refreshErr, w') \<Rightarrow>
             (case planFrom env ''resolve'' k w' of
                Inl e \<Rightarrow> (Inl (the (joinErrors refreshErr (Some e))), w')
              | Inr plan \<Rightarrow> (Inr plan, w'))))"

section \<open>Caches and steps\<close>

definition referenceLoads :: "runConfig \<Rightarrow> (bool \<times> string) list" where
  "referenceLoads k =
     [((hasMaster k \<or> hasRelease k) \<and> \<not> hasArtist k, ''artist''),
      (hasRelease k \<and> \<not> hasLabel k, ''label''),
      (hasRelease k \<and> \<not> hasMaster k, ''master'')]"

definition addReferences :: "string \<Rightarrow> int32 list \<Rightarrow> caches \<Rightarrow> caches" where
  "addReferences table ids cs =
     (if table = ''artist'' then cs\<lparr>ArtistIDs := fold addID ids (ArtistIDs cs)\<rparr>
      else if table = ''label'' then cs\<lparr>LabelIDs := fold addID ids (LabelIDs cs)\<rparr>
      else cs\<lparr>MasterIDs := fold addID ids (MasterIDs cs)\<rparr>)"

text \<open>A stream returns the identifiers it has read and the error it ended with, if any.\<close>

fun loadReferences :: "'x runEnv \<Rightarrow> (bool \<times> string) list \<Rightarrow> 'x runWorld \<Rightarrow> string option \<times> 'x runWorld" where
  "loadReferences env [] w = (None, w)"
| "loadReferences env ((required, table) # loads) w =
     (if \<not> required then loadReferences env loads w
      else case reIDs env table (svDB (rwServer w)) of
        Inl e \<Rightarrow> (Some (''stream '' @ table @ '' identifiers: '' @ e), w)
      | Inr (ids, ended) \<Rightarrow>
          (let w' = w\<lparr>rwCaches := addReferences table ids (rwCaches w)\<rparr>
           in case ended of
                Some e \<Rightarrow> (Some (''read '' @ table @ '' identifiers: '' @ e), w')
              | None \<Rightarrow> loadReferences env loads w'))"

definition preloadReferenceIDs :: "'x runEnv \<Rightarrow> runConfig \<Rightarrow> 'x runWorld \<Rightarrow> string option \<times> 'x runWorld" where
  "preloadReferenceIDs env k = loadReferences env (referenceLoads k)"

definition stepDefinitions :: "runConfig \<Rightarrow> (bool \<times> entityType \<times> string) list" where
  "stepDefinitions k =
     [(hasArtist k, ''artist'', ''artists''), (hasLabel k, ''label'', ''labels''),
      (hasMaster k, ''master'', ''masters''), (hasRelease k, ''release'', ''releases'')]"

definition resourcePath :: "importPlan \<Rightarrow> string \<Rightarrow> string" where
  "resourcePath plan key = (case map_of (plResources plan) key of None \<Rightarrow> [] | Some p \<Rightarrow> p)"

definition buildImportSteps :: "runConfig \<Rightarrow> importPlan \<Rightarrow> int \<Rightarrow> bool \<Rightarrow> (entityType \<times> order) list option" where
  "buildImportSteps k plan runID resume =
     those (map (\<lambda>(_, e, key). map_option (Pair e)
         (newTrackedOrder (rcChunk k) (rcWorkers k) (resourcePath plan key) runID e resume))
       (filter fst (stepDefinitions k)))"

fun runSteps :: "'x runEnv \<Rightarrow> (entityType \<times> order) list \<Rightarrow> int \<Rightarrow> 'x runWorld \<Rightarrow> string option \<times> int \<times> 'x runWorld" where
  "runSteps env [] updated w = (None, updated, w)"
| "runSteps env ((e, ord) # steps) updated w =
     (case reStep env e ord w of
        (r, w') \<Rightarrow> if isErr r then (err r, updated + result.count r, w') else runSteps env steps (updated + result.count r) w')"

section \<open>Completion\<close>

definition finalizeImport ::
  "'x runEnv \<Rightarrow> importPlan \<Rightarrow> bool \<Rightarrow> string option \<Rightarrow> 'x runWorld \<Rightarrow> string option \<times> 'x runWorld" where
  "finalizeImport env plan cleanup runErr w =
     (case complete (reSchema env) (reFaults env ''complete'') (reCompleteNow env) runErr (rwCoord w, rwServer w) of
        (completionErr, (c, s)) \<Rightarrow>
          (let w' = w\<lparr>rwCoord := c, rwServer := s\<rparr>; finalErr = joinErrors runErr (map_option (reCoordText env) completionErr)
           in if finalErr \<noteq> None \<or> \<not> cleanup then (finalErr, w')
              else (case cleanupImportFiles (\<lambda>_. reFaults env ''cleanup'') plan (rwFiles w') of
                (e, fs) \<Rightarrow> (e, w'\<lparr>rwFiles := fs\<rparr>))))"

definition returning :: "string option \<times> 'x runWorld \<Rightarrow> runOutcome \<times> 'x runWorld" where
  "returning x = (Returned (fst x), snd x)"

section \<open>Run\<close>

text \<open>From the admission of the run on, every way out goes through completion.\<close>

definition importAdmitted ::
  "'x runEnv \<Rightarrow> runConfig \<Rightarrow> importPlan \<Rightarrow> importPreparation \<Rightarrow> 'x runWorld \<Rightarrow> runOutcome \<times> 'x runWorld" where
  "importAdmitted env k plan p w =
     (case preflightImportDependencies (reSchema env) (reFaults env ''second preflight'') (Some (svDB (rwServer w)))
         (map Some (plDumps plan)) of
        Some e \<Rightarrow> returning (finalizeImport env plan False (Some e) w)
      | None \<Rightarrow>
     (case fetchImportResources (reFaults env ''fetch'') (reDownload env) plan (rwFiles w) of
        (Some e, fs) \<Rightarrow> returning (finalizeImport env plan False (Some e) (w\<lparr>rwFiles := fs\<rparr>))
      | (None, fs) \<Rightarrow>
     (case preloadReferenceIDs env k (w\<lparr>rwFiles := fs, rwCaches := resetIDs (rwCaches w)\<rparr>) of
        (Some e, w') \<Rightarrow> returning (finalizeImport env plan False (Some e) w')
      | (None, w') \<Rightarrow>
     (case buildImportSteps k plan (ipRun p) (ipResumedFrom p \<noteq> 0) of
        None \<Rightarrow> (Panicked, w')
      | Some steps \<Rightarrow>
     (case runSteps env steps 0 w' of
        (e, updated, w'') \<Rightarrow> returning (finalizeImport env plan (rcCleanup k) e w''))))))"

definition importPlanned :: "'x runEnv \<Rightarrow> runConfig \<Rightarrow> importPlan \<Rightarrow> 'x runWorld \<Rightarrow> runOutcome \<times> 'x runWorld" where
  "importPlanned env k plan w =
     (case preflightImportDependencies (reSchema env) (reFaults env ''preflight'') (Some (svDB (rwServer w)))
         (map Some (plDumps plan)) of
        Some e \<Rightarrow> (Returned (Some e), w)
      | None \<Rightarrow>
     (case prepare (reSchema env) (reFaults env ''prepare'') (rePrepareNow env) (reSession env) (map Some (plDumps plan))
         (rcChunk k) (rcForce k) (rcAllowDowngrade k) (newImportExecutionCoordinator (reVersion env), rwServer w) of
        (Inl e, (c, s)) \<Rightarrow> (Returned (Some (reCoordText env e)), w\<lparr>rwCoord := c, rwServer := s\<rparr>)
      | (Inr p, (c, s)) \<Rightarrow>
          (let w' = w\<lparr>rwCoord := c, rwServer := s\<rparr>
           in if ipSkipped p then
                (if \<not> rcCleanup k then (Returned None, w')
                 else (case cleanupImportFiles (\<lambda>_. reFaults env ''cleanup'') plan (rwFiles w') of
                   (e, fs) \<Rightarrow> (Returned e, w'\<lparr>rwFiles := fs\<rparr>)))
              else importAdmitted env k plan p w')))"

definition run :: "'x runEnv \<Rightarrow> runConfig \<Rightarrow> 'x runWorld \<Rightarrow> runOutcome \<times> 'x runWorld" where
  "run env k w =
     (case parseSchema (rcSchema k) of
        Inl e \<Rightarrow> (Returned (Some e), w)
      | Inr schema \<Rightarrow>
     (case reConnect env (rcDatabaseURL k) (rcSchema k) of
        Some e \<Rightarrow> (Returned (Some e), w)
      | None \<Rightarrow>
     (case configurePool (reFaults env ''pool'') (rcWorkers k) of
        Inl e \<Rightarrow> (Returned (Some e), w)
      | Inr poolSize \<Rightarrow>
     (case ensureSchema (reFaults env ''schema'') schema (rwPg w) of
        (Inl e, pg) \<Rightarrow> (Returned (Some e), w\<lparr>rwPg := pg\<rparr>)
      | (Inr created, pg) \<Rightarrow>
     (case reDDL env (rcSchema k) (rwServer w) of
        (Some e, s) \<Rightarrow> (Returned (Some e), w\<lparr>rwPg := pg, rwServer := s\<rparr>)
      | (None, s) \<Rightarrow>
     (case resolveCatalogPlan env k (w\<lparr>rwPg := pg, rwServer := s\<rparr>) of
        (Inl e, w') \<Rightarrow> (Returned (Some e), w')
      | (Inr plan, w') \<Rightarrow>
          if reFaults env ''open'' ''open SQL connection pool'' then (Returned (Some ''open SQL connection pool''), w')
          else importPlanned env k plan w'))))))"

section \<open>Every way out\<close>

text \<open>What the run relies on: migrations leave the advisory locks alone; the steps leave the
  coordinator, the locks and the table of runs alone.\<close>

definition quietSteps :: "'x runEnv \<Rightarrow> bool" where
  "quietSteps env \<longleftrightarrow>
     (\<forall>e ord w r w'. reStep env e ord w = (r, w') \<longrightarrow>
        rwCoord w' = rwCoord w \<and> svLocks (rwServer w') = svLocks (rwServer w) \<and>
        runs (dbLedger (svDB (rwServer w'))) = runs (dbLedger (svDB (rwServer w))))"

definition quietDDL :: "'x runEnv \<Rightarrow> bool" where
  "quietDDL env \<longleftrightarrow> (\<forall>v s e s'. reDDL env v s = (e, s') \<longrightarrow> svLocks s' = svLocks s)"

definition sameRun :: "'x runWorld \<Rightarrow> 'x runWorld \<Rightarrow> bool" where
  "sameRun w w' \<longleftrightarrow> rwCoord w' = rwCoord w \<and> svLocks (rwServer w') = svLocks (rwServer w) \<and>
     runs (dbLedger (svDB (rwServer w'))) = runs (dbLedger (svDB (rwServer w)))"

lemma sameRun_trans: "sameRun a b \<Longrightarrow> sameRun b c \<Longrightarrow> sameRun a c"
  by (simp add: sameRun_def)

lemma loadReferences_same: "loadReferences env loads w = (e, w') \<Longrightarrow> sameRun w w'"
proof (induction env loads w arbitrary: e w' rule: loadReferences.induct)
  case (2 env required table loads w)
  show ?case
  proof (cases "required")
    case True
    with "2.prems" "2.IH"(2) show ?thesis
      by (fastforce simp: Let_def sameRun_def split: sum.splits option.splits)
  qed (use 2 in auto)
qed (simp add: sameRun_def)

lemma runSteps_same: "quietSteps env \<Longrightarrow> runSteps env steps n w = (e, m, w') \<Longrightarrow> sameRun w w'"
proof (induction steps arbitrary: n w)
  case (Cons s steps)
  obtain a ord r w1 where s: "s = (a, ord)" and r: "reStep env a ord w = (r, w1)" by (metis surj_pair)
  have "sameRun w w1" using Cons.prems(1) r unfolding quietSteps_def sameRun_def by blast
  with Cons s r sameRun_trans show ?case by (fastforce split: if_splits)
qed (simp add: sameRun_def)

lemma buildImportSteps_ok:
  "0 < rcChunk k \<Longrightarrow> 0 < rcWorkers k \<Longrightarrow> 0 < i \<Longrightarrow> buildImportSteps k plan i resume \<noteq> None"
  by (auto simp: buildImportSteps_def stepDefinitions_def newTrackedOrder_def newOrder_def)

text \<open>A run that holds its session and its locks.\<close>

definition holding :: "int \<Rightarrow> (int \<times> int) list \<Rightarrow> coordinator \<Rightarrow> 'x server \<Rightarrow> bool" where
  "holding session locks c s \<longleftrightarrow> cRunID c \<noteq> 0 \<and> cConn c = Some session \<and>
     svLocks s = locks @ map (\<lambda>k. (k, session)) (cLockKeys c)"

definition closed :: "'x runEnv \<Rightarrow> string \<Rightarrow> (int \<times> int) list \<Rightarrow> 'x runWorld \<Rightarrow> bool" where
  "closed env phase locks w \<longleftrightarrow> idle (rwCoord w) \<and>
     givenBack (reFaults env phase) (reSession env) locks (svLocks (rwServer w))"

lemma complete_closed:
  assumes "complete sc fl now e (c, s) = (r, (c', s'))" and "holding session locks c s"
  shows "idle c' \<and> givenBack fl session locks (svLocks s')"
proof -
  from assms(2) have c: "cConn c = Some session" "cRunID c \<noteq> 0"
    and l: "svLocks s = locks @ map (\<lambda>k. (k, session)) (cLockKeys c)" by (auto simp: holding_def)
  obtain db where "release fl (c, s\<lparr>svDB := db\<rparr>) = (c', s')"
    using assms(1) c
  proof (cases rule: complete_cases)
    case (undone x)
    then show ?thesis using that [of "svDB s"] by simp
  qed auto
  from release_sel [OF this c(1)] release_mset [OF this c(1), of locks] l show ?thesis by (simp add: idle_def)
qed

lemma finalize_closed:
  assumes "finalizeImport env plan cleanup e w = (r, w')" and "holding (reSession env) locks (rwCoord w) (rwServer w)"
  shows "closed env ''complete'' locks w'"
proof -
  obtain x c s where c: "complete (reSchema env) (reFaults env ''complete'') (reCompleteNow env) e (rwCoord w, rwServer w) = (x, (c, s))"
    by (metis surj_pair)
  have "rwCoord w' = c \<and> rwServer w' = s"
    using assms(1) c by (auto simp: finalizeImport_def Let_def split: if_splits prod.splits)
  with complete_closed [OF c assms(2)] show ?thesis by (simp add: closed_def)
qed

lemma finalize_returning:
  assumes "returning (finalizeImport env plan cleanup e w) = (out, w')" and "holding (reSession env) locks (rwCoord w) (rwServer w)"
  shows "out \<noteq> Panicked \<and> closed env ''complete'' locks w'"
  using assms finalize_closed [of env plan cleanup e w]
  by (cases "finalizeImport env plan cleanup e w") (auto simp: returning_def)

lemma holding_same:
  "holding session locks (rwCoord w) (rwServer w) \<Longrightarrow> sameRun w w' \<Longrightarrow> holding session locks (rwCoord w') (rwServer w')"
  by (simp add: holding_def sameRun_def)

lemma admitted_cases:
  assumes "importAdmitted env k plan p w = (out, w')" and "quietSteps env"
    and "0 < rcChunk k" "0 < rcWorkers k" "0 < ipRun p"
  obtains (failed) e w1 where "returning (finalizeImport env plan False (Some e) w1) = (out, w')" and "sameRun w w1"
  | (ran) steps w1 e n w2 fs where "buildImportSteps k plan (ipRun p) (ipResumedFrom p \<noteq> 0) = Some steps"
      and "runSteps env steps 0 w1 = (e, n, w2)" and "sameRun w w2"
      and "returning (finalizeImport env plan (rcCleanup k) e w2) = (out, w')"
      and "fetchImportResources (reFaults env ''fetch'') (reDownload env) plan (rwFiles w) = (None, fs)"
      and "preloadReferenceIDs env k (w\<lparr>rwFiles := fs, rwCaches := resetIDs (rwCaches w)\<rparr>) = (None, w1)"
proof -
  obtain fe fs where f: "fetchImportResources (reFaults env ''fetch'') (reDownload env) plan (rwFiles w) = (fe, fs)" by fastforce
  let ?w1 = "w\<lparr>rwFiles := fs, rwCaches := resetIDs (rwCaches w)\<rparr>"
  obtain le w2 where l: "preloadReferenceIDs env k ?w1 = (le, w2)" by fastforce
  have s1: "sameRun w (w\<lparr>rwFiles := fs\<rparr>)" "sameRun w ?w1" by (simp_all add: sameRun_def)
  have s2: "sameRun w w2" using s1(2) loadReferences_same [OF l [unfolded preloadReferenceIDs_def]] by (rule sameRun_trans)
  obtain steps where st: "buildImportSteps k plan (ipRun p) (ipResumedFrom p \<noteq> 0) = Some steps"
    using buildImportSteps_ok [OF assms(3,4,5)] by blast
  obtain e n w3 where r: "runSteps env steps 0 w2 = (e, n, w3)" by (metis surj_pair)
  have s3: "sameRun w w3" using s2 runSteps_same [OF assms(2) r] by (rule sameRun_trans)
  show thesis
  proof (cases "preflightImportDependencies (reSchema env) (reFaults env ''second preflight'') (Some (svDB (rwServer w))) (map Some (plDumps plan))")
    case (Some x)
    then show ?thesis using assms(1) failed [of x w] by (simp add: importAdmitted_def sameRun_def)
  next
    case None
    show ?thesis
    proof (cases fe)
      case (Some x)
      then show ?thesis using assms(1) None f s1(1) failed [of x "w\<lparr>rwFiles := fs\<rparr>"] by (simp add: importAdmitted_def)
    next
      case fe: None
      show ?thesis
      proof (cases le)
        case (Some x)
        then show ?thesis using assms(1) None f fe l s2 failed [of x w2] by (simp add: importAdmitted_def)
      next
        case le: None
        then show ?thesis using assms(1) None f fe l st r s3 ran [of steps w2 e n w3 fs] by (simp add: importAdmitted_def)
      qed
    qed
  qed
qed

lemma admitted_closed:
  assumes "importAdmitted env k plan p w = (out, w')" and "quietSteps env"
    and "0 < rcChunk k" "0 < rcWorkers k" "0 < ipRun p"
    and "holding (reSession env) locks (rwCoord w) (rwServer w)"
  shows "out \<noteq> Panicked \<and> closed env ''complete'' locks w'"
  using assms(1-5)
proof (cases rule: admitted_cases)
  case (failed e w1)
  from finalize_returning [OF failed(1) holding_same [OF assms(6) failed(2)]] show ?thesis .
next
  case (ran steps w1 e n w2 fs)
  from finalize_returning [OF ran(4) holding_same [OF assms(6) ran(3)]] show ?thesis .
qed

definition quietEnv :: "'x runEnv \<Rightarrow> bool" where
  "quietEnv env \<longleftrightarrow> quietSteps env \<and> quietDDL env \<and> schemaOK (reSchema env)"

definition tidy :: "'x runEnv \<Rightarrow> 'x runWorld \<Rightarrow> 'x runWorld \<Rightarrow> bool" where
  "tidy env w w' \<longleftrightarrow>
     (\<exists>phase \<in> {''prepare'', ''complete''}.
        givenBack (reFaults env phase) (reSession env) (svLocks (rwServer w)) (svLocks (rwServer w'))) \<and>
     (rwCoord w' = rwCoord w \<or> idle (rwCoord w'))"

lemma newCoordinator_version_idle: "idle (newImportExecutionCoordinator v)"
  by (simp add: idle_def newImportExecutionCoordinator_def)

lemma planned_tidy:
  assumes "importPlanned env k plan w = (out, w')" and "quietEnv env" and "0 < rcWorkers k"
  shows "out \<noteq> Panicked \<and> tidy env w w'"
proof (cases "preflightImportDependencies (reSchema env) (reFaults env ''preflight'') (Some (svDB (rwServer w))) (map Some (plDumps plan))")
  case None
  let ?c = "newImportExecutionCoordinator (reVersion env)"
  obtain r c s where pr: "prepare (reSchema env) (reFaults env ''prepare'') (rePrepareNow env) (reSession env)
      (map Some (plDumps plan)) (rcChunk k) (rcForce k) (rcAllowDowngrade k) (?c, rwServer w) = (r, (c, s))" by (metis surj_pair)
  have un: "quietSteps env" "schemaOK (reSchema env)" using assms(2) by (simp_all add: quietEnv_def)
  show ?thesis
  proof (cases "case r of Inl _ \<Rightarrow> True | Inr p \<Rightarrow> ipSkipped p")
    case True
    have "c = ?c \<and> givenBack (reFaults env ''prepare'') (reSession env) (svLocks (rwServer w)) (svLocks s)"
      using prepare_closed [OF pr newCoordinator_version_idle True] by simp
    moreover have "out \<noteq> Panicked \<and> rwCoord w' = c \<and> rwServer w' = s"
      using assms(1) None pr True by (auto simp: importPlanned_def Let_def split: sum.splits if_splits prod.splits)
    ultimately show ?thesis by (simp add: tidy_def newCoordinator_version_idle)
  next
    case False
    then obtain p where p: "r = Inr p" "\<not> ipSkipped p" by (cases r) auto
    note pl = prepared_locks [OF pr [unfolded p(1)] p(2) newCoordinator_version_idle]
      and row = started_row [OF pr [unfolded p(1)] p(2) un(2)]
    have "holding (reSession env) (svLocks (rwServer w)) c s" using pl row by (auto simp: holding_def)
    moreover have "importAdmitted env k plan p (w\<lparr>rwCoord := c, rwServer := s\<rparr>) = (out, w')"
      using assms(1) None pr p by (simp add: importPlanned_def Let_def)
    ultimately have "out \<noteq> Panicked \<and> closed env ''complete'' (svLocks (rwServer w)) w'"
      using admitted_closed [OF _ un(1) _ assms(3)] pl row by simp
    then show ?thesis by (simp add: closed_def tidy_def)
  qed
qed (use assms(1) in \<open>auto simp: importPlanned_def tidy_def givenBack_same\<close>)

lemma overDB_locks: "overDB f w = (r, w') \<Longrightarrow> rwCoord w' = rwCoord w \<and> svLocks (rwServer w') = svLocks (rwServer w)"
  by (auto simp: overDB_def split: prod.splits)

lemma refresh_locks:
  "refreshDumpCatalog env k w = (e, w') \<Longrightarrow> rwCoord w' = rwCoord w \<and> svLocks (rwServer w') = svLocks (rwServer w)"
  using overDB_locks by (fastforce simp: refreshDumpCatalog_def split: prod.splits sum.splits)

lemma resolve_locks:
  "resolveCatalogPlan env k w = (r, w') \<Longrightarrow> rwCoord w' = rwCoord w \<and> svLocks (rwServer w') = svLocks (rwServer w)"
  using refresh_locks
  by (fastforce simp: resolveCatalogPlan_def split: if_splits sum.splits prod.splits option.splits)

text \<open>A run either stops before its plan, touching neither locks nor coordinator, or goes on with it.\<close>

lemma run_cases:
  assumes "run env k w = (out, w')" and "quietDDL env"
  obtains (early) e where "out = Returned (Some e)" and "rwCoord w' = rwCoord w" and "svLocks (rwServer w') = svLocks (rwServer w)"
  | (planned) plan pg s w1 where "resolveCatalogPlan env k (w\<lparr>rwPg := pg, rwServer := s\<rparr>) = (Inr plan, w1)" and "rwCoord w1 = rwCoord w"
      and "svLocks (rwServer w1) = svLocks (rwServer w)" and "0 < rcWorkers k" and "importPlanned env k plan w1 = (out, w')"
      and "reDDL env (rcSchema k) (rwServer w) = (None, s)"
proof (cases "parseSchema (rcSchema k)")
  case (Inl e)
  then show ?thesis using assms(1) early [of e] by (auto simp: run_def)
next
  case schema: (Inr schema)
  obtain c pg where en: "ensureSchema (reFaults env ''schema'') schema (rwPg w) = (c, pg)" by fastforce
  obtain de s where ddl: "reDDL env (rcSchema k) (rwServer w) = (de, s)" by fastforce
  have s: "svLocks s = svLocks (rwServer w)" using assms(2) ddl unfolding quietDDL_def by blast
  let ?w0 = "w\<lparr>rwPg := pg, rwServer := s\<rparr>"
  obtain r w1 where re: "resolveCatalogPlan env k ?w0 = (r, w1)" by fastforce
  have w1: "rwCoord w1 = rwCoord w" "svLocks (rwServer w1) = svLocks (rwServer w)" using resolve_locks [OF re] s by simp_all
  note parts = assms(1) schema en ddl re s w1
  consider "reConnect env (rcDatabaseURL k) (rcSchema k) \<noteq> None \<or> reFaults env ''pool'' ''open SQL connection pool''" | "\<not> 0 < rcWorkers k" | e where "c = Inl e" | "de \<noteq> None" | e where "r = Inl e"
    | "reFaults env ''open'' ''open SQL connection pool''"
    | b plan where "reConnect env (rcDatabaseURL k) (rcSchema k) = None" "\<not> reFaults env ''pool'' ''open SQL connection pool''" "0 < rcWorkers k" "c = Inr b" "de = None" "r = Inr plan"
        "\<not> reFaults env ''open'' ''open SQL connection pool''"
    by (cases c; cases r) auto
  then show thesis
    using parts early planned [of s pg _ w1]
    by cases (auto simp: run_def configurePool_def split: option.splits if_splits sum.splits)
qed

section \<open>A successful run\<close>

definition selectedTypes :: "runConfig \<Rightarrow> entityType list" where
  "selectedTypes k = map (fst \<circ> snd) (filter fst (stepDefinitions k))"

text \<open>What a run does once it is admitted, when nothing goes wrong: the files of the plan are there,
  the identifiers it refers to are loaded, the steps of the selected entity types ran in order, each
  without error, and the completion that follows them succeeded.\<close>

definition executed :: "'x runEnv \<Rightarrow> runConfig \<Rightarrow> importPlan \<Rightarrow> importPreparation \<Rightarrow> 'x runWorld \<Rightarrow> 'x runWorld \<Rightarrow> bool" where
  "executed env k plan p w w' \<longleftrightarrow>
     (\<exists>fs w1 steps n w2.
        fetchImportResources (reFaults env ''fetch'') (reDownload env) plan (rwFiles w) = (None, fs) \<and>
        preloadReferenceIDs env k (w\<lparr>rwFiles := fs, rwCaches := resetIDs (rwCaches w)\<rparr>) = (None, w1) \<and>
        buildImportSteps k plan (ipRun p) (ipResumedFrom p \<noteq> 0) = Some steps \<and> map fst steps = selectedTypes k \<and>
        runSteps env steps 0 w1 = (None, n, w2) \<and>
        complete (reSchema env) (reFaults env ''complete'') (reCompleteNow env) None (rwCoord w2, rwServer w2) =
          (None, (rwCoord w', rwServer w'))) \<and>
     (\<forall>d \<in> set (runDumps (dbLedger (svDB (rwServer w')))). \<not> incompleteDump (ipRun p) d)"

lemma those_pairs: "those (map (\<lambda>x. map_option (Pair (f x)) (g x)) xs) = Some ys \<Longrightarrow> map fst ys = map f xs"
  by (induction xs arbitrary: ys) (auto split: option.splits)

lemma built_types:
  assumes "buildImportSteps k plan i resume = Some steps"
  shows "map fst steps = selectedTypes k"
proof -
  have "map fst steps = map (\<lambda>(_, e, _). e) (filter fst (stepDefinitions k))"
    unfolding case_prod_unfold
    by (rule those_pairs [of _ "\<lambda>x. newTrackedOrder (rcChunk k) (rcWorkers k) (resourcePath plan (snd (snd x))) i (fst (snd x)) resume"])
      (use assms in \<open>simp add: buildImportSteps_def case_prod_unfold\<close>)
  then show ?thesis by (simp add: selectedTypes_def case_prod_unfold o_def)
qed

lemma joinErrors_None: "joinErrors a b = None \<longleftrightarrow> a = None \<and> b = None"
  by (cases a; cases b) (simp_all add: joinErrors_def)

lemma joinErrors_left [simp]: "joinErrors None b = b"
  by (simp add: joinErrors_def)

lemma those_Some: "those (map Some xs) = Some xs"
  by (induction xs) simp_all

lemma finalize_success:
  assumes "finalizeImport env plan cleanup e w = (None, w')"
  obtains c s where "e = None"
    and "complete (reSchema env) (reFaults env ''complete'') (reCompleteNow env) None (rwCoord w, rwServer w) = (None, (c, s))"
    and "rwServer w' = s" and "rwCoord w' = c" and "cleanup \<Longrightarrow> p \<in> snd ` set (plResources plan) \<Longrightarrow> rwFiles w' p = None"
proof -
  obtain x c s where c: "complete (reSchema env) (reFaults env ''complete'') (reCompleteNow env) e (rwCoord w, rwServer w) = (x, (c, s))"
    by (metis surj_pair)
  have e: "e = None" "x = None"
    using assms c by (auto simp: finalizeImport_def Let_def joinErrors_None split: if_splits)
  obtain ce fs where f: "cleanupImportFiles (\<lambda>_. reFaults env ''cleanup'') plan (rwFiles w) = (ce, fs)" by fastforce
  have "rwServer w' = s \<and> rwCoord w' = c \<and> (cleanup \<longrightarrow> ce = None \<and> rwFiles w' = fs)"
    using assms c e f by (auto simp: finalizeImport_def Let_def joinErrors_None split: if_splits)
  then show thesis using that [of c s] e c cleanup_result(1) [OF f] by simp
qed

lemma complete_success:
  assumes "complete sc fl now None (c, s) = (None, (c', s'))" and "cConn c = Some session" and "cRunID c \<noteq> 0"
    and "\<forall>r \<in> set (runs (dbLedger (svDB s))). rnID r = cRunID c \<longrightarrow> rnManifest r = fp"
  shows "\<exists>row \<in> set (runs (dbLedger (svDB s'))). rnID row = cRunID c \<and> rnManifest row = fp \<and> rnStatus row = Succeeded"
    and "\<forall>d \<in> set (runDumps (dbLedger (svDB s'))). \<not> incompleteDump (cRunID c) d"
proof -
  let ?i = "cRunID c"
  obtain db P where db: "runIsActive ?i (dbLedger (svDB s))" "\<forall>d \<in> set (runDumps (dbLedger (svDB s))). \<not> incompleteDump ?i d"
      "dbLedger db = (endRun now ?i None (dbLedger (svDB s)))\<lparr>runChunks := filter P (runChunks (dbLedger (svDB s)))\<rparr>"
    and rel: "release fl (c, s\<lparr>svDB := db\<rparr>) = (c', s')"
    using assms(1-3)
  proof (cases rule: complete_cases)
    case (ended db)
    from ended(1) ended(2) that show ?thesis by (cases rule: completionBody_Inr) auto
  qed simp
  have s': "svDB s' = db" using release_sel(1) [OF rel assms(2)] by simp
  obtain x where x: "x \<in> set (runs (dbLedger (svDB s)))" "rnID x = ?i \<and> rnStatus x = Running" using db(1) by (auto simp: runIsActive_def)
  let ?f = "\<lambda>r. r\<lparr>rnStatus := Succeeded, rnCompletedAt := Some now, rnFailure := None\<rparr>"
  have "?f x \<in> set (runs (dbLedger db))"
    using updateWhere_mem [of x "runs (dbLedger (svDB s))" "\<lambda>r. rnID r = ?i \<and> rnStatus r = Running" ?f, OF x]
    by (simp add: db(3) endRun_def)
  moreover have "rnManifest x = fp" using assms(4) x by blast
  ultimately show "\<exists>row \<in> set (runs (dbLedger (svDB s'))). rnID row = ?i \<and> rnManifest row = fp \<and> rnStatus row = Succeeded"
    using x(2) s' by (intro bexI [of _ "?f x"]) auto
  show "\<forall>d \<in> set (runDumps (dbLedger (svDB s'))). \<not> incompleteDump ?i d" using db(2,3) s' by simp
qed

lemma prepared_manifest:
  assumes "prepare sc fl now session (map Some ds) chunkSize force allow (c, s) = (Inr p, (c', s'))"
  shows "scFingerprint sc (map manifestOf ds) = Inr (ipManifest p)"
  using assms
proof (cases rule: prepare_cases)
  case (admitted ds' plan c1 s1 x db)
  then have "ds' = ds" by (simp add: those_Some)
  with admitted show ?thesis using admit_preparation(1) resolvePlan_Inr(2) [OF admitted(5)] by (fastforce simp: coordTx_Inr)
qed simp_all

lemma planned_success:
  assumes "importPlanned env k plan w = (Returned None, w')" and "quietEnv env" and "0 < rcWorkers k"
  shows "\<exists>p c s. prepare (reSchema env) (reFaults env ''prepare'') (rePrepareNow env) (reSession env) (map Some (plDumps plan))
        (rcChunk k) (rcForce k) (rcAllowDowngrade k) (newImportExecutionCoordinator (reVersion env), rwServer w) = (Inr p, (c, s)) \<and>
    scFingerprint (reSchema env) (map manifestOf (plDumps plan)) = Inr (ipManifest p) \<and>
    (\<exists>row \<in> set (runs (dbLedger (svDB (rwServer w')))). rnID row = ipRun p \<and> rnManifest row = ipManifest p \<and> rnStatus row = Succeeded) \<and>
    (if ipSkipped p then \<not> rcForce k \<and> rwServer w' = s \<and> rwCaches w' = rwCaches w
     else executed env k plan p (w\<lparr>rwCoord := c, rwServer := s\<rparr>) w') \<and>
    (rcCleanup k \<longrightarrow> (\<forall>q \<in> snd ` set (plResources plan). rwFiles w' q = None))"
proof (cases "preflightImportDependencies (reSchema env) (reFaults env ''preflight'') (Some (svDB (rwServer w))) (map Some (plDumps plan))")
  case None
  let ?c = "newImportExecutionCoordinator (reVersion env)"
  obtain r c s where pr: "prepare (reSchema env) (reFaults env ''prepare'') (rePrepareNow env) (reSession env)
      (map Some (plDumps plan)) (rcChunk k) (rcForce k) (rcAllowDowngrade k) (?c, rwServer w) = (r, (c, s))" by (metis surj_pair)
  obtain p where p: "r = Inr p" using assms(1) None pr by (cases r) (auto simp: importPlanned_def)
  have fp: "scFingerprint (reSchema env) (map manifestOf (plDumps plan)) = Inr (ipManifest p)"
    by (rule prepared_manifest [OF pr [unfolded p]])
  have "(\<exists>row \<in> set (runs (dbLedger (svDB (rwServer w')))). rnID row = ipRun p \<and> rnManifest row = ipManifest p \<and> rnStatus row = Succeeded) \<and>
    (if ipSkipped p then \<not> rcForce k \<and> rwServer w' = s \<and> rwCaches w' = rwCaches w
     else executed env k plan p (w\<lparr>rwCoord := c, rwServer := s\<rparr>) w') \<and>
    (rcCleanup k \<longrightarrow> (\<forall>q \<in> snd ` set (plResources plan). rwFiles w' q = None))"
  proof (cases "ipSkipped p")
    case True
    obtain ce fs where f: "cleanupImportFiles (\<lambda>_. reFaults env ''cleanup'') plan (rwFiles w) = (ce, fs)" by fastforce
    have here: "rwServer w' = s \<and> rwCaches w' = rwCaches w \<and> (rcCleanup k \<longrightarrow> ce = None \<and> rwFiles w' = fs)"
      using assms(1) None pr p True f by (auto simp: importPlanned_def Let_def split: if_splits)
    from skipped_satisfied [OF pr [unfolded p] True] have "\<not> rcForce k"
      and "\<exists>row \<in> set (runs (dbLedger (svDB s))). rnID row = ipRun p \<and> successfulRun (ipManifest p) row" by blast+
    with here True cleanup_result(1) [OF f] show ?thesis by (simp add: successfulRun_def)
  next
    case False
    let ?w = "w\<lparr>rwCoord := c, rwServer := s\<rparr>"
    note pl = prepared_locks [OF pr [unfolded p] False newCoordinator_version_idle]
    have un: "quietSteps env" "schemaOK (reSchema env)" using assms(2) by (simp_all add: quietEnv_def)
    note row = started_row [OF pr [unfolded p] False un(2)]
    have adm: "importAdmitted env k plan p ?w = (Returned None, w')"
      using assms(1) None pr p False by (simp add: importPlanned_def Let_def)
    have "0 < rcChunk k" "0 < ipRun p" using pl row by simp_all
    from adm un(1) this(1) assms(3) this(2) show ?thesis
    proof (cases rule: admitted_cases)
      case (failed e w1)
      then show ?thesis by (auto simp: returning_def finalizeImport_def Let_def joinErrors_None split: prod.splits if_splits)
    next
      case (ran steps w1 e n w2 fs)
      have fin: "finalizeImport env plan (rcCleanup k) e w2 = (None, w')"
        using ran(4) by (cases "finalizeImport env plan (rcCleanup k) e w2") (simp add: returning_def)
      have same: "rwCoord w2 = c" "runs (dbLedger (svDB (rwServer w2))) = runs (dbLedger (svDB s))"
        using ran(3) by (simp_all add: sameRun_def)
      have clean: "rcCleanup k \<Longrightarrow> q \<in> snd ` set (plResources plan) \<Longrightarrow> rwFiles w' q = None" for q
        by (rule finalize_success [OF fin, of q])
      from finalize_success [OF fin] have e: "e = None" and
        completed: "complete (reSchema env) (reFaults env ''complete'') (reCompleteNow env) None (rwCoord w2, rwServer w2) =
          (None, (rwCoord w', rwServer w'))" by metis+
      have man: "\<forall>r \<in> set (runs (dbLedger (svDB (rwServer w2)))). rnID r = cRunID (rwCoord w2) \<longrightarrow> rnManifest r = ipManifest p"
        using row pl same by simp
      from complete_success [OF completed _ _ man] pl same row have x:
        "\<exists>row \<in> set (runs (dbLedger (svDB (rwServer w')))). rnID row = ipRun p \<and> rnManifest row = ipManifest p \<and> rnStatus row = Succeeded"
        and d: "\<forall>d \<in> set (runDumps (dbLedger (svDB (rwServer w')))). \<not> incompleteDump (ipRun p) d" by auto
      have "executed env k plan p ?w w'" unfolding executed_def
        using ran(1) ran(2) [unfolded e] ran(5,6) built_types [OF ran(1)] completed d by fastforce
      with x False clean show ?thesis by simp
    qed
  qed
  with pr p fp show ?thesis by blast
qed (use assms(1) in \<open>simp add: importPlanned_def\<close>)

lemma resolveFrom_dumps:
  "resolveFrom fl mo dir db es plan = Inr plan' \<Longrightarrow>
     \<exists>ds. plDumps plan' = plDumps plan @ ds \<and> list_all2 (\<lambda>e d. dumpOfEntity fl mo e db = Inr d) es ds"
proof (induction es arbitrary: plan)
  case (Cons e es)
  then obtain d where d: "dumpOfEntity fl mo e db = Inr d" by (auto split: sum.splits)
  with Cons obtain ds where "plDumps plan' = (plDumps plan @ [d]) @ ds" "list_all2 (\<lambda>e d. dumpOfEntity fl mo e db = Inr d) es ds"
    by fastforce
  with d show ?case by (intro exI [of _ "d # ds"]) simp
qed simp

lemma resolved_dumps:
  assumes "resolveCatalogPlan env k w = (Inr plan, w')"
  shows "\<exists>phase. list_all2 (\<lambda>e d. dumpOfEntity (reFaults env phase) (rcDumpMonth k) e (svDB (rwServer w')) = Inr d)
    (rcEntities k) (plDumps plan)"
proof -
  have "\<exists>phase. planFrom env phase k w' = Inr plan"
    using assms by (auto simp: resolveCatalogPlan_def split: if_splits sum.splits prod.splits option.splits)
  then show ?thesis using resolveFrom_dumps by (fastforce simp: planFrom_def resolveImportPlan_def)
qed

section \<open>Properties\<close>



text \<open>C40. An entity type written with a doubled plural, such as \<open>artistss\<close>, passes normalisation and
  validation as the single plural, and whatever the database holds its plan, if there is one, is
  that of the entity type itself, so that everything up to the admission is as for that type; but no entity is
  selected, and no import step is built for it.\<close>

theorem doubled_plural_imports_nothing:
  assumes "e \<in> set entityNames"
  shows "let (entities, selected) = normalizeEntities [e @ ''ss'']
   in entities = [e @ ''s''] \<and> validEntities entities = None \<and>
      (\<forall>p. resolveImportPlan fl entities mo dir db = Inr p \<longleftrightarrow> resolveImportPlan fl [e] mo dir db = Inr p) \<and>
      buildImportSteps (k\<lparr>rcEntities := entities, rcSelected := selected\<rparr>) plan i resume = Some []"
proof -
  note d = doubled_plural_accepted [OF assms]
  have n: "normalizeEntities [e @ ''ss''] = ([e @ ''s''], snd (normalizeEntities [e @ ''ss'']))"
    using d(1) by (metis prod.collapse)
  have "list_all (\<lambda>e. trimSuffix ''s'' (toLower (e @ ''s'')) = trimSuffix ''s'' (toLower e) \<and>
    trimSuffix ''s'' (e @ ''s'') = trimSuffix ''s'' e) entityNames" by code_simp
  then have "trimSuffix ''s'' (toLower (e @ ''s'')) = trimSuffix ''s'' (toLower e)" "trimSuffix ''s'' (e @ ''s'') = trimSuffix ''s'' e"
    using assms by (simp_all add: list_all_iff)
  then have plan: "resolveImportPlan fl [e @ ''s''] mo dir db = Inr p \<longleftrightarrow> resolveImportPlan fl [e] mo dir db = Inr p" for p
    by (auto simp: resolveImportPlan_def dumpOfEntity_def findLatestByType_def findByYearMonthType_def resourceKey_def Let_def
        simp del: toLower.simps split: option.splits if_splits)
  have "\<not> snd (normalizeEntities [e @ ''ss'']) x" if "x \<in> {''artists'', ''labels'', ''masters'', ''releases''}" for x
    using that d(3) [of "butlast x"] by auto
  then show ?thesis by (subst n) (simp add: d(2) plan buildImportSteps_def stepDefinitions_def has_defs)
qed

section \<open>A run on a small database\<close>

definition demoConfig :: runConfig where
  "demoConfig = \<lparr>rcDatabaseURL = [], rcSchema = ''m'', rcDumpMonth = [], rcDataDir = ''/d'', rcEntities = [''artist''],
     rcSelected = (\<lambda>key. key = ''artists''), rcChunk = 2, rcWorkers = 4, rcForce = False, rcAllowDowngrade = False,
     rcCleanup = True\<rparr>"

definition demoEnv :: "unit runEnv" where
  "demoEnv = \<lparr>reSchema = checkedSchema, reFaults = (\<lambda>_ _. False), reVersion = [], reSession = 1, rePrepareNow = 5,
     reCompleteNow = 8, reConnect = (\<lambda>_ _. None), reDDL = (\<lambda>_ s. (None, s)), reFetch = (\<lambda>_. Inl ''offline''),
     reQuery = (\<lambda>_ _. []), reDownload = demoDownload, reIDs = (\<lambda>_ _. Inr ([], None)),
     reStep = (\<lambda>_ _ w. (newResult 0 None, w)), reCoordText = (\<lambda>_. ''coordinator'')\<rparr>"

definition demoWorld :: "unit runWorld" where
  "demoWorld = \<lparr>rwPg = Some \<lparr>pgDatabase = ''d'', pgNamespaces = [''m''], pgMayCreateSchema = False, pgMayUse = (\<lambda>_. True)\<rparr>,
     rwCoord = newImportExecutionCoordinator [], rwServer = doneServer, rwFiles = (\<lambda>_. Some []), rwCaches = emptyCaches\<rparr>"

lemma demoEnv_quiet: "quietEnv demoEnv"
proof -
  have "schemaOK checkedSchema" using demoSchema_OK by (simp add: schemaOK_def checkedSchema_def)
  then show ?thesis by (auto simp: quietEnv_def quietSteps_def quietDDL_def demoEnv_def)
qed

lemma demo_names: "toLower ''artist'' = ''artist''" "trimSuffix ''s'' ''artist'' = ''artist''" "joinPath ''/d'' [] = ''/d''"
  by code_simp+

lemma demo_catalog: "resolveImportPlan (\<lambda>_. False) [''artist''] [] ''/d'' (svDB doneServer) =
    Inr \<lparr>plResources = [(''artists'', ''/d'')], plDumps = [demoDump]\<rparr>"
  by (simp add: resolveImportPlan_def dumpOfEntity_def findLatestByType_def demo_names latestDump_def doneServer_def demoDump_def
      resourceKey_def getLastUriSegment_last del: toLower.simps)

lemma demo_preflight: "preflightImportDependencies checkedSchema fl db [Some demoDump] = None"
  by (simp add: preflightImportDependencies_def importDependencyRequirements_def checkedSchema_def demoSchema_def demoDump_def
      zeroDate_def addRequirement_def)

lemma demo_schema: "parseSchema ''m'' = Inr \<lparr>psName = ''m'', psIdentifier = quote # ''m'' @ [quote]\<rparr>"
  by (simp add: parseSchema_def trimSpace_ascii ascii_def trimList_def isSpace_def maximumSchemaNameLength_def schemaNamePattern_def
      lowerLetter_def)

lemma demo_run: "fst (run demoEnv demoConfig demoWorld) = Returned None"
proof -
  have "fst (ensureSchema (\<lambda>_. False) \<lparr>psName = ''m'', psIdentifier = quote # ''m'' @ [quote]\<rparr> (rwPg demoWorld)) = Inr False"
    by (simp add: ensureSchema_def demoWorld_def Let_def)
  moreover have "resolveCatalogPlan demoEnv demoConfig (demoWorld\<lparr>rwPg := pg\<rparr>) =
      (Inr \<lparr>plResources = [(''artists'', ''/d'')], plDumps = [demoDump]\<rparr>, demoWorld\<lparr>rwPg := pg\<rparr>)" for pg
    by (simp add: resolveCatalogPlan_def refreshDumpCatalog_def planFrom_def overDB_def updateSelectedData_def fetchCatalogData_def
        resolveCatalogYear_def demoEnv_def demoConfig_def demoWorld_def demo_catalog Let_def)
  moreover have "prepare checkedSchema (\<lambda>_. False) 5 1 [Some demoDump] 2 False False (newImportExecutionCoordinator [], doneServer) =
      (Inr \<lparr>ipManifest = ''m'', ipRun = 1, ipResumedFrom = 0, ipSkipped = True\<rparr>, (coordOf skipPrepare, serverOf skipPrepare))"
    using skip_prepare_run by (simp add: noFault_def)
  ultimately show ?thesis
    by (auto simp: run_def importPlanned_def demoEnv_def demoConfig_def demoWorld_def demo_schema demo_preflight configurePool_def
        cleanupImportFiles_def deleteFile_def joinErrors_def Let_def split: prod.splits)
qed


section \<open>A run that executes its steps\<close>

text \<open>The dump is known but was never imported. The step of the artists completes its dump row, as the
  tracked pipeline does.\<close>

definition freshDump :: dump where
  "freshDump = demoDump\<lparr>dChecksum := encodeHex (sha256 [])\<rparr>"

definition freshServer :: "unit server" where
  "freshServer = \<lparr>svDB = \<lparr>dbLedger = \<lparr>runs = [], runDumps = [], runChunks = []\<rparr>, dbDumps = [\<lparr>dpID = 1, dpDump = freshDump\<rparr>],
     dbStates = [demoState], dbRest = ()\<rparr>, svLocks = []\<rparr>"

definition completeDump :: "entityType \<Rightarrow> order \<Rightarrow> unit runWorld \<Rightarrow> string result \<times> unit runWorld" where
  "completeDump e ord w = (newResult 2 None, snd (overDB (\<lambda>db. ((), overLedger (\<lambda>l. l\<lparr>runDumps := map (\<lambda>d.
     if duRun d = oRunID ord \<and> duEntity d = e
     then d\<lparr>duProcessed := 2, duTotalItems := Some 2, duTotalChunks := Some 1, duCompletedAt := Some 7\<rparr> else d) (runDumps l)\<rparr>) db)) w))"

definition freshEnv :: "unit runEnv" where
  "freshEnv = demoEnv\<lparr>reSchema := demoSchema, reStep := completeDump\<rparr>"

definition freshWorld :: "unit runWorld" where
  "freshWorld = demoWorld\<lparr>rwServer := freshServer, rwFiles := (\<lambda>_. None)\<rparr>"

lemma freshEnv_quiet: "quietEnv freshEnv"
proof -
  have "quietSteps freshEnv" unfolding quietSteps_def freshEnv_def completeDump_def overDB_def overLedger_def by auto
  then show ?thesis using demoSchema_OK by (simp add: quietEnv_def quietDDL_def freshEnv_def demoEnv_def)
qed

definition freshPlan :: importPlan where
  "freshPlan = \<lparr>plResources = [(''artists'', ''/d'')], plDumps = [freshDump]\<rparr>"

lemma fresh_catalog: "resolveImportPlan (\<lambda>_. False) [''artist''] [] ''/d'' (svDB freshServer) = Inr freshPlan"
  by (simp add: resolveImportPlan_def dumpOfEntity_def findLatestByType_def demo_names latestDump_def freshServer_def demoDump_def
      freshDump_def freshPlan_def resourceKey_def getLastUriSegment_last del: toLower.simps)

lemma fresh_preflight: "preflightImportDependencies demoSchema fl db [Some freshDump] = None"
  by (simp add: preflightImportDependencies_def importDependencyRequirements_def demoSchema_def demoDump_def freshDump_def
      zeroDate_def addRequirement_def)

lemma fresh_files: "fetchImportResources (\<lambda>_. False) demoDownload freshPlan (\<lambda>_. None) = (None, [''/d'' \<mapsto> []])"
  by (simp add: fetchImportResources_def freshPlan_def freshDump_def demoDump_def demoPlan_key fetchAndCheckContext_def exists_def
      downloadChecked_def getDecodedChecksum_def decode_encode execGrabReq_def demoDownload_def)

definition begunServer :: "unit server" where
  "begunServer = \<lparr>svDB = \<lparr>dbLedger =
      \<lparr>runs = [\<lparr>rnID = 1, rnManifest = ''m'', rnStatus = Running, rnCompletedAt = None, rnForce = False,
          rnAllowDowngrade = False, rnVersion = ''development'', rnResumedFrom = None, rnFailure = None\<rparr>],
       runDumps = [\<lparr>duRun = 1, duEntity = ''artist'', duDump = 1, duChunkSize = Some 2, duRevision = Some 1, duProcessed = 0,
          duTotalItems = None, duTotalChunks = None, duCompletedAt = None, duLastProgressAt = None\<rparr>],
       runChunks = []\<rparr>,
     dbDumps = [\<lparr>dpID = 1, dpDump = freshDump\<rparr>],
     dbStates = [demoState\<lparr>esStatus := catalogStatusImporting, esOperation := Some ''bootstrap'', esActive := Some 1,
       esUpdatedAt := Some 5\<rparr>], dbRest = ()\<rparr>, svLocks = [(6, 1)]\<rparr>"

definition begunCoordinator :: coordinator where
  "begunCoordinator = \<lparr>cVersion = ''development'', cConn = Some 1, cRunID = 1, cLockKeys = [6], cEntities = [''artist'']\<rparr>"

lemma fresh_prepare:
  "prepare demoSchema (\<lambda>_. False) 5 1 [Some freshDump] 2 False False (newImportExecutionCoordinator [], freshServer) =
     (Inr \<lparr>ipManifest = ''m'', ipRun = 1, ipResumedFrom = 0, ipSkipped = False\<rparr>, (begunCoordinator, begunServer))"
  by (simp add: prepare_defs demoSchema_def freshServer_def freshDump_def demoDump_def demoState_def sameDump_def
      newImportExecutionCoordinator_def trimSpace_def currentRevision_def entityType_defs largest_def Let_def
      begunServer_def begunCoordinator_def)

lemma fresh_resolved:
  "resolveCatalogPlan freshEnv demoConfig (freshWorld\<lparr>rwPg := pg, rwServer := rwServer freshWorld\<rparr>) =
     (Inr freshPlan, freshWorld\<lparr>rwPg := pg\<rparr>)"
  by (simp add: resolveCatalogPlan_def refreshDumpCatalog_def planFrom_def overDB_def updateSelectedData_def fetchCatalogData_def
      resolveCatalogYear_def freshEnv_def demoEnv_def demoConfig_def freshWorld_def demoWorld_def fresh_catalog Let_def)

lemmas completion_defs = complete_def completionBody_def coordTx_def atomically_def andThen_def stmt_def validateCompletion_def
  finishRun_def runBootstrapOperation_def markCatalogStatesReady_def updateStates_def pruneSupersededFailedProgress_def
  deleteRunChunks_def release_def overLedger_def updateWhere_def countWhere_def incompleteDump_def

lemma fresh_admitted:
  "fst (importAdmitted freshEnv demoConfig freshPlan \<lparr>ipManifest = ''m'', ipRun = 1, ipResumedFrom = 0, ipSkipped = False\<rparr>
     (freshWorld\<lparr>rwPg := pg, rwCoord := begunCoordinator, rwServer := begunServer\<rparr>)) = Returned None"
proof -
  let ?p = "\<lparr>ipManifest = ''m'', ipRun = 1, ipResumedFrom = 0, ipSkipped = False\<rparr>"
  let ?w = "freshWorld\<lparr>rwPg := pg, rwCoord := begunCoordinator, rwServer := begunServer\<rparr>"
  let ?w1 = "?w\<lparr>rwFiles := [''/d'' \<mapsto> []], rwCaches := resetIDs (rwCaches ?w)\<rparr>"
  have plan: "plDumps freshPlan = [freshDump]" "plResources freshPlan = [(''artists'', ''/d'')]" by (simp_all add: freshPlan_def)
  have env: "reSchema freshEnv = demoSchema" "reFaults freshEnv = (\<lambda>_ _. False)" "reDownload freshEnv = demoDownload"
    "reStep freshEnv = completeDump" "reCompleteNow freshEnv = 8"
    by (simp_all add: freshEnv_def demoEnv_def)
  have files: "rwFiles ?w = (\<lambda>_. None)" "rcCleanup demoConfig" by (simp_all add: freshWorld_def demoConfig_def)
  have load: "preloadReferenceIDs freshEnv demoConfig v = (None, v)" for v
    by (simp add: preloadReferenceIDs_def referenceLoads_def demoConfig_def has_defs)
  have build: "buildImportSteps demoConfig freshPlan 1 False = Some [(''artist'',
      \<lparr>oChunkSize = 2, oEntity = ''artist'', oMaxWorkers = 4, oFile = ''/d'', oRunID = 1, oResume = False\<rparr>)]"
    by (simp add: buildImportSteps_def stepDefinitions_def demoConfig_def has_defs newTrackedOrder_def newOrder_def resourcePath_def
        freshPlan_def)
  let ?step = "snd (completeDump ''artist'' \<lparr>oChunkSize = 2, oEntity = ''artist'', oMaxWorkers = 4, oFile = ''/d'', oRunID = 1, oResume = False\<rparr> ?w1)"
  have run: "runSteps freshEnv [(''artist'', \<lparr>oChunkSize = 2, oEntity = ''artist'', oMaxWorkers = 4, oFile = ''/d'', oRunID = 1, oResume = False\<rparr>)] 0 v
      = (None, 2, snd (completeDump ''artist'' \<lparr>oChunkSize = 2, oEntity = ''artist'', oMaxWorkers = 4, oFile = ''/d'', oRunID = 1, oResume = False\<rparr> v))" for v
    by (simp add: env completeDump_def isErr_def newResult_def)
  have "fst (complete demoSchema (\<lambda>_. False) 8 None (rwCoord ?step, rwServer ?step)) = None"
    by (simp add: completion_defs completeDump_def overDB_def begunServer_def begunCoordinator_def demoSchema_def demoState_def Let_def)
  then have "fst (finalizeImport freshEnv freshPlan True None ?step) = None"
    by (auto simp: finalizeImport_def env Let_def joinErrors_def cleanupImportFiles_def deleteFile_def plan split: prod.splits)
  then show ?thesis
    by (simp add: importAdmitted_def env plan fresh_preflight fresh_files files load build run returning_def del: runSteps.simps)
qed

lemma fresh_run: "fst (run freshEnv demoConfig freshWorld) = Returned None"
proof -
  have "fst (ensureSchema (\<lambda>_. False) \<lparr>psName = ''m'', psIdentifier = quote # ''m'' @ [quote]\<rparr> (rwPg freshWorld)) = Inr False"
    by (simp add: ensureSchema_def freshWorld_def demoWorld_def Let_def)
  moreover have "fst (importPlanned freshEnv demoConfig freshPlan (freshWorld\<lparr>rwPg := pg\<rparr>)) = Returned None" for pg
  proof -
    have "plDumps freshPlan = [freshDump]" "rwServer freshWorld = freshServer" by (simp_all add: freshPlan_def freshWorld_def)
    moreover have "reSchema freshEnv = demoSchema" "reFaults freshEnv = (\<lambda>_ _. False)" "rePrepareNow freshEnv = 5" "reSession freshEnv = 1"
      "reVersion freshEnv = []" by (simp_all add: freshEnv_def demoEnv_def)
    moreover have "rcChunk demoConfig = 2" "\<not> rcForce demoConfig" "\<not> rcAllowDowngrade demoConfig" by (simp_all add: demoConfig_def)
    ultimately show ?thesis using fresh_admitted [of pg] by (simp add: importPlanned_def fresh_preflight fresh_prepare)
  qed
  ultimately show ?thesis using fresh_resolved
    by (auto simp: run_def freshEnv_def demoEnv_def demoConfig_def demo_schema configurePool_def freshWorld_def demoWorld_def Let_def
        split: prod.splits)
qed


theorem doubled_plural_imports_nothing_witness:
  "fst (normalizeEntities [''labelss'']) = [''labels''] \<and>
     buildImportSteps (demoConfig\<lparr>rcEntities := [''labels''], rcSelected := snd (normalizeEntities [''labelss''])\<rparr>) freshPlan 1 False = Some []"
  using doubled_plural_imports_nothing [of "''label''" noFault "[]" "[]" "svDB freshServer" demoConfig freshPlan 1 False]
  by (auto simp: entityNames_def split: prod.splits)

end
