(* ===== verification/Xml_Parser.thy ===== *)
theory Xml_Parser
  imports Relation_Import
begin

text \<open>
  The package \<open>src/xmlparser\<close>: a loop that reads tokens, decodes the elements that match and emits
  them on a channel, until the input ends, a token is in error or the context is cancelled.

  The decoder of \<open>encoding/xml\<close> is a parameter, a \<open>tokenOrder\<close>: how it reads a token and how it
  decodes an element. Cancellation is a stream of answers, one for every time the code asks: at the
  head of the loop, in \<open>emit\<close>, and in its select, where a cancelled context and a ready receiver
  may go either way. The loop is a partial function: \<open>None\<close> means it never returns.
\<close>

section \<open>The loop\<close>

datatype 't tokenResult = Token 't | TokenEnd | TokenError string

record ('d, 't, 'v) tokenOrder =
  toToken :: "'d \<Rightarrow> 't tokenResult \<times> 'd"
  toDecode :: "'t \<Rightarrow> 'd \<Rightarrow> (string + 'v) \<times> 'd"
  toMatch :: "'t \<Rightarrow> bool"

definition emit :: "(nat \<Rightarrow> bool) \<Rightarrow> nat \<Rightarrow> 'v rxItem \<Rightarrow> 'v rxItem list \<Rightarrow> bool \<times> 'v rxItem list" where
  "emit cancelled k item out = (if cancelled k \<or> cancelled (Suc k) then (False, out) else (True, out @ [item]))"

definition itemFrom :: "string + 'v \<Rightarrow> 'v rxItem" where
  "itemFrom r = (case r of Inl e \<Rightarrow> ErrItem e | Inr v \<Rightarrow> Item v)"

partial_function (option) parseFrom ::
  "('d, 't, 'v) tokenOrder \<Rightarrow> (nat \<Rightarrow> bool) \<Rightarrow> nat \<Rightarrow> 'd \<Rightarrow> 'v rxItem list \<Rightarrow> ('v rxItem list \<times> 'd) option" where
  "parseFrom ord cancelled k d out =
     (if cancelled k then Some (out, d)
      else case toToken ord d of
        (TokenEnd, d') \<Rightarrow> Some (out, d')
      | (TokenError e, d') \<Rightarrow> Some (snd (emit cancelled (k + 1) (ErrItem e) out), d')
      | (Token t, d') \<Rightarrow>
          if \<not> toMatch ord t then parseFrom ord cancelled (k + 1) d' out
          else (case toDecode ord t d' of
            (r, d'') \<Rightarrow>
              (case emit cancelled (k + 1) (itemFrom r) out of
                 (sent, out') \<Rightarrow> if \<not> sent then Some (out', d'') else parseFrom ord cancelled (k + 3) d'' out')))"

definition parse :: "('d, 't, 'v) tokenOrder \<Rightarrow> (nat \<Rightarrow> bool) \<Rightarrow> 'd \<Rightarrow> ('v rxItem list \<times> 'd) option" where
  "parse ord cancelled d = parseFrom ord cancelled 0 d []"

lemmas parseFrom_unfold = parseFrom.simps

section \<open>Termination\<close>

text \<open>A decoder that reads: a token takes some of the input that is left, decoding gives none back.\<close>

definition reads :: "('d \<Rightarrow> nat) \<Rightarrow> ('d, 't, 'v) tokenOrder \<Rightarrow> bool" where
  "reads left ord \<longleftrightarrow>
     (\<forall>d t d'. toToken ord d = (Token t, d') \<longrightarrow> left d' < left d) \<and> (\<forall>t d. left (snd (toDecode ord t d)) \<le> left d)"

lemma readsD:
  assumes "reads left ord"
  shows "toToken ord d = (Token t, d') \<Longrightarrow> left d' < left d" and "toDecode ord t d = (r, d'') \<Longrightarrow> left d'' \<le> left d"
  using assms unfolding reads_def by (blast, metis snd_conv)

lemma parseFrom_returns: "reads left ord \<Longrightarrow> \<exists>out' d'. parseFrom ord cancelled k d out = Some (out', d')"
proof (induction "left d" arbitrary: d k out rule: less_induct)
  case less
  note IH = less.hyps [OF _ less.prems] and rd = readsD [OF less.prems]
  obtain r d' where tok: "toToken ord d = (r, d')" by fastforce
  show ?case
  proof (cases r)
    case (Token t)
    obtain v d'' where dec: "toDecode ord t d' = (v, d'')" by fastforce
    have "left d' < left d" "left d'' < left d" using rd(1) [of d t d'] rd(2) [OF dec] tok Token by simp_all
    from IH [OF this(1)] IH [OF this(2)] show ?thesis
      by (subst parseFrom_unfold) (simp add: tok Token dec split: prod.split)
  qed (subst parseFrom_unfold, simp add: tok)+
qed

section \<open>Token streams\<close>

datatype xmlToken = StartElement string | EndElement | CharData

definition newStartTokenNameMatcher :: "string \<Rightarrow> xmlToken option \<Rightarrow> bool" where
  "newStartTokenNameMatcher name token =
     (case token of None \<Rightarrow> False | Some (StartElement n) \<Rightarrow> n = name | Some _ \<Rightarrow> False)"

text \<open>What \<open>encoding/xml\<close> does on a well-formed stream: the tokens up to the end of the element that
  was started are taken and unmarshalled.\<close>

fun takeElement :: "nat \<Rightarrow> xmlToken list \<Rightarrow> (xmlToken list \<times> xmlToken list) option" where
  "takeElement depth [] = None"
| "takeElement depth (EndElement # ts) =
     (case depth of 0 \<Rightarrow> Some ([EndElement], ts)
      | Suc n \<Rightarrow> map_option (\<lambda>(a, b). (EndElement # a, b)) (takeElement n ts))"
| "takeElement depth (StartElement n # ts) = map_option (\<lambda>(a, b). (StartElement n # a, b)) (takeElement (Suc depth) ts)"
| "takeElement depth (CharData # ts) = map_option (\<lambda>(a, b). (CharData # a, b)) (takeElement depth ts)"

definition simpleTokenOrder ::
  "(xmlToken list \<Rightarrow> string + 'v) \<Rightarrow> string \<Rightarrow> (xmlToken list, xmlToken, 'v) tokenOrder" where
  "simpleTokenOrder unmarshal name =
     \<lparr>toToken = (\<lambda>ts. case ts of [] \<Rightarrow> (TokenEnd, []) | t # ts' \<Rightarrow> (Token t, ts')),
      toDecode = (\<lambda>t ts. case takeElement 0 ts of
         None \<Rightarrow> (Inl ''unexpected EOF'', []) | Some (body, rest) \<Rightarrow> (unmarshal (t # body), rest)),
      toMatch = (\<lambda>t. newStartTokenNameMatcher name (Some t))\<rparr>"

lemma takeElement_shorter: "takeElement depth ts = Some (a, b) \<Longrightarrow> length b \<le> length ts"
  by (induction depth ts arbitrary: a b rule: takeElement.induct) (fastforce split: nat.splits)+

lemma simpleTokenOrder_reads: "reads length (simpleTokenOrder unmarshal name)"
  using takeElement_shorter by (auto simp: reads_def simpleTokenOrder_def split: list.splits option.splits)

section \<open>Documents\<close>

datatype xmlNode = Element string "xmlNode list" | CharNode

fun tokensOf :: "xmlNode \<Rightarrow> xmlToken list" where
  "tokensOf (Element n cs) = StartElement n # concat (map tokensOf cs) @ [EndElement]"
| "tokensOf CharNode = [CharData]"

text \<open>The elements of a name that are not inside another one, in the order of the document.\<close>

fun outermost :: "string \<Rightarrow> xmlNode \<Rightarrow> xmlNode list" where
  "outermost name (Element n cs) = (if n = name then [Element n cs] else concat (map (outermost name) cs))"
| "outermost name CharNode = []"

lemma takeElement_node:
  "takeElement depth (tokensOf x @ ts) = map_option (\<lambda>p. (tokensOf x @ fst p, snd p)) (takeElement depth ts)"
proof (induction x arbitrary: depth ts)
  case (Element n cs)
  have "takeElement d (concat (map tokensOf cs) @ us) =
      map_option (\<lambda>p. (concat (map tokensOf cs) @ fst p, snd p)) (takeElement d us)" for d us
    using Element.IH
  proof (induction cs arbitrary: us)
    case Nil
    show ?case by (cases "takeElement d us") simp_all
  qed (simp add: option.map_comp comp_def)
  then show ?case by (simp add: option.map_comp comp_def case_prod_unfold)
qed (simp add: case_prod_unfold)

lemma takeElement_nodes:
  "takeElement 0 (concat (map tokensOf cs) @ EndElement # ts) = Some (concat (map tokensOf cs) @ [EndElement], ts)"
  by (induction cs) (simp_all add: takeElement_node)

lemma parseFrom_node:
  fixes unmarshal :: "xmlToken list \<Rightarrow> string + 'v" and name :: string
  defines "run k ts out \<equiv> parseFrom (simpleTokenOrder unmarshal name) (\<lambda>_. False) k ts out"
  shows "\<exists>k'. run k (tokensOf x @ ts) out = run k' ts (out @ map (\<lambda>n. itemFrom (unmarshal (tokensOf n))) (outermost name x))"
proof (induction x arbitrary: k ts out)
  case (Element n cs)
  show ?case
  proof (cases "n = name")
    case True
    then have "run k (tokensOf (Element n cs) @ ts) out =
        run (k + 3) ts (out @ map (\<lambda>n. itemFrom (unmarshal (tokensOf n))) (outermost name (Element n cs)))"
      unfolding run_def
      by (subst parseFrom_unfold) (simp add: simpleTokenOrder_def newStartTokenNameMatcher_def takeElement_nodes emit_def)
    then show ?thesis by blast
  next
    case False
    have skip: "run k (tokensOf (Element n cs) @ ts) out = run (k + 1) (concat (map tokensOf cs) @ EndElement # ts) out"
      unfolding run_def
      by (subst parseFrom_unfold) (simp add: simpleTokenOrder_def newStartTokenNameMatcher_def False)
    have ends: "run k (EndElement # ts) out = run (k + 1) ts out" for k out
      unfolding run_def by (subst parseFrom_unfold) (simp add: simpleTokenOrder_def newStartTokenNameMatcher_def)
    have "\<exists>k'. run k (concat (map tokensOf cs) @ us) out =
        run k' us (out @ map (\<lambda>n. itemFrom (unmarshal (tokensOf n))) (concat (map (outermost name) cs)))" for k us out
      using Element.IH
    proof (induction cs arbitrary: k out)
      case (Cons x cs)
      obtain k1 where "run k (tokensOf x @ concat (map tokensOf cs) @ us) out =
          run k1 (concat (map tokensOf cs) @ us) (out @ map (\<lambda>n. itemFrom (unmarshal (tokensOf n))) (outermost name x))"
        using Cons.prems [of x] by fastforce
      with Cons.IH [of k1 "out @ map (\<lambda>n. itemFrom (unmarshal (tokensOf n))) (outermost name x)"] Cons.prems
      show ?case by fastforce
    qed auto
    from this [of "k + 1" "EndElement # ts" out] obtain k2 where
      "run (k + 1) (concat (map tokensOf cs) @ EndElement # ts) out =
        run k2 (EndElement # ts) (out @ map (\<lambda>n. itemFrom (unmarshal (tokensOf n))) (concat (map (outermost name) cs)))" by blast
    then show ?thesis unfolding skip using False ends by auto
  qed
next
  case CharNode
  have "run k (CharData # ts) out = run (k + 1) ts out"
    unfolding run_def by (subst parseFrom_unfold) (simp add: simpleTokenOrder_def newStartTokenNameMatcher_def)
  then show ?case by auto
qed

section \<open>Properties\<close>




end
