(* ===== verification/Spec2Isabelle.thy ===== *)
theory Spec2Isabelle
  imports Schema_Migration Cache Transform Relation_Import Import_Locks Entity_Import Main_Release Import_Steps
    Import_Progress Import_Run Xml_Parser
begin

end
